(* ===== verification/Prelude.thy ===== *)
theory Prelude
  imports
    Main
    "HOL-Library.Word"
    "HOL-Library.Multiset"
    "HOL-Library.Char_ord"
    "HOL-Library.List_Lexorder"
    "HOL-Library.Product_Lexorder"
begin

text \<open>
  The vocabulary shared by every component: Go's \<open>int64\<close> as a 64-bit word read by \<^const>\<open>sint\<close>,
  UUIDs as 128-bit words (their unsigned order is the byte order of PostgreSQL's \<open>uuid\<close> type),
  instants as nanoseconds, byte strings as \<^typ>\<open>string\<close>, the error sum with its bind, decimal
  printing and parsing (\<open>strconv\<close>), and the generic lemmas on words, lists and sums that the
  component proofs rewrite with.
\<close>

section \<open>Collections of facts\<close>

named_theorems store_simps \<open>unfolding equations of the SQL layer and the store operations\<close>
named_theorems frame_simps \<open>which tables a statement leaves alone\<close>

section \<open>Basic types\<close>

type_synonym int64 = "64 word"
type_synonym uuid = "128 word"
type_synonym timestamp = int
type_synonym byte = "8 word"
type_synonym bytes = "byte list"
type_synonym metadata = "(string \<times> string) list option"

abbreviation uuid_Nil :: uuid where
  "uuid_Nil \<equiv> 0"

abbreviation MinInt64 :: int where
  "MinInt64 \<equiv> - (2 ^ 63)"

abbreviation MaxInt64 :: int where
  "MaxInt64 \<equiv> 2 ^ 63 - 1"

text \<open>Whether an integer is representable in an \<open>int64\<close> (and in a PostgreSQL \<open>BIGINT\<close>).\<close>

definition fits64 :: "int \<Rightarrow> bool" where
  "fits64 x \<longleftrightarrow> MinInt64 \<le> x \<and> x \<le> MaxInt64"

text \<open>Go's zero \<open>time.Time\<close>: 1 January of year 1, UTC, in nanoseconds from the Unix epoch.\<close>

definition zeroTime :: timestamp where
  "zeroTime = - 62135596800 * 10 ^ 9"

section \<open>Results: errors on the left\<close>

definition bindE :: "'e + 'a \<Rightarrow> ('a \<Rightarrow> 'e + 'b) \<Rightarrow> 'e + 'b" where
  "bindE m f = (case m of Inl e \<Rightarrow> Inl e | Inr x \<Rightarrow> f x)"

lemma bindE_simps [simp]:
  "bindE (Inl e) f = Inl e"
  "bindE (Inr x) f = f x"
  by (simp_all add: bindE_def)

lemma bindE_Inr_iff: "bindE m f = Inr y \<longleftrightarrow> (\<exists>x. m = Inr x \<and> f x = Inr y)"
  by (cases m) auto

lemma bindE_Inl_iff: "bindE m f = Inl e \<longleftrightarrow> m = Inl e \<or> (\<exists>x. m = Inr x \<and> f x = Inl e)"
  by (cases m) auto

lemma bindE_cong: "m = m' \<Longrightarrow> (\<And>x. m' = Inr x \<Longrightarrow> f x = f' x) \<Longrightarrow> bindE m f = bindE m' f'"
  by (cases m') auto

section \<open>Signed 64-bit arithmetic\<close>

lemma sint64_range: "MinInt64 \<le> sint (w :: int64)" "sint (w :: int64) \<le> MaxInt64"
  using sint_range_size [of w] by (simp_all add: word_size)

lemma fits64_sint [simp]: "fits64 (sint (w :: int64))"
  using sint64_range [of w] by (simp add: fits64_def)

text \<open>Two's complement: the value read back from any integer stored in 64 bits.\<close>

lemma sint_wrap: "sint (word_of_int x :: int64) = (x + 2 ^ 63) mod 2 ^ 64 - 2 ^ 63"
  by (simp add: signed_of_int signed_take_bit_eq_take_bit_shift take_bit_eq_mod)

lemma sint_of_int64: "fits64 x \<Longrightarrow> sint (word_of_int x :: int64) = x"
  by (simp add: fits64_def sint_wrap)

lemma sint_above:
  assumes "MaxInt64 < x" and "x \<le> MaxInt64 + 2 ^ 63"
  shows "sint (word_of_int x :: int64) = x - 2 ^ 64"
proof -
  have "(x + 2 ^ 63) mod 2 ^ 64 = (x + 2 ^ 63 - 2 ^ 64) mod 2 ^ 64"
    by (rule minus_mod_self2 [symmetric])
  also have "\<dots> = x + 2 ^ 63 - 2 ^ 64"
    by (rule mod_pos_pos_trivial) (use assms in simp_all)
  finally show ?thesis by (simp add: sint_wrap)
qed

lemma sint_below:
  assumes "x < MinInt64" and "MinInt64 - 2 ^ 63 \<le> x"
  shows "sint (word_of_int x :: int64) = x + 2 ^ 64"
proof -
  have "(x + 2 ^ 63) mod 2 ^ 64 = (x + 2 ^ 63 + 2 ^ 64) mod 2 ^ 64"
    by (rule mod_add_self2 [symmetric])
  also have "\<dots> = x + 2 ^ 63 + 2 ^ 64"
    by (rule mod_pos_pos_trivial) (use assms in simp_all)
  finally show ?thesis by (simp add: sint_wrap)
qed

lemma int64_eq_iff: "(a :: int64) = b \<longleftrightarrow> sint a = sint b"
  by (metis of_int_sint scast_id)

lemma int64_of_sint [simp]: "word_of_int (sint (a :: int64)) = a"
  by simp

lemma int64_inj: "fits64 x \<Longrightarrow> fits64 y \<Longrightarrow> (word_of_int x :: int64) = word_of_int y \<longleftrightarrow> x = y"
  by (metis sint_of_int64)

lemma int64_value: "sint (u :: int64) = x \<Longrightarrow> fits64 x \<and> word_of_int x = u"
  by auto

lemma int64_ariths:
  fixes a b :: int64
  shows "a + b = word_of_int (sint a + sint b)"
    and "a - b = word_of_int (sint a - sint b)"
    and "- a = word_of_int (- sint a)"
    and "a * b = word_of_int (sint a * sint b)"
  by simp_all

text \<open>
  The sum of two \<open>int64\<close> values is exact unless both operands have the sign that the
  wrapped result has lost: the test Go code writes to detect overflow.
\<close>

lemma int64_add_cases:
  fixes a b :: int64
  shows "(fits64 (sint a + sint b) \<and> sint (a + b) = sint a + sint b)
    \<or> (MaxInt64 < sint a + sint b \<and> 0 < sint a \<and> 0 < sint b \<and> sint (a + b) < 0)
    \<or> (sint a + sint b < MinInt64 \<and> sint a < 0 \<and> sint b < 0 \<and> 0 \<le> sint (a + b))"
proof -
  let ?s = "sint a + sint b"
  have ab: "a + b = word_of_int ?s" by (rule int64_ariths)
  note r = sint64_range [of a] sint64_range [of b]
  consider "fits64 ?s" | "MaxInt64 < ?s" | "?s < MinInt64"
    unfolding fits64_def by linarith
  then show ?thesis
  proof cases
    case 1
    then have "sint (a + b) = ?s" unfolding ab by (rule sint_of_int64)
    with 1 show ?thesis by blast
  next
    case 2
    then have "sint (a + b) = ?s - 2 ^ 64" unfolding ab by (rule sint_above) (use r in linarith)
    with 2 r show ?thesis by simp
  next
    case 3
    then have "sint (a + b) = ?s + 2 ^ 64" unfolding ab by (rule sint_below) (use r in linarith)
    with 3 r show ?thesis by simp
  qed
qed

section \<open>Decimal numerals\<close>

definition is_digit :: "char \<Rightarrow> bool" where
  "is_digit c \<longleftrightarrow> CHR ''0'' \<le> c \<and> c \<le> CHR ''9''"

definition digit_val :: "char \<Rightarrow> nat" where
  "digit_val c = of_char c - 48"

definition digit_char :: "nat \<Rightarrow> char" where
  "digit_char n = char_of (48 + n)"

text \<open>\<open>fmt.Sprintf("%d", n)\<close> and \<open>strconv.FormatInt(i, 10)\<close>.\<close>

fun show_nat :: "nat \<Rightarrow> string" where
  "show_nat n = (if n < 10 then [digit_char n] else show_nat (n div 10) @ [digit_char (n mod 10)])"

declare show_nat.simps [simp del]

definition show_int :: "int \<Rightarrow> string" where
  "show_int i = (if i < 0 then CHR ''-'' # show_nat (nat (- i)) else show_nat (nat i))"

text \<open>The number a string of digits denotes, most significant digit first.\<close>

definition digits_val :: "string \<Rightarrow> nat" where
  "digits_val ds = foldl (\<lambda>v c. v * 10 + digit_val c) 0 ds"

lemma is_digit_code: "is_digit c \<longleftrightarrow> 48 \<le> (of_char c :: nat) \<and> (of_char c :: nat) \<le> 57"
  by (simp add: is_digit_def less_eq_char_def)

lemma digit_val_le: "is_digit c \<Longrightarrow> digit_val c \<le> 9"
  by (auto simp: is_digit_code digit_val_def)

lemma digit_char_props [simp]:
  assumes "n < 10"
  shows "is_digit (digit_char n)" and "digit_val (digit_char n) = n"
  using assms by (simp_all add: is_digit_code digit_char_def digit_val_def)

lemma is_digit_not_sep [simp]:
  "is_digit c \<Longrightarrow> c \<noteq> CHR ''-''" "is_digit c \<Longrightarrow> c \<noteq> CHR ''+''" "is_digit c \<Longrightarrow> c \<noteq> CHR ''.''"
  "is_digit c \<Longrightarrow> c \<noteq> CHR '',''" "is_digit c \<Longrightarrow> c \<noteq> CHR ''=''"
  by (auto simp: is_digit_code)

lemma digits_val_Nil [simp]: "digits_val [] = 0"
  by (simp add: digits_val_def)

lemma digits_val_snoc [simp]: "digits_val (ds @ [c]) = digits_val ds * 10 + digit_val c"
  by (simp add: digits_val_def)

lemma digits_val_zeros [simp]: "digits_val (ds @ replicate n (CHR ''0'')) = digits_val ds * 10 ^ n"
proof (induction n)
  case (Suc n)
  have "digits_val (ds @ replicate (Suc n) (CHR ''0'')) = digits_val ((ds @ replicate n (CHR ''0'')) @ [CHR ''0''])"
    by (simp add: replicate_append_same [symmetric])
  also have "\<dots> = digits_val ds * 10 ^ n * 10"
    by (simp only: digits_val_snoc Suc.IH) (simp add: digit_val_def)
  finally show ?case by (simp add: algebra_simps)
qed simp

lemma digits_val_append: "digits_val (as @ bs) = digits_val as * 10 ^ length bs + digits_val bs"
proof (induction bs rule: rev_induct)
  case (snoc c bs)
  then show ?case by (simp add: append_assoc [symmetric] algebra_simps del: append_assoc)
qed simp

lemma digits_val_Cons: "digits_val (c # cs) = digit_val c * 10 ^ length cs + digits_val cs"
  using digits_val_append [of "[c]" cs] digits_val_snoc [of "[]" c] by simp

lemma digits_val_lead0: "digits_val (replicate n (CHR ''0'') @ ds) = digits_val ds"
proof (induction ds rule: rev_induct)
  case Nil
  show ?case using digits_val_zeros [of "[]" n] by simp
next
  case (snoc c ds)
  then show ?case by (simp add: append_assoc [symmetric] del: append_assoc)
qed

lemma show_nat_digits [simp]: "c \<in> set (show_nat n) \<Longrightarrow> is_digit c"
proof (induction n rule: show_nat.induct)
  case (1 n)
  then show ?case by (auto simp: show_nat.simps [of n] split: if_splits)
qed

lemma show_nat_val [simp]: "digits_val (show_nat n) = n"
proof (induction n rule: show_nat.induct)
  case (1 n)
  then show ?case
    using digits_val_snoc [of "[]" "digit_char n"] by (simp add: show_nat.simps [of n])
qed

lemma show_nat_nonempty [simp]: "show_nat n \<noteq> []"
  by (simp add: show_nat.simps [of n])

text \<open>
  \<open>strconv.ParseInt(s, 10, 64)\<close>: an optional sign, then digits only; the empty string, any
  other byte and a value outside \<open>int64\<close> are errors.
\<close>

definition strip_sign :: "string \<Rightarrow> bool \<times> string" where
  "strip_sign s = (case s of
     [] \<Rightarrow> (False, [])
   | c # cs \<Rightarrow> if c = CHR ''-'' then (True, cs) else if c = CHR ''+'' then (False, cs) else (False, s))"

definition ParseInt :: "string \<Rightarrow> int64 option" where
  "ParseInt s = (let (neg, ds) = strip_sign s;
                     v = (if neg then - int (digits_val ds) else int (digits_val ds))
                 in if ds \<noteq> [] \<and> list_all is_digit ds \<and> fits64 v then Some (word_of_int v) else None)"

lemma strip_sign_digits: "ds \<noteq> [] \<Longrightarrow> list_all is_digit ds \<Longrightarrow> strip_sign ds = (False, ds)"
  by (cases ds) (auto simp: strip_sign_def)

lemma strip_sign_minus [simp]: "strip_sign (CHR ''-'' # ds) = (True, ds)"
  by (simp add: strip_sign_def)

lemma show_nat_all_digits [simp]: "list_all is_digit (show_nat n)"
  by (simp add: list_all_iff)

lemma ParseInt_show_int [simp]: "ParseInt (show_int (sint w)) = Some w"
  by (simp add: ParseInt_def show_int_def strip_sign_digits)

lemma ParseInt_Some_value:
  "ParseInt s = Some w \<Longrightarrow> sint w = (if fst (strip_sign s) then - int (digits_val (snd (strip_sign s)))
     else int (digits_val (snd (strip_sign s))))"
  by (auto simp: ParseInt_def Let_def dest!: sint_of_int64 split: prod.splits if_splits)

section \<open>Lists and sums\<close>

lemma find_Some_filter: "find P xs = Some x \<Longrightarrow> x \<in> set xs \<and> P x"
  by (induction xs) (auto split: if_splits)

lemma sum_list_filter_split:
  "sum_list (map f (filter P xs)) = (\<Sum>x\<leftarrow>xs. if P x then f x else (0 :: int))"
  by (induction xs) auto

lemma sum_list_mset:
  assumes "mset xs = mset ys"
  shows "sum_list (map f xs) = (sum_list (map f ys) :: int)"
proof -
  have "mset (map f xs) = mset (map f ys)" using assms by simp
  then show ?thesis by (metis sum_mset_sum_list)
qed

lemma sum_list_sort_key [simp]: "sum_list (map f (sort_key k xs)) = (sum_list (map f xs) :: int)"
  by (rule sum_list_mset) simp

lemma sum_list_mono_pos: "(\<And>x. x \<in> set xs \<Longrightarrow> 0 \<le> f x) \<Longrightarrow> 0 \<le> (sum_list (map f xs) :: int)"
  by (induction xs) auto

section \<open>Invariants of transition systems\<close>

text \<open>A property that holds initially and that every step keeps holds in every reachable state.\<close>

locale invariant_of =
  fixes start :: 's and step :: "'s \<Rightarrow> 's \<Rightarrow> bool" and inv :: "'s \<Rightarrow> bool"
  assumes base: "inv start" and keep: "inv s \<Longrightarrow> step s s' \<Longrightarrow> inv s'"
begin

lemma reachable: "step\<^sup>*\<^sup>* start s \<Longrightarrow> inv s"
  by (induction rule: rtranclp_induct) (auto intro: base keep)

end

end
