(* ===== verification/Money.thy ===== *)
theory Money
  imports Prelude
begin

text \<open>
  The shared money library, \<open>libs/go/money/money.go\<close>: amounts in minor units, overflow-checked
  addition and subtraction, and the decimal formatting and parsing boundary. The lemmas show
  that the overflow tests are exact, that \<open>ParseUnits\<close> computes the decimal value of exactly
  the strings it accepts, and that formatting and parsing are inverse on every \<open>int64\<close>.
\<close>

section \<open>Definitions\<close>

datatype money_error = ErrOverflow | ErrAssetMismatch | ErrInvalidAsset | ErrInvalidDecimal | ErrTooManyDigits

record Amount =
  Asset :: string
  Units :: int64

definition minInt64 :: int64 where
  "minInt64 = word_of_int MinInt64"

definition maxInt64 :: int64 where
  "maxInt64 = word_of_int MaxInt64"

definition asset_char :: "char \<Rightarrow> bool" where
  "asset_char r \<longleftrightarrow> \<not> ((r < CHR ''A'' \<or> r > CHR ''Z'') \<and> (r < CHR ''0'' \<or> r > CHR ''9''))"

definition ValidateAssetCode :: "string \<Rightarrow> money_error + unit" where
  "ValidateAssetCode code =
     (if length code = 0 \<or> length code > 12 then Inl ErrInvalidAsset
      else if list_ex (\<lambda>r. \<not> asset_char r) code then Inl ErrInvalidAsset
      else Inr ())"

definition money_New :: "string \<Rightarrow> int64 \<Rightarrow> money_error + Amount" where
  "money_New asset units =
     bindE (ValidateAssetCode asset) (\<lambda>_. Inr \<lparr>Asset = asset, Units = units\<rparr>)"

definition Amount_Add :: "Amount \<Rightarrow> Amount \<Rightarrow> money_error + Amount" where
  "Amount_Add a b =
     (if Asset a \<noteq> Asset b then Inl ErrAssetMismatch
      else let s = Units a + Units b in
        if (sint (Units a) > 0 \<and> sint (Units b) > 0 \<and> sint s < 0)
           \<or> (sint (Units a) < 0 \<and> sint (Units b) < 0 \<and> sint s \<ge> 0)
        then Inl ErrOverflow
        else Inr \<lparr>Asset = Asset a, Units = s\<rparr>)"

definition Amount_Sub :: "Amount \<Rightarrow> Amount \<Rightarrow> money_error + Amount" where
  "Amount_Sub a b =
     (if Asset a \<noteq> Asset b then Inl ErrAssetMismatch
      else if Units b = minInt64 then
        (if sint (Units a) \<ge> 0 then Inl ErrOverflow
         else Inr \<lparr>Asset = Asset a, Units = Units a - Units b\<rparr>)
      else case Amount_Add a \<lparr>Asset = Asset b, Units = - Units b\<rparr> of
             Inl _ \<Rightarrow> Inl ErrOverflow
           | Inr res \<Rightarrow> Inr res)"

definition Amount_Neg :: "Amount \<Rightarrow> money_error + Amount" where
  "Amount_Neg a =
     (if Units a = minInt64 then Inl ErrOverflow
      else Inr \<lparr>Asset = Asset a, Units = - Units a\<rparr>)"

definition Amount_IsZero :: "Amount \<Rightarrow> bool" where
  "Amount_IsZero a \<longleftrightarrow> Units a = 0"

definition FormatWithExponent :: "Amount \<Rightarrow> int \<Rightarrow> string" where
  "FormatWithExponent a exp =
     (if exp \<le> 0 then show_int (sint (Units a))
      else let u = Units a;
               neg = (sint u < 0);
               sign = (if neg then ''-'' else '''');
               abs = (if neg then - (u + 1) + 1 else u);
               digits0 = show_nat (unat abs);
               e = nat exp;
               digits = (if length digits0 \<le> e
                         then replicate (e - length digits0 + 1) (CHR ''0'') @ digits0 else digits0);
               cut = length digits - e
           in sign @ take cut digits @ ''.'' @ drop cut digits)"

text \<open>
  The accumulation loop of \<open>ParseUnits\<close>: the remaining digits and the units read so far; the
  Go index test \<open>i == len(intPart)+len(fracPart)-1\<close> is that no digit remains.
\<close>

fun parse_loop :: "bool \<Rightarrow> string \<Rightarrow> int64 \<Rightarrow> money_error + int64" where
  "parse_loop negative [] units = Inr (if negative then - units else units)"
| "parse_loop negative (c # cs) units =
     (let d = word_of_nat (digit_val c) :: int64 in
      if sint units > MaxInt64 div 10 then Inl ErrOverflow
      else let units = units * 10 in
        if sint units > sint (maxInt64 - d)
        then (if negative \<and> units = maxInt64 - d + 1 \<and> cs = [] then Inr minInt64 else Inl ErrOverflow)
        else parse_loop negative cs (units + d))"

declare parse_loop.simps(2) [simp del]

text \<open>\<open>s[:i]\<close> and \<open>s[i+1:]\<close> around the first decimal point, or all of \<open>s\<close> and no fraction.\<close>

definition split_point :: "string \<Rightarrow> string \<times> string" where
  "split_point s =
     (takeWhile (\<lambda>c. c \<noteq> CHR ''.'') s,
      if CHR ''.'' \<in> set s then tl (dropWhile (\<lambda>c. c \<noteq> CHR ''.'') s) else '''')"

definition ParseUnits :: "string \<Rightarrow> int \<Rightarrow> money_error + int64" where
  "ParseUnits decimal exp =
     (if exp < 0 then Inl ErrInvalidDecimal
      else if decimal = '''' then Inl ErrInvalidDecimal
      else case strip_sign decimal of (negative, s) \<Rightarrow>
        if s = '''' \<or> s = ''.'' then Inl ErrInvalidDecimal
        else case split_point s of (intPart0, fracPart0) \<Rightarrow>
          if CHR ''.'' \<in> set fracPart0 then Inl ErrInvalidDecimal
          else let intPart = (if intPart0 = '''' then ''0'' else intPart0) in
            if list_ex (\<lambda>c. \<not> is_digit c) intPart \<or> list_ex (\<lambda>c. \<not> is_digit c) fracPart0
            then Inl ErrInvalidDecimal
            else if int (length fracPart0) > exp then Inl ErrTooManyDigits
            else let fracPart = fracPart0 @ replicate (nat exp - length fracPart0) (CHR ''0'')
                 in parse_loop negative (intPart @ fracPart) 0)"

section \<open>Addition and subtraction\<close>

lemma Amount_Add_spec:
  "Amount_Add a b =
     (if Asset a \<noteq> Asset b then Inl ErrAssetMismatch
      else if fits64 (sint (Units a) + sint (Units b))
      then Inr \<lparr>Asset = Asset a, Units = word_of_int (sint (Units a) + sint (Units b))\<rparr>
      else Inl ErrOverflow)"
proof -
  let ?a = "Units a" and ?b = "Units b"
  have e: "word_of_int (sint ?a + sint ?b) = ?a + ?b" by (simp only: int64_ariths)
  show ?thesis
    using int64_add_cases [of ?a ?b]
    unfolding Amount_Add_def Let_def e fits64_def by auto
qed

lemma Amount_Add_Inr:
  "Amount_Add a b = Inr c \<longleftrightarrow>
     Asset a = Asset b \<and> Asset c = Asset a \<and> fits64 (sint (Units a) + sint (Units b))
     \<and> sint (Units c) = sint (Units a) + sint (Units b)"
proof -
  have "Inr \<lparr>Asset = Asset a, Units = w\<rparr> = (Inr c :: money_error + Amount) \<longleftrightarrow>
      Asset c = Asset a \<and> Units c = w" for w
    by (cases c) auto
  then show ?thesis
    unfolding Amount_Add_spec
    by (auto simp: int64_eq_iff [of "Units c"] sint_of_int64 simp del: of_int_add)
qed

lemma sint_minInt64 [simp]: "sint minInt64 = MinInt64"
  unfolding minInt64_def by (rule sint_of_int64) (simp add: fits64_def)

lemma sint_maxInt64 [simp]: "sint maxInt64 = MaxInt64"
  unfolding maxInt64_def by (rule sint_of_int64) (simp add: fits64_def)

lemma sint_uminus: "w \<noteq> minInt64 \<Longrightarrow> sint (- w) = - sint (w :: int64)"
proof -
  assume "w \<noteq> minInt64"
  then have "sint w \<noteq> MinInt64" by (metis int64_eq_iff sint_minInt64)
  then have "fits64 (- sint w)" using sint64_range [of w] by (simp add: fits64_def)
  then show ?thesis by (metis int64_ariths(3) sint_of_int64)
qed

lemma Amount_Sub_spec:
  "Amount_Sub a b =
     (if Asset a \<noteq> Asset b then Inl ErrAssetMismatch
      else if fits64 (sint (Units a) - sint (Units b))
      then Inr \<lparr>Asset = Asset a, Units = word_of_int (sint (Units a) - sint (Units b))\<rparr>
      else Inl ErrOverflow)"
proof (cases "Units b = minInt64")
  case True
  have e: "Units a - Units b = word_of_int (sint (Units a) - sint (Units b))"
    by (simp only: int64_ariths)
  show ?thesis
    using True sint64_range [of "Units a"]
    unfolding Amount_Sub_def e by (auto simp: fits64_def simp del: of_int_diff)
next
  case False
  then show ?thesis
    unfolding Amount_Sub_def Amount_Add_spec by (auto simp: sint_uminus simp del: of_int_diff)
qed

section \<open>Parsing\<close>

lemma sint_digit: "is_digit c \<Longrightarrow> sint (word_of_nat (digit_val c) :: int64) = int (digit_val c)"
  using digit_val_le [of c] sint_of_int64 [of "int (digit_val c)"] by (simp add: fits64_def)

text \<open>
  The digits that take the accumulator past \<open>MaxInt64\<close>: only a final 8 of a negative numeral
  is still in range, where the loop returns \<open>MinInt64\<close>.
\<close>

lemma parse_edge_value:
  assumes "int v = 922337203685477580" and "8 \<le> d" and "d \<le> 9"
    and n: "n = (int v * 10 + int d) * 10 ^ length cs + int (digits_val cs)"
  shows "\<not> fits64 n" and "fits64 (- n) \<longleftrightarrow> d = 8 \<and> cs = []" and "d = 8 \<and> cs = [] \<Longrightarrow> - n = MinInt64"
proof -
  have "1 \<le> (10 :: int) ^ length cs" by simp
  then have "9223372036854775808 * 1 \<le> (int v * 10 + int d) * 10 ^ length cs"
    by (intro mult_mono) (use assms in auto)
  then show "\<not> fits64 n" unfolding n by (simp add: fits64_def)
  show "fits64 (- n) \<longleftrightarrow> d = 8 \<and> cs = []"
  proof (cases cs)
    case Nil
    then show ?thesis using assms by (auto simp: fits64_def)
  next
    case (Cons c' cs')
    then have "10 * 1 \<le> (10 :: int) ^ length cs" by simp
    then have "9223372036854775808 * 10 \<le> (int v * 10 + int d) * 10 ^ length cs"
      by (intro mult_mono) (use assms in auto)
    then have "9223372036854775808 * 10 \<le> n" unfolding n by linarith
    then show ?thesis using Cons by (simp add: fits64_def)
  qed
  show "d = 8 \<and> cs = [] \<Longrightarrow> - n = MinInt64" by (simp add: n assms(1))
qed

lemma parse_loop_edge:
  assumes "is_digit c" and u: "sint units = int v" and v: "int v = 922337203685477580"
    and d8: "8 \<le> digit_val c"
  shows "parse_loop neg (c # cs) units =
    (if neg \<and> digit_val c = 8 \<and> cs = [] then Inr minInt64 else Inl ErrOverflow)"
proof -
  let ?d = "word_of_nat (digit_val c) :: int64"
  have d9: "digit_val c \<le> 9" and sd: "sint ?d = int (digit_val c)"
    using assms(1) digit_val_le sint_digit by simp_all
  have u10: "sint (units * 10) = int v * 10"
    using sint_of_int64 [of "int v * 10"] u v by (simp only: int64_ariths) (simp add: fits64_def)
  have smax: "sint (maxInt64 - ?d) = MaxInt64 - int (digit_val c)"
    using sint_of_int64 [of "MaxInt64 - int (digit_val c)"] d9 sd
    by (simp only: int64_ariths sint_maxInt64) (simp add: fits64_def)
  have smax1: "sint (maxInt64 - ?d + 1) = MaxInt64 - int (digit_val c) + 1"
    using sint_of_int64 [of "MaxInt64 - int (digit_val c) + 1"] d9 d8
    by (simp only: int64_ariths(1) [of "maxInt64 - ?d"] smax) (simp add: fits64_def)
  have "units * 10 = maxInt64 - ?d + 1 \<longleftrightarrow> digit_val c = 8"
    using d9 by (simp only: int64_eq_iff u10 smax1 v) auto
  then show ?thesis
    using d8 v u by (simp only: parse_loop.simps Let_def u10 smax) auto
qed

lemma parse_loop_next:
  assumes "is_digit c" and u: "sint units = int v" and le: "int v * 10 + int (digit_val c) \<le> MaxInt64"
  shows "parse_loop neg (c # cs) units = parse_loop neg cs (units * 10 + word_of_nat (digit_val c))"
    and "sint (units * 10 + word_of_nat (digit_val c)) = int (v * 10 + digit_val c)"
proof -
  let ?d = "word_of_nat (digit_val c) :: int64"
  have d9: "digit_val c \<le> 9" and sd: "sint ?d = int (digit_val c)"
    using assms(1) digit_val_le sint_digit by simp_all
  have u10: "sint (units * 10) = int v * 10"
    using sint_of_int64 [of "int v * 10"] u le by (simp only: int64_ariths) (simp add: fits64_def)
  have smax: "sint (maxInt64 - ?d) = MaxInt64 - int (digit_val c)"
    using sint_of_int64 [of "MaxInt64 - int (digit_val c)"] d9 sd
    by (simp only: int64_ariths sint_maxInt64) (simp add: fits64_def)
  show "parse_loop neg (c # cs) units = parse_loop neg cs (units * 10 + ?d)"
    using le u by (simp only: parse_loop.simps Let_def u10 smax) auto
  show "sint (units * 10 + ?d) = int (v * 10 + digit_val c)"
    using le sint_of_int64 [of "int v * 10 + int (digit_val c)"] u10 sd
    by (simp only: int64_ariths(1) [of "units * 10"]) (simp add: fits64_def)
qed

text \<open>The loop computes the exact value of the digits, or reports overflow.\<close>

lemma parse_loop_exact:
  assumes "list_all is_digit cs" and "sint units = int v"
  shows "parse_loop neg cs units =
    (let n = int (v * 10 ^ length cs + digits_val cs); w = (if neg then - n else n)
     in if fits64 w then Inr (word_of_int w) else Inl ErrOverflow)"
  using assms
proof (induction cs arbitrary: units v)
  case Nil
  have "fits64 (int v)" "fits64 (- int v)" using sint64_range [of units] Nil.prems(2)
    by (simp_all add: fits64_def)
  moreover have "word_of_int (int v) = units" using Nil.prems(2) by (metis int64_of_sint)
  ultimately show ?case by (simp add: Let_def)
next
  case (Cons c cs)
  define n where "n = (int v * 10 + int (digit_val c)) * 10 ^ length cs + int (digits_val cs)"
  have n: "int (v * 10 ^ length (c # cs) + digits_val (c # cs)) = n"
    by (simp add: n_def digits_val_Cons algebra_simps)
  have dig: "is_digit c" and d9: "digit_val c \<le> 9" using Cons.prems(1) digit_val_le by simp_all
  consider (early) "sint units > MaxInt64 div 10" | (last) "int v * 10 + int (digit_val c) \<le> MaxInt64"
    | (edge) "int v = 922337203685477580" "8 \<le> digit_val c"
    using Cons.prems(2) d9 by force
  then show ?case
  proof cases
    case early
    have "int v * 10 + int (digit_val c) \<le> n"
      unfolding n_def using mult_left_mono [of 1 "10 ^ length cs" "int v * 10 + int (digit_val c)"] by simp
    then have "MaxInt64 + 3 \<le> n" using early Cons.prems(2) by simp
    then have "\<not> fits64 n" "\<not> fits64 (- n)" by (simp_all add: fits64_def)
    with early show ?thesis by (simp only: parse_loop.simps n Let_def) auto
  next
    case last
    note step = parse_loop_next [OF dig Cons.prems(2) last]
    have "parse_loop neg (c # cs) units =
        (let w = (if neg then - n else n) in if fits64 w then Inr (word_of_int w) else Inl ErrOverflow)"
      using Cons.IH [OF _ step(2)] Cons.prems(1) by (simp add: step(1) n_def Let_def)
    then show ?thesis by (simp only: n Let_def)
  next
    case edge
    then show ?thesis
      using parse_edge_value [OF edge d9 n_def] parse_loop_edge [OF dig Cons.prems(2) edge]
      unfolding n Let_def by (auto simp: minInt64_def)
  qed
qed

text \<open>The shape of a decimal numeral: a sign, integer digits, and a point with fraction digits.\<close>

definition decimal_text :: "string \<Rightarrow> string \<Rightarrow> bool \<Rightarrow> string \<Rightarrow> string" where
  "decimal_text sign ip dot fp = sign @ ip @ (if dot then ''.'' @ fp else '''')"

definition decimal_shape :: "string \<Rightarrow> string \<Rightarrow> bool \<Rightarrow> string \<Rightarrow> bool" where
  "decimal_shape sign ip dot fp \<longleftrightarrow>
     sign \<in> {'''', ''+'', ''-''} \<and> list_all is_digit ip \<and> list_all is_digit fp
     \<and> (ip \<noteq> [] \<or> fp \<noteq> []) \<and> (fp \<noteq> [] \<longrightarrow> dot)"

text \<open>Its value in minor units of an asset with \<open>exp\<close> decimals.\<close>

definition decimal_units :: "string \<Rightarrow> string \<Rightarrow> string \<Rightarrow> int \<Rightarrow> int" where
  "decimal_units sign ip fp exp =
     (let n = int (digits_val (ip @ fp) * 10 ^ (nat exp - length fp)) in if sign = ''-'' then - n else n)"

lemma digits_no_point: "list_all is_digit ds \<Longrightarrow> CHR ''.'' \<notin> set ds"
  by (auto simp: list_all_iff dest: is_digit_not_sep)

lemma takeWhile_digits: "list_all is_digit ds \<Longrightarrow> takeWhile (\<lambda>c. c \<noteq> CHR ''.'') (ds @ CHR ''.'' # xs) = ds"
  by (subst takeWhile_append2) (auto dest: digits_no_point)

lemma dropWhile_digits:
  "list_all is_digit ds \<Longrightarrow> dropWhile (\<lambda>c. c \<noteq> CHR ''.'') (ds @ CHR ''.'' # xs) = CHR ''.'' # xs"
  by (subst dropWhile_append2) (auto dest: digits_no_point)

lemma takeWhile_all_digits: "list_all is_digit ds \<Longrightarrow> takeWhile (\<lambda>c. c \<noteq> CHR ''.'') ds = ds"
  by (auto simp: takeWhile_eq_all_conv dest: digits_no_point)

lemma strip_sign_decimal:
  assumes "decimal_shape sign ip dot fp"
  shows "strip_sign (decimal_text sign ip dot fp) = (sign = ''-'', decimal_text '''' ip dot fp)"
proof (cases ip)
  case Nil
  then show ?thesis using assms by (auto simp: decimal_shape_def decimal_text_def strip_sign_def)
next
  case (Cons c cs)
  then have "is_digit c" using assms by (simp add: decimal_shape_def)
  then show ?thesis using Cons assms
    by (auto simp: decimal_shape_def decimal_text_def strip_sign_def)
qed

lemma split_point_decimal:
  assumes "decimal_shape sign ip dot fp"
  shows "split_point (decimal_text '''' ip dot fp) = (ip, fp)"
  using assms
  by (auto simp: split_point_def decimal_shape_def decimal_text_def takeWhile_digits dropWhile_digits
      takeWhile_all_digits digits_no_point)

lemma split_point_text:
  assumes "split_point b = (ip, fp)"
  shows "\<exists>dot. b = decimal_text '''' ip dot fp \<and> (fp \<noteq> [] \<longrightarrow> dot)"
proof (cases "CHR ''.'' \<in> set b")
  case True
  let ?dw = "dropWhile (\<lambda>c. c \<noteq> CHR ''.'') b"
  from True have "?dw \<noteq> []" by (auto simp: dropWhile_eq_Nil_conv)
  then have "?dw = CHR ''.'' # tl ?dw"
    using hd_dropWhile [of "\<lambda>c. c \<noteq> CHR ''.''" b] by (metis list.collapse)
  then have "b = ip @ CHR ''.'' # fp"
    using True assms takeWhile_dropWhile_id [of "\<lambda>c. c \<noteq> CHR ''.''" b]
    by (simp only: split_point_def if_True prod.inject)
  then show ?thesis by (auto simp: decimal_text_def intro: exI [of _ True])
next
  case False
  then have "ip = b" "fp = []" using assms by (auto simp: split_point_def takeWhile_eq_all_conv)
  then show ?thesis by (auto simp: decimal_text_def)
qed

lemma ParseUnits_decimal:
  assumes sh: "decimal_shape sign ip dot fp" and "0 \<le> exp"
  shows "ParseUnits (decimal_text sign ip dot fp) exp =
    (if int (length fp) > exp then Inl ErrTooManyDigits
     else parse_loop (sign = ''-'')
       ((if ip = [] then ''0'' else ip) @ fp @ replicate (nat exp - length fp) (CHR ''0'')) 0)"
proof -
  let ?s = "decimal_text '''' ip dot fp"
  have "CHR ''.'' \<notin> set fp" "CHR ''.'' \<notin> set ip"
    using sh by (auto simp: decimal_shape_def digits_no_point)
  moreover have "\<not> list_ex (\<lambda>c. \<not> is_digit c) (if ip = [] then ''0'' else ip)" "\<not> list_ex (\<lambda>c. \<not> is_digit c) fp"
    using sh by (auto simp: list_all_iff list_ex_iff decimal_shape_def is_digit_code)
  moreover from calculation have "decimal_text sign ip dot fp \<noteq> []" "?s \<noteq> []" "?s \<noteq> ''.''"
    using sh by (auto simp: decimal_shape_def decimal_text_def append_eq_Cons_conv)
  ultimately show ?thesis
    using assms(2)
    by (simp only: ParseUnits_def strip_sign_decimal [OF sh] split_point_decimal [OF sh] prod.case Let_def) simp
qed

lemma ParseUnits_value:
  assumes "decimal_shape sign ip dot fp" and "0 \<le> exp"
  shows "ParseUnits (decimal_text sign ip dot fp) exp =
    (if int (length fp) > exp then Inl ErrTooManyDigits
     else if fits64 (decimal_units sign ip fp exp) then Inr (word_of_int (decimal_units sign ip fp exp))
     else Inl ErrOverflow)"
proof -
  let ?ds = "(if ip = [] then ''0'' else ip) @ fp @ replicate (nat exp - length fp) (CHR ''0'')"
  have "digits_val ?ds = digits_val (ip @ fp) * 10 ^ (nat exp - length fp)"
    using digits_val_lead0 [of 1 "fp @ replicate (nat exp - length fp) (CHR ''0'')"]
      digits_val_zeros [of "ip @ fp"] by auto
  moreover have "list_all is_digit ?ds"
    using assms(1) by (auto simp: decimal_shape_def is_digit_code list_all_iff)
  ultimately show ?thesis
    using parse_loop_exact [of ?ds 0 0]
    unfolding ParseUnits_decimal [OF assms] by (simp add: decimal_units_def Let_def)
qed

lemma ParseUnits_shape:
  assumes "ParseUnits s exp = Inr u"
  shows "0 \<le> exp \<and> (\<exists>sign ip dot fp. decimal_shape sign ip dot fp \<and> s = decimal_text sign ip dot fp)"
proof -
  obtain neg b ip fp where sb: "strip_sign s = (neg, b)" and sp: "split_point b = (ip, fp)"
    by (metis surj_pair)
  then obtain sign where sign: "sign \<in> {'''', ''+'', ''-''}" "s = sign @ b"
    by (cases s) (auto simp: strip_sign_def split: if_splits)
  from assms sb sp have b: "0 \<le> exp" "b \<noteq> []" "b \<noteq> ''.''"
    and "list_all is_digit ip" "list_all is_digit fp"
    by (auto simp: ParseUnits_def Let_def list_all_iff list_ex_iff split: if_splits)
  moreover obtain dot where "b = decimal_text '''' ip dot fp" "fp \<noteq> [] \<longrightarrow> dot"
    using split_point_text [OF sp] by blast
  ultimately have "decimal_shape sign ip dot fp \<and> s = decimal_text sign ip dot fp"
    using sign by (auto simp: decimal_shape_def decimal_text_def split: if_splits)
  then show ?thesis using b(1) by blast
qed

section \<open>Formatting\<close>

lemma unat_of_int64: "0 \<le> x \<Longrightarrow> x < 2 ^ 64 \<Longrightarrow> unat (word_of_int x :: int64) = nat x"
  by (simp add: unat_eq_nat_uint uint_word_of_int take_bit_eq_mod)

lemma unat_abs_units:
  fixes u :: int64
  shows "unat (if sint u < 0 then - (u + 1) + 1 else u) = nat \<bar>sint u\<bar>"
proof -
  have "- (u + 1) + 1 = word_of_int (- sint u)" by simp
  then show ?thesis
    using unat_of_int64 [of "- sint u"] unat_of_int64 [of "sint u"] sint64_range [of u] by auto
qed

lemma FormatWithExponent_shape:
  assumes "0 \<le> exp"
  obtains sign ip dot fp where
    "FormatWithExponent a exp = decimal_text sign ip dot fp" and "decimal_shape sign ip dot fp"
    and "int (length fp) \<le> exp" and "decimal_units sign ip fp exp = sint (Units a)"
proof (cases "exp = 0")
  case True
  let ?sign = "if sint (Units a) < 0 then ''-'' else ''''"
  let ?ip = "show_nat (nat \<bar>sint (Units a)\<bar>)"
  have "FormatWithExponent a exp = decimal_text ?sign ?ip False ''''"
    by (auto simp: True FormatWithExponent_def show_int_def decimal_text_def)
  then show thesis
    by (rule that) (auto simp: True decimal_shape_def decimal_units_def)
next
  case False
  define e where "e = nat exp"
  define d0 where "d0 = show_nat (nat \<bar>sint (Units a)\<bar>)"
  define d where "d = (if length d0 \<le> e then replicate (e - length d0 + 1) (CHR ''0'') @ d0 else d0)"
  define cut where "cut = length d - e"
  let ?sign = "if sint (Units a) < 0 then ''-'' else ''''"
  have len: "e < length d" by (simp add: d_def)
  have val: "digits_val d = nat \<bar>sint (Units a)\<bar>"
    using digits_val_lead0 [of "e - length d0 + 1" d0] by (simp add: d_def d0_def)
  have dig: "list_all is_digit d"
    by (auto simp: d_def d0_def list_all_iff is_digit_code [of "CHR ''0''"])
  have "FormatWithExponent a exp = decimal_text ?sign (take cut d) True (drop cut d)"
    using False assms
    by (simp only: FormatWithExponent_def Let_def unat_abs_units decimal_text_def)
      (simp add: cut_def d_def d0_def e_def)
  moreover have "decimal_shape ?sign (take cut d) True (drop cut d)"
    using dig len by (auto simp: decimal_shape_def cut_def list_all_iff dest: in_set_takeD in_set_dropD)
  moreover have "int (length (drop cut d)) \<le> exp" using len assms by (simp add: cut_def e_def)
  moreover have "decimal_units ?sign (take cut d) (drop cut d) exp = sint (Units a)"
    using len val by (simp add: decimal_units_def Let_def cut_def e_def)
  ultimately show thesis by (rule that)
qed

section \<open>Properties\<close>

text \<open>C20. Parsing and formatting agree: whatever amount is formatted with an asset's exponent,
  parsing the text with that exponent gives the same minor units back, \<open>MinInt64\<close> included.\<close>

theorem ParseUnits_Format:
  assumes "0 \<le> exp"
  shows "ParseUnits (FormatWithExponent a exp) exp = Inr (Units a)"
proof -
  obtain sign ip dot fp where "FormatWithExponent a exp = decimal_text sign ip dot fp"
    "decimal_shape sign ip dot fp" "int (length fp) \<le> exp"
    "decimal_units sign ip fp exp = sint (Units a)"
    using FormatWithExponent_shape [OF assms] .
  then show ?thesis using ParseUnits_value [OF _ assms] by simp
qed

theorem ParseUnits_Format_witness:
  "(0 :: int) \<le> 2 \<and> ParseUnits (FormatWithExponent \<lparr>Asset = ''USD'', Units = - 150\<rparr> 2) 2 = Inr (- 150)"
  using ParseUnits_Format [of 2 "\<lparr>Asset = ''USD'', Units = - 150\<rparr>"] by simp

text \<open>C14. \<open>ParseUnits\<close> accepts exactly the decimal numerals with at most \<open>exp\<close> fraction digits
  whose value in minor units fits an \<open>int64\<close>, and returns that value: no rounding, no wrap-around.\<close>

theorem ParseUnits_correct:
  "ParseUnits s exp = Inr u \<longleftrightarrow>
     0 \<le> exp \<and> (\<exists>sign ip dot fp. s = decimal_text sign ip dot fp \<and> decimal_shape sign ip dot fp
        \<and> int (length fp) \<le> exp \<and> sint u = decimal_units sign ip fp exp)"
proof
  assume P: "ParseUnits s exp = Inr u"
  then obtain sign ip dot fp where "0 \<le> exp" "decimal_shape sign ip dot fp" "s = decimal_text sign ip dot fp"
    using ParseUnits_shape by blast
  with P show "0 \<le> exp \<and> (\<exists>sign ip dot fp. s = decimal_text sign ip dot fp \<and> decimal_shape sign ip dot fp
        \<and> int (length fp) \<le> exp \<and> sint u = decimal_units sign ip fp exp)"
    by (intro conjI exI [of _ sign] exI [of _ ip] exI [of _ dot] exI [of _ fp])
      (auto simp: ParseUnits_value dest: sint_of_int64 split: if_splits)
next
  assume "0 \<le> exp \<and> (\<exists>sign ip dot fp. s = decimal_text sign ip dot fp \<and> decimal_shape sign ip dot fp
        \<and> int (length fp) \<le> exp \<and> sint u = decimal_units sign ip fp exp)"
  then show "ParseUnits s exp = Inr u"
    by (auto simp: ParseUnits_value dest: int64_value)
qed

text \<open>The overflow tests of \<open>Add\<close> and \<open>Sub\<close> are exact: on amounts of one asset the operation
  returns the mathematical result when it is an \<open>int64\<close> and \<open>ErrOverflow\<close> otherwise.\<close>

theorem Amount_Add_Sub_exact:
  "Amount_Add a b =
     (if Asset a \<noteq> Asset b then Inl ErrAssetMismatch
      else if fits64 (sint (Units a) + sint (Units b))
      then Inr \<lparr>Asset = Asset a, Units = word_of_int (sint (Units a) + sint (Units b))\<rparr>
      else Inl ErrOverflow)
   \<and> Amount_Sub a b =
     (if Asset a \<noteq> Asset b then Inl ErrAssetMismatch
      else if fits64 (sint (Units a) - sint (Units b))
      then Inr \<lparr>Asset = Asset a, Units = word_of_int (sint (Units a) - sint (Units b))\<rparr>
      else Inl ErrOverflow)"
  by (intro conjI Amount_Add_spec Amount_Sub_spec)

end
