(* ===== verification/Ledger_Domain.thy ===== *)
theory Ledger_Domain
  imports Money
begin

text \<open>
  The pure double-entry model of the ledger service,
  \<open>services/ledger-core/internal/domain/domain.go\<close>: the string enumerations, the entities as
  records (one field per Go field, prefixed by the entity), the balance arithmetic, the asset
  registry, \<open>ValidateBalanced\<close> and \<open>Reverse\<close>; and the sentinel errors of the domain, money and
  application layers, to which PostgreSQL's error classes are added. An error value is the
  sentinel an error wraps: the text of the message is not modelled.
\<close>

section \<open>Errors\<close>

text \<open>The SQLSTATE classes the store distinguishes, and the rest it passes through.\<close>

datatype pg_error =
    UniqueViolation | ForeignKeyViolation | CheckViolation
  | NumericOutOfRange | StringTooLong | RaisedException | RowSecurityViolation

datatype error =
    MoneyError money_error
  | ErrTooFewPostings | ErrNonPositiveAmount | ErrInvalidDirection | ErrUnbalanced
  | ErrNotPosted | ErrAlreadyReversed
  | ErrNotFound | ErrConflict | ErrInvalidState | ErrInsufficientFunds | ErrValidation
  | ErrIdempotencyConflict
  | PgError pg_error
  | ErrNilTenant | ErrGenerateID | ErrBalanceRowMissing

section \<open>Enumerations\<close>

definition AccountAsset :: string where "AccountAsset = ''asset''"

definition AccountLiability :: string where "AccountLiability = ''liability''"

definition AccountEquity :: string where "AccountEquity = ''equity''"

definition AccountRevenue :: string where "AccountRevenue = ''revenue''"

definition AccountExpense :: string where "AccountExpense = ''expense''"

definition AccountType_Valid :: "string \<Rightarrow> bool" where
  "AccountType_Valid t \<longleftrightarrow> t \<in> {AccountAsset, AccountLiability, AccountEquity, AccountRevenue, AccountExpense}"

definition NormalDebit :: string where "NormalDebit = ''debit''"

definition NormalCredit :: string where "NormalCredit = ''credit''"

definition NormalBalance_Valid :: "string \<Rightarrow> bool" where
  "NormalBalance_Valid n \<longleftrightarrow> n = NormalDebit \<or> n = NormalCredit"

definition DirectionDebit :: string where "DirectionDebit = ''DEBIT''"

definition DirectionCredit :: string where "DirectionCredit = ''CREDIT''"

definition Direction_Valid :: "string \<Rightarrow> bool" where
  "Direction_Valid d \<longleftrightarrow> d = DirectionDebit \<or> d = DirectionCredit"

definition Direction_Opposite :: "string \<Rightarrow> string" where
  "Direction_Opposite d = (if d = DirectionDebit then DirectionCredit else DirectionDebit)"

definition TransactionDraft :: string where "TransactionDraft = ''draft''"

definition TransactionPosted :: string where "TransactionPosted = ''posted''"

definition TransactionReversed :: string where "TransactionReversed = ''reversed''"

definition HoldActive :: string where "HoldActive = ''active''"

definition HoldCaptured :: string where "HoldCaptured = ''captured''"

definition HoldReleased :: string where "HoldReleased = ''released''"

definition HoldExpired :: string where "HoldExpired = ''expired''"

lemmas enum_defs =
  AccountAsset_def AccountLiability_def AccountEquity_def AccountRevenue_def AccountExpense_def
  NormalDebit_def NormalCredit_def DirectionDebit_def DirectionCredit_def
  TransactionDraft_def TransactionPosted_def TransactionReversed_def
  HoldActive_def HoldCaptured_def HoldReleased_def HoldExpired_def

lemma enum_distinct [simp]:
  "NormalDebit \<noteq> NormalCredit" "NormalCredit \<noteq> NormalDebit"
  "DirectionDebit \<noteq> DirectionCredit" "DirectionCredit \<noteq> DirectionDebit"
  "TransactionDraft \<noteq> TransactionPosted" "TransactionPosted \<noteq> TransactionDraft"
  "TransactionDraft \<noteq> TransactionReversed" "TransactionReversed \<noteq> TransactionDraft"
  "TransactionPosted \<noteq> TransactionReversed" "TransactionReversed \<noteq> TransactionPosted"
  "HoldActive \<noteq> HoldCaptured" "HoldCaptured \<noteq> HoldActive"
  "HoldActive \<noteq> HoldReleased" "HoldReleased \<noteq> HoldActive"
  "HoldActive \<noteq> HoldExpired" "HoldExpired \<noteq> HoldActive"
  "HoldCaptured \<noteq> HoldReleased" "HoldReleased \<noteq> HoldCaptured"
  "HoldCaptured \<noteq> HoldExpired" "HoldExpired \<noteq> HoldCaptured"
  "HoldReleased \<noteq> HoldExpired" "HoldExpired \<noteq> HoldReleased"
  "TransactionPosted \<noteq> ''''" "TransactionDraft \<noteq> ''''"
  by (simp_all add: enum_defs)

section \<open>Entities\<close>

record Ledger =
  l_ID :: uuid
  l_TenantID :: uuid
  l_Name :: string
  l_Description :: string
  l_Environment :: string
  l_Metadata :: metadata
  l_CreatedAt :: timestamp

record Account =
  a_ID :: uuid
  a_TenantID :: uuid
  a_LedgerID :: uuid
  a_Name :: string
  a_Path :: string
  a_Type :: string
  a_NormalBalance :: string
  a_Status :: string
  a_Metadata :: metadata
  a_CreatedAt :: timestamp

record Posting =
  p_ID :: uuid
  p_AccountID :: uuid
  p_Direction :: string
  p_Amount :: Amount

record Transaction =
  t_ID :: uuid
  t_TenantID :: uuid
  t_LedgerID :: uuid
  t_Reference :: string
  t_Description :: string
  t_IdempotencyKey :: string
  t_Status :: string
  t_EffectiveAt :: timestamp
  t_EffectiveAtProvided :: bool
  t_PostedAt :: "timestamp option"
  t_ReversedByID :: "uuid option"
  t_ReversesID :: "uuid option"
  t_Metadata :: metadata
  t_Postings :: "Posting list"
  t_CreatedAt :: timestamp

record Entry =
  e_ID :: uuid
  e_TransactionID :: uuid
  e_AccountID :: uuid
  e_Direction :: string
  e_Amount :: Amount
  e_CreatedAt :: timestamp

record Hold =
  h_ID :: uuid
  h_TenantID :: uuid
  h_LedgerID :: uuid
  h_AccountID :: uuid
  h_IdempotencyKey :: string
  h_Amount :: Amount
  h_Status :: string
  h_ExpiresAt :: timestamp
  h_ExpiresAtProvided :: bool
  h_CapturedTransactionID :: "uuid option"
  h_Metadata :: metadata
  h_CreatedAt :: timestamp

record Balance =
  b_Asset :: string
  b_PostedDebits :: int64
  b_PostedCredits :: int64
  b_PendingDebits :: int64
  b_PendingCredits :: int64
  b_Held :: int64
  b_Version :: int64

definition PostedNet :: "Balance \<Rightarrow> string \<Rightarrow> int64" where
  "PostedNet b nb =
     (if nb = NormalDebit then b_PostedDebits b - b_PostedCredits b
      else b_PostedCredits b - b_PostedDebits b)"

definition PendingNet :: "Balance \<Rightarrow> string \<Rightarrow> int64" where
  "PendingNet b nb =
     (if nb = NormalDebit then b_PendingDebits b - b_PendingCredits b
      else b_PendingCredits b - b_PendingDebits b)"

definition Available :: "Balance \<Rightarrow> string \<Rightarrow> int64" where
  "Available b nb = PostedNet b nb - b_Held b"

definition SignRaw :: "string \<Rightarrow> int64 \<Rightarrow> int64" where
  "SignRaw nb raw = (if nb = NormalDebit then raw else - raw)"

definition RunningBalance :: "string \<Rightarrow> int64 \<Rightarrow> int64 \<Rightarrow> int64" where
  "RunningBalance nb openingRaw cumulativeRaw = SignRaw nb (openingRaw + cumulativeRaw)"

section \<open>Asset registry\<close>

definition DefaultAssetExponent :: int where
  "DefaultAssetExponent = 2"

definition assetExponents :: "(string \<times> int) list" where
  "assetExponents =
    [(''USD'', 2), (''EUR'', 2), (''MXN'', 2), (''DOP'', 2), (''GTQ'', 2), (''COP'', 2), (''PEN'', 2),
     (''JPY'', 0), (''CLP'', 0), (''USDC'', 6), (''USDT'', 6), (''BTC'', 8)]"

definition AssetExponent :: "string \<Rightarrow> int" where
  "AssetExponent code = (case map_of assetExponents code of Some exp \<Rightarrow> exp | None \<Rightarrow> DefaultAssetExponent)"

section \<open>Rules\<close>

text \<open>
  The two Go maps of running sums are association lists from the asset code; \<open>AList.update\<close>-style
  assignment replaces an entry or appends a new one.
\<close>

type_synonym side = "(string \<times> Amount) list"

fun side_update :: "string \<Rightarrow> Amount \<Rightarrow> side \<Rightarrow> side" where
  "side_update k v [] = [(k, v)]"
| "side_update k v ((k', v') # xs) = (if k = k' then (k, v) # xs else (k', v') # side_update k v xs)"

definition add_to_side :: "side \<Rightarrow> Posting \<Rightarrow> error + side" where
  "add_to_side m p =
     (let current = (case map_of m (Asset (p_Amount p)) of
                       Some a \<Rightarrow> a | None \<Rightarrow> \<lparr>Asset = Asset (p_Amount p), Units = 0\<rparr>)
      in case Amount_Add current (p_Amount p) of
           Inl e \<Rightarrow> Inl (MoneyError e)
         | Inr s \<Rightarrow> Inr (side_update (Asset (p_Amount p)) s m))"

fun sum_sides :: "Posting list \<Rightarrow> side \<Rightarrow> side \<Rightarrow> error + side \<times> side" where
  "sum_sides [] debits credits = Inr (debits, credits)"
| "sum_sides (p # ps) debits credits =
     (case ValidateAssetCode (Asset (p_Amount p)) of
        Inl e \<Rightarrow> Inl (MoneyError e)
      | Inr _ \<Rightarrow>
        if sint (Units (p_Amount p)) \<le> 0 then Inl ErrNonPositiveAmount
        else if p_Direction p = DirectionDebit
             then bindE (add_to_side debits p) (\<lambda>debits'. sum_sides ps debits' credits)
        else if p_Direction p = DirectionCredit
             then bindE (add_to_side credits p) (\<lambda>credits'. sum_sides ps debits credits')
        else Inl ErrInvalidDirection)"

definition ValidateBalanced :: "Posting list \<Rightarrow> error + unit" where
  "ValidateBalanced postings =
     (if length postings < 2 then Inl ErrTooFewPostings
      else bindE (sum_sides postings [] []) (\<lambda>(debits, credits).
        if list_ex (\<lambda>(asset, d). case map_of credits asset of
                        None \<Rightarrow> True | Some c \<Rightarrow> Units c \<noteq> Units d) debits
        then Inl ErrUnbalanced
        else if list_ex (\<lambda>(asset, c). map_of debits asset = None) credits then Inl ErrUnbalanced
        else Inr ()))"

definition ReversalReferencePrefix :: string where
  "ReversalReferencePrefix = ''reversal-of:''"

text \<open>
  \<open>Reverse\<close>. The UUID library is outside the repository: \<open>uuidString\<close> stands for
  \<open>uuid.UUID.String\<close>, and \<open>newV7 i\<close> for the result of the i-th call of \<open>uuid.NewV7\<close>
  (\<^const>\<open>None\<close> when the entropy source fails).
\<close>

fun reverse_postings :: "(nat \<Rightarrow> uuid option) \<Rightarrow> nat \<Rightarrow> Posting list \<Rightarrow> error + Posting list" where
  "reverse_postings newV7 i [] = Inr []"
| "reverse_postings newV7 i (p # ps) =
     (case newV7 i of
        None \<Rightarrow> Inl ErrGenerateID
      | Some pid \<Rightarrow> bindE (reverse_postings newV7 (Suc i) ps) (\<lambda>qs.
          Inr (\<lparr>p_ID = pid, p_AccountID = p_AccountID p,
                p_Direction = Direction_Opposite (p_Direction p), p_Amount = p_Amount p\<rparr> # qs)))"

definition Reverse ::
  "(uuid \<Rightarrow> string) \<Rightarrow> (nat \<Rightarrow> uuid option) \<Rightarrow> Transaction \<Rightarrow> uuid \<Rightarrow> timestamp \<Rightarrow> error + Transaction" where
  "Reverse uuidString newV7 original reversalID now =
     (if t_ReversedByID original \<noteq> None \<or> t_Status original = TransactionReversed then Inl ErrAlreadyReversed
      else if t_Status original \<noteq> TransactionPosted then Inl ErrNotPosted
      else bindE (reverse_postings newV7 0 (t_Postings original)) (\<lambda>ps. Inr
        \<lparr>t_ID = reversalID, t_TenantID = t_TenantID original, t_LedgerID = t_LedgerID original,
         t_Reference = ReversalReferencePrefix @ uuidString (t_ID original), t_Description = '''',
         t_IdempotencyKey = ReversalReferencePrefix @ uuidString (t_ID original),
         t_Status = TransactionPosted, t_EffectiveAt = now, t_EffectiveAtProvided = False,
         t_PostedAt = Some now, t_ReversedByID = None, t_ReversesID = Some (t_ID original),
         t_Metadata = None, t_Postings = ps, t_CreatedAt = now\<rparr>))"

section \<open>The double-entry rule\<close>

text \<open>
  The exact sums the rule speaks about, over unbounded integers: what one side of one asset
  adds up to, optionally restricted by a further test on the posting.
\<close>

definition units :: "Posting \<Rightarrow> int" where
  "units p = sint (Units (p_Amount p))"

definition p_asset :: "Posting \<Rightarrow> string" where
  "p_asset p = Asset (p_Amount p)"

definition tally :: "string \<Rightarrow> string \<Rightarrow> Posting list \<Rightarrow> int" where
  "tally dir asset ps = (\<Sum>p\<leftarrow>ps. if p_Direction p = dir \<and> p_asset p = asset then units p else 0)"

definition posting_ok :: "Posting \<Rightarrow> bool" where
  "posting_ok p \<longleftrightarrow> ValidateAssetCode (p_asset p) = Inr () \<and> 0 < units p \<and> Direction_Valid (p_Direction p)"

definition balanced :: "Posting list \<Rightarrow> bool" where
  "balanced ps \<longleftrightarrow> (\<forall>asset. tally DirectionDebit asset ps = tally DirectionCredit asset ps)"

lemma tally_simps [simp]:
  "tally dir asset [] = 0"
  "tally dir asset (p # ps) = (if p_Direction p = dir \<and> p_asset p = asset then units p else 0) + tally dir asset ps"
  "tally dir asset (ps @ qs) = tally dir asset ps + tally dir asset qs"
  by (simp_all add: tally_def)

lemma tally_nonneg: "list_all posting_ok ps \<Longrightarrow> 0 \<le> tally dir asset ps"
  by (induction ps) (auto simp: posting_ok_def)

lemma tally_mset: "mset ps = mset qs \<Longrightarrow> tally dir asset ps = tally dir asset qs"
  unfolding tally_def by (rule sum_list_mset)

text \<open>A side of the running sums represents a total function of the asset code.\<close>

definition side_rep :: "side \<Rightarrow> (string \<Rightarrow> int) \<Rightarrow> bool" where
  "side_rep m S \<longleftrightarrow> distinct (map fst m) \<and> (\<forall>a. 0 \<le> S a \<and> fits64 (S a)
     \<and> map_of m a = (if S a = 0 then None else Some \<lparr>Asset = a, Units = word_of_int (S a)\<rparr>))"

lemma side_update_map_of [simp]: "map_of (side_update k v m) = (map_of m)(k \<mapsto> v)"
  by (induction m) (auto simp: fun_eq_iff)

lemma side_update_keys [simp]: "fst ` set (side_update k v m) = insert k (fst ` set m)"
  by (simp flip: dom_map_of_conv_image_fst)

lemma side_update_distinct [simp]: "distinct (map fst m) \<Longrightarrow> distinct (map fst (side_update k v m))"
  by (induction m) auto

lemma add_to_side_rep:
  assumes rep: "side_rep m S" and pos: "0 < units p"
  shows "if fits64 (S (p_asset p) + units p)
    then \<exists>m'. add_to_side m p = Inr m' \<and> side_rep m' (S(p_asset p := S (p_asset p) + units p))
    else \<exists>e. add_to_side m p = Inl e"
proof -
  let ?a = "p_asset p"
  define cur where "cur = (case map_of m ?a of Some a \<Rightarrow> a | None \<Rightarrow> \<lparr>Asset = ?a, Units = 0\<rparr>)"
  have cur: "Asset cur = ?a" "sint (Units cur) = S ?a"
    using rep by (auto simp: cur_def side_rep_def sint_of_int64)
  have add: "add_to_side m p = (case Amount_Add cur (p_Amount p) of
      Inl e \<Rightarrow> Inl (MoneyError e) | Inr s \<Rightarrow> Inr (side_update ?a s m))"
    unfolding add_to_side_def cur_def Let_def by (simp only: p_asset_def)
  have rep': "side_rep (side_update ?a \<lparr>Asset = ?a, Units = word_of_int (S ?a + units p)\<rparr> m)
      (S(?a := S ?a + units p))" if "fits64 (S ?a + units p)"
    using rep pos that unfolding side_rep_def by (auto simp: add_nonneg_eq_0_iff simp del: of_int_add)
  show ?thesis
    using cur rep' by (auto simp: add Amount_Add_spec units_def p_asset_def simp del: of_int_add)
qed

text \<open>
  The summing loop succeeds exactly when every posting is well-formed and no final sum leaves
  \<open>int64\<close>: amounts are positive, so the running sums are bounded by the final ones.
\<close>

lemma sum_sides_step:
  assumes D: "side_rep debits D" and C: "side_rep credits C" and ok: "posting_ok p"
  defines "D' \<equiv> \<lambda>a. D a + tally DirectionDebit a [p]" and "C' \<equiv> \<lambda>a. C a + tally DirectionCredit a [p]"
  shows "if \<forall>a. fits64 (D' a) \<and> fits64 (C' a)
    then \<exists>d' c'. sum_sides (p # ps) debits credits = sum_sides ps d' c' \<and> side_rep d' D' \<and> side_rep c' C'
    else \<exists>e. sum_sides (p # ps) debits credits = Inl e"
proof -
  have p: "ValidateAssetCode (Asset (p_Amount p)) = Inr ()" "0 < units p" "\<not> sint (Units (p_Amount p)) \<le> 0"
    using ok by (auto simp: posting_ok_def p_asset_def units_def)
  have fits: "fits64 (D a)" "fits64 (C a)" for a
    using D C by (auto simp: side_rep_def)
  from ok consider (debit) "p_Direction p = DirectionDebit" | (credit) "p_Direction p = DirectionCredit"
    by (auto simp: posting_ok_def Direction_Valid_def)
  then show ?thesis
  proof cases
    case debit
    then have "D' = D(p_asset p := D (p_asset p) + units p)" "C' = C"
      by (auto simp: D'_def C'_def)
    with add_to_side_rep [OF D p(2)] debit p fits C show ?thesis
      by (cases "fits64 (D (p_asset p) + units p)") fastforce+
  next
    case credit
    then have "C' = C(p_asset p := C (p_asset p) + units p)" "D' = D"
      by (auto simp: D'_def C'_def)
    with add_to_side_rep [OF C p(2)] credit p fits D show ?thesis
      by (cases "fits64 (C (p_asset p) + units p)") fastforce+
  qed
qed

lemma sum_sides_bad: "\<not> posting_ok p \<Longrightarrow> \<exists>e. sum_sides (p # ps) debits credits = Inl e"
  by (auto simp: posting_ok_def p_asset_def units_def Direction_Valid_def split: sum.splits)

lemma fits64_mono: "fits64 y \<Longrightarrow> 0 \<le> x \<Longrightarrow> x \<le> y \<Longrightarrow> fits64 x"
  by (simp add: fits64_def)

lemma sum_sides_rep:
  assumes "side_rep debits D" and "side_rep credits C"
  shows "if list_all posting_ok ps
      \<and> (\<forall>a. fits64 (D a + tally DirectionDebit a ps) \<and> fits64 (C a + tally DirectionCredit a ps))
    then \<exists>d' c'. sum_sides ps debits credits = Inr (d', c')
      \<and> side_rep d' (\<lambda>a. D a + tally DirectionDebit a ps) \<and> side_rep c' (\<lambda>a. C a + tally DirectionCredit a ps)
    else \<exists>e. sum_sides ps debits credits = Inl e"
  using assms
proof (induction ps arbitrary: debits credits D C)
  case Nil
  then show ?case by (simp add: side_rep_def)
next
  case (Cons p ps)
  let ?D = "\<lambda>a. D a + tally DirectionDebit a [p]" and ?C = "\<lambda>a. C a + tally DirectionCredit a [p]"
  have split: "D a + tally DirectionDebit a (p # ps) = ?D a + tally DirectionDebit a ps"
    "C a + tally DirectionCredit a (p # ps) = ?C a + tally DirectionCredit a ps" for a
    by simp_all
  show ?case
  proof (cases "posting_ok p")
    case False
    then show ?thesis using sum_sides_bad [of p ps debits credits] by simp
  next
    case True
    note step = sum_sides_step [OF Cons.prems True, of ps]
    show ?thesis
    proof (cases "\<forall>a. fits64 (?D a) \<and> fits64 (?C a)")
      case fits: True
      then obtain d' c' where s: "sum_sides (p # ps) debits credits = sum_sides ps d' c'"
        and r: "side_rep d' ?D" "side_rep c' ?C"
        using step by (simp del: sum_sides.simps) blast
      show ?thesis
        using Cons.IH [OF r] True unfolding s split by simp
    next
      case False
      then obtain e where e: "sum_sides (p # ps) debits credits = Inl e"
        using step by (auto simp del: sum_sides.simps split: if_splits)
      have nonneg: "0 \<le> ?D a" "0 \<le> ?C a" for a
        using Cons.prems True by (auto simp: side_rep_def posting_ok_def)
      have "\<not> (list_all posting_ok ps
          \<and> (\<forall>a. fits64 (?D a + tally DirectionDebit a ps) \<and> fits64 (?C a + tally DirectionCredit a ps)))"
        using False nonneg tally_nonneg [of ps] by (meson fits64_mono le_add_same_cancel1)
      then show ?thesis using e unfolding split by (auto simp del: sum_sides.simps)
    qed
  qed
qed

lemma side_rep_empty: "side_rep [] (\<lambda>a. 0)"
  by (simp add: side_rep_def fits64_def)

lemma side_rep_mem:
  assumes "side_rep m S"
  shows "(a, x) \<in> set m \<longleftrightarrow> S a \<noteq> 0 \<and> x = \<lparr>Asset = a, Units = word_of_int (S a)\<rparr>"
proof -
  from assms have d: "distinct (map fst m)"
    and look: "map_of m a = (if S a = 0 then None else Some \<lparr>Asset = a, Units = word_of_int (S a)\<rparr>)"
    unfolding side_rep_def by blast+
  from d have "(a, x) \<in> set m \<longleftrightarrow> map_of m a = Some x" by simp
  then show ?thesis unfolding look by auto
qed

lemma sides_agree:
  assumes "side_rep d D" and "side_rep c C"
  shows "list_ex (\<lambda>(asset, x). case map_of c asset of None \<Rightarrow> True | Some y \<Rightarrow> Units y \<noteq> Units x) d
      \<or> list_ex (\<lambda>(asset, y). map_of d asset = None) c \<longleftrightarrow> D \<noteq> C" (is "?l \<longleftrightarrow> _")
proof -
  have look: "map_of d a = (if D a = 0 then None else Some \<lparr>Asset = a, Units = word_of_int (D a)\<rparr>)"
    "map_of c a = (if C a = 0 then None else Some \<lparr>Asset = a, Units = word_of_int (C a)\<rparr>)"
    and inj: "word_of_int (C a) = (word_of_int (D a) :: int64) \<longleftrightarrow> C a = D a" for a
    using assms int64_inj unfolding side_rep_def by blast+
  have ex: "list_ex (\<lambda>(a, x). P a x) m \<longleftrightarrow> (\<exists>a x. (a, x) \<in> set m \<and> P a x)" for P :: "string \<Rightarrow> Amount \<Rightarrow> bool" and m
    by (auto simp: list_ex_iff)
  have "?l \<longleftrightarrow> (\<exists>a. D a \<noteq> 0 \<and> (C a = 0 \<or> C a \<noteq> D a)) \<or> (\<exists>a. C a \<noteq> 0 \<and> D a = 0)"
    unfolding ex side_rep_mem [OF assms(1)] side_rep_mem [OF assms(2)] look by (auto simp: inj)
  also have "\<dots> \<longleftrightarrow> D \<noteq> C"
    unfolding fun_eq_iff by metis
  finally show ?thesis .
qed

lemma ValidateBalanced_iff:
  "ValidateBalanced ps = Inr () \<longleftrightarrow> 2 \<le> length ps \<and> list_all posting_ok ps \<and> balanced ps
     \<and> (\<forall>asset. tally DirectionDebit asset ps \<le> MaxInt64)"
proof -
  let ?D = "\<lambda>a. tally DirectionDebit a ps" and ?C = "\<lambda>a. tally DirectionCredit a ps"
  have sums: "if list_all posting_ok ps \<and> (\<forall>a. fits64 (?D a) \<and> fits64 (?C a))
    then \<exists>d c. sum_sides ps [] [] = Inr (d, c) \<and> side_rep d ?D \<and> side_rep c ?C
    else \<exists>e. sum_sides ps [] [] = Inl e"
    using sum_sides_rep [OF side_rep_empty side_rep_empty, of ps] unfolding add_0 .
  have bal: "balanced ps \<longleftrightarrow> ?D = ?C" by (simp add: balanced_def fun_eq_iff)
  have fits: "fits64 (tally dir a ps) \<longleftrightarrow> tally dir a ps \<le> MaxInt64" if "list_all posting_ok ps" for dir a
    using tally_nonneg [OF that, of dir a] by (simp add: fits64_def)
  show ?thesis
  proof (cases "list_all posting_ok ps \<and> (\<forall>a. fits64 (?D a) \<and> fits64 (?C a))")
    case True
    then obtain d c where s: "sum_sides ps [] [] = Inr (d, c)" and r: "side_rep d ?D" "side_rep c ?C"
      using sums by auto
    show ?thesis
      using True sides_agree [OF r] fits unfolding ValidateBalanced_def s bal by auto
  next
    case False
    then obtain e where "sum_sides ps [] [] = Inl e" using sums by (auto split: if_splits)
    moreover have "\<not> (list_all posting_ok ps \<and> ?D = ?C \<and> (\<forall>a. ?D a \<le> MaxInt64))"
      using False fits by (metis (no_types, lifting))
    ultimately show ?thesis by (auto simp: ValidateBalanced_def bal)
  qed
qed

section \<open>Reversal\<close>

lemma Direction_Opposite_simps [simp]:
  "Direction_Opposite DirectionDebit = DirectionCredit"
  "Direction_Opposite DirectionCredit = DirectionDebit"
  by (simp_all add: Direction_Opposite_def)

lemma Direction_Opposite_eq [simp]:
  "Direction_Valid d \<Longrightarrow> Direction_Opposite d = DirectionDebit \<longleftrightarrow> d = DirectionCredit"
  "Direction_Valid d \<Longrightarrow> Direction_Opposite d = DirectionCredit \<longleftrightarrow> d = DirectionDebit"
  "Direction_Valid (Direction_Opposite d)"
  by (auto simp: Direction_Valid_def Direction_Opposite_def)

definition mirrored :: "Posting \<Rightarrow> Posting \<Rightarrow> bool" where
  "mirrored p q \<longleftrightarrow> p_AccountID q = p_AccountID p \<and> p_Amount q = p_Amount p
     \<and> p_Direction q = Direction_Opposite (p_Direction p)"

lemma reverse_postings_mirror:
  "reverse_postings newV7 i ps = Inr qs \<Longrightarrow> list_all2 mirrored ps qs"
  by (induction newV7 i ps arbitrary: qs rule: reverse_postings.induct)
     (auto simp: bindE_Inr_iff mirrored_def split: option.splits)

lemma mirrored_tally:
  assumes "list_all2 mirrored ps qs" and "list_all posting_ok ps"
  shows "tally DirectionDebit asset qs = tally DirectionCredit asset ps"
    and "tally DirectionCredit asset qs = tally DirectionDebit asset ps"
    and "list_all posting_ok qs"
  using assms
  by (induction rule: list_all2_induct) (auto simp: mirrored_def posting_ok_def p_asset_def units_def)

section \<open>Properties\<close>

text \<open>
  C13. The central rule of the ledger: \<open>ValidateBalanced\<close> accepts a set of postings exactly when
  there are at least two of them, each has a well-formed asset code, a strictly positive amount
  and a known direction, and for every asset the exact (unbounded) sum of the debits equals the
  exact sum of the credits and fits an \<open>int64\<close>. No wrap-around can make an unbalanced set pass.
\<close>

theorem ValidateBalanced_exact:
  "ValidateBalanced ps = Inr () \<longleftrightarrow>
     2 \<le> length ps
     \<and> list_all (\<lambda>p. ValidateAssetCode (Asset (p_Amount p)) = Inr ()
          \<and> 0 < sint (Units (p_Amount p))
          \<and> (p_Direction p = DirectionDebit \<or> p_Direction p = DirectionCredit)) ps
     \<and> (\<forall>asset. (\<Sum>p\<leftarrow>ps. if p_Direction p = DirectionDebit \<and> Asset (p_Amount p) = asset then sint (Units (p_Amount p)) else 0)
               = (\<Sum>p\<leftarrow>ps. if p_Direction p = DirectionCredit \<and> Asset (p_Amount p) = asset then sint (Units (p_Amount p)) else 0)
          \<and> (\<Sum>p\<leftarrow>ps. if p_Direction p = DirectionDebit \<and> Asset (p_Amount p) = asset then sint (Units (p_Amount p)) else 0) \<le> MaxInt64)"
  unfolding ValidateBalanced_iff balanced_def tally_def p_asset_def units_def
    posting_ok_def Direction_Valid_def
  by blast

text \<open>
  The verdict does not depend on the order of the postings: two lists with the same postings,
  in any order, are both accepted or both refused.
\<close>

theorem ValidateBalanced_order:
  assumes "mset ps = mset qs"
  shows "isl (ValidateBalanced ps) = isl (ValidateBalanced qs)"
proof -
  have "isl (ValidateBalanced xs) \<longleftrightarrow> ValidateBalanced xs \<noteq> Inr ()" for xs
    by (cases "ValidateBalanced xs") auto
  moreover have "list_all posting_ok ps = list_all posting_ok qs"
    using assms by (metis list_all_iff mset_eq_setD)
  moreover have "length ps = length qs" using assms by (metis size_mset)
  ultimately show ?thesis
    using tally_mset [OF assms] by (simp add: ValidateBalanced_iff balanced_def)
qed

theorem ValidateBalanced_order_witness:
  "isl (ValidateBalanced
      [\<lparr>p_ID = 1, p_AccountID = 7, p_Direction = DirectionDebit, p_Amount = \<lparr>Asset = ''USD'', Units = 500\<rparr>\<rparr>,
       \<lparr>p_ID = 2, p_AccountID = 8, p_Direction = DirectionCredit, p_Amount = \<lparr>Asset = ''USD'', Units = 500\<rparr>\<rparr>])
   = isl (ValidateBalanced
      [\<lparr>p_ID = 2, p_AccountID = 8, p_Direction = DirectionCredit, p_Amount = \<lparr>Asset = ''USD'', Units = 500\<rparr>\<rparr>,
       \<lparr>p_ID = 1, p_AccountID = 7, p_Direction = DirectionDebit, p_Amount = \<lparr>Asset = ''USD'', Units = 500\<rparr>\<rparr>])"
  by (rule ValidateBalanced_order) (simp add: add_mset_commute)

text \<open>
  Reversal: for a transaction accepted by the double-entry rule, \<open>Reverse\<close> yields a posted
  transaction of the same tenant and ledger linked to the original, whose postings are the
  original ones with the direction inverted, in order; it is again accepted by the rule, and on
  every account and asset its debits are the original's credits and conversely.
\<close>

theorem Reverse_mirrors:
  assumes rev: "Reverse uuidString newV7 tx rid now = Inr r" and bal: "ValidateBalanced (t_Postings tx) = Inr ()"
  shows "t_Status tx = TransactionPosted \<and> t_ReversedByID tx = None
    \<and> t_Status r = TransactionPosted \<and> t_ID r = rid \<and> t_ReversesID r = Some (t_ID tx)
    \<and> t_TenantID r = t_TenantID tx \<and> t_LedgerID r = t_LedgerID tx
    \<and> list_all2 (\<lambda>p q. p_AccountID q = p_AccountID p \<and> p_Amount q = p_Amount p
         \<and> p_Direction q = Direction_Opposite (p_Direction p)) (t_Postings tx) (t_Postings r)
    \<and> ValidateBalanced (t_Postings r) = Inr ()
    \<and> tally DirectionDebit a (filter (\<lambda>p. p_AccountID p = acc) (t_Postings r))
      = tally DirectionCredit a (filter (\<lambda>p. p_AccountID p = acc) (t_Postings tx))
    \<and> tally DirectionCredit a (filter (\<lambda>p. p_AccountID p = acc) (t_Postings r))
      = tally DirectionDebit a (filter (\<lambda>p. p_AccountID p = acc) (t_Postings tx))"
proof -
  let ?ps = "t_Postings tx" and ?qs = "t_Postings r"
  from rev have hd: "t_Status tx = TransactionPosted" "t_ReversedByID tx = None"
      "t_Status r = TransactionPosted" "t_ID r = rid" "t_ReversesID r = Some (t_ID tx)"
      "t_TenantID r = t_TenantID tx" "t_LedgerID r = t_LedgerID tx"
    and m: "list_all2 mirrored ?ps ?qs"
    by (auto simp: Reverse_def bindE_Inr_iff reverse_postings_mirror split: if_splits)
  have ok: "list_all posting_ok ?ps" using bal by (simp add: ValidateBalanced_iff)
  have m': "list_all2 mirrored (filter P ?ps) (filter Q ?qs)"
    if "\<And>p q. mirrored p q \<Longrightarrow> P p = Q q" for P Q
    using m by (induction rule: list_all2_induct) (auto simp: that)
  have "list_all2 mirrored (filter (\<lambda>p. p_AccountID p = acc) ?ps) (filter (\<lambda>p. p_AccountID p = acc) ?qs)"
    by (rule m') (simp add: mirrored_def)
  moreover have "list_all posting_ok (filter (\<lambda>p. p_AccountID p = acc) ?ps)"
    using ok by (simp add: list_all_iff)
  moreover have "ValidateBalanced ?qs = Inr ()"
    using bal mirrored_tally(3) [OF m ok] list_all2_lengthD [OF m]
    unfolding ValidateBalanced_iff balanced_def mirrored_tally(1,2) [OF m ok] by (metis (no_types))
  ultimately show ?thesis
    using hd m by (simp add: mirrored_tally mirrored_def [abs_def])
qed

definition sample_postings :: "Posting list" where
  "sample_postings =
     [\<lparr>p_ID = 1, p_AccountID = 7, p_Direction = DirectionDebit, p_Amount = \<lparr>Asset = ''USD'', Units = 500\<rparr>\<rparr>,
      \<lparr>p_ID = 2, p_AccountID = 8, p_Direction = DirectionCredit, p_Amount = \<lparr>Asset = ''USD'', Units = 500\<rparr>\<rparr>]"

definition sample_transaction :: Transaction where
  "sample_transaction = \<lparr>t_ID = 3, t_TenantID = 1, t_LedgerID = 2, t_Reference = ''r'', t_Description = '''',
     t_IdempotencyKey = ''k'', t_Status = TransactionPosted, t_EffectiveAt = 0, t_EffectiveAtProvided = False,
     t_PostedAt = Some 0, t_ReversedByID = None, t_ReversesID = None, t_Metadata = None,
     t_Postings = sample_postings, t_CreatedAt = 0\<rparr>"

lemma sample_postings_balanced: "ValidateBalanced sample_postings = Inr ()"
  by (simp add: sample_postings_def ValidateBalanced_def add_to_side_def Amount_Add_def ValidateAssetCode_def asset_char_def)

theorem Reverse_mirrors_witness:
  "\<exists>r. Reverse (\<lambda>u. ''id'') (\<lambda>i. Some (word_of_nat (i + 10))) sample_transaction 9 5 = Inr r
     \<and> ValidateBalanced (t_Postings r) = Inr () \<and> t_ReversesID r = Some 3"
proof -
  obtain r where r: "Reverse (\<lambda>u. ''id'') (\<lambda>i. Some (word_of_nat (i + 10))) sample_transaction 9 5 = Inr r"
    by (simp add: Reverse_def sample_transaction_def sample_postings_def)
  have "ValidateBalanced (t_Postings sample_transaction) = Inr ()"
    by (simp add: sample_transaction_def sample_postings_balanced)
  from Reverse_mirrors [OF r this] r show ?thesis
    by (auto simp: sample_transaction_def)
qed

end
