(* ===== verification/Events.thy ===== *)
theory Events
  imports Ledger_Domain
begin

text \<open>
  Events and the transactional outbox: the payloads of \<open>services/ledger-core/internal/app/events.go\<close>,
  the envelope and the topics of \<open>libs/go/events/events.go\<close>, and the pollers that drain an outbox
  table into the broker (\<open>drainOnce\<close> of the ledger and of identity, \<open>DrainOutbox\<close> of
  reconciliation). An envelope is polymorphic in its payload, which is a value here, or its JSON
  (\<open>Event_Json\<close>).
\<close>

section \<open>Payloads and envelopes\<close>

record EventMoney =
  em_Asset :: string
  em_Amount :: string

definition NewEventMoney :: "Amount \<Rightarrow> EventMoney" where
  "NewEventMoney a = \<lparr>em_Asset = Asset a, em_Amount = show_int (sint (Units a))\<rparr>"

record EventPosting =
  ep_AccountID :: uuid
  ep_Direction :: string
  ep_Amount :: EventMoney

record TransactionPostedEvent =
  tpe_TransactionID :: uuid
  tpe_LedgerID :: uuid
  tpe_IdempotencyKey :: string
  tpe_Description :: string
  tpe_Postings :: "EventPosting list"
  tpe_Metadata :: metadata
  tpe_PostedAt :: timestamp

record TransactionReversedEvent =
  tre_TransactionID :: uuid
  tre_ReversalTransactionID :: uuid
  tre_LedgerID :: uuid
  tre_Reason :: string
  tre_ReversedAt :: timestamp

record HoldCreatedEvent =
  hce_HoldID :: uuid
  hce_LedgerID :: uuid
  hce_AccountID :: uuid
  hce_IdempotencyKey :: string
  hce_Amount :: EventMoney
  hce_ExpiresAt :: timestamp
  hce_CreatedAt :: timestamp

record HoldCapturedEvent =
  hpe_HoldID :: uuid
  hpe_LedgerID :: uuid
  hpe_AccountID :: uuid
  hpe_CapturedAmount :: EventMoney
  hpe_ReleasedAmount :: "EventMoney option"
  hpe_TransactionID :: "uuid option"
  hpe_CapturedAt :: timestamp

record HoldReleasedEvent =
  hre_HoldID :: uuid
  hre_LedgerID :: uuid
  hre_AccountID :: uuid
  hre_Amount :: EventMoney
  hre_Reason :: string
  hre_ReleasedAt :: timestamp

datatype event_data =
    PostedData TransactionPostedEvent
  | ReversedData TransactionReversedEvent
  | HoldCreatedData HoldCreatedEvent
  | HoldCapturedData HoldCapturedEvent
  | HoldReleasedData HoldReleasedEvent

definition NewTransactionPostedEvent :: "Transaction \<Rightarrow> timestamp \<Rightarrow> TransactionPostedEvent" where
  "NewTransactionPostedEvent t postedAt =
     \<lparr>tpe_TransactionID = t_ID t, tpe_LedgerID = t_LedgerID t, tpe_IdempotencyKey = t_IdempotencyKey t,
      tpe_Description = t_Description t,
      tpe_Postings = map (\<lambda>p. \<lparr>ep_AccountID = p_AccountID p, ep_Direction = p_Direction p,
                                ep_Amount = NewEventMoney (p_Amount p)\<rparr>) (t_Postings t),
      tpe_Metadata = t_Metadata t, tpe_PostedAt = postedAt\<rparr>"

definition TopicTransactionPosted :: string where "TopicTransactionPosted = ''ledger.transaction.posted''"

definition TopicTransactionReversed :: string where "TopicTransactionReversed = ''ledger.transaction.reversed''"

definition TopicHoldCreated :: string where "TopicHoldCreated = ''ledger.hold.created''"

definition TopicHoldCaptured :: string where "TopicHoldCaptured = ''ledger.hold.captured''"

definition TopicHoldReleased :: string where "TopicHoldReleased = ''ledger.hold.released''"

definition TopicDiscrepancyDetected :: string where "TopicDiscrepancyDetected = ''recon.discrepancy.detected''"

definition TopicTenantExpired :: string where "TopicTenantExpired = ''identity.tenant.expired''"

definition EnvelopeVersion :: int where "EnvelopeVersion = 1"

record 'd Envelope =
  env_ID :: uuid
  env_Type :: string
  env_TenantID :: uuid
  env_OccurredAt :: timestamp
  env_Version :: int
  env_Data :: 'd

text \<open>
  \<open>NewEnvelope\<close> reads the UUID generator (\<open>evID\<close>, \<^const>\<open>None\<close> when it fails) and the clock
  (\<open>wall\<close>); the payload is kept as a value, its JSON encoding being total on these types, for instants
  of the years 0 to 9999
  (\<open>marshal_event\<close> of \<open>Event_Json\<close> for those of the ledger).
\<close>

definition NewEnvelope :: "uuid option \<Rightarrow> timestamp \<Rightarrow> string \<Rightarrow> uuid \<Rightarrow> 'd \<Rightarrow> error + 'd Envelope" where
  "NewEnvelope evID wall topic tenantID data =
     (case evID of
        None \<Rightarrow> Inl ErrGenerateID
      | Some eid \<Rightarrow> Inr \<lparr>env_ID = eid, env_Type = topic, env_TenantID = tenantID, env_OccurredAt = wall,
                         env_Version = EnvelopeVersion, env_Data = data\<rparr>)"

section \<open>The outbox table and its pollers\<close>

text \<open>
  A row of an outbox table, in the order of its identity column. \<open>or_envelope\<close> is \<^const>\<open>None\<close> for a
  stored document that does not decode as an envelope.
\<close>

record 'd OutboxRow =
  or_tenant :: uuid
  or_topic :: string
  or_envelope :: "'d Envelope option"
  or_published :: bool

definition pending_rows :: "('d, 'z) OutboxRow_scheme list \<Rightarrow> (nat \<times> ('d, 'z) OutboxRow_scheme) list" where
  "pending_rows rows = filter (\<lambda>(i, r). \<not> or_published r) (enumerate 0 rows)"

definition mark_published :: "nat list \<Rightarrow> ('d, 'z) OutboxRow_scheme list \<Rightarrow> ('d, 'z) OutboxRow_scheme list" where
  "mark_published ids rows = map (\<lambda>(i, r). if i \<in> set ids then r\<lparr>or_published := True\<rparr> else r) (enumerate 0 rows)"

text \<open>
  The loop of \<open>drainOnce\<close>. \<open>pub k\<close> says whether the broker accepts the \<open>k\<close>-th publication of the tick. The
  result: the rows to mark, the envelopes the broker accepted, and whether it refused one. A malformed
  row is skipped and stays unpublished.
\<close>

fun publish_loop :: "(nat \<Rightarrow> bool) \<Rightarrow> nat \<Rightarrow> (nat \<times> ('d, 'z) OutboxRow_scheme) list \<Rightarrow> nat list \<times> 'd Envelope list \<times> bool" where
  "publish_loop pub k [] = ([], [], False)"
| "publish_loop pub k ((i, r) # rs) =
     (case or_envelope r of
        None \<Rightarrow> publish_loop pub k rs
      | Some env \<Rightarrow>
          if pub k then (case publish_loop pub (Suc k) rs of (ids, sent, failed) \<Rightarrow> (i # ids, env # sent, failed))
          else ([], [], True))"

definition batchSize :: nat where
  "batchSize = 100"

definition drainOnce :: "(nat \<Rightarrow> bool) \<Rightarrow> ('d, 'z) OutboxRow_scheme list \<Rightarrow> ('d, 'z) OutboxRow_scheme list \<times> 'd Envelope list \<times> bool" where
  "drainOnce pub rows =
     (case publish_loop pub 0 (take batchSize (pending_rows rows)) of
        (ids, sent, failed) \<Rightarrow> (mark_published ids rows, sent, failed))"

end
