(* ===== verification/Ledger_Db.thy ===== *)
theory Ledger_Db
  imports Events
begin

text \<open>
  The \<open>ledger\<close> schema (\<open>services/ledger-core/internal/adapters/postgres/migrations\<close>) and the SQL
  statements the store executes. A table is the list of its rows in insertion order; \<open>BIGINT\<close>
  columns are integers whose range is checked when they are written; row-level security is the
  tenant filter on every statement and the \<open>WITH CHECK\<close> of every insert; primary keys, unique and
  check constraints and foreign keys are errors of the statement; \<open>transactions_guard\<close> runs on every
  update of a transaction row; the deferred double-entry triggers queue the identifiers of the
  transactions touched and run when the database transaction commits.

  Columns that no statement reads (\<open>updated_at\<close>, the \<open>created_at\<close> of key and outbox rows) are left
  out. Inside a transaction the model works on the database as that transaction sees it.
\<close>

section \<open>Tables\<close>

record PostingRow =
  pr_id :: uuid
  pr_tenant :: uuid
  pr_tx :: uuid
  pr_account :: uuid
  pr_direction :: string
  pr_asset :: string
  pr_amount :: int
  pr_created :: timestamp

record BalanceRow =
  br_account :: uuid
  br_tenant :: uuid
  br_asset :: string
  br_posted_debits :: int
  br_posted_credits :: int
  br_pending_debits :: int
  br_pending_credits :: int
  br_held :: int
  br_version :: int

text \<open>An empty hash stands for the \<open>NULL\<close> of rows older than the column.\<close>

record HoldRow =
  hr_hold :: Hold
  hr_hash :: bytes

record IdempotencyRow =
  ir_tenant :: uuid
  ir_key :: string
  ir_status :: int
  ir_response :: Transaction
  ir_hash :: bytes

text \<open>
  A row of \<open>transactions\<close> is a \<^typ>\<open>Transaction\<close> without postings (they are rows of their own)
  and without the request flag \<open>EffectiveAtProvided\<close>.
\<close>

record Db =
  db_ledgers :: "Ledger list"
  db_accounts :: "Account list"
  db_transactions :: "Transaction list"
  db_postings :: "PostingRow list"
  db_balances :: "BalanceRow list"
  db_holds :: "HoldRow list"
  db_keys :: "IdempotencyRow list"
  db_outbox :: "event_data OutboxRow list"
  db_deferred :: "uuid list"

definition empty_db :: Db where
  "empty_db = \<lparr>db_ledgers = [], db_accounts = [], db_transactions = [], db_postings = [], db_balances = [],
     db_holds = [], db_keys = [], db_outbox = [], db_deferred = []\<rparr>"

definition meta :: "metadata \<Rightarrow> metadata" where
  "meta m = (case m of None \<Rightarrow> Some [] | Some _ \<Rightarrow> m)"

section \<open>Queries\<close>

definition find_ledger :: "uuid \<Rightarrow> uuid \<Rightarrow> Db \<Rightarrow> Ledger option" where
  "find_ledger tn i d = find (\<lambda>l. l_TenantID l = tn \<and> l_ID l = i) (db_ledgers d)"

definition find_account :: "uuid \<Rightarrow> uuid \<Rightarrow> Db \<Rightarrow> Account option" where
  "find_account tn i d = find (\<lambda>a. a_TenantID a = tn \<and> a_ID a = i) (db_accounts d)"

definition find_tx :: "uuid \<Rightarrow> uuid \<Rightarrow> Db \<Rightarrow> Transaction option" where
  "find_tx tn i d = find (\<lambda>t. t_TenantID t = tn \<and> t_ID t = i) (db_transactions d)"

definition find_hold :: "uuid \<Rightarrow> uuid \<Rightarrow> Db \<Rightarrow> HoldRow option" where
  "find_hold tn i d = find (\<lambda>h. h_TenantID (hr_hold h) = tn \<and> h_ID (hr_hold h) = i) (db_holds d)"

definition find_hold_key :: "uuid \<Rightarrow> string \<Rightarrow> Db \<Rightarrow> HoldRow option" where
  "find_hold_key tn k d = find (\<lambda>h. h_TenantID (hr_hold h) = tn \<and> h_IdempotencyKey (hr_hold h) = k) (db_holds d)"

definition find_key :: "uuid \<Rightarrow> string \<Rightarrow> Db \<Rightarrow> IdempotencyRow option" where
  "find_key tn k d = find (\<lambda>r. ir_tenant r = tn \<and> ir_key r = k) (db_keys d)"

definition find_balance :: "uuid \<Rightarrow> string \<Rightarrow> Db \<Rightarrow> BalanceRow option" where
  "find_balance acc asset d = find (\<lambda>r. br_account r = acc \<and> br_asset r = asset) (db_balances d)"

definition ledger_exists :: "uuid \<Rightarrow> Db \<Rightarrow> bool" where
  "ledger_exists i d \<longleftrightarrow> list_ex (\<lambda>l. l_ID l = i) (db_ledgers d)"

definition account_exists :: "uuid \<Rightarrow> Db \<Rightarrow> bool" where
  "account_exists i d \<longleftrightarrow> list_ex (\<lambda>a. a_ID a = i) (db_accounts d)"

definition tx_exists :: "uuid \<Rightarrow> Db \<Rightarrow> bool" where
  "tx_exists i d \<longleftrightarrow> list_ex (\<lambda>t. t_ID t = i) (db_transactions d)"

section \<open>Inserts\<close>

text \<open>
  Each insert checks, in PostgreSQL's order, the row security policy, the check constraints, the
  unique indexes and the foreign keys (which ignore row security).
\<close>

definition insert_ledger :: "uuid \<Rightarrow> Ledger \<Rightarrow> Db \<Rightarrow> error + Db" where
  "insert_ledger tn l d =
     (if l_TenantID l \<noteq> tn then Inl (PgError RowSecurityViolation)
      else if l_Environment l \<noteq> ''sandbox'' \<and> l_Environment l \<noteq> ''live'' then Inl (PgError CheckViolation)
      else if ledger_exists (l_ID l) d
        \<or> list_ex (\<lambda>x. l_TenantID x = l_TenantID l \<and> l_Name x = l_Name l) (db_ledgers d)
      then Inl (PgError UniqueViolation)
      else Inr (d\<lparr>db_ledgers := db_ledgers d @ [l\<lparr>l_Metadata := meta (l_Metadata l)\<rparr>]\<rparr>))"

definition insert_account :: "uuid \<Rightarrow> Account \<Rightarrow> Db \<Rightarrow> error + Db" where
  "insert_account tn a d =
     (if a_TenantID a \<noteq> tn then Inl (PgError RowSecurityViolation)
      else if \<not> AccountType_Valid (a_Type a) \<or> \<not> NormalBalance_Valid (a_NormalBalance a)
        \<or> a_Status a \<notin> {''active'', ''frozen'', ''closed''} then Inl (PgError CheckViolation)
      else if account_exists (a_ID a) d
        \<or> list_ex (\<lambda>x. a_TenantID x = a_TenantID a \<and> a_LedgerID x = a_LedgerID a \<and> a_Path x = a_Path a) (db_accounts d)
      then Inl (PgError UniqueViolation)
      else if \<not> ledger_exists (a_LedgerID a) d then Inl (PgError ForeignKeyViolation)
      else Inr (d\<lparr>db_accounts := db_accounts d @ [a\<lparr>a_Metadata := meta (a_Metadata a)\<rparr>]\<rparr>))"

definition tx_row :: "Transaction \<Rightarrow> Transaction" where
  "tx_row t = t\<lparr>t_Postings := [], t_EffectiveAtProvided := False, t_Metadata := meta (t_Metadata t)\<rparr>"

definition fk_tx :: "uuid option \<Rightarrow> uuid \<Rightarrow> Db \<Rightarrow> bool" where
  "fk_tx ref new d \<longleftrightarrow> (case ref of None \<Rightarrow> True | Some i \<Rightarrow> i = new \<or> tx_exists i d)"

definition insert_tx :: "uuid \<Rightarrow> Transaction \<Rightarrow> Db \<Rightarrow> error + Db" where
  "insert_tx tn t d =
     (if t_TenantID t \<noteq> tn then Inl (PgError RowSecurityViolation)
      else if t_Status t \<notin> {TransactionDraft, TransactionPosted, TransactionReversed} then Inl (PgError CheckViolation)
      else if tx_exists (t_ID t) d
        \<or> list_ex (\<lambda>x. t_TenantID x = t_TenantID t \<and> t_IdempotencyKey x = t_IdempotencyKey t) (db_transactions d)
      then Inl (PgError UniqueViolation)
      else if \<not> ledger_exists (t_LedgerID t) d \<or> \<not> fk_tx (t_ReversedByID t) (t_ID t) d
        \<or> \<not> fk_tx (t_ReversesID t) (t_ID t) d then Inl (PgError ForeignKeyViolation)
      else Inr (d\<lparr>db_transactions := db_transactions d @ [tx_row t], db_deferred := t_ID t # db_deferred d\<rparr>))"

definition posting_row :: "Transaction \<Rightarrow> Posting \<Rightarrow> PostingRow" where
  "posting_row t p = \<lparr>pr_id = p_ID p, pr_tenant = t_TenantID t, pr_tx = t_ID t, pr_account = p_AccountID p,
     pr_direction = p_Direction p, pr_asset = Asset (p_Amount p), pr_amount = sint (Units (p_Amount p)),
     pr_created = t_CreatedAt t\<rparr>"

definition insert_posting :: "uuid \<Rightarrow> PostingRow \<Rightarrow> Db \<Rightarrow> error + Db" where
  "insert_posting tn r d =
     (if length (pr_asset r) > 12 then Inl (PgError StringTooLong)
      else if pr_tenant r \<noteq> tn then Inl (PgError RowSecurityViolation)
      else if \<not> Direction_Valid (pr_direction r) \<or> pr_amount r \<le> 0 then Inl (PgError CheckViolation)
      else if list_ex (\<lambda>x. pr_id x = pr_id r) (db_postings d) then Inl (PgError UniqueViolation)
      else if \<not> tx_exists (pr_tx r) d \<or> \<not> account_exists (pr_account r) d then Inl (PgError ForeignKeyViolation)
      else Inr (d\<lparr>db_postings := db_postings d @ [r], db_deferred := pr_tx r # db_deferred d\<rparr>))"

definition insert_hold :: "uuid \<Rightarrow> HoldRow \<Rightarrow> Db \<Rightarrow> error + Db" where
  "insert_hold tn r d =
     (let h = hr_hold r in
      if length (Asset (h_Amount h)) > 12 then Inl (PgError StringTooLong)
      else if h_TenantID h \<noteq> tn then Inl (PgError RowSecurityViolation)
      else if sint (Units (h_Amount h)) \<le> 0
        \<or> h_Status h \<notin> {HoldActive, HoldCaptured, HoldReleased, HoldExpired} then Inl (PgError CheckViolation)
      else if list_ex (\<lambda>x. h_ID (hr_hold x) = h_ID h) (db_holds d)
        \<or> list_ex (\<lambda>x. h_TenantID (hr_hold x) = h_TenantID h \<and> h_IdempotencyKey (hr_hold x) = h_IdempotencyKey h) (db_holds d)
      then Inl (PgError UniqueViolation)
      else if \<not> ledger_exists (h_LedgerID h) d \<or> \<not> account_exists (h_AccountID h) d then Inl (PgError ForeignKeyViolation)
      else Inr (d\<lparr>db_holds := db_holds d @ [r]\<rparr>))"

definition insert_key :: "uuid \<Rightarrow> IdempotencyRow \<Rightarrow> Db \<Rightarrow> error + Db" where
  "insert_key tn r d =
     (if ir_tenant r \<noteq> tn then Inl (PgError RowSecurityViolation)
      else if list_ex (\<lambda>x. ir_tenant x = ir_tenant r \<and> ir_key x = ir_key r) (db_keys d) then Inl (PgError UniqueViolation)
      else Inr (d\<lparr>db_keys := db_keys d @ [r]\<rparr>))"

definition insertOutbox :: "uuid option \<Rightarrow> timestamp \<Rightarrow> uuid \<Rightarrow> string \<Rightarrow> uuid \<Rightarrow> event_data \<Rightarrow> Db \<Rightarrow> error + Db" where
  "insertOutbox evID wall tn topic tenantID payload d =
     bindE (NewEnvelope evID wall topic tenantID payload) (\<lambda>env.
       if tenantID \<noteq> tn then Inl (PgError RowSecurityViolation)
       else Inr (d\<lparr>db_outbox := db_outbox d @ [\<lparr>or_tenant = tenantID, or_topic = topic, or_envelope = Some env, or_published = False\<rparr>]\<rparr>))"

section \<open>Balance statements\<close>

definition balance_ok :: "BalanceRow \<Rightarrow> bool" where
  "balance_ok r \<longleftrightarrow> fits64 (br_posted_debits r) \<and> fits64 (br_posted_credits r) \<and> fits64 (br_pending_debits r)
     \<and> fits64 (br_pending_credits r) \<and> fits64 (br_held r) \<and> fits64 (br_version r)"

definition zero_balance :: "uuid \<Rightarrow> uuid \<Rightarrow> string \<Rightarrow> BalanceRow" where
  "zero_balance acc tn asset = \<lparr>br_account = acc, br_tenant = tn, br_asset = asset, br_posted_debits = 0,
     br_posted_credits = 0, br_pending_debits = 0, br_pending_credits = 0, br_held = 0, br_version = 0\<rparr>"

definition update_rows :: "('r \<Rightarrow> bool) \<Rightarrow> ('r \<Rightarrow> 'r) \<Rightarrow> 'r list \<Rightarrow> 'r list" where
  "update_rows P f rs = map (\<lambda>r. if P r then f r else r) rs"

text \<open>
  \<open>INSERT ... ON CONFLICT (account_id, asset) DO UPDATE\<close>: the inserted row is the change applied to
  the column defaults; a conflicting row of another tenant is hidden by row security and refused.
\<close>

definition upsert_balance :: "uuid \<Rightarrow> uuid \<Rightarrow> uuid \<Rightarrow> string \<Rightarrow> (BalanceRow \<Rightarrow> BalanceRow) \<Rightarrow> Db \<Rightarrow> error + Db" where
  "upsert_balance tn acc rowTenant asset f d =
     (if length asset > 12 then Inl (PgError StringTooLong)
      else if rowTenant \<noteq> tn then Inl (PgError RowSecurityViolation)
      else case find_balance acc asset d of
        None \<Rightarrow>
          if \<not> balance_ok (f (zero_balance acc rowTenant asset)) then Inl (PgError NumericOutOfRange)
          else if \<not> account_exists acc d then Inl (PgError ForeignKeyViolation)
          else Inr (d\<lparr>db_balances := db_balances d @ [f (zero_balance acc rowTenant asset)]\<rparr>)
      | Some r \<Rightarrow>
          if br_tenant r \<noteq> tn then Inl (PgError RowSecurityViolation)
          else if \<not> balance_ok (f r) then Inl (PgError NumericOutOfRange)
          else Inr (d\<lparr>db_balances := update_rows (\<lambda>x. br_account x = acc \<and> br_asset x = asset) f (db_balances d)\<rparr>))"

text \<open>\<open>UPDATE account_balances ... WHERE account_id = _ AND asset = _\<close>, with the number of rows it changed.\<close>

definition update_balance :: "uuid \<Rightarrow> uuid \<Rightarrow> string \<Rightarrow> (BalanceRow \<Rightarrow> BalanceRow) \<Rightarrow> Db \<Rightarrow> error + nat \<times> Db" where
  "update_balance tn acc asset f d =
     (case find_balance acc asset d of
        None \<Rightarrow> Inr (0, d)
      | Some r \<Rightarrow>
          if br_tenant r \<noteq> tn then Inr (0, d)
          else if \<not> balance_ok (f r) then Inl (PgError NumericOutOfRange)
          else Inr (1, d\<lparr>db_balances := update_rows (\<lambda>x. br_account x = acc \<and> br_asset x = asset) f (db_balances d)\<rparr>))"

definition add_posted :: "int \<Rightarrow> int \<Rightarrow> BalanceRow \<Rightarrow> BalanceRow" where
  "add_posted dr cr r = r\<lparr>br_posted_debits := br_posted_debits r + dr, br_posted_credits := br_posted_credits r + cr,
     br_version := br_version r + 1\<rparr>"

definition add_pending :: "int \<Rightarrow> int \<Rightarrow> BalanceRow \<Rightarrow> BalanceRow" where
  "add_pending dr cr r = r\<lparr>br_pending_debits := br_pending_debits r + dr, br_pending_credits := br_pending_credits r + cr,
     br_version := br_version r + 1\<rparr>"

definition move_pending :: "int \<Rightarrow> int \<Rightarrow> BalanceRow \<Rightarrow> BalanceRow" where
  "move_pending dr cr r = r\<lparr>br_posted_debits := br_posted_debits r + dr, br_posted_credits := br_posted_credits r + cr,
     br_pending_debits := br_pending_debits r - dr, br_pending_credits := br_pending_credits r - cr,
     br_version := br_version r + 1\<rparr>"

definition add_held :: "int \<Rightarrow> BalanceRow \<Rightarrow> BalanceRow" where
  "add_held x r = r\<lparr>br_held := br_held r + x, br_version := br_version r + 1\<rparr>"

definition debitCredit :: "Posting \<Rightarrow> int64 \<times> int64" where
  "debitCredit p = (if p_Direction p = DirectionDebit then (Units (p_Amount p), 0) else (0, Units (p_Amount p)))"

definition upsertPostedBalance :: "uuid \<Rightarrow> uuid \<Rightarrow> Posting \<Rightarrow> Db \<Rightarrow> error + Db" where
  "upsertPostedBalance tn tenantID p d =
     (let (dr, cr) = debitCredit p
      in upsert_balance tn (p_AccountID p) tenantID (Asset (p_Amount p)) (add_posted (sint dr) (sint cr)) d)"

definition upsertPendingBalance :: "uuid \<Rightarrow> uuid \<Rightarrow> Posting \<Rightarrow> Db \<Rightarrow> error + Db" where
  "upsertPendingBalance tn tenantID p d =
     (let (dr, cr) = debitCredit p
      in upsert_balance tn (p_AccountID p) tenantID (Asset (p_Amount p)) (add_pending (sint dr) (sint cr)) d)"

definition movePendingToPosted :: "uuid \<Rightarrow> Posting \<Rightarrow> Db \<Rightarrow> error + Db" where
  "movePendingToPosted tn p d =
     (let (dr, cr) = debitCredit p
      in bindE (update_balance tn (p_AccountID p) (Asset (p_Amount p)) (move_pending (sint dr) (sint cr)) d) (\<lambda>(n, d'). Inr d'))"

text \<open>A batch sends its statements in order and stops at the first error.\<close>

fun run_batch :: "('x \<Rightarrow> Db \<Rightarrow> error + Db) \<Rightarrow> 'x list \<Rightarrow> Db \<Rightarrow> error + Db" where
  "run_batch stmt [] d = Inr d"
| "run_batch stmt (x # xs) d = bindE (stmt x d) (run_batch stmt xs)"

definition applyBalances :: "uuid \<Rightarrow> uuid \<Rightarrow> Posting list \<Rightarrow> (uuid \<Rightarrow> uuid \<Rightarrow> Posting \<Rightarrow> Db \<Rightarrow> error + Db) \<Rightarrow> Db \<Rightarrow> error + Db" where
  "applyBalances tn tenantID ps stmt d = run_batch (stmt tn tenantID) ps d"

definition promoteBalances :: "uuid \<Rightarrow> Posting list \<Rightarrow> Db \<Rightarrow> error + Db" where
  "promoteBalances tn ps d = run_batch (movePendingToPosted tn) ps d"

section \<open>Updates of transactions and holds\<close>

text \<open>\<open>transactions_guard\<close> on an \<open>UPDATE\<close> by the runtime role.\<close>

definition transactions_guard :: "Transaction \<Rightarrow> Transaction \<Rightarrow> error + unit" where
  "transactions_guard old new =
     (if t_ID new \<noteq> t_ID old \<or> t_TenantID new \<noteq> t_TenantID old \<or> t_LedgerID new \<noteq> t_LedgerID old
        \<or> t_Reference new \<noteq> t_Reference old \<or> t_Description new \<noteq> t_Description old
        \<or> t_IdempotencyKey new \<noteq> t_IdempotencyKey old \<or> t_EffectiveAt new \<noteq> t_EffectiveAt old
        \<or> t_ReversesID new \<noteq> t_ReversesID old \<or> t_Metadata new \<noteq> t_Metadata old \<or> t_CreatedAt new \<noteq> t_CreatedAt old
      then Inl (PgError RaisedException)
      else if t_Status old = TransactionDraft \<and> t_Status new = TransactionPosted
        \<and> t_PostedAt old = None \<and> t_PostedAt new \<noteq> None \<and> t_ReversedByID new = t_ReversedByID old then Inr ()
      else if t_Status old = TransactionPosted \<and> t_Status new = TransactionReversed
        \<and> t_ReversedByID old = None \<and> t_ReversedByID new \<noteq> None \<and> t_PostedAt new = t_PostedAt old then Inr ()
      else Inl (PgError RaisedException))"

definition update_tx :: "uuid \<Rightarrow> uuid \<Rightarrow> (Transaction \<Rightarrow> Transaction) \<Rightarrow> Db \<Rightarrow> error + Db" where
  "update_tx tn i f d =
     (case find_tx tn i d of
        None \<Rightarrow> Inr d
      | Some t \<Rightarrow> bindE (transactions_guard t (f t)) (\<lambda>_.
          if \<not> fk_tx (t_ReversedByID (f t)) i d then Inl (PgError ForeignKeyViolation)
          else Inr (d\<lparr>db_transactions := update_rows (\<lambda>x. t_ID x = i) f (db_transactions d),
                      db_deferred := i # db_deferred d\<rparr>)))"

definition set_posted :: "timestamp \<Rightarrow> Transaction \<Rightarrow> Transaction" where
  "set_posted now t = t\<lparr>t_Status := TransactionPosted, t_PostedAt := Some now\<rparr>"

definition set_reversed :: "uuid \<Rightarrow> Transaction \<Rightarrow> Transaction" where
  "set_reversed by_id t = t\<lparr>t_Status := TransactionReversed, t_ReversedByID := Some by_id\<rparr>"

definition update_hold :: "uuid \<Rightarrow> uuid \<Rightarrow> (Hold \<Rightarrow> Hold) \<Rightarrow> Db \<Rightarrow> error + Db" where
  "update_hold tn i f d =
     (case find_hold tn i d of
        None \<Rightarrow> Inr d
      | Some r \<Rightarrow>
          if \<not> (case h_CapturedTransactionID (f (hr_hold r)) of None \<Rightarrow> True | Some x \<Rightarrow> tx_exists x d)
          then Inl (PgError ForeignKeyViolation)
          else Inr (d\<lparr>db_holds := update_rows (\<lambda>x. h_ID (hr_hold x) = i) (\<lambda>x. x\<lparr>hr_hold := f (hr_hold x)\<rparr>) (db_holds d)\<rparr>))"

section \<open>Database transactions\<close>

text \<open>\<open>check_transaction_balance\<close>, the deferred double-entry trigger, as the tenant's session sees the rows.\<close>

definition tx_postings :: "uuid \<Rightarrow> uuid \<Rightarrow> Db \<Rightarrow> PostingRow list" where
  "tx_postings tn i d = filter (\<lambda>p. pr_tenant p = tn \<and> pr_tx p = i) (db_postings d)"

definition row_sum :: "(PostingRow \<Rightarrow> bool) \<Rightarrow> PostingRow list \<Rightarrow> int" where
  "row_sum P ps = (\<Sum>p\<leftarrow>ps. if P p then pr_amount p else 0)"

definition check_transaction_balance :: "uuid \<Rightarrow> Db \<Rightarrow> uuid \<Rightarrow> error + unit" where
  "check_transaction_balance tn d i =
     (case find_tx tn i d of
        None \<Rightarrow> Inr ()
      | Some t \<Rightarrow>
        if t_Status t \<noteq> TransactionPosted \<and> t_Status t \<noteq> TransactionReversed then Inr ()
        else if length (tx_postings tn i d) < 2 then Inl (PgError CheckViolation)
        else if list_ex (\<lambda>asset.
              row_sum (\<lambda>p. pr_asset p = asset \<and> pr_direction p = DirectionDebit) (tx_postings tn i d)
            \<noteq> row_sum (\<lambda>p. pr_asset p = asset \<and> pr_direction p = DirectionCredit) (tx_postings tn i d))
          (remdups (map pr_asset (tx_postings tn i d)))
        then Inl (PgError CheckViolation)
        else Inr ())"

fun run_deferred :: "uuid \<Rightarrow> Db \<Rightarrow> uuid list \<Rightarrow> error + unit" where
  "run_deferred tn d [] = Inr ()"
| "run_deferred tn d (i # is) = bindE (check_transaction_balance tn d i) (\<lambda>_. run_deferred tn d is)"

text \<open>
  \<open>WithTenantTx\<close>: the body works on its own view of the database; an error of the body or of a
  deferred trigger at commit leaves the database as it was.
\<close>

definition WithTenantTx :: "uuid \<Rightarrow> (Db \<Rightarrow> error + 'a \<times> Db) \<Rightarrow> Db \<Rightarrow> (error + 'a) \<times> Db" where
  "WithTenantTx tenantID fn d =
     (if tenantID = uuid_Nil then (Inl ErrNilTenant, d)
      else case fn (d\<lparr>db_deferred := []\<rparr>) of
        Inl e \<Rightarrow> (Inl e, d)
      | Inr (x, d') \<Rightarrow>
        (case run_deferred tenantID d' (rev (db_deferred d')) of
           Inl e \<Rightarrow> (Inl e, d)
         | Inr _ \<Rightarrow> (Inr x, d'\<lparr>db_deferred := []\<rparr>)))"

definition mapErr :: "error \<Rightarrow> error" where
  "mapErr e = (case e of
     PgError UniqueViolation \<Rightarrow> ErrConflict
   | PgError ForeignKeyViolation \<Rightarrow> ErrNotFound
   | PgError CheckViolation \<Rightarrow> ErrValidation
   | _ \<Rightarrow> e)"

definition map_res :: "(error + 'a) \<times> Db \<Rightarrow> (error + 'a) \<times> Db" where
  "map_res r = (case r of (Inl e, d) \<Rightarrow> (Inl (mapErr e), d) | (Inr x, d) \<Rightarrow> (Inr x, d))"

definition isUniqueViolation :: "error \<Rightarrow> bool" where
  "isUniqueViolation e \<longleftrightarrow> e = PgError UniqueViolation"

end
