(* ===== verification/Ledger_Sql.thy ===== *)
theory Ledger_Sql
  imports Ledger_Db
begin

text \<open>
  The laws of the SQL layer: which tables each statement leaves alone, what a lookup returns
  after an update, and, through the locale \<open>counter_stmt\<close>, how much a batch of statements adds to a
  counter. The counters are the columns of \<open>account_balances\<close> and, on the other side, the sums of
  the postings those columns are meant to cache.
\<close>

section \<open>Batches\<close>

text \<open>
  A statement that, where it succeeds on an admissible argument, adds a known amount to every
  counter of a family, and keeps arguments admissible.
\<close>

locale counter_stmt =
  fixes stmt :: "'x \<Rightarrow> Db \<Rightarrow> error + Db"
    and counter :: "Db \<Rightarrow> 'k \<Rightarrow> int"
    and delta :: "'x \<Rightarrow> 'k \<Rightarrow> int"
    and ok :: "'x \<Rightarrow> Db \<Rightarrow> bool"
  assumes add: "ok x d \<Longrightarrow> stmt x d = Inr d' \<Longrightarrow> counter d' k = counter d k + delta x k"
    and keep: "ok y d \<Longrightarrow> stmt x d = Inr d' \<Longrightarrow> ok y d'"
begin

lemma batch:
  "run_batch stmt xs d = Inr d' \<Longrightarrow> (\<And>x. x \<in> set xs \<Longrightarrow> ok x d)
    \<Longrightarrow> counter d' k = counter d k + (\<Sum>x\<leftarrow>xs. delta x k)"
proof (induction xs arbitrary: d)
  case (Cons x xs)
  then obtain e where e: "stmt x d = Inr e" "run_batch stmt xs e = Inr d'"
    by (auto simp: bindE_Inr_iff)
  have "ok y e" if "y \<in> set xs" for y
    using Cons.prems(2) [of y] keep [OF _ e(1)] that by simp
  then have "counter d' k = counter e k + (\<Sum>x\<leftarrow>xs. delta x k)"
    using e(2) by (intro Cons.IH)
  with e(1) Cons.prems(2) add show ?case by simp
qed simp

end

text \<open>A statement that leaves a view of the database alone, or keeps a property of it.\<close>

locale frame_stmt =
  fixes stmt :: "'x \<Rightarrow> Db \<Rightarrow> error + Db"
    and view :: "Db \<Rightarrow> 'v"
  assumes same: "stmt x d = Inr d' \<Longrightarrow> view d' = view d"
begin

lemma batch: "run_batch stmt xs d = Inr d' \<Longrightarrow> view d' = view d"
  by (induction xs arbitrary: d) (auto simp: bindE_Inr_iff same)

end

lemma run_batch_keeps:
  assumes "run_batch stmt xs d = Inr d'" and "I d"
    and "\<And>x d d'. x \<in> set xs \<Longrightarrow> I d \<Longrightarrow> stmt x d = Inr d' \<Longrightarrow> I d'"
  shows "I d'"
  using assms
proof (induction xs arbitrary: d)
  case (Cons x xs)
  then obtain e where e: "stmt x d = Inr e" "run_batch stmt xs e = Inr d'"
    by (auto simp: bindE_Inr_iff)
  have "I e" using Cons.prems(2,3) e(1) by (meson list.set_intros(1))
  then show ?case using Cons.IH [OF e(2)] Cons.prems(3) by (meson list.set_intros(2))
qed simp

section \<open>Lookups\<close>

lemma find_append: "find P (xs @ ys) = (case find P xs of None \<Rightarrow> find P ys | Some x \<Rightarrow> Some x)"
  by (induction xs) auto

lemma find_update_rows:
  "(\<And>r. Q r \<Longrightarrow> P (f r) = P r) \<Longrightarrow>
    find P (update_rows Q f xs) = map_option (\<lambda>r. if Q r then f r else r) (find P xs)"
  by (induction xs) (auto simp: update_rows_def)

lemma map_update_rows [simp]: "(\<And>r. Q r \<Longrightarrow> k (f r) = k r) \<Longrightarrow> map k (update_rows Q f xs) = map k xs"
  by (auto simp: update_rows_def)

lemma set_update_rows: "set (update_rows Q f xs) = f ` {x \<in> set xs. Q x} \<union> {x \<in> set xs. \<not> Q x}"
  by (auto simp: update_rows_def image_iff)

lemma update_rows_none: "(\<And>x. x \<in> set xs \<Longrightarrow> \<not> Q x) \<Longrightarrow> update_rows Q f xs = xs"
  by (auto simp: update_rows_def intro: map_idI)

lemma find_distinct:
  "distinct (map k xs) \<Longrightarrow> x \<in> set xs \<Longrightarrow> k x = i \<Longrightarrow> find (\<lambda>x. k x = i) xs = Some x"
  by (induction xs) (auto simp: image_iff)

lemma find_unique: "x \<in> set xs \<Longrightarrow> P x \<Longrightarrow> (\<And>y. y \<in> set xs \<Longrightarrow> P y \<Longrightarrow> y = x) \<Longrightarrow> find P xs = Some x"
proof (induction xs)
  case (Cons y ys)
  show ?case
  proof (cases "P y")
    case True
    then show ?thesis using Cons.prems(3) [of y] by simp
  next
    case False
    then have "x \<in> set ys" using Cons.prems(1,2) by auto
    then have "find P ys = Some x"
      using Cons.prems(2) by (rule Cons.IH) (rule Cons.prems(3), simp_all)
    with False show ?thesis by simp
  qed
qed simp

lemma sum_list_update_rows:
  "distinct (map k xs) \<Longrightarrow> find (\<lambda>x. k x = i) xs = Some x \<Longrightarrow>
    (\<Sum>y\<leftarrow>update_rows (\<lambda>x. k x = i) f xs. g y) = (\<Sum>y\<leftarrow>xs. g y) - g x + (g (f x) :: int)"
proof (induction xs)
  case (Cons y ys)
  have rest: "update_rows (\<lambda>x. k x = i) f ys = ys" if "k y = i"
    using Cons.prems(1) that by (intro update_rows_none) (auto simp: image_iff)
  show ?case
    using Cons rest by (cases "k y = i") (auto simp: update_rows_def)
qed (simp add: update_rows_def)

section \<open>Columns of account\_balances\<close>

datatype column = PostedDebits | PostedCredits | PendingDebits | PendingCredits

type_synonym counter_key = "column \<times> uuid \<times> string"

primrec col :: "column \<Rightarrow> BalanceRow \<Rightarrow> int" where
  "col PostedDebits r = br_posted_debits r"
| "col PostedCredits r = br_posted_credits r"
| "col PendingDebits r = br_pending_debits r"
| "col PendingCredits r = br_pending_credits r"

primrec col_direction :: "column \<Rightarrow> string" where
  "col_direction PostedDebits = DirectionDebit"
| "col_direction PostedCredits = DirectionCredit"
| "col_direction PendingDebits = DirectionDebit"
| "col_direction PendingCredits = DirectionCredit"

primrec col_posted :: "column \<Rightarrow> bool" where
  "col_posted PostedDebits = True"
| "col_posted PostedCredits = True"
| "col_posted PendingDebits = False"
| "col_posted PendingCredits = False"

text \<open>The value a column holds for an account and asset, zero where there is no row.\<close>

fun stored :: "Db \<Rightarrow> counter_key \<Rightarrow> int" where
  "stored d (c, acc, asset) = (case find_balance acc asset d of None \<Rightarrow> 0 | Some r \<Rightarrow> col c r)"

definition held :: "Db \<Rightarrow> uuid \<times> string \<Rightarrow> int" where
  "held d = (\<lambda>(acc, asset). case find_balance acc asset d of None \<Rightarrow> 0 | Some r \<Rightarrow> br_held r)"

text \<open>What one posting contributes to a counter, when it counts on the posted or on the pending side.\<close>

fun contrib :: "bool \<Rightarrow> Posting \<Rightarrow> counter_key \<Rightarrow> int" where
  "contrib side p (c, acc, asset) =
     (if col_posted c = side \<and> col_direction c = p_Direction p \<and> p_AccountID p = acc \<and> p_asset p = asset
      then units p else 0)"

definition balance_key :: "BalanceRow \<Rightarrow> uuid \<times> string" where
  "balance_key r = (br_account r, br_asset r)"

text \<open>The row a change starts from, and the functions a balance statement may apply to it.\<close>

definition balance_or_zero :: "Db \<Rightarrow> uuid \<Rightarrow> uuid \<Rightarrow> string \<Rightarrow> BalanceRow" where
  "balance_or_zero d acc tn asset = (case find_balance acc asset d of None \<Rightarrow> zero_balance acc tn asset | Some r \<Rightarrow> r)"

definition keeps_key :: "(BalanceRow \<Rightarrow> BalanceRow) \<Rightarrow> bool" where
  "keeps_key f \<longleftrightarrow> (\<forall>r. br_account (f r) = br_account r \<and> br_asset (f r) = br_asset r \<and> br_tenant (f r) = br_tenant r)"

lemma keeps_key_changes [simp]:
  "keeps_key (add_posted x y)" "keeps_key (add_pending x y)" "keeps_key (move_pending x y)" "keeps_key (add_held x)"
  by (simp_all add: keeps_key_def add_posted_def add_pending_def move_pending_def add_held_def)

lemma find_balance_update:
  "keeps_key f \<Longrightarrow> find_balance a s (d\<lparr>db_balances := update_rows (\<lambda>x. br_account x = acc \<and> br_asset x = asset) f (db_balances d)\<rparr>)
     = map_option (\<lambda>r. if a = acc \<and> s = asset then f r else r) (find_balance a s d)"
proof -
  assume f: "keeps_key f"
  have "find_balance a s (d\<lparr>db_balances := update_rows (\<lambda>x. br_account x = acc \<and> br_asset x = asset) f (db_balances d)\<rparr>)
     = map_option (\<lambda>r. if br_account r = acc \<and> br_asset r = asset then f r else r) (find_balance a s d)"
    using f by (simp add: find_balance_def find_update_rows keeps_key_def)
  also have "\<dots> = map_option (\<lambda>r. if a = acc \<and> s = asset then f r else r) (find_balance a s d)"
    by (auto simp: find_balance_def dest!: find_Some_filter intro!: map_option_cong)
  finally show ?thesis .
qed

lemma upsert_balance_find:
  assumes "upsert_balance tn acc rt asset f d = Inr d'" and f: "keeps_key f"
  shows "find_balance a s d' = (if a = acc \<and> s = asset then Some (f (balance_or_zero d acc rt asset)) else find_balance a s d)"
proof (cases "find_balance acc asset d")
  case None
  then have d': "d' = d\<lparr>db_balances := db_balances d @ [f (zero_balance acc rt asset)]\<rparr>"
    using assms(1) by (auto simp: upsert_balance_def split: if_splits)
  show ?thesis
    using None f unfolding d'
    by (auto simp: find_balance_def find_append zero_balance_def keeps_key_def balance_or_zero_def split: option.splits)
next
  case (Some r)
  then have d': "d' = d\<lparr>db_balances := update_rows (\<lambda>x. br_account x = acc \<and> br_asset x = asset) f (db_balances d)\<rparr>"
    using assms(1) by (auto simp: upsert_balance_def split: if_splits)
  show ?thesis
    using Some unfolding d' find_balance_update [OF f] by (auto simp: balance_or_zero_def option.map_ident)
qed

lemma update_balance_find:
  assumes "update_balance tn acc asset f d = Inr (n, d')" and f: "keeps_key f"
  shows "find_balance a s d' = map_option (\<lambda>r. if n = 1 \<and> a = acc \<and> s = asset then f r else r) (find_balance a s d)"
proof (cases "n = 1")
  case True
  then have d': "d' = d\<lparr>db_balances := update_rows (\<lambda>x. br_account x = acc \<and> br_asset x = asset) f (db_balances d)\<rparr>"
    using assms(1) by (auto simp: update_balance_def split: if_splits option.splits)
  show ?thesis using True unfolding d' find_balance_update [OF f] by simp
next
  case False
  then have "d' = d" using assms(1) by (auto simp: update_balance_def split: if_splits option.splits)
  with False show ?thesis by (simp add: option.map_ident)
qed

text \<open>Every statement on balances leaves the other tables and the trigger queue alone.\<close>

definition other_tables :: "Db \<Rightarrow> Db" where
  "other_tables d = d\<lparr>db_balances := []\<rparr>"

lemma upsert_balance_frame: "upsert_balance tn acc rt asset f d = Inr d' \<Longrightarrow> other_tables d' = other_tables d"
  by (auto simp: upsert_balance_def other_tables_def split: if_splits option.splits)

lemma update_balance_frame: "update_balance tn acc asset f d = Inr (n, d') \<Longrightarrow> other_tables d' = other_tables d"
  by (auto simp: update_balance_def other_tables_def split: if_splits option.splits)

lemma other_tables_eqD:
  assumes "other_tables d' = other_tables d"
  shows "db_ledgers d' = db_ledgers d" "db_accounts d' = db_accounts d" "db_transactions d' = db_transactions d"
    "db_postings d' = db_postings d" "db_holds d' = db_holds d" "db_keys d' = db_keys d" "db_outbox d' = db_outbox d"
    "db_deferred d' = db_deferred d"
  using assms by (cases d; cases d'; simp add: other_tables_def)+

lemma stored_upsert:
  assumes "upsert_balance tn a rt s f d = Inr d'" and "keeps_key f"
    and "\<And>r. col c (f r) = col c r + x"
  shows "stored d' (c, acc, asset) = stored d (c, acc, asset) + (if acc = a \<and> asset = s then x else 0)"
proof -
  have "col c (zero_balance a rt s) = 0" by (cases c) (simp_all add: zero_balance_def)
  then show ?thesis
    using assms(3) by (simp add: upsert_balance_find [OF assms(1,2)] balance_or_zero_def split: option.split)
qed

lemma col_changes:
  "col c (add_posted x y r) = col c r + (if col_posted c then if col_direction c = DirectionDebit then x else y else 0)"
  "col c (add_pending x y r) = col c r + (if col_posted c then 0 else if col_direction c = DirectionDebit then x else y)"
  "col c (move_pending x y r) = col c r + (if col_posted c then 1 else - 1) * (if col_direction c = DirectionDebit then x else y)"
  "col c (add_held x r) = col c r"
  by (cases c; simp add: add_posted_def add_pending_def move_pending_def add_held_def)+

lemma col_direction_valid [simp]: "col_direction c \<noteq> DirectionDebit \<longleftrightarrow> col_direction c = DirectionCredit"
  by (cases c) simp_all

lemma debitCredit_contrib:
  assumes "Direction_Valid (p_Direction p)" and "debitCredit p = (dr, cr)"
  shows "(if col_direction c = DirectionDebit then sint dr else sint cr) = (if col_direction c = p_Direction p then units p else 0)"
  using assms by (cases c) (auto simp: debitCredit_def units_def Direction_Valid_def split: if_splits)

interpretation posted: counter_stmt "upsertPostedBalance tn tenantID" stored "contrib True"
  "\<lambda>p d. Direction_Valid (p_Direction p)" for tn tenantID
proof (unfold_locales, goal_cases)
  case (1 p d d' k)
  obtain c acc asset dr cr where k: "k = (c, acc, asset)" and dc: "debitCredit p = (dr, cr)"
    by (metis prod_cases3 surj_pair)
  have "upsert_balance tn (p_AccountID p) tenantID (p_asset p) (add_posted (sint dr) (sint cr)) d = Inr d'"
    using 1(2) by (simp add: upsertPostedBalance_def dc p_asset_def)
  from stored_upsert [OF this, of c "if col_posted c then if col_direction c = DirectionDebit then sint dr else sint cr else 0" acc asset]
  show ?case
    using debitCredit_contrib [OF 1(1) dc, of c] by (auto simp: k col_changes)
qed

interpretation pending: counter_stmt "upsertPendingBalance tn tenantID" stored "contrib False"
  "\<lambda>p d. Direction_Valid (p_Direction p)" for tn tenantID
proof (unfold_locales, goal_cases)
  case (1 p d d' k)
  obtain c acc asset dr cr where k: "k = (c, acc, asset)" and dc: "debitCredit p = (dr, cr)"
    by (metis prod_cases3 surj_pair)
  have "upsert_balance tn (p_AccountID p) tenantID (p_asset p) (add_pending (sint dr) (sint cr)) d = Inr d'"
    using 1(2) by (simp add: upsertPendingBalance_def dc p_asset_def)
  from stored_upsert [OF this, of c "if col_posted c then 0 else if col_direction c = DirectionDebit then sint dr else sint cr" acc asset]
  show ?case
    using debitCredit_contrib [OF 1(1) dc, of c] by (auto simp: k col_changes)
qed

text \<open>
  The promotion of a draft is an \<open>UPDATE\<close> whose row count is not checked, so it adds its amounts only
  where the tenant has a row to update.
\<close>

definition has_balance :: "uuid \<Rightarrow> Posting \<Rightarrow> Db \<Rightarrow> bool" where
  "has_balance tn p d \<longleftrightarrow> (case find_balance (p_AccountID p) (p_asset p) d of None \<Rightarrow> False | Some r \<Rightarrow> br_tenant r = tn)"

lemma update_balance_one:
  "update_balance tn acc asset f d = Inr (n, d') \<Longrightarrow> find_balance acc asset d = Some r \<Longrightarrow> br_tenant r = tn \<Longrightarrow> n = 1"
  by (simp add: update_balance_def split: if_splits)

interpretation move: counter_stmt "movePendingToPosted tn" stored "\<lambda>p k. contrib True p k - contrib False p k"
  "\<lambda>p d. Direction_Valid (p_Direction p) \<and> has_balance tn p d" for tn
proof (unfold_locales, goal_cases)
  case (1 p d d' k)
  obtain c acc asset dr cr where k: "k = (c, acc, asset)" and dc: "debitCredit p = (dr, cr)"
    by (metis prod_cases3 surj_pair)
  obtain n where u: "update_balance tn (p_AccountID p) (p_asset p) (move_pending (sint dr) (sint cr)) d = Inr (n, d')"
    using 1(2) by (auto simp: movePendingToPosted_def dc p_asset_def bindE_Inr_iff)
  obtain r where r: "find_balance (p_AccountID p) (p_asset p) d = Some r" "br_tenant r = tn"
    using 1(1) by (auto simp: has_balance_def split: option.splits)
  have "n = 1" using update_balance_one [OF u r] .
  then have "find_balance acc asset d' = (if acc = p_AccountID p \<and> asset = p_asset p
      then Some (move_pending (sint dr) (sint cr) r) else find_balance acc asset d)"
    using r by (cases "find_balance acc asset d") (auto simp: update_balance_find [OF u])
  then show ?case
    using debitCredit_contrib [OF _ dc, of c] 1(1) r by (auto simp: k col_changes)
next
  case (2 q d p d')
  obtain dr cr where dc: "debitCredit p = (dr, cr)" by fastforce
  obtain n where u: "update_balance tn (p_AccountID p) (p_asset p) (move_pending (sint dr) (sint cr)) d = Inr (n, d')"
    using 2(2) by (auto simp: movePendingToPosted_def dc p_asset_def bindE_Inr_iff)
  show ?case
    using 2(1) by (auto simp: has_balance_def update_balance_find [OF u] move_pending_def split: option.splits)
qed

interpretation posted_frame: frame_stmt "upsertPostedBalance tn tenantID" other_tables for tn tenantID
  by unfold_locales (auto simp: upsertPostedBalance_def Let_def split: prod.splits dest: upsert_balance_frame)

interpretation pending_frame: frame_stmt "upsertPendingBalance tn tenantID" other_tables for tn tenantID
  by unfold_locales (auto simp: upsertPendingBalance_def Let_def split: prod.splits dest: upsert_balance_frame)

interpretation move_frame: frame_stmt "movePendingToPosted tn" other_tables for tn
  by unfold_locales (auto simp: movePendingToPosted_def Let_def bindE_Inr_iff split: prod.splits dest: update_balance_frame)

lemma held_zero [simp]: "br_held (zero_balance acc tn asset) = 0"
  by (simp add: zero_balance_def)

interpretation posted_held: frame_stmt "upsertPostedBalance tn tenantID" held for tn tenantID
  by unfold_locales
    (auto simp: upsertPostedBalance_def Let_def held_def fun_eq_iff upsert_balance_find balance_or_zero_def add_posted_def
      split: prod.splits option.splits)

interpretation pending_held: frame_stmt "upsertPendingBalance tn tenantID" held for tn tenantID
  by unfold_locales
    (auto simp: upsertPendingBalance_def Let_def held_def fun_eq_iff upsert_balance_find balance_or_zero_def add_pending_def
      split: prod.splits option.splits)

interpretation move_held: frame_stmt "movePendingToPosted tn" held for tn
  by unfold_locales
    (auto simp: movePendingToPosted_def Let_def held_def fun_eq_iff bindE_Inr_iff update_balance_find move_pending_def
      split: prod.splits option.splits)

section \<open>Sums of postings\<close>

definition tx_status :: "Db \<Rightarrow> uuid \<Rightarrow> string" where
  "tx_status d i = (case find (\<lambda>t. t_ID t = i) (db_transactions d) of None \<Rightarrow> '''' | Some t \<Rightarrow> t_Status t)"

definition col_counts :: "column \<Rightarrow> string \<Rightarrow> bool" where
  "col_counts c st \<longleftrightarrow> (if col_posted c then st = TransactionPosted \<or> st = TransactionReversed else st = TransactionDraft)"

fun computed :: "Db \<Rightarrow> counter_key \<Rightarrow> int" where
  "computed d (c, acc, asset) = row_sum (\<lambda>p. col_counts c (tx_status d (pr_tx p)) \<and> pr_direction p = col_direction c
     \<and> pr_account p = acc \<and> pr_asset p = asset) (db_postings d)"

lemma row_sum_simps [simp]:
  "row_sum P [] = 0"
  "row_sum P (p # ps) = (if P p then pr_amount p else 0) + row_sum P ps"
  "row_sum P (ps @ qs) = row_sum P ps + row_sum P qs"
  by (simp_all add: row_sum_def)

lemma row_sum_cong: "(\<And>p. p \<in> set ps \<Longrightarrow> P p = Q p) \<Longrightarrow> row_sum P ps = row_sum Q ps"
  by (induction ps) auto

lemma insert_posting_Inr:
  "insert_posting tn r d = Inr d' \<longleftrightarrow>
     length (pr_asset r) \<le> 12 \<and> pr_tenant r = tn \<and> Direction_Valid (pr_direction r) \<and> 0 < pr_amount r
     \<and> (\<forall>x \<in> set (db_postings d). pr_id x \<noteq> pr_id r) \<and> tx_exists (pr_tx r) d \<and> account_exists (pr_account r) d
     \<and> d' = d\<lparr>db_postings := db_postings d @ [r], db_deferred := pr_tx r # db_deferred d\<rparr>"
  by (auto simp: insert_posting_def list_ex_iff)

interpretation inserted: counter_stmt "\<lambda>p. insert_posting tn (posting_row t p)" computed "contrib (st \<noteq> TransactionDraft)"
  "\<lambda>p d. tx_status d (t_ID t) = st \<and> st \<in> {TransactionDraft, TransactionPosted, TransactionReversed}" for tn t st
proof (unfold_locales, goal_cases)
  case (1 p d d' k)
  obtain c acc asset where k: "k = (c, acc, asset)" by (metis prod_cases3)
  have d': "d' = d\<lparr>db_postings := db_postings d @ [posting_row t p], db_deferred := t_ID t # db_deferred d\<rparr>"
    using 1(2) by (auto simp: insert_posting_Inr posting_row_def)
  have st: "tx_status d' i = tx_status d i" for i by (simp add: d' tx_status_def)
  have "col_counts c st = (col_posted c = (st \<noteq> TransactionDraft))"
    using 1(1) by (auto simp: col_counts_def)
  then show ?case
    using 1(1) by (auto simp: k st) (auto simp: d' posting_row_def p_asset_def units_def)
next
  case (2 q d p d')
  then show ?case by (auto simp: insert_posting_Inr tx_status_def)
qed

end
