(* ===== verification/Ledger_Store.thy ===== *)
theory Ledger_Store
  imports Ledger_Sql
begin

text \<open>
  The write operations of \<open>services/ledger-core/internal/adapters/postgres/store.go\<close> on ledgers,
  accounts and transactions. An operation is a function of the database it commits to. A statement
  that races with other sessions gets the database it sees as an argument of its own: \<open>dl\<close> for the
  idempotency lookup that opens a request and \<open>dr\<close> for the lookup repeated after a unique violation;
  a serial execution has both equal to the database of the request. The rows read after the lookup
  are locked (\<open>FOR UPDATE\<close>) or never change, so they are read in the committing database.

  Outside the repository, and therefore parameters: SHA-256 of the canonical JSON of a request
  (\<open>H\<close>, a function of the canonical value), \<open>uuid.UUID.String\<close>, the UUID generator and the clock.
\<close>

section \<open>Request fingerprints\<close>

record canonicalPosting =
  cp_AccountID :: string
  cp_Direction :: string
  cp_Asset :: string
  cp_Units :: int64

datatype canon =
    CanonTransaction string string string string "timestamp option" metadata "canonicalPosting list"
  | CanonHold string string int64 "timestamp option" metadata
  | CanonReverse string string

definition canonical_posting :: "(uuid \<Rightarrow> string) \<Rightarrow> Posting \<Rightarrow> canonicalPosting" where
  "canonical_posting uuidString p = \<lparr>cp_AccountID = uuidString (p_AccountID p), cp_Direction = p_Direction p,
     cp_Asset = Asset (p_Amount p), cp_Units = Units (p_Amount p)\<rparr>"

definition canonical_key :: "canonicalPosting \<Rightarrow> string \<times> string \<times> string \<times> int" where
  "canonical_key c = (cp_AccountID c, cp_Direction c, cp_Asset c, sint (cp_Units c))"

definition transactionFingerprint :: "(canon \<Rightarrow> bytes) \<Rightarrow> (uuid \<Rightarrow> string) \<Rightarrow> Transaction \<Rightarrow> bytes" where
  "transactionFingerprint H uuidString t =
     H (CanonTransaction (uuidString (t_LedgerID t)) (t_Reference t) (t_Description t) (t_Status t)
          (if t_EffectiveAtProvided t then Some (t_EffectiveAt t) else None) (meta (t_Metadata t))
          (sort_key canonical_key (map (canonical_posting uuidString) (t_Postings t))))"

definition reverseFingerprint :: "(canon \<Rightarrow> bytes) \<Rightarrow> (uuid \<Rightarrow> string) \<Rightarrow> uuid \<Rightarrow> string \<Rightarrow> bytes" where
  "reverseFingerprint H uuidString originalID reason = H (CanonReverse (uuidString originalID) reason)"

section \<open>Ledgers and accounts\<close>

definition store_CreateLedger :: "Ledger \<Rightarrow> Db \<Rightarrow> (error + unit) \<times> Db" where
  "store_CreateLedger l d =
     map_res (WithTenantTx (l_TenantID l) (\<lambda>d. bindE (insert_ledger (l_TenantID l) l d) (\<lambda>d'. Inr ((), d'))) d)"

definition store_CreateAccount :: "Account \<Rightarrow> Db \<Rightarrow> (error + unit) \<times> Db" where
  "store_CreateAccount a d =
     map_res (WithTenantTx (a_TenantID a) (\<lambda>d.
       case find_ledger (a_TenantID a) (a_LedgerID a) d of
         None \<Rightarrow> Inl ErrNotFound
       | Some _ \<Rightarrow> bindE (insert_account (a_TenantID a) a d) (\<lambda>d'. Inr ((), d'))) d)"

definition getAccountTx :: "uuid \<Rightarrow> uuid \<Rightarrow> Db \<Rightarrow> error + Account" where
  "getAccountTx tn i d = (case find_account tn i d of None \<Rightarrow> Inl ErrNotFound | Some a \<Rightarrow> Inr a)"

section \<open>Transactions\<close>

definition posting_of_row :: "PostingRow \<Rightarrow> Posting" where
  "posting_of_row r = \<lparr>p_ID = pr_id r, p_AccountID = pr_account r, p_Direction = pr_direction r,
     p_Amount = \<lparr>Asset = pr_asset r, Units = word_of_int (pr_amount r)\<rparr>\<rparr>"

text \<open>\<open>loadPostings\<close>: the tenant's postings of the given transactions in \<open>(created_at, id)\<close> order, grouped by transaction.\<close>

definition loadPostings :: "uuid \<Rightarrow> Db \<Rightarrow> uuid list \<Rightarrow> uuid \<Rightarrow> Posting list" where
  "loadPostings tn d ids =
     (let rows = sort_key (\<lambda>r. (pr_created r, pr_id r)) (filter (\<lambda>r. pr_tenant r = tn \<and> pr_tx r \<in> set ids) (db_postings d))
      in (\<lambda>i. map posting_of_row (filter (\<lambda>r. pr_tx r = i) rows)))"

definition loadTransactionTx :: "uuid \<Rightarrow> uuid \<Rightarrow> Db \<Rightarrow> error + Transaction" where
  "loadTransactionTx tn i d =
     (case find_tx tn i d of
        None \<Rightarrow> Inl ErrNotFound
      | Some t \<Rightarrow> Inr (t\<lparr>t_Postings := loadPostings tn d [i] i\<rparr>))"

definition insertTransactionTx :: "uuid \<Rightarrow> Transaction \<Rightarrow> Db \<Rightarrow> error + Db" where
  "insertTransactionTx tn t d =
     bindE (insert_tx tn t d) (run_batch (\<lambda>p. insert_posting tn (posting_row t p)) (t_Postings t))"

fun unique_ids :: "uuid list \<Rightarrow> uuid list \<Rightarrow> uuid list" where
  "unique_ids [] seen = []"
| "unique_ids (i # is) seen = (if i \<in> set seen then unique_ids is seen else i # unique_ids is (i # seen))"

fun check_found :: "uuid \<Rightarrow> Db \<Rightarrow> uuid \<Rightarrow> uuid list \<Rightarrow> error + unit" where
  "check_found tn d ledgerID [] = Inr ()"
| "check_found tn d ledgerID (i # is) =
     (case find_account tn i d of
        None \<Rightarrow> Inl ErrNotFound
      | Some a \<Rightarrow> if a_LedgerID a \<noteq> ledgerID then Inl ErrValidation else check_found tn d ledgerID is)"

definition checkAccountsInLedger :: "uuid \<Rightarrow> uuid \<Rightarrow> Posting list \<Rightarrow> Db \<Rightarrow> error + unit" where
  "checkAccountsInLedger tn ledgerID ps d = check_found tn d ledgerID (unique_ids (map p_AccountID ps) [])"

text \<open>
  The stored response is the JSON of the transaction: it does not carry \<open>EffectiveAtProvided\<close>, and
  \<open>omitempty\<close> drops an empty metadata map.
\<close>

definition json_snapshot :: "Transaction \<Rightarrow> Transaction" where
  "json_snapshot t = t\<lparr>t_EffectiveAtProvided := False,
     t_Metadata := (if t_Metadata t = Some [] then None else t_Metadata t)\<rparr>"

definition storeIdempotentResponse :: "uuid \<Rightarrow> uuid \<Rightarrow> string \<Rightarrow> int \<Rightarrow> Transaction \<Rightarrow> bytes \<Rightarrow> Db \<Rightarrow> error + Db" where
  "storeIdempotentResponse tn tenantID key statusCode t requestHash d =
     insert_key tn \<lparr>ir_tenant = tenantID, ir_key = key, ir_status = statusCode,
                     ir_response = json_snapshot t, ir_hash = requestHash\<rparr> d"

definition lookupIdempotentTx :: "uuid \<Rightarrow> string \<Rightarrow> Db \<Rightarrow> (Transaction \<times> bytes) option" where
  "lookupIdempotentTx tn key d = map_option (\<lambda>r. (ir_response r, ir_hash r)) (find_key tn key d)"

text \<open>A stored row answers the request, unless its fingerprint is known and differs.\<close>

definition serve_stored :: "bytes \<Rightarrow> 'a \<times> bytes \<Rightarrow> error + 'a \<times> bool" where
  "serve_stored fingerprint = (\<lambda>(stored, storedHash).
     if storedHash \<noteq> [] \<and> storedHash \<noteq> fingerprint then Inl ErrIdempotencyConflict else Inr (stored, True))"

text \<open>After a unique violation the lookup is repeated once; any other error is mapped.\<close>

definition retry_stored :: "('a \<times> bytes) option \<Rightarrow> bytes \<Rightarrow> error \<Rightarrow> error + 'a \<times> bool" where
  "retry_stored found fingerprint e =
     (if isUniqueViolation e
      then (case found of Some st \<Rightarrow> serve_stored fingerprint st | None \<Rightarrow> Inl (mapErr e))
      else Inl (mapErr e))"

definition create_tx_body ::
  "(canon \<Rightarrow> bytes) \<Rightarrow> (uuid \<Rightarrow> string) \<Rightarrow> uuid option \<Rightarrow> timestamp \<Rightarrow> Db \<Rightarrow> Transaction \<Rightarrow> Db \<Rightarrow> error + (Transaction \<times> bool) \<times> Db" where
  "create_tx_body H uuidString evID wall dl t d =
     (let tn = t_TenantID t; fingerprint = transactionFingerprint H uuidString t in
      case lookupIdempotentTx tn (t_IdempotencyKey t) dl of
        Some st \<Rightarrow> bindE (serve_stored fingerprint st) (\<lambda>r. Inr (r, d))
      | None \<Rightarrow>
        (case find_ledger tn (t_LedgerID t) d of
           None \<Rightarrow> Inl ErrNotFound
         | Some _ \<Rightarrow>
           bindE (checkAccountsInLedger tn (t_LedgerID t) (t_Postings t) d) (\<lambda>_.
           bindE (insertTransactionTx tn t d) (\<lambda>d1.
           bindE (if t_Status t = TransactionPosted
                  then bindE (applyBalances tn tn (t_Postings t) upsertPostedBalance d1) (\<lambda>d2.
                       let postedAt = (case t_PostedAt t of Some x \<Rightarrow> x | None \<Rightarrow> t_CreatedAt t)
                       in insertOutbox evID wall tn TopicTransactionPosted tn
                            (PostedData (NewTransactionPostedEvent t postedAt)) d2)
                  else applyBalances tn tn (t_Postings t) upsertPendingBalance d1) (\<lambda>d3.
           bindE (storeIdempotentResponse tn tn (t_IdempotencyKey t) 201 t fingerprint d3) (\<lambda>d4.
           Inr ((t, False), d4)))))))"

definition store_CreateTransaction ::
  "(canon \<Rightarrow> bytes) \<Rightarrow> (uuid \<Rightarrow> string) \<Rightarrow> uuid option \<Rightarrow> timestamp \<Rightarrow> Db \<Rightarrow> Db \<Rightarrow> Transaction \<Rightarrow> Db
     \<Rightarrow> (error + Transaction \<times> bool) \<times> Db" where
  "store_CreateTransaction H uuidString evID wall dl dr t d =
     (case WithTenantTx (t_TenantID t) (create_tx_body H uuidString evID wall dl t) d of
        (Inr r, d') \<Rightarrow> (Inr r, d')
      | (Inl e, d') \<Rightarrow> (retry_stored (lookupIdempotentTx (t_TenantID t) (t_IdempotencyKey t) dr)
                           (transactionFingerprint H uuidString t) e, d'))"

definition store_PostTransaction ::
  "uuid option \<Rightarrow> timestamp \<Rightarrow> uuid \<Rightarrow> uuid \<Rightarrow> timestamp \<Rightarrow> Db \<Rightarrow> (error + Transaction) \<times> Db" where
  "store_PostTransaction evID wall tenantID i now d =
     map_res (WithTenantTx tenantID (\<lambda>d.
       bindE (loadTransactionTx tenantID i d) (\<lambda>t.
         if t_Status t = TransactionPosted then Inr (t, d)
         else if t_Status t = TransactionReversed then Inl ErrInvalidState
         else
           bindE (update_tx tenantID i (set_posted now) d) (\<lambda>d1.
           bindE (promoteBalances tenantID (t_Postings t) d1) (\<lambda>d2.
           let t' = t\<lparr>t_Status := TransactionPosted, t_PostedAt := Some now\<rparr> in
           bindE (insertOutbox evID wall tenantID TopicTransactionPosted (t_TenantID t')
                    (PostedData (NewTransactionPostedEvent t' now)) d2) (\<lambda>d3.
           Inr (t', d3)))))) d)"

definition reversal_error :: "error \<Rightarrow> error" where
  "reversal_error e = (if e = ErrAlreadyReversed \<or> e = ErrNotPosted then ErrInvalidState else e)"

definition reversal_of :: "string \<Rightarrow> string \<Rightarrow> Transaction \<Rightarrow> Transaction \<Rightarrow> Transaction" where
  "reversal_of idempotencyKey reason original rv =
     rv\<lparr>t_IdempotencyKey := (if idempotencyKey \<noteq> '''' then idempotencyKey else t_IdempotencyKey rv),
         t_Description := ''Reversal of '' @ t_IdempotencyKey original @ (if reason \<noteq> '''' then '': '' @ reason else '''')\<rparr>"

definition reverse_tx_body ::
  "(canon \<Rightarrow> bytes) \<Rightarrow> (uuid \<Rightarrow> string) \<Rightarrow> (nat \<Rightarrow> uuid option) \<Rightarrow> uuid option \<Rightarrow> timestamp \<Rightarrow> Db \<Rightarrow> uuid \<Rightarrow> uuid
     \<Rightarrow> string \<Rightarrow> string \<Rightarrow> timestamp \<Rightarrow> Db \<Rightarrow> error + (Transaction \<times> bool) \<times> Db" where
  "reverse_tx_body H uuidString newV7 evID wall dl tenantID i idempotencyKey reason now d =
     (let effectiveKey = (if idempotencyKey = '''' then ReversalReferencePrefix @ uuidString i else idempotencyKey);
          fingerprint = reverseFingerprint H uuidString i reason in
      case lookupIdempotentTx tenantID effectiveKey dl of
        Some st \<Rightarrow> bindE (serve_stored fingerprint st) (\<lambda>r. Inr (r, d))
      | None \<Rightarrow>
        bindE (loadTransactionTx tenantID i d) (\<lambda>original.
        case newV7 0 of
          None \<Rightarrow> Inl ErrGenerateID
        | Some revID \<Rightarrow>
          (case Reverse uuidString (\<lambda>n. newV7 (Suc n)) original revID now of
             Inl e \<Rightarrow> Inl (reversal_error e)
           | Inr rev0 \<Rightarrow>
             let rev = reversal_of idempotencyKey reason original rev0; rtn = t_TenantID rev in
             bindE (insertTransactionTx tenantID rev d) (\<lambda>d1.
             bindE (applyBalances tenantID rtn (t_Postings rev) upsertPostedBalance d1) (\<lambda>d2.
             bindE (update_tx tenantID i (set_reversed (t_ID rev)) d2) (\<lambda>d3.
             bindE (storeIdempotentResponse tenantID rtn (t_IdempotencyKey rev) 201 rev fingerprint d3) (\<lambda>d4.
             bindE (insertOutbox evID wall tenantID TopicTransactionReversed rtn
                      (ReversedData \<lparr>tre_TransactionID = t_ID original, tre_ReversalTransactionID = t_ID rev,
                         tre_LedgerID = t_LedgerID original, tre_Reason = reason, tre_ReversedAt = now\<rparr>) d4) (\<lambda>d5.
             Inr ((rev, False), d5))))))))) "

definition store_ReverseTransaction ::
  "(canon \<Rightarrow> bytes) \<Rightarrow> (uuid \<Rightarrow> string) \<Rightarrow> (nat \<Rightarrow> uuid option) \<Rightarrow> uuid option \<Rightarrow> timestamp \<Rightarrow> Db \<Rightarrow> Db \<Rightarrow> uuid \<Rightarrow> uuid
     \<Rightarrow> string \<Rightarrow> string \<Rightarrow> timestamp \<Rightarrow> Db \<Rightarrow> (error + Transaction \<times> bool) \<times> Db" where
  "store_ReverseTransaction H uuidString newV7 evID wall dl dr tenantID i idempotencyKey reason now d =
     (case WithTenantTx tenantID (reverse_tx_body H uuidString newV7 evID wall dl tenantID i idempotencyKey reason now) d of
        (Inr r, d') \<Rightarrow> (Inr r, d')
      | (Inl e, d') \<Rightarrow>
        (retry_stored
           (lookupIdempotentTx tenantID (if idempotencyKey = '''' then ReversalReferencePrefix @ uuidString i else idempotencyKey) dr)
           (reverseFingerprint H uuidString i reason) e, d'))"

end
