(* ===== verification/Ledger_Holds.thy ===== *)
theory Ledger_Holds
  imports Ledger_Store
begin

text \<open>
  Holds: \<open>CreateHold\<close>, \<open>CaptureHold\<close>, \<open>ReleaseHold\<close> and \<open>GetHold\<close> of \<open>store.go\<close>. The availability
  check reads the balance row under \<open>FOR UPDATE\<close>, so it reads the database it commits to; the
  idempotency lookups read \<open>dl\<close> and \<open>dr\<close> as in \<open>Ledger_Store\<close>.
\<close>

definition holdFingerprint :: "(canon \<Rightarrow> bytes) \<Rightarrow> (uuid \<Rightarrow> string) \<Rightarrow> Hold \<Rightarrow> bytes" where
  "holdFingerprint H uuidString h =
     H (CanonHold (uuidString (h_AccountID h)) (Asset (h_Amount h)) (Units (h_Amount h))
          (if h_ExpiresAtProvided h then Some (h_ExpiresAt h) else None) (meta (h_Metadata h)))"

text \<open>A row of \<open>holds\<close> does not carry \<open>ExpiresAtProvided\<close>, and a new one has no captured transaction.\<close>

definition hold_row :: "Hold \<Rightarrow> bytes \<Rightarrow> HoldRow" where
  "hold_row h fingerprint = \<lparr>hr_hold = h\<lparr>h_ExpiresAtProvided := False, h_CapturedTransactionID := None,
     h_Metadata := meta (h_Metadata h)\<rparr>, hr_hash = fingerprint\<rparr>"

definition lookupHoldTx :: "uuid \<Rightarrow> string \<Rightarrow> Db \<Rightarrow> (Hold \<times> bytes) option" where
  "lookupHoldTx tn key d = map_option (\<lambda>r. (hr_hold r, hr_hash r)) (find_hold_key tn key d)"

definition getHoldTx :: "uuid \<Rightarrow> uuid \<Rightarrow> Db \<Rightarrow> error + Hold" where
  "getHoldTx tn i d = (case find_hold tn i d of None \<Rightarrow> Inl ErrNotFound | Some r \<Rightarrow> Inr (hr_hold r))"

text \<open>The balance the availability check scans: only three columns are selected, a missing row leaves zeros.\<close>

definition scan_balance :: "uuid \<Rightarrow> uuid \<Rightarrow> string \<Rightarrow> Db \<Rightarrow> Balance" where
  "scan_balance tn acc asset d =
     (let z = \<lparr>b_Asset = asset, b_PostedDebits = 0, b_PostedCredits = 0, b_PendingDebits = 0, b_PendingCredits = 0,
               b_Held = 0, b_Version = 0\<rparr> in
      case find_balance acc asset d of
        None \<Rightarrow> z
      | Some r \<Rightarrow>
          if br_tenant r \<noteq> tn then z
          else z\<lparr>b_PostedDebits := word_of_int (br_posted_debits r), b_PostedCredits := word_of_int (br_posted_credits r),
                 b_Held := word_of_int (br_held r)\<rparr>)"

definition upsertHeld :: "uuid \<Rightarrow> Hold \<Rightarrow> Db \<Rightarrow> error + Db" where
  "upsertHeld tn h d =
     upsert_balance tn (h_AccountID h) (h_TenantID h) (Asset (h_Amount h)) (add_held (sint (Units (h_Amount h)))) d"

definition create_hold_body ::
  "(canon \<Rightarrow> bytes) \<Rightarrow> (uuid \<Rightarrow> string) \<Rightarrow> uuid option \<Rightarrow> timestamp \<Rightarrow> Db \<Rightarrow> Hold \<Rightarrow> Db \<Rightarrow> error + (Hold \<times> bool) \<times> Db" where
  "create_hold_body H uuidString evID wall dl h d =
     (let tn = h_TenantID h; fingerprint = holdFingerprint H uuidString h in
      case lookupHoldTx tn (h_IdempotencyKey h) dl of
        Some st \<Rightarrow> bindE (serve_stored fingerprint st) (\<lambda>r. Inr (r, d))
      | None \<Rightarrow>
        bindE (getAccountTx tn (h_AccountID h) d) (\<lambda>account.
        if h_LedgerID h \<noteq> uuid_Nil \<and> h_LedgerID h \<noteq> a_LedgerID account then Inl ErrValidation
        else
          let h' = h\<lparr>h_LedgerID := a_LedgerID account\<rparr>;
              available = Available (scan_balance tn (h_AccountID h) (Asset (h_Amount h)) d) (a_NormalBalance account) in
          if sint available < sint (Units (h_Amount h)) then Inl ErrInsufficientFunds
          else
            bindE (insert_hold tn (hold_row h' fingerprint) d) (\<lambda>d1.
            bindE (upsertHeld tn h' d1) (\<lambda>d2.
            bindE (insertOutbox evID wall tn TopicHoldCreated (h_TenantID h')
                     (HoldCreatedData \<lparr>hce_HoldID = h_ID h', hce_LedgerID = h_LedgerID h', hce_AccountID = h_AccountID h',
                        hce_IdempotencyKey = h_IdempotencyKey h', hce_Amount = NewEventMoney (h_Amount h'),
                        hce_ExpiresAt = h_ExpiresAt h', hce_CreatedAt = h_CreatedAt h'\<rparr>) d2) (\<lambda>d3.
            Inr ((h', False), d3))))))"

definition store_CreateHold ::
  "(canon \<Rightarrow> bytes) \<Rightarrow> (uuid \<Rightarrow> string) \<Rightarrow> uuid option \<Rightarrow> timestamp \<Rightarrow> Db \<Rightarrow> Db \<Rightarrow> Hold \<Rightarrow> Db \<Rightarrow> (error + Hold \<times> bool) \<times> Db" where
  "store_CreateHold H uuidString evID wall dl dr h d =
     (case WithTenantTx (h_TenantID h) (create_hold_body H uuidString evID wall dl h) d of
        (Inr r, d') \<Rightarrow> (Inr r, d')
      | (Inl e, d') \<Rightarrow> (retry_stored (lookupHoldTx (h_TenantID h) (h_IdempotencyKey h) dr) (holdFingerprint H uuidString h) e, d'))"

definition releaseHeld :: "uuid \<Rightarrow> Hold \<Rightarrow> Db \<Rightarrow> error + Db" where
  "releaseHeld tn h d =
     bindE (update_balance tn (h_AccountID h) (Asset (h_Amount h)) (add_held (- sint (Units (h_Amount h)))) d) (\<lambda>(n, d').
       if n = 0 then Inl ErrBalanceRowMissing else Inr d')"

definition set_captured :: "uuid option \<Rightarrow> Hold \<Rightarrow> Hold" where
  "set_captured transactionID h = h\<lparr>h_Status := HoldCaptured, h_CapturedTransactionID := transactionID\<rparr>"

definition set_released :: "Hold \<Rightarrow> Hold" where
  "set_released h = h\<lparr>h_Status := HoldReleased\<rparr>"

text \<open>The checks of \<open>CaptureHold\<close> on the requested amount; the result is the amount captured.\<close>

definition captured_amount :: "Hold \<Rightarrow> Amount option \<Rightarrow> error + Amount" where
  "captured_amount h amount = (case amount of
     None \<Rightarrow> Inr (h_Amount h)
   | Some a \<Rightarrow>
       if Asset a \<noteq> Asset (h_Amount h) then Inl ErrValidation
       else if sint (Units a) > sint (Units (h_Amount h)) then Inl ErrValidation
       else Inr a)"

definition captured_event :: "Hold \<Rightarrow> Amount \<Rightarrow> uuid option \<Rightarrow> timestamp \<Rightarrow> HoldCapturedEvent" where
  "captured_event h captured transactionID now =
     \<lparr>hpe_HoldID = h_ID h, hpe_LedgerID = h_LedgerID h, hpe_AccountID = h_AccountID h,
      hpe_CapturedAmount = NewEventMoney captured,
      hpe_ReleasedAmount = (if sint (Units captured) < sint (Units (h_Amount h))
        then Some (NewEventMoney \<lparr>Asset = Asset (h_Amount h), Units = Units (h_Amount h) - Units captured\<rparr>) else None),
      hpe_TransactionID = transactionID, hpe_CapturedAt = now\<rparr>"

definition store_CaptureHold ::
  "uuid option \<Rightarrow> timestamp \<Rightarrow> uuid \<Rightarrow> uuid \<Rightarrow> Amount option \<Rightarrow> uuid option \<Rightarrow> timestamp \<Rightarrow> Db \<Rightarrow> (error + Hold) \<times> Db" where
  "store_CaptureHold evID wall tenantID i amount transactionID now d =
     map_res (WithTenantTx tenantID (\<lambda>d.
       bindE (getHoldTx tenantID i d) (\<lambda>h.
       if h_Status h \<noteq> HoldActive then Inl ErrInvalidState
       else
         bindE (captured_amount h amount) (\<lambda>captured.
         bindE (case transactionID of
                  None \<Rightarrow> Inr ()
                | Some x \<Rightarrow> (case find_tx tenantID x d of None \<Rightarrow> Inl ErrNotFound | Some _ \<Rightarrow> Inr ())) (\<lambda>_.
         bindE (update_hold tenantID i (set_captured transactionID) d) (\<lambda>d1.
         bindE (releaseHeld tenantID h d1) (\<lambda>d2.
         bindE (insertOutbox evID wall tenantID TopicHoldCaptured (h_TenantID h)
                  (HoldCapturedData (captured_event h captured transactionID now)) d2) (\<lambda>d3.
         Inr (set_captured transactionID h, d3)))))))) d)"

definition store_ReleaseHold :: "uuid option \<Rightarrow> timestamp \<Rightarrow> uuid \<Rightarrow> uuid \<Rightarrow> timestamp \<Rightarrow> Db \<Rightarrow> (error + Hold) \<times> Db" where
  "store_ReleaseHold evID wall tenantID i now d =
     map_res (WithTenantTx tenantID (\<lambda>d.
       bindE (getHoldTx tenantID i d) (\<lambda>h.
       if h_Status h \<noteq> HoldActive then Inl ErrInvalidState
       else
         bindE (update_hold tenantID i set_released d) (\<lambda>d1.
         bindE (releaseHeld tenantID h d1) (\<lambda>d2.
         bindE (insertOutbox evID wall tenantID TopicHoldReleased (h_TenantID h)
                  (HoldReleasedData \<lparr>hre_HoldID = h_ID h, hre_LedgerID = h_LedgerID h, hre_AccountID = h_AccountID h,
                     hre_Amount = NewEventMoney (h_Amount h), hre_Reason = ''released'', hre_ReleasedAt = now\<rparr>) d2) (\<lambda>d3.
         Inr (set_released h, d3)))))) d)"

definition store_GetHold :: "uuid \<Rightarrow> uuid \<Rightarrow> Db \<Rightarrow> (error + Hold) \<times> Db" where
  "store_GetHold tenantID i d = WithTenantTx tenantID (\<lambda>d. bindE (getHoldTx tenantID i d) (\<lambda>h. Inr (h, d))) d"

end
