(* ===== verification/Ledger_Invariant.thy ===== *)
theory Ledger_Invariant
  imports Ledger_Holds
begin

text \<open>
  The integrity invariant of the ledger database and its preservation by the SQL statements. It has
  four parts: the rows are linked within their tenant (\<open>struct_ok\<close>); every counter of
  \<open>account_balances\<close> equals the sum of the postings behind it (\<open>counters_ok\<close>); \<open>held\<close> is the total
  of the active holds (\<open>held_ok\<close>); every posted or reversed transaction is balanced
  (\<open>double_entry\<close>). The first is kept statement by statement; the second and third by each
  operation as a whole; the fourth by the triggers that run at commit.
\<close>

section \<open>Linked rows\<close>

definition ids_ok :: "Db \<Rightarrow> bool" where
  "ids_ok d \<longleftrightarrow> distinct (map l_ID (db_ledgers d)) \<and> distinct (map a_ID (db_accounts d))
     \<and> distinct (map t_ID (db_transactions d)) \<and> distinct (map balance_key (db_balances d))
     \<and> distinct (map (\<lambda>r. h_ID (hr_hold r)) (db_holds d))"

definition tenant_account :: "Db \<Rightarrow> uuid \<Rightarrow> uuid \<Rightarrow> bool" where
  "tenant_account d tn acc \<longleftrightarrow> (\<exists>a \<in> set (db_accounts d). a_ID a = acc \<and> a_TenantID a = tn)"

definition posting_linked :: "Db \<Rightarrow> PostingRow \<Rightarrow> bool" where
  "posting_linked d p \<longleftrightarrow> (\<exists>t \<in> set (db_transactions d). \<exists>a \<in> set (db_accounts d).
       t_ID t = pr_tx p \<and> t_TenantID t = pr_tenant p \<and> a_ID a = pr_account p \<and> a_TenantID a = pr_tenant p
       \<and> a_LedgerID a = t_LedgerID t)
     \<and> Direction_Valid (pr_direction p) \<and> 0 < pr_amount p \<and> fits64 (pr_amount p)"

definition balance_linked :: "Db \<Rightarrow> BalanceRow \<Rightarrow> bool" where
  "balance_linked d r \<longleftrightarrow> tenant_account d (br_tenant r) (br_account r) \<and> balance_ok r"

definition hold_linked :: "Db \<Rightarrow> HoldRow \<Rightarrow> bool" where
  "hold_linked d r \<longleftrightarrow> tenant_account d (h_TenantID (hr_hold r)) (h_AccountID (hr_hold r))
     \<and> 0 < sint (Units (h_Amount (hr_hold r)))"

definition struct_ok :: "Db \<Rightarrow> bool" where
  "struct_ok d \<longleftrightarrow> ids_ok d \<and> (\<forall>p \<in> set (db_postings d). posting_linked d p)
     \<and> (\<forall>r \<in> set (db_balances d). balance_linked d r) \<and> (\<forall>r \<in> set (db_holds d). hold_linked d r)
     \<and> (\<forall>t \<in> set (db_transactions d). t_Status t \<in> {TransactionDraft, TransactionPosted, TransactionReversed})"

section \<open>What a database transaction has touched\<close>

definition untouched :: "Db \<Rightarrow> Db \<Rightarrow> bool" where
  "untouched d0 d \<longleftrightarrow> (\<forall>i. i \<notin> set (db_deferred d) \<longrightarrow>
     filter (\<lambda>t. t_ID t = i) (db_transactions d) = filter (\<lambda>t. t_ID t = i) (db_transactions d0)
     \<and> filter (\<lambda>p. pr_tx p = i) (db_postings d) = filter (\<lambda>p. pr_tx p = i) (db_postings d0))"

definition touched_by :: "uuid \<Rightarrow> Db \<Rightarrow> bool" where
  "touched_by tn d \<longleftrightarrow> (\<forall>t \<in> set (db_transactions d). t_ID t \<in> set (db_deferred d) \<longrightarrow> t_TenantID t = tn)"

text \<open>A session of tenant \<open>tn\<close> that started at \<open>d0\<close> and now sees \<open>d\<close>.\<close>

definition session :: "uuid \<Rightarrow> Db \<Rightarrow> Db \<Rightarrow> bool" where
  "session tn d0 d \<longleftrightarrow> struct_ok d \<and> untouched d0 d \<and> touched_by tn d"

lemma session_start: "struct_ok d \<Longrightarrow> db_deferred d = [] \<Longrightarrow> session tn d d"
  by (simp add: session_def untouched_def touched_by_def)

section \<open>Statements keep the session\<close>

lemma insert_tx_Inr:
  "insert_tx tn t d = Inr d' \<longleftrightarrow>
     t_TenantID t = tn \<and> t_Status t \<in> {TransactionDraft, TransactionPosted, TransactionReversed}
     \<and> \<not> tx_exists (t_ID t) d
     \<and> (\<forall>x \<in> set (db_transactions d). t_TenantID x = t_TenantID t \<longrightarrow> t_IdempotencyKey x \<noteq> t_IdempotencyKey t)
     \<and> ledger_exists (t_LedgerID t) d \<and> fk_tx (t_ReversedByID t) (t_ID t) d \<and> fk_tx (t_ReversesID t) (t_ID t) d
     \<and> d' = d\<lparr>db_transactions := db_transactions d @ [tx_row t], db_deferred := t_ID t # db_deferred d\<rparr>"
  by (auto simp: insert_tx_def list_ex_iff)

lemma tx_row_simps [simp]:
  "t_ID (tx_row t) = t_ID t" "t_TenantID (tx_row t) = t_TenantID t" "t_LedgerID (tx_row t) = t_LedgerID t"
  "t_Status (tx_row t) = t_Status t" "t_IdempotencyKey (tx_row t) = t_IdempotencyKey t"
  "t_ReversedByID (tx_row t) = t_ReversedByID t" "t_ReversesID (tx_row t) = t_ReversesID t"
  "t_PostedAt (tx_row t) = t_PostedAt t" "t_EffectiveAt (tx_row t) = t_EffectiveAt t"
  by (simp_all add: tx_row_def)

lemma session_insert_tx:
  assumes "session tn d0 d" and "insert_tx tn t d = Inr d'"
  shows "session tn d0 d'"
proof -
  have fresh: "\<And>x. x \<in> set (db_transactions d) \<Longrightarrow> t_ID x \<noteq> t_ID t"
    using assms(2) by (auto simp: insert_tx_Inr tx_exists_def list_ex_iff)
  then have fresh': "t_ID t \<notin> t_ID ` set (db_transactions d)" by force
  have d': "d' = d\<lparr>db_transactions := db_transactions d @ [tx_row t], db_deferred := t_ID t # db_deferred d\<rparr>"
    and t: "t_TenantID t = tn" "t_Status t \<in> {TransactionDraft, TransactionPosted, TransactionReversed}"
    using assms(2) by (auto simp: insert_tx_Inr)
  have "posting_linked d' p" if "posting_linked d p" for p
    using that by (auto simp: posting_linked_def d')
  moreover have "balance_linked d' r = balance_linked d r" "hold_linked d' h = hold_linked d h" for r h
    by (auto simp: balance_linked_def hold_linked_def tenant_account_def d')
  ultimately have "struct_ok d'"
    using assms(1) fresh' t by (auto simp: session_def struct_ok_def ids_ok_def) (auto simp: d')
  then show ?thesis
    using assms(1) t(1) fresh by (auto simp: session_def untouched_def touched_by_def d')
qed

lemma session_insert_posting:
  assumes "session tn d0 d" and ins: "insert_posting tn r d = Inr d'" and "posting_linked d r"
  shows "session tn d0 d'"
proof -
  have d': "d' = d\<lparr>db_postings := db_postings d @ [r], db_deferred := pr_tx r # db_deferred d\<rparr>" and r: "pr_tenant r = tn"
    using ins by (auto simp: insert_posting_Inr)
  have "posting_linked d' p = posting_linked d p" for p
    by (auto simp: posting_linked_def d')
  moreover have "balance_linked d' r = balance_linked d r" "hold_linked d' h = hold_linked d h" for r h
    by (auto simp: balance_linked_def hold_linked_def tenant_account_def d')
  ultimately have s: "struct_ok d'"
    using assms(1,3) by (auto simp: session_def struct_ok_def ids_ok_def) (auto simp: d')
  have "t_TenantID t = tn" if "t \<in> set (db_transactions d)" "t_ID t = pr_tx r" for t
  proof -
    obtain t' where "t' \<in> set (db_transactions d)" "t_ID t' = pr_tx r" "t_TenantID t' = pr_tenant r"
      using assms(3) by (auto simp: posting_linked_def)
    moreover have "distinct (map t_ID (db_transactions d))"
      using assms(1) by (simp add: session_def struct_ok_def ids_ok_def)
    ultimately show ?thesis using that r by (metis distinct_map inj_onD)
  qed
  then show ?thesis
    using s assms(1) by (auto simp: session_def untouched_def touched_by_def d')
qed

text \<open>Statements that only touch balances, keys, the outbox or holds.\<close>

definition same_core :: "Db \<Rightarrow> Db \<Rightarrow> bool" where
  "same_core d d' \<longleftrightarrow> db_ledgers d' = db_ledgers d \<and> db_accounts d' = db_accounts d \<and> db_transactions d' = db_transactions d
     \<and> db_postings d' = db_postings d \<and> db_deferred d' = db_deferred d"

lemma same_core_session:
  assumes "session tn d0 d" and "same_core d d'"
    and "distinct (map balance_key (db_balances d'))" and "distinct (map (\<lambda>r. h_ID (hr_hold r)) (db_holds d'))"
    and "\<And>r. r \<in> set (db_balances d') \<Longrightarrow> r \<in> set (db_balances d) \<or> balance_linked d r"
    and "\<And>r. r \<in> set (db_holds d') \<Longrightarrow> r \<in> set (db_holds d) \<or> hold_linked d r"
  shows "session tn d0 d'"
proof -
  have "posting_linked d' = posting_linked d" "balance_linked d' = balance_linked d" "hold_linked d' = hold_linked d"
    using assms(2) by (auto simp: fun_eq_iff same_core_def posting_linked_def balance_linked_def hold_linked_def tenant_account_def)
  then have "struct_ok d'"
    using assms unfolding session_def struct_ok_def ids_ok_def same_core_def by metis
  then show ?thesis
    using assms(1,2) by (simp add: session_def untouched_def touched_by_def same_core_def)
qed

lemma session_distinct:
  assumes "session tn d0 d"
  shows "distinct (map balance_key (db_balances d))" "distinct (map (\<lambda>r. h_ID (hr_hold r)) (db_holds d))"
    "distinct (map t_ID (db_transactions d))" "distinct (map a_ID (db_accounts d))"
  using assms by (simp_all add: session_def struct_ok_def ids_ok_def)

lemma keeps_key_update_rows:
  assumes "keeps_key f" and "distinct (map balance_key rs)"
    and r: "find (\<lambda>x. br_account x = acc \<and> br_asset x = asset) rs = Some r"
  shows "distinct (map balance_key (update_rows (\<lambda>x. br_account x = acc \<and> br_asset x = asset) f rs))"
    and "x \<in> set (update_rows (\<lambda>x. br_account x = acc \<and> br_asset x = asset) f rs) \<Longrightarrow> x \<in> set rs \<or> x = f r"
proof -
  show "distinct (map balance_key (update_rows (\<lambda>x. br_account x = acc \<and> br_asset x = asset) f rs))"
    using assms(1,2) by (simp add: balance_key_def keeps_key_def)
  have r': "r \<in> set rs" "balance_key r = (acc, asset)"
    using find_Some_filter [OF r] by (simp_all add: balance_key_def)
  have "y = r" if "y \<in> set rs" "br_account y = acc" "br_asset y = asset" for y
    using assms(2) r' that by (metis balance_key_def distinct_map inj_onD)
  then show "x \<in> set rs \<or> x = f r" if "x \<in> set (update_rows (\<lambda>x. br_account x = acc \<and> br_asset x = asset) f rs)"
    using that by (auto simp: set_update_rows)
qed

lemma session_balances:
  assumes s: "session tn d0 d" and d': "d' = d\<lparr>db_balances := bs\<rparr>"
    and "distinct (map balance_key bs)" and "\<And>r. r \<in> set bs \<Longrightarrow> r \<in> set (db_balances d) \<or> balance_linked d r"
  shows "session tn d0 d'"
  by (rule same_core_session [OF s]) (use assms(3,4) session_distinct(2) [OF s] in \<open>auto simp: d' same_core_def\<close>)

lemma session_update_rows:
  assumes s: "session tn d0 d" and f: "keeps_key f" and r: "find_balance acc asset d = Some r" and l: "balance_linked d (f r)"
    and d': "d' = d\<lparr>db_balances := update_rows (\<lambda>x. br_account x = acc \<and> br_asset x = asset) f (db_balances d)\<rparr>"
  shows "session tn d0 d'"
proof (rule session_balances [OF s d'])
  note rows = keeps_key_update_rows [OF f session_distinct(1) [OF s] r [unfolded find_balance_def]]
  show "distinct (map balance_key (update_rows (\<lambda>x. br_account x = acc \<and> br_asset x = asset) f (db_balances d)))"
    by (rule rows)
  show "x \<in> set (db_balances d) \<or> balance_linked d x"
    if "x \<in> set (update_rows (\<lambda>x. br_account x = acc \<and> br_asset x = asset) f (db_balances d))" for x
    using rows(2) [OF that] l by blast
qed

lemma session_upsert_balance:
  assumes s: "session tn d0 d" and u: "upsert_balance tn acc rt asset f d = Inr d'" and f: "keeps_key f"
    and acc: "tenant_account d tn acc"
  shows "session tn d0 d'"
proof (cases "find_balance acc asset d")
  case None
  let ?r = "f (zero_balance acc rt asset)"
  from None have d': "d' = d\<lparr>db_balances := db_balances d @ [?r]\<rparr>" and r: "rt = tn" "balance_ok ?r"
    using u by (auto simp: upsert_balance_def split: if_splits)
  have key: "balance_key ?r = (acc, asset)" "br_tenant ?r = tn" "br_account ?r = acc"
    using f r by (simp_all add: keeps_key_def balance_key_def zero_balance_def)
  have "(acc, asset) \<notin> balance_key ` set (db_balances d)"
    using None by (auto simp: find_balance_def find_None_iff balance_key_def)
  then show ?thesis
    using key r acc session_distinct(1) [OF s] by (intro session_balances [OF s d']) (auto simp: balance_linked_def)
next
  case (Some r)
  then have d': "d' = d\<lparr>db_balances := update_rows (\<lambda>x. br_account x = acc \<and> br_asset x = asset) f (db_balances d)\<rparr>"
      and r: "br_tenant r = tn" "balance_ok (f r)"
    using u by (auto simp: upsert_balance_def split: if_splits)
  have r': "br_account r = acc"
    using Some by (auto simp: find_balance_def dest!: find_Some_filter)
  have "balance_linked d (f r)"
    using r r' acc f by (simp add: balance_linked_def keeps_key_def)
  then show ?thesis by (rule session_update_rows [OF s f Some _ d'])
qed

lemma session_update_balance:
  assumes s: "session tn d0 d" and u: "update_balance tn acc asset f d = Inr (n, d')" and f: "keeps_key f"
  shows "session tn d0 d'"
proof (cases "find_balance acc asset d")
  case None
  then show ?thesis using s u by (simp add: update_balance_def)
next
  case (Some r)
  show ?thesis
  proof (cases "br_tenant r = tn")
    case True
    then have d': "d' = d\<lparr>db_balances := update_rows (\<lambda>x. br_account x = acc \<and> br_asset x = asset) f (db_balances d)\<rparr>"
        and r: "balance_ok (f r)"
      using u Some by (auto simp: update_balance_def split: if_splits)
    have "r \<in> set (db_balances d)"
      using Some by (auto simp: find_balance_def dest!: find_Some_filter)
    then have "balance_linked d (f r)"
      using s r f by (auto simp: session_def struct_ok_def balance_linked_def keeps_key_def)
    then show ?thesis by (rule session_update_rows [OF s f Some _ d'])
  next
    case False
    then show ?thesis using s u Some by (simp add: update_balance_def)
  qed
qed

lemma insert_key_Inr:
  "insert_key tn r d = Inr d' \<longleftrightarrow> ir_tenant r = tn \<and> find_key (ir_tenant r) (ir_key r) d = None \<and> d' = d\<lparr>db_keys := db_keys d @ [r]\<rparr>"
  by (auto simp: insert_key_def list_ex_iff find_key_def find_None_iff)

lemma insertOutbox_Inr:
  "insertOutbox evID wall tn topic tenantID payload d = Inr d' \<longleftrightarrow>
     (\<exists>i. evID = Some i \<and> tenantID = tn \<and> d' = d\<lparr>db_outbox := db_outbox d @ [\<lparr>or_tenant = tenantID, or_topic = topic,
        or_envelope = Some \<lparr>env_ID = i, env_Type = topic, env_TenantID = tenantID, env_OccurredAt = wall,
          env_Version = EnvelopeVersion, env_Data = payload\<rparr>, or_published = False\<rparr>]\<rparr>)"
  by (auto simp: insertOutbox_def NewEnvelope_def split: option.splits)

lemma session_insert_key:
  assumes s: "session tn d0 d" and "insert_key tn r d = Inr d'"
  shows "session tn d0 d'"
  by (rule same_core_session [OF s]) (use assms(2) session_distinct [OF s] in \<open>auto simp: insert_key_Inr same_core_def\<close>)

lemma session_insertOutbox:
  assumes s: "session tn d0 d" and "insertOutbox evID wall tn topic rt payload d = Inr d'"
  shows "session tn d0 d'"
  by (rule same_core_session [OF s]) (use assms(2) session_distinct [OF s] in \<open>auto simp: insertOutbox_Inr same_core_def\<close>)

lemma session_insert_hold:
  assumes s: "session tn d0 d" and i: "insert_hold tn r d = Inr d'"
    and acc: "tenant_account d tn (h_AccountID (hr_hold r))"
  shows "session tn d0 d'"
proof -
  have d': "d' = d\<lparr>db_holds := db_holds d @ [r]\<rparr>" and r: "h_TenantID (hr_hold r) = tn" "0 < sint (Units (h_Amount (hr_hold r)))"
    and fresh: "\<And>x. x \<in> set (db_holds d) \<Longrightarrow> h_ID (hr_hold x) \<noteq> h_ID (hr_hold r)"
    using i by (auto simp: insert_hold_def Let_def list_ex_iff split: if_splits)
  have "h_ID (hr_hold r) \<notin> (\<lambda>r. h_ID (hr_hold r)) ` set (db_holds d)"
    using fresh by force
  then show ?thesis
    using acc r session_distinct [OF s]
    by (intro same_core_session [OF s]) (auto simp: d' same_core_def hold_linked_def)
qed

text \<open>A change of a hold that keeps its identity, owner, account and amount.\<close>

definition keeps_hold :: "(Hold \<Rightarrow> Hold) \<Rightarrow> bool" where
  "keeps_hold f \<longleftrightarrow> (\<forall>h. h_ID (f h) = h_ID h \<and> h_TenantID (f h) = h_TenantID h \<and> h_AccountID (f h) = h_AccountID h
     \<and> h_Amount (f h) = h_Amount h \<and> h_LedgerID (f h) = h_LedgerID h \<and> h_IdempotencyKey (f h) = h_IdempotencyKey h)"

lemma keeps_hold_changes [simp]: "keeps_hold (set_captured x)" "keeps_hold set_released"
  by (simp_all add: keeps_hold_def set_captured_def set_released_def)

lemma session_update_hold:
  assumes s: "session tn d0 d" and u: "update_hold tn i f d = Inr d'" and f: "keeps_hold f"
  shows "session tn d0 d'"
proof (cases "find_hold tn i d")
  case None
  then show ?thesis using s u by (simp add: update_hold_def)
next
  case (Some r)
  let ?g = "\<lambda>x. x\<lparr>hr_hold := f (hr_hold x)\<rparr>"
  have d': "d' = d\<lparr>db_holds := update_rows (\<lambda>x. h_ID (hr_hold x) = i) ?g (db_holds d)\<rparr>"
    using Some u by (auto simp: update_hold_def split: if_splits)
  have "distinct (map (\<lambda>r. h_ID (hr_hold r)) (db_holds d'))"
    using session_distinct(2) [OF s] f by (simp add: d' keeps_hold_def)
  moreover have "hold_linked d (?g x)" if "x \<in> set (db_holds d)" for x
    using s f that by (auto simp: session_def struct_ok_def hold_linked_def keeps_hold_def)
  ultimately show ?thesis
    using session_distinct(1) [OF s]
    by (intro same_core_session [OF s]) (auto simp: d' same_core_def set_update_rows)
qed

text \<open>A change of a transaction row that keeps its identity, owner and ledger.\<close>

definition keeps_tx :: "(Transaction \<Rightarrow> Transaction) \<Rightarrow> bool" where
  "keeps_tx f \<longleftrightarrow> (\<forall>t. t_ID (f t) = t_ID t \<and> t_TenantID (f t) = t_TenantID t \<and> t_LedgerID (f t) = t_LedgerID t
     \<and> t_Status (f t) \<in> {TransactionPosted, TransactionReversed})"

lemma keeps_tx_changes [simp]: "keeps_tx (set_posted now)" "keeps_tx (set_reversed i)"
  by (simp_all add: keeps_tx_def set_posted_def set_reversed_def)

lemma transactions_guard_Inr:
  "transactions_guard old new = Inr u \<Longrightarrow>
     (t_Status old = TransactionDraft \<and> t_Status new = TransactionPosted \<and> t_PostedAt old = None \<and> t_PostedAt new \<noteq> None
        \<and> t_ReversedByID new = t_ReversedByID old)
   \<or> (t_Status old = TransactionPosted \<and> t_Status new = TransactionReversed \<and> t_ReversedByID old = None
        \<and> t_ReversedByID new \<noteq> None \<and> t_PostedAt new = t_PostedAt old)"
  unfolding transactions_guard_def by (auto split: if_splits)

lemma find_tx_unique:
  assumes "distinct (map t_ID (db_transactions d))" and "find_tx tn i d = Some t"
  shows "t \<in> set (db_transactions d)" "t_ID t = i" "t_TenantID t = tn"
    and "find (\<lambda>t. t_ID t = i) (db_transactions d) = Some t" "tx_status d i = t_Status t"
    and "x \<in> set (db_transactions d) \<Longrightarrow> t_ID x = i \<Longrightarrow> x = t"
proof -
  show t: "t \<in> set (db_transactions d)" "t_ID t = i" "t_TenantID t = tn"
    using assms(2) by (auto simp: find_tx_def dest!: find_Some_filter)
  show f: "find (\<lambda>t. t_ID t = i) (db_transactions d) = Some t"
    using find_distinct [OF assms(1) t(1,2)] .
  show "tx_status d i = t_Status t" by (simp add: tx_status_def f)
  show "x = t" if "x \<in> set (db_transactions d)" "t_ID x = i"
    using assms(1) t that by (metis distinct_map inj_onD)
qed

lemma update_tx_Some:
  assumes "update_tx tn i f d = Inr d'" and "find_tx tn i d = Some t"
  shows "d' = d\<lparr>db_transactions := update_rows (\<lambda>x. t_ID x = i) f (db_transactions d), db_deferred := i # db_deferred d\<rparr>"
    and "transactions_guard t (f t) = Inr ()"
  using assms by (auto simp: update_tx_def bindE_Inr_iff split: if_splits)

lemma session_update_tx:
  assumes s: "session tn d0 d" and u: "update_tx tn i f d = Inr d'" and f: "keeps_tx f"
  shows "session tn d0 d'"
proof (cases "find_tx tn i d")
  case None
  then show ?thesis using s u by (simp add: update_tx_def)
next
  case (Some t)
  note d' = update_tx_Some(1) [OF u Some]
  note t = find_tx_unique [OF session_distinct(3) [OF s] Some]
  have tx: "\<exists>t' \<in> set (db_transactions d'). t_ID t' = t_ID x \<and> t_TenantID t' = t_TenantID x \<and> t_LedgerID t' = t_LedgerID x"
    if "x \<in> set (db_transactions d)" for x
    using that f by (auto simp: d' set_update_rows keeps_tx_def intro: bexI [of _ "if t_ID x = i then f x else x"])
  have "posting_linked d' p" if pl: "posting_linked d p" for p
  proof -
    obtain x a where x: "x \<in> set (db_transactions d)" "a \<in> set (db_accounts d)" "t_ID x = pr_tx p" "t_TenantID x = pr_tenant p"
      "a_ID a = pr_account p" "a_TenantID a = pr_tenant p" "a_LedgerID a = t_LedgerID x"
      using pl unfolding posting_linked_def by blast
    obtain x' where "x' \<in> set (db_transactions d')" "t_ID x' = t_ID x" "t_TenantID x' = t_TenantID x" "t_LedgerID x' = t_LedgerID x"
      using tx [OF x(1)] by blast
    moreover have "a \<in> set (db_accounts d')" using x(2) by (simp add: d')
    ultimately show ?thesis using pl x unfolding posting_linked_def by fastforce
  qed
  moreover have "balance_linked d' = balance_linked d" "hold_linked d' = hold_linked d"
    by (auto simp: fun_eq_iff balance_linked_def hold_linked_def tenant_account_def d')
  moreover have "distinct (map t_ID (db_transactions d'))"
    using session_distinct(3) [OF s] f by (simp add: d' keeps_tx_def)
  moreover have "\<forall>x \<in> set (db_transactions d'). t_Status x \<in> {TransactionDraft, TransactionPosted, TransactionReversed}"
    using s f by (auto simp: session_def struct_ok_def d' set_update_rows keeps_tx_def)
  ultimately have "struct_ok d'"
    using s by (auto simp: session_def struct_ok_def ids_ok_def) (auto simp: d')
  moreover have "untouched d0 d'"
  proof -
    have "filter (\<lambda>t. t_ID t = j) (update_rows (\<lambda>x. t_ID x = i) f ts) = filter (\<lambda>t. t_ID t = j) ts" if "j \<noteq> i" for j ts
      using f that by (induction ts) (auto simp: update_rows_def keeps_tx_def)
    then show ?thesis using s by (auto simp: session_def untouched_def d')
  qed
  moreover have "touched_by tn d'"
  proof -
    have old: "t_TenantID x = tn" if "x \<in> set (db_transactions d)" "t_ID x \<in> set (i # db_deferred d)" for x
      using s t(3,6) that by (auto simp: session_def touched_by_def)
    then show ?thesis using f by (auto simp: touched_by_def d' set_update_rows keeps_tx_def)
  qed
  ultimately show ?thesis by (simp add: session_def)
qed

lemma tx_status_update:
  assumes "update_tx tn i f d = Inr d'" and t: "find_tx tn i d = Some t" and f: "keeps_tx f" and "distinct (map t_ID (db_transactions d))"
  shows "tx_status d' j = (if j = i then t_Status (f t) else tx_status d j)"
proof -
  have "find (\<lambda>t. t_ID t = j) (db_transactions d')
      = map_option (\<lambda>r. if t_ID r = i then f r else r) (find (\<lambda>t. t_ID t = j) (db_transactions d))"
    using f by (simp add: update_tx_Some(1) [OF assms(1) t] find_update_rows keeps_tx_def)
  then show ?thesis
    using find_tx_unique(4) [OF assms(4) t] find_tx_unique(2) [OF assms(4) t]
    by (auto simp: tx_status_def split: option.split dest: find_Some_filter)
qed

section \<open>Counters\<close>

definition counters_ok :: "Db \<Rightarrow> bool" where
  "counters_ok d \<longleftrightarrow> (\<forall>k. stored d k = computed d k)"

lemma computed_same:
  "db_postings d' = db_postings d \<Longrightarrow> (\<And>p. p \<in> set (db_postings d) \<Longrightarrow> tx_status d' (pr_tx p) = tx_status d (pr_tx p))
    \<Longrightarrow> computed d' k = computed d k"
  by (cases k) (auto intro!: row_sum_cong)

lemma stored_same: "db_balances d' = db_balances d \<Longrightarrow> stored d' k = stored d k"
  by (cases k) (simp add: find_balance_def)

lemma held_same: "db_balances d' = db_balances d \<Longrightarrow> held d' = held d"
  by (simp add: held_def find_balance_def)

lemma tx_status_same: "db_transactions d' = db_transactions d \<Longrightarrow> tx_status d' i = tx_status d i"
  by (simp add: tx_status_def)

lemma computed_insert_tx:
  assumes "struct_ok d" and "insert_tx tn t d = Inr d'"
  shows "computed d' k = computed d k" "tx_status d' (t_ID t) = t_Status t"
proof -
  have d': "d' = d\<lparr>db_transactions := db_transactions d @ [tx_row t], db_deferred := t_ID t # db_deferred d\<rparr>"
    and fresh: "\<And>x. x \<in> set (db_transactions d) \<Longrightarrow> t_ID x \<noteq> t_ID t"
    using assms(2) by (auto simp: insert_tx_Inr tx_exists_def list_ex_iff)
  have "find (\<lambda>x. t_ID x = t_ID t) (db_transactions d) = None" using fresh by (simp add: find_None_iff)
  then show "tx_status d' (t_ID t) = t_Status t" by (simp add: d' tx_status_def find_append)
  show "computed d' k = computed d k"
  proof (rule computed_same)
    fix p assume "p \<in> set (db_postings d)"
    then have "posting_linked d p" using assms(1) by (simp add: struct_ok_def)
    then have "pr_tx p \<noteq> t_ID t" using fresh by (auto simp: posting_linked_def)
    then show "tx_status d' (pr_tx p) = tx_status d (pr_tx p)"
      by (auto simp: d' tx_status_def find_append split: option.split)
  qed (simp add: d')
qed

text \<open>What \<open>loadPostings\<close> returns for a transaction accounts for exactly the rows that refer to it.\<close>

lemma units_posting_of_row: "fits64 (pr_amount r) \<Longrightarrow> units (posting_of_row r) = pr_amount r"
  by (simp add: units_def posting_of_row_def sint_of_int64)

definition tx_rows :: "uuid \<Rightarrow> Db \<Rightarrow> PostingRow list" where
  "tx_rows i d = filter (\<lambda>r. pr_tx r = i) (db_postings d)"

lemma struct_tx_rows:
  assumes "struct_ok d" and "find_tx tn i d = Some t" and "r \<in> set (tx_rows i d)"
  shows "pr_tenant r = tn" "posting_linked d r"
proof -
  have r: "r \<in> set (db_postings d)" "pr_tx r = i" using assms(3) by (auto simp: tx_rows_def)
  then show l: "posting_linked d r" using assms(1) by (simp add: struct_ok_def)
  have "distinct (map t_ID (db_transactions d))" using assms(1) by (simp add: struct_ok_def ids_ok_def)
  note t = find_tx_unique [OF this assms(2)]
  obtain x where "x \<in> set (db_transactions d)" "t_ID x = pr_tx r" "t_TenantID x = pr_tenant r"
    using l unfolding posting_linked_def by blast
  with t(3,6) r(2) show "pr_tenant r = tn" by metis
qed

lemma loadPostings_mset:
  assumes "struct_ok d" and "find_tx tn i d = Some t"
  shows "mset (loadPostings tn d [i] i) = mset (map posting_of_row (tx_rows i d))"
proof -
  have rows: "filter (\<lambda>r. pr_tenant r = tn \<and> pr_tx r = i) (db_postings d) = tx_rows i d"
    unfolding tx_rows_def using struct_tx_rows(1) [OF assms] by (intro filter_cong) (auto simp: tx_rows_def)
  have all: "filter_mset (\<lambda>r. pr_tx r = i) (mset (tx_rows i d)) = mset (tx_rows i d)"
    by (simp add: tx_rows_def filter_filter_mset)
  show ?thesis by (simp add: loadPostings_def Let_def rows all)
qed

lemma loadPostings_set:
  assumes "struct_ok d" and "find_tx tn i d = Some t" and "p \<in> set (loadPostings tn d [i] i)"
  obtains r where "r \<in> set (tx_rows i d)" "p = posting_of_row r"
proof -
  have "p \<in> set (map posting_of_row (tx_rows i d))"
    using assms(3) mset_eq_setD [OF loadPostings_mset [OF assms(1,2)]] by simp
  then show thesis using that by auto
qed

lemma load_contrib:
  assumes "struct_ok d" and "find_tx tn i d = Some t"
  shows "(\<Sum>p\<leftarrow>loadPostings tn d [i] i. contrib b p (c, acc, asset))
    = row_sum (\<lambda>r. pr_tx r = i \<and> col_posted c = b \<and> pr_direction r = col_direction c \<and> pr_account r = acc \<and> pr_asset r = asset) (db_postings d)"
proof -
  have "(\<Sum>p\<leftarrow>loadPostings tn d [i] i. contrib b p (c, acc, asset))
      = (\<Sum>p\<leftarrow>map posting_of_row (tx_rows i d). contrib b p (c, acc, asset))"
    by (rule sum_list_mset [OF loadPostings_mset [OF assms]])
  also have "\<dots> = (\<Sum>r\<leftarrow>tx_rows i d. if col_posted c = b \<and> pr_direction r = col_direction c \<and> pr_account r = acc \<and> pr_asset r = asset
       then pr_amount r else 0)"
  proof -
    have "contrib b (posting_of_row r) (c, acc, asset) = (if col_posted c = b \<and> pr_direction r = col_direction c \<and> pr_account r = acc \<and> pr_asset r = asset
       then pr_amount r else 0)" if "r \<in> set (tx_rows i d)" for r
      using struct_tx_rows(2) [OF assms that]
      by (auto simp: units_posting_of_row posting_linked_def) (auto simp: posting_of_row_def p_asset_def)
    then show ?thesis by (simp add: comp_def cong: map_cong)
  qed
  also have "\<dots> = row_sum (\<lambda>r. pr_tx r = i \<and> col_posted c = b \<and> pr_direction r = col_direction c \<and> pr_account r = acc \<and> pr_asset r = asset) (db_postings d)"
    unfolding tx_rows_def by (induction "db_postings d") (auto simp: row_sum_def sum_list_filter_split intro!: arg_cong [of _ _ sum_list])
  finally show ?thesis .
qed

lemma row_sum_split: "row_sum P ps = row_sum (\<lambda>p. P p \<and> Q p) ps + row_sum (\<lambda>p. P p \<and> \<not> Q p) ps"
  by (induction ps) auto

lemma row_sum_nonneg: "(\<And>p. p \<in> set ps \<Longrightarrow> 0 \<le> pr_amount p) \<Longrightarrow> 0 \<le> row_sum P ps"
  by (induction ps) auto

lemma row_sum_ge: "r \<in> set ps \<Longrightarrow> P r \<Longrightarrow> (\<And>p. p \<in> set ps \<Longrightarrow> 0 \<le> pr_amount p) \<Longrightarrow> pr_amount r \<le> row_sum P ps"
proof (induction ps)
  case (Cons p ps)
  then have "0 \<le> row_sum P ps" by (intro row_sum_nonneg) simp
  with Cons show ?case by (cases "r = p") (auto simp: add_increasing)
qed simp

text \<open>Posting a draft moves its amounts from the pending to the posted sums.\<close>

lemma computed_set_posted:
  assumes u: "update_tx tn i (set_posted now) d = Inr d'" and t: "find_tx tn i d = Some t" and s: "struct_ok d"
  shows "computed d' k = computed d k + (\<Sum>p\<leftarrow>loadPostings tn d [i] i. contrib True p k - contrib False p k)"
proof -
  obtain c acc asset where k: "k = (c, acc, asset)" by (metis prod_cases3)
  have dist: "distinct (map t_ID (db_transactions d))" using s by (simp add: struct_ok_def ids_ok_def)
  note st = tx_status_update [OF u t keeps_tx_changes(1) dist]
  have draft: "tx_status d i = TransactionDraft"
    using transactions_guard_Inr [OF update_tx_Some(2) [OF u t]] find_tx_unique(5) [OF dist t]
    by (auto simp: set_posted_def)
  let ?M = "\<lambda>r. pr_direction r = col_direction c \<and> pr_account r = acc \<and> pr_asset r = asset"
  have post: "db_postings d' = db_postings d" by (simp add: update_tx_Some(1) [OF u t])
  have "computed d' k = row_sum (\<lambda>r. (col_posted c \<and> ?M r) \<and> pr_tx r = i) (db_postings d)
      + row_sum (\<lambda>r. (col_counts c (tx_status d (pr_tx r)) \<and> ?M r) \<and> pr_tx r \<noteq> i) (db_postings d)"
    unfolding k computed.simps post
    by (subst row_sum_split [where Q = "\<lambda>r. pr_tx r = i"]) (auto simp: st col_counts_def set_posted_def intro!: arg_cong2 [of _ _ _ _ "(+)"] row_sum_cong)
  moreover have "computed d k = row_sum (\<lambda>r. (\<not> col_posted c \<and> ?M r) \<and> pr_tx r = i) (db_postings d)
      + row_sum (\<lambda>r. (col_counts c (tx_status d (pr_tx r)) \<and> ?M r) \<and> pr_tx r \<noteq> i) (db_postings d)"
    unfolding k computed.simps
    using draft by (subst row_sum_split [where Q = "\<lambda>r. pr_tx r = i"]) (auto simp: col_counts_def intro!: arg_cong2 [of _ _ _ _ "(+)"] row_sum_cong)
  moreover have "(\<Sum>p\<leftarrow>loadPostings tn d [i] i. contrib True p k - contrib False p k)
      = row_sum (\<lambda>r. (col_posted c \<and> ?M r) \<and> pr_tx r = i) (db_postings d) - row_sum (\<lambda>r. (\<not> col_posted c \<and> ?M r) \<and> pr_tx r = i) (db_postings d)"
    unfolding sum_list_subtractf k load_contrib [OF s t] by (intro arg_cong2 [of _ _ _ _ "(-)"] row_sum_cong) auto
  ultimately show ?thesis by simp
qed

lemma computed_set_reversed:
  assumes u: "update_tx tn i (set_reversed j) d = Inr d'" and t: "find_tx tn i d = Some t"
    and dist: "distinct (map t_ID (db_transactions d))"
  shows "computed d' k = computed d k"
proof -
  obtain c acc asset where k: "k = (c, acc, asset)" by (metis prod_cases3)
  note st = tx_status_update [OF u t keeps_tx_changes(2) dist]
  have "tx_status d i = TransactionPosted"
    using transactions_guard_Inr [OF update_tx_Some(2) [OF u t]] find_tx_unique(5) [OF dist t]
    by (auto simp: set_reversed_def)
  then show ?thesis
    unfolding k by (auto simp: update_tx_Some(1) [OF u t] st [unfolded update_tx_Some(1) [OF u t]] col_counts_def set_reversed_def intro!: row_sum_cong)
qed

text \<open>
  A draft's postings have been counted as pending, so the promotion finds a balance row for each
  of them, and the row belongs to the tenant.
\<close>

lemma draft_has_balance:
  assumes s: "struct_ok d" and c: "counters_ok d" and t: "find_tx tn i d = Some t" and draft: "t_Status t = TransactionDraft"
    and p: "p \<in> set (loadPostings tn d [i] i)"
  shows "has_balance tn p d" "Direction_Valid (p_Direction p)"
proof -
  obtain r where r: "r \<in> set (tx_rows i d)" "p = posting_of_row r" by (rule loadPostings_set [OF s t p])
  have r': "r \<in> set (db_postings d)" "pr_tx r = i" using r by (auto simp: tx_rows_def)
  note l = struct_tx_rows [OF s t r(1)]
  show dv: "Direction_Valid (p_Direction p)" using l r by (simp add: posting_of_row_def posting_linked_def)
  have dist: "distinct (map t_ID (db_transactions d))" "distinct (map a_ID (db_accounts d))"
    using s by (simp_all add: struct_ok_def ids_ok_def)
  obtain col where col: "\<not> col_posted col" "col_direction col = pr_direction r"
    using l(2) by (metis Direction_Valid_def posting_linked_def col_direction.simps(3,4) col_posted.simps(3,4))
  let ?P = "\<lambda>x. col_counts col (tx_status d (pr_tx x)) \<and> pr_direction x = col_direction col \<and> pr_account x = pr_account r \<and> pr_asset x = pr_asset r"
  have pos: "\<And>x. x \<in> set (db_postings d) \<Longrightarrow> 0 \<le> pr_amount x"
    using s by (force simp: struct_ok_def posting_linked_def)
  have "?P r" using col r' draft find_tx_unique(5) [OF dist(1) t] by (simp add: col_counts_def)
  then have "0 < computed d (col, pr_account r, pr_asset r)"
    using row_sum_ge [OF r'(1), of ?P] pos l(2) by (auto simp: posting_linked_def)
  then have "stored d (col, pr_account r, pr_asset r) \<noteq> 0" using c by (simp add: counters_ok_def)
  then obtain b where b: "find_balance (pr_account r) (pr_asset r) d = Some b" by (auto split: option.splits)
  then have b': "b \<in> set (db_balances d)" "br_account b = pr_account r"
    by (auto simp: find_balance_def dest!: find_Some_filter)
  then have "tenant_account d (br_tenant b) (pr_account r)" using s by (auto simp: struct_ok_def balance_linked_def)
  moreover have "tenant_account d tn (pr_account r)" using l by (auto simp: posting_linked_def tenant_account_def)
  ultimately have "br_tenant b = tn"
    using dist(2) unfolding tenant_account_def by (metis distinct_map inj_onD)
  then show "has_balance tn p d" using b r by (simp add: has_balance_def posting_of_row_def p_asset_def)
qed

section \<open>Batches keep the session\<close>

lemma session_postings:
  assumes s: "session tn d0 d" and b: "run_batch (\<lambda>p. insert_posting tn (posting_row t p)) ps d = Inr d'"
    and t: "\<exists>x \<in> set (db_transactions d). t_ID x = t_ID t \<and> t_TenantID x = tn \<and> t_LedgerID x = t_LedgerID t" "t_TenantID t = tn"
    and acc: "\<And>p. p \<in> set ps \<Longrightarrow> \<exists>a \<in> set (db_accounts d). a_ID a = p_AccountID p \<and> a_TenantID a = tn \<and> a_LedgerID a = t_LedgerID t"
  shows "session tn d0 d' \<and> db_accounts d' = db_accounts d \<and> db_transactions d' = db_transactions d \<and> db_balances d' = db_balances d
    \<and> db_holds d' = db_holds d \<and> db_keys d' = db_keys d \<and> db_ledgers d' = db_ledgers d \<and> db_outbox d' = db_outbox d
    \<and> db_postings d' = db_postings d @ map (posting_row t) ps \<and> (\<forall>p \<in> set ps. Direction_Valid (p_Direction p) \<and> 0 < units p)"
  using b s t acc
proof (induction ps arbitrary: d)
  case (Cons p ps)
  obtain e where e: "insert_posting tn (posting_row t p) d = Inr e" "run_batch (\<lambda>p. insert_posting tn (posting_row t p)) ps e = Inr d'"
    using Cons.prems(1) by (auto simp: bindE_Inr_iff)
  have e': "e = d\<lparr>db_postings := db_postings d @ [posting_row t p], db_deferred := t_ID t # db_deferred d\<rparr>"
    and v: "Direction_Valid (p_Direction p)" "0 < units p"
    using e(1) by (auto simp: insert_posting_Inr posting_row_def units_def)
  have "posting_linked d (posting_row t p)"
    using v Cons.prems(3,4) Cons.prems(5) [of p] by (fastforce simp: posting_linked_def posting_row_def units_def)
  then have "session tn d0 e" using session_insert_posting [OF Cons.prems(2) e(1)] by blast
  then show ?case
    using Cons.IH [OF e(2)] Cons.prems v by (simp add: e')
qed simp

lemma tenant_account_frame: "db_accounts d' = db_accounts d \<Longrightarrow> tenant_account d' = tenant_account d"
  by (simp add: tenant_account_def fun_eq_iff)

lemma session_apply_posted:
  assumes s: "session tn d0 d" and a: "applyBalances tn tn ps upsertPostedBalance d = Inr d'"
    and acc: "\<And>p. p \<in> set ps \<Longrightarrow> tenant_account d tn (p_AccountID p)"
  shows "session tn d0 d'"
proof -
  have "session tn d0 d' \<and> other_tables d' = other_tables d"
  proof (rule run_batch_keeps [OF a [unfolded applyBalances_def]])
    fix p d1 d2 assume p: "p \<in> set ps" and I: "session tn d0 d1 \<and> other_tables d1 = other_tables d"
      and u: "upsertPostedBalance tn tn p d1 = Inr d2"
    have "tenant_account d1 tn (p_AccountID p)"
      using acc [OF p] I by (metis other_tables_eqD(2) tenant_account_frame)
    moreover have "other_tables d2 = other_tables d1" by (rule posted_frame.same [OF u])
    ultimately show "session tn d0 d2 \<and> other_tables d2 = other_tables d"
      using I u by (auto simp: upsertPostedBalance_def split: prod.splits elim!: session_upsert_balance)
  qed (use s in simp)
  then show ?thesis by simp
qed

lemma session_apply_pending:
  assumes s: "session tn d0 d" and a: "applyBalances tn tn ps upsertPendingBalance d = Inr d'"
    and acc: "\<And>p. p \<in> set ps \<Longrightarrow> tenant_account d tn (p_AccountID p)"
  shows "session tn d0 d'"
proof -
  have "session tn d0 d' \<and> other_tables d' = other_tables d"
  proof (rule run_batch_keeps [OF a [unfolded applyBalances_def]])
    fix p d1 d2 assume p: "p \<in> set ps" and I: "session tn d0 d1 \<and> other_tables d1 = other_tables d"
      and u: "upsertPendingBalance tn tn p d1 = Inr d2"
    have "tenant_account d1 tn (p_AccountID p)"
      using acc [OF p] I by (metis other_tables_eqD(2) tenant_account_frame)
    moreover have "other_tables d2 = other_tables d1" by (rule pending_frame.same [OF u])
    ultimately show "session tn d0 d2 \<and> other_tables d2 = other_tables d"
      using I u by (auto simp: upsertPendingBalance_def split: prod.splits elim!: session_upsert_balance)
  qed (use s in simp)
  then show ?thesis by simp
qed

lemma session_promote:
  assumes s: "session tn d0 d" and a: "promoteBalances tn ps d = Inr d'"
  shows "session tn d0 d'"
  by (rule run_batch_keeps [OF a [unfolded promoteBalances_def], of "session tn d0", OF s])
    (auto simp: movePendingToPosted_def bindE_Inr_iff split: prod.splits elim!: session_update_balance)

end
