(* ===== verification/Ledger_Integrity.thy ===== *)
theory Ledger_Integrity
  imports Ledger_Invariant
begin

text \<open>
  Every store operation keeps the integrity invariant, whatever the arguments, and whatever the
  stale databases its idempotency lookups saw.
\<close>

section \<open>The invariant\<close>

definition active_held :: "HoldRow list \<Rightarrow> uuid \<Rightarrow> string \<Rightarrow> int" where
  "active_held rs acc asset = (\<Sum>r\<leftarrow>rs. if h_Status (hr_hold r) = HoldActive \<and> h_AccountID (hr_hold r) = acc
     \<and> Asset (h_Amount (hr_hold r)) = asset then sint (Units (h_Amount (hr_hold r))) else 0)"

definition held_ok :: "Db \<Rightarrow> bool" where
  "held_ok d \<longleftrightarrow> (\<forall>acc asset. held d (acc, asset) = active_held (db_holds d) acc asset)"

definition rows_balanced :: "PostingRow list \<Rightarrow> bool" where
  "rows_balanced ps \<longleftrightarrow> 2 \<le> length ps \<and> (\<forall>asset.
     row_sum (\<lambda>p. pr_asset p = asset \<and> pr_direction p = DirectionDebit) ps
   = row_sum (\<lambda>p. pr_asset p = asset \<and> pr_direction p = DirectionCredit) ps)"

definition double_entry :: "Db \<Rightarrow> bool" where
  "double_entry d \<longleftrightarrow> (\<forall>t \<in> set (db_transactions d).
     t_Status t = TransactionPosted \<or> t_Status t = TransactionReversed \<longrightarrow> rows_balanced (tx_rows (t_ID t) d))"

definition ledger_inv :: "Db \<Rightarrow> bool" where
  "ledger_inv d \<longleftrightarrow> struct_ok d \<and> counters_ok d \<and> held_ok d \<and> double_entry d \<and> db_deferred d = []"

lemma ledger_inv_empty: "ledger_inv empty_db"
proof -
  have "counters_ok empty_db" by (auto simp: counters_ok_def empty_db_def find_balance_def)
  then show ?thesis
    by (simp add: ledger_inv_def empty_db_def struct_ok_def ids_ok_def held_ok_def held_def find_balance_def active_held_def double_entry_def)
qed

section \<open>Commit\<close>

lemma row_sum_other_asset: "asset \<notin> pr_asset ` set ps \<Longrightarrow> row_sum (\<lambda>p. pr_asset p = asset \<and> P p) ps = 0"
  by (induction ps) auto

lemma check_transaction_balance_Inr:
  assumes "check_transaction_balance tn d i = Inr u" and "find_tx tn i d = Some t"
    and "t_Status t = TransactionPosted \<or> t_Status t = TransactionReversed"
  shows "rows_balanced (tx_postings tn i d)"
proof -
  let ?ps = "tx_postings tn i d"
  have two: "2 \<le> length ?ps"
    and seen: "\<And>asset. asset \<in> pr_asset ` set ?ps \<Longrightarrow>
        row_sum (\<lambda>p. pr_asset p = asset \<and> pr_direction p = DirectionDebit) ?ps
      = row_sum (\<lambda>p. pr_asset p = asset \<and> pr_direction p = DirectionCredit) ?ps"
    using assms by (auto simp: check_transaction_balance_def list_ex_iff split: if_splits)
  have "row_sum (\<lambda>p. pr_asset p = asset \<and> pr_direction p = DirectionDebit) ?ps
      = row_sum (\<lambda>p. pr_asset p = asset \<and> pr_direction p = DirectionCredit) ?ps" for asset
    using seen row_sum_other_asset by (cases "asset \<in> pr_asset ` set ?ps") simp_all
  with two show ?thesis unfolding rows_balanced_def by blast
qed

lemma run_deferred_Inr: "run_deferred tn d is = Inr u \<Longrightarrow> i \<in> set is \<Longrightarrow> check_transaction_balance tn d i = Inr ()"
  by (induction "is") (auto simp: bindE_Inr_iff)

lemma commit_double_entry:
  assumes s: "session tn d0 d" and de: "double_entry d0" and run: "run_deferred tn d (rev (db_deferred d)) = Inr u"
  shows "double_entry d"
  unfolding double_entry_def
proof (intro ballI impI)
  fix t assume t: "t \<in> set (db_transactions d)" and firm: "t_Status t = TransactionPosted \<or> t_Status t = TransactionReversed"
  show "rows_balanced (tx_rows (t_ID t) d)"
  proof (cases "t_ID t \<in> set (db_deferred d)")
    case True
    have tn: "t_TenantID t = tn" using s t True by (simp add: session_def touched_by_def)
    have "\<And>x. x \<in> set (db_transactions d) \<Longrightarrow> t_ID x = t_ID t \<Longrightarrow> x = t"
      using session_distinct(3) [OF s] t by (metis distinct_map inj_onD)
    then have f: "find_tx tn (t_ID t) d = Some t"
      unfolding find_tx_def using t tn by (intro find_unique) auto
    have "tx_postings tn (t_ID t) d = tx_rows (t_ID t) d"
      unfolding tx_postings_def tx_rows_def
      using struct_tx_rows(1) [OF _ f] s by (intro filter_cong) (auto simp: session_def tx_rows_def)
    then show ?thesis
      using check_transaction_balance_Inr [OF run_deferred_Inr [OF run] f firm] True by simp
  next
    case False
    then have same: "filter (\<lambda>x. t_ID x = t_ID t) (db_transactions d) = filter (\<lambda>x. t_ID x = t_ID t) (db_transactions d0)"
      "tx_rows (t_ID t) d = tx_rows (t_ID t) d0"
      using s by (auto simp: session_def untouched_def tx_rows_def)
    have "t \<in> set (filter (\<lambda>x. t_ID x = t_ID t) (db_transactions d))" using t by simp
    then have "t \<in> set (db_transactions d0)" unfolding same(1) by simp
    then show ?thesis using de firm unfolding double_entry_def same(2) by blast
  qed
qed

lemma WithTenantTx_cases:
  assumes "WithTenantTx tn fn d = (r, d')" and "db_deferred d = []"
  obtains (fail) e where "r = Inl e" "d' = d"
  | (ok) x e where "r = Inr x" "tn \<noteq> uuid_Nil" "fn d = Inr (x, e)" "run_deferred tn e (rev (db_deferred e)) = Inr ()" "d' = e\<lparr>db_deferred := []\<rparr>"
proof -
  have d: "d\<lparr>db_deferred := []\<rparr> = d" using assms(2) by simp
  show thesis
    using assms(1) fail ok by (auto simp: WithTenantTx_def d split: if_splits sum.splits prod.splits)
qed

lemma clear_deferred:
  "struct_ok (d\<lparr>db_deferred := []\<rparr>) = struct_ok d" "counters_ok (d\<lparr>db_deferred := []\<rparr>) = counters_ok d"
  "held_ok (d\<lparr>db_deferred := []\<rparr>) = held_ok d" "double_entry (d\<lparr>db_deferred := []\<rparr>) = double_entry d"
proof -
  let ?d = "d\<lparr>db_deferred := []\<rparr>"
  have "posting_linked ?d = posting_linked d" "balance_linked ?d = balance_linked d" "hold_linked ?d = hold_linked d"
    by (simp_all add: fun_eq_iff posting_linked_def balance_linked_def hold_linked_def tenant_account_def)
  then show "struct_ok ?d = struct_ok d" by (simp add: struct_ok_def ids_ok_def)
  have "stored ?d k = stored d k" "computed ?d k = computed d k" for k
    by (auto intro!: stored_same computed_same simp: tx_status_def)
  then show "counters_ok ?d = counters_ok d" by (simp add: counters_ok_def)
  show "held_ok ?d = held_ok d" by (simp add: held_ok_def held_def find_balance_def)
  show "double_entry ?d = double_entry d" by (simp add: double_entry_def tx_rows_def)
qed

lemma WithTenantTx_inv:
  assumes inv: "ledger_inv d" and r: "WithTenantTx tn fn d = (r, d')"
    and body: "\<And>x e. fn d = Inr (x, e) \<Longrightarrow> session tn d e \<and> counters_ok e \<and> held_ok e"
  shows "ledger_inv d'"
proof -
  have "db_deferred d = []" using inv by (simp add: ledger_inv_def)
  from r this show ?thesis
  proof (cases rule: WithTenantTx_cases)
    case fail
    then show ?thesis using inv by simp
  next
    case (ok x e)
    note b = body [OF ok(3)]
    then have "double_entry e"
      using commit_double_entry ok(4) inv by (auto simp: ledger_inv_def)
    with b show ?thesis by (simp add: ok(5) ledger_inv_def clear_deferred session_def)
  qed
qed

lemma inv_session: "ledger_inv d \<Longrightarrow> session tn d d"
  by (simp add: ledger_inv_def session_start)

lemma map_res_snd [simp]: "snd (map_res r) = snd r"
  by (auto simp: map_res_def split: prod.splits sum.splits)

section \<open>Ledgers and accounts\<close>

lemma session_insert_ledger:
  assumes s: "session tn d0 d" and i: "insert_ledger tn l d = Inr d'"
  shows "session tn d0 d'"
proof -
  have d': "d' = d\<lparr>db_ledgers := db_ledgers d @ [l\<lparr>l_Metadata := meta (l_Metadata l)\<rparr>]\<rparr>"
    and fresh: "l_ID l \<notin> l_ID ` set (db_ledgers d)"
    using i by (auto simp: insert_ledger_def ledger_exists_def list_ex_iff image_iff split: if_splits)
  have "posting_linked d' = posting_linked d" "balance_linked d' = balance_linked d" "hold_linked d' = hold_linked d"
    by (simp_all add: d' fun_eq_iff posting_linked_def balance_linked_def hold_linked_def tenant_account_def)
  then have "struct_ok d'" using s fresh by (auto simp: session_def struct_ok_def ids_ok_def) (auto simp: d')
  then show ?thesis using s by (simp add: session_def untouched_def touched_by_def d')
qed

lemma session_insert_account:
  assumes s: "session tn d0 d" and i: "insert_account tn a d = Inr d'"
  shows "session tn d0 d'"
proof -
  have d': "d' = d\<lparr>db_accounts := db_accounts d @ [a\<lparr>a_Metadata := meta (a_Metadata a)\<rparr>]\<rparr>"
    and fresh: "a_ID a \<notin> a_ID ` set (db_accounts d)"
    using i by (auto simp: insert_account_def account_exists_def list_ex_iff image_iff split: if_splits)
  have "tenant_account d tn' acc \<Longrightarrow> tenant_account d' tn' acc" for tn' acc
    by (auto simp: tenant_account_def d')
  moreover have "posting_linked d p \<Longrightarrow> posting_linked d' p" for p
    by (auto simp: posting_linked_def d')
  ultimately have "struct_ok d'"
    using s fresh by (auto simp: session_def struct_ok_def ids_ok_def balance_linked_def hold_linked_def) (auto simp: d')
  then show ?thesis using s by (simp add: session_def untouched_def touched_by_def d')
qed

lemma counters_frame:
  assumes "counters_ok d" and "db_postings d' = db_postings d" and "db_transactions d' = db_transactions d" and "db_balances d' = db_balances d"
  shows "counters_ok d'"
proof -
  have "computed d' k = computed d k" for k
    by (rule computed_same [OF assms(2)]) (rule tx_status_same [OF assms(3)])
  with assms(1) show ?thesis by (simp add: counters_ok_def stored_same [OF assms(4)])
qed

lemma held_frame:
  assumes "held_ok d" and "db_holds d' = db_holds d" and "db_balances d' = db_balances d"
  shows "held_ok d'"
  using assms(1,2) by (simp add: held_ok_def held_same [OF assms(3)])

lemma store_CreateLedger_inv: "ledger_inv d \<Longrightarrow> ledger_inv (snd (store_CreateLedger l d))"
proof -
  assume inv: "ledger_inv d"
  show ?thesis
    unfolding store_CreateLedger_def map_res_snd
  proof (rule WithTenantTx_inv [OF inv surjective_pairing])
    fix x e assume "bindE (insert_ledger (l_TenantID l) l d) (\<lambda>d'. Inr ((), d')) = Inr (x, e)"
    then have i: "insert_ledger (l_TenantID l) l d = Inr e" by (auto simp: bindE_Inr_iff)
    then have "session (l_TenantID l) d e" using session_insert_ledger [OF inv_session [OF inv]] by blast
    moreover have "db_postings e = db_postings d" "db_transactions e = db_transactions d" "db_balances e = db_balances d" "db_holds e = db_holds d"
      using i by (auto simp: insert_ledger_def split: if_splits)
    ultimately show "session (l_TenantID l) d e \<and> counters_ok e \<and> held_ok e"
      using inv by (auto simp: ledger_inv_def intro: counters_frame held_frame)
  qed
qed

lemma store_CreateAccount_inv: "ledger_inv d \<Longrightarrow> ledger_inv (snd (store_CreateAccount a d))"
proof -
  assume inv: "ledger_inv d"
  show ?thesis
    unfolding store_CreateAccount_def map_res_snd
  proof (rule WithTenantTx_inv [OF inv surjective_pairing])
    fix x e assume "(case find_ledger (a_TenantID a) (a_LedgerID a) d of None \<Rightarrow> Inl ErrNotFound
      | Some _ \<Rightarrow> bindE (insert_account (a_TenantID a) a d) (\<lambda>d'. Inr ((), d'))) = Inr (x, e)"
    then have i: "insert_account (a_TenantID a) a d = Inr e" by (auto simp: bindE_Inr_iff split: option.splits)
    then have "session (a_TenantID a) d e" using session_insert_account [OF inv_session [OF inv]] by blast
    moreover have "db_postings e = db_postings d" "db_transactions e = db_transactions d" "db_balances e = db_balances d" "db_holds e = db_holds d"
      using i by (auto simp: insert_account_def split: if_splits)
    ultimately show "session (a_TenantID a) d e \<and> counters_ok e \<and> held_ok e"
      using inv by (auto simp: ledger_inv_def intro: counters_frame held_frame)
  qed
qed

section \<open>Transactions\<close>

lemma unique_ids_set: "set (unique_ids is seen) = set is - set seen"
  by (induction "is" seen rule: unique_ids.induct) auto

lemma check_found_Inr:
  "check_found tn d ledgerID is = Inr u \<Longrightarrow> i \<in> set is \<Longrightarrow> \<exists>a. find_account tn i d = Some a \<and> a_LedgerID a = ledgerID"
  by (induction "is") (auto split: option.splits if_splits)

definition account_in :: "Db \<Rightarrow> uuid \<Rightarrow> uuid \<Rightarrow> uuid \<Rightarrow> bool" where
  "account_in d tn ledgerID acc \<longleftrightarrow> (\<exists>a \<in> set (db_accounts d). a_ID a = acc \<and> a_TenantID a = tn \<and> a_LedgerID a = ledgerID)"

lemma checkAccountsInLedger_Inr:
  assumes "checkAccountsInLedger tn ledgerID ps d = Inr u" and "p \<in> set ps"
  shows "account_in d tn ledgerID (p_AccountID p)"
proof -
  have "p_AccountID p \<in> set (unique_ids (map p_AccountID ps) [])" using assms(2) by (simp add: unique_ids_set)
  from check_found_Inr [OF assms(1) [unfolded checkAccountsInLedger_def] this] show ?thesis
    by (auto simp: account_in_def find_account_def dest!: find_Some_filter)
qed

text \<open>The effect of \<open>insertTransactionTx\<close>, the part the two operations that create a transaction share.\<close>

lemma insertTransactionTx_effect:
  assumes s: "session tn d0 d" and i: "insertTransactionTx tn t d = Inr e"
    and acc: "\<And>p. p \<in> set (t_Postings t) \<Longrightarrow> account_in d tn (t_LedgerID t) (p_AccountID p)"
  shows "session tn d0 e" "stored e = stored d" "held e = held d" "db_holds e = db_holds d" "db_accounts e = db_accounts d"
    "db_keys e = db_keys d" "t_TenantID t = tn" "db_transactions e = db_transactions d @ [tx_row t]" "db_balances e = db_balances d"
    "db_postings e = db_postings d @ map (posting_row t) (t_Postings t)"
    "\<And>p. p \<in> set (t_Postings t) \<Longrightarrow> Direction_Valid (p_Direction p)"
    "computed e k = computed d k + (\<Sum>p\<leftarrow>t_Postings t. contrib (t_Status t \<noteq> TransactionDraft) p k)"
proof -
  obtain d1 where d1: "insert_tx tn t d = Inr d1" "run_batch (\<lambda>p. insert_posting tn (posting_row t p)) (t_Postings t) d1 = Inr e"
    using i by (auto simp: insertTransactionTx_def bindE_Inr_iff)
  have d1': "d1 = d\<lparr>db_transactions := db_transactions d @ [tx_row t], db_deferred := t_ID t # db_deferred d\<rparr>"
    and t: "t_TenantID t = tn" "t_Status t \<in> {TransactionDraft, TransactionPosted, TransactionReversed}"
    using d1(1) by (auto simp: insert_tx_Inr)
  have s1: "session tn d0 d1" by (rule session_insert_tx [OF s d1(1)])
  have "session tn d0 e \<and> db_accounts e = db_accounts d1 \<and> db_transactions e = db_transactions d1 \<and> db_balances e = db_balances d1
    \<and> db_holds e = db_holds d1 \<and> db_keys e = db_keys d1 \<and> db_ledgers e = db_ledgers d1 \<and> db_outbox e = db_outbox d1
    \<and> db_postings e = db_postings d1 @ map (posting_row t) (t_Postings t) \<and> (\<forall>p \<in> set (t_Postings t). Direction_Valid (p_Direction p) \<and> 0 < units p)"
    by (rule session_postings [OF s1 d1(2)]) (use acc t in \<open>auto simp: d1' account_in_def\<close>)
  then show "session tn d0 e" "db_holds e = db_holds d" "db_accounts e = db_accounts d" "db_keys e = db_keys d"
      "db_transactions e = db_transactions d @ [tx_row t]" "db_balances e = db_balances d"
      "db_postings e = db_postings d @ map (posting_row t) (t_Postings t)"
      "\<And>p. p \<in> set (t_Postings t) \<Longrightarrow> Direction_Valid (p_Direction p)"
    by (auto simp: d1')
  then show "stored e = stored d" "held e = held d"
    by (auto intro: held_same stored_same)
  show "t_TenantID t = tn" by (rule t)
  have so: "struct_ok d" using s by (simp add: session_def)
  have "computed e k = computed d1 k + (\<Sum>p\<leftarrow>t_Postings t. contrib (t_Status t \<noteq> TransactionDraft) p k)"
    by (rule inserted.batch [OF d1(2)]) (use t(2) computed_insert_tx(2) [OF so d1(1)] in auto)
  then show "computed e k = computed d k + (\<Sum>p\<leftarrow>t_Postings t. contrib (t_Status t \<noteq> TransactionDraft) p k)"
    by (simp add: computed_insert_tx(1) [OF so d1(1)])
qed

text \<open>The integrity facts a body hands to the commit.\<close>

definition body_ok :: "uuid \<Rightarrow> Db \<Rightarrow> Db \<Rightarrow> bool" where
  "body_ok tn d e \<longleftrightarrow> session tn d e \<and> counters_ok e \<and> held_ok e"

lemma body_ok_refl: "ledger_inv d \<Longrightarrow> body_ok tn d d"
  by (simp add: body_ok_def inv_session ledger_inv_def)

lemma body_ok_outbox:
  assumes b: "body_ok tn d0 d" and o: "insertOutbox evID wall tn topic rt payload d = Inr e"
  shows "body_ok tn d0 e"
proof -
  have "db_postings e = db_postings d" "db_transactions e = db_transactions d" "db_balances e = db_balances d" "db_holds e = db_holds d"
    using o by (auto simp: insertOutbox_Inr)
  then show ?thesis
    using b session_insertOutbox [OF _ o] by (auto simp: body_ok_def intro: counters_frame held_frame)
qed

lemma body_ok_key:
  assumes b: "body_ok tn d0 d" and k: "insert_key tn r d = Inr e"
  shows "body_ok tn d0 e"
proof -
  have "db_postings e = db_postings d" "db_transactions e = db_transactions d" "db_balances e = db_balances d" "db_holds e = db_holds d"
    using k by (auto simp: insert_key_Inr)
  then show ?thesis
    using b session_insert_key [OF _ k] by (auto simp: body_ok_def intro: counters_frame held_frame)
qed

lemma account_in_tenant: "account_in d tn l acc \<Longrightarrow> tenant_account d tn acc"
  by (auto simp: account_in_def tenant_account_def)

text \<open>A transaction inserted together with the balance changes of its postings.\<close>

lemma body_ok_transaction:
  assumes inv: "body_ok tn d0 d" and i: "insertTransactionTx tn t d = Inr e"
    and acc: "\<And>p. p \<in> set (t_Postings t) \<Longrightarrow> account_in d tn (t_LedgerID t) (p_AccountID p)"
    and a: "(t_Status t = TransactionPosted \<and> applyBalances tn tn (t_Postings t) upsertPostedBalance e = Inr f)
          \<or> (t_Status t = TransactionDraft \<and> applyBalances tn tn (t_Postings t) upsertPendingBalance e = Inr f)"
  shows "body_ok tn d0 f" "other_tables f = other_tables e"
proof -
  have s: "session tn d0 d" and c: "counters_ok d" and h: "held_ok d" using inv by (auto simp: body_ok_def)
  note eff = insertTransactionTx_effect [OF s i acc]
  have tacc: "tenant_account e tn (p_AccountID p)" if "p \<in> set (t_Postings t)" for p
    using acc [OF that] account_in_tenant tenant_account_frame [OF eff(5)] by auto
  have sf: "session tn d0 f"
    using a session_apply_posted [OF eff(1) _ tacc] session_apply_pending [OF eff(1) _ tacc] by blast
  show ot: "other_tables f = other_tables e"
    using a posted_frame.batch pending_frame.batch unfolding applyBalances_def by blast
  have hf: "held f = held e"
    using a posted_held.batch pending_held.batch unfolding applyBalances_def by blast
  have st: "stored f k = stored e k + (\<Sum>p\<leftarrow>t_Postings t. contrib (t_Status t \<noteq> TransactionDraft) p k)" for k
    using a unfolding applyBalances_def
  proof (elim disjE conjE)
    assume "t_Status t = TransactionPosted" "run_batch (upsertPostedBalance tn tn) (t_Postings t) e = Inr f"
    then show ?thesis using posted.batch [of tn tn "t_Postings t" e f k] eff(11) by simp
  next
    assume "t_Status t = TransactionDraft" "run_batch (upsertPendingBalance tn tn) (t_Postings t) e = Inr f"
    then show ?thesis using pending.batch [of tn tn "t_Postings t" e f k] eff(11) by simp
  qed
  have "computed f k = computed e k" for k
    using other_tables_eqD [OF ot] by (intro computed_same tx_status_same) auto
  then have "counters_ok f" using c st by (auto simp: counters_ok_def eff)
  moreover have "held_ok f" using h hf by (simp add: held_ok_def eff other_tables_eqD [OF ot])
  ultimately show "body_ok tn d0 f" using sf by (simp add: body_ok_def)
qed

text \<open>The steps a successful, non-replayed creation went through.\<close>

lemma create_tx_body_steps:
  assumes b: "create_tx_body H uuidString evID wall dl t d = Inr (x, e)"
    and fresh: "lookupIdempotentTx (t_TenantID t) (t_IdempotencyKey t) dl = None"
  obtains d1 d2 d3 where "find_ledger (t_TenantID t) (t_LedgerID t) d \<noteq> None" "x = (t, False)"
    "checkAccountsInLedger (t_TenantID t) (t_LedgerID t) (t_Postings t) d = Inr ()"
    "insertTransactionTx (t_TenantID t) t d = Inr d1"
    "t_Status t = TransactionPosted \<and> applyBalances (t_TenantID t) (t_TenantID t) (t_Postings t) upsertPostedBalance d1 = Inr d2
       \<and> insertOutbox evID wall (t_TenantID t) TopicTransactionPosted (t_TenantID t)
            (PostedData (NewTransactionPostedEvent t (case t_PostedAt t of Some x \<Rightarrow> x | None \<Rightarrow> t_CreatedAt t))) d2 = Inr d3
     \<or> t_Status t \<noteq> TransactionPosted \<and> applyBalances (t_TenantID t) (t_TenantID t) (t_Postings t) upsertPendingBalance d1 = Inr d2
       \<and> d3 = d2"
    "storeIdempotentResponse (t_TenantID t) (t_TenantID t) (t_IdempotencyKey t) 201 t (transactionFingerprint H uuidString t) d3 = Inr e"
proof -
  let ?tn = "t_TenantID t"
  obtain l where l: "find_ledger ?tn (t_LedgerID t) d = Some l"
    using b fresh by (cases "find_ledger ?tn (t_LedgerID t) d") (auto simp: create_tx_body_def Let_def)
  with b fresh obtain d1 d3 where
    chk: "checkAccountsInLedger ?tn (t_LedgerID t) (t_Postings t) d = Inr ()" and x: "x = (t, False)"
    and d1: "insertTransactionTx ?tn t d = Inr d1"
    and d3: "(if t_Status t = TransactionPosted
        then bindE (applyBalances ?tn ?tn (t_Postings t) upsertPostedBalance d1) (\<lambda>d2.
          insertOutbox evID wall ?tn TopicTransactionPosted ?tn
            (PostedData (NewTransactionPostedEvent t (case t_PostedAt t of Some x \<Rightarrow> x | None \<Rightarrow> t_CreatedAt t))) d2)
        else applyBalances ?tn ?tn (t_Postings t) upsertPendingBalance d1) = Inr d3"
    and key: "storeIdempotentResponse ?tn ?tn (t_IdempotencyKey t) 201 t (transactionFingerprint H uuidString t) d3 = Inr e"
    unfolding create_tx_body_def Let_def by (auto simp: bindE_Inr_iff)
  show thesis
  proof (cases "t_Status t = TransactionPosted")
    case True
    then obtain d2 where "applyBalances ?tn ?tn (t_Postings t) upsertPostedBalance d1 = Inr d2"
      "insertOutbox evID wall ?tn TopicTransactionPosted ?tn
            (PostedData (NewTransactionPostedEvent t (case t_PostedAt t of Some x \<Rightarrow> x | None \<Rightarrow> t_CreatedAt t))) d2 = Inr d3"
      using d3 by (auto simp: bindE_Inr_iff)
    then show ?thesis using that [of d1 d2 d3] True l x chk d1 key by simp
  next
    case False
    then show ?thesis using that [of d1 d3 d3] d3 l x chk d1 key by simp
  qed
qed

lemma create_tx_body_ok:
  assumes inv: "ledger_inv d" and b: "create_tx_body H uuidString evID wall dl t d = Inr (x, e)"
    and st: "t_Status t = TransactionDraft \<or> t_Status t = TransactionPosted"
  shows "body_ok (t_TenantID t) d e"
proof (cases "lookupIdempotentTx (t_TenantID t) (t_IdempotencyKey t) dl")
  case (Some a)
  then show ?thesis using b body_ok_refl [OF inv] by (auto simp: create_tx_body_def Let_def bindE_Inr_iff)
next
  case None
  from b this show ?thesis
  proof (cases rule: create_tx_body_steps)
    case (1 d1 d2 d3)
    note tx = body_ok_transaction [OF body_ok_refl [OF inv] 1(4) checkAccountsInLedger_Inr [OF 1(3)]]
    have "body_ok (t_TenantID t) d d3"
      using 1(5) st tx(1) body_ok_outbox by blast
    then show ?thesis using 1(6) body_ok_key unfolding storeIdempotentResponse_def by blast
  qed
qed

lemma snd_retry: "snd (case WithTenantTx tn fn d of (Inr r, d') \<Rightarrow> (Inr r, d') | (Inl e, d') \<Rightarrow> (g e, d')) = snd (WithTenantTx tn fn d)"
  by (auto split: prod.splits sum.splits)

lemma store_CreateTransaction_inv:
  assumes inv: "ledger_inv d" and st: "t_Status t = TransactionDraft \<or> t_Status t = TransactionPosted"
  shows "ledger_inv (snd (store_CreateTransaction H uuidString evID wall dl dr t d))"
  unfolding store_CreateTransaction_def snd_retry
  by (rule WithTenantTx_inv [OF inv surjective_pairing]) (use create_tx_body_ok [OF inv _ st] in \<open>simp add: body_ok_def\<close>)

lemma loadTransactionTx_Inr:
  "loadTransactionTx tn i d = Inr t \<longleftrightarrow> (\<exists>t0. find_tx tn i d = Some t0 \<and> t = t0\<lparr>t_Postings := loadPostings tn d [i] i\<rparr>)"
  by (auto simp: loadTransactionTx_def split: option.splits)

text \<open>Posting a draft: the status change and the promotion of the balances cancel out.\<close>

lemma body_ok_promote:
  assumes inv: "ledger_inv d" and t: "find_tx tn i d = Some t" and draft: "t_Status t = TransactionDraft"
    and u: "update_tx tn i (set_posted now) d = Inr d1" and p: "promoteBalances tn (loadPostings tn d [i] i) d1 = Inr d2"
  shows "body_ok tn d d2"
proof -
  have so: "struct_ok d" and c: "counters_ok d" and h: "held_ok d" using inv by (auto simp: ledger_inv_def)
  have s2: "session tn d d2"
    by (rule session_promote [OF session_update_tx [OF inv_session [OF inv] u] p]) simp
  have bal: "db_balances d1 = db_balances d" "db_holds d1 = db_holds d" by (simp_all add: update_tx_Some(1) [OF u t])
  have ok: "Direction_Valid (p_Direction x) \<and> has_balance tn x d1" if "x \<in> set (loadPostings tn d [i] i)" for x
    using draft_has_balance [OF so c t draft that] by (simp add: has_balance_def find_balance_def bal)
  have st: "stored d2 k = stored d1 k + (\<Sum>p\<leftarrow>loadPostings tn d [i] i. contrib True p k - contrib False p k)" for k
    by (rule move.batch [OF p [unfolded promoteBalances_def] ok])
  have ot: "other_tables d2 = other_tables d1" by (rule move_frame.batch [OF p [unfolded promoteBalances_def]])
  have "computed d2 k = computed d1 k" for k
    using other_tables_eqD [OF ot] by (intro computed_same tx_status_same) auto
  then have "counters_ok d2"
    using c st by (simp add: counters_ok_def computed_set_posted [OF u t so] stored_same [OF bal(1)])
  moreover have "held d2 = held d1" by (rule move_held.batch [OF p [unfolded promoteBalances_def]])
  then have "held_ok d2" using h bal by (simp add: held_ok_def other_tables_eqD [OF ot] held_same [OF bal(1)])
  ultimately show ?thesis using s2 by (simp add: body_ok_def)
qed

lemma store_PostTransaction_inv:
  assumes inv: "ledger_inv d"
  shows "ledger_inv (snd (store_PostTransaction evID wall tn i now d))"
  unfolding store_PostTransaction_def map_res_snd
proof (rule WithTenantTx_inv [OF inv surjective_pairing], goal_cases)
  case (1 x e)
  then obtain t0 where t0: "find_tx tn i d = Some t0"
    by (auto simp: bindE_Inr_iff loadTransactionTx_Inr)
  have valid: "t_Status t0 \<in> {TransactionDraft, TransactionPosted, TransactionReversed}"
    using inv t0 by (auto simp: ledger_inv_def struct_ok_def find_tx_def dest!: find_Some_filter)
  consider (posted) "t_Status t0 = TransactionPosted" "e = d"
    | (draft) d1 d2 topic tn' ev where "t_Status t0 = TransactionDraft" "update_tx tn i (set_posted now) d = Inr d1"
      "promoteBalances tn (loadPostings tn d [i] i) d1 = Inr d2" "insertOutbox evID wall tn topic tn' ev d2 = Inr e"
    using 1 t0 valid by (auto simp: bindE_Inr_iff loadTransactionTx_Inr Let_def split: if_splits)
  then show ?case
  proof cases
    case posted
    then show ?thesis using body_ok_refl [OF inv] by (simp add: body_ok_def)
  next
    case draft
    then show ?thesis
      using body_ok_outbox [OF body_ok_promote [OF inv t0]] unfolding body_ok_def by blast
  qed
qed

lemma Reverse_Inr:
  "Reverse uuidString newV7 original revID now = Inr rv \<Longrightarrow>
     t_Status original = TransactionPosted \<and> t_ReversedByID original = None \<and> list_all2 mirrored (t_Postings original) (t_Postings rv)
     \<and> t_ID rv = revID \<and> t_TenantID rv = t_TenantID original \<and> t_LedgerID rv = t_LedgerID original
     \<and> t_Status rv = TransactionPosted \<and> t_ReversesID rv = Some (t_ID original) \<and> t_PostedAt rv = Some now \<and> t_ReversedByID rv = None
     \<and> t_EffectiveAt rv = now \<and> t_CreatedAt rv = now"
  by (auto simp: Reverse_def bindE_Inr_iff reverse_postings_mirror split: if_splits)

lemma reversal_of_simps [simp]:
  "t_ID (reversal_of k r o' x) = t_ID x" "t_TenantID (reversal_of k r o' x) = t_TenantID x"
  "t_LedgerID (reversal_of k r o' x) = t_LedgerID x" "t_Status (reversal_of k r o' x) = t_Status x"
  "t_Postings (reversal_of k r o' x) = t_Postings x" "t_ReversesID (reversal_of k r o' x) = t_ReversesID x"
  "t_ReversedByID (reversal_of k r o' x) = t_ReversedByID x" "t_PostedAt (reversal_of k r o' x) = t_PostedAt x"
  "t_EffectiveAt (reversal_of k r o' x) = t_EffectiveAt x" "t_CreatedAt (reversal_of k r o' x) = t_CreatedAt x"
  by (simp_all add: reversal_of_def)

text \<open>The steps a successful, non-replayed reversal went through.\<close>

lemma reverse_tx_body_steps:
  assumes b: "reverse_tx_body H uuidString newV7 evID wall dl tn i key reason now d = Inr (x, e)"
    and fresh: "lookupIdempotentTx tn (if key = '''' then ReversalReferencePrefix @ uuidString i else key) dl = None"
  obtains t0 revID rv0 rv d1 d2 d3 d4 ev where "find_tx tn i d = Some t0"
    "Reverse uuidString (\<lambda>n. newV7 (Suc n)) (t0\<lparr>t_Postings := loadPostings tn d [i] i\<rparr>) revID now = Inr rv0"
    "rv = reversal_of key reason (t0\<lparr>t_Postings := loadPostings tn d [i] i\<rparr>) rv0" "x = (rv, False)"
    "insertTransactionTx tn rv d = Inr d1" "applyBalances tn (t_TenantID rv) (t_Postings rv) upsertPostedBalance d1 = Inr d2"
    "update_tx tn i (set_reversed (t_ID rv)) d2 = Inr d3"
    "storeIdempotentResponse tn (t_TenantID rv) (t_IdempotencyKey rv) 201 rv (reverseFingerprint H uuidString i reason) d3 = Inr d4"
    "insertOutbox evID wall tn TopicTransactionReversed (t_TenantID rv) ev d4 = Inr e"
proof -
  obtain t0 where t0: "find_tx tn i d = Some t0"
    using b fresh by (auto simp: reverse_tx_body_def Let_def bindE_Inr_iff loadTransactionTx_Inr)
  let ?t = "t0\<lparr>t_Postings := loadPostings tn d [i] i\<rparr>"
  have ld: "loadTransactionTx tn i d = Inr ?t" using t0 by (simp add: loadTransactionTx_Inr)
  obtain revID where revID: "newV7 0 = Some revID"
    using b fresh ld by (cases "newV7 0") (auto simp: reverse_tx_body_def Let_def)
  obtain rv0 where rv0: "Reverse uuidString (\<lambda>n. newV7 (Suc n)) ?t revID now = Inr rv0"
    using b fresh ld revID by (cases "Reverse uuidString (\<lambda>n. newV7 (Suc n)) ?t revID now") (auto simp: reverse_tx_body_def Let_def)
  define rv where "rv = reversal_of key reason ?t rv0"
  obtain d1 d2 d3 d4 ev where "x = (rv, False)"
    "insertTransactionTx tn rv d = Inr d1" "applyBalances tn (t_TenantID rv) (t_Postings rv) upsertPostedBalance d1 = Inr d2"
    "update_tx tn i (set_reversed (t_ID rv)) d2 = Inr d3"
    "storeIdempotentResponse tn (t_TenantID rv) (t_IdempotencyKey rv) 201 rv (reverseFingerprint H uuidString i reason) d3 = Inr d4"
    "insertOutbox evID wall tn TopicTransactionReversed (t_TenantID rv) ev d4 = Inr e"
    using b fresh unfolding reverse_tx_body_def Let_def fresh
    by (simp add: ld revID rv0 rv_def [symmetric] bindE_Inr_iff) blast
  then show thesis using that [OF t0 rv0 rv_def] by blast
qed

lemma reversal_accounts:
  assumes so: "struct_ok d" and t0: "find_tx tn i d = Some t0"
    and m: "list_all2 mirrored (loadPostings tn d [i] i) qs" and q: "q \<in> set qs"
  shows "account_in d tn (t_LedgerID t0) (p_AccountID q)"
proof -
  have dist: "distinct (map t_ID (db_transactions d))" using so by (simp add: struct_ok_def ids_ok_def)
  obtain p where p: "p \<in> set (loadPostings tn d [i] i)" "p_AccountID q = p_AccountID p"
  proof -
    obtain n where "n < length qs" "q = qs ! n" using q by (auto simp: in_set_conv_nth)
    with m that [of "loadPostings tn d [i] i ! n"] show thesis
      by (auto simp: list_all2_conv_all_nth mirrored_def)
  qed
  obtain r where r: "r \<in> set (tx_rows i d)" "p = posting_of_row r" by (rule loadPostings_set [OF so t0 p(1)])
  note l = struct_tx_rows [OF so t0 r(1)]
  obtain x a where xa: "x \<in> set (db_transactions d)" "a \<in> set (db_accounts d)" "t_ID x = pr_tx r" "a_ID a = pr_account r"
    "a_TenantID a = pr_tenant r" "a_LedgerID a = t_LedgerID x"
    using l(2) unfolding posting_linked_def by blast
  have "x = t0" using find_tx_unique(6) [OF dist t0 xa(1)] xa(3) r(1) by (simp add: tx_rows_def)
  then show ?thesis using xa l(1) p(2) r(2) by (auto simp: account_in_def posting_of_row_def)
qed

lemma find_tx_append: "find_tx tn i d = Some t \<Longrightarrow> db_transactions e = db_transactions d @ ts \<Longrightarrow> find_tx tn i e = Some t"
  by (simp add: find_tx_def find_append)

lemma reverse_tx_body_ok:
  assumes inv: "ledger_inv d" and b: "reverse_tx_body H uuidString newV7 evID wall dl tn i key reason now d = Inr (x, e)"
  shows "body_ok tn d e"
proof (cases "lookupIdempotentTx tn (if key = '''' then ReversalReferencePrefix @ uuidString i else key) dl")
  case (Some a)
  then show ?thesis using b body_ok_refl [OF inv] by (auto simp: reverse_tx_body_def Let_def bindE_Inr_iff)
next
  case None
  from b None show ?thesis
  proof (cases rule: reverse_tx_body_steps)
    case (1 t0 revID rv0 rv d1 d2 d3 d4 ev)
    have so: "struct_ok d" using inv by (simp add: ledger_inv_def)
    note rv = Reverse_Inr [OF 1(2)]
    have t0: "t_TenantID t0 = tn" using find_tx_unique(3) [OF _ 1(1)] so by (simp add: struct_ok_def ids_ok_def)
    have acc: "account_in d tn (t_LedgerID rv) (p_AccountID q)" if "q \<in> set (t_Postings rv)" for q
      using reversal_accounts [OF so 1(1), of "t_Postings rv"] that rv by (simp add: 1(3))
    have tnrv: "t_TenantID rv = tn" "t_Status rv = TransactionPosted" using rv t0 by (simp_all add: 1(3))
    have ap: "applyBalances tn tn (t_Postings rv) upsertPostedBalance d1 = Inr d2" using 1(6) tnrv by simp
    note tx = body_ok_transaction [OF body_ok_refl [OF inv] 1(5) acc, of d2]
    have b2: "body_ok tn d d2" and ot: "other_tables d2 = other_tables d1" using tx ap tnrv by auto
    have "db_transactions d2 = db_transactions d @ [tx_row rv]"
      using insertTransactionTx_effect(8) [OF inv_session [OF inv] 1(5) acc] other_tables_eqD(3) [OF ot] by simp
    then have f2: "find_tx tn i d2 = Some t0" by (rule find_tx_append [OF 1(1)])
    have s2: "session tn d d2" using b2 by (simp add: body_ok_def)
    have s3: "session tn d d3" by (rule session_update_tx [OF s2 1(7)]) simp
    have d3: "db_balances d3 = db_balances d2" "db_holds d3 = db_holds d2" by (simp_all add: update_tx_Some(1) [OF 1(7) f2])
    have "counters_ok d3"
      using b2 by (simp add: body_ok_def counters_ok_def computed_set_reversed [OF 1(7) f2 session_distinct(3) [OF s2]] stored_same [OF d3(1)])
    moreover have "held_ok d3" using b2 held_frame [OF _ d3(2,1)] by (simp add: body_ok_def)
    ultimately have "body_ok tn d d3" using s3 by (simp add: body_ok_def)
    then have "body_ok tn d d4" using 1(8) body_ok_key unfolding storeIdempotentResponse_def by blast
    then show ?thesis using 1(9) body_ok_outbox by blast
  qed
qed

lemma store_ReverseTransaction_inv:
  assumes inv: "ledger_inv d"
  shows "ledger_inv (snd (store_ReverseTransaction H uuidString newV7 evID wall dl dr tn i key reason now d))"
  unfolding store_ReverseTransaction_def snd_retry
  by (rule WithTenantTx_inv [OF inv surjective_pairing]) (use reverse_tx_body_ok [OF inv] in \<open>simp add: body_ok_def\<close>)

section \<open>Holds\<close>

lemma upsertHeld_effect:
  assumes "upsertHeld tn h d = Inr e"
  shows "stored e k = stored d k" "other_tables e = other_tables d"
    "held e (acc, asset) = held d (acc, asset)
       + (if h_AccountID h = acc \<and> Asset (h_Amount h) = asset then sint (Units (h_Amount h)) else 0)"
proof -
  obtain c a s where k: "k = (c, a, s)" by (metis prod_cases3)
  note u = assms [unfolded upsertHeld_def]
  show "stored e k = stored d k"
    using stored_upsert [OF u keeps_key_changes(4), of c 0 a s] by (auto simp: k col_changes)
  show "other_tables e = other_tables d" by (rule upsert_balance_frame [OF u])
  show "held e (acc, asset) = held d (acc, asset)
       + (if h_AccountID h = acc \<and> Asset (h_Amount h) = asset then sint (Units (h_Amount h)) else 0)"
    by (auto simp: held_def upsert_balance_find [OF u keeps_key_changes(4)] balance_or_zero_def add_held_def split: option.split)
qed

lemma releaseHeld_effect:
  assumes "releaseHeld tn h d = Inr e"
  shows "stored e k = stored d k" "other_tables e = other_tables d"
    "held e (acc, asset) = held d (acc, asset)
       - (if h_AccountID h = acc \<and> Asset (h_Amount h) = asset then sint (Units (h_Amount h)) else 0)"
    "session tn d0 d \<Longrightarrow> session tn d0 e"
proof -
  obtain c a s where k: "k = (c, a, s)" by (metis prod_cases3)
  obtain n where u: "update_balance tn (h_AccountID h) (Asset (h_Amount h)) (add_held (- sint (Units (h_Amount h)))) d = Inr (n, e)"
    and n: "n \<noteq> 0"
    using assms by (auto simp: releaseHeld_def bindE_Inr_iff split: if_splits)
  have n1: "n = 1" "find_balance (h_AccountID h) (Asset (h_Amount h)) d \<noteq> None"
    using u n by (auto simp: update_balance_def split: option.splits if_splits)
  note f = update_balance_find [OF u keeps_key_changes(4)]
  show "stored e k = stored d k"
    by (auto simp: k f col_changes split: option.split)
  show "other_tables e = other_tables d" by (rule update_balance_frame [OF u])
  show "held e (acc, asset) = held d (acc, asset)
       - (if h_AccountID h = acc \<and> Asset (h_Amount h) = asset then sint (Units (h_Amount h)) else 0)"
    using n1 by (auto simp: held_def f add_held_def split: option.split)
  show "session tn d0 e" if "session tn d0 d" by (rule session_update_balance [OF that u]) simp
qed

lemma active_held_simps [simp]:
  "active_held [] acc asset = 0"
  "active_held (rs @ [r]) acc asset = active_held rs acc asset + (if h_Status (hr_hold r) = HoldActive
     \<and> h_AccountID (hr_hold r) = acc \<and> Asset (h_Amount (hr_hold r)) = asset then sint (Units (h_Amount (hr_hold r))) else 0)"
  by (simp_all add: active_held_def)

text \<open>Tables an operation on holds leaves alone are enough to keep the counters.\<close>

lemma counters_core:
  assumes "counters_ok d" and "same_core d e" and "\<And>k. stored e k = stored d k"
  shows "counters_ok e"
proof -
  have "computed e k = computed d k" for k
    using assms(2) by (intro computed_same tx_status_same) (auto simp: same_core_def)
  then show ?thesis using assms(1,3) by (simp add: counters_ok_def)
qed

lemma other_tables_core: "other_tables e = other_tables d \<Longrightarrow> same_core d e"
  using other_tables_eqD [of e d] by (simp add: same_core_def)

lemma create_hold_body_steps:
  assumes b: "create_hold_body H uuidString evID wall dl h d = Inr (x, e)"
    and fresh: "lookupHoldTx (h_TenantID h) (h_IdempotencyKey h) dl = None"
  obtains a h' d1 d2 ev where "find_account (h_TenantID h) (h_AccountID h) d = Some a"
    "h' = h\<lparr>h_LedgerID := a_LedgerID a\<rparr>" "x = (h', False)"
    "\<not> sint (Available (scan_balance (h_TenantID h) (h_AccountID h) (Asset (h_Amount h)) d) (a_NormalBalance a)) < sint (Units (h_Amount h))"
    "insert_hold (h_TenantID h) (hold_row h' (holdFingerprint H uuidString h)) d = Inr d1"
    "upsertHeld (h_TenantID h) h' d1 = Inr d2"
    "insertOutbox evID wall (h_TenantID h) TopicHoldCreated (h_TenantID h) ev d2 = Inr e"
proof -
  obtain a where a: "find_account (h_TenantID h) (h_AccountID h) d = Some a"
    using b fresh by (cases "find_account (h_TenantID h) (h_AccountID h) d") (auto simp: create_hold_body_def Let_def getAccountTx_def)
  let ?h = "h\<lparr>h_LedgerID := a_LedgerID a\<rparr>"
  obtain d1 d2 ev where "x = (?h, False)"
    "\<not> sint (Available (scan_balance (h_TenantID h) (h_AccountID h) (Asset (h_Amount h)) d) (a_NormalBalance a)) < sint (Units (h_Amount h))"
    "insert_hold (h_TenantID h) (hold_row ?h (holdFingerprint H uuidString h)) d = Inr d1"
    "upsertHeld (h_TenantID h) ?h d1 = Inr d2"
    "insertOutbox evID wall (h_TenantID h) TopicHoldCreated (h_TenantID h) ev d2 = Inr e"
    using b fresh unfolding create_hold_body_def Let_def
    by (simp add: a getAccountTx_def bindE_Inr_iff split: if_splits) blast
  then show thesis using that [OF a refl] by blast
qed

lemma create_hold_body_ok:
  assumes inv: "ledger_inv d" and b: "create_hold_body H uuidString evID wall dl h d = Inr (x, e)" and act: "h_Status h = HoldActive"
  shows "body_ok (h_TenantID h) d e"
proof (cases "lookupHoldTx (h_TenantID h) (h_IdempotencyKey h) dl")
  case (Some a)
  then show ?thesis using b body_ok_refl [OF inv] by (auto simp: create_hold_body_def Let_def bindE_Inr_iff)
next
  case None
  from b None show ?thesis
  proof (cases rule: create_hold_body_steps)
    case (1 a h' d1 d2 ev)
    let ?tn = "h_TenantID h" and ?r = "hold_row h' (holdFingerprint H uuidString h)"
    have acc: "tenant_account d ?tn (h_AccountID h)"
      using 1(1) by (auto simp: tenant_account_def find_account_def dest!: find_Some_filter)
    have h': "h_AccountID h' = h_AccountID h" "h_TenantID h' = ?tn" "h_Amount h' = h_Amount h" "h_Status h' = HoldActive"
      using act by (simp_all add: 1(2))
    have d1: "d1 = d\<lparr>db_holds := db_holds d @ [?r]\<rparr>"
      using 1(5) by (auto simp: insert_hold_def Let_def split: if_splits)
    have s1: "session ?tn d d1"
      by (rule session_insert_hold [OF inv_session [OF inv] 1(5)]) (use acc h' in \<open>simp add: hold_row_def\<close>)
    note up = upsertHeld_effect [OF 1(6)]
    have s2: "session ?tn d d2"
      using 1(6) unfolding upsertHeld_def
      by (rule session_upsert_balance [OF s1]) (use acc h' in \<open>simp_all add: d1 tenant_account_def\<close>)
    have same1: "same_core d d1" "stored d1 k = stored d k" "held d1 = held d" for k
      by (auto simp: d1 same_core_def intro!: stored_same held_same)
    have "counters_ok d1" using inv same1 by (auto simp: ledger_inv_def intro: counters_core)
    then have "counters_ok d2" by (rule counters_core [OF _ other_tables_core [OF up(2)] up(1)])
    moreover have "db_holds d2 = db_holds d @ [?r]"
      using other_tables_eqD(5) [OF up(2)] by (simp add: d1)
    then have "held_ok d2"
      using inv h' by (auto simp: ledger_inv_def held_ok_def up(3) same1 hold_row_def)
    ultimately have "body_ok ?tn d d2" using s2 by (simp add: body_ok_def)
    then show ?thesis using 1(7) body_ok_outbox by blast
  qed
qed

lemma store_CreateHold_inv:
  assumes inv: "ledger_inv d" and act: "h_Status h = HoldActive"
  shows "ledger_inv (snd (store_CreateHold H uuidString evID wall dl dr h d))"
  unfolding store_CreateHold_def snd_retry
  by (rule WithTenantTx_inv [OF inv surjective_pairing]) (use create_hold_body_ok [OF inv _ act] in \<open>simp add: body_ok_def\<close>)

text \<open>Closing an active hold: the status change and the release of its amount cancel out.\<close>

lemma find_hold_unique:
  assumes "distinct (map (\<lambda>r. h_ID (hr_hold r)) (db_holds d))" and "find_hold tn i d = Some r"
  shows "h_ID (hr_hold r) = i" "h_TenantID (hr_hold r) = tn" "find (\<lambda>r. h_ID (hr_hold r) = i) (db_holds d) = Some r"
proof -
  have r: "r \<in> set (db_holds d)" "h_ID (hr_hold r) = i" "h_TenantID (hr_hold r) = tn"
    using assms(2) by (auto simp: find_hold_def dest!: find_Some_filter)
  then show "h_ID (hr_hold r) = i" "h_TenantID (hr_hold r) = tn" by auto
  show "find (\<lambda>r. h_ID (hr_hold r) = i) (db_holds d) = Some r"
    using find_distinct [OF assms(1) r(1)] r(2) by simp
qed

lemma body_ok_close_hold:
  assumes inv: "ledger_inv d" and r: "find_hold tn i d = Some r" and act: "h_Status (hr_hold r) = HoldActive"
    and u: "update_hold tn i f d = Inr d1" and f: "keeps_hold f" and closed: "\<And>h. h_Status (f h) \<noteq> HoldActive"
    and rel: "releaseHeld tn (hr_hold r) d1 = Inr d2"
  shows "body_ok tn d d2"
proof -
  let ?g = "\<lambda>x. x\<lparr>hr_hold := f (hr_hold x)\<rparr>"
  have s: "session tn d d" by (rule inv_session [OF inv])
  have d1: "d1 = d\<lparr>db_holds := update_rows (\<lambda>x. h_ID (hr_hold x) = i) ?g (db_holds d)\<rparr>"
    using r u by (auto simp: update_hold_def split: if_splits)
  have s1: "session tn d d1" by (rule session_update_hold [OF s u f])
  note rl = releaseHeld_effect [OF rel]
  have same1: "same_core d d1" "stored d1 k = stored d k" "held d1 = held d" for k
    by (auto simp: d1 same_core_def intro!: stored_same held_same)
  have "counters_ok d1" using inv same1 by (auto simp: ledger_inv_def intro: counters_core)
  then have "counters_ok d2" by (rule counters_core [OF _ other_tables_core [OF rl(2)] rl(1)])
  moreover have "active_held (db_holds d1) acc asset = active_held (db_holds d) acc asset
      - (if h_AccountID (hr_hold r) = acc \<and> Asset (h_Amount (hr_hold r)) = asset then sint (Units (h_Amount (hr_hold r))) else 0)" for acc asset
    using sum_list_update_rows [OF session_distinct(2) [OF s] find_hold_unique(3) [OF session_distinct(2) [OF s] r],
        of "\<lambda>r. if h_Status (hr_hold r) = HoldActive \<and> h_AccountID (hr_hold r) = acc
          \<and> Asset (h_Amount (hr_hold r)) = asset then sint (Units (h_Amount (hr_hold r))) else 0" ?g] act closed
    by (simp add: active_held_def d1)
  then have "held_ok d2"
    using inv by (simp add: ledger_inv_def held_ok_def rl(3) same1 other_tables_eqD(5) [OF rl(2)])
  ultimately show ?thesis using rl(4) [OF s1] by (simp add: body_ok_def)
qed

lemma set_closed [simp]: "h_Status (set_captured x h) \<noteq> HoldActive" "h_Status (set_released h) \<noteq> HoldActive"
  by (simp_all add: set_captured_def set_released_def)

lemma getHoldTx_Inr: "getHoldTx tn i d = Inr h \<longleftrightarrow> (\<exists>r. find_hold tn i d = Some r \<and> h = hr_hold r)"
  by (auto simp: getHoldTx_def split: option.splits)

lemma store_CaptureHold_inv:
  assumes inv: "ledger_inv d"
  shows "ledger_inv (snd (store_CaptureHold evID wall tn i amount txid now d))"
  unfolding store_CaptureHold_def map_res_snd
proof (rule WithTenantTx_inv [OF inv surjective_pairing], goal_cases)
  case (1 x e)
  then obtain r d1 d2 topic tn' ev where "find_hold tn i d = Some r" "h_Status (hr_hold r) = HoldActive"
    "update_hold tn i (set_captured txid) d = Inr d1" "releaseHeld tn (hr_hold r) d1 = Inr d2"
    "insertOutbox evID wall tn topic tn' ev d2 = Inr e"
    by (auto simp: bindE_Inr_iff getHoldTx_Inr split: if_splits)
  then have "body_ok tn d e"
    using body_ok_close_hold [OF inv] body_ok_outbox by (metis keeps_hold_changes(1) set_closed(1))
  then show ?case by (simp add: body_ok_def)
qed

lemma store_ReleaseHold_inv:
  assumes inv: "ledger_inv d"
  shows "ledger_inv (snd (store_ReleaseHold evID wall tn i now d))"
  unfolding store_ReleaseHold_def map_res_snd
proof (rule WithTenantTx_inv [OF inv surjective_pairing], goal_cases)
  case (1 x e)
  then obtain r d1 d2 topic tn' ev where "find_hold tn i d = Some r" "h_Status (hr_hold r) = HoldActive"
    "update_hold tn i set_released d = Inr d1" "releaseHeld tn (hr_hold r) d1 = Inr d2"
    "insertOutbox evID wall tn topic tn' ev d2 = Inr e"
    by (auto simp: bindE_Inr_iff getHoldTx_Inr split: if_splits)
  then have "body_ok tn d e"
    using body_ok_close_hold [OF inv] body_ok_outbox by (metis keeps_hold_changes(2) set_closed(2))
  then show ?case by (simp add: body_ok_def)
qed

end
