(* ===== verification/Ledger_Service.thy ===== *)
theory Ledger_Service
  imports Ledger_Integrity
begin

text \<open>
  The use cases of \<open>services/ledger-core/internal/app/service.go\<close> over the store, the sandbox purge
  (\<open>natsconsumer/purge.go\<close> and migration 0007), and the transition system they generate: any
  sequence of requests, of any tenants, with arbitrary inputs, environments and stale lookups.
\<close>

section \<open>Use cases\<close>

text \<open>
  What a request reads from its environment: the hash and the UUID text (see \<open>Ledger_Store\<close>), the
  identifiers the generator yields (\<^const>\<open>None\<close> for a failure), the one of the event envelope,
  the service clock and the clock of the envelope.
\<close>

record Env =
  ev_H :: "canon \<Rightarrow> bytes"
  ev_uuidString :: "uuid \<Rightarrow> string"
  ev_newV7 :: "nat \<Rightarrow> uuid option"
  ev_eventID :: "uuid option"
  ev_now :: timestamp
  ev_wall :: timestamp

definition newID :: "Env \<Rightarrow> nat \<Rightarrow> error + uuid" where
  "newID env n = (case ev_newV7 env n of None \<Rightarrow> Inl ErrGenerateID | Some i \<Rightarrow> Inr i)"

record CreateLedgerInput =
  cli_Name :: string
  cli_Description :: string
  cli_Environment :: string
  cli_Metadata :: metadata

definition CreateLedger :: "Env \<Rightarrow> uuid \<Rightarrow> CreateLedgerInput \<Rightarrow> Db \<Rightarrow> (error + Ledger) \<times> Db" where
  "CreateLedger env tenantID req d =
     (if cli_Name req = '''' \<or> length (cli_Name req) > 255 then (Inl ErrValidation, d)
      else case newID env 0 of
        Inl e \<Rightarrow> (Inl e, d)
      | Inr i \<Rightarrow>
        (let l = \<lparr>l_ID = i, l_TenantID = tenantID, l_Name = cli_Name req, l_Description = cli_Description req,
                  l_Environment = cli_Environment req, l_Metadata = cli_Metadata req, l_CreatedAt = ev_now env\<rparr>
         in case store_CreateLedger l d of
              (Inl e, d') \<Rightarrow> (Inl e, d')
            | (Inr _, d') \<Rightarrow> (Inr l, d')))"

record CreateAccountInput =
  cai_LedgerID :: uuid
  cai_Name :: string
  cai_Type :: string
  cai_NormalBalance :: string
  cai_Metadata :: metadata

definition CreateAccount :: "Env \<Rightarrow> uuid \<Rightarrow> CreateAccountInput \<Rightarrow> Db \<Rightarrow> (error + Account) \<times> Db" where
  "CreateAccount env tenantID req d =
     (if cai_Name req = '''' \<or> length (cai_Name req) > 255 then (Inl ErrValidation, d)
      else if \<not> AccountType_Valid (cai_Type req) then (Inl ErrValidation, d)
      else if \<not> NormalBalance_Valid (cai_NormalBalance req) then (Inl ErrValidation, d)
      else if cai_LedgerID req = uuid_Nil then (Inl ErrValidation, d)
      else case newID env 0 of
        Inl e \<Rightarrow> (Inl e, d)
      | Inr i \<Rightarrow>
        (let a = \<lparr>a_ID = i, a_TenantID = tenantID, a_LedgerID = cai_LedgerID req, a_Name = cai_Name req,
                  a_Path = cai_Name req, a_Type = cai_Type req, a_NormalBalance = cai_NormalBalance req,
                  a_Status = ''active'', a_Metadata = cai_Metadata req, a_CreatedAt = ev_now env\<rparr>
         in case store_CreateAccount a d of
              (Inl e, d') \<Rightarrow> (Inl e, d')
            | (Inr _, d') \<Rightarrow> (Inr a, d')))"

record PostingInput =
  pin_AccountID :: uuid
  pin_Direction :: string
  pin_Amount :: Amount

record CreateTransactionInput =
  cti_LedgerID :: uuid
  cti_IdempotencyKey :: string
  cti_Reference :: string
  cti_Description :: string
  cti_Status :: string
  cti_EffectiveAt :: "timestamp option"
  cti_Metadata :: metadata
  cti_Postings :: "PostingInput list"

fun make_postings :: "Env \<Rightarrow> nat \<Rightarrow> PostingInput list \<Rightarrow> error + Posting list" where
  "make_postings env n [] = Inr []"
| "make_postings env n (p # ps) =
     bindE (newID env n) (\<lambda>pid. bindE (make_postings env (Suc n) ps) (\<lambda>qs.
       Inr (\<lparr>p_ID = pid, p_AccountID = pin_AccountID p, p_Direction = pin_Direction p, p_Amount = pin_Amount p\<rparr> # qs)))"

definition build_transaction :: "Env \<Rightarrow> uuid \<Rightarrow> CreateTransactionInput \<Rightarrow> error + Transaction" where
  "build_transaction env tenantID req =
     (if cti_IdempotencyKey req = '''' \<or> length (cti_IdempotencyKey req) > 255 then Inl ErrValidation
      else if cti_LedgerID req = uuid_Nil then Inl ErrValidation
      else let status = (if cti_Status req = '''' then TransactionPosted else cti_Status req) in
        if status \<noteq> TransactionDraft \<and> status \<noteq> TransactionPosted then Inl ErrValidation
        else if length (cti_Postings req) > 1000 then Inl ErrValidation
        else
          bindE (newID env 0) (\<lambda>i.
          bindE (make_postings env 1 (cti_Postings req)) (\<lambda>ps.
          bindE (ValidateBalanced ps) (\<lambda>_. Inr
            \<lparr>t_ID = i, t_TenantID = tenantID, t_LedgerID = cti_LedgerID req, t_Reference = cti_Reference req,
             t_Description = cti_Description req, t_IdempotencyKey = cti_IdempotencyKey req, t_Status = status,
             t_EffectiveAt = (case cti_EffectiveAt req of Some x \<Rightarrow> x | None \<Rightarrow> ev_now env),
             t_EffectiveAtProvided = (cti_EffectiveAt req \<noteq> None),
             t_PostedAt = (if status = TransactionPosted then Some (ev_now env) else None),
             t_ReversedByID = None, t_ReversesID = None, t_Metadata = cti_Metadata req, t_Postings = ps,
             t_CreatedAt = ev_now env\<rparr>))))"

definition CreateTransaction ::
  "Env \<Rightarrow> Db \<Rightarrow> Db \<Rightarrow> uuid \<Rightarrow> CreateTransactionInput \<Rightarrow> Db \<Rightarrow> (error + Transaction \<times> bool) \<times> Db" where
  "CreateTransaction env dl dr tenantID req d =
     (case build_transaction env tenantID req of
        Inl e \<Rightarrow> (Inl e, d)
      | Inr t \<Rightarrow> store_CreateTransaction (ev_H env) (ev_uuidString env) (ev_eventID env) (ev_wall env) dl dr t d)"

definition PostTransaction :: "Env \<Rightarrow> uuid \<Rightarrow> uuid \<Rightarrow> Db \<Rightarrow> (error + Transaction) \<times> Db" where
  "PostTransaction env tenantID i d = store_PostTransaction (ev_eventID env) (ev_wall env) tenantID i (ev_now env) d"

definition ReverseTransaction ::
  "Env \<Rightarrow> Db \<Rightarrow> Db \<Rightarrow> uuid \<Rightarrow> uuid \<Rightarrow> string \<Rightarrow> string \<Rightarrow> Db \<Rightarrow> (error + Transaction \<times> bool) \<times> Db" where
  "ReverseTransaction env dl dr tenantID i idempotencyKey reason d =
     (if length idempotencyKey > 255 then (Inl ErrValidation, d)
      else if length reason > 1024 then (Inl ErrValidation, d)
      else store_ReverseTransaction (ev_H env) (ev_uuidString env) (ev_newV7 env) (ev_eventID env) (ev_wall env)
             dl dr tenantID i idempotencyKey reason (ev_now env) d)"

definition DefaultHoldTTL :: int where
  "DefaultHoldTTL = 7 * 24 * 3600 * 10 ^ 9"

record CreateHoldInput =
  chi_AccountID :: uuid
  chi_LedgerID :: uuid
  chi_IdempotencyKey :: string
  chi_Amount :: Amount
  chi_ExpiresAt :: "timestamp option"
  chi_Metadata :: metadata

definition build_hold :: "Env \<Rightarrow> uuid \<Rightarrow> CreateHoldInput \<Rightarrow> error + Hold" where
  "build_hold env tenantID req =
     (if chi_IdempotencyKey req = '''' \<or> length (chi_IdempotencyKey req) > 255 then Inl ErrValidation
      else if chi_AccountID req = uuid_Nil then Inl ErrValidation
      else if isl (ValidateAssetCode (Asset (chi_Amount req))) then Inl ErrValidation
      else if sint (Units (chi_Amount req)) \<le> 0 then Inl ErrValidation
      else if (case chi_ExpiresAt req of None \<Rightarrow> False | Some x \<Rightarrow> \<not> x > ev_now env) then Inl ErrValidation
      else bindE (newID env 0) (\<lambda>i. Inr
        \<lparr>h_ID = i, h_TenantID = tenantID, h_LedgerID = chi_LedgerID req, h_AccountID = chi_AccountID req,
         h_IdempotencyKey = chi_IdempotencyKey req, h_Amount = chi_Amount req, h_Status = HoldActive,
         h_ExpiresAt = (case chi_ExpiresAt req of None \<Rightarrow> ev_now env + DefaultHoldTTL | Some x \<Rightarrow> x),
         h_ExpiresAtProvided = (chi_ExpiresAt req \<noteq> None), h_CapturedTransactionID = None,
         h_Metadata = chi_Metadata req, h_CreatedAt = ev_now env\<rparr>))"

definition CreateHold :: "Env \<Rightarrow> Db \<Rightarrow> Db \<Rightarrow> uuid \<Rightarrow> CreateHoldInput \<Rightarrow> Db \<Rightarrow> (error + Hold \<times> bool) \<times> Db" where
  "CreateHold env dl dr tenantID req d =
     (case build_hold env tenantID req of
        Inl e \<Rightarrow> (Inl e, d)
      | Inr h \<Rightarrow> store_CreateHold (ev_H env) (ev_uuidString env) (ev_eventID env) (ev_wall env) dl dr h d)"

definition CaptureHold ::
  "Env \<Rightarrow> uuid \<Rightarrow> uuid \<Rightarrow> Amount option \<Rightarrow> uuid option \<Rightarrow> Db \<Rightarrow> (error + Hold) \<times> Db" where
  "CaptureHold env tenantID i amount transactionID d =
     (if (case amount of None \<Rightarrow> False
          | Some a \<Rightarrow> isl (ValidateAssetCode (Asset a)) \<or> sint (Units a) \<le> 0) then (Inl ErrValidation, d)
      else store_CaptureHold (ev_eventID env) (ev_wall env) tenantID i amount transactionID (ev_now env) d)"

definition ReleaseHold :: "Env \<Rightarrow> uuid \<Rightarrow> uuid \<Rightarrow> Db \<Rightarrow> (error + Hold) \<times> Db" where
  "ReleaseHold env tenantID i d = store_ReleaseHold (ev_eventID env) (ev_wall env) tenantID i (ev_now env) d"

section \<open>Sandbox purge\<close>

definition fk_ok :: "Db \<Rightarrow> bool" where
  "fk_ok d \<longleftrightarrow>
     list_all (\<lambda>a. ledger_exists (a_LedgerID a) d) (db_accounts d)
   \<and> list_all (\<lambda>t. ledger_exists (t_LedgerID t) d \<and> fk_tx (t_ReversedByID t) (t_ID t) d \<and> fk_tx (t_ReversesID t) (t_ID t) d) (db_transactions d)
   \<and> list_all (\<lambda>p. tx_exists (pr_tx p) d \<and> account_exists (pr_account p) d) (db_postings d)
   \<and> list_all (\<lambda>b. account_exists (br_account b) d) (db_balances d)
   \<and> list_all (\<lambda>r. ledger_exists (h_LedgerID (hr_hold r)) d \<and> account_exists (h_AccountID (hr_hold r)) d
        \<and> (case h_CapturedTransactionID (hr_hold r) of None \<Rightarrow> True | Some x \<Rightarrow> tx_exists x d)) (db_holds d)"

definition delete_tenant :: "uuid \<Rightarrow> Db \<Rightarrow> Db" where
  "delete_tenant tn d = d\<lparr>
     db_postings := filter (\<lambda>p. pr_tenant p \<noteq> tn) (db_postings d),
     db_keys := filter (\<lambda>r. ir_tenant r \<noteq> tn) (db_keys d),
     db_holds := filter (\<lambda>r. h_TenantID (hr_hold r) \<noteq> tn) (db_holds d),
     db_balances := filter (\<lambda>b. br_tenant b \<noteq> tn) (db_balances d),
     db_transactions := filter (\<lambda>t. t_TenantID t \<noteq> tn) (db_transactions d),
     db_accounts := filter (\<lambda>a. a_TenantID a \<noteq> tn) (db_accounts d),
     db_ledgers := filter (\<lambda>l. l_TenantID l \<noteq> tn) (db_ledgers d),
     db_outbox := filter (\<lambda>o'. or_tenant o' \<noteq> tn) (db_outbox d)\<rparr>"

definition row_count :: "Db \<Rightarrow> nat" where
  "row_count d = length (db_postings d) + length (db_keys d) + length (db_holds d) + length (db_balances d)
     + length (db_transactions d) + length (db_accounts d) + length (db_ledgers d) + length (db_outbox d)"

definition purge_expired_sandbox_tenant :: "uuid \<Rightarrow> Db \<Rightarrow> error + nat \<times> Db" where
  "purge_expired_sandbox_tenant tn d =
     (if list_ex (\<lambda>l. l_TenantID l = tn \<and> l_Environment l = ''live'') (db_ledgers d) then Inl (PgError RaisedException)
      else if \<not> fk_ok (delete_tenant tn d) then Inl (PgError ForeignKeyViolation)
      else Inr (row_count d - row_count (delete_tenant tn d), delete_tenant tn d))"

definition PurgeTenant :: "uuid \<Rightarrow> Db \<Rightarrow> (error + nat) \<times> Db" where
  "PurgeTenant tenantID d = WithTenantTx tenantID (purge_expired_sandbox_tenant tenantID) d"

section \<open>The transition system\<close>

inductive ledger_step :: "Db \<Rightarrow> Db \<Rightarrow> bool" where
  create_ledger: "ledger_step d (snd (CreateLedger env tn lreq d))"
| create_account: "ledger_step d (snd (CreateAccount env tn areq d))"
| create_transaction: "ledger_step d (snd (CreateTransaction env dl dr tn treq d))"
| post_transaction: "ledger_step d (snd (PostTransaction env tn i d))"
| reverse_transaction: "ledger_step d (snd (ReverseTransaction env dl dr tn i key reason d))"
| create_hold: "ledger_step d (snd (CreateHold env dl dr tn hreq d))"
| capture_hold: "ledger_step d (snd (CaptureHold env tn i amount txid d))"
| release_hold: "ledger_step d (snd (ReleaseHold env tn i d))"
| purge: "ledger_step d (snd (PurgeTenant tn d))"

lemma build_transaction_Inr:
  "build_transaction env tn req = Inr t \<Longrightarrow>
     t_TenantID t = tn \<and> (t_Status t = TransactionDraft \<or> t_Status t = TransactionPosted) \<and> ValidateBalanced (t_Postings t) = Inr ()
     \<and> t_ReversesID t = None \<and> t_ReversedByID t = None \<and> (t_PostedAt t = None \<longleftrightarrow> t_Status t = TransactionDraft)
     \<and> t_IdempotencyKey t = cti_IdempotencyKey req \<and> t_LedgerID t = cti_LedgerID req"
  unfolding build_transaction_def by (auto simp: Let_def bindE_Inr_iff split: if_splits)

lemma build_hold_Inr:
  "build_hold env tn req = Inr h \<Longrightarrow>
     h_TenantID h = tn \<and> h_Status h = HoldActive \<and> 0 < sint (Units (h_Amount h)) \<and> h_Amount h = chi_Amount req
     \<and> h_AccountID h = chi_AccountID req \<and> h_IdempotencyKey h = chi_IdempotencyKey req \<and> h_LedgerID h = chi_LedgerID req"
  unfolding build_hold_def by (auto simp: bindE_Inr_iff split: if_splits)

lemma struct_delete_tenant:
  assumes so: "struct_ok d"
  shows "struct_ok (delete_tenant tn d)"
proof -
  let ?d = "delete_tenant tn d"
  have acc: "tenant_account ?d tn' acc" if "tenant_account d tn' acc" "tn' \<noteq> tn" for tn' acc
    using that by (auto simp: tenant_account_def delete_tenant_def)
  have "posting_linked ?d p" if "posting_linked d p" "pr_tenant p \<noteq> tn" for p
    using that unfolding posting_linked_def by (fastforce simp: delete_tenant_def)
  moreover have "balance_linked ?d r" if "balance_linked d r" "br_tenant r \<noteq> tn" for r
    using that acc by (simp add: balance_linked_def)
  moreover have "hold_linked ?d r" if "hold_linked d r" "h_TenantID (hr_hold r) \<noteq> tn" for r
    using that acc by (simp add: hold_linked_def)
  moreover have "ids_ok ?d"
    using so by (simp add: struct_ok_def ids_ok_def delete_tenant_def distinct_map_filter)
  ultimately show ?thesis
    using so by (auto simp: struct_ok_def) (auto simp: delete_tenant_def)
qed

lemma find_filter_all: "(\<And>x. x \<in> set xs \<Longrightarrow> P x \<Longrightarrow> Q x) \<Longrightarrow> find P (filter Q xs) = find P xs"
  by (induction xs) auto

lemma find_filter_none: "(\<And>x. x \<in> set xs \<Longrightarrow> P x \<Longrightarrow> \<not> Q x) \<Longrightarrow> find P (filter Q xs) = None"
  by (auto simp: find_None_iff)

lemma tenant_account_unique: "struct_ok d \<Longrightarrow> tenant_account d tn acc \<Longrightarrow> tenant_account d tn' acc \<Longrightarrow> tn = tn'"
  unfolding tenant_account_def struct_ok_def ids_ok_def by (metis distinct_map inj_onD)

lemma account_rows_tenant:
  assumes "struct_ok d"
  shows "p \<in> set (db_postings d) \<Longrightarrow> tenant_account d (pr_tenant p) (pr_account p)"
    and "b \<in> set (db_balances d) \<Longrightarrow> tenant_account d (br_tenant b) (br_account b)"
    and "r \<in> set (db_holds d) \<Longrightarrow> tenant_account d (h_TenantID (hr_hold r)) (h_AccountID (hr_hold r))"
proof -
  show "tenant_account d (pr_tenant p) (pr_account p)" if "p \<in> set (db_postings d)"
  proof -
    have "posting_linked d p" using assms that by (simp add: struct_ok_def)
    then show ?thesis by (auto simp: posting_linked_def tenant_account_def)
  qed
  show "b \<in> set (db_balances d) \<Longrightarrow> tenant_account d (br_tenant b) (br_account b)"
    using assms by (simp add: struct_ok_def balance_linked_def)
  show "r \<in> set (db_holds d) \<Longrightarrow> tenant_account d (h_TenantID (hr_hold r)) (h_AccountID (hr_hold r))"
    using assms by (simp add: struct_ok_def hold_linked_def)
qed

lemma posting_tx_tenant:
  assumes "struct_ok d" and "p \<in> set (db_postings d)" and "t \<in> set (db_transactions d)" and "t_ID t = pr_tx p"
  shows "t_TenantID t = pr_tenant p"
proof -
  have "posting_linked d p" using assms by (simp add: struct_ok_def)
  then obtain x where "x \<in> set (db_transactions d)" "t_ID x = pr_tx p" "t_TenantID x = pr_tenant p"
    unfolding posting_linked_def by blast
  moreover have "distinct (map t_ID (db_transactions d))" using assms by (simp add: struct_ok_def ids_ok_def)
  ultimately show ?thesis using assms(3,4) by (metis distinct_map inj_onD)
qed

text \<open>On accounts of the purged tenant everything is gone, on the others nothing has changed.\<close>

lemma purge_balance:
  assumes so: "struct_ok d"
  shows "find_balance acc asset (delete_tenant tn d) = (if tenant_account d tn acc then None else find_balance acc asset d)"
proof (cases "tenant_account d tn acc")
  case True
  then have "br_tenant b = tn" if "b \<in> set (db_balances d)" "br_account b = acc" for b
    using account_rows_tenant(2) [OF so that(1)] that(2) tenant_account_unique [OF so] by metis
  then show ?thesis using True
    unfolding find_balance_def by (auto simp: delete_tenant_def intro: find_filter_none)
next
  case False
  then have "br_tenant b \<noteq> tn" if "b \<in> set (db_balances d)" "br_account b = acc" for b
    using account_rows_tenant(2) [OF so that(1)] that(2) by auto
  then show ?thesis using False
    unfolding find_balance_def by (auto simp: delete_tenant_def intro: find_filter_all)
qed

lemma purge_computed:
  assumes so: "struct_ok d"
  shows "computed (delete_tenant tn d) (c, acc, asset) = (if tenant_account d tn acc then 0 else computed d (c, acc, asset))"
proof -
  let ?d = "delete_tenant tn d"
  have st: "tx_status ?d (pr_tx p) = tx_status d (pr_tx p)" if "p \<in> set (db_postings d)" "pr_tenant p \<noteq> tn" for p
    using that posting_tx_tenant [OF so that(1)]
    unfolding tx_status_def by (auto simp: delete_tenant_def find_filter_all)
  have owner: "tenant_account d tn acc \<longleftrightarrow> pr_tenant p = tn" if "p \<in> set (db_postings d)" "pr_account p = acc" for p
    using account_rows_tenant(1) [OF so that(1)] that(2) tenant_account_unique [OF so] by metis
  have filt: "row_sum P (filter Q ps) = row_sum (\<lambda>p. P p \<and> Q p) ps" for P Q ps
    by (induction ps) auto
  have none: "row_sum (\<lambda>p. False) ps = 0" for ps by (induction ps) auto
  have post: "db_postings ?d = filter (\<lambda>p. pr_tenant p \<noteq> tn) (db_postings d)" by (simp add: delete_tenant_def)
  show ?thesis
  proof (cases "tenant_account d tn acc")
    case True
    then have "computed ?d (c, acc, asset) = row_sum (\<lambda>p. False) (db_postings d)"
      unfolding computed.simps post filt using owner by (intro row_sum_cong) blast
    with True none show ?thesis by simp
  next
    case False
    then have "computed ?d (c, acc, asset) = computed d (c, acc, asset)"
      unfolding computed.simps post filt using owner st by (intro row_sum_cong) metis
    with False show ?thesis by simp
  qed
qed

lemma purge_active_held:
  assumes so: "struct_ok d"
  shows "active_held (db_holds (delete_tenant tn d)) acc asset = (if tenant_account d tn acc then 0 else active_held (db_holds d) acc asset)"
proof -
  have owner: "tenant_account d tn acc \<longleftrightarrow> h_TenantID (hr_hold r) = tn" if "r \<in> set (db_holds d)" "h_AccountID (hr_hold r) = acc" for r
    using account_rows_tenant(3) [OF so that(1)] that(2) tenant_account_unique [OF so] by metis
  have "active_held (filter (\<lambda>r. h_TenantID (hr_hold r) \<noteq> tn) rs) acc asset = (if tenant_account d tn acc then 0 else active_held rs acc asset)"
    if "set rs \<subseteq> set (db_holds d)" for rs
    using that by (induction rs) (use owner in \<open>auto simp: active_held_def\<close>)
  then show ?thesis by (simp add: delete_tenant_def)
qed

lemma PurgeTenant_inv:
  assumes inv: "ledger_inv d"
  shows "ledger_inv (snd (PurgeTenant tn d))"
proof -
  let ?d = "delete_tenant tn d"
  have so: "struct_ok d" using inv by (simp add: ledger_inv_def)
  have "stored ?d k = computed ?d k" for k
  proof -
    obtain c acc asset where k: "k = (c, acc, asset)" by (metis prod_cases3)
    have "stored d k = computed d k" using inv unfolding ledger_inv_def counters_ok_def by blast
    then show ?thesis
      unfolding k stored.simps purge_computed [OF so] purge_balance [OF so] by simp
  qed
  moreover have "held ?d (acc, asset) = active_held (db_holds ?d) acc asset" for acc asset
  proof -
    have "held d (acc, asset) = active_held (db_holds d) acc asset" using inv unfolding ledger_inv_def held_ok_def by blast
    then show ?thesis unfolding held_def purge_active_held [OF so] by (simp add: purge_balance [OF so])
  qed
  moreover have "tx_rows (t_ID t) ?d = tx_rows (t_ID t) d" if "t \<in> set (db_transactions ?d)" for t
    using posting_tx_tenant [OF so] that
    by (auto simp: tx_rows_def delete_tenant_def intro!: filter_cong)
  then have "double_entry ?d"
    using inv unfolding ledger_inv_def double_entry_def by (auto simp: delete_tenant_def)
  ultimately have "ledger_inv ?d"
    using inv struct_delete_tenant [OF so] by (simp add: ledger_inv_def counters_ok_def held_ok_def delete_tenant_def)
  moreover have "snd (PurgeTenant tn d) = d \<or> snd (PurgeTenant tn d) = ?d"
  proof -
    have "db_deferred d = []" using inv by (simp add: ledger_inv_def)
    then show ?thesis
      by (rule WithTenantTx_cases [OF surjective_pairing [of "WithTenantTx tn (purge_expired_sandbox_tenant tn) d"]])
        (auto simp: PurgeTenant_def purge_expired_sandbox_tenant_def delete_tenant_def \<open>db_deferred d = []\<close> split: if_splits)
  qed
  ultimately show ?thesis using inv by auto
qed

lemma ledger_step_inv: "ledger_step d d' \<Longrightarrow> ledger_inv d \<Longrightarrow> ledger_inv d'"
proof (induction rule: ledger_step.induct)
  case (create_ledger d env tn lreq)
  then show ?case using store_CreateLedger_inv [OF create_ledger]
    by (auto simp: CreateLedger_def Let_def split: sum.splits prod.splits) (metis snd_conv)+
next
  case (create_account d env tn areq)
  then show ?case using store_CreateAccount_inv [OF create_account]
    by (auto simp: CreateAccount_def Let_def split: sum.splits prod.splits) (metis snd_conv)+
next
  case (create_transaction d env dl dr tn treq)
  then show ?case
    by (auto simp: CreateTransaction_def split: sum.splits dest!: build_transaction_Inr intro: store_CreateTransaction_inv)
next
  case (create_hold d env dl dr tn hreq)
  then show ?case
    by (auto simp: CreateHold_def split: sum.splits dest!: build_hold_Inr intro: store_CreateHold_inv)
qed (auto simp: PostTransaction_def ReverseTransaction_def CaptureHold_def ReleaseHold_def
  intro: store_PostTransaction_inv store_ReverseTransaction_inv store_CaptureHold_inv store_ReleaseHold_inv PurgeTenant_inv)

interpretation ledger: invariant_of empty_db ledger_step ledger_inv
  by unfold_locales (auto intro: ledger_inv_empty ledger_step_inv)

end
