(* ===== verification/Pagination.thy ===== *)
theory Pagination
  imports Prelude
begin

text \<open>
  Keyset pagination, \<open>libs/go/httpx/httpx.go\<close>: the opaque cursor over \<open>(created_at, id)\<close>, the
  page request, the window that trims a fetched slice and names the next page, and the
  keyset query every list method of the ledger store runs (\<open>cursorArgs\<close>, \<open>normalizeLimit\<close> and the
  \<open>WHERE ... ORDER BY ... LIMIT\<close> clause of \<open>store.go\<close>).

  The RFC 3339 text of an instant and the text of a UUID are parameters (\<open>timeFormat\<close>,
  \<open>timeParse\<close>, \<open>uuidString\<close>, \<open>uuidParse\<close>); unpadded URL-safe base64 is written out.
\<close>

section \<open>Base64, URL-safe alphabet without padding\<close>

definition b64_char :: "nat \<Rightarrow> char" where
  "b64_char n = (if n < 26 then char_of (65 + n) else if n < 52 then char_of (71 + n)
     else if n < 62 then char_of (n - 4) else if n = 62 then CHR ''-'' else CHR ''_'')"

definition b64_val :: "char \<Rightarrow> nat option" where
  "b64_val c = (let n = of_char c :: nat in
     if 65 \<le> n \<and> n \<le> 90 then Some (n - 65) else if 97 \<le> n \<and> n \<le> 122 then Some (n - 71)
     else if 48 \<le> n \<and> n \<le> 57 then Some (n + 4) else if c = CHR ''-'' then Some 62
     else if c = CHR ''_'' then Some 63 else None)"

fun b64_sextets :: "nat list \<Rightarrow> nat list" where
  "b64_sextets [] = []"
| "b64_sextets [a] = [a div 4, (a mod 4) * 16]"
| "b64_sextets [a, b] = [a div 4, (a mod 4) * 16 + b div 16, (b mod 16) * 4]"
| "b64_sextets (a # b # c # r) = a div 4 # ((a mod 4) * 16 + b div 16) # ((b mod 16) * 4 + c div 64) # (c mod 64) # b64_sextets r"

fun b64_bytes :: "nat list \<Rightarrow> nat list option" where
  "b64_bytes [] = Some []"
| "b64_bytes [p] = None"
| "b64_bytes [p, q] = Some [p * 4 + q div 16]"
| "b64_bytes [p, q, r] = Some [p * 4 + q div 16, (q mod 16) * 16 + r div 4]"
| "b64_bytes (p # q # r # s # x) = map_option (\<lambda>bs. (p * 4 + q div 16) # ((q mod 16) * 16 + r div 4) # ((r mod 4) * 64 + s) # bs) (b64_bytes x)"

definition b64_encode :: "string \<Rightarrow> string" where
  "b64_encode s = map b64_char (b64_sextets (map of_char s))"

text \<open>The decoder skips line breaks and refuses any other character outside the alphabet.\<close>

definition b64_decode :: "string \<Rightarrow> string option" where
  "b64_decode s = (let vs = map b64_val (filter (\<lambda>c. c \<noteq> CHR 0x0A \<and> c \<noteq> CHR 0x0D) s) in
     if None \<in> set vs then None else map_option (map char_of) (b64_bytes (map the vs)))"

lemma b64_bytes_sextets: "list_all (\<lambda>n. n < 256) bs \<Longrightarrow> b64_bytes (b64_sextets bs) = Some bs"
proof (induction bs rule: b64_sextets.induct)
  case (4 a b c r)
  have "(a mod 4 * 16 + b div 16) div 16 = a mod 4" "(a mod 4 * 16 + b div 16) mod 16 = b div 16"
    "(b mod 16 * 4 + c div 64) div 4 = b mod 16" "(b mod 16 * 4 + c div 64) mod 4 = c div 64"
    using 4 by auto
  then show ?case using 4 by simp
next
  case (3 a b)
  have "(a mod 4 * 16 + b div 16) div 16 = a mod 4" "(a mod 4 * 16 + b div 16) mod 16 = b div 16"
    using 3 by auto
  then show ?case by simp
qed auto

lemma b64_sextets_small: "list_all (\<lambda>n. n < 256) bs \<Longrightarrow> list_all (\<lambda>n. n < 64) (b64_sextets bs)"
  by (induction bs rule: b64_sextets.induct) (auto simp: less_mult_imp_div_less)

lemma b64_val_char:
  assumes "n < 64"
  shows "b64_val (b64_char n) = Some n" "b64_char n \<noteq> CHR 0x0A" "b64_char n \<noteq> CHR 0x0D"
proof -
  consider "n < 26" | "26 \<le> n" "n < 52" | "52 \<le> n" "n < 62" | "n = 62" | "n = 63" using assms by linarith
  then have "of_char (b64_char n) \<noteq> (10 :: nat) \<and> of_char (b64_char n) \<noteq> (13 :: nat) \<and> b64_val (b64_char n) = Some n"
    by cases (auto simp: b64_char_def b64_val_def Let_def)
  then show "b64_val (b64_char n) = Some n" "b64_char n \<noteq> CHR 0x0A" "b64_char n \<noteq> CHR 0x0D" by auto
qed

lemma b64_roundtrip: "b64_decode (b64_encode s) = Some s"
proof -
  let ?x = "b64_sextets (map of_char s)"
  have "list_all (\<lambda>n. n < 256) (map (of_char :: char \<Rightarrow> nat) s)" by (simp add: list_all_iff nat_of_char_less_256)
  note bytes = b64_bytes_sextets [OF this] and small = b64_sextets_small [OF this]
  have "filter (\<lambda>c. c \<noteq> CHR 0x0A \<and> c \<noteq> CHR 0x0D) (b64_encode s) = b64_encode s"
    using small by (auto simp: b64_encode_def list_all_iff filter_id_conv b64_val_char)
  moreover have "map b64_val (b64_encode s) = map Some ?x"
    using small by (auto simp: b64_encode_def list_all_iff b64_val_char)
  ultimately show ?thesis
    using bytes by (simp add: b64_decode_def Let_def comp_def image_iff)
qed

section \<open>Cursors\<close>

record Cursor =
  c_CreatedAt :: timestamp
  c_ID :: uuid

definition zeroCursor :: Cursor where
  "zeroCursor = \<lparr>c_CreatedAt = zeroTime, c_ID = uuid_Nil\<rparr>"

definition Cursor_IsZero :: "Cursor \<Rightarrow> bool" where
  "Cursor_IsZero c \<longleftrightarrow> c_CreatedAt c = zeroTime \<and> c_ID c = uuid_Nil"

definition Encode :: "(timestamp \<Rightarrow> string) \<Rightarrow> (uuid \<Rightarrow> string) \<Rightarrow> Cursor \<Rightarrow> string" where
  "Encode timeFormat uuidString c = b64_encode (timeFormat (c_CreatedAt c) @ ''|'' @ uuidString (c_ID c))"

text \<open>\<open>strings.SplitN(s, "|", 2)\<close>, where it yields two parts.\<close>

definition split_bar :: "string \<Rightarrow> (string \<times> string) option" where
  "split_bar s = (if CHR ''|'' \<in> set s
     then Some (takeWhile (\<lambda>c. c \<noteq> CHR ''|'') s, tl (dropWhile (\<lambda>c. c \<noteq> CHR ''|'') s)) else None)"

datatype cursor_error = InvalidCursorEncoding | InvalidCursorFormat | InvalidCursorTimestamp | InvalidCursorID

definition DecodeCursor :: "(string \<Rightarrow> timestamp option) \<Rightarrow> (string \<Rightarrow> uuid option) \<Rightarrow> string \<Rightarrow> cursor_error + Cursor" where
  "DecodeCursor timeParse uuidParse s =
     (if s = '''' then Inr zeroCursor
      else case b64_decode s of
        None \<Rightarrow> Inl InvalidCursorEncoding
      | Some raw \<Rightarrow>
        (case split_bar raw of
           None \<Rightarrow> Inl InvalidCursorFormat
         | Some (p0, p1) \<Rightarrow>
           (case timeParse p0 of
              None \<Rightarrow> Inl InvalidCursorTimestamp
            | Some ts \<Rightarrow>
              (case uuidParse p1 of
                 None \<Rightarrow> Inl InvalidCursorID
               | Some i \<Rightarrow> Inr \<lparr>c_CreatedAt = ts, c_ID = i\<rparr>))))"

section \<open>Page requests and windows\<close>

definition DefaultLimit :: int where "DefaultLimit = 50"

definition MaxLimit :: int where "MaxLimit = 200"

record PageRequest =
  pg_Limit :: int
  pg_Cursor :: Cursor

definition FetchLimit :: "PageRequest \<Rightarrow> int" where
  "FetchLimit p = pg_Limit p + 1"

datatype page_error = CodeValidationFailed | CodeInvalidCursor

text \<open>\<open>ParsePage\<close> on the two query parameters; an absent parameter is the empty string.\<close>

definition ParsePage ::
  "(string \<Rightarrow> timestamp option) \<Rightarrow> (string \<Rightarrow> uuid option) \<Rightarrow> string \<Rightarrow> string \<Rightarrow> page_error + PageRequest" where
  "ParsePage timeParse uuidParse rawLimit rawCursor =
     bindE (if rawLimit = '''' then Inr DefaultLimit
            else case ParseInt rawLimit of
              None \<Rightarrow> Inl CodeValidationFailed
            | Some n \<Rightarrow> if sint n < 1 then Inl CodeValidationFailed
                        else Inr (if sint n > MaxLimit then MaxLimit else sint n)) (\<lambda>limit.
     case DecodeCursor timeParse uuidParse rawCursor of
       Inl _ \<Rightarrow> Inl CodeInvalidCursor
     | Inr c \<Rightarrow> Inr \<lparr>pg_Limit = limit, pg_Cursor = c\<rparr>)"

definition Window :: "(Cursor \<Rightarrow> string) \<Rightarrow> 'a list \<Rightarrow> nat \<Rightarrow> ('a \<Rightarrow> Cursor) \<Rightarrow> 'a list \<times> string option" where
  "Window enc items limit keyOf =
     (if length items \<le> limit then (items, None)
      else (take limit items, Some (enc (keyOf (last (take limit items))))))"

section \<open>Keyset queries\<close>

definition normalizeLimit :: "int \<Rightarrow> int" where
  "normalizeLimit limit = (if limit \<le> 0 then DefaultLimit + 1 else if limit > MaxLimit + 1 then MaxLimit + 1 else limit)"

definition cursorArgs :: "Cursor \<Rightarrow> (timestamp \<times> uuid) option" where
  "cursorArgs c = (if Cursor_IsZero c then None else Some (c_CreatedAt c, c_ID c))"

text \<open>\<open>WHERE (cursor IS NULL OR key < cursor) ORDER BY key DESC LIMIT n\<close>, and its ascending counterpart.\<close>

definition keyset_desc :: "('a \<Rightarrow> timestamp \<times> uuid) \<Rightarrow> Cursor \<Rightarrow> int \<Rightarrow> 'a list \<Rightarrow> 'a list" where
  "keyset_desc key cursor limit rows =
     take (nat (normalizeLimit limit)) (rev (sort_key key
       (filter (\<lambda>r. case cursorArgs cursor of None \<Rightarrow> True | Some k \<Rightarrow> key r < k) rows)))"

definition keyset_asc :: "('a \<Rightarrow> timestamp \<times> uuid) \<Rightarrow> Cursor \<Rightarrow> int \<Rightarrow> 'a list \<Rightarrow> 'a list" where
  "keyset_asc key cursor limit rows =
     take (nat (normalizeLimit limit)) (sort_key key
       (filter (\<lambda>r. case cursorArgs cursor of None \<Rightarrow> True | Some k \<Rightarrow> key r > k) rows))"

text \<open>The same query with the limit passed as it is (reconciliation and webhooks).\<close>

definition keyset_page :: "('a \<Rightarrow> timestamp \<times> uuid) \<Rightarrow> Cursor \<Rightarrow> nat \<Rightarrow> 'a list \<Rightarrow> 'a list" where
  "keyset_page key cursor limit rows =
     take limit (rev (sort_key key
       (filter (\<lambda>r. case cursorArgs cursor of None \<Rightarrow> True | Some k \<Rightarrow> key r < k) rows)))"

text \<open>
  A client that follows \<open>next_cursor\<close>: each request fetches one row more than the page size,
  returns the window and, when there is one, continues from the cursor it decodes. The first
  argument bounds the number of requests.
\<close>

definition cursor_of :: "('a \<Rightarrow> timestamp \<times> uuid) \<Rightarrow> 'a \<Rightarrow> Cursor" where
  "cursor_of key r = \<lparr>c_CreatedAt = fst (key r), c_ID = snd (key r)\<rparr>"

fun walk_pages :: "nat \<Rightarrow> (Cursor \<Rightarrow> string) \<Rightarrow> (string \<Rightarrow> cursor_error + Cursor) \<Rightarrow> ('a \<Rightarrow> timestamp \<times> uuid) \<Rightarrow> nat
    \<Rightarrow> 'a list \<Rightarrow> Cursor \<Rightarrow> 'a list option" where
  "walk_pages 0 enc dec key limit rows cursor = None"
| "walk_pages (Suc fuel) enc dec key limit rows cursor =
     (let (items, next) = Window enc (keyset_desc key cursor (int limit + 1) rows) limit (cursor_of key)
      in case next of
           None \<Rightarrow> Some items
         | Some s \<Rightarrow> (case dec s of
             Inl _ \<Rightarrow> None
           | Inr c \<Rightarrow> map_option (\<lambda>rest. items @ rest) (walk_pages fuel enc dec key limit rows c)))"

lemma sort_key_distinct_strict:
  assumes "distinct (map key rows)"
  shows "sorted_wrt (<) (map key (sort_key key rows))"
proof -
  have "mset (map key (sort_key key rows)) = mset (map key rows)" by simp
  then have "distinct (map key (sort_key key rows))"
    using assms by (metis mset_eq_imp_distinct_iff)
  then show ?thesis by (simp add: strict_sorted_iff)
qed

lemma filter_split_less:
  fixes key :: "'a \<Rightarrow> 'k :: linorder"
  assumes "sorted_wrt (<) (map key (xs @ r # ys))"
  shows "filter (\<lambda>x. key x < key r) (xs @ r # ys) = xs"
  using assms by (auto simp: sorted_wrt_append filter_id_conv filter_empty_conv dest: less_asym)

text \<open>The rows after a row of the full listing are the ones its cursor selects.\<close>

lemma keyset_after:
  assumes dist: "distinct (map key rows)" and split: "rev (sort_key key rows) = ps @ r # qs"
    and nz: "\<not> Cursor_IsZero (cursor_of key r)" and limit: "1 \<le> n" "n \<le> 201"
  shows "keyset_desc key (cursor_of key r) n rows = take (nat n) qs"
proof -
  have s: "sort_key key rows = rev qs @ r # rev ps"
    using arg_cong [OF split, of rev] by simp
  have "filter (\<lambda>x. key x < key r) (sort_key key rows) = rev qs"
    unfolding s by (rule filter_split_less) (use sort_key_distinct_strict [OF dist] s in simp)
  then have "sort_key key (filter (\<lambda>x. key x < key r) rows) = rev qs"
    by (simp add: filter_sort)
  then show ?thesis
    using nz limit by (simp add: keyset_desc_def cursorArgs_def cursor_of_def normalizeLimit_def DefaultLimit_def MaxLimit_def)
qed

lemma keyset_first:
  "1 \<le> n \<Longrightarrow> n \<le> 201 \<Longrightarrow> keyset_desc key zeroCursor n rows = take (nat n) (rev (sort_key key rows))"
  by (simp add: keyset_desc_def cursorArgs_def zeroCursor_def Cursor_IsZero_def normalizeLimit_def DefaultLimit_def MaxLimit_def)

lemma walk_pages_step:
  assumes rows: "keyset_desc key cur (int limit + 1) rows = take (Suc limit) qs" and limit: "1 \<le> limit" "limit \<le> 200"
    and dist: "distinct (map key rows)" and suffix: "rev (sort_key key rows) = ps @ qs"
    and nz: "\<And>r. r \<in> set rows \<Longrightarrow> \<not> Cursor_IsZero (cursor_of key r)"
    and codec: "\<And>r. r \<in> set rows \<Longrightarrow> dec (enc (cursor_of key r)) = Inr (cursor_of key r)"
    and fuel: "length qs < fuel"
  shows "walk_pages fuel enc dec key limit rows cur = Some qs"
  using rows suffix fuel
proof (induction fuel arbitrary: cur ps qs)
  case (Suc fuel)
  show ?case
  proof (cases "length qs \<le> limit")
    case True
    then show ?thesis using Suc.prems(1) by (simp add: Window_def)
  next
    case False
    define l where "l = last (take limit qs)"
    have tk: "take limit qs = butlast (take limit qs) @ [l]"
      using False limit by (auto simp: l_def intro!: append_butlast_last_id [symmetric])
    have qs: "qs = butlast (take limit qs) @ l # drop limit qs"
      using append_take_drop_id [of limit qs] tk by (metis append_Cons append_Nil append_assoc)
    have split: "rev (sort_key key rows) = (ps @ butlast (take limit qs)) @ l # drop limit qs"
      using Suc.prems(2) qs by (metis append_assoc)
    have "l \<in> set (rev (sort_key key rows))" unfolding split by simp
    then have l: "l \<in> set rows" by simp
    have "keyset_desc key (cursor_of key l) (int limit + 1) rows = take (Suc limit) (drop limit qs)"
      using keyset_after [OF dist split nz [OF l], of "int limit + 1"] limit by (simp add: nat_add_distrib)
    moreover have "rev (sort_key key rows) = (ps @ take limit qs) @ drop limit qs"
      using Suc.prems(2) by simp
    moreover have "length (drop limit qs) < fuel" using Suc.prems(3) limit False by simp
    ultimately have "walk_pages fuel enc dec key limit rows (cursor_of key l) = Some (drop limit qs)"
      by (rule Suc.IH)
    moreover have "take limit (take (Suc limit) qs) = take limit qs" by (simp add: min_def)
    ultimately show ?thesis
      using False Suc.prems(1) codec [OF l] by (simp add: Window_def l_def [symmetric] min_def)
  qed
qed simp

section \<open>Properties\<close>

lemma split_bar_append: "CHR ''|'' \<notin> set s \<Longrightarrow> split_bar (s @ ''|'' @ t) = Some (s, t)"
proof -
  assume "CHR ''|'' \<notin> set s"
  then have "\<And>c. c \<in> set s \<Longrightarrow> c \<noteq> CHR ''|''" by auto
  then show ?thesis by (simp add: split_bar_def takeWhile_append dropWhile_append)
qed

lemma b64_encode_nonempty: "s \<noteq> [] \<Longrightarrow> b64_encode s \<noteq> []"
  using b64_roundtrip [of s] by (auto simp: b64_decode_def)

lemma decode_encode_cursor:
  assumes "timeParse (timeFormat (c_CreatedAt c)) = Some (c_CreatedAt c)"
    and "uuidParse (uuidString (c_ID c)) = Some (c_ID c)" and "CHR ''|'' \<notin> set (timeFormat (c_CreatedAt c))"
  shows "DecodeCursor timeParse uuidParse (Encode timeFormat uuidString c) = Inr c"
proof -
  have "Encode timeFormat uuidString c \<noteq> ''''"
    unfolding Encode_def by (rule b64_encode_nonempty) simp
  then show ?thesis
    using assms split_bar_append [OF assms(3), of "uuidString (c_ID c)"]
    by (simp add: DecodeCursor_def) (simp add: Encode_def b64_roundtrip)
qed

text \<open>
  C21. A client that follows \<open>next_cursor\<close> from the first page until it is absent receives exactly
  the full listing, newest first: every row once, in order, no empty last page, for every page
  size the handlers accept. The hypotheses are that the keys \<open>(created_at, id)\<close> are distinct, that
  no row has the key of the zero cursor, and that the two external text formats can be read back.
\<close>

theorem pages_cover_listing:
  assumes "distinct (map key rows)" and "\<And>r. r \<in> set rows \<Longrightarrow> key r \<noteq> (zeroTime, uuid_Nil)"
    and "\<And>t. timeParse (timeFormat t) = Some t" and "\<And>t. CHR ''|'' \<notin> set (timeFormat t)"
    and "\<And>i. uuidParse (uuidString i) = Some i"
    and "1 \<le> limit" and "limit \<le> 200" and "length rows < fuel"
  shows "walk_pages fuel (Encode timeFormat uuidString) (DecodeCursor timeParse uuidParse) key limit rows zeroCursor
    = Some (rev (sort_key key rows))"
proof (rule walk_pages_step)
  show "keyset_desc key zeroCursor (int limit + 1) rows = take (Suc limit) (rev (sort_key key rows))"
    using keyset_first [of "int limit + 1" key rows] assms(6,7) by (simp add: nat_add_distrib)
  show "rev (sort_key key rows) = [] @ rev (sort_key key rows)" by simp
  show "\<not> Cursor_IsZero (cursor_of key r)" if "r \<in> set rows" for r
    using assms(2) [OF that] by (auto simp: Cursor_IsZero_def cursor_of_def prod_eq_iff)
  show "DecodeCursor timeParse uuidParse (Encode timeFormat uuidString (cursor_of key r)) = Inr (cursor_of key r)" for r
    by (rule decode_encode_cursor) (use assms(3,4,5) in auto)
qed (use assms in auto)

text \<open>A concrete pair of readable formats: decimal nanoseconds and the decimal value of the identifier.\<close>

definition sample_timeParse :: "string \<Rightarrow> timestamp option" where
  "sample_timeParse s = (case strip_sign s of (neg, ds) \<Rightarrow> Some (if neg then - int (digits_val ds) else int (digits_val ds)))"

definition sample_uuidString :: "uuid \<Rightarrow> string" where
  "sample_uuidString i = show_nat (unat i)"

definition sample_uuidParse :: "string \<Rightarrow> uuid option" where
  "sample_uuidParse s = Some (word_of_nat (digits_val s))"

lemma sample_formats:
  "sample_timeParse (show_int t) = Some t" "CHR ''|'' \<notin> set (show_int t)" "sample_uuidParse (sample_uuidString i) = Some i"
proof -
  show "sample_timeParse (show_int t) = Some t"
    by (simp add: sample_timeParse_def show_int_def strip_sign_digits)
  have "CHR ''|'' \<notin> set (show_nat n)" for n
    using show_nat_digits [of "CHR ''|''" n] by (auto simp: is_digit_code)
  then show "CHR ''|'' \<notin> set (show_int t)" by (simp add: show_int_def)
  show "sample_uuidParse (sample_uuidString i) = Some i"
    by (simp add: sample_uuidParse_def sample_uuidString_def)
qed

theorem pages_cover_listing_witness:
  "walk_pages 4 (Encode show_int sample_uuidString) (DecodeCursor sample_timeParse sample_uuidParse) id 2
     [(5, 1), (9, 2), (5, 3)] zeroCursor = Some [(9, 2), (5, 3), (5, 1)]"
proof -
  have "walk_pages 4 (Encode show_int sample_uuidString) (DecodeCursor sample_timeParse sample_uuidParse) id 2
     [(5, 1), (9, 2), (5, 3)] zeroCursor = Some (rev (sort_key id [(5, 1), (9, 2), (5, 3)]))"
    by (rule pages_cover_listing) (auto simp: sample_formats zeroTime_def)
  then show ?thesis by simp
qed

text \<open>
  \<open>ParsePage\<close>: the request is accepted exactly when the limit is absent or a decimal \<open>int64\<close> of at
  least 1 and the cursor decodes; the accepted limit is always between 1 and \<open>MaxLimit\<close>, a larger one
  being clamped, so the store fetches at most \<open>MaxLimit + 1\<close> rows and its own clamp never changes
  the request. An absent cursor is the first page.
\<close>

theorem ParsePage_bounds:
  "(\<exists>page. ParsePage timeParse uuidParse rawLimit rawCursor = Inr page) =
     ((rawLimit = '''' \<or> (\<exists>n. ParseInt rawLimit = Some n \<and> 1 \<le> sint n)) \<and> (\<exists>c. DecodeCursor timeParse uuidParse rawCursor = Inr c))
   \<and> list_all (\<lambda>page. 1 \<le> pg_Limit page \<and> pg_Limit page \<le> MaxLimit \<and> normalizeLimit (FetchLimit page) = pg_Limit page + 1)
       (case ParsePage timeParse uuidParse rawLimit rawCursor of Inr page \<Rightarrow> [page] | Inl _ \<Rightarrow> [])
   \<and> DecodeCursor timeParse uuidParse '''' = Inr zeroCursor"
proof (cases "DecodeCursor timeParse uuidParse rawCursor")
  case (Inl e)
  then show ?thesis
    by (auto simp: ParsePage_def bindE_def DecodeCursor_def [of _ _ "''''"] split: sum.splits option.splits)
next
  case (Inr c)
  then show ?thesis
    by (auto simp: ParsePage_def bindE_def DecodeCursor_def [of _ _ "''''"] DefaultLimit_def MaxLimit_def FetchLimit_def normalizeLimit_def
        not_less split: option.splits if_splits)
qed

end
