(* ===== verification/Ledger_Reports.thy ===== *)
theory Ledger_Reports
  imports Ledger_Service Pagination Text
begin

text \<open>
  The read side of the ledger store: lists with keyset pagination, balances, the trial balance, the
  account statement, the balance verifier of migration 0006 and the provider positions. SQL sums
  are exact (\<open>NUMERIC\<close>) and fail when scanned into an \<open>int64\<close> they do not fit. The collation of the
  database is a parameter: \<open>ck s\<close> is the sort key of the text \<open>s\<close>.
\<close>

section \<open>Lists\<close>

definition read_tx :: "uuid \<Rightarrow> (Db \<Rightarrow> error + 'a) \<Rightarrow> Db \<Rightarrow> (error + 'a) \<times> Db" where
  "read_tx tn query d = WithTenantTx tn (\<lambda>d. bindE (query d) (\<lambda>x. Inr (x, d))) d"

definition store_GetLedger :: "uuid \<Rightarrow> uuid \<Rightarrow> Db \<Rightarrow> (error + Ledger) \<times> Db" where
  "store_GetLedger tn i d = read_tx tn (\<lambda>d. case find_ledger tn i d of None \<Rightarrow> Inl ErrNotFound | Some l \<Rightarrow> Inr l) d"

definition store_ListLedgers :: "uuid \<Rightarrow> Cursor \<Rightarrow> int \<Rightarrow> Db \<Rightarrow> (error + Ledger list) \<times> Db" where
  "store_ListLedgers tn cursor limit d = read_tx tn (\<lambda>d. Inr (keyset_desc (\<lambda>l. (l_CreatedAt l, l_ID l)) cursor limit
     (filter (\<lambda>l. l_TenantID l = tn) (db_ledgers d)))) d"

definition store_GetAccount :: "uuid \<Rightarrow> uuid \<Rightarrow> Db \<Rightarrow> (error + Account) \<times> Db" where
  "store_GetAccount tn i d = read_tx tn (getAccountTx tn i) d"

definition store_ListAccounts :: "uuid \<Rightarrow> uuid option \<Rightarrow> string option \<Rightarrow> Cursor \<Rightarrow> int \<Rightarrow> Db \<Rightarrow> (error + Account list) \<times> Db" where
  "store_ListAccounts tn ledgerID typ cursor limit d = read_tx tn (\<lambda>d. Inr (keyset_desc (\<lambda>a. (a_CreatedAt a, a_ID a)) cursor limit
     (filter (\<lambda>a. a_TenantID a = tn \<and> (ledgerID = None \<or> ledgerID = Some (a_LedgerID a)) \<and> (typ = None \<or> typ = Some (a_Type a)))
       (db_accounts d)))) d"

definition balance_of_row :: "BalanceRow \<Rightarrow> Balance" where
  "balance_of_row r = \<lparr>b_Asset = br_asset r, b_PostedDebits = word_of_int (br_posted_debits r),
     b_PostedCredits = word_of_int (br_posted_credits r), b_PendingDebits = word_of_int (br_pending_debits r),
     b_PendingCredits = word_of_int (br_pending_credits r), b_Held = word_of_int (br_held r), b_Version = word_of_int (br_version r)\<rparr>"

definition store_GetBalances :: "(string \<Rightarrow> string) \<Rightarrow> uuid \<Rightarrow> uuid \<Rightarrow> Db \<Rightarrow> (error + Account \<times> Balance list) \<times> Db" where
  "store_GetBalances ck tn accountID d = read_tx tn (\<lambda>d. bindE (getAccountTx tn accountID d) (\<lambda>a. Inr (a,
     map balance_of_row (sort_key (\<lambda>r. ck (br_asset r)) (filter (\<lambda>r. br_tenant r = tn \<and> br_account r = accountID) (db_balances d)))))) d"

definition entry_of_row :: "PostingRow \<Rightarrow> Entry" where
  "entry_of_row r = \<lparr>e_ID = pr_id r, e_TransactionID = pr_tx r, e_AccountID = pr_account r, e_Direction = pr_direction r,
     e_Amount = \<lparr>Asset = pr_asset r, Units = word_of_int (pr_amount r)\<rparr>, e_CreatedAt = pr_created r\<rparr>"

definition store_ListEntries :: "uuid \<Rightarrow> uuid \<Rightarrow> string \<Rightarrow> Cursor \<Rightarrow> int \<Rightarrow> Db \<Rightarrow> (error + Entry list) \<times> Db" where
  "store_ListEntries tn accountID asset cursor limit d = read_tx tn (\<lambda>d. bindE (getAccountTx tn accountID d) (\<lambda>_. Inr (
     map entry_of_row (keyset_desc (\<lambda>r. (pr_created r, pr_id r)) cursor limit
       (filter (\<lambda>r. pr_tenant r = tn \<and> pr_account r = accountID \<and> (asset = '''' \<or> pr_asset r = asset)) (db_postings d)))))) d"

definition ListEntries :: "uuid \<Rightarrow> uuid \<Rightarrow> string \<Rightarrow> Cursor \<Rightarrow> int \<Rightarrow> Db \<Rightarrow> (error + Entry list) \<times> Db" where
  "ListEntries tn accountID asset cursor limit d =
     (if asset \<noteq> '''' \<and> isl (ValidateAssetCode asset) then (Inl ErrValidation, d)
      else store_ListEntries tn accountID asset cursor limit d)"

definition store_GetTransaction :: "uuid \<Rightarrow> uuid \<Rightarrow> Db \<Rightarrow> (error + Transaction) \<times> Db" where
  "store_GetTransaction tn i d = read_tx tn (loadTransactionTx tn i) d"

definition store_ListTransactions :: "uuid \<Rightarrow> uuid option \<Rightarrow> string option \<Rightarrow> Cursor \<Rightarrow> int \<Rightarrow> Db \<Rightarrow> (error + Transaction list) \<times> Db" where
  "store_ListTransactions tn ledgerID status cursor limit d = read_tx tn (\<lambda>d.
     let out = keyset_desc (\<lambda>t. (t_CreatedAt t, t_ID t)) cursor limit
           (filter (\<lambda>t. t_TenantID t = tn \<and> (ledgerID = None \<or> ledgerID = Some (t_LedgerID t)) \<and> (status = None \<or> status = Some (t_Status t)))
             (db_transactions d));
         postings = loadPostings tn d (map t_ID out)
     in Inr (map (\<lambda>t. t\<lparr>t_Postings := postings (t_ID t)\<rparr>) out)) d"

section \<open>Trial balance\<close>

definition scan64 :: "int \<Rightarrow> error + int64" where
  "scan64 x = (if fits64 x then Inr (word_of_int x) else Inl (PgError NumericOutOfRange))"

fun map_e :: "('a \<Rightarrow> error + 'b) \<Rightarrow> 'a list \<Rightarrow> error + 'b list" where
  "map_e f [] = Inr []"
| "map_e f (x # xs) = bindE (f x) (\<lambda>y. bindE (map_e f xs) (\<lambda>ys. Inr (y # ys)))"

record TrialBalanceRow =
  tbr_AccountID :: uuid
  tbr_AccountName :: string
  tbr_AccountType :: string
  tbr_Asset :: string
  tbr_Debits :: int64
  tbr_Credits :: int64

record TrialBalanceTotal =
  tbt_Asset :: string
  tbt_Debits :: int64
  tbt_Credits :: int64
  tbt_Balanced :: bool

record TrialBalanceReport =
  tb_LedgerID :: uuid
  tb_AsOf :: timestamp
  tb_Rows :: "TrialBalanceRow list"
  tb_Totals :: "TrialBalanceTotal list"

definition account_in_ledger :: "uuid \<Rightarrow> uuid \<Rightarrow> Db \<Rightarrow> uuid \<Rightarrow> Account option" where
  "account_in_ledger tn ledgerID d acc =
     (case find_account tn acc d of None \<Rightarrow> None | Some a \<Rightarrow> if a_LedgerID a = ledgerID then Some a else None)"

definition tb_rows_current :: "(string \<Rightarrow> string) \<Rightarrow> uuid \<Rightarrow> uuid \<Rightarrow> Db \<Rightarrow> TrialBalanceRow list" where
  "tb_rows_current ck tn ledgerID d =
     map (\<lambda>(b, a). \<lparr>tbr_AccountID = br_account b, tbr_AccountName = a_Name a, tbr_AccountType = a_Type a, tbr_Asset = br_asset b,
           tbr_Debits = word_of_int (br_posted_debits b), tbr_Credits = word_of_int (br_posted_credits b)\<rparr>)
       (sort_key (\<lambda>(b, a). (ck (a_Path a), ck (br_asset b)))
         (map (\<lambda>b. (b, the (account_in_ledger tn ledgerID d (br_account b))))
           (filter (\<lambda>b. br_tenant b = tn \<and> account_in_ledger tn ledgerID d (br_account b) \<noteq> None) (db_balances d))))"

text \<open>The postings of firm transactions visible to the tenant whose effective instant passes a test.\<close>

definition firm_at :: "uuid \<Rightarrow> Db \<Rightarrow> (timestamp \<Rightarrow> bool) \<Rightarrow> uuid \<Rightarrow> bool" where
  "firm_at tn d cond i = (case find_tx tn i d of None \<Rightarrow> False
     | Some t \<Rightarrow> (t_Status t = TransactionPosted \<or> t_Status t = TransactionReversed) \<and> cond (t_EffectiveAt t))"

definition tb_rows_asof :: "(string \<Rightarrow> string) \<Rightarrow> uuid \<Rightarrow> uuid \<Rightarrow> timestamp \<Rightarrow> Db \<Rightarrow> error + TrialBalanceRow list" where
  "tb_rows_asof ck tn ledgerID asOf d =
     (let ps = filter (\<lambda>p. pr_tenant p = tn \<and> account_in_ledger tn ledgerID d (pr_account p) \<noteq> None
                 \<and> firm_at tn d (\<lambda>x. x \<le> asOf) (pr_tx p)) (db_postings d);
          groups = sort_key (\<lambda>(acc, asset). (ck (a_Path (the (account_in_ledger tn ledgerID d acc))), ck asset))
                     (remdups (map (\<lambda>p. (pr_account p, pr_asset p)) ps))
      in map_e (\<lambda>(acc, asset).
           let a = the (account_in_ledger tn ledgerID d acc);
               total = (\<lambda>dir. row_sum (\<lambda>p. pr_account p = acc \<and> pr_asset p = asset \<and> pr_direction p = dir) ps) in
           bindE (scan64 (total DirectionDebit)) (\<lambda>dr. bindE (scan64 (total DirectionCredit)) (\<lambda>cr.
             Inr \<lparr>tbr_AccountID = acc, tbr_AccountName = a_Name a, tbr_AccountType = a_Type a, tbr_Asset = asset,
                  tbr_Debits = dr, tbr_Credits = cr\<rparr>))) groups)"

fun add_total :: "TrialBalanceTotal list \<Rightarrow> TrialBalanceRow \<Rightarrow> TrialBalanceTotal list" where
  "add_total [] r = [\<lparr>tbt_Asset = tbr_Asset r, tbt_Debits = 0 + tbr_Debits r, tbt_Credits = 0 + tbr_Credits r, tbt_Balanced = False\<rparr>]"
| "add_total (t # ts) r =
     (if tbt_Asset t = tbr_Asset r
      then t\<lparr>tbt_Debits := tbt_Debits t + tbr_Debits r, tbt_Credits := tbt_Credits t + tbr_Credits r\<rparr> # ts
      else t # add_total ts r)"

definition tb_totals :: "TrialBalanceRow list \<Rightarrow> TrialBalanceTotal list" where
  "tb_totals rows = map (\<lambda>t. t\<lparr>tbt_Balanced := (tbt_Debits t = tbt_Credits t)\<rparr>) (foldl add_total [] rows)"

definition store_TrialBalance ::
  "(string \<Rightarrow> string) \<Rightarrow> uuid \<Rightarrow> uuid \<Rightarrow> timestamp option \<Rightarrow> timestamp \<Rightarrow> Db \<Rightarrow> (error + TrialBalanceReport) \<times> Db" where
  "store_TrialBalance ck tn ledgerID asOf wall d = read_tx tn (\<lambda>d.
     case find_ledger tn ledgerID d of
       None \<Rightarrow> Inl ErrNotFound
     | Some _ \<Rightarrow>
       bindE (case asOf of None \<Rightarrow> Inr (tb_rows_current ck tn ledgerID d) | Some x \<Rightarrow> tb_rows_asof ck tn ledgerID x d) (\<lambda>rows.
       Inr \<lparr>tb_LedgerID = ledgerID, tb_AsOf = (case asOf of None \<Rightarrow> wall | Some x \<Rightarrow> x), tb_Rows = rows, tb_Totals = tb_totals rows\<rparr>)) d"

section \<open>Statement\<close>

definition raw_amount :: "PostingRow \<Rightarrow> int" where
  "raw_amount p = (if pr_direction p = DirectionDebit then pr_amount p else - pr_amount p)"

definition statement_rows :: "uuid \<Rightarrow> uuid \<Rightarrow> (timestamp \<Rightarrow> bool) \<Rightarrow> Db \<Rightarrow> PostingRow list" where
  "statement_rows tn accountID cond d =
     filter (\<lambda>p. pr_tenant p = tn \<and> pr_account p = accountID \<and> firm_at tn d cond (pr_tx p)) (db_postings d)"

definition raw_sum :: "string \<Rightarrow> PostingRow list \<Rightarrow> int" where
  "raw_sum asset ps = (\<Sum>p\<leftarrow>ps. if pr_asset p = asset then raw_amount p else 0)"

definition statementRawSums :: "uuid \<Rightarrow> uuid \<Rightarrow> (timestamp \<Rightarrow> bool) \<Rightarrow> Db \<Rightarrow> error + (string \<times> int64) list" where
  "statementRawSums tn accountID cond d =
     (let ps = statement_rows tn accountID cond d
      in map_e (\<lambda>asset. bindE (scan64 (raw_sum asset ps)) (\<lambda>raw. Inr (asset, raw))) (remdups (map pr_asset ps)))"

text \<open>A Go map lookup without the \<open>ok\<close> result: the zero value where the key is absent.\<close>

definition raw_of :: "(string \<times> int64) list \<Rightarrow> string \<Rightarrow> int64" where
  "raw_of m asset = (case map_of m asset of None \<Rightarrow> 0 | Some x \<Rightarrow> x)"

record AssetBalance =
  ab_Asset :: string
  ab_Units :: int64

record StatementEntry =
  se_PostingID :: uuid
  se_TransactionID :: uuid
  se_Reference :: string
  se_Direction :: string
  se_Amount :: Amount
  se_EffectiveAt :: timestamp
  se_Running :: int64

record StatementReport =
  st_Account :: Account
  st_From :: timestamp
  st_To :: timestamp
  st_Opening :: "AssetBalance list"
  st_Closing :: "AssetBalance list"
  st_Entries :: "StatementEntry list"

definition effective_at :: "uuid \<Rightarrow> Db \<Rightarrow> PostingRow \<Rightarrow> timestamp" where
  "effective_at tn d p = (case find_tx tn (pr_tx p) d of None \<Rightarrow> 0 | Some t \<Rightarrow> t_EffectiveAt t)"

definition statement_key :: "uuid \<Rightarrow> Db \<Rightarrow> PostingRow \<Rightarrow> timestamp \<times> uuid" where
  "statement_key tn d p = (effective_at tn d p, pr_id p)"

text \<open>\<open>SUM(...) OVER (PARTITION BY asset ORDER BY effective_at, id)\<close>: the rows of the period up to this one.\<close>

definition running_raw :: "uuid \<Rightarrow> Db \<Rightarrow> PostingRow list \<Rightarrow> PostingRow \<Rightarrow> int" where
  "running_raw tn d period p = raw_sum (pr_asset p) (filter (\<lambda>q. statement_key tn d q \<le> statement_key tn d p) period)"

definition statement_entry ::
  "uuid \<Rightarrow> Db \<Rightarrow> string \<Rightarrow> (string \<times> int64) list \<Rightarrow> PostingRow list \<Rightarrow> PostingRow \<Rightarrow> error + StatementEntry" where
  "statement_entry tn d nb openingRaw period p =
     bindE (scan64 (running_raw tn d period p)) (\<lambda>raw. Inr
       \<lparr>se_PostingID = pr_id p, se_TransactionID = pr_tx p,
        se_Reference = (case find_tx tn (pr_tx p) d of None \<Rightarrow> '''' | Some t \<Rightarrow> t_Reference t), se_Direction = pr_direction p,
        se_Amount = \<lparr>Asset = pr_asset p, Units = word_of_int (pr_amount p)\<rparr>, se_EffectiveAt = effective_at tn d p,
        se_Running = RunningBalance nb (raw_of openingRaw (pr_asset p)) raw\<rparr>)"

definition store_Statement ::
  "uuid \<Rightarrow> uuid \<Rightarrow> timestamp \<Rightarrow> timestamp \<Rightarrow> Cursor \<Rightarrow> int \<Rightarrow> Db \<Rightarrow> (error + StatementReport) \<times> Db" where
  "store_Statement tn accountID fromT toT cursor limit d = read_tx tn (\<lambda>d.
     bindE (getAccountTx tn accountID d) (\<lambda>account.
     let nb = a_NormalBalance account; period = statement_rows tn accountID (\<lambda>x. x \<ge> fromT \<and> x \<le> toT) d in
     bindE (statementRawSums tn accountID (\<lambda>x. x < fromT) d) (\<lambda>openingRaw.
     bindE (statementRawSums tn accountID (\<lambda>x. x \<ge> fromT \<and> x \<le> toT) d) (\<lambda>periodRaw.
     let names = sort (remdups (map fst openingRaw @ map fst periodRaw)) in
     bindE (map_e (statement_entry tn d nb openingRaw period) (keyset_asc (statement_key tn d) cursor limit period)) (\<lambda>entries.
     Inr \<lparr>st_Account = account, st_From = fromT, st_To = toT,
          st_Opening = map (\<lambda>a. \<lparr>ab_Asset = a, ab_Units = SignRaw nb (raw_of openingRaw a)\<rparr>) names,
          st_Closing = map (\<lambda>a. \<lparr>ab_Asset = a, ab_Units = RunningBalance nb (raw_of openingRaw a) (raw_of periodRaw a)\<rparr>) names,
          st_Entries = entries\<rparr>))))) d"

definition StatementDefaultPeriod :: int where
  "StatementDefaultPeriod = 30 * 24 * 3600 * 10 ^ 9"

definition StatementUseCase ::
  "timestamp \<Rightarrow> uuid \<Rightarrow> uuid \<Rightarrow> timestamp \<Rightarrow> timestamp \<Rightarrow> Cursor \<Rightarrow> int \<Rightarrow> Db \<Rightarrow> (error + StatementReport) \<times> Db" where
  "StatementUseCase now tn accountID from0 to0 cursor limit d =
     (if accountID = uuid_Nil then (Inl ErrValidation, d)
      else let toT = (if to0 = zeroTime then now else to0);
               fromT = (if from0 = zeroTime then toT - StatementDefaultPeriod else from0) in
        if fromT > toT then (Inl ErrValidation, d)
        else store_Statement tn accountID fromT toT cursor limit d)"

section \<open>Balance verifier\<close>

record BalanceDiscrepancy =
  bd_AccountID :: uuid
  bd_Asset :: string
  bd_ComputedPostedDebits :: int64
  bd_StoredPostedDebits :: int64
  bd_ComputedPostedCredits :: int64
  bd_StoredPostedCredits :: int64
  bd_ComputedPendingDebits :: int64
  bd_StoredPendingDebits :: int64
  bd_ComputedPendingCredits :: int64
  bd_StoredPendingCredits :: int64

text \<open>The two sides of the full outer join: a missing side counts as zeros.\<close>

definition vb_computed :: "uuid \<Rightarrow> uuid \<Rightarrow> Db \<Rightarrow> column \<Rightarrow> uuid \<times> string \<Rightarrow> int" where
  "vb_computed tn ledgerID d c = (\<lambda>(acc, asset). row_sum (\<lambda>p. pr_tenant p = tn \<and> account_in_ledger tn ledgerID d (pr_account p) \<noteq> None
     \<and> pr_account p = acc \<and> pr_asset p = asset \<and> pr_direction p = col_direction c
     \<and> (case find_tx tn (pr_tx p) d of None \<Rightarrow> False | Some t \<Rightarrow> col_counts c (t_Status t))) (db_postings d))"

definition vb_stored :: "uuid \<Rightarrow> uuid \<Rightarrow> Db \<Rightarrow> column \<Rightarrow> uuid \<times> string \<Rightarrow> int" where
  "vb_stored tn ledgerID d c = (\<lambda>(acc, asset). case find (\<lambda>b. br_tenant b = tn \<and> account_in_ledger tn ledgerID d (br_account b) \<noteq> None
     \<and> br_account b = acc \<and> br_asset b = asset) (db_balances d) of None \<Rightarrow> 0 | Some b \<Rightarrow> col c b)"

definition vb_keys :: "uuid \<Rightarrow> uuid \<Rightarrow> Db \<Rightarrow> (uuid \<times> string) list" where
  "vb_keys tn ledgerID d = remdups
     (map (\<lambda>p. (pr_account p, pr_asset p)) (filter (\<lambda>p. pr_tenant p = tn \<and> account_in_ledger tn ledgerID d (pr_account p) \<noteq> None
        \<and> find_tx tn (pr_tx p) d \<noteq> None) (db_postings d))
      @ map balance_key (filter (\<lambda>b. br_tenant b = tn \<and> account_in_ledger tn ledgerID d (br_account b) \<noteq> None) (db_balances d)))"

definition verify_account_balances :: "(string \<Rightarrow> string) \<Rightarrow> uuid \<Rightarrow> uuid \<Rightarrow> Db \<Rightarrow> error + BalanceDiscrepancy list" where
  "verify_account_balances ck tn ledgerID d =
     (let s = vb_stored tn ledgerID d; r = vb_computed tn ledgerID d;
          bad = filter (\<lambda>k. list_ex (\<lambda>c. r c k \<noteq> s c k) [PostedDebits, PostedCredits, PendingDebits, PendingCredits]) (vb_keys tn ledgerID d)
      in map_e (\<lambda>k.
           bindE (scan64 (r PostedDebits k)) (\<lambda>r1. bindE (scan64 (s PostedDebits k)) (\<lambda>s1.
           bindE (scan64 (r PostedCredits k)) (\<lambda>r2. bindE (scan64 (s PostedCredits k)) (\<lambda>s2.
           bindE (scan64 (r PendingDebits k)) (\<lambda>r3. bindE (scan64 (s PendingDebits k)) (\<lambda>s3.
           bindE (scan64 (r PendingCredits k)) (\<lambda>r4. bindE (scan64 (s PendingCredits k)) (\<lambda>s4.
           Inr \<lparr>bd_AccountID = fst k, bd_Asset = snd k, bd_ComputedPostedDebits = r1, bd_StoredPostedDebits = s1,
                bd_ComputedPostedCredits = r2, bd_StoredPostedCredits = s2, bd_ComputedPendingDebits = r3,
                bd_StoredPendingDebits = s3, bd_ComputedPendingCredits = r4, bd_StoredPendingCredits = s4\<rparr>)))))))))
         (sort_key (\<lambda>(acc, asset). (acc, ck asset)) bad))"

definition store_VerifyBalances :: "(string \<Rightarrow> string) \<Rightarrow> uuid \<Rightarrow> uuid \<Rightarrow> Db \<Rightarrow> (error + BalanceDiscrepancy list) \<times> Db" where
  "store_VerifyBalances ck tn ledgerID d = read_tx tn (\<lambda>d.
     case find_ledger tn ledgerID d of None \<Rightarrow> Inl ErrNotFound | Some _ \<Rightarrow> verify_account_balances ck tn ledgerID d) d"

definition VerifyBalances :: "(string \<Rightarrow> string) \<Rightarrow> uuid \<Rightarrow> uuid \<Rightarrow> Db \<Rightarrow> (error + BalanceDiscrepancy list) \<times> Db" where
  "VerifyBalances ck tn ledgerID d =
     (if ledgerID = uuid_Nil then (Inl ErrValidation, d) else store_VerifyBalances ck tn ledgerID d)"

section \<open>Provider positions\<close>

fun provider_segment :: "string list \<Rightarrow> string option" where
  "provider_segment (a # b # r) = (if to_lower a = ''provider'' \<and> b \<noteq> '''' then Some (to_lower b) else provider_segment (b # r))"
| "provider_segment _ = None"

definition ProviderOf :: "string \<Rightarrow> metadata \<Rightarrow> string option" where
  "ProviderOf path md =
     (let p = TrimSpace (case map_of (case md of None \<Rightarrow> [] | Some m \<Rightarrow> m) ''provider'' of None \<Rightarrow> '''' | Some v \<Rightarrow> v)
      in if p \<noteq> '''' then Some (to_lower p)
         else provider_segment (fields_func (\<lambda>c. c = CHR '':'' \<or> c = CHR ''/'') [] path))"

record ProviderAccountBalance =
  pab_AccountID :: uuid
  pab_Path :: string
  pab_Type :: string
  pab_Metadata :: metadata
  pab_Asset :: string
  pab_PostedDebits :: int64
  pab_PostedCredits :: int64

definition store_ProviderAccountBalances :: "(string \<Rightarrow> string) \<Rightarrow> uuid \<Rightarrow> Db \<Rightarrow> (error + ProviderAccountBalance list) \<times> Db" where
  "store_ProviderAccountBalances ck tn d = read_tx tn (\<lambda>d. Inr (
     map (\<lambda>(b, a). \<lparr>pab_AccountID = a_ID a, pab_Path = a_Path a, pab_Type = a_Type a, pab_Metadata = a_Metadata a, pab_Asset = br_asset b,
           pab_PostedDebits = word_of_int (br_posted_debits b), pab_PostedCredits = word_of_int (br_posted_credits b)\<rparr>)
       (sort_key (\<lambda>(b, a). (ck (a_Path a), ck (br_asset b)))
         (filter (\<lambda>(b, a). a_Type a = AccountAsset \<or> a_Type a = AccountLiability)
           (map (\<lambda>b. (b, the (find_account tn (br_account b) d)))
             (filter (\<lambda>b. br_tenant b = tn \<and> find_account tn (br_account b) d \<noteq> None) (db_balances d))))))) d"

record ProviderAssetPosition =
  pap_Asset :: string
  pap_Net :: int64
  pap_Accounts :: "uuid list"

record ProviderPosition =
  pp_Provider :: string
  pp_Positions :: "ProviderAssetPosition list"

type_synonym nets = "((string \<times> string) \<times> ProviderAssetPosition) list"

fun nets_add :: "string \<times> string \<Rightarrow> ProviderAccountBalance \<Rightarrow> nets \<Rightarrow> nets" where
  "nets_add k r [] = [(k, \<lparr>pap_Asset = pab_Asset r, pap_Net = 0 + (pab_PostedDebits r - pab_PostedCredits r), pap_Accounts = [pab_AccountID r]\<rparr>)]"
| "nets_add k r ((k', pos) # ns) =
     (if k' = k then (k', pos\<lparr>pap_Net := pap_Net pos + (pab_PostedDebits r - pab_PostedCredits r),
                              pap_Accounts := pap_Accounts pos @ [pab_AccountID r]\<rparr>) # ns
      else (k', pos) # nets_add k r ns)"

fun collect_nets :: "ProviderAccountBalance list \<Rightarrow> nets \<Rightarrow> nets" where
  "collect_nets [] ns = ns"
| "collect_nets (r # rs) ns =
     (case ProviderOf (pab_Path r) (pab_Metadata r) of
        None \<Rightarrow> collect_nets rs ns
      | Some provider \<Rightarrow> collect_nets rs (nets_add (provider, pab_Asset r) r ns))"

definition ProviderPositions :: "(string \<Rightarrow> string) \<Rightarrow> uuid \<Rightarrow> Db \<Rightarrow> (error + ProviderPosition list) \<times> Db" where
  "ProviderPositions ck tn d =
     (case store_ProviderAccountBalances ck tn d of
        (Inl e, d') \<Rightarrow> (Inl e, d')
      | (Inr rows, d') \<Rightarrow>
        (let ns = collect_nets rows [] in
         (Inr (map (\<lambda>provider. \<lparr>pp_Provider = provider,
             pp_Positions = map (\<lambda>asset. the (map_of ns (provider, asset)))
               (sort (map (snd \<circ> fst) (filter (\<lambda>n. fst (fst n) = provider) ns)))\<rparr>)
             (sort (remdups (map (fst \<circ> fst) ns)))), d')))"

end
