(* ===== verification/Ledger_Sample.thy ===== *)
theory Ledger_Sample
  imports Ledger_Service Pagination
begin

text \<open>
  A small run of the ledger service the witnesses share: a tenant creates a ledger, two accounts, a posted
  transaction and a hold. The values of the databases along the run are computed once, as code equations,
  so that evaluations over them start from the literal.
\<close>

section \<open>A sample run\<close>

definition sample_env :: "nat \<Rightarrow> Env" where
  "sample_env n = \<lparr>ev_H = (\<lambda>c. [1]), ev_uuidString = sample_uuidString,
     ev_newV7 = (\<lambda>k. Some (word_of_nat (n + k))), ev_eventID = Some (word_of_nat (n + 50)), ev_now = int n, ev_wall = int n\<rparr>"

definition sample_ledger_db :: Db where
  "sample_ledger_db = snd (CreateLedger (sample_env 100) 1
     \<lparr>cli_Name = ''main'', cli_Description = '''', cli_Environment = ''sandbox'', cli_Metadata = None\<rparr> empty_db)"

definition sample_cash_db :: Db where
  "sample_cash_db = snd (CreateAccount (sample_env 200) 1 \<lparr>cai_LedgerID = 100, cai_Name = ''cash'', cai_Type = ''asset'',
     cai_NormalBalance = ''debit'', cai_Metadata = None\<rparr> sample_ledger_db)"

definition sample_accounts_db :: Db where
  "sample_accounts_db = snd (CreateAccount (sample_env 300) 1 \<lparr>cai_LedgerID = 100, cai_Name = ''equity'', cai_Type = ''equity'',
     cai_NormalBalance = ''credit'', cai_Metadata = None\<rparr> sample_cash_db)"

definition sample_request :: CreateTransactionInput where
  "sample_request = \<lparr>cti_LedgerID = 100, cti_IdempotencyKey = ''k1'', cti_Reference = '''', cti_Description = '''',
     cti_Status = '''', cti_EffectiveAt = None, cti_Metadata = None,
     cti_Postings = [\<lparr>pin_AccountID = 200, pin_Direction = DirectionDebit, pin_Amount = \<lparr>Asset = ''USD'', Units = 500\<rparr>\<rparr>,
                     \<lparr>pin_AccountID = 300, pin_Direction = DirectionCredit, pin_Amount = \<lparr>Asset = ''USD'', Units = 500\<rparr>\<rparr>]\<rparr>"

definition sample_posted_db :: Db where
  "sample_posted_db = snd (CreateTransaction (sample_env 400) sample_accounts_db sample_accounts_db 1 sample_request sample_accounts_db)"

definition sample_hold_request :: CreateHoldInput where
  "sample_hold_request = \<lparr>chi_AccountID = 200, chi_LedgerID = 0, chi_IdempotencyKey = ''h1'',
     chi_Amount = \<lparr>Asset = ''USD'', Units = 120\<rparr>, chi_ExpiresAt = None, chi_Metadata = None\<rparr>"

definition sample_db :: Db where
  "sample_db = snd (CreateHold (sample_env 500) sample_posted_db sample_posted_db 1 sample_hold_request sample_posted_db)"

text \<open>The values of the three databases.\<close>

lemma sample_accounts_db_value [code]:
  "sample_accounts_db =
   \<lparr>db_ledgers =
    [\<lparr>l_ID = 100, l_TenantID = 1, l_Name = ''main'', l_Description = [],
        l_Environment = ''sandbox'', l_Metadata = Some [],
        l_CreatedAt = 100\<rparr>],
    db_accounts =
      [\<lparr>a_ID = 200, a_TenantID = 1, a_LedgerID = 100, a_Name = ''cash'',
          a_Path = ''cash'', a_Type = ''asset'',
          a_NormalBalance = ''debit'', a_Status = ''active'',
          a_Metadata = Some [], a_CreatedAt = 200\<rparr>,
       \<lparr>a_ID = 300, a_TenantID = 1, a_LedgerID = 100, a_Name = ''equity'',
          a_Path = ''equity'', a_Type = ''equity'',
          a_NormalBalance = ''credit'', a_Status = ''active'',
          a_Metadata = Some [], a_CreatedAt = 300\<rparr>],
    db_transactions = [], db_postings = [], db_balances = [], db_holds = [],
    db_keys = [], db_outbox = [], db_deferred = []\<rparr>"
  by code_simp

lemma sample_posted_db_value [code]:
  "sample_posted_db =
   \<lparr>db_ledgers =
    [\<lparr>l_ID = 100, l_TenantID = 1, l_Name = ''main'', l_Description = [],
        l_Environment = ''sandbox'', l_Metadata = Some [],
        l_CreatedAt = 100\<rparr>],
    db_accounts =
      [\<lparr>a_ID = 200, a_TenantID = 1, a_LedgerID = 100, a_Name = ''cash'',
          a_Path = ''cash'', a_Type = ''asset'',
          a_NormalBalance = ''debit'', a_Status = ''active'',
          a_Metadata = Some [], a_CreatedAt = 200\<rparr>,
       \<lparr>a_ID = 300, a_TenantID = 1, a_LedgerID = 100, a_Name = ''equity'',
          a_Path = ''equity'', a_Type = ''equity'',
          a_NormalBalance = ''credit'', a_Status = ''active'',
          a_Metadata = Some [], a_CreatedAt = 300\<rparr>],
    db_transactions =
      [\<lparr>t_ID = 400, t_TenantID = 1, t_LedgerID = 100, t_Reference = [],
          t_Description = [], t_IdempotencyKey = ''k1'',
          t_Status = ''posted'', t_EffectiveAt = 400,
          t_EffectiveAtProvided = False, t_PostedAt = Some 400,
          t_ReversedByID = None, t_ReversesID = None, t_Metadata = Some [],
          t_Postings = [], t_CreatedAt = 400\<rparr>],
    db_postings =
      [\<lparr>pr_id = 401, pr_tenant = 1, pr_tx = 400, pr_account = 200,
          pr_direction = ''DEBIT'', pr_asset = ''USD'', pr_amount = 500,
          pr_created = 400\<rparr>,
       \<lparr>pr_id = 402, pr_tenant = 1, pr_tx = 400, pr_account = 300,
          pr_direction = ''CREDIT'', pr_asset = ''USD'', pr_amount = 500,
          pr_created = 400\<rparr>],
    db_balances =
      [\<lparr>br_account = 200, br_tenant = 1, br_asset = ''USD'',
          br_posted_debits = 500, br_posted_credits = 0,
          br_pending_debits = 0, br_pending_credits = 0, br_held = 0,
          br_version = 1\<rparr>,
       \<lparr>br_account = 300, br_tenant = 1, br_asset = ''USD'',
          br_posted_debits = 0, br_posted_credits = 500,
          br_pending_debits = 0, br_pending_credits = 0, br_held = 0,
          br_version = 1\<rparr>],
    db_holds = [],
    db_keys =
      [\<lparr>ir_tenant = 1, ir_key = ''k1'', ir_status = 201,
          ir_response =
            \<lparr>t_ID = 400, t_TenantID = 1, t_LedgerID = 100, t_Reference = [],
               t_Description = [], t_IdempotencyKey = ''k1'',
               t_Status = ''posted'', t_EffectiveAt = 400,
               t_EffectiveAtProvided = False, t_PostedAt = Some 400,
               t_ReversedByID = None, t_ReversesID = None,
               t_Metadata = None,
               t_Postings =
                 [\<lparr>p_ID = 401, p_AccountID = 200, p_Direction = ''DEBIT'',
                     p_Amount = \<lparr>Asset = ''USD'', Units = 500\<rparr>\<rparr>,
                  \<lparr>p_ID = 402, p_AccountID = 300, p_Direction = ''CREDIT'',
                     p_Amount = \<lparr>Asset = ''USD'', Units = 500\<rparr>\<rparr>],
               t_CreatedAt = 400\<rparr>,
          ir_hash = [1]\<rparr>],
    db_outbox =
      [\<lparr>or_tenant = 1, or_topic = ''ledger.transaction.posted'',
          or_envelope =
            Some
             \<lparr>env_ID = 450, env_Type = ''ledger.transaction.posted'',
                env_TenantID = 1, env_OccurredAt = 400, env_Version = 1,
                env_Data =
                  PostedData
                   \<lparr>tpe_TransactionID = 400, tpe_LedgerID = 100,
                      tpe_IdempotencyKey = ''k1'', tpe_Description = [],
                      tpe_Postings =
                        [\<lparr>ep_AccountID = 200, ep_Direction = ''DEBIT'',
                            ep_Amount =
                              \<lparr>em_Asset = ''USD'', em_Amount = ''500''\<rparr>\<rparr>,
                         \<lparr>ep_AccountID = 300, ep_Direction = ''CREDIT'',
                            ep_Amount =
                              \<lparr>em_Asset = ''USD'', em_Amount = ''500''\<rparr>\<rparr>],
                      tpe_Metadata = None, tpe_PostedAt = 400\<rparr>\<rparr>,
          or_published = False\<rparr>],
    db_deferred = []\<rparr>"
  by code_simp

lemma sample_db_value [code]:
  "sample_db =
   \<lparr>db_ledgers =
    [\<lparr>l_ID = 100, l_TenantID = 1, l_Name = ''main'', l_Description = [],
        l_Environment = ''sandbox'', l_Metadata = Some [],
        l_CreatedAt = 100\<rparr>],
    db_accounts =
      [\<lparr>a_ID = 200, a_TenantID = 1, a_LedgerID = 100, a_Name = ''cash'',
          a_Path = ''cash'', a_Type = ''asset'',
          a_NormalBalance = ''debit'', a_Status = ''active'',
          a_Metadata = Some [], a_CreatedAt = 200\<rparr>,
       \<lparr>a_ID = 300, a_TenantID = 1, a_LedgerID = 100, a_Name = ''equity'',
          a_Path = ''equity'', a_Type = ''equity'',
          a_NormalBalance = ''credit'', a_Status = ''active'',
          a_Metadata = Some [], a_CreatedAt = 300\<rparr>],
    db_transactions =
      [\<lparr>t_ID = 400, t_TenantID = 1, t_LedgerID = 100, t_Reference = [],
          t_Description = [], t_IdempotencyKey = ''k1'',
          t_Status = ''posted'', t_EffectiveAt = 400,
          t_EffectiveAtProvided = False, t_PostedAt = Some 400,
          t_ReversedByID = None, t_ReversesID = None, t_Metadata = Some [],
          t_Postings = [], t_CreatedAt = 400\<rparr>],
    db_postings =
      [\<lparr>pr_id = 401, pr_tenant = 1, pr_tx = 400, pr_account = 200,
          pr_direction = ''DEBIT'', pr_asset = ''USD'', pr_amount = 500,
          pr_created = 400\<rparr>,
       \<lparr>pr_id = 402, pr_tenant = 1, pr_tx = 400, pr_account = 300,
          pr_direction = ''CREDIT'', pr_asset = ''USD'', pr_amount = 500,
          pr_created = 400\<rparr>],
    db_balances =
      [\<lparr>br_account = 200, br_tenant = 1, br_asset = ''USD'',
          br_posted_debits = 500, br_posted_credits = 0,
          br_pending_debits = 0, br_pending_credits = 0, br_held = 120,
          br_version = 2\<rparr>,
       \<lparr>br_account = 300, br_tenant = 1, br_asset = ''USD'',
          br_posted_debits = 0, br_posted_credits = 500,
          br_pending_debits = 0, br_pending_credits = 0, br_held = 0,
          br_version = 1\<rparr>],
    db_holds =
      [\<lparr>hr_hold =
          \<lparr>h_ID = 500, h_TenantID = 1, h_LedgerID = 100, h_AccountID = 200,
             h_IdempotencyKey = ''h1'',
             h_Amount = \<lparr>Asset = ''USD'', Units = 120\<rparr>,
             h_Status = ''active'', h_ExpiresAt = 604800000000500,
             h_ExpiresAtProvided = False, h_CapturedTransactionID = None,
             h_Metadata = Some [], h_CreatedAt = 500\<rparr>,
          hr_hash = [1]\<rparr>],
    db_keys =
      [\<lparr>ir_tenant = 1, ir_key = ''k1'', ir_status = 201,
          ir_response =
            \<lparr>t_ID = 400, t_TenantID = 1, t_LedgerID = 100, t_Reference = [],
               t_Description = [], t_IdempotencyKey = ''k1'',
               t_Status = ''posted'', t_EffectiveAt = 400,
               t_EffectiveAtProvided = False, t_PostedAt = Some 400,
               t_ReversedByID = None, t_ReversesID = None,
               t_Metadata = None,
               t_Postings =
                 [\<lparr>p_ID = 401, p_AccountID = 200, p_Direction = ''DEBIT'',
                     p_Amount = \<lparr>Asset = ''USD'', Units = 500\<rparr>\<rparr>,
                  \<lparr>p_ID = 402, p_AccountID = 300, p_Direction = ''CREDIT'',
                     p_Amount = \<lparr>Asset = ''USD'', Units = 500\<rparr>\<rparr>],
               t_CreatedAt = 400\<rparr>,
          ir_hash = [1]\<rparr>],
    db_outbox =
      [\<lparr>or_tenant = 1, or_topic = ''ledger.transaction.posted'',
          or_envelope =
            Some
             \<lparr>env_ID = 450, env_Type = ''ledger.transaction.posted'',
                env_TenantID = 1, env_OccurredAt = 400, env_Version = 1,
                env_Data =
                  PostedData
                   \<lparr>tpe_TransactionID = 400, tpe_LedgerID = 100,
                      tpe_IdempotencyKey = ''k1'', tpe_Description = [],
                      tpe_Postings =
                        [\<lparr>ep_AccountID = 200, ep_Direction = ''DEBIT'',
                            ep_Amount =
                              \<lparr>em_Asset = ''USD'', em_Amount = ''500''\<rparr>\<rparr>,
                         \<lparr>ep_AccountID = 300, ep_Direction = ''CREDIT'',
                            ep_Amount =
                              \<lparr>em_Asset = ''USD'', em_Amount = ''500''\<rparr>\<rparr>],
                      tpe_Metadata = None, tpe_PostedAt = 400\<rparr>\<rparr>,
          or_published = False\<rparr>,
       \<lparr>or_tenant = 1, or_topic = ''ledger.hold.created'',
          or_envelope =
            Some
             \<lparr>env_ID = 550, env_Type = ''ledger.hold.created'',
                env_TenantID = 1, env_OccurredAt = 500, env_Version = 1,
                env_Data =
                  HoldCreatedData
                   \<lparr>hce_HoldID = 500, hce_LedgerID = 100,
                      hce_AccountID = 200, hce_IdempotencyKey = ''h1'',
                      hce_Amount =
                        \<lparr>em_Asset = ''USD'', em_Amount = ''120''\<rparr>,
                      hce_ExpiresAt = 604800000000500,
                      hce_CreatedAt = 500\<rparr>\<rparr>,
          or_published = False\<rparr>],
    db_deferred = []\<rparr>"
  by code_simp

lemma sample_reachable:
  "ledger_step\<^sup>*\<^sup>* empty_db sample_accounts_db" "ledger_step\<^sup>*\<^sup>* empty_db sample_posted_db" "ledger_step\<^sup>*\<^sup>* empty_db sample_db"
proof -
  note step = rtranclp.rtrancl_into_rtrancl [where r = ledger_step]
  have l: "ledger_step\<^sup>*\<^sup>* empty_db sample_ledger_db"
    unfolding sample_ledger_db_def by (rule step [OF rtranclp.rtrancl_refl ledger_step.create_ledger])
  have c: "ledger_step\<^sup>*\<^sup>* empty_db sample_cash_db"
    unfolding sample_cash_db_def by (rule step [OF l ledger_step.create_account])
  show a: "ledger_step\<^sup>*\<^sup>* empty_db sample_accounts_db"
    unfolding sample_accounts_db_def by (rule step [OF c ledger_step.create_account])
  show p: "ledger_step\<^sup>*\<^sup>* empty_db sample_posted_db"
    unfolding sample_posted_db_def by (rule step [OF a ledger_step.create_transaction])
  show "ledger_step\<^sup>*\<^sup>* empty_db sample_db"
    unfolding sample_db_def by (rule step [OF p ledger_step.create_hold])
qed

end
