(* ===== verification/Ledger_Theorems.thy ===== *)
theory Ledger_Theorems
  imports Ledger_Reports Ledger_Sample
begin

text \<open>
  The properties of the ledger service: what holds in every reachable database, what each
  operation does, instantiated on the sample run of \<open>Ledger_Sample\<close>.
\<close>

section \<open>Reachable databases\<close>

text \<open>
  C1. Double entry: in every database that any sequence of requests can produce, every posted or
  reversed transaction has at least two postings and, for every asset, its debits and its credits
  add up to the same exact amount.
\<close>

theorem reachable_double_entry:
  assumes "ledger_step\<^sup>*\<^sup>* empty_db d" and "t \<in> set (db_transactions d)"
    and "t_Status t = TransactionPosted \<or> t_Status t = TransactionReversed"
  shows "2 \<le> length (filter (\<lambda>p. pr_tx p = t_ID t) (db_postings d))
    \<and> (\<Sum>p\<leftarrow>db_postings d. if pr_tx p = t_ID t \<and> pr_asset p = asset \<and> pr_direction p = DirectionDebit then pr_amount p else 0)
    = (\<Sum>p\<leftarrow>db_postings d. if pr_tx p = t_ID t \<and> pr_asset p = asset \<and> pr_direction p = DirectionCredit then pr_amount p else 0)"
proof -
  have "double_entry d" using ledger.reachable [OF assms(1)] by (simp add: ledger_inv_def)
  then have b: "rows_balanced (filter (\<lambda>p. pr_tx p = t_ID t) (db_postings d))"
    using assms(2,3) unfolding double_entry_def tx_rows_def by blast
  have filt: "row_sum P (filter Q ps) = (\<Sum>p\<leftarrow>ps. if Q p \<and> P p then pr_amount p else 0)" for P Q ps
    by (induction ps) auto
  show ?thesis using b unfolding rows_balanced_def filt by blast
qed

theorem reachable_double_entry_witness:
  "2 \<le> length (filter (\<lambda>p. pr_tx p = 400) (db_postings sample_posted_db))
    \<and> (\<Sum>p\<leftarrow>db_postings sample_posted_db. if pr_tx p = 400 \<and> pr_asset p = ''USD'' \<and> pr_direction p = DirectionDebit then pr_amount p else 0)
    = (\<Sum>p\<leftarrow>db_postings sample_posted_db. if pr_tx p = 400 \<and> pr_asset p = ''USD'' \<and> pr_direction p = DirectionCredit then pr_amount p else 0)"
proof -
  let ?t = "hd (db_transactions sample_posted_db)"
  have "?t \<in> set (db_transactions sample_posted_db) \<and> t_Status ?t = TransactionPosted \<and> t_ID ?t = 400" by code_simp
  then show ?thesis
    using reachable_double_entry [OF sample_reachable(2), of ?t "''USD''"] by (simp only: simp_thms)
qed

lemma find_account_unique:
  assumes "struct_ok d"
  shows "find_account tn acc d \<noteq> None \<longleftrightarrow> tenant_account d tn acc"
  by (auto simp: find_account_def tenant_account_def find_None_iff)

lemma find_tx_status:
  assumes so: "struct_ok d" and p: "p \<in> set (db_postings d)" and tn: "pr_tenant p = tn"
  shows "\<exists>t. find_tx tn (pr_tx p) d = Some t \<and> t_Status t = tx_status d (pr_tx p)"
proof -
  have "posting_linked d p" using so p by (simp add: struct_ok_def)
  then obtain x where x: "x \<in> set (db_transactions d)" "t_ID x = pr_tx p" "t_TenantID x = tn"
    using tn unfolding posting_linked_def by blast
  have dist: "distinct (map t_ID (db_transactions d))" using so by (simp add: struct_ok_def ids_ok_def)
  have "find_tx tn (pr_tx p) d = Some x"
    unfolding find_tx_def
  proof (rule find_unique)
    show "y = x" if "y \<in> set (db_transactions d)" "t_TenantID y = tn \<and> t_ID y = pr_tx p" for y
      using dist x that by (metis distinct_map inj_onD)
  qed (use x in auto)
  then show ?thesis using find_tx_unique(5) [OF dist] by auto
qed

lemma verifier_sides:
  assumes so: "struct_ok d" and a: "account_in_ledger tn ledgerID d acc \<noteq> None"
  shows "vb_computed tn ledgerID d c (acc, asset) = computed d (c, acc, asset)"
    and "vb_stored tn ledgerID d c (acc, asset) = stored d (c, acc, asset)"
proof -
  have ten: "tenant_account d tn acc"
    using a find_account_unique [OF so] by (auto simp: account_in_ledger_def split: option.splits)
  have own: "pr_tenant p = tn" if "p \<in> set (db_postings d)" "pr_account p = acc" for p
    using account_rows_tenant(1) [OF so that(1)] that(2) tenant_account_unique [OF so ten] by metis
  have ownb: "br_tenant b = tn" if "b \<in> set (db_balances d)" "br_account b = acc" for b
    using account_rows_tenant(2) [OF so that(1)] that(2) tenant_account_unique [OF so ten] by metis
  show "vb_computed tn ledgerID d c (acc, asset) = computed d (c, acc, asset)"
    unfolding vb_computed_def prod.case computed.simps
  proof (rule row_sum_cong)
    fix p assume p: "p \<in> set (db_postings d)"
    show "(pr_tenant p = tn \<and> account_in_ledger tn ledgerID d (pr_account p) \<noteq> None \<and> pr_account p = acc \<and> pr_asset p = asset
        \<and> pr_direction p = col_direction c \<and> (case find_tx tn (pr_tx p) d of None \<Rightarrow> False | Some t \<Rightarrow> col_counts c (t_Status t)))
      = (col_counts c (tx_status d (pr_tx p)) \<and> pr_direction p = col_direction c \<and> pr_account p = acc \<and> pr_asset p = asset)"
      using find_tx_status [OF so p] own [OF p] a by (cases "pr_account p = acc") auto
  qed
  have "find (\<lambda>b. br_tenant b = tn \<and> account_in_ledger tn ledgerID d (br_account b) \<noteq> None \<and> br_account b = acc \<and> br_asset b = asset) (db_balances d)
      = find_balance acc asset d"
    unfolding find_balance_def by (rule find_cong) (use ownb a in auto)
  then show "vb_stored tn ledgerID d c (acc, asset) = stored d (c, acc, asset)"
    by (simp add: vb_stored_def)
qed

lemma vb_keys_accounts: "k \<in> set (vb_keys tn ledgerID d) \<Longrightarrow> account_in_ledger tn ledgerID d (fst k) \<noteq> None"
  by (auto simp: vb_keys_def balance_key_def)

lemma verify_empty: "ledger_inv d \<Longrightarrow> verify_account_balances ck tn ledgerID d = Inr []"
proof -
  assume inv: "ledger_inv d"
  then have so: "struct_ok d" and c: "counters_ok d" by (auto simp: ledger_inv_def)
  have same: "vb_computed tn ledgerID d col k = vb_stored tn ledgerID d col k" if "k \<in> set (vb_keys tn ledgerID d)" for k col
    using verifier_sides [OF so vb_keys_accounts [OF that], of col "snd k"] c unfolding counters_ok_def by simp
  have "filter (\<lambda>k. list_ex (\<lambda>c. vb_computed tn ledgerID d c k \<noteq> vb_stored tn ledgerID d c k) [PostedDebits, PostedCredits, PendingDebits, PendingCredits])
      (vb_keys tn ledgerID d) = []"
    using same by (auto simp: filter_empty_conv)
  then show ?thesis by (simp add: verify_account_balances_def)
qed

lemma read_tx_result:
  assumes "db_deferred d = []" and "tn \<noteq> uuid_Nil"
  shows "read_tx tn query d = (query d, d)"
proof -
  have d: "d\<lparr>db_deferred := []\<rparr> = d" using assms(1) by simp
  show ?thesis unfolding read_tx_def WithTenantTx_def d using assms by (cases "query d") auto
qed

text \<open>
  C2. The derived balances never drift: in every reachable database the integrity verifier reports
  no discrepancy for any ledger the tenant owns, that is, every posted and pending column of
  \<open>account_balances\<close> equals the sum recomputed from the postings. Its other outcomes are exactly
  the invalid ledger id, the nil tenant and the unknown ledger, and it never changes the database.
\<close>

theorem verifier_finds_nothing:
  assumes "ledger_step\<^sup>*\<^sup>* empty_db d"
  shows "VerifyBalances ck tn ledgerID d =
    (if ledgerID = uuid_Nil then Inl ErrValidation
     else if tn = uuid_Nil then Inl ErrNilTenant
     else if find_ledger tn ledgerID d = None then Inl ErrNotFound
     else Inr [], d)"
proof -
  have inv: "ledger_inv d" by (rule ledger.reachable [OF assms])
  then have dq: "db_deferred d = []" by (simp add: ledger_inv_def)
  show ?thesis
  proof (cases "tn = uuid_Nil")
    case True
    then show ?thesis by (simp add: VerifyBalances_def store_VerifyBalances_def read_tx_def WithTenantTx_def)
  next
    case False
    then show ?thesis
      by (simp add: VerifyBalances_def store_VerifyBalances_def read_tx_result [OF dq] verify_empty [OF inv] split: option.split)
  qed
qed

theorem verifier_finds_nothing_witness:
  "VerifyBalances id 1 100 sample_db = (Inr [], sample_db)"
proof -
  have "find_ledger 1 100 sample_db \<noteq> None" by code_simp
  then show ?thesis using verifier_finds_nothing [OF sample_reachable(3), of id 1 100] by simp
qed

lemma active_held_nonneg: "\<forall>r \<in> set rs. 0 < sint (Units (h_Amount (hr_hold r))) \<Longrightarrow> 0 \<le> active_held rs acc asset"
  by (induction rs) (auto simp: active_held_def)

lemma active_held_pos:
  assumes "\<forall>r \<in> set rs. 0 < sint (Units (h_Amount (hr_hold r)))" and "r \<in> set rs" and "h_Status (hr_hold r) = HoldActive"
  shows "0 < active_held rs (h_AccountID (hr_hold r)) (Asset (h_Amount (hr_hold r)))"
  using assms
proof (induction rs)
  case (Cons x xs)
  have "0 \<le> active_held xs (h_AccountID (hr_hold r)) (Asset (h_Amount (hr_hold r)))"
    using Cons.prems(1) by (intro active_held_nonneg) simp
  then show ?case using Cons by (fastforce simp: active_held_def)
qed simp

text \<open>
  C3. Funds on hold: in every reachable database, the \<open>held\<close> column of every balance row is the
  exact total of the active holds on that account and asset, and every active hold is on an
  account of its own tenant that has such a row.
\<close>

theorem held_is_total_of_active_holds:
  assumes "ledger_step\<^sup>*\<^sup>* empty_db d"
  shows "(\<forall>b \<in> set (db_balances d). br_held b =
      (\<Sum>r\<leftarrow>db_holds d. if h_Status (hr_hold r) = HoldActive \<and> h_AccountID (hr_hold r) = br_account b
         \<and> Asset (h_Amount (hr_hold r)) = br_asset b then sint (Units (h_Amount (hr_hold r))) else 0))
    \<and> (\<forall>r \<in> set (db_holds d). h_Status (hr_hold r) = HoldActive \<longrightarrow>
        (\<exists>b \<in> set (db_balances d). br_account b = h_AccountID (hr_hold r) \<and> br_asset b = Asset (h_Amount (hr_hold r))
           \<and> br_tenant b = h_TenantID (hr_hold r) \<and> sint (Units (h_Amount (hr_hold r))) \<le> br_held b))"
proof (intro conjI ballI impI)
  have inv: "struct_ok d" "held_ok d" using ledger.reachable [OF assms] by (auto simp: ledger_inv_def)
  then have h: "\<And>acc asset. held d (acc, asset) = active_held (db_holds d) acc asset" by (simp add: held_ok_def)
  have pos: "\<forall>r \<in> set (db_holds d). 0 < sint (Units (h_Amount (hr_hold r)))"
    using inv by (simp add: struct_ok_def hold_linked_def)
  have look: "find_balance (br_account b) (br_asset b) d = Some b" if "b \<in> set (db_balances d)" for b
    unfolding find_balance_def
  proof (rule find_unique)
    show "y = b" if "y \<in> set (db_balances d)" "br_account y = br_account b \<and> br_asset y = br_asset b" for y
    proof -
      have "distinct (map balance_key (db_balances d))" using inv by (simp add: struct_ok_def ids_ok_def)
      then show ?thesis using that \<open>b \<in> set (db_balances d)\<close> by (metis balance_key_def distinct_map inj_onD)
    qed
  qed (use that in auto)
  show "br_held b = (\<Sum>r\<leftarrow>db_holds d. if h_Status (hr_hold r) = HoldActive \<and> h_AccountID (hr_hold r) = br_account b
         \<and> Asset (h_Amount (hr_hold r)) = br_asset b then sint (Units (h_Amount (hr_hold r))) else 0)" if "b \<in> set (db_balances d)" for b
    using h [of "br_account b" "br_asset b"] look [OF that] by (simp add: held_def active_held_def)
  fix r assume r: "r \<in> set (db_holds d)" "h_Status (hr_hold r) = HoldActive"
  let ?acc = "h_AccountID (hr_hold r)" and ?s = "Asset (h_Amount (hr_hold r))"
  have "held d (?acc, ?s) \<noteq> 0" using active_held_pos [OF pos r] h by simp
  then obtain b where b: "find_balance ?acc ?s d = Some b" by (auto simp: held_def split: option.splits)
  then have b': "b \<in> set (db_balances d)" "br_account b = ?acc" "br_asset b = ?s"
    by (auto simp: find_balance_def dest!: find_Some_filter)
  have "br_tenant b = h_TenantID (hr_hold r)"
    using account_rows_tenant(2) [OF inv(1) b'(1)] account_rows_tenant(3) [OF inv(1) r(1)] tenant_account_unique [OF inv(1)] b'(2) by simp
  moreover have "sint (Units (h_Amount (hr_hold r))) \<le> active_held (db_holds d) ?acc ?s"
    using split_list [OF r(1)] pos r(2) active_held_nonneg
    by (auto simp: active_held_def intro!: add_increasing2 add_increasing sum_list_nonneg)
  then have "sint (Units (h_Amount (hr_hold r))) \<le> br_held b" using h [of ?acc ?s] b by (simp add: held_def)
  ultimately show "\<exists>b \<in> set (db_balances d). br_account b = ?acc \<and> br_asset b = ?s \<and> br_tenant b = h_TenantID (hr_hold r)
      \<and> sint (Units (h_Amount (hr_hold r))) \<le> br_held b"
    using b' by blast
qed

theorem held_is_total_of_active_holds_witness:
  "map br_held (db_balances sample_db) = [120, 0] \<and> length (db_holds sample_db) = 1
   \<and> list_all (\<lambda>b. br_held b =
      (\<Sum>r\<leftarrow>db_holds sample_db. if h_Status (hr_hold r) = HoldActive \<and> h_AccountID (hr_hold r) = br_account b
         \<and> Asset (h_Amount (hr_hold r)) = br_asset b then sint (Units (h_Amount (hr_hold r))) else 0)) (db_balances sample_db)"
proof (intro conjI)
  show "map br_held (db_balances sample_db) = [120, 0]" by code_simp
  show "length (db_holds sample_db) = 1" by code_simp
qed (use held_is_total_of_active_holds [OF sample_reachable(3)] in \<open>unfold list_all_iff, blast\<close>)

section \<open>Trial balance\<close>

lemma row_sum_partition:
  "distinct ks \<Longrightarrow> (\<And>p. p \<in> set ps \<Longrightarrow> P p \<Longrightarrow> g p \<in> set ks) \<Longrightarrow>
    row_sum P ps = (\<Sum>k\<leftarrow>ks. row_sum (\<lambda>p. P p \<and> g p = k) ps)"
proof (induction ks arbitrary: P)
  case Nil
  then have "row_sum P ps = row_sum (\<lambda>p. False) ps" by (intro row_sum_cong) auto
  also have "\<dots> = 0" by (induction ps) auto
  finally show ?case by simp
next
  case (Cons k ks)
  have "row_sum P ps = row_sum (\<lambda>p. P p \<and> g p = k) ps + row_sum (\<lambda>p. P p \<and> g p \<noteq> k) ps"
    by (rule row_sum_split)
  also have "row_sum (\<lambda>p. P p \<and> g p \<noteq> k) ps = (\<Sum>k'\<leftarrow>ks. row_sum (\<lambda>p. (P p \<and> g p \<noteq> k) \<and> g p = k') ps)"
    using Cons.prems by (intro Cons.IH) auto
  also have "\<dots> = (\<Sum>k'\<leftarrow>ks. row_sum (\<lambda>p. P p \<and> g p = k') ps)"
    using Cons.prems(1) by (intro arg_cong [of _ _ sum_list] map_cong) (auto intro!: row_sum_cong)
  finally show ?case by simp
qed

lemma row_sum_none: "(\<And>p. p \<in> set ps \<Longrightarrow> \<not> P p) \<Longrightarrow> row_sum P ps = 0"
  by (induction ps) auto

lemma row_sum_filter: "row_sum P (filter Q ps) = row_sum (\<lambda>p. Q p \<and> P p) ps"
  by (induction ps) auto

text \<open>Over any set of firm transactions, the debits of an asset equal its credits.\<close>

lemma firm_sides_equal:
  assumes so: "struct_ok d" and de: "double_entry d"
    and firm: "\<And>p. p \<in> set (db_postings d) \<Longrightarrow> R p \<Longrightarrow>
      \<exists>t \<in> set (db_transactions d). t_ID t = pr_tx p \<and> (t_Status t = TransactionPosted \<or> t_Status t = TransactionReversed)"
    and whole: "\<And>p q. p \<in> set (db_postings d) \<Longrightarrow> q \<in> set (db_postings d) \<Longrightarrow> pr_tx p = pr_tx q \<Longrightarrow> R p = R q"
  shows "row_sum (\<lambda>p. R p \<and> pr_asset p = s \<and> pr_direction p = DirectionDebit) (db_postings d)
       = row_sum (\<lambda>p. R p \<and> pr_asset p = s \<and> pr_direction p = DirectionCredit) (db_postings d)"
proof -
  let ?ps = "db_postings d"
  have dist: "distinct (map t_ID (db_transactions d))" using so by (simp add: struct_ok_def ids_ok_def)
  have part: "row_sum (\<lambda>p. R p \<and> pr_asset p = s \<and> pr_direction p = dir) ?ps
      = (\<Sum>i\<leftarrow>map t_ID (db_transactions d). row_sum (\<lambda>p. (R p \<and> pr_asset p = s \<and> pr_direction p = dir) \<and> pr_tx p = i) ?ps)" for dir
    using firm by (intro row_sum_partition [OF dist]) force
  have "row_sum (\<lambda>p. (R p \<and> pr_asset p = s \<and> pr_direction p = DirectionDebit) \<and> pr_tx p = i) ?ps
      = row_sum (\<lambda>p. (R p \<and> pr_asset p = s \<and> pr_direction p = DirectionCredit) \<and> pr_tx p = i) ?ps" for i
  proof (cases "\<exists>p \<in> set ?ps. R p \<and> pr_tx p = i")
    case True
    then obtain p t where p: "p \<in> set ?ps" "R p" "pr_tx p = i" and t: "t \<in> set (db_transactions d)" "t_ID t = i"
      "t_Status t = TransactionPosted \<or> t_Status t = TransactionReversed"
      using firm by blast
    have "rows_balanced (tx_rows i d)" using de t unfolding double_entry_def by blast
    moreover have "row_sum (\<lambda>p. (R p \<and> pr_asset p = s \<and> pr_direction p = dir) \<and> pr_tx p = i) ?ps
        = row_sum (\<lambda>p. pr_asset p = s \<and> pr_direction p = dir) (tx_rows i d)" for dir
      unfolding tx_rows_def row_sum_filter using whole [OF p(1)] p(2,3) by (intro row_sum_cong) blast
    ultimately show ?thesis by (simp add: rows_balanced_def)
  next
    case False
    then show ?thesis by (simp add: row_sum_none)
  qed
  then show ?thesis unfolding part by simp
qed

lemma of_int_sum_list: "sum_list (map (\<lambda>x. word_of_int (f x) :: int64) xs) = word_of_int (\<Sum>x\<leftarrow>xs. f x)"
  by (induction xs) simp_all

text \<open>The totals of the report are the wrapped column sums of its rows.\<close>

definition asset_total :: "(TrialBalanceRow \<Rightarrow> int64) \<Rightarrow> string \<Rightarrow> TrialBalanceRow list \<Rightarrow> int64" where
  "asset_total f s rows = sum_list (map f (filter (\<lambda>r. tbr_Asset r = s) rows))"

lemma add_total_assets: "tbt_Asset ` set (add_total ts r) = insert (tbr_Asset r) (tbt_Asset ` set ts)"
  by (induction ts r rule: add_total.induct) auto

lemma add_total_distinct: "distinct (map tbt_Asset ts) \<Longrightarrow> distinct (map tbt_Asset (add_total ts r))"
proof (induction ts r rule: add_total.induct)
  case (2 t ts r)
  then show ?case using add_total_assets [of ts r] by (auto simp flip: image_set)
qed simp

lemma foldl_add_total:
  assumes "distinct (map tbt_Asset ts)" and "t \<in> set (foldl add_total ts rows)"
  shows "tbt_Debits t = sum_list (map tbt_Debits (filter (\<lambda>x. tbt_Asset x = tbt_Asset t) ts)) + asset_total tbr_Debits (tbt_Asset t) rows
    \<and> tbt_Credits t = sum_list (map tbt_Credits (filter (\<lambda>x. tbt_Asset x = tbt_Asset t) ts)) + asset_total tbr_Credits (tbt_Asset t) rows"
  using assms
proof (induction rows arbitrary: ts)
  case Nil
  then have "filter (\<lambda>x. tbt_Asset x = tbt_Asset t) ts = [t]"
  proof (induction ts)
    case (Cons x ts)
    have "filter (\<lambda>x. tbt_Asset x = tbt_Asset t) ts = []" if "x = t"
      using Cons.prems(1) that by (auto simp: filter_empty_conv image_iff dest: sym)
    then show ?case using Cons by auto
  qed simp
  then show ?case by (simp add: asset_total_def)
next
  case (Cons r rows)
  have "sum_list (map tbt_Debits (filter (\<lambda>x. tbt_Asset x = a) (add_total ts r)))
      = sum_list (map tbt_Debits (filter (\<lambda>x. tbt_Asset x = a) ts)) + (if tbr_Asset r = a then tbr_Debits r else 0)"
    "sum_list (map tbt_Credits (filter (\<lambda>x. tbt_Asset x = a) (add_total ts r)))
      = sum_list (map tbt_Credits (filter (\<lambda>x. tbt_Asset x = a) ts)) + (if tbr_Asset r = a then tbr_Credits r else 0)" for a
    by (induction ts r rule: add_total.induct) auto
  then show ?case
    using Cons.IH [OF add_total_distinct [OF Cons.prems(1)], of r] Cons.prems(2) by (auto simp: asset_total_def)
qed

lemma totals_balanced:
  assumes "\<And>s. asset_total tbr_Debits s rows = asset_total tbr_Credits s rows" and "t \<in> set (tb_totals rows)"
  shows "tbt_Balanced t"
  using assms foldl_add_total [of "[]" _ rows] by (auto simp: tb_totals_def)

lemma map_e_Inr: "map_e f xs = Inr ys \<Longrightarrow> list_all2 (\<lambda>x y. f x = Inr y) xs ys"
  by (induction xs arbitrary: ys) (auto simp: bindE_Inr_iff)

lemma asset_total_mapped:
  assumes "list_all2 (\<lambda>x r. tbr_Asset r = a x \<and> f r = word_of_int (F x)) xs rows"
  shows "asset_total f s rows = word_of_int (\<Sum>x\<leftarrow>filter (\<lambda>x. a x = s) xs. F x)"
  using assms by (induction rule: list_all2_induct) (auto simp: asset_total_def)

lemma asset_total_sort: "asset_total f s (map g (sort_key k xs)) = asset_total f s (map g xs)"
proof -
  have "mset (map f (filter (\<lambda>r. tbr_Asset r = s) (map g (sort_key k xs)))) = mset (map f (filter (\<lambda>r. tbr_Asset r = s) (map g xs)))"
    by (simp add: filter_map filter_sort)
  then show ?thesis unfolding asset_total_def by (metis sum_mset_sum_list)
qed

text \<open>
  The current report: its column totals are the sums of the firm postings on the accounts of
  the ledger, because each counter equals its postings and each posting has a counter.
\<close>

definition in_ledger :: "uuid \<Rightarrow> uuid \<Rightarrow> Db \<Rightarrow> PostingRow \<Rightarrow> bool" where
  "in_ledger tn ledgerID d p \<longleftrightarrow> pr_tenant p = tn \<and> account_in_ledger tn ledgerID d (pr_account p) \<noteq> None"

lemma current_total:
  assumes inv: "ledger_inv d" and c: "col_posted c" and f: "\<And>b a. f (g (b, a)) = word_of_int (col c b)" and g: "\<And>b a. tbr_Asset (g (b, a)) = br_asset b"
  shows "asset_total f s (map g (map (\<lambda>b. (b, the (account_in_ledger tn ledgerID d (br_account b))))
           (filter (\<lambda>b. br_tenant b = tn \<and> account_in_ledger tn ledgerID d (br_account b) \<noteq> None) (db_balances d))))
    = word_of_int (row_sum (\<lambda>p. (in_ledger tn ledgerID d p \<and> col_counts c (tx_status d (pr_tx p))) \<and> pr_asset p = s \<and> pr_direction p = col_direction c) (db_postings d))"
proof -
  have so: "struct_ok d" and cnt: "\<And>k. stored d k = computed d k" using inv by (auto simp: ledger_inv_def counters_ok_def)
  define bs where "bs = filter (\<lambda>b. (br_tenant b = tn \<and> account_in_ledger tn ledgerID d (br_account b) \<noteq> None) \<and> br_asset b = s) (db_balances d)"
  have look: "find_balance (br_account b) (br_asset b) d = Some b" if "b \<in> set (db_balances d)" for b
    unfolding find_balance_def
  proof (rule find_unique)
    show "y = b" if "y \<in> set (db_balances d)" "br_account y = br_account b \<and> br_asset y = br_asset b" for y
    proof -
      have "distinct (map balance_key (db_balances d))" using so by (simp add: struct_ok_def ids_ok_def)
      then show ?thesis using that \<open>b \<in> set (db_balances d)\<close> by (metis balance_key_def distinct_map inj_onD)
    qed
  qed (use that in auto)
  let ?P = "\<lambda>p. (in_ledger tn ledgerID d p \<and> col_counts c (tx_status d (pr_tx p))) \<and> pr_asset p = s \<and> pr_direction p = col_direction c"
  have "asset_total f s (map g (map (\<lambda>b. (b, the (account_in_ledger tn ledgerID d (br_account b))))
           (filter (\<lambda>b. br_tenant b = tn \<and> account_in_ledger tn ledgerID d (br_account b) \<noteq> None) (db_balances d))))
      = sum_list (map (\<lambda>b. word_of_int (col c b)) bs)"
    unfolding bs_def asset_total_def by (simp add: filter_map comp_def f g)
  also have "\<dots> = word_of_int (\<Sum>b\<leftarrow>bs. col c b)" by (rule of_int_sum_list)
  also have "(\<Sum>b\<leftarrow>bs. col c b) = (\<Sum>b\<leftarrow>bs. row_sum (\<lambda>p. ?P p \<and> pr_account p = br_account b) (db_postings d))"
  proof (intro arg_cong [of _ _ sum_list] map_cong refl)
    fix b assume "b \<in> set bs"
    then have b: "b \<in> set (db_balances d)" "br_tenant b = tn" "account_in_ledger tn ledgerID d (br_account b) \<noteq> None" "br_asset b = s"
      by (auto simp: bs_def)
    have ten: "pr_tenant p = tn" if "p \<in> set (db_postings d)" "pr_account p = br_account b" for p
      using account_rows_tenant(1) [OF so that(1)] account_rows_tenant(2) [OF so b(1)] tenant_account_unique [OF so] that(2) b(2) by metis
    have "col c b = stored d (c, br_account b, br_asset b)" using look [OF b(1)] by simp
    also have "\<dots> = row_sum (\<lambda>p. ?P p \<and> pr_account p = br_account b) (db_postings d)"
      unfolding cnt computed.simps using ten b by (intro row_sum_cong) (auto simp: in_ledger_def)
    finally show "col c b = row_sum (\<lambda>p. ?P p \<and> pr_account p = br_account b) (db_postings d)" .
  qed
  also have "\<dots> = (\<Sum>k\<leftarrow>map br_account bs. row_sum (\<lambda>p. ?P p \<and> pr_account p = k) (db_postings d))"
    by (simp add: comp_def)
  also have "\<dots> = row_sum ?P (db_postings d)"
  proof (rule row_sum_partition [symmetric])
    have "distinct (map balance_key bs)"
      using so by (simp add: bs_def struct_ok_def ids_ok_def distinct_map_filter)
    moreover have "\<forall>b \<in> set bs. br_asset b = s" by (auto simp: bs_def)
    ultimately show "distinct (map br_account bs)"
      by (auto simp: distinct_map inj_on_def balance_key_def)
    fix p assume p: "p \<in> set (db_postings d)" "?P p"
    have pos: "\<And>q. q \<in> set (db_postings d) \<Longrightarrow> 0 < pr_amount q" using so by (simp add: struct_ok_def posting_linked_def)
    have "pr_amount p \<le> computed d (c, pr_account p, s)"
      unfolding computed.simps using p pos by (intro row_sum_ge) (auto intro: less_imp_le)
    then have "stored d (c, pr_account p, s) \<noteq> 0" unfolding cnt using pos [OF p(1)] by linarith
    then obtain b where "find_balance (pr_account p) s d = Some b" by (auto split: option.splits)
    then have b: "b \<in> set (db_balances d)" "br_account b = pr_account p" "br_asset b = s"
      by (auto simp: find_balance_def dest!: find_Some_filter)
    have "br_tenant b = tn"
      using account_rows_tenant(1) [OF so p(1)] account_rows_tenant(2) [OF so b(1)] tenant_account_unique [OF so] b(2) p(2)
      unfolding in_ledger_def by metis
    then have "b \<in> set bs" using b p(2) by (simp add: bs_def in_ledger_def)
    then show "pr_account p \<in> set (map br_account bs)" using b(2) by force
  qed
  finally show ?thesis .
qed

lemma in_ledger_whole:
  assumes so: "struct_ok d" and "p \<in> set (db_postings d)" "q \<in> set (db_postings d)" "pr_tx p = pr_tx q"
  shows "in_ledger tn ledgerID d p = in_ledger tn ledgerID d q"
proof -
  have lnk: "in_ledger tn ledgerID d r \<longleftrightarrow> (\<exists>t \<in> set (db_transactions d). t_ID t = pr_tx r \<and> t_TenantID t = tn \<and> t_LedgerID t = ledgerID)"
    if r: "r \<in> set (db_postings d)" for r
  proof -
    have "posting_linked d r" using so r by (simp add: struct_ok_def)
    then obtain t a where ta: "t \<in> set (db_transactions d)" "a \<in> set (db_accounts d)" "t_ID t = pr_tx r" "t_TenantID t = pr_tenant r"
      "a_ID a = pr_account r" "a_TenantID a = pr_tenant r" "a_LedgerID a = t_LedgerID t"
      unfolding posting_linked_def by blast
    have dist: "distinct (map t_ID (db_transactions d))" "distinct (map a_ID (db_accounts d))"
      using so by (simp_all add: struct_ok_def ids_ok_def)
    have "find_account (pr_tenant r) (pr_account r) d = Some a"
      unfolding find_account_def
    proof (rule find_unique)
      show "y = a" if "y \<in> set (db_accounts d)" "a_TenantID y = pr_tenant r \<and> a_ID y = pr_account r" for y
        using dist(2) ta(2,5) that by (metis distinct_map inj_onD)
    qed (use ta in auto)
    then have "in_ledger tn ledgerID d r \<longleftrightarrow> pr_tenant r = tn \<and> a_LedgerID a = ledgerID"
      by (cases "a_LedgerID a = ledgerID") (auto simp: in_ledger_def account_in_ledger_def)
    moreover have "x = t" if "x \<in> set (db_transactions d)" "t_ID x = pr_tx r" for x
      using dist(1) ta(1,3) that by (metis distinct_map inj_onD)
    ultimately show ?thesis using ta(1,3,4,7) by metis
  qed
  show ?thesis using lnk [OF assms(2)] lnk [OF assms(3)] assms(4) by simp
qed

lemma firm_status_posting:
  assumes so: "struct_ok d" and p: "p \<in> set (db_postings d)" and st: "tx_status d (pr_tx p) = TransactionPosted \<or> tx_status d (pr_tx p) = TransactionReversed"
  shows "\<exists>t \<in> set (db_transactions d). t_ID t = pr_tx p \<and> (t_Status t = TransactionPosted \<or> t_Status t = TransactionReversed)"
proof -
  obtain t where t: "find_tx (pr_tenant p) (pr_tx p) d = Some t" "t_Status t = tx_status d (pr_tx p)"
    using find_tx_status [OF so p refl] by blast
  then show ?thesis using st by (auto simp: find_tx_def dest!: find_Some_filter)
qed

lemma current_rows_balanced:
  assumes inv: "ledger_inv d"
  shows "asset_total tbr_Debits s (tb_rows_current ck tn ledgerID d) = asset_total tbr_Credits s (tb_rows_current ck tn ledgerID d)"
proof -
  have so: "struct_ok d" and de: "double_entry d" using inv by (auto simp: ledger_inv_def)
  let ?R = "\<lambda>p. in_ledger tn ledgerID d p \<and> (tx_status d (pr_tx p) = TransactionPosted \<or> tx_status d (pr_tx p) = TransactionReversed)"
  have eq: "row_sum (\<lambda>p. ?R p \<and> pr_asset p = s \<and> pr_direction p = DirectionDebit) (db_postings d)
      = row_sum (\<lambda>p. ?R p \<and> pr_asset p = s \<and> pr_direction p = DirectionCredit) (db_postings d)"
  proof (rule firm_sides_equal [OF so de])
    show "\<exists>t \<in> set (db_transactions d). t_ID t = pr_tx p \<and> (t_Status t = TransactionPosted \<or> t_Status t = TransactionReversed)"
      if "p \<in> set (db_postings d)" "?R p" for p
      using firm_status_posting [OF so] that by blast
    show "?R p = ?R q" if "p \<in> set (db_postings d)" "q \<in> set (db_postings d)" "pr_tx p = pr_tx q" for p q
      using in_ledger_whole [OF so that] that(3) by simp
  qed
  let ?g = "\<lambda>(b, a). \<lparr>tbr_AccountID = br_account b, tbr_AccountName = a_Name a, tbr_AccountType = a_Type a, tbr_Asset = br_asset b,
           tbr_Debits = word_of_int (br_posted_debits b), tbr_Credits = word_of_int (br_posted_credits b)\<rparr>"
  have "asset_total tbr_Debits s (tb_rows_current ck tn ledgerID d)
      = word_of_int (row_sum (\<lambda>p. ?R p \<and> pr_asset p = s \<and> pr_direction p = DirectionDebit) (db_postings d))"
    unfolding tb_rows_current_def asset_total_sort
    by (subst current_total [OF inv, of PostedDebits]) (simp_all add: col_counts_def conj_assoc)
  moreover have "asset_total tbr_Credits s (tb_rows_current ck tn ledgerID d)
      = word_of_int (row_sum (\<lambda>p. ?R p \<and> pr_asset p = s \<and> pr_direction p = DirectionCredit) (db_postings d))"
    unfolding tb_rows_current_def asset_total_sort
    by (subst current_total [OF inv, of PostedCredits]) (simp_all add: col_counts_def conj_assoc)
  ultimately show ?thesis using eq by simp
qed

text \<open>The historical report: the groups partition the selected postings.\<close>

lemma asof_rows_balanced:
  assumes inv: "ledger_inv d" and rows: "tb_rows_asof ck tn ledgerID asOf d = Inr rows"
  shows "asset_total tbr_Debits s rows = asset_total tbr_Credits s rows"
proof -
  have so: "struct_ok d" and de: "double_entry d" using inv by (auto simp: ledger_inv_def)
  let ?R = "\<lambda>p. in_ledger tn ledgerID d p \<and> firm_at tn d (\<lambda>x. x \<le> asOf) (pr_tx p)"
  define ps where "ps = filter ?R (db_postings d)"
  define groups where "groups = sort_key (\<lambda>(acc, asset). (ck (a_Path (the (account_in_ledger tn ledgerID d acc))), ck asset))
                     (remdups (map (\<lambda>p. (pr_account p, pr_asset p)) ps))"
  define F where "F = (\<lambda>dir (acc, asset). row_sum (\<lambda>p. pr_account p = acc \<and> pr_asset p = asset \<and> pr_direction p = dir) ps)"
  have ps': "filter (\<lambda>p. pr_tenant p = tn \<and> account_in_ledger tn ledgerID d (pr_account p) \<noteq> None
                 \<and> firm_at tn d (\<lambda>x. x \<le> asOf) (pr_tx p)) (db_postings d) = ps"
    unfolding ps_def in_ledger_def conj_assoc ..
  have all: "list_all2 (\<lambda>k r. tbr_Asset r = snd k \<and> tbr_Debits r = word_of_int (F DirectionDebit k)
      \<and> tbr_Credits r = word_of_int (F DirectionCredit k)) groups rows"
    using map_e_Inr [OF rows [unfolded tb_rows_asof_def Let_def ps', folded groups_def]]
    by (rule list_all2_mono) (auto simp: F_def bindE_Inr_iff scan64_def split: if_splits)
  have deb: "list_all2 (\<lambda>k r. tbr_Asset r = snd k \<and> tbr_Debits r = word_of_int (F DirectionDebit k)) groups rows"
    and cre: "list_all2 (\<lambda>k r. tbr_Asset r = snd k \<and> tbr_Credits r = word_of_int (F DirectionCredit k)) groups rows"
    using all by (auto elim: list_all2_mono)
  have sum: "(\<Sum>k\<leftarrow>filter (\<lambda>k. snd k = s) groups. F dir k) = row_sum (\<lambda>p. ?R p \<and> pr_asset p = s \<and> pr_direction p = dir) (db_postings d)" for dir
  proof -
    have "row_sum (\<lambda>p. pr_asset p = s \<and> pr_direction p = dir) ps
        = (\<Sum>k\<leftarrow>filter (\<lambda>k. snd k = s) groups. row_sum (\<lambda>p. (pr_asset p = s \<and> pr_direction p = dir) \<and> (pr_account p, pr_asset p) = k) ps)"
      by (rule row_sum_partition) (auto simp: groups_def)
    also have "\<dots> = (\<Sum>k\<leftarrow>filter (\<lambda>k. snd k = s) groups. F dir k)"
      by (intro arg_cong [of _ _ sum_list] map_cong refl) (auto simp: F_def intro!: row_sum_cong)
    finally show ?thesis unfolding ps_def row_sum_filter by simp
  qed
  have "row_sum (\<lambda>p. ?R p \<and> pr_asset p = s \<and> pr_direction p = DirectionDebit) (db_postings d)
      = row_sum (\<lambda>p. ?R p \<and> pr_asset p = s \<and> pr_direction p = DirectionCredit) (db_postings d)"
  proof (rule firm_sides_equal [OF so de])
    show "\<exists>t \<in> set (db_transactions d). t_ID t = pr_tx p \<and> (t_Status t = TransactionPosted \<or> t_Status t = TransactionReversed)"
      if "p \<in> set (db_postings d)" "?R p" for p
      using that(2) by (auto simp: firm_at_def find_tx_def dest!: find_Some_filter split: option.splits)
    show "?R p = ?R q" if "p \<in> set (db_postings d)" "q \<in> set (db_postings d)" "pr_tx p = pr_tx q" for p q
      using in_ledger_whole [OF so that] that(3) by simp
  qed
  then show ?thesis
    using asset_total_mapped [OF deb, of s] asset_total_mapped [OF cre, of s] unfolding sum by simp
qed

text \<open>
  C4. The trial balance always balances: in every reachable database, for every ledger, every asset
  total of the report has the \<open>Balanced\<close> flag set, both for the current balances and for the
  reconstruction at any past instant, even where the totals wrap around \<open>int64\<close>.
\<close>

theorem trial_balance_balances:
  assumes "ledger_step\<^sup>*\<^sup>* empty_db d" and "store_TrialBalance ck tn ledgerID asOf wall d = (Inr report, d')"
  shows "d' = d \<and> tb_LedgerID report = ledgerID
    \<and> (\<forall>t \<in> set (tb_Totals report). tbt_Balanced t \<and> tbt_Debits t = tbt_Credits t)"
proof -
  have inv: "ledger_inv d" by (rule ledger.reachable [OF assms(1)])
  then have dq: "db_deferred d = []" by (simp add: ledger_inv_def)
  have tn: "tn \<noteq> uuid_Nil"
    using assms(2) by (auto simp: store_TrialBalance_def read_tx_def WithTenantTx_def)
  have d': "d' = d" using assms(2) by (simp add: store_TrialBalance_def read_tx_result [OF dq tn])
  obtain rows where rows: "(case asOf of None \<Rightarrow> Inr (tb_rows_current ck tn ledgerID d) | Some x \<Rightarrow> tb_rows_asof ck tn ledgerID x d) = Inr rows"
    and report: "tb_Totals report = tb_totals rows" "tb_LedgerID report = ledgerID"
    using assms(2) by (auto simp: store_TrialBalance_def read_tx_result [OF dq tn] bindE_Inr_iff split: option.splits)
  have bal: "asset_total tbr_Debits s rows = asset_total tbr_Credits s rows" for s
    using rows current_rows_balanced [OF inv] asof_rows_balanced [OF inv] by (auto split: option.splits)
  have "tbt_Balanced t \<and> tbt_Debits t = tbt_Credits t" if "t \<in> set (tb_totals rows)" for t
    using totals_balanced [OF bal that] that by (auto simp: tb_totals_def)
  then show ?thesis using d' report by simp
qed

theorem trial_balance_balances_witness:
  "\<exists>report. store_TrialBalance id 1 100 (Some 450) 0 sample_db = (Inr report, sample_db)
     \<and> length (tb_Totals report) = 1 \<and> list_all (\<lambda>t. tbt_Balanced t \<and> tbt_Debits t = tbt_Credits t) (tb_Totals report)"
proof -
  have n: "(case fst (store_TrialBalance id 1 100 (Some 450) 0 sample_db) of Inr r \<Rightarrow> length (tb_Totals r) = 1 | Inl _ \<Rightarrow> False)"
    by code_simp
  then obtain report d' where r: "store_TrialBalance id 1 100 (Some 450) 0 sample_db = (Inr report, d')"
    by (cases "store_TrialBalance id 1 100 (Some 450) 0 sample_db") (auto split: sum.splits)
  from trial_balance_balances [OF sample_reachable(3) r] r n show ?thesis by (auto simp: list_all_iff)
qed

end
