(* ===== verification/Recon_Csv.thy ===== *)
theory Recon_Csv
  imports Money Text
begin

text \<open>
  The statement parser of the reconciliation service,
  \<open>services/reconciliation/internal/domain/csv.go\<close>, over the record reader of Go's \<open>encoding/csv\<close> as
  the parser configures it: comma, double quotes, leading space trimmed, the header fixing the
  number of fields. The RFC 3339 reader is the parameter \<open>timeParse\<close>; an error value names the
  failing row and the check that failed, not the message.
\<close>

section \<open>Reading records\<close>

datatype csv_error = ErrBareQuote | ErrQuote | ErrFieldCount

text \<open>
  Lines with their terminator, \<open>\r\n\<close> normalised to \<open>\n\<close>; the last line may lack one, and loses
  a trailing \<open>\r\<close>.
\<close>

definition chomp_cr :: "string \<Rightarrow> string" where
  "chomp_cr l = (if l \<noteq> [] \<and> last l = CHR 0x0D then butlast l else l)"

fun csv_lines_from :: "string \<Rightarrow> string \<Rightarrow> string list" where
  "csv_lines_from cur [] = (if cur = [] then [] else [chomp_cr (rev cur)])"
| "csv_lines_from cur (c # cs) =
     (if c = CHR 0x0A then (chomp_cr (rev cur) @ [c]) # csv_lines_from [] cs else csv_lines_from (c # cur) cs)"

definition csv_lines :: "string \<Rightarrow> string list" where
  "csv_lines s = csv_lines_from [] s"

definition strip_nl :: "string \<Rightarrow> string" where
  "strip_nl l = (if l \<noteq> [] \<and> last l = CHR 0x0A then butlast l else l)"

text \<open>
  The inside of a quoted field: doubled quotes stand for one, line ends belong to the field. The
  result is the field, what is left of the line when a comma follows, and the lines after it.
\<close>

fun csv_quoted :: "string \<Rightarrow> string list \<Rightarrow> string \<Rightarrow> csv_error + string \<times> string option \<times> string list" where
  "csv_quoted [] rest acc = Inl ErrQuote"
| "csv_quoted (c # cs) rest acc =
     (if c = CHR 0x22 then
        (if cs = [] \<or> cs = [CHR 0x0A] then Inr (acc, None, rest)
         else if hd cs = CHR 0x22 then csv_quoted (tl cs) rest (acc @ [CHR 0x22])
         else if hd cs = CHR '','' then Inr (acc, Some (tl cs), rest)
         else Inl ErrQuote)
      else if cs = [] then (case rest of [] \<Rightarrow> Inl ErrQuote | l # ls \<Rightarrow> csv_quoted l ls (acc @ [c]))
      else csv_quoted cs rest (acc @ [c]))"

lemma csv_quoted_shrinks:
  "csv_quoted line rest acc = Inr (f, m, rest') \<Longrightarrow>
     length rest' \<le> length rest
     \<and> (case m of None \<Rightarrow> True | Some l \<Rightarrow> length l + sum_list (map length rest') < length line + sum_list (map length rest))"
proof (induction line rest acc rule: csv_quoted.induct)
  case (2 c cs rest acc)
  consider "c = CHR 0x22" "cs = [] \<or> cs = [CHR 0x0A]"
    | "c = CHR 0x22" "\<not> (cs = [] \<or> cs = [CHR 0x0A])" "hd cs = CHR 0x22"
    | "c = CHR 0x22" "\<not> (cs = [] \<or> cs = [CHR 0x0A])" "hd cs \<noteq> CHR 0x22"
    | "c \<noteq> CHR 0x22" "cs = []" | "c \<noteq> CHR 0x22" "cs \<noteq> []"
    by blast
  then show ?case
  proof cases
    case 1
    then show ?thesis using "2.prems" by simp
  next
    case 2
    have "csv_quoted (tl cs) rest (acc @ [CHR 0x22]) = Inr (f, m, rest')" using 2 "2.prems" by simp
    from "2.IH"(1) [OF 2 this] have "length rest' \<le> length rest
        \<and> (case m of None \<Rightarrow> True | Some l \<Rightarrow> length l + sum_list (map length rest') < length (tl cs) + sum_list (map length rest))" .
    then show ?thesis by (cases m) auto
  next
    case 3
    then have "m = Some (tl cs)" "rest' = rest" "cs \<noteq> []" using "2.prems" by (auto split: if_splits)
    then show ?thesis by (cases cs) auto
  next
    case 4
    then obtain l ls where r: "rest = l # ls" using "2.prems" by (cases rest) auto
    then have "csv_quoted l ls (acc @ [c]) = Inr (f, m, rest')" using 4 "2.prems" by simp
    from "2.IH"(2) [OF 4 r this] show ?thesis unfolding r by (cases m) auto
  next
    case 5
    then have "csv_quoted cs rest (acc @ [c]) = Inr (f, m, rest')" using "2.prems" by simp
    from "2.IH"(3) [OF 5 this] show ?thesis by (cases m) auto
  qed
qed simp

text \<open>One record, from the first line of it; the fields read so far are \<open>fs\<close>.\<close>

function csv_fields :: "string \<Rightarrow> string list \<Rightarrow> string list \<Rightarrow> csv_error + string list \<times> string list" where
  "csv_fields line0 rest fs =
     (let line = dropWhile is_space line0 in
      if line = [] \<or> hd line \<noteq> CHR 0x22 then
        (if CHR '','' \<in> set line then
           (let field = takeWhile (\<lambda>c. c \<noteq> CHR '','') line in
            if CHR 0x22 \<in> set field then Inl ErrBareQuote
            else csv_fields (tl (dropWhile (\<lambda>c. c \<noteq> CHR '','') line)) rest (fs @ [field]))
         else (let field = strip_nl line in
            if CHR 0x22 \<in> set field then Inl ErrBareQuote else Inr (fs @ [field], rest)))
      else (case csv_quoted (tl line) rest [] of
          Inl e \<Rightarrow> Inl e
        | Inr (f, None, rest') \<Rightarrow> Inr (fs @ [f], rest')
        | Inr (f, Some l, rest') \<Rightarrow> csv_fields l rest' (fs @ [f])))"
  by pat_completeness auto

lemma length_after_comma:
  "CHR '','' \<in> set line \<Longrightarrow> length (tl (dropWhile (\<lambda>c. c \<noteq> CHR '','') line)) < length line"
  by (induction line) auto

termination csv_fields
proof (relation "measure (\<lambda>(line, rest, fs). length line + sum_list (map length rest))")
  fix line0 :: string and rest :: "string list" and fs :: "string list" and line :: string and field :: string
  assume l: "line = dropWhile is_space line0" and "CHR '','' \<in> set line"
  then have "length (tl (dropWhile (\<lambda>c. c \<noteq> CHR '','') line)) < length line0"
    using length_after_comma length_dropWhile_le le_trans by (metis leD not_le_imp_less)
  then show "((tl (dropWhile (\<lambda>c. c \<noteq> CHR '','') line), rest, fs @ [field]), (line0, rest, fs))
      \<in> measure (\<lambda>(line, rest, fs). length line + sum_list (map length rest))" by simp
next
  fix line0 :: string and rest fs :: "string list" and line f l :: string and a :: "string \<times> string option \<times> string list"
    and b :: "string option \<times> string list" and rest' :: "string list" and c
  assume l: "line = dropWhile is_space line0" and "\<not> (line = [] \<or> hd line \<noteq> CHR 0x22)"
    and q: "csv_quoted (tl line) rest [] = Inr a" "(f, b) = a" "(c, rest') = b" "c = Some l"
  have "length (tl line) < length line0"
    using \<open>\<not> (line = [] \<or> hd line \<noteq> CHR 0x22)\<close> length_dropWhile_le [of is_space line0] unfolding l [symmetric]
    by (cases line) auto
  moreover have "length l + sum_list (map length rest') < length (tl line) + sum_list (map length rest)"
    using csv_quoted_shrinks [of "tl line" rest "[]" f "Some l" rest'] q by auto
  ultimately show "((l, rest', fs @ [f]), (line0, rest, fs)) \<in> measure (\<lambda>(line, rest, fs). length line + sum_list (map length rest))"
    by simp
qed auto

lemma csv_quoted_rest: "csv_quoted line rest acc = Inr (f, m, rest') \<Longrightarrow> length rest' \<le> length rest"
  using csv_quoted_shrinks by blast

declare csv_fields.simps [simp del]

lemma csv_fields_bare:
  assumes "line = dropWhile is_space line0" and "line = [] \<or> hd line \<noteq> CHR 0x22"
  shows "csv_fields line0 rest fs =
     (if CHR '','' \<in> set line then
        (if CHR 0x22 \<in> set (takeWhile (\<lambda>c. c \<noteq> CHR '','') line) then Inl ErrBareQuote
         else csv_fields (tl (dropWhile (\<lambda>c. c \<noteq> CHR '','') line)) rest (fs @ [takeWhile (\<lambda>c. c \<noteq> CHR '','') line]))
      else if CHR 0x22 \<in> set (strip_nl line) then Inl ErrBareQuote else Inr (fs @ [strip_nl line], rest))"
  unfolding csv_fields.simps [of line0 rest fs] Let_def assms(1) [symmetric] using assms(2) by presburger

lemma csv_fields_quote:
  assumes "line = dropWhile is_space line0" and "\<not> (line = [] \<or> hd line \<noteq> CHR 0x22)"
  shows "csv_fields line0 rest fs =
     (case csv_quoted (tl line) rest [] of
        Inl e \<Rightarrow> Inl e
      | Inr (f, None, rest') \<Rightarrow> Inr (fs @ [f], rest')
      | Inr (f, Some l, rest') \<Rightarrow> csv_fields l rest' (fs @ [f]))"
  unfolding csv_fields.simps [of line0 rest fs] Let_def assms(1) [symmetric] using assms(2) by presburger

lemma csv_fields_rest: "csv_fields line rest fs = Inr (gs, rest') \<Longrightarrow> length rest' \<le> length rest"
proof (induction line rest fs rule: csv_fields.induct)
  case (1 line0 rest fs)
  define line where line: "line = dropWhile is_space line0"
  show ?case
  proof (cases "line = [] \<or> hd line \<noteq> CHR 0x22")
    case True
    show ?thesis
      using "1.prems" "1.IH"(1) [OF line True _ refl] unfolding csv_fields_bare [OF line True]
      by (auto split: if_splits)
  next
    case False
    note e = "1.prems" [unfolded csv_fields_quote [OF line False]]
    then obtain f m r where q: "csv_quoted (tl line) rest [] = Inr (f, m, r)"
      by (cases "csv_quoted (tl line) rest []") auto
    then have r: "length r \<le> length rest" by (rule csv_quoted_rest)
    show ?thesis
    proof (cases m)
      case None
      then show ?thesis using e q r by simp
    next
      case (Some l)
      then have "csv_fields l r (fs @ [f]) = Inr (gs, rest')" using e q by simp
      then have "length rest' \<le> length r"
        using "1.IH"(2) [OF line False q refl] Some by auto
      then show ?thesis using r by linarith
    qed
  qed
qed

text \<open>\<open>Reader.Read\<close>: empty lines are skipped; \<^const>\<open>None\<close> is the end of the file.\<close>

definition csv_read :: "string list \<Rightarrow> (csv_error + string list \<times> string list) option" where
  "csv_read ls = (case dropWhile (\<lambda>l. l = [] \<or> l = [CHR 0x0A]) ls of
      [] \<Rightarrow> None
    | l # rest \<Rightarrow> Some (csv_fields l rest []))"

text \<open>
  The records after the header, each with the field count of the header; the parser stops at the
  first error.
\<close>

function csv_records :: "nat \<Rightarrow> string list \<Rightarrow> (csv_error + string list) list" where
  "csv_records n ls =
     (case csv_read ls of
        None \<Rightarrow> []
      | Some (Inl e) \<Rightarrow> [Inl e]
      | Some (Inr (rec, rest)) \<Rightarrow> if length rec \<noteq> n then [Inl ErrFieldCount] else Inr rec # csv_records n rest)"
  by pat_completeness auto

lemma csv_read_rest: "csv_read ls = Some (Inr (rec, rest)) \<Longrightarrow> length rest < length ls"
proof -
  assume r: "csv_read ls = Some (Inr (rec, rest))"
  then obtain l ls' where d: "dropWhile (\<lambda>l. l = [] \<or> l = [CHR 0x0A]) ls = l # ls'" and f: "csv_fields l ls' [] = Inr (rec, rest)"
    by (auto simp: csv_read_def split: list.splits)
  have "length (l # ls') \<le> length ls" unfolding d [symmetric] by (rule length_dropWhile_le)
  then show ?thesis using csv_fields_rest [OF f] by simp
qed

termination csv_records
  by (relation "measure (\<lambda>(n, ls). length ls)") (auto dest: csv_read_rest)

declare csv_records.simps [simp del]

section \<open>Statement rows\<close>

definition DefaultCSVExponent :: int where
  "DefaultCSVExponent = 2"

definition recon_assetExponents :: "(string \<times> int) list" where
  "recon_assetExponents =
     [(''JPY'', 0), (''KRW'', 0), (''CLP'', 0), (''VND'', 0), (''ISK'', 0),
      (''BHD'', 3), (''KWD'', 3), (''OMR'', 3), (''TND'', 3)]"

definition recon_DefaultAssetExponent :: "string \<Rightarrow> int" where
  "recon_DefaultAssetExponent asset =
     (case map_of recon_assetExponents (to_upper asset) of Some e \<Rightarrow> e | None \<Rightarrow> DefaultCSVExponent)"

definition FixedExponent :: "int \<Rightarrow> string \<Rightarrow> int" where
  "FixedExponent n = (\<lambda>_. n)"

record StatementRow =
  sr_ExternalRef :: string
  sr_AmountUnits :: int64
  sr_Asset :: string
  sr_Direction :: string
  sr_OccurredAt :: timestamp
  sr_Raw :: "(string \<times> string) list"

datatype row_error =
    BadRecord csv_error | RefRequired | RefTooLong | AssetRequired | BadAsset money_error
  | BadAmount money_error | BadOccurredAt | BadDirection

datatype statement_error = EmptyFile | BadHeader csv_error | MissingColumn string | BadRow nat row_error

definition csvColumns :: "string list" where
  "csvColumns = [''external_ref'', ''amount'', ''asset'', ''occurred_at'']"

text \<open>\<open>colIdx\<close>: a repeated column name keeps its last position.\<close>

definition col_index :: "string list \<Rightarrow> string \<Rightarrow> nat option" where
  "col_index header col = map_of (rev (zip (map (\<lambda>c. to_lower (TrimSpace c)) header) [0..<length header])) col"

definition field_of :: "string list \<Rightarrow> string list \<Rightarrow> string \<Rightarrow> string" where
  "field_of header rec col =
     (case col_index header col of
        None \<Rightarrow> ''''
      | Some i \<Rightarrow> if i < length rec then TrimSpace (rec ! i) else '''')"

definition direction_of :: "string list \<Rightarrow> string list \<Rightarrow> row_error + string" where
  "direction_of header rec =
     (if col_index header ''direction'' = None then Inr ''''
      else let d = to_upper (field_of header rec ''direction'') in
        if d = '''' \<or> d = ''DEBIT'' \<or> d = ''CREDIT'' then Inr d else Inl BadDirection)"

text \<open>One data record; the \<open>raw\<close> map is kept sorted by column name.\<close>

definition parse_row :: "(string \<Rightarrow> timestamp option) \<Rightarrow> (string \<Rightarrow> int) \<Rightarrow> string list \<Rightarrow> string list \<Rightarrow> row_error + StatementRow" where
  "parse_row timeParse exp header rec =
     (let ref = field_of header rec ''external_ref''; asset = field_of header rec ''asset'';
          rawAmount = field_of header rec ''amount''; rawOccurred = field_of header rec ''occurred_at'';
          rawDirection = field_of header rec ''direction'' in
      if ref = '''' then Inl RefRequired
      else if length ref > 255 then Inl RefTooLong
      else if asset = '''' then Inl AssetRequired
      else case ValidateAssetCode asset of
        Inl e \<Rightarrow> Inl (BadAsset e)
      | Inr _ \<Rightarrow>
        (case ParseUnits rawAmount (exp asset) of
           Inl e \<Rightarrow> Inl (BadAmount e)
         | Inr units \<Rightarrow>
           (case timeParse rawOccurred of
              None \<Rightarrow> Inl BadOccurredAt
            | Some occurredAt \<Rightarrow> bindE (direction_of header rec) (\<lambda>direction.
                Inr \<lparr>sr_ExternalRef = ref, sr_AmountUnits = units, sr_Asset = asset, sr_Direction = direction,
                     sr_OccurredAt = occurredAt,
                     sr_Raw = [(''amount'', rawAmount), (''asset'', asset)]
                       @ (if rawDirection \<noteq> '''' then [(''direction'', rawDirection)] else [])
                       @ [(''external_ref'', ref), (''occurred_at'', rawOccurred)]\<rparr>))))"

fun parse_rows ::
  "(string \<Rightarrow> timestamp option) \<Rightarrow> (string \<Rightarrow> int) \<Rightarrow> string list \<Rightarrow> nat \<Rightarrow> (csv_error + string list) list \<Rightarrow> statement_error + StatementRow list" where
  "parse_rows timeParse exp header rowNum [] = Inr []"
| "parse_rows timeParse exp header rowNum (Inl e # rs) = Inl (BadRow (rowNum + 1) (BadRecord e))"
| "parse_rows timeParse exp header rowNum (Inr rec # rs) =
     (case parse_row timeParse exp header rec of
        Inl e \<Rightarrow> Inl (BadRow (rowNum + 1) e)
      | Inr row \<Rightarrow> bindE (parse_rows timeParse exp header (rowNum + 1) rs) (\<lambda>rows. Inr (row # rows)))"

definition parse_table ::
  "(string \<Rightarrow> timestamp option) \<Rightarrow> (string \<Rightarrow> int) \<Rightarrow> string list \<Rightarrow> (csv_error + string list) list \<Rightarrow> statement_error + StatementRow list" where
  "parse_table timeParse exp header recs =
     (case find (\<lambda>col. col_index header col = None) csvColumns of
        Some col \<Rightarrow> Inl (MissingColumn col)
      | None \<Rightarrow> parse_rows timeParse exp header 1 recs)"

definition ParseStatementCSV :: "(string \<Rightarrow> timestamp option) \<Rightarrow> string \<Rightarrow> (string \<Rightarrow> int) \<Rightarrow> statement_error + StatementRow list" where
  "ParseStatementCSV timeParse body exp =
     (case csv_read (csv_lines body) of
        None \<Rightarrow> Inl EmptyFile
      | Some (Inl e) \<Rightarrow> Inl (BadHeader e)
      | Some (Inr (header, rest)) \<Rightarrow> parse_table timeParse exp header (csv_records (length header) rest))"

section \<open>Properties of the parser\<close>

text \<open>The verdict on one record, as read.\<close>

definition row_verdict ::
  "(string \<Rightarrow> timestamp option) \<Rightarrow> (string \<Rightarrow> int) \<Rightarrow> string list \<Rightarrow> csv_error + string list \<Rightarrow> row_error + StatementRow" where
  "row_verdict timeParse exp header r =
     (case r of Inl e \<Rightarrow> Inl (BadRecord e) | Inr rec \<Rightarrow> parse_row timeParse exp header rec)"

lemma parse_rows_verdict:
  "parse_rows tp exp header n (r # rs) =
     (case row_verdict tp exp header r of
        Inl e \<Rightarrow> Inl (BadRow (n + 1) e)
      | Inr row \<Rightarrow> bindE (parse_rows tp exp header (n + 1) rs) (\<lambda>rows. Inr (row # rows)))"
  by (cases r) (auto simp: row_verdict_def)

lemma parse_rows_Inr:
  "parse_rows tp exp header n recs = Inr rows \<longleftrightarrow> list_all2 (\<lambda>r row. row_verdict tp exp header r = Inr row) recs rows"
proof (induction recs arbitrary: n rows)
  case (Cons r rs)
  then show ?case
    unfolding parse_rows_verdict by (cases rows) (auto simp: bindE_Inr_iff split: sum.splits)
qed auto

lemma parse_rows_Inl:
  "parse_rows tp exp header n recs = Inl err \<longleftrightarrow>
     (\<exists>k e. k < length recs \<and> err = BadRow (n + k + 1) e \<and> row_verdict tp exp header (recs ! k) = Inl e
        \<and> list_all (\<lambda>r. \<not> isl (row_verdict tp exp header r)) (take k recs))"
proof (induction recs arbitrary: n)
  case (Cons r rs)
  show ?case
  proof (cases "row_verdict tp exp header r")
    case (Inl e)
    have "(\<exists>k e'. k < length (r # rs) \<and> err = BadRow (n + k + 1) e' \<and> row_verdict tp exp header ((r # rs) ! k) = Inl e'
        \<and> list_all (\<lambda>r. \<not> isl (row_verdict tp exp header r)) (take k (r # rs))) \<longleftrightarrow> err = BadRow (n + 1) e"
    proof
      assume "\<exists>k e'. k < length (r # rs) \<and> err = BadRow (n + k + 1) e' \<and> row_verdict tp exp header ((r # rs) ! k) = Inl e'
        \<and> list_all (\<lambda>r. \<not> isl (row_verdict tp exp header r)) (take k (r # rs))"
      then obtain k e' where k: "err = BadRow (n + k + 1) e'" "row_verdict tp exp header ((r # rs) ! k) = Inl e'"
        "list_all (\<lambda>r. \<not> isl (row_verdict tp exp header r)) (take k (r # rs))" by blast
      then have "k = 0" using Inl by (cases k) auto
      then show "err = BadRow (n + 1) e" using k Inl by simp
    next
      assume "err = BadRow (n + 1) e"
      then show "\<exists>k e'. k < length (r # rs) \<and> err = BadRow (n + k + 1) e' \<and> row_verdict tp exp header ((r # rs) ! k) = Inl e'
        \<and> list_all (\<lambda>r. \<not> isl (row_verdict tp exp header r)) (take k (r # rs))"
        using Inl by (intro exI [of _ 0]) simp
    qed
    then show ?thesis unfolding parse_rows_verdict using Inl by auto
  next
    case (Inr row)
    have "(\<exists>k e. k < length (r # rs) \<and> err = BadRow (n + k + 1) e \<and> row_verdict tp exp header ((r # rs) ! k) = Inl e
        \<and> list_all (\<lambda>r. \<not> isl (row_verdict tp exp header r)) (take k (r # rs)))
      \<longleftrightarrow> (\<exists>k e. k < length rs \<and> err = BadRow (n + 1 + k + 1) e \<and> row_verdict tp exp header (rs ! k) = Inl e
        \<and> list_all (\<lambda>r. \<not> isl (row_verdict tp exp header r)) (take k rs))" (is "(\<exists>k e. ?P k e) \<longleftrightarrow> (\<exists>k e. ?Q k e)")
    proof
      assume "\<exists>k e. ?P k e"
      then obtain k e where k: "?P k e" by blast
      then obtain j where "k = Suc j" using Inr by (cases k) auto
      then have "?Q j e" using k by simp
      then show "\<exists>k e. ?Q k e" by blast
    next
      assume "\<exists>k e. ?Q k e"
      then obtain k e where "?Q k e" by blast
      then have "?P (Suc k) e" using Inr by simp
      then show "\<exists>k e. ?P k e" by blast
    qed
    then show ?thesis
      unfolding parse_rows_verdict using Inr Cons.IH [of "n + 1"] by (auto simp: bindE_Inl_iff)
  qed
qed simp

lemma col_index_distinct:
  assumes "distinct (map (\<lambda>c. to_lower (TrimSpace c)) header)"
  shows "col_index header col = Some i \<longleftrightarrow> i < length header \<and> to_lower (TrimSpace (header ! i)) = col"
proof -
  let ?z = "zip (map (\<lambda>c. to_lower (TrimSpace c)) header) [0..<length header]"
  have "distinct (map fst (rev ?z))" using assms by (simp add: rev_map [symmetric])
  then have "col_index header col = Some i \<longleftrightarrow> (col, i) \<in> set (rev ?z)"
    unfolding col_index_def by (rule map_of_eq_Some_iff)
  also have "\<dots> \<longleftrightarrow> i < length header \<and> to_lower (TrimSpace (header ! i)) = col"
    unfolding set_rev set_zip by (auto intro!: exI [of _ i])
  finally show ?thesis .
qed

text \<open>Reordering the columns of a table: \<open>p\<close> lists the old positions in the new order.\<close>

definition reorder :: "nat list \<Rightarrow> string list \<Rightarrow> string list" where
  "reorder p xs = map (\<lambda>i. xs ! i) p"

lemma field_of_reorder:
  assumes d: "distinct (map (\<lambda>c. to_lower (TrimSpace c)) header)" and p: "mset p = mset [0..<length header]"
    and l: "length rec = length header"
  shows "field_of (reorder p header) (reorder p rec) col = field_of header rec col"
    and "col_index (reorder p header) col = None \<longleftrightarrow> col_index header col = None"
proof -
  have sp: "set p = {0..<length header}" using p by (metis set_mset_mset set_upt)
  have dp: "distinct p" using p by (metis distinct_upt mset_eq_imp_distinct_iff)
  have lp: "length p = length header" using p by (metis size_mset length_upt diff_zero)
  have "distinct (map (\<lambda>c. to_lower (TrimSpace c)) (reorder p header))"
    unfolding reorder_def map_map comp_def distinct_map
    using dp d sp by (auto simp: inj_on_def distinct_conv_nth intro: ccontr)
  note new = col_index_distinct [OF this] and old = col_index_distinct [OF d]
  have move: "col_index header col = Some (p ! j)" if "col_index (reorder p header) col = Some j" for j
    using that sp lp unfolding new old by (auto simp: reorder_def nth_mem)
  have found: "\<exists>j. j < length p \<and> p ! j = i \<and> col_index (reorder p header) col = Some j" if "col_index header col = Some i" for i
  proof -
    have "i \<in> set p" using that sp unfolding old by simp
    then obtain j where "j < length p" "p ! j = i" by (auto simp: in_set_conv_nth)
    then show ?thesis using that unfolding old new by (auto simp: reorder_def)
  qed
  show "col_index (reorder p header) col = None \<longleftrightarrow> col_index header col = None"
    using move found by (metis not_None_eq)
  show "field_of (reorder p header) (reorder p rec) col = field_of header rec col"
  proof (cases "col_index header col")
    case None
    then show ?thesis using move by (cases "col_index (reorder p header) col") (auto simp: field_of_def)
  next
    case (Some i)
    then obtain j where "j < length p" "p ! j = i" "col_index (reorder p header) col = Some j" using found by blast
    moreover have "i < length rec" using Some l unfolding old by simp
    ultimately show ?thesis using Some by (simp add: field_of_def reorder_def)
  qed
qed

text \<open>
  Statement errors: a statement whose header has the required columns is accepted exactly when
  every record is valid, with one row per record in order; otherwise the error names the first
  invalid record by its row number (the header is row 1), whatever follows it.
\<close>

theorem parse_table_first_error:
  "parse_table tp exp header recs =
     (case find (\<lambda>col. col_index header col = None) csvColumns of
        Some col \<Rightarrow> Inl (MissingColumn col)
      | None \<Rightarrow>
          (case find (\<lambda>k. isl (row_verdict tp exp header (recs ! k))) [0..<length recs] of
             Some k \<Rightarrow> Inl (BadRow (k + 2) (projl (row_verdict tp exp header (recs ! k))))
           | None \<Rightarrow> Inr (map (\<lambda>r. projr (row_verdict tp exp header r)) recs)))"
proof -
  have "parse_rows tp exp header 1 recs =
      (case find (\<lambda>k. isl (row_verdict tp exp header (recs ! k))) [0..<length recs] of
         Some k \<Rightarrow> Inl (BadRow (k + 2) (projl (row_verdict tp exp header (recs ! k))))
       | None \<Rightarrow> Inr (map (\<lambda>r. projr (row_verdict tp exp header r)) recs))"
  proof (cases "find (\<lambda>k. isl (row_verdict tp exp header (recs ! k))) [0..<length recs]")
    case None
    then have "\<forall>k < length recs. \<not> isl (row_verdict tp exp header (recs ! k))" by (auto simp: find_None_iff)
    then show ?thesis unfolding None option.case parse_rows_Inr
      by (auto simp: list_all2_conv_all_nth sum.collapse(2))
  next
    case (Some k)
    then have k: "k < length recs" "isl (row_verdict tp exp header (recs ! k))"
      "\<forall>j < k. \<not> isl (row_verdict tp exp header (recs ! j))"
      by (auto simp: find_Some_iff)
    have "list_all (\<lambda>r. \<not> isl (row_verdict tp exp header r)) (take k recs)"
      using k by (auto simp: list_all_length)
    then show ?thesis unfolding Some option.case parse_rows_Inl
      using k by (intro exI [of _ k] exI [of _ "projl (row_verdict tp exp header (recs ! k))"]) simp
  qed
  then show ?thesis
    unfolding parse_table_def by (simp only:)
qed

text \<open>
  Column order: reordering the columns of a statement, header and records alike, does not
  change what is parsed, whether the rows or the error.
\<close>

theorem parse_table_column_order:
  assumes d: "distinct (map (\<lambda>c. to_lower (TrimSpace c)) header)" and p: "mset p = mset [0..<length header]"
    and l: "\<forall>rec. Inr rec \<in> set recs \<longrightarrow> length rec = length header"
  shows "parse_table tp exp (reorder p header) (map (map_sum (\<lambda>e. e) (reorder p)) recs) = parse_table tp exp header recs"
proof -
  note f = field_of_reorder(1) [OF d p] and n = field_of_reorder(2) [OF d p]
  have row: "parse_row tp exp (reorder p header) (reorder p rec) = parse_row tp exp header rec"
    if "length rec = length header" for rec
    unfolding parse_row_def direction_of_def f [OF that] n [OF that] by (rule refl)
  have "parse_rows tp exp (reorder p header) k (map (map_sum (\<lambda>e. e) (reorder p)) recs) = parse_rows tp exp header k recs" for k
    using l
  proof (induction recs arbitrary: k)
    case (Cons r rs)
    then show ?case using row by (cases r) (auto split: sum.split)
  qed simp
  moreover have "(\<lambda>col. col_index (reorder p header) col = None) = (\<lambda>col. col_index header col = None)"
    using n [of header] by auto
  ultimately show ?thesis unfolding parse_table_def by (simp only:)
qed

theorem parse_table_column_order_witness:
  "parse_table (\<lambda>_. Some 7) recon_DefaultAssetExponent [''Asset'', '' amount'', ''external_ref'', ''occurred_at'']
     [Inr [''USD'', ''10.50'', ''r1'', ''2026-01-01T00:00:00Z'']]
   = Inr [\<lparr>sr_ExternalRef = ''r1'', sr_AmountUnits = 1050, sr_Asset = ''USD'', sr_Direction = '''', sr_OccurredAt = 7,
       sr_Raw = [(''amount'', ''10.50''), (''asset'', ''USD''), (''external_ref'', ''r1''), (''occurred_at'', ''2026-01-01T00:00:00Z'')]\<rparr>]"
proof -
  let ?h = "[''external_ref'', '' amount'', ''Asset'', ''occurred_at'']"
  let ?r = "[Inr [''r1'', ''10.50'', ''USD'', ''2026-01-01T00:00:00Z'']]"
  have "distinct (map (\<lambda>c. to_lower (TrimSpace c)) ?h)" by code_simp
  moreover have "mset [2, 1, 0, 3] = mset [0..<length ?h]" by (simp add: upt_rec add_mset_commute numeral_2_eq_2 numeral_3_eq_3)
  moreover have "\<forall>rec. Inr rec \<in> set ?r \<longrightarrow> length rec = length ?h" by simp
  ultimately have "parse_table (\<lambda>_. Some 7) recon_DefaultAssetExponent (reorder [2, 1, 0, 3] ?h) (map (map_sum (\<lambda>e. e) (reorder [2, 1, 0, 3])) ?r)
      = parse_table (\<lambda>_. Some 7) recon_DefaultAssetExponent ?h ?r" by (rule parse_table_column_order)
  moreover have "parse_table (\<lambda>_. Some 7) recon_DefaultAssetExponent ?h ?r
      = Inr [\<lparr>sr_ExternalRef = ''r1'', sr_AmountUnits = 1050, sr_Asset = ''USD'', sr_Direction = '''', sr_OccurredAt = 7,
       sr_Raw = [(''amount'', ''10.50''), (''asset'', ''USD''), (''external_ref'', ''r1''), (''occurred_at'', ''2026-01-01T00:00:00Z'')]\<rparr>]"
    by code_simp
  ultimately show ?thesis by (simp add: reorder_def)
qed

end
