(* ===== verification/Recon_Domain.thy ===== *)
theory Recon_Domain
  imports Recon_Csv
begin

text \<open>
  The reconciliation domain, \<open>services/reconciliation/internal/domain/model.go\<close>, and its matcher,
  \<open>matcher.go\<close>. The \<open>Detail\<close> message of a finding is not modelled.
\<close>

section \<open>Enumerations and entities\<close>

definition SourceBank :: string where "SourceBank = ''bank''"

definition SourcePSP :: string where "SourcePSP = ''psp''"

definition SourceProvider :: string where "SourceProvider = ''provider''"

definition SourceManual :: string where "SourceManual = ''manual''"

definition ValidSourceKind :: "string \<Rightarrow> bool" where
  "ValidSourceKind k \<longleftrightarrow> k = SourceBank \<or> k = SourcePSP \<or> k = SourceProvider \<or> k = SourceManual"

definition ImportPending :: string where "ImportPending = ''pending''"

definition ImportProcessed :: string where "ImportProcessed = ''processed''"

definition ImportFailed :: string where "ImportFailed = ''failed''"

definition MatchUnmatched :: string where "MatchUnmatched = ''unmatched''"

definition MatchMatched :: string where "MatchMatched = ''matched''"

definition MatchDisputed :: string where "MatchDisputed = ''disputed''"

definition RunPending :: string where "RunPending = ''pending''"

definition RunRunning :: string where "RunRunning = ''running''"

definition RunCompleted :: string where "RunCompleted = ''completed''"

definition RunFailed :: string where "RunFailed = ''failed''"

definition KindMissingInternal :: string where "KindMissingInternal = ''missing_internal''"

definition KindMissingExternal :: string where "KindMissingExternal = ''missing_external''"

definition KindAmountMismatch :: string where "KindAmountMismatch = ''amount_mismatch''"

definition KindDuplicate :: string where "KindDuplicate = ''duplicate''"

definition DiscrepancyOpen :: string where "DiscrepancyOpen = ''open''"

definition DiscrepancyInvestigating :: string where "DiscrepancyInvestigating = ''investigating''"

definition DiscrepancyResolved :: string where "DiscrepancyResolved = ''resolved''"

definition ValidDiscrepancyStatus :: "string \<Rightarrow> bool" where
  "ValidDiscrepancyStatus s \<longleftrightarrow> s = DiscrepancyOpen \<or> s = DiscrepancyInvestigating \<or> s = DiscrepancyResolved"

record Source =
  src_ID :: uuid
  src_TenantID :: uuid
  src_Name :: string
  src_Kind :: string
  src_CreatedAt :: timestamp

record Import =
  imp_ID :: uuid
  imp_TenantID :: uuid
  imp_SourceID :: uuid
  imp_Filename :: string
  imp_Status :: string
  imp_RowCount :: nat
  imp_Error :: "statement_error option"
  imp_CreatedAt :: timestamp

record ExternalTransaction =
  ext_ID :: uuid
  ext_TenantID :: uuid
  ext_ImportID :: uuid
  ext_SourceID :: uuid
  ext_ExternalRef :: string
  ext_Amount :: int64
  ext_Asset :: string
  ext_Direction :: string
  ext_OccurredAt :: timestamp
  ext_Raw :: "(string \<times> string) list"
  ext_MatchStatus :: string
  ext_MatchedEntryID :: "uuid option"

record MirrorEntry =
  me_ID :: uuid
  me_TenantID :: uuid
  me_TransactionID :: uuid
  me_AccountID :: uuid
  me_Direction :: string
  me_Amount :: int64
  me_Asset :: string
  me_Reference :: string
  me_PostedAt :: timestamp

record Run =
  run_ID :: uuid
  run_TenantID :: uuid
  run_SourceID :: uuid
  run_Status :: string
  run_MatchedCount :: nat
  run_UnmatchedCount :: nat
  run_StartedAt :: timestamp
  run_FinishedAt :: "timestamp option"

record Discrepancy =
  dis_ID :: uuid
  dis_TenantID :: uuid
  dis_RunID :: uuid
  dis_Kind :: string
  dis_Details :: "(string \<times> string) list"
  dis_Status :: string
  dis_CreatedAt :: timestamp

record SourceSummary =
  sum_SourceID :: uuid
  sum_SourceName :: string
  sum_Matched :: nat
  sum_Unmatched :: nat
  sum_Disputed :: nat
  sum_OpenDiscrepancies :: nat

section \<open>The matcher\<close>

record MatchPair =
  mp_ExternalID :: uuid
  mp_EntryID :: uuid

record Finding =
  fi_Kind :: string
  fi_External :: ExternalTransaction
  fi_Entry :: "MirrorEntry option"

record MatchResult =
  mr_Matches :: "MatchPair list"
  mr_Findings :: "Finding list"

definition directionMatches :: "string \<Rightarrow> string \<Rightarrow> bool" where
  "directionMatches external mirror \<longleftrightarrow> external = '''' \<or> external = mirror"

definition entry_fits :: "ExternalTransaction \<Rightarrow> MirrorEntry \<Rightarrow> bool" where
  "entry_fits ext m \<longleftrightarrow> me_Amount m = ext_Amount ext \<and> me_Asset m = ext_Asset ext \<and> directionMatches (ext_Direction ext) (me_Direction m)"

text \<open>
  \<open>byRef[ref]\<close>: the positions of the mirror entries of a reference, in order; and the search over
  them, which yields the first free position that fits and the first free position before the search
  stopped.
\<close>

definition by_ref :: "MirrorEntry list \<Rightarrow> string \<Rightarrow> nat list" where
  "by_ref mirror ref = filter (\<lambda>i. me_Reference (mirror ! i) = ref) [0..<length mirror]"

fun scan_candidates :: "ExternalTransaction \<Rightarrow> MirrorEntry list \<Rightarrow> nat set \<Rightarrow> nat list \<Rightarrow> nat option \<Rightarrow> nat option \<times> nat option" where
  "scan_candidates ext mirror consumed [] firstFree = (None, firstFree)"
| "scan_candidates ext mirror consumed (i # is) firstFree =
     (if i \<in> consumed then scan_candidates ext mirror consumed is firstFree
      else let firstFree' = (if firstFree = None then Some i else firstFree) in
        if entry_fits ext (mirror ! i) then (Some i, firstFree')
        else scan_candidates ext mirror consumed is firstFree')"

fun match_loop :: "MirrorEntry list \<Rightarrow> nat set \<Rightarrow> string set \<Rightarrow> ExternalTransaction list \<Rightarrow> MatchResult" where
  "match_loop mirror consumed seenRef [] = \<lparr>mr_Matches = [], mr_Findings = []\<rparr>"
| "match_loop mirror consumed seenRef (ext # exts) =
     (if ext_ExternalRef ext \<in> seenRef then
        (let res = match_loop mirror consumed seenRef exts in
         res\<lparr>mr_Findings := \<lparr>fi_Kind = KindDuplicate, fi_External = ext, fi_Entry = None\<rparr> # mr_Findings res\<rparr>)
      else
        (let seenRef' = insert (ext_ExternalRef ext) seenRef in
         case scan_candidates ext mirror consumed (by_ref mirror (ext_ExternalRef ext)) None of
           (Some i, _) \<Rightarrow>
             (let res = match_loop mirror (insert i consumed) seenRef' exts in
              res\<lparr>mr_Matches := \<lparr>mp_ExternalID = ext_ID ext, mp_EntryID = me_ID (mirror ! i)\<rparr> # mr_Matches res\<rparr>)
         | (None, Some i) \<Rightarrow>
             (let res = match_loop mirror consumed seenRef' exts in
              res\<lparr>mr_Findings := \<lparr>fi_Kind = KindAmountMismatch, fi_External = ext, fi_Entry = Some (mirror ! i)\<rparr> # mr_Findings res\<rparr>)
         | (None, None) \<Rightarrow>
             (let res = match_loop mirror consumed seenRef' exts in
              res\<lparr>mr_Findings := \<lparr>fi_Kind = KindMissingInternal, fi_External = ext, fi_Entry = None\<rparr> # mr_Findings res\<rparr>)))"

definition MatchNaive :: "ExternalTransaction list \<Rightarrow> MirrorEntry list \<Rightarrow> MatchResult" where
  "MatchNaive externals mirror = match_loop mirror {} {} externals"

section \<open>The matcher against a specification\<close>

text \<open>
  What should happen to one statement row, without any bookkeeping of consumed entries: a row whose
  reference occurred earlier is a duplicate; otherwise the first mirror entry of the reference that
  agrees on amount, asset and direction backs it; otherwise the first entry of the reference is
  reported as a mismatch; otherwise it is missing.
\<close>

datatype verdict = Matched MirrorEntry | Duplicate | Mismatch MirrorEntry | Missing

definition verdict_after :: "string set \<Rightarrow> MirrorEntry list \<Rightarrow> ExternalTransaction \<Rightarrow> verdict" where
  "verdict_after earlier mirror ext =
     (if ext_ExternalRef ext \<in> earlier then Duplicate
      else case find (\<lambda>m. me_Reference m = ext_ExternalRef ext \<and> entry_fits ext m) mirror of
        Some m \<Rightarrow> Matched m
      | None \<Rightarrow> (case find (\<lambda>m. me_Reference m = ext_ExternalRef ext) mirror of Some m \<Rightarrow> Mismatch m | None \<Rightarrow> Missing))"

definition verdict_at :: "ExternalTransaction list \<Rightarrow> MirrorEntry list \<Rightarrow> nat \<Rightarrow> verdict" where
  "verdict_at exts mirror k = verdict_after (ext_ExternalRef ` set (take k exts)) mirror (exts ! k)"

fun match_of :: "ExternalTransaction \<Rightarrow> verdict \<Rightarrow> MatchPair list" where
  "match_of ext (Matched m) = [\<lparr>mp_ExternalID = ext_ID ext, mp_EntryID = me_ID m\<rparr>]"
| "match_of ext _ = []"

fun finding_of :: "ExternalTransaction \<Rightarrow> verdict \<Rightarrow> Finding list" where
  "finding_of ext (Matched m) = []"
| "finding_of ext Duplicate = [\<lparr>fi_Kind = KindDuplicate, fi_External = ext, fi_Entry = None\<rparr>]"
| "finding_of ext (Mismatch m) = [\<lparr>fi_Kind = KindAmountMismatch, fi_External = ext, fi_Entry = Some m\<rparr>]"
| "finding_of ext Missing = [\<lparr>fi_Kind = KindMissingInternal, fi_External = ext, fi_Entry = None\<rparr>]"

lemma scan_candidates_free:
  "set is \<inter> consumed = {} \<Longrightarrow>
     (case scan_candidates ext mirror consumed is ff of
        (Some i, _) \<Rightarrow> find (\<lambda>i. entry_fits ext (mirror ! i)) is = Some i
      | (None, f) \<Rightarrow> find (\<lambda>i. entry_fits ext (mirror ! i)) is = None
          \<and> f = (case ff of Some j \<Rightarrow> Some j | None \<Rightarrow> (case is of [] \<Rightarrow> None | j # _ \<Rightarrow> Some j)))"
  by (induction ext mirror consumed "is" ff rule: scan_candidates.induct)
    (auto simp: Let_def split: option.splits prod.splits list.splits if_splits)

lemma find_positions:
  "map_option ((!) xs) (find P (filter Q [0..<length xs])) = find (\<lambda>x. R x) xs"
  if "\<And>i. i < length xs \<Longrightarrow> (Q i \<and> P i) = R (xs ! i)"
  using that
proof (induction xs rule: rev_induct)
  case (snoc x xs)
  have pre: "(Q i \<and> P i) = R (xs ! i)" if "i < length xs" for i
    using snoc.prems [of i] that by (simp add: nth_append)
  have last: "(Q (length xs) \<and> P (length xs)) = R x" using snoc.prems [of "length xs"] by simp
  have fa: "find f (as @ bs) = (case find f as of None \<Rightarrow> find f bs | Some y \<Rightarrow> Some y)" for f and as bs :: "'z list"
    by (induction as) auto
  show ?case
  proof (cases "find P (filter Q [0..<length xs])")
    case None
    then show ?thesis using snoc.IH [OF pre] last by (auto simp: fa)
  next
    case (Some i)
    then have "i < length xs" by (auto dest!: find_Some_filter)
    then have "find R xs = Some (xs ! i)" using snoc.IH [OF pre] Some by simp
    then show ?thesis using Some \<open>i < length xs\<close> by (simp add: fa nth_append)
  qed
qed simp

lemma by_ref_hd:
  "map_option ((!) mirror) (case by_ref mirror ref of [] \<Rightarrow> None | j # _ \<Rightarrow> Some j) = find (\<lambda>m. me_Reference m = ref) mirror"
proof -
  have "(case xs of [] \<Rightarrow> None | j # _ \<Rightarrow> Some j) = find (\<lambda>_. True) xs" for xs :: "nat list" by (cases xs) auto
  then show ?thesis unfolding by_ref_def by (simp only:) (rule find_positions, simp)
qed

lemma scan_verdict:
  assumes c: "\<forall>i \<in> consumed. me_Reference (mirror ! i) \<in> seen" and n: "ext_ExternalRef ext \<notin> seen"
  shows "case scan_candidates ext mirror consumed (by_ref mirror (ext_ExternalRef ext)) None of
       (Some i, _) \<Rightarrow> i < length mirror \<and> me_Reference (mirror ! i) = ext_ExternalRef ext
         \<and> verdict_after seen mirror ext = Matched (mirror ! i)
     | (None, Some i) \<Rightarrow> verdict_after seen mirror ext = Mismatch (mirror ! i)
     | (None, None) \<Rightarrow> verdict_after seen mirror ext = Missing"
proof -
  let ?is = "by_ref mirror (ext_ExternalRef ext)"
  have free: "set ?is \<inter> consumed = {}" using c n by (auto simp: by_ref_def)
  have fit: "map_option ((!) mirror) (find (\<lambda>i. entry_fits ext (mirror ! i)) ?is)
      = find (\<lambda>m. me_Reference m = ext_ExternalRef ext \<and> entry_fits ext m) mirror"
    unfolding by_ref_def by (rule find_positions) simp
  note hd = by_ref_hd [of mirror "ext_ExternalRef ext"]
  obtain a b where s: "scan_candidates ext mirror consumed ?is None = (a, b)" by fastforce
  show ?thesis
  proof (cases a)
    case (Some i)
    then have f: "find (\<lambda>i. entry_fits ext (mirror ! i)) ?is = Some i"
      using scan_candidates_free [OF free, of ext mirror None] s by simp
    then have "i \<in> set ?is" by (auto dest!: find_Some_filter)
    moreover have "find (\<lambda>m. me_Reference m = ext_ExternalRef ext \<and> entry_fits ext m) mirror = Some (mirror ! i)"
      using f fit by simp
    ultimately show ?thesis using s Some n by (simp add: by_ref_def verdict_after_def)
  next
    case None
    then have "find (\<lambda>i. entry_fits ext (mirror ! i)) ?is = None" and b: "(case ?is of [] \<Rightarrow> None | j # _ \<Rightarrow> Some j) = b"
      using scan_candidates_free [OF free, of ext mirror None] s by auto
    then have "find (\<lambda>m. me_Reference m = ext_ExternalRef ext \<and> entry_fits ext m) mirror = None" using fit by simp
    moreover have "find (\<lambda>m. me_Reference m = ext_ExternalRef ext) mirror = map_option ((!) mirror) b" using hd unfolding b by simp
    ultimately show ?thesis unfolding s None using n by (cases b) (simp_all add: verdict_after_def)
  qed
qed

lemma match_loop_spec:
  "\<forall>i \<in> consumed. me_Reference (mirror ! i) \<in> seen \<Longrightarrow>
     match_loop mirror consumed seen exts =
       \<lparr>mr_Matches = concat (map (\<lambda>k. match_of (exts ! k) (verdict_after (seen \<union> ext_ExternalRef ` set (take k exts)) mirror (exts ! k))) [0..<length exts]),
        mr_Findings = concat (map (\<lambda>k. finding_of (exts ! k) (verdict_after (seen \<union> ext_ExternalRef ` set (take k exts)) mirror (exts ! k))) [0..<length exts])\<rparr>"
proof (induction exts arbitrary: consumed seen)
  case (Cons ext exts)
  have upt: "[0..<length (ext # exts)] = 0 # map Suc [0..<length exts]"
    by (simp add: upt_conv_Cons map_Suc_upt del: upt_Suc)
  show ?case
  proof (cases "ext_ExternalRef ext \<in> seen")
    case True
    then have "seen \<union> insert (ext_ExternalRef ext) X = seen \<union> X" for X by blast
    moreover have "verdict_after seen mirror ext = Duplicate" using True by (simp add: verdict_after_def)
    ultimately show ?thesis
      using True Cons.IH [OF Cons.prems] unfolding upt by (simp add: Let_def comp_def)
  next
    case False
    let ?seen = "insert (ext_ExternalRef ext) seen"
    have un: "seen \<union> insert (ext_ExternalRef ext) X = ?seen \<union> X" for X by blast
    obtain a b where s: "scan_candidates ext mirror consumed (by_ref mirror (ext_ExternalRef ext)) None = (a, b)" by fastforce
    note v = scan_verdict [OF Cons.prems False, unfolded s]
    show ?thesis
    proof (cases a)
      case (Some i)
      then have "\<forall>j \<in> insert i consumed. me_Reference (mirror ! j) \<in> ?seen" using v Cons.prems by auto
      from Cons.IH [OF this] show ?thesis
        using False s Some v unfolding upt by (simp add: Let_def comp_def un)
    next
      case None
      have "\<forall>j \<in> consumed. me_Reference (mirror ! j) \<in> ?seen" using Cons.prems by auto
      from Cons.IH [OF this] show ?thesis
        using False s None v unfolding upt by (cases b) (simp_all add: Let_def comp_def un)
    qed
  qed
qed simp

lemma MatchNaive_verdicts:
  "MatchNaive exts mirror =
     \<lparr>mr_Matches = concat (map (\<lambda>k. match_of (exts ! k) (verdict_at exts mirror k)) [0..<length exts]),
      mr_Findings = concat (map (\<lambda>k. finding_of (exts ! k) (verdict_at exts mirror k)) [0..<length exts])\<rparr>"
  using match_loop_spec [of "{}" mirror "{}" exts] by (simp add: MatchNaive_def verdict_at_def)

text \<open>
  C22. The matcher meets its specification: the consumed entries it keeps track of never change an
  outcome. Its matches and findings are, in statement order, exactly the verdicts that the plain
  rules give each row on its own.
\<close>

theorem MatchNaive_meets_spec:
  "MatchNaive exts mirror =
     \<lparr>mr_Matches = concat (map (\<lambda>k. match_of (exts ! k) (verdict_at exts mirror k)) [0..<length exts]),
      mr_Findings = concat (map (\<lambda>k. finding_of (exts ! k) (verdict_at exts mirror k)) [0..<length exts])\<rparr>"
  by (rule MatchNaive_verdicts)

definition verdict_matches :: "ExternalTransaction list \<Rightarrow> MirrorEntry list \<Rightarrow> nat \<Rightarrow> MatchPair list" where
  "verdict_matches exts mirror n = concat (map (\<lambda>k. match_of (exts ! k) (verdict_at exts mirror k)) [0..<n])"

lemma verdict_Matched:
  assumes "verdict_at exts mirror k = Matched m"
  shows "m \<in> set mirror" "me_Reference m = ext_ExternalRef (exts ! k)" "entry_fits (exts ! k) m"
    "ext_ExternalRef (exts ! k) \<notin> ext_ExternalRef ` set (take k exts)"
  using assms unfolding verdict_at_def verdict_after_def
  by (auto split: if_splits option.splits dest!: find_Some_filter)

lemma verdict_matches_distinct:
  assumes "distinct (map me_ID mirror)" and "n \<le> length exts"
  shows "distinct (map mp_EntryID (verdict_matches exts mirror n))
    \<and> mp_EntryID ` set (verdict_matches exts mirror n) \<subseteq> me_ID ` {m \<in> set mirror. me_Reference m \<in> ext_ExternalRef ` set (take n exts)}"
  using assms(2)
proof (induction n)
  case (Suc n)
  have t: "take (Suc n) exts = take n exts @ [exts ! n]" using Suc.prems by (simp add: take_Suc_conv_app_nth)
  have mono: "me_ID ` {m \<in> set mirror. me_Reference m \<in> ext_ExternalRef ` set (take n exts)}
      \<subseteq> me_ID ` {m \<in> set mirror. me_Reference m \<in> ext_ExternalRef ` set (take (Suc n) exts)}" unfolding t by auto
  have skip: ?case if "match_of (exts ! n) (verdict_at exts mirror n) = []"
  proof -
    have "verdict_matches exts mirror (Suc n) = verdict_matches exts mirror n" using that by (simp add: verdict_matches_def)
    moreover have "n \<le> length exts" using Suc.prems by simp
    note Suc.IH [OF this]
    ultimately show ?thesis using mono by (simp only:) (rule conjI, blast, rule subset_trans, blast, blast)
  qed
  show ?case
  proof (cases "verdict_at exts mirror n")
    case (Matched m)
    note v = verdict_Matched [OF Matched]
    define X where "X = mp_EntryID ` set (verdict_matches exts mirror n)"
    have m: "x = m" if "x \<in> set mirror" "me_ID x = me_ID m" for x
      using v(1) that assms(1) by (metis distinct_map inj_onD)
    have X: "X \<subseteq> me_ID ` {m \<in> set mirror. me_Reference m \<in> ext_ExternalRef ` set (take n exts)}"
      using Suc unfolding X_def by simp
    have "me_ID m \<notin> X"
    proof
      assume "me_ID m \<in> X"
      then obtain x where "x \<in> set mirror" "me_ID x = me_ID m" "me_Reference x \<in> ext_ExternalRef ` set (take n exts)"
        using X by (auto simp: image_iff subset_iff) metis
      then show False using m [of x] v(2,4) by simp
    qed
    moreover have "verdict_matches exts mirror (Suc n)
        = verdict_matches exts mirror n @ [\<lparr>mp_ExternalID = ext_ID (exts ! n), mp_EntryID = me_ID m\<rparr>]"
      using Matched by (simp add: verdict_matches_def)
    moreover have "insert (me_ID m) X \<subseteq> me_ID ` {m \<in> set mirror. me_Reference m \<in> ext_ExternalRef ` set (take (Suc n) exts)}"
      using X v unfolding t by auto
    ultimately show ?thesis using Suc unfolding X_def by simp
  qed (use skip in simp_all)
qed (simp add: verdict_matches_def)

lemma MatchNaive_partition:
  "mset (map mp_ExternalID (mr_Matches (MatchNaive exts mirror)))
      + mset (map (\<lambda>f. ext_ID (fi_External f)) (mr_Findings (MatchNaive exts mirror))) = mset (map ext_ID exts)"
proof -
  have one: "mset (map mp_ExternalID (match_of ext v)) + mset (map (\<lambda>f. ext_ID (fi_External f)) (finding_of ext v)) = {#ext_ID ext#}" for ext v
    by (cases v) auto
  have "mset (map mp_ExternalID (concat (map (\<lambda>k. match_of (exts ! k) (verdict_at exts mirror k)) ks)))
      + mset (map (\<lambda>f. ext_ID (fi_External f)) (concat (map (\<lambda>k. finding_of (exts ! k) (verdict_at exts mirror k)) ks)))
      = mset (map (\<lambda>k. ext_ID (exts ! k)) ks)" for ks
  proof (induction ks)
    case (Cons k ks)
    then show ?case using one [of "exts ! k" "verdict_at exts mirror k"] by (simp add: ac_simps)
  qed simp
  moreover have "map (\<lambda>k. ext_ID (exts ! k)) [0..<length exts] = map ext_ID exts" by (rule nth_equalityI) simp_all
  ultimately have "mset (map mp_ExternalID (concat (map (\<lambda>k. match_of (exts ! k) (verdict_at exts mirror k)) [0..<length exts])))
      + mset (map (\<lambda>f. ext_ID (fi_External f)) (concat (map (\<lambda>k. finding_of (exts ! k) (verdict_at exts mirror k)) [0..<length exts])))
      = mset (map ext_ID exts)" by (simp only:)
  then show ?thesis unfolding MatchNaive_verdicts by simp
qed

lemma MatchNaive_entries_distinct:
  "distinct (map me_ID mirror) \<Longrightarrow> distinct (map mp_EntryID (mr_Matches (MatchNaive exts mirror)))"
  using verdict_matches_distinct [OF _ order_refl, of mirror exts] by (simp add: MatchNaive_verdicts verdict_matches_def)

lemma MatchNaive_pair:
  assumes "p \<in> set (mr_Matches (MatchNaive exts mirror))"
  shows "\<exists>ext \<in> set exts. \<exists>m \<in> set mirror.
         p = \<lparr>mp_ExternalID = ext_ID ext, mp_EntryID = me_ID m\<rparr> \<and> me_Reference m = ext_ExternalRef ext \<and> entry_fits ext m"
proof -
  obtain k where k: "k < length exts" and p: "p \<in> set (match_of (exts ! k) (verdict_at exts mirror k))"
    using assms by (auto simp: MatchNaive_verdicts)
  then obtain m where m: "verdict_at exts mirror k = Matched m" by (cases "verdict_at exts mirror k") auto
  show ?thesis
    using verdict_Matched [OF m] p m k by (intro bexI [of _ "exts ! k"] bexI [of _ m]) auto
qed

lemma MatchNaive_finding:
  assumes "f \<in> set (mr_Findings (MatchNaive exts mirror))"
  shows "fi_External f \<in> set exts"
    and "fi_Kind f = KindDuplicate \<or> fi_Kind f = KindAmountMismatch \<or> fi_Kind f = KindMissingInternal"
proof -
  obtain k where k: "k < length exts" and f: "f \<in> set (finding_of (exts ! k) (verdict_at exts mirror k))"
    using assms by (auto simp: MatchNaive_verdicts)
  show "fi_External f \<in> set exts" using k f by (cases "verdict_at exts mirror k") auto
  show "fi_Kind f = KindDuplicate \<or> fi_Kind f = KindAmountMismatch \<or> fi_Kind f = KindMissingInternal"
    using f by (cases "verdict_at exts mirror k") auto
qed

text \<open>
  Matching is safe: every statement row ends in exactly one match or one finding; no mirror
  entry backs two rows; and a match joins a row and an entry with the same reference, amount and
  asset and a compatible direction.
\<close>

theorem MatchNaive_safe:
  assumes "distinct (map me_ID mirror)"
  shows "mset (map mp_ExternalID (mr_Matches (MatchNaive exts mirror)))
      + mset (map (\<lambda>f. ext_ID (fi_External f)) (mr_Findings (MatchNaive exts mirror))) = mset (map ext_ID exts)
    \<and> distinct (map mp_EntryID (mr_Matches (MatchNaive exts mirror)))
    \<and> (\<forall>p \<in> set (mr_Matches (MatchNaive exts mirror)). \<exists>ext \<in> set exts. \<exists>m \<in> set mirror.
         p = \<lparr>mp_ExternalID = ext_ID ext, mp_EntryID = me_ID m\<rparr> \<and> me_Reference m = ext_ExternalRef ext
         \<and> me_Amount m = ext_Amount ext \<and> me_Asset m = ext_Asset ext
         \<and> (ext_Direction ext = '''' \<or> ext_Direction ext = me_Direction m))"
  using MatchNaive_partition MatchNaive_entries_distinct [OF assms] MatchNaive_pair [of _ exts mirror]
  unfolding entry_fits_def directionMatches_def by blast

definition sample_external :: "uuid \<Rightarrow> string \<Rightarrow> int64 \<Rightarrow> ExternalTransaction" where
  "sample_external i ref amount = \<lparr>ext_ID = i, ext_TenantID = 1, ext_ImportID = 5, ext_SourceID = 6, ext_ExternalRef = ref,
     ext_Amount = amount, ext_Asset = ''USD'', ext_Direction = '''', ext_OccurredAt = 0, ext_Raw = [],
     ext_MatchStatus = MatchUnmatched, ext_MatchedEntryID = None\<rparr>"

definition sample_entry :: "uuid \<Rightarrow> string \<Rightarrow> int64 \<Rightarrow> MirrorEntry" where
  "sample_entry i ref amount = \<lparr>me_ID = i, me_TenantID = 1, me_TransactionID = 9, me_AccountID = 8, me_Direction = ''DEBIT'',
     me_Amount = amount, me_Asset = ''USD'', me_Reference = ref, me_PostedAt = 0\<rparr>"

theorem MatchNaive_safe_witness:
  "mr_Matches (MatchNaive [sample_external 1 ''a'' 5, sample_external 2 ''a'' 5, sample_external 3 ''b'' 7]
      [sample_entry 21 ''a'' 5, sample_entry 22 ''b'' 8]) = [\<lparr>mp_ExternalID = 1, mp_EntryID = 21\<rparr>]
   \<and> map fi_Kind (mr_Findings (MatchNaive [sample_external 1 ''a'' 5, sample_external 2 ''a'' 5, sample_external 3 ''b'' 7]
      [sample_entry 21 ''a'' 5, sample_entry 22 ''b'' 8])) = [KindDuplicate, KindAmountMismatch]
   \<and> distinct (map mp_EntryID (mr_Matches (MatchNaive [sample_external 1 ''a'' 5, sample_external 2 ''a'' 5, sample_external 3 ''b'' 7]
      [sample_entry 21 ''a'' 5, sample_entry 22 ''b'' 8])))"
proof (intro conjI)
  have "distinct (map me_ID [sample_entry 21 ''a'' 5, sample_entry 22 ''b'' 8])" by code_simp
  from MatchNaive_safe [OF this, of "[sample_external 1 ''a'' 5, sample_external 2 ''a'' 5, sample_external 3 ''b'' 7]"]
  show "distinct (map mp_EntryID (mr_Matches (MatchNaive [sample_external 1 ''a'' 5, sample_external 2 ''a'' 5, sample_external 3 ''b'' 7]
      [sample_entry 21 ''a'' 5, sample_entry 22 ''b'' 8])))" by blast
qed code_simp+

end
