(* ===== verification/Recon_Store.thy ===== *)
theory Recon_Store
  imports Recon_Domain Events Pagination
begin

text \<open>
  The reconciliation database and its store,
  \<open>services/reconciliation/internal/adapters/postgres/store.go\<close> over the tables of
  \<open>migrations/0001_init.sql\<close> and \<open>0002_external_direction.sql\<close>: every table a list of rows, row-level
  security as a filter on the session's tenant, constraints checked by each insert, the purge of a
  tenant (\<open>adapters/purge/purge.go\<close>). The first argument of a statement is the session's tenant.
  Reconciliation reuses the error values of the ledger's model: its own \<open>ErrNotFound\<close>, \<open>ErrValidation\<close>
  and PostgreSQL's error classes.
\<close>

section \<open>Tables\<close>

record discrepancyDetectedPayload =
  ddp_DiscrepancyID :: uuid
  ddp_RunID :: uuid
  ddp_SourceID :: uuid
  ddp_Kind :: string
  ddp_ExternalID :: string
  ddp_TransactionID :: "uuid option"
  ddp_Asset :: string
  ddp_Amount :: string
  ddp_DetectedAt :: timestamp

record 'd ReconOutboxRow = "'d OutboxRow" +
  ro_id :: uuid
  ro_created_at :: timestamp

record ReconDb =
  rc_sources :: "Source list"
  rc_imports :: "Import list"
  rc_externals :: "ExternalTransaction list"
  rc_mirror :: "MirrorEntry list"
  rc_runs :: "Run list"
  rc_discrepancies :: "Discrepancy list"
  rc_outbox :: "discrepancyDetectedPayload ReconOutboxRow list"

definition empty_recon :: ReconDb where
  "empty_recon = \<lparr>rc_sources = [], rc_imports = [], rc_externals = [], rc_mirror = [], rc_runs = [], rc_discrepancies = [], rc_outbox = []\<rparr>"

text \<open>\<open>Within\<close>: the body runs in a transaction of the tenant; an error leaves the database as it was.\<close>

definition Within :: "uuid \<Rightarrow> ('s \<Rightarrow> error + 'a \<times> 's) \<Rightarrow> 's \<Rightarrow> (error + 'a) \<times> 's" where
  "Within tenantID fn d =
     (if tenantID = uuid_Nil then (Inl ErrNilTenant, d)
      else case fn d of Inl e \<Rightarrow> (Inl e, d) | Inr (x, d') \<Rightarrow> (Inr x, d'))"

section \<open>Statements\<close>

definition InsertSource :: "uuid \<Rightarrow> Source \<Rightarrow> ReconDb \<Rightarrow> error + ReconDb" where
  "InsertSource tn s d =
     (if src_TenantID s \<noteq> tn then Inl (PgError RowSecurityViolation)
      else if length (src_Name s) > 255 then Inl (PgError StringTooLong)
      else if \<not> ValidSourceKind (src_Kind s) then Inl (PgError CheckViolation)
      else if list_ex (\<lambda>x. src_ID x = src_ID s \<or> src_TenantID x = src_TenantID s \<and> src_Name x = src_Name s) (rc_sources d)
      then Inl (PgError UniqueViolation)
      else Inr (d\<lparr>rc_sources := rc_sources d @ [s]\<rparr>))"

definition recon_ListSources :: "uuid \<Rightarrow> nat \<Rightarrow> Cursor \<Rightarrow> ReconDb \<Rightarrow> Source list" where
  "recon_ListSources tn limit cursor d =
     keyset_page (\<lambda>s. (src_CreatedAt s, src_ID s)) cursor limit (filter (\<lambda>s. src_TenantID s = tn) (rc_sources d))"

definition GetSource :: "uuid \<Rightarrow> uuid \<Rightarrow> ReconDb \<Rightarrow> error + Source" where
  "GetSource tn i d =
     (case find (\<lambda>s. src_TenantID s = tn \<and> src_ID s = i) (rc_sources d) of None \<Rightarrow> Inl ErrNotFound | Some s \<Rightarrow> Inr s)"

definition InsertImport :: "uuid \<Rightarrow> Import \<Rightarrow> ReconDb \<Rightarrow> error + ReconDb" where
  "InsertImport tn imp d =
     (if imp_TenantID imp \<noteq> tn then Inl (PgError RowSecurityViolation)
      else if length (imp_Filename imp) > 512 then Inl (PgError StringTooLong)
      else if int (imp_RowCount imp) \<ge> 2 ^ 31 then Inl (PgError NumericOutOfRange)
      else if imp_Status imp \<notin> {ImportPending, ImportProcessed, ImportFailed} then Inl (PgError CheckViolation)
      else if list_ex (\<lambda>x. imp_ID x = imp_ID imp) (rc_imports d) then Inl (PgError UniqueViolation)
      else if \<not> list_ex (\<lambda>s. src_ID s = imp_SourceID imp) (rc_sources d) then Inl (PgError ForeignKeyViolation)
      else Inr (d\<lparr>rc_imports := rc_imports d @ [imp]\<rparr>))"

definition insert_external :: "uuid \<Rightarrow> ExternalTransaction \<Rightarrow> ReconDb \<Rightarrow> error + ReconDb" where
  "insert_external tn x d =
     (if ext_TenantID x \<noteq> tn then Inl (PgError RowSecurityViolation)
      else if length (ext_ExternalRef x) > 255 \<or> length (ext_Asset x) > 12 then Inl (PgError StringTooLong)
      else if ext_Direction x \<notin> {'''', ''DEBIT'', ''CREDIT''} \<or> ext_MatchStatus x \<notin> {MatchUnmatched, MatchMatched, MatchDisputed}
      then Inl (PgError CheckViolation)
      else if list_ex (\<lambda>y. ext_ID y = ext_ID x) (rc_externals d) then Inl (PgError UniqueViolation)
      else if \<not> list_ex (\<lambda>i. imp_ID i = ext_ImportID x) (rc_imports d) \<or> \<not> list_ex (\<lambda>s. src_ID s = ext_SourceID x) (rc_sources d)
      then Inl (PgError ForeignKeyViolation)
      else Inr (d\<lparr>rc_externals := rc_externals d @ [x]\<rparr>))"

text \<open>A batch sends its statements in order and stops at the first error.\<close>

fun batch :: "('x \<Rightarrow> 's \<Rightarrow> error + 's) \<Rightarrow> 'x list \<Rightarrow> 's \<Rightarrow> error + 's" where
  "batch stmt [] d = Inr d"
| "batch stmt (x # xs) d = bindE (stmt x d) (batch stmt xs)"

definition InsertExternalTransactions :: "uuid \<Rightarrow> ExternalTransaction list \<Rightarrow> ReconDb \<Rightarrow> error + ReconDb" where
  "InsertExternalTransactions tn xs d = (if xs = [] then Inr d else batch (insert_external tn) xs d)"

definition ListUnmatchedExternals :: "uuid \<Rightarrow> uuid \<Rightarrow> ReconDb \<Rightarrow> ExternalTransaction list" where
  "ListUnmatchedExternals tn sourceID d =
     map (\<lambda>x. x\<lparr>ext_Raw := []\<rparr>)
       (sort_key (\<lambda>x. (ext_OccurredAt x, ext_ID x))
         (filter (\<lambda>x. ext_TenantID x = tn \<and> ext_SourceID x = sourceID \<and> ext_MatchStatus x = MatchUnmatched) (rc_externals d)))"

definition ListMirrorEntries :: "uuid \<Rightarrow> ReconDb \<Rightarrow> MirrorEntry list" where
  "ListMirrorEntries tn d = sort_key (\<lambda>m. (me_PostedAt m, me_ID m)) (filter (\<lambda>m. me_TenantID m = tn) (rc_mirror d))"

definition update_external :: "uuid \<Rightarrow> uuid \<Rightarrow> (ExternalTransaction \<Rightarrow> ExternalTransaction) \<Rightarrow> ReconDb \<Rightarrow> error + ReconDb" where
  "update_external tn i f d =
     Inr (d\<lparr>rc_externals := map (\<lambda>x. if ext_TenantID x = tn \<and> ext_ID x = i then f x else x) (rc_externals d)\<rparr>)"

definition MarkExternalMatched :: "uuid \<Rightarrow> uuid \<Rightarrow> uuid \<Rightarrow> ReconDb \<Rightarrow> error + ReconDb" where
  "MarkExternalMatched tn externalID entryID d =
     update_external tn externalID (\<lambda>x. x\<lparr>ext_MatchStatus := MatchMatched, ext_MatchedEntryID := Some entryID\<rparr>) d"

definition MarkExternalDisputed :: "uuid \<Rightarrow> uuid \<Rightarrow> ReconDb \<Rightarrow> error + ReconDb" where
  "MarkExternalDisputed tn externalID d = update_external tn externalID (\<lambda>x. x\<lparr>ext_MatchStatus := MatchDisputed\<rparr>) d"

definition InsertRun :: "uuid \<Rightarrow> Run \<Rightarrow> ReconDb \<Rightarrow> error + ReconDb" where
  "InsertRun tn r d =
     (if run_TenantID r \<noteq> tn then Inl (PgError RowSecurityViolation)
      else if run_Status r \<notin> {RunPending, RunRunning, RunCompleted, RunFailed} then Inl (PgError CheckViolation)
      else if list_ex (\<lambda>x. run_ID x = run_ID r) (rc_runs d) then Inl (PgError UniqueViolation)
      else if \<not> list_ex (\<lambda>s. src_ID s = run_SourceID r) (rc_sources d) then Inl (PgError ForeignKeyViolation)
      else Inr (d\<lparr>rc_runs := rc_runs d @ [r]\<rparr>))"

definition UpdateRun :: "uuid \<Rightarrow> Run \<Rightarrow> ReconDb \<Rightarrow> error + ReconDb" where
  "UpdateRun tn r d =
     (if int (run_MatchedCount r) \<ge> 2 ^ 31 \<or> int (run_UnmatchedCount r) \<ge> 2 ^ 31 then Inl (PgError NumericOutOfRange)
      else Inr (d\<lparr>rc_runs := map (\<lambda>x. if run_TenantID x = tn \<and> run_ID x = run_ID r
         then x\<lparr>run_Status := run_Status r, run_MatchedCount := run_MatchedCount r,
                run_UnmatchedCount := run_UnmatchedCount r, run_FinishedAt := run_FinishedAt r\<rparr> else x) (rc_runs d)\<rparr>))"

definition recon_GetRun :: "uuid \<Rightarrow> uuid \<Rightarrow> ReconDb \<Rightarrow> error + Run" where
  "recon_GetRun tn i d =
     (case find (\<lambda>r. run_TenantID r = tn \<and> run_ID r = i) (rc_runs d) of None \<Rightarrow> Inl ErrNotFound | Some r \<Rightarrow> Inr r)"

definition InsertDiscrepancy :: "uuid \<Rightarrow> Discrepancy \<Rightarrow> ReconDb \<Rightarrow> error + ReconDb" where
  "InsertDiscrepancy tn c d =
     (if dis_TenantID c \<noteq> tn then Inl (PgError RowSecurityViolation)
      else if dis_Kind c \<notin> {KindMissingInternal, KindMissingExternal, KindAmountMismatch, KindDuplicate}
        \<or> \<not> ValidDiscrepancyStatus (dis_Status c) then Inl (PgError CheckViolation)
      else if list_ex (\<lambda>x. dis_ID x = dis_ID c) (rc_discrepancies d) then Inl (PgError UniqueViolation)
      else if \<not> list_ex (\<lambda>r. run_ID r = dis_RunID c) (rc_runs d) then Inl (PgError ForeignKeyViolation)
      else Inr (d\<lparr>rc_discrepancies := rc_discrepancies d @ [c]\<rparr>))"

definition recon_ListDiscrepancies :: "uuid \<Rightarrow> string \<Rightarrow> nat \<Rightarrow> Cursor \<Rightarrow> ReconDb \<Rightarrow> Discrepancy list" where
  "recon_ListDiscrepancies tn status limit cursor d =
     keyset_page (\<lambda>c. (dis_CreatedAt c, dis_ID c)) cursor limit
       (filter (\<lambda>c. dis_TenantID c = tn \<and> (if status = '''' then True else dis_Status c = status)) (rc_discrepancies d))"

definition GetDiscrepancy :: "uuid \<Rightarrow> uuid \<Rightarrow> ReconDb \<Rightarrow> error + Discrepancy" where
  "GetDiscrepancy tn i d =
     (case find (\<lambda>c. dis_TenantID c = tn \<and> dis_ID c = i) (rc_discrepancies d) of None \<Rightarrow> Inl ErrNotFound | Some c \<Rightarrow> Inr c)"

definition recon_UpdateDiscrepancy :: "uuid \<Rightarrow> Discrepancy \<Rightarrow> ReconDb \<Rightarrow> error + ReconDb" where
  "recon_UpdateDiscrepancy tn c d =
     (if \<not> ValidDiscrepancyStatus (dis_Status c) then Inl (PgError CheckViolation)
      else Inr (d\<lparr>rc_discrepancies := map (\<lambda>x. if dis_TenantID x = tn \<and> dis_ID x = dis_ID c
         then x\<lparr>dis_Status := dis_Status c, dis_Details := dis_Details c\<rparr> else x) (rc_discrepancies d)\<rparr>))"

definition open_discrepancies :: "uuid \<Rightarrow> uuid \<Rightarrow> ReconDb \<Rightarrow> nat" where
  "open_discrepancies tn sourceID d =
     length (filter (\<lambda>c. dis_TenantID c = tn \<and> dis_Status c = DiscrepancyOpen
       \<and> list_ex (\<lambda>r. run_TenantID r = tn \<and> run_ID r = dis_RunID c \<and> run_SourceID r = sourceID) (rc_runs d)) (rc_discrepancies d))"

text \<open>The report query; \<open>ck\<close> is the collation the names are ordered by.\<close>

definition SourceSummaries :: "(string \<Rightarrow> string) \<Rightarrow> uuid \<Rightarrow> ReconDb \<Rightarrow> SourceSummary list" where
  "SourceSummaries ck tn d =
     map (\<lambda>s. let n = (\<lambda>st. length (filter (\<lambda>x. ext_TenantID x = tn \<and> ext_SourceID x = src_ID s \<and> ext_MatchStatus x = st) (rc_externals d)))
              in \<lparr>sum_SourceID = src_ID s, sum_SourceName = src_Name s, sum_Matched = n MatchMatched,
                  sum_Unmatched = n MatchUnmatched, sum_Disputed = n MatchDisputed,
                  sum_OpenDiscrepancies = open_discrepancies tn (src_ID s) d\<rparr>)
       (sort_key (\<lambda>s. ck (src_Name s)) (filter (\<lambda>s. src_TenantID s = tn) (rc_sources d)))"

text \<open>The outbox has no row-level security; \<open>at\<close> is the database clock.\<close>

definition InsertOutboxEnvelope :: "timestamp \<Rightarrow> discrepancyDetectedPayload Envelope \<Rightarrow> ReconDb \<Rightarrow> error + ReconDb" where
  "InsertOutboxEnvelope at env d =
     (if list_ex (\<lambda>r. ro_id r = env_ID env) (rc_outbox d) then Inl (PgError UniqueViolation)
      else Inr (d\<lparr>rc_outbox := rc_outbox d @ [\<lparr>or_tenant = env_TenantID env, or_topic = env_Type env,
         or_envelope = Some env, or_published = False, ro_id = env_ID env, ro_created_at = at\<rparr>]\<rparr>))"

text \<open>\<open>ON CONFLICT (id) DO NOTHING\<close> after the row passed the constraints.\<close>

definition insert_mirror :: "uuid \<Rightarrow> MirrorEntry \<Rightarrow> ReconDb \<Rightarrow> error + ReconDb" where
  "insert_mirror tn m d =
     (if me_TenantID m \<noteq> tn then Inl (PgError RowSecurityViolation)
      else if length (me_Reference m) > 255 \<or> length (me_Asset m) > 12 \<or> length (me_Direction m) > 6 then Inl (PgError StringTooLong)
      else if me_Direction m \<notin> {''DEBIT'', ''CREDIT''} then Inl (PgError CheckViolation)
      else if list_ex (\<lambda>x. me_ID x = me_ID m) (rc_mirror d) then Inr d
      else Inr (d\<lparr>rc_mirror := rc_mirror d @ [m]\<rparr>))"

definition InsertMirrorEntries :: "uuid \<Rightarrow> MirrorEntry list \<Rightarrow> ReconDb \<Rightarrow> (error + unit) \<times> ReconDb" where
  "InsertMirrorEntries tn entries d =
     (if entries = [] then (Inr (), d)
      else Within tn (\<lambda>d. bindE (batch (insert_mirror tn) entries d) (\<lambda>d'. Inr ((), d'))) d)"

text \<open>
  \<open>DrainOutbox\<close>: rows oldest first; a malformed row is marked so that it never blocks the queue, a
  refused publication stops the tick. The result: the table, the envelopes the broker accepted, the
  rows marked and whether the tick reports an error.
\<close>

fun recon_publish_loop :: "(nat \<Rightarrow> bool) \<Rightarrow> nat \<Rightarrow> (nat \<times> ('d, 'z) OutboxRow_scheme) list \<Rightarrow> nat list \<times> 'd Envelope list \<times> bool" where
  "recon_publish_loop pub k [] = ([], [], False)"
| "recon_publish_loop pub k ((i, r) # rs) =
     (case or_envelope r of
        None \<Rightarrow> (case recon_publish_loop pub k rs of (ids, sent, failed) \<Rightarrow> (i # ids, sent, True))
      | Some env \<Rightarrow>
          if pub k then (case recon_publish_loop pub (Suc k) rs of (ids, sent, failed) \<Rightarrow> (i # ids, env # sent, failed))
          else ([], [], True))"

definition DrainOutbox :: "(nat \<Rightarrow> bool) \<Rightarrow> nat \<Rightarrow> 'd ReconOutboxRow list \<Rightarrow> 'd ReconOutboxRow list \<times> 'd Envelope list \<times> bool" where
  "DrainOutbox pub limit rows =
     (case recon_publish_loop pub 0 (take limit (sort_key (\<lambda>(i, r). ro_created_at r) (pending_rows rows))) of
        (ids, sent, failed) \<Rightarrow> (mark_published ids rows, sent, failed))"

section \<open>Tenant purge\<close>

text \<open>
  The deletes of \<open>purge.go\<close>, children before parents. The outbox, without row-level security, is
  deleted by its tenant column like the others.
\<close>

definition recon_purge :: "uuid \<Rightarrow> ReconDb \<Rightarrow> ReconDb" where
  "recon_purge tn d =
     d\<lparr>rc_discrepancies := filter (\<lambda>x. dis_TenantID x \<noteq> tn) (rc_discrepancies d),
       rc_runs := filter (\<lambda>x. run_TenantID x \<noteq> tn) (rc_runs d),
       rc_externals := filter (\<lambda>x. ext_TenantID x \<noteq> tn) (rc_externals d),
       rc_imports := filter (\<lambda>x. imp_TenantID x \<noteq> tn) (rc_imports d),
       rc_sources := filter (\<lambda>x. src_TenantID x \<noteq> tn) (rc_sources d),
       rc_mirror := filter (\<lambda>x. me_TenantID x \<noteq> tn) (rc_mirror d),
       rc_outbox := filter (\<lambda>x. or_tenant x \<noteq> tn) (rc_outbox d)\<rparr>"

definition recon_fk_ok :: "ReconDb \<Rightarrow> bool" where
  "recon_fk_ok d \<longleftrightarrow>
     list_all (\<lambda>x. list_ex (\<lambda>r. run_ID r = dis_RunID x) (rc_runs d)) (rc_discrepancies d)
     \<and> list_all (\<lambda>x. list_ex (\<lambda>s. src_ID s = run_SourceID x) (rc_sources d)) (rc_runs d)
     \<and> list_all (\<lambda>x. list_ex (\<lambda>i. imp_ID i = ext_ImportID x) (rc_imports d) \<and> list_ex (\<lambda>s. src_ID s = ext_SourceID x) (rc_sources d)) (rc_externals d)
     \<and> list_all (\<lambda>x. list_ex (\<lambda>s. src_ID s = imp_SourceID x) (rc_sources d)) (rc_imports d)"

definition recon_Tenant :: "uuid \<Rightarrow> ReconDb \<Rightarrow> (error + unit) \<times> ReconDb" where
  "recon_Tenant tn d =
     Within tn (\<lambda>d. if recon_fk_ok (recon_purge tn d) then Inr ((), recon_purge tn d) else Inl (PgError ForeignKeyViolation)) d"

end
