(* ===== verification/Json.thy ===== *)
theory Json
  imports Text
begin

text \<open>
  The JSON documents of Go's \<open>encoding/json\<close> as the services use it: what \<open>Marshal\<close> makes of text, of identifiers and
  of instants, and how \<open>Unmarshal\<close> fills a struct by the tags of its fields. A document is a value; its text is left
  to the package, and bytes that are no document are \<^const>\<open>None\<close> where they can arrive. The texts of a UUID and of an
  instant are parameters with their documented laws. An object that names one field twice is decoded in the
  order of its members, a later array starting afresh.
\<close>

section \<open>Documents\<close>

text \<open>A number that is no integer is kept as its text.\<close>

datatype json =
    JNull
  | JBool bool
  | JInt int
  | JNumber string
  | JStr string
  | JArr "json list"
  | JObj "(string \<times> json) list"

section \<open>Text\<close>

text \<open>The length of the UTF-8 sequence a string starts with, 0 when there is none.\<close>

definition tail_byte :: "nat \<Rightarrow> nat \<Rightarrow> char \<Rightarrow> bool" where
  "tail_byte lo hi c \<longleftrightarrow> lo \<le> (of_char c :: nat) \<and> (of_char c :: nat) \<le> hi"

fun rune_len :: "string \<Rightarrow> nat" where
  "rune_len [] = 0"
| "rune_len (c # s) = (let n = of_char c :: nat in
     if n < 128 then 1
     else if 194 \<le> n \<and> n \<le> 223 then (case s of c1 # r \<Rightarrow> if tail_byte 128 191 c1 then 2 else 0 | _ \<Rightarrow> 0)
     else if 224 \<le> n \<and> n \<le> 239 then (case s of c1 # c2 # r \<Rightarrow>
         if tail_byte (if n = 224 then 160 else 128) (if n = 237 then 159 else 191) c1 \<and> tail_byte 128 191 c2 then 3 else 0
       | _ \<Rightarrow> 0)
     else if 240 \<le> n \<and> n \<le> 244 then (case s of c1 # c2 # c3 # r \<Rightarrow>
         if tail_byte (if n = 240 then 144 else 128) (if n = 244 then 143 else 191) c1 \<and> tail_byte 128 191 c2 \<and> tail_byte 128 191 c3
         then 4 else 0
       | _ \<Rightarrow> 0)
     else 0)"

text \<open>\<open>Marshal\<close> writes U+FFFD for every byte that is not part of a UTF-8 sequence.\<close>

fun coerce_utf8 :: "string \<Rightarrow> string" where
  "coerce_utf8 [] = []"
| "coerce_utf8 (c # s) =
     (if rune_len (c # s) = 0 then CHR 0xEF # CHR 0xBF # CHR 0xBD # coerce_utf8 s
      else c # take (rune_len (c # s) - 1) s @ coerce_utf8 (drop (rune_len (c # s) - 1) s))"

definition is_text :: "string \<Rightarrow> bool" where
  "is_text s \<longleftrightarrow> coerce_utf8 s = s"

definition text_json :: "string \<Rightarrow> json" where
  "text_json s = JStr (coerce_utf8 s)"

text \<open>\<open>UUID.String\<close>, \<open>uuid.Parse\<close>, and the RFC 3339 text of an instant both ways.\<close>

record codec =
  jc_uuidString :: "uuid \<Rightarrow> string"
  jc_uuidParse :: "string \<Rightarrow> uuid option"
  jc_timeText :: "timestamp \<Rightarrow> string"
  jc_timeParse :: "string \<Rightarrow> timestamp option"

definition uuid_json :: "codec \<Rightarrow> uuid \<Rightarrow> json" where
  "uuid_json c i = text_json (jc_uuidString c i)"

definition time_json :: "codec \<Rightarrow> timestamp \<Rightarrow> json" where
  "time_json c t = JStr (jc_timeText c t)"

text \<open>The instants RFC 3339 has a text for: those of the years 0 to 9999.\<close>

definition year_ok :: "timestamp \<Rightarrow> bool" where
  "year_ok t \<longleftrightarrow> - 62167219200 * 10 ^ 9 \<le> t \<and> t < 253402300800 * 10 ^ 9"

definition codec_law :: "codec \<Rightarrow> bool" where
  "codec_law c \<longleftrightarrow> (\<forall>i. jc_uuidParse c (jc_uuidString c i) = Some i \<and> is_text (jc_uuidString c i))
     \<and> (\<forall>t. year_ok t \<longrightarrow> jc_timeParse c (jc_timeText c t) = Some t)"

section \<open>Fields\<close>

text \<open>The \<open>omitempty\<close> option on a string.\<close>

definition omit_empty :: "string \<Rightarrow> string \<Rightarrow> (string \<times> json) list" where
  "omit_empty tag s = (if s = '''' then [] else [(tag, text_json s)])"

text \<open>A map of strings, sorted by key, and the \<open>omitempty\<close> option on it.\<close>

definition map_json :: "(string \<times> string) list \<Rightarrow> json" where
  "map_json m = JObj (map (\<lambda>(k, v). (coerce_utf8 k, text_json v)) (sort_key fst m))"

definition omit_empty_map :: "string \<Rightarrow> metadata \<Rightarrow> (string \<times> json) list" where
  "omit_empty_map tag m = (case m of None \<Rightarrow> [] | Some [] \<Rightarrow> [] | Some (p # ps) \<Rightarrow> [(tag, map_json (p # ps))])"

text \<open>
  A key names a field when it is its tag up to case; two letters outside ASCII fold to \<open>s\<close> and \<open>k\<close>.
  Tags are in lower case.
\<close>

definition same_letter :: "char \<Rightarrow> char \<Rightarrow> bool" where
  "same_letter t c \<longleftrightarrow> c = t \<or> (97 \<le> (of_char t :: nat) \<and> (of_char t :: nat) \<le> 122 \<and> (of_char c :: nat) + 32 = of_char t)"

fun names :: "string \<Rightarrow> string \<Rightarrow> bool" where
  "names [] key = (key = [])"
| "names (t # ts) [] = False"
| "names (t # ts) (c # key) =
     (if same_letter t c then names ts key
      else if t = CHR ''s'' \<and> c = CHR 0xC5 \<and> take 1 key = [CHR 0xBF] then names ts (drop 1 key)
      else if t = CHR ''k'' \<and> c = CHR 0xE2 \<and> take 2 key = [CHR 0x84, CHR 0xAA] then names ts (drop 2 key)
      else False)"

text \<open>
  What \<open>Unmarshal\<close> does to a field of each type: \<open>null\<close> leaves it as it is, and a value of the wrong type is an error, after which the
  decoded struct is not used.
\<close>

definition as_text :: "json \<Rightarrow> string \<Rightarrow> string option" where
  "as_text v old = (case v of JStr s \<Rightarrow> Some s | JNull \<Rightarrow> Some old | _ \<Rightarrow> None)"

definition as_uuid :: "codec \<Rightarrow> json \<Rightarrow> uuid \<Rightarrow> uuid option" where
  "as_uuid c v old = (case v of JStr s \<Rightarrow> jc_uuidParse c s | JNull \<Rightarrow> Some old | _ \<Rightarrow> None)"

definition as_time :: "codec \<Rightarrow> json \<Rightarrow> timestamp \<Rightarrow> timestamp option" where
  "as_time c v old = (case v of JStr s \<Rightarrow> jc_timeParse c s | JNull \<Rightarrow> Some old | _ \<Rightarrow> None)"

definition as_int :: "json \<Rightarrow> int \<Rightarrow> int option" where
  "as_int v old = (case v of JInt n \<Rightarrow> if fits64 n then Some n else None | JNull \<Rightarrow> Some old | _ \<Rightarrow> None)"

fun decode_obj :: "(string \<Rightarrow> json \<Rightarrow> 'r \<Rightarrow> 'r option) \<Rightarrow> (string \<times> json) list \<Rightarrow> 'r \<Rightarrow> 'r option" where
  "decode_obj f [] r = Some r"
| "decode_obj f ((k, v) # ms) r = (case f k v r of None \<Rightarrow> None | Some r' \<Rightarrow> decode_obj f ms r')"

definition decode_struct :: "(string \<Rightarrow> json \<Rightarrow> 'r \<Rightarrow> 'r option) \<Rightarrow> json \<Rightarrow> 'r \<Rightarrow> 'r option" where
  "decode_struct f v old = (case v of JObj ms \<Rightarrow> decode_obj f ms old | JNull \<Rightarrow> Some old | _ \<Rightarrow> None)"

definition decode_array :: "(json \<Rightarrow> 'r \<Rightarrow> 'r option) \<Rightarrow> 'r \<Rightarrow> json \<Rightarrow> 'r list option" where
  "decode_array f zero v = (case v of JArr vs \<Rightarrow> those (map (\<lambda>w. f w zero) vs) | JNull \<Rightarrow> Some [] | _ \<Rightarrow> None)"

definition as_map :: "json \<Rightarrow> metadata \<Rightarrow> metadata option" where
  "as_map v old = (case v of
     JObj ms \<Rightarrow> map_option Some (decode_obj (\<lambda>k w m. map_option (\<lambda>s. (k, s) # filter (\<lambda>p. fst p \<noteq> k) m) (as_text w '''')) ms
       (case old of None \<Rightarrow> [] | Some m \<Rightarrow> m))
   | JNull \<Rightarrow> Some None
   | _ \<Rightarrow> None)"

section \<open>Storage as JSONB\<close>

text \<open>
  What PostgreSQL gives back for a document with distinct keys stored in a \<open>JSONB\<close> column: the same values, the
  members of its objects in any order.
\<close>

inductive jsonb :: "json \<Rightarrow> json \<Rightarrow> bool" where
  null: "jsonb JNull JNull"
| boolean: "jsonb (JBool b) (JBool b)"
| integer: "jsonb (JInt n) (JInt n)"
| number: "jsonb (JNumber s) (JNumber s)"
| str: "jsonb (JStr s) (JStr s)"
| array: "list_all2 jsonb vs ws \<Longrightarrow> jsonb (JArr vs) (JArr ws)"
| obj: "list_all2 (rel_prod (=) jsonb) ms ns \<Longrightarrow> mset ns = mset os \<Longrightarrow> jsonb (JObj ms) (JObj os)"
monos list.rel_mono prod.rel_mono

inductive_simps jsonb_simps [simp]:
  "jsonb JNull j" "jsonb (JInt n) j" "jsonb (JStr s) j" "jsonb (JArr vs) j" "jsonb (JObj ms) j"

section \<open>Lemmas\<close>

lemma coerce_ascii: "list_all (\<lambda>c. (of_char c :: nat) < 128) s \<Longrightarrow> is_text s"
  unfolding is_text_def by (induction s) (simp_all add: Let_def)

lemma coerce_text [simp]: "is_text s \<Longrightarrow> coerce_utf8 s = s"
  by (simp add: is_text_def)

lemma digits_text [simp]: "is_text (show_int i)" "is_text (show_nat n)"
proof -
  have n: "list_all (\<lambda>c. (of_char c :: nat) < 128) (show_nat n)" for n
    using show_nat_digits [of _ n] by (fastforce simp: list_all_iff is_digit_code)
  then show "is_text (show_nat n)" by (rule coerce_ascii)
  show "is_text (show_int i)" by (rule coerce_ascii) (use n in \<open>simp add: show_int_def\<close>)
qed

lemma jsonb_refl [simp]: "jsonb j j"
proof (induction j)
  case (JArr vs)
  then show ?case by (intro jsonb.array) (simp add: list_all2_same)
next
  case (JObj ms)
  have "rel_prod (=) jsonb m m" if "m \<in> set ms" for m
    using JObj [OF that, of "snd m"] by (cases m) auto
  then show ?case by (intro jsonb.obj [where ns = ms]) (auto simp: list_all2_same)
qed (auto intro: jsonb.intros)

text \<open>The order of the members does not matter to a struct whose fields are set independently.\<close>

lemma decode_obj_append: "decode_obj f (xs @ ys) r = (case decode_obj f xs r of None \<Rightarrow> None | Some r' \<Rightarrow> decode_obj f ys r')"
  by (induction xs arbitrary: r) (auto split: option.split)

definition independent :: "string set \<Rightarrow> (string \<Rightarrow> json \<Rightarrow> 'r \<Rightarrow> 'r option) \<Rightarrow> bool" where
  "independent K f \<longleftrightarrow> (\<forall>k \<in> K. \<forall>k' \<in> K. \<forall>v v' r. k \<noteq> k' \<longrightarrow>
     Option.bind (f k v r) (f k' v') = Option.bind (f k' v' r) (f k v))"

lemma decode_obj_Cons: "decode_obj f (m # ms) r = Option.bind (f (fst m) (snd m) r) (decode_obj f ms)"
  by (cases m) (simp split: option.split)

lemma decode_obj_front:
  assumes "independent K f" and "k \<in> K" and "k \<notin> fst ` set xs" and "fst ` set xs \<subseteq> K"
  shows "decode_obj f (xs @ (k, v) # ys) r = decode_obj f ((k, v) # xs @ ys) r"
  using assms(3,4)
proof (induction xs arbitrary: r)
  case (Cons m xs)
  obtain k' v' where m: "m = (k', v')" by fastforce
  have swap: "Option.bind (f k' v' r) (f k v) = Option.bind (f k v r) (f k' v')"
    using assms(1,2) Cons.prems m unfolding independent_def by auto
  have "decode_obj f ((m # xs) @ (k, v) # ys) r = Option.bind (f k' v' r) (decode_obj f ((k, v) # xs @ ys))"
    using Cons by (cases "f k' v' r") (simp_all add: m decode_obj_Cons del: decode_obj.simps)
  also have "\<dots> = Option.bind (Option.bind (f k' v' r) (f k v)) (decode_obj f (xs @ ys))"
    by (cases "f k' v' r") (simp_all add: decode_obj_Cons del: decode_obj.simps)
  also have "\<dots> = decode_obj f ((k, v) # (m # xs) @ ys) r"
    unfolding swap by (cases "f k v r") (simp_all add: m decode_obj_Cons del: decode_obj.simps)
  finally show ?case .
qed simp

lemma decode_obj_order:
  assumes "independent K f" and "mset ns = mset ms" and "distinct (map fst ms)" and "fst ` set ms \<subseteq> K"
  shows "decode_obj f ns r = decode_obj f ms r"
  using assms(2-4)
proof (induction ms arbitrary: ns r)
  case (Cons m ms)
  obtain k v where m: "m = (k, v)" by fastforce
  have "m \<in> set ns" using Cons.prems(1) by (metis list.set_intros(1) set_mset_mset)
  then obtain xs ys where ns: "ns = xs @ m # ys" by (auto simp: in_set_conv_decomp)
  have rest: "mset (xs @ ys) = mset ms" using Cons.prems(1) by (simp add: ns)
  then have s: "set xs \<subseteq> set ms" by (metis Un_upper1 set_append set_mset_mset)
  then have "k \<notin> fst ` set xs" "fst ` set xs \<subseteq> K" using Cons.prems(2,3) by (auto simp: m)
  then have "decode_obj f ns r = decode_obj f (m # xs @ ys) r"
    using decode_obj_front [OF assms(1), of k xs v ys r] Cons.prems(3) by (simp add: m ns)
  also have "\<dots> = decode_obj f (m # ms) r"
    using Cons.IH [OF rest] Cons.prems(2,3) by (cases "f k v r") (simp_all add: m decode_obj_Cons del: decode_obj.simps)
  finally show ?case .
qed simp

lemma decode_struct_jsonb:
  assumes "independent K f" and j: "jsonb (JObj ms) j" and "distinct (map fst ms)" and "fst ` set ms \<subseteq> K"
  obtains ns where "list_all2 (rel_prod (=) jsonb) ms ns" "\<And>r. decode_struct f j r = decode_obj f ns r"
proof -
  obtain ns os where n: "list_all2 (rel_prod (=) jsonb) ms ns" "mset ns = mset os" "j = JObj os" using j by auto
  have k: "map fst ns = map fst ms" using n(1) by (induction rule: list_all2_induct) auto
  then have "fst ` set ns \<subseteq> K" using assms(4) by (metis set_map)
  then have "decode_struct f j r = decode_obj f ns r" for r
    using decode_obj_order [OF assms(1) n(2) [symmetric]] k assms(3) by (simp add: decode_struct_def n(3))
  then show thesis using that [OF n(1)] by blast
qed

end
