(* ===== verification/Event_Json.thy ===== *)
theory Event_Json
  imports Events Json
begin

text \<open>
  The events on the wire: the JSON of the ledger's payloads by the tags of \<open>services/ledger-core/internal/app/events.go\<close>,
  and of the envelope by those of \<open>libs/go/events/events.go\<close>, both ways. The \<open>Data\<close> of an envelope is a
  \<open>json.RawMessage\<close>: a document, or nothing.
\<close>

section \<open>Payloads\<close>

definition marshal_money :: "EventMoney \<Rightarrow> json" where
  "marshal_money m = JObj [(''asset'', text_json (em_Asset m)), (''amount'', text_json (em_Amount m))]"

definition marshal_posting :: "codec \<Rightarrow> EventPosting \<Rightarrow> json" where
  "marshal_posting c p = JObj [(''account_id'', uuid_json c (ep_AccountID p)), (''direction'', text_json (ep_Direction p)),
     (''amount'', marshal_money (ep_Amount p))]"

definition marshal_posted :: "codec \<Rightarrow> TransactionPostedEvent \<Rightarrow> json" where
  "marshal_posted c e = JObj (
     [(''transaction_id'', uuid_json c (tpe_TransactionID e)), (''ledger_id'', uuid_json c (tpe_LedgerID e)),
      (''idempotency_key'', text_json (tpe_IdempotencyKey e))]
     @ omit_empty ''description'' (tpe_Description e)
     @ [(''postings'', JArr (map (marshal_posting c) (tpe_Postings e)))]
     @ omit_empty_map ''metadata'' (tpe_Metadata e)
     @ [(''posted_at'', time_json c (tpe_PostedAt e))])"

definition marshal_reversed :: "codec \<Rightarrow> TransactionReversedEvent \<Rightarrow> json" where
  "marshal_reversed c e = JObj (
     [(''transaction_id'', uuid_json c (tre_TransactionID e)), (''reversal_transaction_id'', uuid_json c (tre_ReversalTransactionID e)),
      (''ledger_id'', uuid_json c (tre_LedgerID e))]
     @ omit_empty ''reason'' (tre_Reason e) @ [(''reversed_at'', time_json c (tre_ReversedAt e))])"

definition marshal_hold_created :: "codec \<Rightarrow> HoldCreatedEvent \<Rightarrow> json" where
  "marshal_hold_created c e = JObj (
     [(''hold_id'', uuid_json c (hce_HoldID e)), (''ledger_id'', uuid_json c (hce_LedgerID e)),
      (''account_id'', uuid_json c (hce_AccountID e))]
     @ omit_empty ''idempotency_key'' (hce_IdempotencyKey e)
     @ [(''amount'', marshal_money (hce_Amount e)), (''expires_at'', time_json c (hce_ExpiresAt e)),
        (''created_at'', time_json c (hce_CreatedAt e))])"

definition marshal_hold_captured :: "codec \<Rightarrow> HoldCapturedEvent \<Rightarrow> json" where
  "marshal_hold_captured c e = JObj (
     [(''hold_id'', uuid_json c (hpe_HoldID e)), (''ledger_id'', uuid_json c (hpe_LedgerID e)),
      (''account_id'', uuid_json c (hpe_AccountID e)), (''captured_amount'', marshal_money (hpe_CapturedAmount e))]
     @ (case hpe_ReleasedAmount e of None \<Rightarrow> [] | Some m \<Rightarrow> [(''released_amount'', marshal_money m)])
     @ [(''transaction_id'', case hpe_TransactionID e of None \<Rightarrow> JNull | Some i \<Rightarrow> uuid_json c i),
        (''captured_at'', time_json c (hpe_CapturedAt e))])"

definition marshal_hold_released :: "codec \<Rightarrow> HoldReleasedEvent \<Rightarrow> json" where
  "marshal_hold_released c e = JObj [(''hold_id'', uuid_json c (hre_HoldID e)), (''ledger_id'', uuid_json c (hre_LedgerID e)),
     (''account_id'', uuid_json c (hre_AccountID e)), (''amount'', marshal_money (hre_Amount e)),
     (''reason'', text_json (hre_Reason e)), (''released_at'', time_json c (hre_ReleasedAt e))]"

fun marshal_event :: "codec \<Rightarrow> event_data \<Rightarrow> json" where
  "marshal_event c (PostedData e) = marshal_posted c e"
| "marshal_event c (ReversedData e) = marshal_reversed c e"
| "marshal_event c (HoldCreatedData e) = marshal_hold_created c e"
| "marshal_event c (HoldCapturedData e) = marshal_hold_captured c e"
| "marshal_event c (HoldReleasedData e) = marshal_hold_released c e"

section \<open>Envelopes\<close>

definition marshal_envelope :: "codec \<Rightarrow> json option Envelope \<Rightarrow> json" where
  "marshal_envelope c e = JObj [(''id'', uuid_json c (env_ID e)), (''type'', text_json (env_Type e)),
     (''tenant_id'', uuid_json c (env_TenantID e)), (''occurred_at'', time_json c (env_OccurredAt e)),
     (''version'', JInt (env_Version e)), (''data'', case env_Data e of None \<Rightarrow> JNull | Some j \<Rightarrow> j)]"

definition envelope_member :: "codec \<Rightarrow> string \<Rightarrow> json \<Rightarrow> json option Envelope \<Rightarrow> json option Envelope option" where
  "envelope_member c k v e =
     (if names ''id'' k then map_option (\<lambda>x. e\<lparr>env_ID := x\<rparr>) (as_uuid c v (env_ID e))
      else if names ''type'' k then map_option (\<lambda>x. e\<lparr>env_Type := x\<rparr>) (as_text v (env_Type e))
      else if names ''tenant_id'' k then map_option (\<lambda>x. e\<lparr>env_TenantID := x\<rparr>) (as_uuid c v (env_TenantID e))
      else if names ''occurred_at'' k then map_option (\<lambda>x. e\<lparr>env_OccurredAt := x\<rparr>) (as_time c v (env_OccurredAt e))
      else if names ''version'' k then map_option (\<lambda>x. e\<lparr>env_Version := x\<rparr>) (as_int v (env_Version e))
      else if names ''data'' k then Some (e\<lparr>env_Data := Some v\<rparr>)
      else Some e)"

definition zero_envelope :: "json option Envelope" where
  "zero_envelope = \<lparr>env_ID = uuid_Nil, env_Type = '''', env_TenantID = uuid_Nil, env_OccurredAt = zeroTime, env_Version = 0, env_Data = None\<rparr>"

text \<open>The bytes of a message: a document, or \<^const>\<open>None\<close>.\<close>

definition unmarshal_envelope :: "codec \<Rightarrow> json option \<Rightarrow> json option Envelope option" where
  "unmarshal_envelope c msg = (case msg of None \<Rightarrow> None | Some j \<Rightarrow> decode_struct (envelope_member c) j zero_envelope)"

text \<open>The document \<open>insertOutbox\<close> stores for an envelope, and what a poller publishes for a stored one.\<close>

definition stored_json :: "codec \<Rightarrow> event_data Envelope \<Rightarrow> json" where
  "stored_json c e = marshal_envelope c \<lparr>env_ID = env_ID e, env_Type = env_Type e, env_TenantID = env_TenantID e,
     env_OccurredAt = env_OccurredAt e, env_Version = env_Version e, env_Data = Some (marshal_event c (env_Data e))\<rparr>"

definition published_json :: "codec \<Rightarrow> json \<Rightarrow> json option" where
  "published_json c stored = map_option (marshal_envelope c) (unmarshal_envelope c (Some stored))"

section \<open>Lemmas\<close>

definition envelope_tags :: "string set" where
  "envelope_tags = {''id'', ''type'', ''tenant_id'', ''occurred_at'', ''version'', ''data''}"

lemma envelope_member_simps [simp]:
  "envelope_member c ''id'' v e = map_option (\<lambda>x. e\<lparr>env_ID := x\<rparr>) (as_uuid c v (env_ID e))"
  "envelope_member c ''type'' v e = map_option (\<lambda>x. e\<lparr>env_Type := x\<rparr>) (as_text v (env_Type e))"
  "envelope_member c ''tenant_id'' v e = map_option (\<lambda>x. e\<lparr>env_TenantID := x\<rparr>) (as_uuid c v (env_TenantID e))"
  "envelope_member c ''occurred_at'' v e = map_option (\<lambda>x. e\<lparr>env_OccurredAt := x\<rparr>) (as_time c v (env_OccurredAt e))"
  "envelope_member c ''version'' v e = map_option (\<lambda>x. e\<lparr>env_Version := x\<rparr>) (as_int v (env_Version e))"
  "envelope_member c ''data'' v e = Some (e\<lparr>env_Data := Some v\<rparr>)"
  by (simp_all add: envelope_member_def same_letter_def)

lemma envelope_independent: "independent envelope_tags (envelope_member c)"
  unfolding independent_def envelope_tags_def by (auto simp: map_option_case split: option.split)

lemma decode_members:
  "codec_law c \<Longrightarrow> as_uuid c (uuid_json c i) x = Some i"
  "codec_law c \<Longrightarrow> year_ok t \<Longrightarrow> as_time c (time_json c t) y = Some t"
  "as_text (text_json s) z = Some (coerce_utf8 s)"
  by (auto simp: as_uuid_def uuid_json_def codec_law_def as_time_def time_json_def as_text_def text_json_def)

lemma jsonb_scalars [simp]:
  "jsonb (uuid_json c i) j \<longleftrightarrow> j = uuid_json c i" "jsonb (text_json s) j \<longleftrightarrow> j = text_json s" "jsonb (time_json c t) j \<longleftrightarrow> j = time_json c t"
  by (auto simp: uuid_json_def text_json_def time_json_def)

text \<open>An envelope that was stored comes back as it was, but for the order of the members of its payload.\<close>

lemma unmarshal_stored:
  assumes law: "codec_law c" and e: "is_text (env_Type e)" "year_ok (env_OccurredAt e)" "fits64 (env_Version e)" "env_Data e = Some p"
    and j: "jsonb (marshal_envelope c e) j"
  obtains p' where "jsonb p p'" "unmarshal_envelope c (Some j) = Some (e\<lparr>env_Data := Some p'\<rparr>)"
proof -
  let ?ms = "[(''id'', uuid_json c (env_ID e)), (''type'', text_json (env_Type e)), (''tenant_id'', uuid_json c (env_TenantID e)),
     (''occurred_at'', time_json c (env_OccurredAt e)), (''version'', JInt (env_Version e)), (''data'', p)]"
  have "jsonb (JObj ?ms) j" using j by (simp only: marshal_envelope_def e(4) option.case)
  then obtain ns where n: "list_all2 (rel_prod (=) jsonb) ?ms ns" "\<And>r. decode_struct (envelope_member c) j r = decode_obj (envelope_member c) ns r"
    by (rule decode_struct_jsonb [OF envelope_independent [of c]]) (simp_all add: envelope_tags_def)
  obtain p' where p': "jsonb p p'" "ns = [(''id'', uuid_json c (env_ID e)), (''type'', text_json (env_Type e)), (''tenant_id'', uuid_json c (env_TenantID e)),
     (''occurred_at'', time_json c (env_OccurredAt e)), (''version'', JInt (env_Version e)), (''data'', p')]"
    using n(1) by (auto simp: list_all2_Cons1 rel_prod_sel)
  have "decode_obj (envelope_member c) ns zero_envelope = Some (e\<lparr>env_Data := Some p'\<rparr>)"
    using law e(1-3) by (simp add: p'(2) decode_members as_int_def zero_envelope_def)
  then show thesis using that p'(1) n(2) by (simp add: unmarshal_envelope_def)
qed

lemma unmarshal_stored_same:
  assumes "codec_law c" and "is_text (env_Type e)" "year_ok (env_OccurredAt e)" "fits64 (env_Version e)" "env_Data e = Some p"
  shows "unmarshal_envelope c (Some (marshal_envelope c e)) = Some e"
  using assms
  by (cases e) (simp add: marshal_envelope_def unmarshal_envelope_def decode_struct_def decode_members as_int_def zero_envelope_def)

end
