(* ===== verification/Recon_Service.thy ===== *)
theory Recon_Service
  imports Recon_Store Event_Json
begin

text \<open>
  The reconciliation use cases, \<open>services/reconciliation/internal/app/service.go\<close>, and the consumer
  that feeds the mirror of ledger postings, \<open>adapters/natsconsumer/consumer.go\<close>. The environment
  record carries what a request reads from outside: fresh identifiers, clock readings, and the text
  of a UUID.
\<close>

record ReconEnv =
  rv_newID :: "nat \<Rightarrow> uuid"
  rv_eventID :: "nat \<Rightarrow> uuid option"
  rv_now :: "nat \<Rightarrow> timestamp"
  rv_uuidString :: "uuid \<Rightarrow> string"

section \<open>Sources and imports\<close>

definition CreateSource :: "ReconEnv \<Rightarrow> uuid \<Rightarrow> string \<Rightarrow> string \<Rightarrow> ReconDb \<Rightarrow> (error + Source) \<times> ReconDb" where
  "CreateSource env tenantID name kind d =
     (if name = '''' \<or> length name > 255 then (Inl ErrValidation, d)
      else if \<not> ValidSourceKind kind then (Inl ErrValidation, d)
      else let src = \<lparr>src_ID = rv_newID env 0, src_TenantID = tenantID, src_Name = name, src_Kind = kind, src_CreatedAt = rv_now env 0\<rparr>
        in Within tenantID (\<lambda>d. bindE (InsertSource tenantID src d) (\<lambda>d'. Inr (src, d'))) d)"

definition ListSources :: "uuid \<Rightarrow> nat \<Rightarrow> Cursor \<Rightarrow> ReconDb \<Rightarrow> (error + Source list) \<times> ReconDb" where
  "ListSources tenantID limit cursor d = Within tenantID (\<lambda>d. Inr (recon_ListSources tenantID limit cursor d, d)) d"

definition external_of_row :: "ReconEnv \<Rightarrow> uuid \<Rightarrow> uuid \<Rightarrow> uuid \<Rightarrow> nat \<Rightarrow> StatementRow \<Rightarrow> ExternalTransaction" where
  "external_of_row env tenantID importID sourceID k row =
     \<lparr>ext_ID = rv_newID env (Suc k), ext_TenantID = tenantID, ext_ImportID = importID, ext_SourceID = sourceID,
      ext_ExternalRef = sr_ExternalRef row, ext_Amount = sr_AmountUnits row, ext_Asset = sr_Asset row,
      ext_Direction = sr_Direction row, ext_OccurredAt = sr_OccurredAt row, ext_Raw = sr_Raw row,
      ext_MatchStatus = MatchUnmatched, ext_MatchedEntryID = None\<rparr>"

text \<open>A statement that does not parse is stored as a failed import, with no transactions.\<close>

definition store_import ::
  "ReconEnv \<Rightarrow> uuid \<Rightarrow> Import \<Rightarrow> statement_error + StatementRow list \<Rightarrow> ReconDb \<Rightarrow> error + Import \<times> ReconDb" where
  "store_import env tenantID imp parsed d =
     bindE (GetSource tenantID (imp_SourceID imp) d) (\<lambda>_.
       case parsed of
         Inl e \<Rightarrow> (let imp' = imp\<lparr>imp_Status := ImportFailed, imp_Error := Some e, imp_RowCount := 0\<rparr>
           in bindE (InsertImport tenantID imp' d) (\<lambda>d'. Inr (imp', d')))
       | Inr rows \<Rightarrow> (let imp' = imp\<lparr>imp_Status := ImportProcessed, imp_RowCount := length rows\<rparr>
           in bindE (InsertImport tenantID imp' d) (\<lambda>d1.
              bindE (InsertExternalTransactions tenantID
                  (map (\<lambda>(k, row). external_of_row env tenantID (imp_ID imp') (imp_SourceID imp') k row) (enumerate 0 rows)) d1) (\<lambda>d'.
                Inr (imp', d')))))"

definition ImportStatement ::
  "(string \<Rightarrow> timestamp option) \<Rightarrow> ReconEnv \<Rightarrow> uuid \<Rightarrow> uuid \<Rightarrow> string \<Rightarrow> string \<Rightarrow> ReconDb \<Rightarrow> (error + Import) \<times> ReconDb" where
  "ImportStatement timeParse env tenantID sourceID filename csvBody d =
     (if sourceID = uuid_Nil then (Inl ErrValidation, d)
      else let parsed = ParseStatementCSV timeParse csvBody recon_DefaultAssetExponent;
               imp = \<lparr>imp_ID = rv_newID env 0, imp_TenantID = tenantID, imp_SourceID = sourceID,
                      imp_Filename = (if filename = '''' then ''statement.csv'' else filename),
                      imp_Status = '''', imp_RowCount = 0, imp_Error = None, imp_CreatedAt = rv_now env 0\<rparr>
        in Within tenantID (store_import env tenantID imp parsed) d)"

section \<open>Runs\<close>

definition discrepancyFromFinding :: "ReconEnv \<Rightarrow> uuid \<Rightarrow> timestamp \<Rightarrow> Run \<Rightarrow> Finding \<Rightarrow> Discrepancy" where
  "discrepancyFromFinding env newID now run f =
     (let str = rv_uuidString env; num = (\<lambda>u. show_int (sint u)); x = fi_External f in
      \<lparr>dis_ID = newID, dis_TenantID = run_TenantID run, dis_RunID = run_ID run, dis_Kind = fi_Kind f,
       dis_Details = [(''asset'', ext_Asset x)]
         @ (case fi_Entry f of None \<Rightarrow> []
            | Some e \<Rightarrow> [(''entry_amount'', num (me_Amount e)), (''entry_asset'', me_Asset e), (''entry_id'', str (me_ID e)),
                         (''entry_transaction_id'', str (me_TransactionID e))])
         @ [(''external_amount'', num (ext_Amount x)), (''external_id'', str (ext_ID x)), (''external_ref'', ext_ExternalRef x)],
       dis_Status = DiscrepancyOpen, dis_CreatedAt = now\<rparr>)"

definition eventKind :: "string \<Rightarrow> string option" where
  "eventKind k =
     (if k = KindMissingInternal then Some ''missing_in_ledger''
      else if k = KindMissingExternal then Some ''missing_in_source''
      else if k = KindAmountMismatch then Some ''amount_mismatch''
      else None)"

text \<open>
  A kind without a wire mapping is an error of its own in the code; \<open>StartRun\<close> never gets there, so the
  error value chosen for it does not matter.
\<close>

definition discrepancyEnvelope ::
  "uuid option \<Rightarrow> timestamp \<Rightarrow> Run \<Rightarrow> Discrepancy \<Rightarrow> Finding \<Rightarrow> error + discrepancyDetectedPayload Envelope" where
  "discrepancyEnvelope evID wall run disc f =
     (case eventKind (dis_Kind disc) of
        None \<Rightarrow> Inl ErrValidation
      | Some kind \<Rightarrow>
          NewEnvelope evID wall TopicDiscrepancyDetected (run_TenantID run)
            \<lparr>ddp_DiscrepancyID = dis_ID disc, ddp_RunID = run_ID run, ddp_SourceID = run_SourceID run, ddp_Kind = kind,
             ddp_ExternalID = ext_ExternalRef (fi_External f), ddp_TransactionID = map_option me_TransactionID (fi_Entry f),
             ddp_Asset = ext_Asset (fi_External f), ddp_Amount = show_int (sint (ext_Amount (fi_External f))),
             ddp_DetectedAt = dis_CreatedAt disc\<rparr>)"

text \<open>One finding, the \<open>k\<close>-th of the run: dispute, discrepancy, event.\<close>

definition record_finding :: "ReconEnv \<Rightarrow> uuid \<Rightarrow> Run \<Rightarrow> nat \<times> Finding \<Rightarrow> ReconDb \<Rightarrow> error + ReconDb" where
  "record_finding env tn run kf d =
     (case kf of (k, f) \<Rightarrow>
      bindE (if fi_Kind f = KindAmountMismatch \<or> fi_Kind f = KindDuplicate
             then MarkExternalDisputed tn (ext_ID (fi_External f)) d else Inr d) (\<lambda>d1.
      let disc = discrepancyFromFinding env (rv_newID env (Suc k)) (rv_now env (Suc k)) run f in
      bindE (InsertDiscrepancy tn disc d1) (\<lambda>d2.
      case eventKind (fi_Kind f) of
        None \<Rightarrow> Inr d2
      | Some _ \<Rightarrow>
          bindE (discrepancyEnvelope (rv_eventID env k) (rv_now env (Suc k)) run disc f) (\<lambda>e.
          InsertOutboxEnvelope (rv_now env (Suc k)) e d2))))"

definition mark_pair :: "uuid \<Rightarrow> MatchPair \<Rightarrow> ReconDb \<Rightarrow> error + ReconDb" where
  "mark_pair tn p d = MarkExternalMatched tn (mp_ExternalID p) (mp_EntryID p) d"

definition StartRun :: "ReconEnv \<Rightarrow> uuid \<Rightarrow> uuid \<Rightarrow> ReconDb \<Rightarrow> (error + Run) \<times> ReconDb" where
  "StartRun env tenantID sourceID d =
     (if sourceID = uuid_Nil then (Inl ErrValidation, d)
      else let run = \<lparr>run_ID = rv_newID env 0, run_TenantID = tenantID, run_SourceID = sourceID, run_Status = RunRunning,
                      run_MatchedCount = 0, run_UnmatchedCount = 0, run_StartedAt = rv_now env 0, run_FinishedAt = None\<rparr>
        in Within tenantID (\<lambda>d.
          bindE (GetSource tenantID sourceID d) (\<lambda>_.
          bindE (InsertRun tenantID run d) (\<lambda>d1.
          let result = MatchNaive (ListUnmatchedExternals tenantID sourceID d1) (ListMirrorEntries tenantID d1) in
          bindE (batch (mark_pair tenantID) (mr_Matches result) d1) (\<lambda>d2.
          bindE (batch (record_finding env tenantID run) (enumerate 0 (mr_Findings result)) d2) (\<lambda>d3.
          let run' = run\<lparr>run_Status := RunCompleted, run_MatchedCount := length (mr_Matches result),
                run_UnmatchedCount := length (mr_Findings result),
                run_FinishedAt := Some (rv_now env (Suc (length (mr_Findings result))))\<rparr> in
          bindE (UpdateRun tenantID run' d3) (\<lambda>d4. Inr (run', d4))))))) d)"

definition GetRun :: "uuid \<Rightarrow> uuid \<Rightarrow> ReconDb \<Rightarrow> (error + Run) \<times> ReconDb" where
  "GetRun tenantID i d = Within tenantID (\<lambda>d. bindE (recon_GetRun tenantID i d) (\<lambda>r. Inr (r, d))) d"

definition Report :: "(string \<Rightarrow> string) \<Rightarrow> uuid \<Rightarrow> ReconDb \<Rightarrow> (error + SourceSummary list) \<times> ReconDb" where
  "Report ck tenantID d = Within tenantID (\<lambda>d. Inr (SourceSummaries ck tenantID d, d)) d"

section \<open>Triage\<close>

definition ListDiscrepancies :: "uuid \<Rightarrow> string \<Rightarrow> nat \<Rightarrow> Cursor \<Rightarrow> ReconDb \<Rightarrow> (error + Discrepancy list) \<times> ReconDb" where
  "ListDiscrepancies tenantID status limit cursor d =
     (if status \<noteq> '''' \<and> \<not> ValidDiscrepancyStatus status then (Inl ErrValidation, d)
      else Within tenantID (\<lambda>d. Inr (recon_ListDiscrepancies tenantID status limit cursor d, d)) d)"

text \<open>The details map is kept sorted by key.\<close>

definition put_detail :: "string \<Rightarrow> string \<Rightarrow> (string \<times> string) list \<Rightarrow> (string \<times> string) list" where
  "put_detail k v m = sort_key fst ((k, v) # filter (\<lambda>p. fst p \<noteq> k) m)"

definition UpdateDiscrepancy :: "uuid \<Rightarrow> uuid \<Rightarrow> string \<Rightarrow> string \<Rightarrow> ReconDb \<Rightarrow> (error + Discrepancy) \<times> ReconDb" where
  "UpdateDiscrepancy tenantID i status resolutionNote d =
     (if \<not> ValidDiscrepancyStatus status then (Inl ErrValidation, d)
      else Within tenantID (\<lambda>d. bindE (GetDiscrepancy tenantID i d) (\<lambda>c0.
        let c1 = c0\<lparr>dis_Status := status\<rparr>;
            c = (if resolutionNote \<noteq> '''' then c1\<lparr>dis_Details := put_detail ''resolution_note'' resolutionNote (dis_Details c1)\<rparr> else c1)
        in bindE (recon_UpdateDiscrepancy tenantID c d) (\<lambda>d'. Inr (c, d')))) d)"

section \<open>The mirror consumer\<close>

datatype ack = Ack | Nak | Term

text \<open>
  The consumer's own structs for the payload of a posted event, and how \<open>Unmarshal\<close> fills them by their tags from
  the \<open>Data\<close> of an envelope; without any it fails.
\<close>

record moneyPayload =
  mny_Asset :: string
  mny_Amount :: string

record postingPayload =
  pst_AccountID :: uuid
  pst_Direction :: string
  pst_Amount :: moneyPayload

record transactionPostedPayload =
  tpp_TransactionID :: uuid
  tpp_LedgerID :: uuid
  tpp_IdempotencyKey :: string
  tpp_Description :: string
  tpp_Postings :: "postingPayload list"
  tpp_Metadata :: metadata
  tpp_PostedAt :: timestamp

definition money_member :: "string \<Rightarrow> json \<Rightarrow> moneyPayload \<Rightarrow> moneyPayload option" where
  "money_member k v m =
     (if names ''asset'' k then map_option (\<lambda>x. m\<lparr>mny_Asset := x\<rparr>) (as_text v (mny_Asset m))
      else if names ''amount'' k then map_option (\<lambda>x. m\<lparr>mny_Amount := x\<rparr>) (as_text v (mny_Amount m))
      else Some m)"

definition posting_member :: "codec \<Rightarrow> string \<Rightarrow> json \<Rightarrow> postingPayload \<Rightarrow> postingPayload option" where
  "posting_member c k v p =
     (if names ''account_id'' k then map_option (\<lambda>x. p\<lparr>pst_AccountID := x\<rparr>) (as_uuid c v (pst_AccountID p))
      else if names ''direction'' k then map_option (\<lambda>x. p\<lparr>pst_Direction := x\<rparr>) (as_text v (pst_Direction p))
      else if names ''amount'' k then map_option (\<lambda>x. p\<lparr>pst_Amount := x\<rparr>) (decode_struct money_member v (pst_Amount p))
      else Some p)"

definition zero_posting :: postingPayload where
  "zero_posting = \<lparr>pst_AccountID = uuid_Nil, pst_Direction = '''', pst_Amount = \<lparr>mny_Asset = '''', mny_Amount = ''''\<rparr>\<rparr>"

definition posted_member :: "codec \<Rightarrow> string \<Rightarrow> json \<Rightarrow> transactionPostedPayload \<Rightarrow> transactionPostedPayload option" where
  "posted_member c k v t =
     (if names ''transaction_id'' k then map_option (\<lambda>x. t\<lparr>tpp_TransactionID := x\<rparr>) (as_uuid c v (tpp_TransactionID t))
      else if names ''ledger_id'' k then map_option (\<lambda>x. t\<lparr>tpp_LedgerID := x\<rparr>) (as_uuid c v (tpp_LedgerID t))
      else if names ''idempotency_key'' k then map_option (\<lambda>x. t\<lparr>tpp_IdempotencyKey := x\<rparr>) (as_text v (tpp_IdempotencyKey t))
      else if names ''description'' k then map_option (\<lambda>x. t\<lparr>tpp_Description := x\<rparr>) (as_text v (tpp_Description t))
      else if names ''postings'' k then map_option (\<lambda>x. t\<lparr>tpp_Postings := x\<rparr>) (decode_array (decode_struct (posting_member c)) zero_posting v)
      else if names ''metadata'' k then map_option (\<lambda>x. t\<lparr>tpp_Metadata := x\<rparr>) (as_map v (tpp_Metadata t))
      else if names ''posted_at'' k then map_option (\<lambda>x. t\<lparr>tpp_PostedAt := x\<rparr>) (as_time c v (tpp_PostedAt t))
      else Some t)"

definition zero_posted :: transactionPostedPayload where
  "zero_posted = \<lparr>tpp_TransactionID = uuid_Nil, tpp_LedgerID = uuid_Nil, tpp_IdempotencyKey = '''', tpp_Description = '''',
     tpp_Postings = [], tpp_Metadata = None, tpp_PostedAt = zeroTime\<rparr>"

definition unmarshal_posted :: "codec \<Rightarrow> json option \<Rightarrow> transactionPostedPayload option" where
  "unmarshal_posted c data = (case data of None \<Rightarrow> None | Some j \<Rightarrow> decode_struct (posted_member c) j zero_posted)"

text \<open>
  The handler. A broker message is an envelope, or bytes that do not decode as one (\<^const>\<open>None\<close>). \<open>decode\<close> reads the
  payload of the envelope; \<open>postingID\<close> is the version 5 UUID of a transaction and a posting index.
\<close>

fun mirror_entries :: "(uuid \<Rightarrow> nat \<Rightarrow> uuid) \<Rightarrow> uuid \<Rightarrow> transactionPostedPayload \<Rightarrow> nat \<Rightarrow> postingPayload list \<Rightarrow> MirrorEntry list option" where
  "mirror_entries postingID tenantID payload i [] = Some []"
| "mirror_entries postingID tenantID payload i (p # ps) =
     (case ParseInt (mny_Amount (pst_Amount p)) of
        None \<Rightarrow> None
      | Some amount \<Rightarrow>
          map_option (\<lambda>es. \<lparr>me_ID = postingID (tpp_TransactionID payload) i, me_TenantID = tenantID,
             me_TransactionID = tpp_TransactionID payload, me_AccountID = pst_AccountID p, me_Direction = pst_Direction p,
             me_Amount = amount, me_Asset = mny_Asset (pst_Amount p), me_Reference = tpp_IdempotencyKey payload,
             me_PostedAt = tpp_PostedAt payload\<rparr> # es) (mirror_entries postingID tenantID payload (Suc i) ps))"

text \<open>The checks before the database is touched: an answer at once, or the tenant and the rows to insert.\<close>

definition decode_message ::
  "(uuid \<Rightarrow> nat \<Rightarrow> uuid) \<Rightarrow> ('d \<Rightarrow> transactionPostedPayload option) \<Rightarrow> 'd Envelope option \<Rightarrow> ack + uuid \<times> MirrorEntry list" where
  "decode_message postingID decode msg =
     (case msg of
        None \<Rightarrow> Inl Term
      | Some env \<Rightarrow>
        if env_Type env \<noteq> TopicTransactionPosted then Inl Ack
        else if env_TenantID env = uuid_Nil then Inl Term
        else case decode (env_Data env) of
          None \<Rightarrow> Inl Term
        | Some payload \<Rightarrow>
          (case mirror_entries postingID (env_TenantID env) payload 0 (tpp_Postings payload) of
             None \<Rightarrow> Inl Term
           | Some entries \<Rightarrow> Inr (env_TenantID env, entries)))"

definition mirror_handle ::
  "(uuid \<Rightarrow> nat \<Rightarrow> uuid) \<Rightarrow> ('d \<Rightarrow> transactionPostedPayload option) \<Rightarrow> 'd Envelope option \<Rightarrow> ReconDb \<Rightarrow> ack \<times> ReconDb" where
  "mirror_handle postingID decode msg d =
     (case decode_message postingID decode msg of
        Inl a \<Rightarrow> (a, d)
      | Inr (tn, entries) \<Rightarrow>
          (case InsertMirrorEntries tn entries d of (Inl _, d') \<Rightarrow> (Nak, d') | (Inr _, d') \<Rightarrow> (Ack, d')))"

text \<open>What the handler makes of the bytes of a message.\<close>

definition mirror_consume :: "codec \<Rightarrow> (uuid \<Rightarrow> nat \<Rightarrow> uuid) \<Rightarrow> json option \<Rightarrow> ReconDb \<Rightarrow> ack \<times> ReconDb" where
  "mirror_consume c postingID data d = mirror_handle postingID (unmarshal_posted c) (unmarshal_envelope c data) d"

section \<open>The transition system\<close>

inductive recon_step :: "ReconDb \<Rightarrow> ReconDb \<Rightarrow> bool" where
  create_source: "recon_step d (snd (CreateSource env tn name kind d))"
| import_statement: "recon_step d (snd (ImportStatement tp env tn sourceID filename body d))"
| start_run: "recon_step d (snd (StartRun env tn sourceID d))"
| update_discrepancy: "recon_step d (snd (UpdateDiscrepancy tn i status note d))"
| mirror: "recon_step d (snd (mirror_handle postingID (decode :: json option \<Rightarrow> transactionPostedPayload option) msg d))"
| drain: "recon_step d (d\<lparr>rc_outbox := fst (DrainOutbox pub limit (rc_outbox d))\<rparr>)"
| purge: "recon_step d (snd (recon_Tenant tn d))"

end
