(* ===== verification/Recon_Theorems.thy ===== *)
theory Recon_Theorems
  imports Recon_Service
begin

text \<open>
  The properties of reconciliation: the invariant of every reachable database, what a run does to a
  source, the all-or-nothing import, and the mirror under at-least-once delivery.
\<close>

section \<open>Effects of the statements\<close>

text \<open>An external transaction marked matched is backed by a mirror entry of its tenant that agrees with it.\<close>

definition backed :: "MirrorEntry list \<Rightarrow> ExternalTransaction \<Rightarrow> bool" where
  "backed mirror x \<longleftrightarrow> (\<exists>m \<in> set mirror. me_TenantID m = ext_TenantID x \<and> ext_MatchedEntryID x = Some (me_ID m)
     \<and> me_Reference m = ext_ExternalRef x \<and> entry_fits x m)"

definition external_ok :: "MirrorEntry list \<Rightarrow> ExternalTransaction \<Rightarrow> bool" where
  "external_ok mirror x \<longleftrightarrow>
     (ext_MatchStatus x = MatchMatched \<and> backed mirror x)
     \<or> ((ext_MatchStatus x = MatchUnmatched \<or> ext_MatchStatus x = MatchDisputed) \<and> ext_MatchedEntryID x = None)"

definition recon_inv :: "ReconDb \<Rightarrow> bool" where
  "recon_inv d \<longleftrightarrow> distinct (map me_ID (rc_mirror d)) \<and> distinct (map ext_ID (rc_externals d))
     \<and> list_all (external_ok (rc_mirror d)) (rc_externals d)"

text \<open>Statements that leave the two tables of the invariant alone.\<close>

definition same_matching :: "ReconDb \<Rightarrow> ReconDb \<Rightarrow> bool" where
  "same_matching d d' \<longleftrightarrow> rc_mirror d' = rc_mirror d \<and> rc_externals d' = rc_externals d"

lemma same_matching_inv: "same_matching d d' \<Longrightarrow> recon_inv d \<Longrightarrow> recon_inv d'"
  by (simp add: same_matching_def recon_inv_def)

lemma recon_statement_frames:
  "InsertSource tn s d = Inr d' \<Longrightarrow> same_matching d d'"
  "InsertImport tn imp d = Inr d' \<Longrightarrow> same_matching d d'"
  "InsertRun tn r d = Inr d' \<Longrightarrow> same_matching d d'"
  "UpdateRun tn r d = Inr d' \<Longrightarrow> same_matching d d'"
  "InsertDiscrepancy tn c d = Inr d' \<Longrightarrow> same_matching d d'"
  "recon_UpdateDiscrepancy tn c d = Inr d' \<Longrightarrow> same_matching d d'"
  "InsertOutboxEnvelope at env d = Inr d' \<Longrightarrow> same_matching d d'"
  by (auto simp: same_matching_def InsertSource_def InsertImport_def InsertRun_def UpdateRun_def InsertDiscrepancy_def
      recon_UpdateDiscrepancy_def InsertOutboxEnvelope_def split: if_splits)

lemma Within_cases:
  assumes "Within tn fn d = (r, d')"
  obtains (fails) e where "r = Inl e" "d' = d"
  | (commits) x where "tn \<noteq> uuid_Nil" "fn d = Inr (x, d')" "r = Inr x"
  using assms by (auto simp: Within_def split: if_splits sum.splits)

lemma Within_inv: "(\<And>x d'. fn d = Inr (x, d') \<Longrightarrow> P d') \<Longrightarrow> P d \<Longrightarrow> P (snd (Within tn fn d))"
  by (cases "Within tn fn d") (auto elim!: Within_cases)

lemma recon_batch_keeps:
  assumes "batch stmt xs d = Inr d'" and "P d"
    and "\<And>x s s'. x \<in> set xs \<Longrightarrow> stmt x s = Inr s' \<Longrightarrow> P s \<Longrightarrow> P s'"
  shows "P d'"
  using assms by (induction xs arbitrary: d) (auto simp: bindE_Inr_iff)

lemma insert_external_Inr:
  "insert_external tn x d = Inr d' \<Longrightarrow> d' = d\<lparr>rc_externals := rc_externals d @ [x]\<rparr> \<and> ext_ID x \<notin> ext_ID ` set (rc_externals d)"
  by (auto simp: insert_external_def list_ex_iff split: if_splits)

lemma batch_externals:
  "batch (insert_external tn) xs d = Inr d' \<Longrightarrow>
     d' = d\<lparr>rc_externals := rc_externals d @ xs\<rparr> \<and> (distinct (map ext_ID (rc_externals d)) \<longrightarrow> distinct (map ext_ID (rc_externals d')))"
proof (induction xs arbitrary: d)
  case (Cons x xs)
  then obtain d1 where d1: "insert_external tn x d = Inr d1" "batch (insert_external tn) xs d1 = Inr d'"
    by (auto simp: bindE_Inr_iff)
  have "distinct (map ext_ID (rc_externals d1))" if "distinct (map ext_ID (rc_externals d))"
    using insert_external_Inr [OF d1(1)] that by auto
  then have "distinct (map ext_ID (rc_externals d)) \<longrightarrow> distinct (map ext_ID (rc_externals d'))"
    using Cons.IH [OF d1(2)] by blast
  moreover have "d' = d\<lparr>rc_externals := rc_externals d @ x # xs\<rparr>"
    using Cons.IH [OF d1(2)] insert_external_Inr [OF d1(1)] by simp
  ultimately show ?case by blast
qed simp

lemma insert_mirror_Inr:
  assumes "insert_mirror tn m d = Inr d'"
  shows "d' = (if me_ID m \<in> me_ID ` set (rc_mirror d) then d else d\<lparr>rc_mirror := rc_mirror d @ [m]\<rparr>)" "me_TenantID m = tn"
proof -
  have ex: "list_ex (\<lambda>x. me_ID x = me_ID m) (rc_mirror d) \<longleftrightarrow> me_ID m \<in> me_ID ` set (rc_mirror d)"
    unfolding list_ex_iff image_iff by metis
  show "d' = (if me_ID m \<in> me_ID ` set (rc_mirror d) then d else d\<lparr>rc_mirror := rc_mirror d @ [m]\<rparr>)" "me_TenantID m = tn"
    using assms unfolding insert_mirror_def ex by (auto split: if_splits)
qed

lemma external_ok_mono: "external_ok mirror x \<Longrightarrow> set mirror \<subseteq> set mirror' \<Longrightarrow> external_ok mirror' x"
  unfolding external_ok_def backed_def by blast

lemma recon_inv_insert_mirror:
  assumes "insert_mirror tn m d = Inr d'" and "recon_inv d"
  shows "recon_inv d'"
  using insert_mirror_Inr [OF assms(1)] assms(2)
  by (auto simp: recon_inv_def list_all_iff intro: external_ok_mono split: if_splits)

text \<open>The matches of a run, as one update of the external transactions.\<close>

definition mark_with :: "uuid \<Rightarrow> (uuid \<Rightarrow> uuid option) \<Rightarrow> ExternalTransaction \<Rightarrow> ExternalTransaction" where
  "mark_with tn f x = (if ext_TenantID x = tn then
     (case f (ext_ID x) of None \<Rightarrow> x | Some e \<Rightarrow> x\<lparr>ext_MatchStatus := MatchMatched, ext_MatchedEntryID := Some e\<rparr>) else x)"

lemma mark_with_none [simp]: "mark_with tn (\<lambda>_. None) = (\<lambda>x. x)"
  by (rule ext) (simp add: mark_with_def)

lemma batch_mark_pairs:
  "distinct (map mp_ExternalID ps) \<Longrightarrow>
     batch (mark_pair tn) ps d =
       Inr (d\<lparr>rc_externals := map (mark_with tn (map_of (map (\<lambda>p. (mp_ExternalID p, mp_EntryID p)) ps))) (rc_externals d)\<rparr>)"
proof (induction ps arbitrary: d)
  case (Cons p ps)
  have "mark_with tn (map_of (map (\<lambda>p. (mp_ExternalID p, mp_EntryID p)) ps))
      (if ext_TenantID x = tn \<and> ext_ID x = mp_ExternalID p
       then x\<lparr>ext_MatchStatus := MatchMatched, ext_MatchedEntryID := Some (mp_EntryID p)\<rparr> else x)
    = mark_with tn (map_of (map (\<lambda>p. (mp_ExternalID p, mp_EntryID p)) (p # ps))) x" for x
  proof -
    have "map_of (map (\<lambda>p. (mp_ExternalID p, mp_EntryID p)) ps) (mp_ExternalID p) = None"
      using Cons.prems by (auto simp: map_of_eq_None_iff image_iff)
    then show ?thesis by (auto simp: mark_with_def split: option.split)
  qed
  then show ?case
    using Cons by (simp add: mark_pair_def MarkExternalMatched_def update_external_def comp_def fun_upd_def)
qed simp

definition dispute_with :: "uuid \<Rightarrow> uuid set \<Rightarrow> ExternalTransaction \<Rightarrow> ExternalTransaction" where
  "dispute_with tn ids x = (if ext_TenantID x = tn \<and> ext_ID x \<in> ids then x\<lparr>ext_MatchStatus := MatchDisputed\<rparr> else x)"

lemma dispute_with_empty [simp]: "dispute_with tn {} = (\<lambda>x. x)"
  by (rule ext) (simp add: dispute_with_def)

definition disputed_ids :: "Finding list \<Rightarrow> uuid set" where
  "disputed_ids fs = (\<lambda>f. ext_ID (fi_External f)) ` {f \<in> set fs. fi_Kind f = KindAmountMismatch \<or> fi_Kind f = KindDuplicate}"

text \<open>What recording one finding does to each table.\<close>

lemma record_finding_Inr:
  assumes "record_finding env tn run (k, f) d = Inr d'"
  shows "rc_externals d' = map (dispute_with tn (disputed_ids [f])) (rc_externals d)"
    and "rc_sources d' = rc_sources d" "rc_imports d' = rc_imports d" "rc_mirror d' = rc_mirror d" "rc_runs d' = rc_runs d"
    and "rc_discrepancies d' = rc_discrepancies d
        @ [discrepancyFromFinding env (rv_newID env (Suc k)) (rv_now env (Suc k)) run f]"
    and "length (rc_outbox d') = length (rc_outbox d) + (if eventKind (fi_Kind f) = None then 0 else 1)"
proof -
  let ?d1 = "if fi_Kind f = KindAmountMismatch \<or> fi_Kind f = KindDuplicate
      then d\<lparr>rc_externals := map (\<lambda>x. if ext_TenantID x = tn \<and> ext_ID x = ext_ID (fi_External f) then x\<lparr>ext_MatchStatus := MatchDisputed\<rparr> else x) (rc_externals d)\<rparr>
      else d"
  let ?disc = "discrepancyFromFinding env (rv_newID env (Suc k)) (rv_now env (Suc k)) run f"
  have "rc_externals ?d1 = map (dispute_with tn (disputed_ids [f])) (rc_externals d)"
  proof -
    have "disputed_ids [f] = (if fi_Kind f = KindAmountMismatch \<or> fi_Kind f = KindDuplicate then {ext_ID (fi_External f)} else {})"
      by (auto simp: disputed_ids_def)
    then show ?thesis by (simp add: dispute_with_def)
  qed
  moreover have "bindE (InsertDiscrepancy tn ?disc ?d1) (\<lambda>d2.
      case eventKind (fi_Kind f) of
        None \<Rightarrow> Inr d2
      | Some _ \<Rightarrow>
          bindE (discrepancyEnvelope (rv_eventID env k) (rv_now env (Suc k)) run ?disc f) (\<lambda>e.
          InsertOutboxEnvelope (rv_now env (Suc k)) e d2)) = Inr d'"
    using assms by (auto simp: record_finding_def MarkExternalDisputed_def update_external_def Let_def split: if_splits)
  then obtain d2 where d2: "InsertDiscrepancy tn ?disc ?d1 = Inr d2"
    and c: "(case eventKind (fi_Kind f) of
        None \<Rightarrow> Inr d2
      | Some _ \<Rightarrow>
          bindE (discrepancyEnvelope (rv_eventID env k) (rv_now env (Suc k)) run ?disc f) (\<lambda>e.
          InsertOutboxEnvelope (rv_now env (Suc k)) e d2)) = Inr d'"
    unfolding bindE_Inr_iff by blast
  have out: "d' = d2 \<and> eventKind (fi_Kind f) = None \<or>
      (\<exists>e. eventKind (fi_Kind f) \<noteq> None \<and> InsertOutboxEnvelope (rv_now env (Suc k)) e d2 = Inr d')"
    using c by (cases "eventKind (fi_Kind f)") (auto simp: bindE_Inr_iff)
  have "d2 = ?d1\<lparr>rc_discrepancies := rc_discrepancies ?d1 @ [?disc]\<rparr>"
    using d2 by (auto simp: InsertDiscrepancy_def split: if_splits)
  ultimately show "rc_externals d' = map (dispute_with tn (disputed_ids [f])) (rc_externals d)"
    and "rc_sources d' = rc_sources d" "rc_imports d' = rc_imports d" "rc_mirror d' = rc_mirror d" "rc_runs d' = rc_runs d"
    and "rc_discrepancies d' = rc_discrepancies d
        @ [discrepancyFromFinding env (rv_newID env (Suc k)) (rv_now env (Suc k)) run f]"
    and "length (rc_outbox d') = length (rc_outbox d) + (if eventKind (fi_Kind f) = None then 0 else 1)"
    using out by (auto simp: InsertOutboxEnvelope_def split: if_splits)
qed

lemma dispute_with_union: "dispute_with tn B (dispute_with tn A x) = dispute_with tn (A \<union> B) x"
  by (auto simp: dispute_with_def)

lemma disputed_ids_Cons: "disputed_ids (f # fs) = disputed_ids [f] \<union> disputed_ids fs"
  by (auto simp: disputed_ids_def)

lemma batch_findings:
  assumes "batch (record_finding env tn run) (enumerate k fs) d = Inr d'"
  shows "rc_externals d' = map (dispute_with tn (disputed_ids fs)) (rc_externals d)
    \<and> rc_sources d' = rc_sources d \<and> rc_imports d' = rc_imports d \<and> rc_mirror d' = rc_mirror d \<and> rc_runs d' = rc_runs d
    \<and> length (rc_discrepancies d') = length (rc_discrepancies d) + length fs
    \<and> length (rc_outbox d') = length (rc_outbox d) + length (filter (\<lambda>f. eventKind (fi_Kind f) \<noteq> None) fs)"
  using assms
proof (induction fs arbitrary: k d)
  case Nil
  then show ?case by (simp add: disputed_ids_def map_idI)
next
  case (Cons f fs)
  then obtain d1 where d1: "record_finding env tn run (k, f) d = Inr d1"
    and r: "batch (record_finding env tn run) (enumerate (Suc k) fs) d1 = Inr d'"
    by (auto simp: bindE_Inr_iff)
  from Cons.IH [OF r] record_finding_Inr [OF d1] show ?case
    unfolding disputed_ids_Cons [of f fs] by (simp add: dispute_with_union)
qed

section \<open>Runs\<close>

lemma unmatched_external:
  assumes "y \<in> set (ListUnmatchedExternals tn sourceID d)"
  shows "\<exists>x \<in> set (rc_externals d). ext_TenantID x = tn \<and> ext_SourceID x = sourceID \<and> ext_MatchStatus x = MatchUnmatched
    \<and> y = x\<lparr>ext_Raw := []\<rparr>"
  using assms by (auto simp: ListUnmatchedExternals_def)

lemma unmatched_ids:
  "map ext_ID (ListUnmatchedExternals tn sourceID d) = map ext_ID (sort_key (\<lambda>x. (ext_OccurredAt x, ext_ID x))
     (filter (\<lambda>x. ext_TenantID x = tn \<and> ext_SourceID x = sourceID \<and> ext_MatchStatus x = MatchUnmatched) (rc_externals d)))"
  by (simp add: ListUnmatchedExternals_def comp_def)

lemma unmatched_distinct:
  "distinct (map ext_ID (rc_externals d)) \<Longrightarrow> distinct (map ext_ID (ListUnmatchedExternals tn sourceID d))"
  unfolding unmatched_ids by (auto simp: distinct_map inj_on_def)

lemma length_unmatched:
  "length (ListUnmatchedExternals tn sourceID d)
     = length (filter (\<lambda>x. ext_TenantID x = tn \<and> ext_SourceID x = sourceID \<and> ext_MatchStatus x = MatchUnmatched) (rc_externals d))"
  by (simp add: ListUnmatchedExternals_def)

lemma match_ids:
  assumes "distinct (map ext_ID exts)"
  shows "distinct (map mp_ExternalID (mr_Matches (MatchNaive exts mirror)))"
    and "set (map mp_ExternalID (mr_Matches (MatchNaive exts mirror))) \<inter> disputed_ids (mr_Findings (MatchNaive exts mirror)) = {}"
    and "length (mr_Matches (MatchNaive exts mirror)) + length (mr_Findings (MatchNaive exts mirror)) = length exts"
proof -
  let ?a = "map mp_ExternalID (mr_Matches (MatchNaive exts mirror))"
  let ?b = "map (\<lambda>f. ext_ID (fi_External f)) (mr_Findings (MatchNaive exts mirror))"
  have m: "mset (?a @ ?b) = mset (map ext_ID exts)" using MatchNaive_partition [of exts mirror] by simp
  then have "distinct (?a @ ?b)" using assms mset_eq_imp_distinct_iff by blast
  then show "distinct ?a" and "set ?a \<inter> disputed_ids (mr_Findings (MatchNaive exts mirror)) = {}"
    by (auto simp: disputed_ids_def)
  have "size (mset (?a @ ?b)) = size (mset (map ext_ID exts))" using m by (rule arg_cong)
  then show "length (mr_Matches (MatchNaive exts mirror)) + length (mr_Findings (MatchNaive exts mirror)) = length exts" by simp
qed

text \<open>A successful run, table by table.\<close>

definition run_result :: "uuid \<Rightarrow> uuid \<Rightarrow> ReconDb \<Rightarrow> MatchResult" where
  "run_result tn sourceID d = MatchNaive (ListUnmatchedExternals tn sourceID d) (ListMirrorEntries tn d)"

definition run_update :: "uuid \<Rightarrow> MatchResult \<Rightarrow> ExternalTransaction \<Rightarrow> ExternalTransaction" where
  "run_update tn res x = dispute_with tn (disputed_ids (mr_Findings res))
     (mark_with tn (map_of (map (\<lambda>p. (mp_ExternalID p, mp_EntryID p)) (mr_Matches res))) x)"

lemma StartRun_effect:
  assumes "StartRun env tn sourceID d = (Inr run, d')" and "distinct (map ext_ID (rc_externals d))"
  shows "rc_externals d' = map (run_update tn (run_result tn sourceID d)) (rc_externals d)"
    and "rc_mirror d' = rc_mirror d" "rc_sources d' = rc_sources d" "rc_imports d' = rc_imports d"
    and "run_Status run = RunCompleted" "run_MatchedCount run = length (mr_Matches (run_result tn sourceID d))"
      "run_UnmatchedCount run = length (mr_Findings (run_result tn sourceID d))"
    and "length (rc_discrepancies d') = length (rc_discrepancies d) + length (mr_Findings (run_result tn sourceID d))"
    and "length (rc_outbox d') = length (rc_outbox d)
        + length (filter (\<lambda>f. eventKind (fi_Kind f) \<noteq> None) (mr_Findings (run_result tn sourceID d)))"
proof -
  let ?run = "\<lparr>run_ID = rv_newID env 0, run_TenantID = tn, run_SourceID = sourceID, run_Status = RunRunning,
      run_MatchedCount = 0, run_UnmatchedCount = 0, run_StartedAt = rv_now env 0, run_FinishedAt = None\<rparr>"
  let ?res = "run_result tn sourceID d"
  obtain d1 d2 d3 where d1: "InsertRun tn ?run d = Inr d1"
    and d2: "batch (mark_pair tn) (mr_Matches (MatchNaive (ListUnmatchedExternals tn sourceID d1) (ListMirrorEntries tn d1))) d1 = Inr d2"
    and d3: "batch (record_finding env tn ?run)
      (enumerate 0 (mr_Findings (MatchNaive (ListUnmatchedExternals tn sourceID d1) (ListMirrorEntries tn d1)))) d2 = Inr d3"
    and d4: "UpdateRun tn run d3 = Inr d'"
    and run: "run_Status run = RunCompleted"
      "run_MatchedCount run = length (mr_Matches (MatchNaive (ListUnmatchedExternals tn sourceID d1) (ListMirrorEntries tn d1)))"
      "run_UnmatchedCount run = length (mr_Findings (MatchNaive (ListUnmatchedExternals tn sourceID d1) (ListMirrorEntries tn d1)))"
    using assms(1)
    by (auto simp: StartRun_def Let_def bindE_Inr_iff split: if_splits elim!: Within_cases)
  have f1: "rc_externals d1 = rc_externals d" "rc_mirror d1 = rc_mirror d" "rc_sources d1 = rc_sources d" "rc_imports d1 = rc_imports d"
    "rc_discrepancies d1 = rc_discrepancies d" "rc_outbox d1 = rc_outbox d"
    using d1 by (auto simp: InsertRun_def split: if_splits)
  have res: "MatchNaive (ListUnmatchedExternals tn sourceID d1) (ListMirrorEntries tn d1) = ?res"
    using f1 by (simp add: run_result_def ListUnmatchedExternals_def ListMirrorEntries_def)
  have "distinct (map mp_ExternalID (mr_Matches ?res))"
    unfolding run_result_def by (rule match_ids(1) [OF unmatched_distinct [OF assms(2)]])
  note marks = batch_mark_pairs [OF this, of tn d1]
  have f2: "d2 = d1\<lparr>rc_externals := map (mark_with tn (map_of (map (\<lambda>p. (mp_ExternalID p, mp_EntryID p)) (mr_Matches ?res)))) (rc_externals d1)\<rparr>"
    using d2 marks unfolding res by simp
  note f3 = batch_findings [OF d3, unfolded res]
  have f4: "rc_externals d' = rc_externals d3" "rc_mirror d' = rc_mirror d3" "rc_sources d' = rc_sources d3" "rc_imports d' = rc_imports d3"
    "rc_discrepancies d' = rc_discrepancies d3" "rc_outbox d' = rc_outbox d3"
    using d4 by (auto simp: UpdateRun_def split: if_splits)
  show "rc_externals d' = map (run_update tn ?res) (rc_externals d)"
    using f1 f2 f3 f4 by (simp add: run_update_def comp_def)
  show "rc_mirror d' = rc_mirror d" "rc_sources d' = rc_sources d" "rc_imports d' = rc_imports d"
    "length (rc_discrepancies d') = length (rc_discrepancies d) + length (mr_Findings ?res)"
    "length (rc_outbox d') = length (rc_outbox d) + length (filter (\<lambda>f. eventKind (fi_Kind f) \<noteq> None) (mr_Findings ?res))"
    using f1 f2 f3 f4 by simp_all
  show "run_Status run = RunCompleted" "run_MatchedCount run = length (mr_Matches ?res)" "run_UnmatchedCount run = length (mr_Findings ?res)"
    using run unfolding res by simp_all
qed

lemma run_update_keeps: "ext_ID (run_update tn res x) = ext_ID x" "ext_TenantID (run_update tn res x) = ext_TenantID x"
    "ext_SourceID (run_update tn res x) = ext_SourceID x" "ext_ExternalRef (run_update tn res x) = ext_ExternalRef x"
  by (simp_all add: run_update_def dispute_with_def mark_with_def split: option.split)

lemma ext_ID_raw: "ext_ID (x\<lparr>ext_Raw := r\<rparr>) = ext_ID x"
  by simp

text \<open>What a run decides for one external transaction of the table.\<close>

lemma run_update_cases:
  fixes d :: ReconDb and tn sourceID :: uuid
  assumes dist: "distinct (map ext_ID (rc_externals d))" and x: "x \<in> set (rc_externals d)"
  defines "res \<equiv> run_result tn sourceID d"
  obtains (kept) "run_update tn res x = x"
      "\<not> (ext_TenantID x = tn \<and> (ext_ID x \<in> set (map mp_ExternalID (mr_Matches res)) \<or> ext_ID x \<in> disputed_ids (mr_Findings res)))"
  | (matched) m where "ext_TenantID x = tn" "ext_SourceID x = sourceID" "ext_MatchStatus x = MatchUnmatched"
      "ext_ID x \<in> set (map mp_ExternalID (mr_Matches res))" "ext_ID x \<notin> disputed_ids (mr_Findings res)"
      "m \<in> set (rc_mirror d)" "me_TenantID m = tn" "me_Reference m = ext_ExternalRef x" "entry_fits x m"
      "run_update tn res x = x\<lparr>ext_MatchStatus := MatchMatched, ext_MatchedEntryID := Some (me_ID m)\<rparr>"
  | (disputed) "ext_TenantID x = tn" "ext_SourceID x = sourceID" "ext_MatchStatus x = MatchUnmatched"
      "ext_ID x \<notin> set (map mp_ExternalID (mr_Matches res))" "ext_ID x \<in> disputed_ids (mr_Findings res)"
      "run_update tn res x = x\<lparr>ext_MatchStatus := MatchDisputed\<rparr>"
proof -
  let ?us = "ListUnmatchedExternals tn sourceID d"
  have same: "y = x\<lparr>ext_Raw := []\<rparr> \<and> ext_TenantID x = tn \<and> ext_SourceID x = sourceID \<and> ext_MatchStatus x = MatchUnmatched"
    if y: "y \<in> set ?us" "ext_ID y = ext_ID x" for y
  proof -
    obtain z where z: "z \<in> set (rc_externals d)" "ext_TenantID z = tn" "ext_SourceID z = sourceID" "ext_MatchStatus z = MatchUnmatched"
      "y = z\<lparr>ext_Raw := []\<rparr>"
      using unmatched_external [OF y(1)] by blast
    then have "z = x" using y(2) x dist by (metis distinct_map inj_onD ext_ID_raw)
    then show ?thesis using z by simp
  qed
  have dus: "distinct (map ext_ID ?us)" by (rule unmatched_distinct [OF dist])
  note ids = match_ids [OF dus, of "ListMirrorEntries tn d", folded run_result_def, folded res_def]
  show thesis
  proof (cases "ext_TenantID x = tn")
    case False
    then show thesis using kept by (simp add: run_update_def mark_with_def dispute_with_def)
  next
    case True
    consider "ext_ID x \<in> set (map mp_ExternalID (mr_Matches res))"
      | "ext_ID x \<notin> set (map mp_ExternalID (mr_Matches res))" "ext_ID x \<in> disputed_ids (mr_Findings res)"
      | "ext_ID x \<notin> set (map mp_ExternalID (mr_Matches res))" "ext_ID x \<notin> disputed_ids (mr_Findings res)"
      by blast
    then show thesis
    proof cases
      case 1
      then obtain p where p: "p \<in> set (mr_Matches res)" "mp_ExternalID p = ext_ID x" by auto
      then obtain y m where y: "y \<in> set ?us" and m: "m \<in> set (ListMirrorEntries tn d)"
        and ym: "p = \<lparr>mp_ExternalID = ext_ID y, mp_EntryID = me_ID m\<rparr>" "me_Reference m = ext_ExternalRef y" "entry_fits y m"
        using MatchNaive_pair unfolding res_def run_result_def by blast
      have yx: "y = x\<lparr>ext_Raw := []\<rparr> \<and> ext_TenantID x = tn \<and> ext_SourceID x = sourceID \<and> ext_MatchStatus x = MatchUnmatched"
        using same [OF y] p(2) ym(1) by simp
      have "map_of (map (\<lambda>p. (mp_ExternalID p, mp_EntryID p)) (mr_Matches res)) (ext_ID x) = Some (me_ID m)"
        using p ym(1) ids(1) by (intro map_of_is_SomeI) (force simp: comp_def image_iff)+
      moreover have "ext_ID x \<notin> disputed_ids (mr_Findings res)" using 1 ids(2) by blast
      moreover have "m \<in> set (rc_mirror d)" "me_TenantID m = tn" using m by (auto simp: ListMirrorEntries_def)
      moreover have "me_Reference m = ext_ExternalRef x" "entry_fits x m" using ym yx by (auto simp: entry_fits_def)
      ultimately show thesis
        using matched [of m] yx 1 by (simp add: run_update_def mark_with_def dispute_with_def)
    next
      case 2
      then obtain f where f: "f \<in> set (mr_Findings res)" "ext_ID (fi_External f) = ext_ID x"
        by (auto simp: disputed_ids_def)
      have "fi_External f \<in> set ?us" using MatchNaive_finding(1) f(1) unfolding res_def run_result_def by blast
      from same [OF this f(2)] have "ext_SourceID x = sourceID" "ext_MatchStatus x = MatchUnmatched" by auto
      moreover have "map_of (map (\<lambda>p. (mp_ExternalID p, mp_EntryID p)) (mr_Matches res)) (ext_ID x) = None"
        using 2(1) by (auto simp: map_of_eq_None_iff)
      ultimately show thesis using disputed 2 True by (simp add: run_update_def mark_with_def dispute_with_def)
    next
      case 3
      then have "map_of (map (\<lambda>p. (mp_ExternalID p, mp_EntryID p)) (mr_Matches res)) (ext_ID x) = None"
        by (auto simp: map_of_eq_None_iff)
      then show thesis using kept 3 by (simp add: run_update_def mark_with_def dispute_with_def)
    qed
  qed
qed

section \<open>The invariant\<close>

lemma StartRun_inv:
  assumes "recon_inv d"
  shows "recon_inv (snd (StartRun env tn sourceID d))"
proof (cases "fst (StartRun env tn sourceID d)")
  case (Inl e)
  then have "snd (StartRun env tn sourceID d) = d"
    by (auto simp: StartRun_def Within_def Let_def split: sum.splits if_splits)
  then show ?thesis using assms by simp
next
  case (Inr run)
  have dist: "distinct (map ext_ID (rc_externals d))" using assms by (simp add: recon_inv_def)
  have r: "StartRun env tn sourceID d = (Inr run, snd (StartRun env tn sourceID d))" using Inr by (cases "StartRun env tn sourceID d") auto
  note eff = StartRun_effect [OF r dist]
  have ok: "external_ok (rc_mirror d) (run_update tn (run_result tn sourceID d) x)" if x: "x \<in> set (rc_externals d)" for x
  proof -
    have old: "external_ok (rc_mirror d) x" using assms x by (simp add: recon_inv_def list_all_iff)
    have mm: "MatchMatched \<noteq> MatchUnmatched" "MatchDisputed \<noteq> MatchMatched"
      by (simp_all add: MatchMatched_def MatchUnmatched_def MatchDisputed_def)
    show ?thesis
      by (rule run_update_cases [OF dist x, of tn sourceID]) (use old mm in \<open>auto simp: external_ok_def backed_def entry_fits_def\<close>)
  qed
  have "map ext_ID (map (run_update tn (run_result tn sourceID d)) (rc_externals d)) = map ext_ID (rc_externals d)"
    by (simp add: run_update_keeps)
  then have "distinct (map ext_ID (map (run_update tn (run_result tn sourceID d)) (rc_externals d)))" using dist by (simp only:)
  then show ?thesis using assms ok unfolding recon_inv_def eff(1,2) by (simp add: list_all_iff)
qed

text \<open>An import commits in one of two ways, and otherwise leaves no trace.\<close>

lemma ImportStatement_cases:
  assumes i: "ImportStatement tp env tn sourceID filename body d = (r, d')"
  obtains (refused) e where "r = Inl e" "d' = d"
  | (unparsed) e imp where "ParseStatementCSV tp body recon_DefaultAssetExponent = Inl e" "r = Inr imp"
      "imp_Status imp = ImportFailed" "imp_Error imp = Some e" "imp_RowCount imp = 0"
      "d' = d\<lparr>rc_imports := rc_imports d @ [imp]\<rparr>"
  | (stored) rows imp where "ParseStatementCSV tp body recon_DefaultAssetExponent = Inr rows" "r = Inr imp"
      "imp_Status imp = ImportProcessed" "imp_Error imp = None" "imp_RowCount imp = length rows"
      "d' = d\<lparr>rc_imports := rc_imports d @ [imp],
              rc_externals := rc_externals d @ map (\<lambda>(k, row). external_of_row env tn (imp_ID imp) sourceID k row) (enumerate 0 rows)\<rparr>"
      "distinct (map ext_ID (rc_externals d)) \<longrightarrow> distinct (map ext_ID (rc_externals d'))"
proof (cases "sourceID = uuid_Nil")
  case True
  then show thesis using i refused by (auto simp: ImportStatement_def)
next
  case False
  have insert: "d'' = d\<lparr>rc_imports := rc_imports d @ [imp]\<rparr>" if "InsertImport tn imp d = Inr d''" for imp d''
    using that by (auto simp: InsertImport_def split: if_splits)
  have externals: "d3 = d2\<lparr>rc_externals := rc_externals d2 @ xs\<rparr>
      \<and> (distinct (map ext_ID (rc_externals d2)) \<longrightarrow> distinct (map ext_ID (rc_externals d3)))"
    if "InsertExternalTransactions tn xs d2 = Inr d3" for xs d2 d3
  proof (cases "xs = []")
    case True
    then show ?thesis using that by (simp add: InsertExternalTransactions_def)
  next
    case False
    then have "batch (insert_external tn) xs d2 = Inr d3" using that by (simp add: InsertExternalTransactions_def)
    then show ?thesis by (rule batch_externals)
  qed
  note step = i [unfolded ImportStatement_def if_not_P [OF False] Let_def]
  show thesis
  proof (cases "ParseStatementCSV tp body recon_DefaultAssetExponent")
    case (Inl e)
    have "(\<exists>e. r = Inl e \<and> d' = d) \<or> (\<exists>imp. InsertImport tn imp d = Inr d' \<and> r = Inr imp
        \<and> imp_Status imp = ImportFailed \<and> imp_Error imp = Some e \<and> imp_RowCount imp = 0)"
      using step unfolding Inl by (rule Within_cases) (auto simp: bindE_Inr_iff store_import_def Let_def)
    then show thesis
    proof (elim disjE exE conjE)
      fix imp assume "InsertImport tn imp d = Inr d'"
        and imp: "r = Inr imp" "imp_Status imp = ImportFailed" "imp_Error imp = Some e" "imp_RowCount imp = 0"
      then show thesis by (intro unparsed [OF Inl imp] insert)
    qed (rule refused)
  next
    case (Inr rows)
    have "(\<exists>e. r = Inl e \<and> d' = d) \<or> (\<exists>imp d1. InsertImport tn imp d = Inr d1 \<and> r = Inr imp
        \<and> InsertExternalTransactions tn (map (\<lambda>(k, row). external_of_row env tn (imp_ID imp) sourceID k row) (enumerate 0 rows)) d1 = Inr d'
        \<and> imp_Status imp = ImportProcessed \<and> imp_Error imp = None \<and> imp_RowCount imp = length rows)"
      using step unfolding Inr by (rule Within_cases) (auto simp: bindE_Inr_iff store_import_def Let_def)
    then show thesis
    proof (elim disjE exE conjE)
      fix imp d1 assume d1: "InsertImport tn imp d = Inr d1" and x: "InsertExternalTransactions tn
          (map (\<lambda>(k, row). external_of_row env tn (imp_ID imp) sourceID k row) (enumerate 0 rows)) d1 = Inr d'"
        and imp: "r = Inr imp" "imp_Status imp = ImportProcessed" "imp_Error imp = None" "imp_RowCount imp = length rows"
      have same: "rc_externals d1 = rc_externals d" using insert [OF d1] by simp
      show thesis
      proof (rule stored [OF Inr imp])
        show "d' = d\<lparr>rc_imports := rc_imports d @ [imp],
            rc_externals := rc_externals d @ map (\<lambda>(k, row). external_of_row env tn (imp_ID imp) sourceID k row) (enumerate 0 rows)\<rparr>"
          using externals [OF x] insert [OF d1] by simp
        show "distinct (map ext_ID (rc_externals d)) \<longrightarrow> distinct (map ext_ID (rc_externals d'))"
          using externals [OF x] unfolding same by blast
      qed
    qed (rule refused)
  qed
qed

lemma ImportStatement_inv:
  assumes "recon_inv d"
  shows "recon_inv (snd (ImportStatement tp env tn sourceID filename body d))"
proof (cases "ImportStatement tp env tn sourceID filename body d" rule: prod.exhaust)
  case (Pair r d')
  then show ?thesis
  proof (cases rule: ImportStatement_cases)
    case (stored rows imp)
    have "external_ok (rc_mirror d) (external_of_row env tn (imp_ID imp) sourceID k row)" for k row
      by (simp add: external_ok_def external_of_row_def)
    then show ?thesis using stored assms Pair by (auto simp: recon_inv_def list_all_iff)
  qed (use assms Pair in \<open>simp_all add: recon_inv_def\<close>)
qed

lemma decode_message_Inr:
  "decode_message postingID decode msg = Inr (tn, entries) \<longleftrightarrow>
     (\<exists>env payload. msg = Some env \<and> env_Type env = TopicTransactionPosted \<and> env_TenantID env = tn \<and> tn \<noteq> uuid_Nil
        \<and> decode (env_Data env) = Some payload \<and> mirror_entries postingID tn payload 0 (tpp_Postings payload) = Some entries)"
  by (cases msg) (auto simp: decode_message_def split: option.split)

lemma mirror_handle_cases:
  assumes "mirror_handle postingID decode msg d = (a, d')"
  obtains (skipped) "d' = d"
  | (inserted) tn entries where "decode_message postingID decode msg = Inr (tn, entries)"
      "batch (insert_mirror tn) entries d = Inr d'" "a = Ack"
proof (cases "decode_message postingID decode msg")
  case (Inl x)
  then show thesis using assms skipped by (simp add: mirror_handle_def)
next
  case (Inr te)
  obtain tn entries where te: "te = (tn, entries)" by fastforce
  have i: "(case InsertMirrorEntries tn entries d of (Inl _, d') \<Rightarrow> (Nak, d') | (Inr _, d') \<Rightarrow> (Ack, d')) = (a, d')"
    using assms Inr by (simp add: mirror_handle_def te)
  show thesis
  proof (cases "entries = []")
    case True
    then show thesis using i skipped by (simp add: InsertMirrorEntries_def)
  next
    case False
    then show thesis
      using i skipped inserted [OF Inr [unfolded te]]
      by (cases "Within tn (\<lambda>d. bindE (batch (insert_mirror tn) entries d) (\<lambda>d'. Inr ((), d'))) d")
        (auto simp: InsertMirrorEntries_def bindE_Inr_iff elim!: Within_cases)
  qed
qed

lemma CreateSource_inv:
  assumes inv: "recon_inv d"
  shows "recon_inv (snd (CreateSource env tn name kind d))"
proof -
  have "recon_inv (snd (Within tn (\<lambda>d. bindE (InsertSource tn src d) (\<lambda>d'. Inr (src, d'))) d))" for src
  proof (rule Within_inv)
    fix x d1 assume "bindE (InsertSource tn src d) (\<lambda>d'. Inr (src, d')) = Inr (x, d1)"
    then have "InsertSource tn src d = Inr d1" by (auto simp: bindE_Inr_iff)
    then show "recon_inv d1" using same_matching_inv [OF recon_statement_frames(1)] inv by blast
  qed (rule inv)
  then show ?thesis unfolding CreateSource_def Let_def using inv by simp
qed

lemma UpdateDiscrepancy_inv:
  assumes inv: "recon_inv d"
  shows "recon_inv (snd (UpdateDiscrepancy tn i status remark d))"
proof -
  have "recon_inv (snd (Within tn (\<lambda>d. bindE (GetDiscrepancy tn i d) (\<lambda>c0. bindE (recon_UpdateDiscrepancy tn (f c0) d) (\<lambda>d'. Inr (f c0, d')))) d))" for f
  proof (rule Within_inv)
    fix x d1 assume "bindE (GetDiscrepancy tn i d) (\<lambda>c0. bindE (recon_UpdateDiscrepancy tn (f c0) d) (\<lambda>d'. Inr (f c0, d'))) = Inr (x, d1)"
    then obtain c where "recon_UpdateDiscrepancy tn c d = Inr d1" by (auto simp: bindE_Inr_iff)
    then show "recon_inv d1" using same_matching_inv [OF recon_statement_frames(6)] inv by blast
  qed (rule inv)
  then show ?thesis unfolding UpdateDiscrepancy_def Let_def using inv by simp
qed

lemma mirror_handle_inv:
  assumes "recon_inv d"
  shows "recon_inv (snd (mirror_handle postingID decode msg d))"
proof (cases "mirror_handle postingID decode msg d" rule: prod.exhaust)
  case (Pair a d')
  then show ?thesis
  proof (cases rule: mirror_handle_cases)
    case (inserted tn entries)
    have "recon_inv d'"
      by (rule recon_batch_keeps [where P = recon_inv, OF inserted(2) assms]) (rule recon_inv_insert_mirror)
    then show ?thesis using Pair by simp
  qed (use assms Pair in simp)
qed

lemma recon_Tenant_inv:
  assumes "recon_inv d"
  shows "recon_inv (snd (recon_Tenant tn d))"
proof -
  have "external_ok (filter (\<lambda>x. me_TenantID x \<noteq> tn) ms) x" if "external_ok ms x" "ext_TenantID x \<noteq> tn" for ms x
    using that by (auto simp: external_ok_def backed_def)
  then have "recon_inv (recon_purge tn d)" using assms
    by (auto simp: recon_inv_def recon_purge_def distinct_map_filter list_all_iff)
  then show ?thesis unfolding recon_Tenant_def
    by (intro Within_inv [where P = recon_inv]) (use assms in \<open>auto split: if_splits\<close>)
qed

lemma recon_step_inv:
  assumes "recon_inv d" and "recon_step d d'"
  shows "recon_inv d'"
  using assms(2,1)
proof cases
  case (drain pub limit)
  then show ?thesis using assms(1) by (simp add: recon_inv_def)
qed (auto intro: CreateSource_inv UpdateDiscrepancy_inv mirror_handle_inv recon_Tenant_inv StartRun_inv ImportStatement_inv)

lemma recon_inv_empty: "recon_inv empty_recon"
  by (simp add: recon_inv_def empty_recon_def)

interpretation recon: invariant_of empty_recon recon_step recon_inv
  by unfold_locales (auto intro: recon_inv_empty recon_step_inv)

section \<open>A sample run\<close>

definition sample_recon_env :: "nat \<Rightarrow> ReconEnv" where
  "sample_recon_env n = \<lparr>rv_newID = (\<lambda>k. word_of_nat (n + k)), rv_eventID = (\<lambda>k. Some (word_of_nat (n + 5 + k))),
     rv_now = (\<lambda>k. int (n + k)), rv_uuidString = (\<lambda>_. ''u'')\<rparr>"

definition sample_postingID :: "uuid \<Rightarrow> nat \<Rightarrow> uuid" where
  "sample_postingID t i = t * 16 + word_of_nat i"

definition sample_codec :: codec where
  "sample_codec = \<lparr>jc_uuidString = sample_uuidString, jc_uuidParse = sample_uuidParse, jc_timeText = show_int, jc_timeParse = sample_timeParse\<rparr>"

definition sample_posted_json :: json where
  "sample_posted_json = JObj [(''transaction_id'', JStr ''400''), (''ledger_id'', JStr ''100''), (''idempotency_key'', JStr ''inv-1''),
     (''postings'', JArr [JObj [(''account_id'', JStr ''200''), (''direction'', JStr ''DEBIT''), (''amount'', JObj [(''asset'', JStr ''USD''), (''amount'', JStr ''50'')])],
                          JObj [(''account_id'', JStr ''300''), (''direction'', JStr ''CREDIT''), (''amount'', JObj [(''asset'', JStr ''USD''), (''amount'', JStr ''50'')])]]),
     (''posted_at'', JStr ''7'')]"

definition posted_payload :: "json option \<Rightarrow> transactionPostedPayload option" where
  "posted_payload = unmarshal_posted sample_codec"

definition sample_message :: "json option Envelope option" where
  "sample_message = Some \<lparr>env_ID = 450, env_Type = TopicTransactionPosted, env_TenantID = 1, env_OccurredAt = 7, env_Version = 1,
     env_Data = Some sample_posted_json\<rparr>"

definition sample_mirror_db :: ReconDb where
  "sample_mirror_db = snd (mirror_handle sample_postingID posted_payload sample_message empty_recon)"

definition sample_source_db :: ReconDb where
  "sample_source_db = snd (CreateSource (sample_recon_env 10) 1 ''bank'' SourceBank sample_mirror_db)"

definition sample_statement :: string where
  "sample_statement = ''external_ref,amount,asset,occurred_at'' @ [CHR 0x0A] @ ''inv-1,0.50,USD,x'' @ [CHR 0x0A] @ ''inv-2,0.03,USD,x''"

definition sample_rows :: "StatementRow list" where
  "sample_rows =
     [\<lparr>sr_ExternalRef = ''inv-1'', sr_AmountUnits = 50, sr_Asset = ''USD'', sr_Direction = '''', sr_OccurredAt = 5,
        sr_Raw = [(''amount'', ''0.50''), (''asset'', ''USD''), (''external_ref'', ''inv-1''), (''occurred_at'', ''x'')]\<rparr>,
      \<lparr>sr_ExternalRef = ''inv-2'', sr_AmountUnits = 3, sr_Asset = ''USD'', sr_Direction = '''', sr_OccurredAt = 5,
        sr_Raw = [(''amount'', ''0.03''), (''asset'', ''USD''), (''external_ref'', ''inv-2''), (''occurred_at'', ''x'')]\<rparr>]"

lemma sample_statement_rows: "ParseStatementCSV (\<lambda>_. Some 5) sample_statement recon_DefaultAssetExponent = Inr sample_rows"
  by code_simp

definition sample_import_db :: ReconDb where
  "sample_import_db = snd (ImportStatement (\<lambda>_. Some 5) (sample_recon_env 20) 1 10 ''s'' sample_statement sample_source_db)"

definition sample_stored_db :: ReconDb where
  "sample_stored_db = snd (Within 1 (store_import (sample_recon_env 20) 1
     \<lparr>imp_ID = 20, imp_TenantID = 1, imp_SourceID = 10, imp_Filename = ''s'', imp_Status = '''', imp_RowCount = 0,
      imp_Error = None, imp_CreatedAt = 20\<rparr> (Inr sample_rows)) sample_source_db)"

lemma sample_import_stored: "sample_import_db = sample_stored_db"
  by (simp add: sample_import_db_def sample_stored_db_def ImportStatement_def sample_statement_rows sample_recon_env_def)

definition sample_run_db :: ReconDb where
  "sample_run_db = snd (StartRun (sample_recon_env 30) 1 10 sample_stored_db)"

lemma sample_recon_reachable:
  "recon_step\<^sup>*\<^sup>* empty_recon sample_mirror_db" "recon_step\<^sup>*\<^sup>* empty_recon sample_import_db" "recon_step\<^sup>*\<^sup>* empty_recon sample_run_db"
proof -
  note step = rtranclp.rtrancl_into_rtrancl [where r = recon_step]
  show a: "recon_step\<^sup>*\<^sup>* empty_recon sample_mirror_db"
    unfolding sample_mirror_db_def by (rule step [OF rtranclp.rtrancl_refl recon_step.mirror])
  have b: "recon_step\<^sup>*\<^sup>* empty_recon sample_source_db"
    unfolding sample_source_db_def by (rule step [OF a recon_step.create_source])
  show c: "recon_step\<^sup>*\<^sup>* empty_recon sample_import_db"
    unfolding sample_import_db_def by (rule step [OF b recon_step.import_statement])
  show "recon_step\<^sup>*\<^sup>* empty_recon sample_run_db"
    unfolding sample_run_db_def sample_import_stored [symmetric] by (rule step [OF c recon_step.start_run])
qed

lemma sample_run_values:
  "map (\<lambda>x. (ext_MatchStatus x, ext_Amount x, ext_ExternalRef x)) (rc_externals sample_run_db)
     = [(MatchMatched, 50, ''inv-1''), (MatchUnmatched, 3, ''inv-2'')]"
  by code_simp

section \<open>Properties of runs and imports\<close>

text \<open>
  C23. No false reconciliation: in every database that any sequence of requests and broker messages
  can produce, an external transaction marked matched is backed by an entry of the ledger mirror of
  its own tenant with the same reference, amount and asset and a compatible direction.
\<close>

theorem reachable_matched_backed:
  assumes "recon_step\<^sup>*\<^sup>* empty_recon d" and "x \<in> set (rc_externals d)" and "ext_MatchStatus x = MatchMatched"
  shows "\<exists>m \<in> set (rc_mirror d). ext_MatchedEntryID x = Some (me_ID m) \<and> me_TenantID m = ext_TenantID x
    \<and> me_Reference m = ext_ExternalRef x \<and> me_Amount m = ext_Amount x \<and> me_Asset m = ext_Asset x
    \<and> (ext_Direction x = '''' \<or> ext_Direction x = me_Direction m)"
proof -
  have "external_ok (rc_mirror d) x"
    using recon.reachable [OF assms(1)] assms(2) by (simp add: recon_inv_def list_all_iff)
  then have "backed (rc_mirror d) x"
    using assms(3) by (auto simp: external_ok_def MatchMatched_def MatchUnmatched_def MatchDisputed_def)
  then show ?thesis unfolding backed_def entry_fits_def directionMatches_def by blast
qed

theorem reachable_matched_backed_witness:
  "\<exists>m \<in> set (rc_mirror sample_run_db). Some (me_ID m) = ext_MatchedEntryID (hd (rc_externals sample_run_db))
     \<and> me_Amount m = 50 \<and> me_Reference m = ''inv-1''"
proof -
  let ?x = "hd (rc_externals sample_run_db)"
  have "?x \<in> set (rc_externals sample_run_db) \<and> ext_MatchStatus ?x = MatchMatched \<and> ext_Amount ?x = 50 \<and> ext_ExternalRef ?x = ''inv-1''"
    using sample_run_values by (cases "rc_externals sample_run_db") auto
  then show ?thesis using reachable_matched_backed [OF sample_recon_reachable(3), of ?x] by metis
qed

lemma length_filter_disjoint:
  "(\<And>x. x \<in> set xs \<Longrightarrow> \<not> (P x \<and> Q x)) \<Longrightarrow>
     length (filter (\<lambda>x. P x \<or> Q x) xs) = length (filter P xs) + length (filter Q xs)"
  by (induction xs) auto

lemma length_filter_ids:
  assumes "distinct (map f xs)" and "distinct ids" and "set ids \<subseteq> f ` {x \<in> set xs. P x}"
    and "\<And>x. x \<in> set xs \<Longrightarrow> f x \<in> set ids \<Longrightarrow> P x"
  shows "length (filter (\<lambda>x. P x \<and> f x \<in> set ids) xs) = length ids"
proof -
  let ?ys = "filter (\<lambda>x. P x \<and> f x \<in> set ids) xs"
  have "set (map f ?ys) = set ids" using assms(3) by auto
  moreover have "distinct (map f ?ys)" using assms(1) by (simp add: distinct_map_filter)
  ultimately have "length (map f ?ys) = length ids" using assms(2) by (metis distinct_card)
  then show ?thesis by simp
qed

lemma StartRun_matched:
  fixes d :: ReconDb and tn sourceID :: uuid
  assumes dist: "distinct (map ext_ID (rc_externals d))"
  defines "res \<equiv> run_result tn sourceID d"
  shows "length (filter (\<lambda>x. ext_TenantID x = tn \<and> ext_SourceID x = sourceID \<and> ext_MatchStatus x = MatchMatched)
      (map (run_update tn res) (rc_externals d)))
    = length (filter (\<lambda>x. ext_TenantID x = tn \<and> ext_SourceID x = sourceID \<and> ext_MatchStatus x = MatchMatched) (rc_externals d))
      + length (mr_Matches res)"
proof -
  let ?P = "\<lambda>x. ext_TenantID x = tn \<and> ext_SourceID x = sourceID \<and> ext_MatchStatus x = MatchMatched"
  let ?U = "\<lambda>x. ext_TenantID x = tn \<and> ext_SourceID x = sourceID \<and> ext_MatchStatus x = MatchUnmatched"
  let ?ids = "map mp_ExternalID (mr_Matches res)"
  have st: "MatchMatched \<noteq> MatchUnmatched" "MatchDisputed \<noteq> MatchMatched"
    by (simp_all add: MatchMatched_def MatchUnmatched_def MatchDisputed_def)
  have step: "?P (run_update tn res x) \<longleftrightarrow> ?P x \<or> (?U x \<and> ext_ID x \<in> set ?ids)" if "x \<in> set (rc_externals d)" for x
    by (rule run_update_cases [OF dist that, of tn sourceID]) (use st in \<open>auto simp: res_def [symmetric]\<close>)
  have "length (filter ?P (map (run_update tn res) (rc_externals d)))
      = length (filter (\<lambda>x. ?P x \<or> (?U x \<and> ext_ID x \<in> set ?ids)) (rc_externals d))"
    unfolding filter_map length_map comp_def by (rule arg_cong [where f = length], rule filter_cong [OF refl step])
  also have "\<dots> = length (filter ?P (rc_externals d)) + length (filter (\<lambda>x. ?U x \<and> ext_ID x \<in> set ?ids) (rc_externals d))"
    by (rule length_filter_disjoint) (use st in auto)
  also have "length (filter (\<lambda>x. ?U x \<and> ext_ID x \<in> set ?ids) (rc_externals d)) = length ?ids"
  proof (rule length_filter_ids [OF dist])
    show "distinct ?ids" unfolding res_def run_result_def by (rule match_ids(1) [OF unmatched_distinct [OF dist]])
    have sub: "e \<in> ext_ID ` {x \<in> set (rc_externals d). ?U x}" if e: "e \<in> set ?ids" for e
    proof -
      obtain p where p: "p \<in> set (mr_Matches res)" "e = mp_ExternalID p" using e by auto
      then obtain y where "y \<in> set (ListUnmatchedExternals tn sourceID d)" "mp_ExternalID p = ext_ID y"
        using MatchNaive_pair unfolding res_def run_result_def by fastforce
      then show ?thesis using unmatched_external [of y tn sourceID d] p by auto
    qed
    then show "set ?ids \<subseteq> ext_ID ` {x \<in> set (rc_externals d). ?U x}" by blast
    show "?U x" if x: "x \<in> set (rc_externals d)" "ext_ID x \<in> set ?ids" for x
    proof -
      obtain z where "z \<in> set (rc_externals d)" "?U z" "ext_ID z = ext_ID x" using sub [OF x(2)] by auto
      then show ?thesis using dist x(1) by (metis distinct_map inj_onD)
    qed
  qed
  finally show ?thesis by simp
qed

text \<open>
  C24. A run accounts for everything: when a run of a source succeeds, its two counters add up to the
  rows of the source that were unmatched; the matched rows of the source grow by the matched
  counter and the discrepancies by the other; the mirror is only read; and every row that was
  settled before, or belongs to another source or tenant, is kept as it was.
\<close>

theorem StartRun_accounts:
  assumes reach: "recon_step\<^sup>*\<^sup>* empty_recon d" and run: "StartRun env tn sourceID d = (Inr run, d')"
  shows "run_Status run = RunCompleted
    \<and> run_MatchedCount run + run_UnmatchedCount run
      = length (filter (\<lambda>x. ext_TenantID x = tn \<and> ext_SourceID x = sourceID \<and> ext_MatchStatus x = MatchUnmatched) (rc_externals d))
    \<and> length (filter (\<lambda>x. ext_TenantID x = tn \<and> ext_SourceID x = sourceID \<and> ext_MatchStatus x = MatchMatched) (rc_externals d'))
      = length (filter (\<lambda>x. ext_TenantID x = tn \<and> ext_SourceID x = sourceID \<and> ext_MatchStatus x = MatchMatched) (rc_externals d))
        + run_MatchedCount run
    \<and> length (rc_discrepancies d') = length (rc_discrepancies d) + run_UnmatchedCount run
    \<and> rc_mirror d' = rc_mirror d
    \<and> (\<forall>x \<in> set (rc_externals d).
         \<not> (ext_TenantID x = tn \<and> ext_SourceID x = sourceID \<and> ext_MatchStatus x = MatchUnmatched) \<longrightarrow> x \<in> set (rc_externals d'))"
proof -
  have dist: "distinct (map ext_ID (rc_externals d))" using recon.reachable [OF reach] by (simp add: recon_inv_def)
  note eff = StartRun_effect [OF run dist]
  have "x \<in> set (rc_externals d')"
    if x: "x \<in> set (rc_externals d)" and other: "\<not> (ext_TenantID x = tn \<and> ext_SourceID x = sourceID \<and> ext_MatchStatus x = MatchUnmatched)" for x
  proof -
    have "run_update tn (run_result tn sourceID d) x = x"
      by (rule run_update_cases [OF dist x, of tn sourceID]) (use other in auto)
    then show ?thesis using x unfolding eff(1) by (metis image_eqI list.set_map)
  qed
  moreover have "run_MatchedCount run + run_UnmatchedCount run
      = length (filter (\<lambda>x. ext_TenantID x = tn \<and> ext_SourceID x = sourceID \<and> ext_MatchStatus x = MatchUnmatched) (rc_externals d))"
    using match_ids(3) [OF unmatched_distinct [OF dist], of tn sourceID "ListMirrorEntries tn d"] eff
    by (simp add: run_result_def length_unmatched)
  ultimately show ?thesis
    using eff StartRun_matched [OF dist, of tn sourceID] by simp
qed

theorem StartRun_accounts_witness:
  "\<exists>run. StartRun (sample_recon_env 30) 1 10 sample_import_db = (Inr run, sample_run_db)
     \<and> run_MatchedCount run = 1 \<and> run_UnmatchedCount run = 1
     \<and> length (rc_discrepancies sample_run_db) = length (rc_discrepancies sample_import_db) + run_UnmatchedCount run"
proof -
  have v: "(case fst (StartRun (sample_recon_env 30) 1 10 sample_stored_db) of Inr run \<Rightarrow> run_MatchedCount run = 1 \<and> run_UnmatchedCount run = 1 | Inl _ \<Rightarrow> False)"
    by code_simp
  then obtain run where run: "StartRun (sample_recon_env 30) 1 10 sample_import_db = (Inr run, sample_run_db)"
    and c: "run_MatchedCount run = 1" "run_UnmatchedCount run = 1"
    unfolding sample_import_stored sample_run_db_def
    by (cases "StartRun (sample_recon_env 30) 1 10 sample_stored_db") (auto split: sum.splits)
  from StartRun_accounts [OF sample_recon_reachable(2) run] show ?thesis using run c by blast
qed

text \<open>
  Imports are all or nothing: a refused import changes nothing; a statement that does not parse
  leaves exactly one failed import carrying the error and no transactions; a statement that parses
  leaves one processed import and all of its rows, in order, unmatched.
\<close>

theorem ImportStatement_all_or_nothing:
  "case ImportStatement tp env tn sourceID filename body d of
     (Inl e, d') \<Rightarrow> d' = d
   | (Inr imp, d') \<Rightarrow>
     (case ParseStatementCSV tp body recon_DefaultAssetExponent of
        Inl e \<Rightarrow> imp_Status imp = ImportFailed \<and> imp_Error imp = Some e \<and> imp_RowCount imp = 0
          \<and> d' = d\<lparr>rc_imports := rc_imports d @ [imp]\<rparr>
      | Inr rows \<Rightarrow> imp_Status imp = ImportProcessed \<and> imp_Error imp = None \<and> imp_RowCount imp = length rows
          \<and> d' = d\<lparr>rc_imports := rc_imports d @ [imp],
                  rc_externals := rc_externals d @ map (\<lambda>(k, row). external_of_row env tn (imp_ID imp) sourceID k row) (enumerate 0 rows)\<rparr>)"
proof (cases "ImportStatement tp env tn sourceID filename body d" rule: prod.exhaust)
  case (Pair r d')
  show ?thesis using Pair by (rule ImportStatement_cases) (simp_all add: Pair)
qed

section \<open>The mirror under at-least-once delivery\<close>

text \<open>The entries a message adds: none when it is skipped, terminated, or refused by the database.\<close>

definition storable :: "uuid \<Rightarrow> MirrorEntry \<Rightarrow> bool" where
  "storable tn m \<longleftrightarrow> me_TenantID m = tn \<and> length (me_Reference m) \<le> 255 \<and> length (me_Asset m) \<le> 12
     \<and> (me_Direction m = ''DEBIT'' \<or> me_Direction m = ''CREDIT'')"

definition message_entries ::
  "(uuid \<Rightarrow> nat \<Rightarrow> uuid) \<Rightarrow> ('d \<Rightarrow> transactionPostedPayload option) \<Rightarrow> 'd Envelope option \<Rightarrow> MirrorEntry list" where
  "message_entries postingID decode msg =
     (case decode_message postingID decode msg of
        Inl _ \<Rightarrow> []
      | Inr (tn, entries) \<Rightarrow> if list_all (storable tn) entries then entries else [])"

fun deliver ::
  "(uuid \<Rightarrow> nat \<Rightarrow> uuid) \<Rightarrow> ('d \<Rightarrow> transactionPostedPayload option) \<Rightarrow> 'd Envelope option list \<Rightarrow> ReconDb \<Rightarrow> ReconDb" where
  "deliver postingID decode [] d = d"
| "deliver postingID decode (m # ms) d = deliver postingID decode ms (snd (mirror_handle postingID decode m d))"

lemma insert_mirror_storable:
  "storable tn m \<Longrightarrow> insert_mirror tn m d = Inr (if me_ID m \<in> me_ID ` set (rc_mirror d) then d else d\<lparr>rc_mirror := rc_mirror d @ [m]\<rparr>)"
proof -
  have ex: "list_ex (\<lambda>x. me_ID x = me_ID m) (rc_mirror d) \<longleftrightarrow> me_ID m \<in> me_ID ` set (rc_mirror d)"
    unfolding list_ex_iff image_iff by metis
  show "storable tn m \<Longrightarrow> ?thesis" unfolding insert_mirror_def ex storable_def by auto
qed

lemma insert_mirror_refuses: "\<not> storable tn m \<Longrightarrow> \<exists>e. insert_mirror tn m d = Inl e"
  by (auto simp: insert_mirror_def storable_def)

lemma batch_mirror_refuses: "\<not> list_all (storable tn) es \<Longrightarrow> \<exists>e. batch (insert_mirror tn) es d = Inl e"
proof (induction es arbitrary: d)
  case (Cons m es)
  show ?case
  proof (cases "storable tn m")
    case True
    then show ?thesis using Cons insert_mirror_storable [of tn m d] by simp
  qed (use insert_mirror_refuses [of tn m d] in auto)
qed simp

text \<open>A batch of storable entries adds those whose identifier is new.\<close>

lemma batch_mirror:
  assumes "list_all (storable tn) es" and "distinct (map me_ID (rc_mirror d))"
    and "\<And>a b. a \<in> set (rc_mirror d) \<union> set es \<Longrightarrow> b \<in> set (rc_mirror d) \<union> set es \<Longrightarrow> me_ID a = me_ID b \<Longrightarrow> a = b"
  shows "\<exists>d'. batch (insert_mirror tn) es d = Inr d' \<and> set (rc_mirror d') = set (rc_mirror d) \<union> set es \<and> distinct (map me_ID (rc_mirror d'))"
  using assms
proof (induction es arbitrary: d)
  case (Cons m es)
  define d1 where "d1 = (if me_ID m \<in> me_ID ` set (rc_mirror d) then d else d\<lparr>rc_mirror := rc_mirror d @ [m]\<rparr>)"
  have i: "insert_mirror tn m d = Inr d1" using insert_mirror_storable [of tn m d] Cons.prems(1) by (simp add: d1_def)
  have s: "set (rc_mirror d1) = insert m (set (rc_mirror d))"
  proof (cases "me_ID m \<in> me_ID ` set (rc_mirror d)")
    case True
    then obtain x where x: "x \<in> set (rc_mirror d)" "me_ID x = me_ID m" by auto
    then have "x = m" by (intro Cons.prems(3)) simp_all
    then show ?thesis using x(1) True by (simp add: d1_def insert_absorb)
  qed (simp add: d1_def)
  have "distinct (map me_ID (rc_mirror d1))" using Cons.prems(2) by (simp add: d1_def)
  moreover have "a = b" if "a \<in> set (rc_mirror d1) \<union> set es" "b \<in> set (rc_mirror d1) \<union> set es" "me_ID a = me_ID b" for a b
    by (rule Cons.prems(3)) (use that in \<open>simp_all add: s\<close>)
  moreover have "list_all (storable tn) es" using Cons.prems(1) by simp
  ultimately obtain d' where "batch (insert_mirror tn) es d1 = Inr d'" "set (rc_mirror d') = set (rc_mirror d1) \<union> set es"
    "distinct (map me_ID (rc_mirror d'))"
    using Cons.IH [of d1] by blast
  then show ?case using i s by simp
qed auto

lemma mirror_handle_entries:
  assumes "distinct (map me_ID (rc_mirror d))"
    and "\<And>a b. a \<in> set (rc_mirror d) \<union> set (message_entries postingID decode msg) \<Longrightarrow>
      b \<in> set (rc_mirror d) \<union> set (message_entries postingID decode msg) \<Longrightarrow> me_ID a = me_ID b \<Longrightarrow> a = b"
  shows "set (rc_mirror (snd (mirror_handle postingID decode msg d))) = set (rc_mirror d) \<union> set (message_entries postingID decode msg)
    \<and> distinct (map me_ID (rc_mirror (snd (mirror_handle postingID decode msg d))))"
proof (cases "decode_message postingID decode msg")
  case (Inl x)
  then show ?thesis using assms(1) by (simp add: mirror_handle_def message_entries_def)
next
  case (Inr te)
  obtain tn entries where te: "te = (tn, entries)" by fastforce
  have tn: "tn \<noteq> uuid_Nil" using Inr unfolding te decode_message_Inr by blast
  have h: "snd (mirror_handle postingID decode msg d) = snd (InsertMirrorEntries tn entries d)"
    using Inr by (cases "InsertMirrorEntries tn entries d") (auto simp: te mirror_handle_def split: sum.split)
  show ?thesis
  proof (cases "list_all (storable tn) entries")
    case True
    then have m: "message_entries postingID decode msg = entries" using Inr by (simp add: te message_entries_def)
    obtain d' where b: "batch (insert_mirror tn) entries d = Inr d'"
      and r: "set (rc_mirror d') = set (rc_mirror d) \<union> set entries" "distinct (map me_ID (rc_mirror d'))"
      using batch_mirror [OF True assms(1)] assms(2) unfolding m by blast
    show ?thesis unfolding h m using r b tn assms(1) by (simp add: InsertMirrorEntries_def Within_def)
  next
    case False
    then have m: "message_entries postingID decode msg = []" using Inr by (auto simp: te message_entries_def)
    have "snd (InsertMirrorEntries tn entries d) = d"
      using batch_mirror_refuses [OF False, of d] by (auto simp: InsertMirrorEntries_def Within_def)
    then show ?thesis unfolding h m using assms(1) by simp
  qed
qed

lemma mirror_entries_ids:
  "mirror_entries postingID tn payload i ps = Some es \<Longrightarrow>
     map me_ID es = map (postingID (tpp_TransactionID payload)) [i..<i + length ps]
     \<and> list_all (\<lambda>e. me_TransactionID e = tpp_TransactionID payload \<and> me_TenantID e = tn) es"
proof (induction ps arbitrary: i es)
  case (Cons p ps)
  have "[i..<i + length (p # ps)] = i # [Suc i..<Suc i + length ps]" by (simp add: upt_conv_Cons del: upt_Suc)
  then show ?case using Cons by (auto split: option.splits simp del: upt_Suc)
qed simp

lemma deliver_entries:
  assumes "distinct (map me_ID (rc_mirror d))"
    and "\<And>a b. a \<in> set (rc_mirror d) \<union> (\<Union>m \<in> set ms. set (message_entries postingID decode m)) \<Longrightarrow>
      b \<in> set (rc_mirror d) \<union> (\<Union>m \<in> set ms. set (message_entries postingID decode m)) \<Longrightarrow> me_ID a = me_ID b \<Longrightarrow> a = b"
  shows "set (rc_mirror (deliver postingID decode ms d)) = set (rc_mirror d) \<union> (\<Union>m \<in> set ms. set (message_entries postingID decode m))
    \<and> distinct (map me_ID (rc_mirror (deliver postingID decode ms d)))"
  using assms
proof (induction ms arbitrary: d)
  case (Cons m ms)
  let ?d = "snd (mirror_handle postingID decode m d)"
  have one: "set (rc_mirror ?d) = set (rc_mirror d) \<union> set (message_entries postingID decode m)" "distinct (map me_ID (rc_mirror ?d))"
    using mirror_handle_entries [OF Cons.prems(1), of postingID decode m] Cons.prems(2) by auto
  have "set (rc_mirror (deliver postingID decode ms ?d)) = set (rc_mirror ?d) \<union> (\<Union>m \<in> set ms. set (message_entries postingID decode m))
    \<and> distinct (map me_ID (rc_mirror (deliver postingID decode ms ?d)))"
    by (rule Cons.IH [OF one(2)]) (use Cons.prems(2) in \<open>auto simp: one(1)\<close>)
  then show ?case unfolding one(1) by (simp add: Un_assoc)
qed simp

text \<open>The identity of a delivered event: two envelopes of one transaction carry the same tenant and payload.\<close>

definition consistent_events :: "('d \<Rightarrow> transactionPostedPayload option) \<Rightarrow> 'd Envelope option set \<Rightarrow> bool" where
  "consistent_events decode ms \<longleftrightarrow>
     (\<forall>e e' p p'. Some e \<in> ms \<longrightarrow> Some e' \<in> ms \<longrightarrow> decode (env_Data e) = Some p \<longrightarrow> decode (env_Data e') = Some p' \<longrightarrow>
        tpp_TransactionID p = tpp_TransactionID p' \<longrightarrow> p = p' \<and> env_TenantID e = env_TenantID e')"

text \<open>The pairs of transaction and posting index whose identifiers the consumer derives; no two may collide.\<close>

definition posting_keys :: "('d \<Rightarrow> transactionPostedPayload option) \<Rightarrow> 'd Envelope option list \<Rightarrow> (uuid \<times> nat) list" where
  "posting_keys decode ms =
     concat (map (\<lambda>m. case m of None \<Rightarrow> []
       | Some e \<Rightarrow> (case decode (env_Data e) of None \<Rightarrow> []
           | Some p \<Rightarrow> map (Pair (tpp_TransactionID p)) [0..<length (tpp_Postings p)])) ms)"

definition collision_free ::
  "(uuid \<Rightarrow> nat \<Rightarrow> uuid) \<Rightarrow> ('d \<Rightarrow> transactionPostedPayload option) \<Rightarrow> 'd Envelope option list \<Rightarrow> bool" where
  "collision_free postingID decode ms \<longleftrightarrow> inj_on (\<lambda>(t, i). postingID t i) (set (posting_keys decode ms))"

lemma posting_keys_mem:
  "Some e \<in> set ms \<Longrightarrow> decode (env_Data e) = Some p \<Longrightarrow> k < length (tpp_Postings p) \<Longrightarrow>
     (tpp_TransactionID p, k) \<in> set (posting_keys decode ms)"
  by (force simp: posting_keys_def)

lemma message_entries_inject:
  assumes inj: "collision_free postingID decode ms"
    and c: "consistent_events decode (set ms)" and m: "m \<in> set ms" "m' \<in> set ms"
    and a: "a \<in> set (message_entries postingID decode m)" and b: "b \<in> set (message_entries postingID decode m')"
    and same: "me_ID a = me_ID b"
  shows "a = b"
proof -
  have parts: "\<exists>e p es k. m = Some e \<and> decode (env_Data e) = Some p
      \<and> mirror_entries postingID (env_TenantID e) p 0 (tpp_Postings p) = Some es \<and> k < length es \<and> es ! k = x
      \<and> me_ID x = postingID (tpp_TransactionID p) k \<and> k < length (tpp_Postings p)"
    if "x \<in> set (message_entries postingID decode m)" for x and m :: "'a Envelope option"
  proof -
    from that obtain tn es where te: "decode_message postingID decode m = Inr (tn, es)" "x \<in> set es"
      by (cases "decode_message postingID decode m") (auto simp: message_entries_def split: prod.splits if_splits)
    then obtain e p where e: "m = Some e" "decode (env_Data e) = Some p"
      "mirror_entries postingID (env_TenantID e) p 0 (tpp_Postings p) = Some es" "x \<in> set es"
      unfolding decode_message_Inr by blast
    then obtain k where k: "k < length es" "es ! k = x" by (auto simp: in_set_conv_nth)
    from mirror_entries_ids [OF e(3)] have ids: "map me_ID es = map (postingID (tpp_TransactionID p)) [0..<length (tpp_Postings p)]" by simp
    then have len: "length es = length (tpp_Postings p)" by (metis length_map length_upt minus_nat.diff_0)
    then have "me_ID x = postingID (tpp_TransactionID p) k"
      using arg_cong [OF ids, of "\<lambda>l. l ! k"] k by simp
    then show ?thesis using e k len by metis
  qed
  obtain e p es k where 1: "m = Some e" "decode (env_Data e) = Some p"
    "mirror_entries postingID (env_TenantID e) p 0 (tpp_Postings p) = Some es" "es ! k = a" "me_ID a = postingID (tpp_TransactionID p) k"
    "k < length (tpp_Postings p)"
    using parts [OF a] by blast
  obtain e' p' es' k' where 2: "m' = Some e'" "decode (env_Data e') = Some p'"
    "mirror_entries postingID (env_TenantID e') p' 0 (tpp_Postings p') = Some es'" "es' ! k' = b" "me_ID b = postingID (tpp_TransactionID p') k'"
    "k' < length (tpp_Postings p')"
    using parts [OF b] by blast
  have keys: "(tpp_TransactionID p, k) \<in> set (posting_keys decode ms)" "(tpp_TransactionID p', k') \<in> set (posting_keys decode ms)"
    using posting_keys_mem 1(1,2,6) 2(1,2,6) m by metis+
  have "(tpp_TransactionID p, k) = (tpp_TransactionID p', k')"
    by (rule inj_onD [OF inj [unfolded collision_free_def] _ keys]) (use same 1(5) 2(5) in simp)
  then have k: "tpp_TransactionID p = tpp_TransactionID p'" "k = k'" by simp_all
  then have "p = p' \<and> env_TenantID e = env_TenantID e'"
    using c m 1(1,2) 2(1,2) unfolding consistent_events_def by metis
  then have "es = es'" using 1(3) 2(3) by simp
  then show "a = b" using 1(4) 2(4) k(2) by simp
qed

text \<open>
  C25. The mirror converges: when posting identifiers do not collide and the envelopes of one
  transaction agree, delivering events to an empty mirror in any order and any number of times
  leaves exactly the entries of the events delivered, each once.
\<close>

theorem mirror_converges:
  assumes "collision_free postingID decode ms" and "consistent_events decode (set ms)"
  shows "set (rc_mirror (deliver postingID decode ms empty_recon)) = (\<Union>m \<in> set ms. set (message_entries postingID decode m))
    \<and> distinct (map me_ID (rc_mirror (deliver postingID decode ms empty_recon)))"
proof -
  have "a = b" if a: "a \<in> set (rc_mirror empty_recon) \<union> (\<Union>m \<in> set ms. set (message_entries postingID decode m))"
    and b: "b \<in> set (rc_mirror empty_recon) \<union> (\<Union>m \<in> set ms. set (message_entries postingID decode m))"
    and same: "me_ID a = me_ID b" for a b
  proof -
    from a b obtain m m' where m: "m \<in> set ms" "m' \<in> set ms"
      "a \<in> set (message_entries postingID decode m)" "b \<in> set (message_entries postingID decode m')"
      by (auto simp: empty_recon_def)
    show ?thesis by (rule message_entries_inject [OF assms m same])
  qed
  moreover have "distinct (map me_ID (rc_mirror empty_recon))" by (simp add: empty_recon_def)
  ultimately show ?thesis
    using deliver_entries [where d = empty_recon and ms = ms and postingID = postingID and decode = decode]
    by (simp add: empty_recon_def)
qed

theorem mirror_converges_witness:
  "me_ID ` set (rc_mirror (deliver sample_postingID posted_payload [sample_message, sample_message] empty_recon)) = {6400, 6401}
     \<and> length (rc_mirror (deliver sample_postingID posted_payload [sample_message, sample_message] empty_recon)) = 2"
proof -
  let ?d = "deliver sample_postingID posted_payload [sample_message, sample_message] empty_recon"
  have keys: "posting_keys posted_payload [sample_message, sample_message] = [(400, 0), (400, 1), (400, 0), (400, 1)]"
    by code_simp
  have c: "collision_free sample_postingID posted_payload [sample_message, sample_message]"
    unfolding collision_free_def keys by (simp add: inj_on_def sample_postingID_def)
  have "consistent_events posted_payload (set [sample_message, sample_message])"
    by (auto simp: consistent_events_def sample_message_def)
  note conv = mirror_converges [OF c this]
  have e: "map me_ID (message_entries sample_postingID posted_payload sample_message) = [6400, 6401]" by code_simp
  have ids: "me_ID ` set (rc_mirror ?d) = {6400, 6401}"
    using conv arg_cong [OF e, of set] by simp
  moreover have "length (rc_mirror ?d) = card (me_ID ` set (rc_mirror ?d))"
    using conv distinct_card [of "map me_ID (rc_mirror ?d)"] by simp
  ultimately show ?thesis by simp
qed

end
