(* ===== verification/Ledger_Recon.thy ===== *)
theory Ledger_Recon
  imports Ledger_Theorems Recon_Theorems
begin

text \<open>
  Where the ledger and reconciliation meet: the event the ledger writes for a posted transaction and
  the mirror rows the consumer makes of it, the two registries of asset exponents, and the use of a
  mirror entry across runs.
\<close>

section \<open>From posting to mirror\<close>

definition mirror_of_posting :: "(uuid \<Rightarrow> nat \<Rightarrow> uuid) \<Rightarrow> uuid \<Rightarrow> Transaction \<Rightarrow> timestamp \<Rightarrow> nat \<times> Posting \<Rightarrow> MirrorEntry" where
  "mirror_of_posting postingID tn t postedAt ip =
     (case ip of (i, p) \<Rightarrow>
       \<lparr>me_ID = postingID (t_ID t) i, me_TenantID = tn, me_TransactionID = t_ID t, me_AccountID = p_AccountID p,
        me_Direction = p_Direction p, me_Amount = Units (p_Amount p), me_Asset = Asset (p_Amount p),
        me_Reference = t_IdempotencyKey t, me_PostedAt = postedAt\<rparr>)"

text \<open>The consumer's struct after decoding an event of the ledger; the metadata may come back in another order.\<close>

definition payload_posting :: "EventPosting \<Rightarrow> postingPayload" where
  "payload_posting p = \<lparr>pst_AccountID = ep_AccountID p, pst_Direction = coerce_utf8 (ep_Direction p),
     pst_Amount = \<lparr>mny_Asset = coerce_utf8 (em_Asset (ep_Amount p)), mny_Amount = coerce_utf8 (em_Amount (ep_Amount p))\<rparr>\<rparr>"

definition payload_of :: "TransactionPostedEvent \<Rightarrow> metadata \<Rightarrow> transactionPostedPayload" where
  "payload_of e m = \<lparr>tpp_TransactionID = tpe_TransactionID e, tpp_LedgerID = tpe_LedgerID e,
     tpp_IdempotencyKey = coerce_utf8 (tpe_IdempotencyKey e), tpp_Description = coerce_utf8 (tpe_Description e),
     tpp_Postings = map payload_posting (tpe_Postings e), tpp_Metadata = m, tpp_PostedAt = tpe_PostedAt e\<rparr>"

lemma member_simps [simp]:
  "money_member ''asset'' v m = map_option (\<lambda>x. m\<lparr>mny_Asset := x\<rparr>) (as_text v (mny_Asset m))"
  "money_member ''amount'' v m = map_option (\<lambda>x. m\<lparr>mny_Amount := x\<rparr>) (as_text v (mny_Amount m))"
  "posting_member c ''account_id'' v p = map_option (\<lambda>x. p\<lparr>pst_AccountID := x\<rparr>) (as_uuid c v (pst_AccountID p))"
  "posting_member c ''direction'' v p = map_option (\<lambda>x. p\<lparr>pst_Direction := x\<rparr>) (as_text v (pst_Direction p))"
  "posting_member c ''amount'' v p = map_option (\<lambda>x. p\<lparr>pst_Amount := x\<rparr>) (decode_struct money_member v (pst_Amount p))"
  "posted_member c ''transaction_id'' v t = map_option (\<lambda>x. t\<lparr>tpp_TransactionID := x\<rparr>) (as_uuid c v (tpp_TransactionID t))"
  "posted_member c ''ledger_id'' v t = map_option (\<lambda>x. t\<lparr>tpp_LedgerID := x\<rparr>) (as_uuid c v (tpp_LedgerID t))"
  "posted_member c ''idempotency_key'' v t = map_option (\<lambda>x. t\<lparr>tpp_IdempotencyKey := x\<rparr>) (as_text v (tpp_IdempotencyKey t))"
  "posted_member c ''description'' v t = map_option (\<lambda>x. t\<lparr>tpp_Description := x\<rparr>) (as_text v (tpp_Description t))"
  "posted_member c ''postings'' v t = map_option (\<lambda>x. t\<lparr>tpp_Postings := x\<rparr>) (decode_array (decode_struct (posting_member c)) zero_posting v)"
  "posted_member c ''metadata'' v t = map_option (\<lambda>x. t\<lparr>tpp_Metadata := x\<rparr>) (as_map v (tpp_Metadata t))"
  "posted_member c ''posted_at'' v t = map_option (\<lambda>x. t\<lparr>tpp_PostedAt := x\<rparr>) (as_time c v (tpp_PostedAt t))"
  by (simp_all add: money_member_def posting_member_def posted_member_def same_letter_def)

lemma member_independent:
  "independent {''asset'', ''amount''} money_member"
  "independent {''account_id'', ''direction'', ''amount''} (posting_member c)"
  "independent {''transaction_id'', ''ledger_id'', ''idempotency_key'', ''description'', ''postings'', ''metadata'', ''posted_at''} (posted_member c)"
  unfolding independent_def by (auto simp: map_option_case split: option.split)

lemma unmarshal_money:
  assumes "jsonb (marshal_money m) j"
  shows "decode_struct money_member j old = Some \<lparr>mny_Asset = coerce_utf8 (em_Asset m), mny_Amount = coerce_utf8 (em_Amount m)\<rparr>"
proof -
  obtain ns where n: "list_all2 (rel_prod (=) jsonb) [(''asset'', text_json (em_Asset m)), (''amount'', text_json (em_Amount m))] ns"
    "\<And>r. decode_struct money_member j r = decode_obj money_member ns r"
    by (rule decode_struct_jsonb [OF member_independent(1) assms [unfolded marshal_money_def]]) simp_all
  then have "ns = [(''asset'', text_json (em_Asset m)), (''amount'', text_json (em_Amount m))]"
    by (auto simp: list_all2_Cons1 rel_prod_sel)
  then show ?thesis by (cases old) (simp add: n(2) decode_members)
qed

lemma unmarshal_posting:
  assumes "codec_law c" and "jsonb (marshal_posting c p) j"
  shows "decode_struct (posting_member c) j old = Some (payload_posting p)"
proof -
  let ?ms = "\<lambda>a. [(''account_id'', uuid_json c (ep_AccountID p)), (''direction'', text_json (ep_Direction p)), (''amount'', a)]"
  obtain ns where n: "list_all2 (rel_prod (=) jsonb) (?ms (marshal_money (ep_Amount p))) ns"
    "\<And>r. decode_struct (posting_member c) j r = decode_obj (posting_member c) ns r"
    by (rule decode_struct_jsonb [OF member_independent(2) [of c] assms(2) [unfolded marshal_posting_def]]) simp_all
  then obtain a where "jsonb (marshal_money (ep_Amount p)) a" "ns = ?ms a"
    by (auto simp: list_all2_Cons1 rel_prod_sel)
  then show ?thesis using assms(1) by (cases old) (simp add: n(2) decode_members unmarshal_money payload_posting_def)
qed

lemma unmarshal_postings:
  assumes "codec_law c" and "list_all2 jsonb (map (marshal_posting c) ps) vs"
  shows "decode_array (decode_struct (posting_member c)) zero_posting (JArr vs) = Some (map payload_posting ps)"
  using assms(2) unfolding decode_array_def
  by (induction ps arbitrary: vs) (auto simp: list_all2_Cons1 unmarshal_posting [OF assms(1)])

lemma unmarshal_map:
  assumes "jsonb (map_json m) j"
  shows "\<exists>m'. as_map j old = Some m'"
proof -
  let ?f = "\<lambda>k w m. map_option (\<lambda>s. (k, s) # filter (\<lambda>p. fst p \<noteq> k) m) (as_text w '''')"
  obtain ns os where n: "list_all2 (rel_prod (=) jsonb) (map (\<lambda>(k, v). (coerce_utf8 k, text_json v)) (sort_key fst m)) ns"
    "mset ns = mset os" "j = JObj os"
    using assms unfolding map_json_def by auto
  have "\<exists>k v. x = (k, text_json v)" if "x \<in> set ns" for x
    using n(1) that by (auto simp: list_all2_conv_all_nth in_set_conv_nth rel_prod_sel prod_eq_iff split: prod.splits) metis
  then have "\<exists>k v. x = (k, text_json v)" if "x \<in> set os" for x using that n(2) by (metis set_mset_mset)
  then have "\<exists>r'. decode_obj ?f os r = Some r'" for r
  proof (induction os arbitrary: r)
    case (Cons x os)
    obtain k v where "x = (k, text_json v)" using Cons.prems [of x] by auto
    then show ?case using Cons by (simp add: decode_members)
  qed simp
  then show ?thesis by (fastforce simp: as_map_def n(3))
qed

text \<open>The ledger's event, marshalled, stored and decoded by the consumer, field by field.\<close>

lemma unmarshal_posted_event:
  assumes law: "codec_law c" and y: "year_ok (tpe_PostedAt e)" and j: "jsonb (marshal_posted c e) j"
  shows "\<exists>m. unmarshal_posted c (Some j) = Some (payload_of e m)"
proof -
  let ?head = "[(''transaction_id'', uuid_json c (tpe_TransactionID e)), (''ledger_id'', uuid_json c (tpe_LedgerID e)),
      (''idempotency_key'', text_json (tpe_IdempotencyKey e))]"
  let ?desc = "omit_empty ''description'' (tpe_Description e)" and ?meta = "omit_empty_map ''metadata'' (tpe_Metadata e)"
  let ?ms = "\<lambda>ps mt. ?head @ ?desc @ [(''postings'', ps)] @ mt @ [(''posted_at'', time_json c (tpe_PostedAt e))]"
  obtain ns where n: "list_all2 (rel_prod (=) jsonb) (?ms (JArr (map (marshal_posting c) (tpe_Postings e))) ?meta) ns"
    "\<And>r. decode_struct (posted_member c) j r = decode_obj (posted_member c) ns r"
    by (rule decode_struct_jsonb [OF member_independent(3) [of c] j [unfolded marshal_posted_def]])
      (auto simp: omit_empty_def omit_empty_map_def split: option.split list.split)
  obtain vs mt where v: "list_all2 jsonb (map (marshal_posting c) (tpe_Postings e)) vs" "list_all2 (rel_prod (=) jsonb) ?meta mt"
    "ns = ?ms (JArr vs) mt"
    using n(1) by (auto simp: list_all2_Cons1 list_all2_append1 rel_prod_sel omit_empty_def split: if_splits)
  have mt: "mt = [] \<or> (\<exists>m j. mt = [(''metadata'', j)] \<and> jsonb (map_json m) j)"
    using v(2) by (auto simp: omit_empty_map_def list_all2_Cons1 rel_prod_sel split: option.splits list.splits)
  have meta: "\<exists>m. decode_obj (posted_member c) mt r = Some (r\<lparr>tpp_Metadata := m\<rparr>)" for r
  proof (cases "mt = []")
    case True
    then show ?thesis by (intro exI [of _ "tpp_Metadata r"]) simp
  next
    case False
    then obtain m0 j0 m where "mt = [(''metadata'', j0)]" "as_map j0 (tpp_Metadata r) = Some m" using mt unmarshal_map by blast
    then show ?thesis by auto
  qed
  define r where "r = zero_posted\<lparr>tpp_TransactionID := tpe_TransactionID e, tpp_LedgerID := tpe_LedgerID e,
    tpp_IdempotencyKey := coerce_utf8 (tpe_IdempotencyKey e), tpp_Description := coerce_utf8 (tpe_Description e),
    tpp_Postings := map payload_posting (tpe_Postings e)\<rparr>"
  have pre: "decode_obj (posted_member c) (?head @ ?desc @ [(''postings'', JArr vs)]) zero_posted = Some r"
    using law by (simp add: r_def decode_members unmarshal_postings [OF law v(1)] omit_empty_def zero_posted_def)
  obtain m where m: "decode_obj (posted_member c) mt r = Some (r\<lparr>tpp_Metadata := m\<rparr>)" using meta by blast
  have "ns = (?head @ ?desc @ [(''postings'', JArr vs)]) @ mt @ [(''posted_at'', time_json c (tpe_PostedAt e))]" by (simp add: v(3))
  then have "decode_obj (posted_member c) ns zero_posted = decode_obj (posted_member c) (mt @ [(''posted_at'', time_json c (tpe_PostedAt e))]) r"
    using decode_obj_append [of "posted_member c" "?head @ ?desc @ [(''postings'', JArr vs)]"] pre by (simp only: option.case)
  then have "decode_obj (posted_member c) ns zero_posted = Some (r\<lparr>tpp_Metadata := m, tpp_PostedAt := tpe_PostedAt e\<rparr>)"
    using law y m by (simp add: decode_obj_append decode_members)
  then have "unmarshal_posted c (Some j) = Some (payload_of e m)"
    by (simp add: unmarshal_posted_def n(2) payload_of_def r_def zero_posted_def)
  then show ?thesis ..
qed

lemma mirror_entries_of_postings:
  assumes "tpp_TransactionID pl = t_ID t" "tpp_IdempotencyKey pl = t_IdempotencyKey t" "tpp_PostedAt pl = postedAt"
    and "\<forall>p \<in> set ps. is_text (p_Direction p) \<and> is_text (Asset (p_Amount p))"
  shows "mirror_entries postingID tn pl i
      (map payload_posting (map (\<lambda>p. \<lparr>ep_AccountID = p_AccountID p, ep_Direction = p_Direction p, ep_Amount = NewEventMoney (p_Amount p)\<rparr>) ps))
    = Some (map (mirror_of_posting postingID tn t postedAt) (enumerate i ps))"
  using assms(4) by (induction ps arbitrary: i) (simp_all add: NewEventMoney_def mirror_of_posting_def payload_posting_def assms(1-3))

lemma posting_ok_storable:
  "posting_ok p \<Longrightarrow> length (t_IdempotencyKey t) \<le> 255 \<Longrightarrow> storable tn (mirror_of_posting postingID tn t postedAt (i, p))"
  by (auto simp: posting_ok_def storable_def mirror_of_posting_def Direction_Valid_def DirectionDebit_def DirectionCredit_def
      ValidateAssetCode_def p_asset_def split: if_splits)

lemma batch_mirror_append:
  "list_all (storable tn) es \<Longrightarrow> distinct (map me_ID (rc_mirror d @ es)) \<Longrightarrow>
     batch (insert_mirror tn) es d = Inr (d\<lparr>rc_mirror := rc_mirror d @ es\<rparr>)"
proof (induction es arbitrary: d)
  case (Cons m es)
  let ?d = "d\<lparr>rc_mirror := rc_mirror d @ [m]\<rparr>"
  have "me_ID m \<notin> me_ID ` set (rc_mirror d)" using Cons.prems(2) by auto
  then have "insert_mirror tn m d = Inr ?d" using insert_mirror_storable [of tn m d] Cons.prems(1) by simp
  moreover have "batch (insert_mirror tn) es ?d = Inr (?d\<lparr>rc_mirror := rc_mirror ?d @ es\<rparr>)"
    by (rule Cons.IH) (use Cons.prems in simp_all)
  ultimately show ?case by simp
qed simp

lemma mirror_of_posting_ids:
  "map (me_ID \<circ> mirror_of_posting postingID tn t postedAt) (enumerate i ps) = map (postingID (t_ID t)) [i..<i + length ps]"
proof (induction ps arbitrary: i)
  case (Cons p ps)
  have "[i..<i + length (p # ps)] = i # [Suc i..<Suc i + length ps]" by (simp add: upt_conv_Cons del: upt_Suc)
  then show ?case using Cons by (simp add: mirror_of_posting_def del: upt_Suc)
qed simp

lemma mirror_of_postings_storable:
  "list_all posting_ok ps \<Longrightarrow> length (t_IdempotencyKey t) \<le> 255 \<Longrightarrow>
     list_all (storable tn) (map (mirror_of_posting postingID tn t postedAt) (enumerate i ps))"
  by (induction ps arbitrary: i) (simp_all add: posting_ok_storable)

lemma posting_ok_text: "posting_ok p \<Longrightarrow> is_text (p_Direction p) \<and> is_text (Asset (p_Amount p))"
proof -
  assume p: "posting_ok p"
  have "list_all asset_char (Asset (p_Amount p))"
    using p by (auto simp: posting_ok_def ValidateAssetCode_def p_asset_def list_ex_iff list_all_iff split: if_splits)
  then have "is_text (Asset (p_Amount p))"
    by (intro coerce_ascii) (fastforce simp: list_all_iff asset_char_def less_char_def Let_def)
  moreover have "is_text (p_Direction p)"
    using p by (intro coerce_ascii) (auto simp: posting_ok_def Direction_Valid_def DirectionDebit_def DirectionCredit_def)
  ultimately show ?thesis by simp
qed

text \<open>
  C26. The ledger's events are read back exactly. Take a balanced transaction of a tenant, whose idempotency key has at most 255 bytes,
  all of them text, and is posted in a year RFC 3339 can write. Its event is marshalled, stored in the outbox as JSONB (which may
  reorder members), read and published by the poller, and decoded by the consumer into its own structs. The consumer
  acknowledges the message, and when the identifiers it derives for the postings are new and distinct, the rows it stores are the postings of the transaction, one
  for one, with the account, direction, units and asset the ledger posted and the key as their reference.
\<close>

theorem posted_event_mirrors_transaction:
  assumes "codec_law c" and "ValidateBalanced (t_Postings t) = Inr ()" and "length (t_IdempotencyKey t) \<le> 255" and "is_text (t_IdempotencyKey t)"
    and "tn \<noteq> uuid_Nil" and "year_ok postedAt" and "year_ok wall"
    and "NewEnvelope evID wall TopicTransactionPosted tn (PostedData (NewTransactionPostedEvent t postedAt)) = Inr e"
    and "jsonb (stored_json c e) doc"
    and "distinct (map me_ID (rc_mirror d) @ map (postingID (t_ID t)) [0..<length (t_Postings t)])"
  shows "\<exists>message. published_json c doc = Some message \<and> mirror_consume c postingID (Some message) d
    = (Ack, d\<lparr>rc_mirror := rc_mirror d @ map (mirror_of_posting postingID tn t postedAt) (enumerate 0 (t_Postings t))\<rparr>)"
proof -
  let ?ev = "NewTransactionPostedEvent t postedAt"
  let ?es = "map (mirror_of_posting postingID tn t postedAt) (enumerate 0 (t_Postings t))"
  have "2 \<le> length (t_Postings t)" and ok: "list_all posting_ok (t_Postings t)" using assms(2) by (simp_all add: ValidateBalanced_iff)
  then have ne: "?es \<noteq> []" and st: "list_all (storable tn) ?es"
    using mirror_of_postings_storable [OF _ assms(3), of "t_Postings t" tn postingID postedAt 0]
    by (auto simp: enumerate_eq_zip list_all_length)
  have e: "env_Type e = TopicTransactionPosted" "env_TenantID e = tn" "env_OccurredAt e = wall" "env_Version e = EnvelopeVersion"
    "env_Data e = PostedData ?ev"
    using assms(8) by (auto simp: NewEnvelope_def split: option.splits)
  define w where "w = \<lparr>env_ID = env_ID e, env_Type = env_Type e, env_TenantID = env_TenantID e,
     env_OccurredAt = env_OccurredAt e, env_Version = env_Version e, env_Data = Some (marshal_posted c ?ev)\<rparr>"
  have ascii: "is_text TopicTransactionPosted" by (rule coerce_ascii) (simp add: TopicTransactionPosted_def)
  have w: "is_text (env_Type w)" "year_ok (env_OccurredAt w)" "fits64 (env_Version w)" "env_Data w = Some (marshal_posted c ?ev)"
    "jsonb (marshal_envelope c w) doc"
    using assms(7,9) ascii by (simp_all add: w_def e stored_json_def EnvelopeVersion_def fits64_def)
  obtain p1 where p1: "jsonb (marshal_posted c ?ev) p1" "unmarshal_envelope c (Some doc) = Some (w\<lparr>env_Data := Some p1\<rparr>)"
    by (rule unmarshal_stored [OF assms(1) w])
  let ?w1 = "w\<lparr>env_Data := Some p1\<rparr>"
  have w1: "is_text (env_Type ?w1)" "year_ok (env_OccurredAt ?w1)" "fits64 (env_Version ?w1)" "env_Data ?w1 = Some p1"
    using w by simp_all
  have rt: "unmarshal_envelope c (Some (marshal_envelope c ?w1)) = Some ?w1"
    using unmarshal_stored_same [OF assms(1) w1] by simp
  have y: "year_ok (tpe_PostedAt ?ev)" using assms(6) by (simp add: NewTransactionPostedEvent_def)
  obtain m where m: "unmarshal_posted c (Some p1) = Some (payload_of ?ev m)"
    using unmarshal_posted_event [OF assms(1) y p1(1)] by blast
  have "\<forall>p \<in> set (t_Postings t). is_text (p_Direction p) \<and> is_text (Asset (p_Amount p))"
    using ok posting_ok_text by (auto simp: list_all_iff)
  then have "mirror_entries postingID tn (payload_of ?ev m) 0 (tpp_Postings (payload_of ?ev m)) = Some ?es"
    using mirror_entries_of_postings [of "payload_of ?ev m" t postedAt "t_Postings t" postingID tn 0] assms(4)
    by (simp add: payload_of_def NewTransactionPostedEvent_def del: map_map)
  then have "decode_message postingID (unmarshal_posted c) (Some ?w1) = Inr (tn, ?es)"
    using m assms(5) by (simp add: decode_message_def w_def e)
  moreover have "batch (insert_mirror tn) ?es d = Inr (d\<lparr>rc_mirror := rc_mirror d @ ?es\<rparr>)"
    by (rule batch_mirror_append [OF st]) (use assms(10) in \<open>simp add: mirror_of_posting_ids\<close>)
  ultimately have "mirror_handle postingID (unmarshal_posted c) (Some ?w1) d = (Ack, d\<lparr>rc_mirror := rc_mirror d @ ?es\<rparr>)"
    using ne assms(5) by (simp add: mirror_handle_def InsertMirrorEntries_def Within_def)
  then have "mirror_consume c postingID (Some (marshal_envelope c ?w1)) d = (Ack, d\<lparr>rc_mirror := rc_mirror d @ ?es\<rparr>)"
    by (simp add: mirror_consume_def rt)
  then show ?thesis using p1(2) by (simp add: published_json_def)
qed

definition sample_posted_envelope :: "event_data Envelope" where
  "sample_posted_envelope = \<lparr>env_ID = 450, env_Type = TopicTransactionPosted, env_TenantID = 1, env_OccurredAt = 7,
     env_Version = EnvelopeVersion, env_Data = PostedData (NewTransactionPostedEvent sample_transaction 7)\<rparr>"

lemma sample_codec_law: "codec_law sample_codec"
  using sample_formats by (simp add: codec_law_def sample_codec_def sample_uuidString_def)

theorem posted_event_mirrors_transaction_witness:
  "\<exists>message. published_json sample_codec (stored_json sample_codec sample_posted_envelope) = Some message
   \<and> fst (mirror_consume sample_codec sample_postingID (Some message) empty_recon) = Ack
   \<and> map (\<lambda>m. (me_Direction m, sint (me_Amount m), me_Asset m))
       (rc_mirror (snd (mirror_consume sample_codec sample_postingID (Some message) empty_recon)))
     = map (\<lambda>p. (p_Direction p, units p, p_asset p)) sample_postings"
proof -
  have "\<exists>message. published_json sample_codec (stored_json sample_codec sample_posted_envelope) = Some message
    \<and> mirror_consume sample_codec sample_postingID (Some message) empty_recon
    = (Ack, empty_recon\<lparr>rc_mirror := rc_mirror empty_recon
        @ map (mirror_of_posting sample_postingID 1 sample_transaction 7) (enumerate 0 (t_Postings sample_transaction))\<rparr>)"
  proof (rule posted_event_mirrors_transaction [where evID = "Some 450" and wall = 7 and e = sample_posted_envelope, OF sample_codec_law])
    show "ValidateBalanced (t_Postings sample_transaction) = Inr ()"
      using sample_postings_balanced by (simp add: sample_transaction_def)
    show "distinct (map me_ID (rc_mirror empty_recon)
        @ map (sample_postingID (t_ID sample_transaction)) [0..<length (t_Postings sample_transaction)])"
      by code_simp
    show "is_text (t_IdempotencyKey sample_transaction)" by (rule coerce_ascii) (simp add: sample_transaction_def)
  qed (simp_all add: sample_transaction_def NewEnvelope_def sample_posted_envelope_def year_ok_def)
  then show ?thesis
    by (auto simp: empty_recon_def sample_transaction_def sample_postings_def mirror_of_posting_def units_def p_asset_def)
qed

section \<open>Two registries of exponents\<close>

text \<open>
  The two services disagree on three of the assets of the ledger: statement amounts of USDC, USDT
  and BTC are read with two fraction digits where the ledger scales them by six and eight, so one
  bitcoin of a statement is a hundred units against the ledger's hundred million, and an amount in
  satoshi does not parse at all. On every other registered asset the two agree.
\<close>

theorem registries_disagree:
  "map fst (filter (\<lambda>(a, e). recon_DefaultAssetExponent a \<noteq> AssetExponent a) assetExponents) = [''USDC'', ''USDT'', ''BTC'']
   \<and> ParseUnits ''1'' (recon_DefaultAssetExponent ''BTC'') = Inr 100
   \<and> ParseUnits ''1'' (AssetExponent ''BTC'') = Inr 100000000
   \<and> ParseUnits ''0.00000001'' (recon_DefaultAssetExponent ''BTC'') = Inl ErrTooManyDigits
   \<and> ParseUnits ''0.00000001'' (AssetExponent ''BTC'') = Inr 1"
  by code_simp

section \<open>One entry, two rows\<close>

definition sample_again_db :: ReconDb where
  "sample_again_db = snd (StartRun (sample_recon_env 50) 1 10
     (snd (Within 1 (store_import (sample_recon_env 40) 1
       \<lparr>imp_ID = 40, imp_TenantID = 1, imp_SourceID = 10, imp_Filename = ''s'', imp_Status = '''', imp_RowCount = 0,
        imp_Error = None, imp_CreatedAt = 40\<rparr> (Inr sample_rows)) sample_run_db)))"

lemma sample_again_reachable: "recon_step\<^sup>*\<^sup>* empty_recon sample_again_db"
proof -
  have "ImportStatement (\<lambda>_. Some 5) (sample_recon_env 40) 1 10 ''s'' sample_statement sample_run_db
    = Within 1 (store_import (sample_recon_env 40) 1
       \<lparr>imp_ID = 40, imp_TenantID = 1, imp_SourceID = 10, imp_Filename = ''s'', imp_Status = '''', imp_RowCount = 0,
        imp_Error = None, imp_CreatedAt = 40\<rparr> (Inr sample_rows)) sample_run_db"
    by (simp add: ImportStatement_def sample_statement_rows sample_recon_env_def)
  then show ?thesis
    unfolding sample_again_db_def
    by (metis recon_step.import_statement recon_step.start_run rtranclp.rtrancl_into_rtrancl sample_recon_reachable(3))
qed

text \<open>
  A mirror entry is consumed within one run only: a later run reads the whole mirror again, so a
  statement imported twice has both of its rows matched with the same ledger entry.
\<close>

theorem entry_backs_two_rows:
  "recon_step\<^sup>*\<^sup>* empty_recon sample_again_db
   \<and> map (\<lambda>x. (ext_ExternalRef x, ext_MatchStatus x, ext_MatchedEntryID x)) (filter (\<lambda>x. ext_MatchStatus x = MatchMatched) (rc_externals sample_again_db))
     = [(''inv-1'', MatchMatched, Some 6400), (''inv-1'', MatchMatched, Some 6400)]"
proof (rule conjI [OF sample_again_reachable])
qed code_simp

end
