(* ===== verification/Ledger_History.thy ===== *)
theory Ledger_History
  imports Ledger_Theorems
begin

text \<open>
  How the ledger database grows. Every request appends rows of its own tenant and moves the status of
  its own transactions and holds forward; nothing else changes. From this one relation follow the
  isolation of tenants, the append-only history, and the idempotency of requests under retries and
  races.
\<close>

section \<open>Tables that grow\<close>

text \<open>
  \<open>grows mine later xs ys\<close>: the table \<open>ys\<close> is \<open>xs\<close> with some of the rows of \<open>mine\<close> replaced by later
  versions, followed by new rows of \<open>mine\<close>.
\<close>

definition grows :: "('r \<Rightarrow> bool) \<Rightarrow> ('r \<Rightarrow> 'r \<Rightarrow> bool) \<Rightarrow> 'r list \<Rightarrow> 'r list \<Rightarrow> bool" where
  "grows mine later xs ys \<longleftrightarrow>
     (\<exists>zs ws. ys = zs @ ws \<and> list_all2 (\<lambda>x z. z = x \<or> mine x \<and> mine z \<and> later x z) xs zs \<and> list_all mine ws)"

lemma grows_refl [simp, intro!]: "grows mine later xs xs"
  unfolding grows_def by (rule exI [of _ xs], rule exI [of _ "[]"]) (simp add: list_all2_same)

lemma grows_append: "list_all mine ws \<Longrightarrow> grows mine later xs (xs @ ws)"
  unfolding grows_def by (rule exI [of _ xs], rule exI [of _ ws]) (simp add: list_all2_same)

lemma grows_update:
  "(\<And>x. x \<in> set xs \<Longrightarrow> P x \<Longrightarrow> mine x \<and> mine (f x) \<and> later x (f x)) \<Longrightarrow> grows mine later xs (update_rows P f xs)"
  unfolding grows_def
  by (rule exI [of _ "update_rows P f xs"], rule exI [of _ "[]"]) (auto simp: update_rows_def list_all2_map2 list.rel_refl_strong)

lemma length_update_rows [simp]: "length (update_rows P f xs) = length xs"
  by (simp add: update_rows_def)

lemma grows_trans:
  assumes "grows mine later xs ys" "grows mine later ys us" and "\<And>x y z. later x y \<Longrightarrow> later y z \<Longrightarrow> later x z"
  shows "grows mine later xs us"
proof -
  let ?R = "\<lambda>x z. z = x \<or> mine x \<and> mine z \<and> later x z"
  obtain zs ws where 1: "ys = zs @ ws" "list_all2 ?R xs zs" "list_all mine ws" using assms(1) by (auto simp: grows_def)
  obtain vs as where 2: "us = vs @ as" "list_all2 ?R ys vs" "list_all mine as" using assms(2) by (auto simp: grows_def)
  obtain v1 v2 where 3: "vs = v1 @ v2" "list_all2 ?R zs v1" "list_all2 ?R ws v2"
    using 2(2) unfolding 1(1) by (auto simp: list_all2_append1)
  have "list_all2 ?R xs v1"
    by (rule list_all2_trans [OF _ 1(2) 3(2)]) (use assms(3) in blast)
  moreover have "list_all mine v2" using 3(3) 1(3)
    by (auto simp: list_all_length list_all2_conv_all_nth)
  ultimately show ?thesis
    unfolding grows_def 2(1) 3(1) using 2(3) by (intro exI [of _ v1] exI [of _ "v2 @ as"]) simp
qed

lemma grows_others: "grows mine later xs ys \<Longrightarrow> filter (\<lambda>x. \<not> mine x) ys = filter (\<lambda>x. \<not> mine x) xs"
proof -
  have "list_all2 (\<lambda>x z. z = x \<or> mine x \<and> mine z \<and> later x z) xs zs \<Longrightarrow> filter (\<lambda>x. \<not> mine x) zs = filter (\<lambda>x. \<not> mine x) xs" for zs
    by (induction rule: list_all2_induct) auto
  moreover assume "grows mine later xs ys"
  ultimately show ?thesis by (auto simp: grows_def list_all_iff filter_empty_conv)
qed

lemma grows_mem: "grows mine later xs ys \<Longrightarrow> x \<in> set xs \<Longrightarrow> \<exists>y \<in> set ys. y = x \<or> mine x \<and> later x y"
  by (auto simp: grows_def list_all2_conv_all_nth in_set_conv_nth [of x])

lemma grows_append_only: "grows mine (=) xs ys \<Longrightarrow> \<exists>ws. ys = xs @ ws \<and> list_all mine ws"
proof -
  assume "grows mine (=) xs ys"
  then obtain zs ws where z: "ys = zs @ ws" "list_all2 (\<lambda>x z. z = x \<or> mine x \<and> mine z \<and> x = z) xs zs" "list_all mine ws"
    by (auto simp: grows_def)
  have "zs = xs" using z(2) by (induction rule: list_all2_induct) auto
  with z show ?thesis by simp
qed

section \<open>Later versions\<close>

definition immutable :: "Transaction \<Rightarrow> Transaction" where
  "immutable t = t\<lparr>t_Status := '''', t_PostedAt := None, t_ReversedByID := None\<rparr>"

text \<open>
  A request that closes a reversal moves posted transactions, one that makes a hold appends to the holds, and
  any other may move drafts; no request does two of these.
\<close>

datatype request_kind = Recording | Reversing | Reserving

definition tx_later :: "request_kind \<Rightarrow> Transaction \<Rightarrow> Transaction \<Rightarrow> bool" where
  "tx_later m t t' \<longleftrightarrow> t' = t
     \<or> m = Recording \<and> t_Status t = TransactionDraft \<and> t_PostedAt t = None \<and> (\<exists>now. t' = set_posted now t)
     \<or> m = Reversing \<and> t_Status t = TransactionPosted \<and> t_ReversedByID t = None \<and> (\<exists>i. t' = set_reversed i t)"

definition hold_terms :: "HoldRow \<Rightarrow> HoldRow" where
  "hold_terms r = r\<lparr>hr_hold := (hr_hold r)\<lparr>h_Status := '''', h_CapturedTransactionID := None\<rparr>\<rparr>"

definition hold_later :: "HoldRow \<Rightarrow> HoldRow \<Rightarrow> bool" where
  "hold_later r r' \<longleftrightarrow> hold_terms r' = hold_terms r
     \<and> (r' = r \<or> h_Status (hr_hold r) = HoldActive \<and> h_Status (hr_hold r') \<in> {HoldCaptured, HoldReleased})"

definition balance_later :: "BalanceRow \<Rightarrow> BalanceRow \<Rightarrow> bool" where
  "balance_later r r' \<longleftrightarrow> balance_key r' = balance_key r"

lemma tx_later_trans: "tx_later m a b \<Longrightarrow> tx_later m b c \<Longrightarrow> tx_later m a c"
  by (cases m) (auto simp: tx_later_def set_posted_def set_reversed_def)

lemma tx_later_immutable: "tx_later m a b \<Longrightarrow> immutable b = immutable a"
  by (auto simp: tx_later_def set_posted_def set_reversed_def immutable_def)

lemma hold_later_trans: "hold_later a b \<Longrightarrow> hold_later b c \<Longrightarrow> hold_later a c"
  by (auto simp: hold_later_def)

lemma immutable_fields:
  assumes "immutable t' = immutable t"
  shows "t_ID t' = t_ID t" "t_TenantID t' = t_TenantID t" "t_LedgerID t' = t_LedgerID t" "t_IdempotencyKey t' = t_IdempotencyKey t"
    "t_Reference t' = t_Reference t" "t_Description t' = t_Description t" "t_EffectiveAt t' = t_EffectiveAt t"
    "t_Metadata t' = t_Metadata t" "t_ReversesID t' = t_ReversesID t" "t_CreatedAt t' = t_CreatedAt t"
  using assms by (cases t; cases t'; simp add: immutable_def)+

lemma hold_terms_fields:
  assumes "hold_terms r' = hold_terms r"
  shows "h_ID (hr_hold r') = h_ID (hr_hold r)" "h_TenantID (hr_hold r') = h_TenantID (hr_hold r)"
    "h_IdempotencyKey (hr_hold r') = h_IdempotencyKey (hr_hold r)" "h_Amount (hr_hold r') = h_Amount (hr_hold r)"
    "h_AccountID (hr_hold r') = h_AccountID (hr_hold r)" "hr_hash r' = hr_hash r"
  using assms by (cases r; cases r'; cases "hr_hold r"; cases "hr_hold r'"; simp add: hold_terms_def)+

section \<open>What a request of a tenant may do\<close>

text \<open>No transaction disappears, and the postings of those that exist stay as they are.\<close>

definition postings_kept :: "Db \<Rightarrow> Db \<Rightarrow> bool" where
  "postings_kept d d' \<longleftrightarrow> set (map t_ID (db_transactions d)) \<subseteq> set (map t_ID (db_transactions d'))
     \<and> (\<forall>i \<in> set (map t_ID (db_transactions d)). tx_rows i d' = tx_rows i d)"

lemma postings_kept_same:
  "map t_ID (db_transactions d') = map t_ID (db_transactions d) \<Longrightarrow> db_postings d' = db_postings d \<Longrightarrow> postings_kept d d'"
  by (simp add: postings_kept_def tx_rows_def flip: set_map)

lemma postings_kept_trans: "postings_kept a b \<Longrightarrow> postings_kept b c \<Longrightarrow> postings_kept a c"
proof -
  let ?ids = "\<lambda>d. set (map t_ID (db_transactions d))"
  assume "postings_kept a b" "postings_kept b c"
  then have sub: "?ids a \<subseteq> ?ids b" "?ids b \<subseteq> ?ids c"
    and rows: "\<And>i. i \<in> ?ids a \<Longrightarrow> tx_rows i b = tx_rows i a" "\<And>i. i \<in> ?ids b \<Longrightarrow> tx_rows i c = tx_rows i b"
    by (unfold postings_kept_def) blast+
  have "tx_rows i c = tx_rows i a" if "i \<in> ?ids a" for i
    using rows(1) [OF that] rows(2) [OF subsetD [OF sub(1) that]] by simp
  then show ?thesis unfolding postings_kept_def using subset_trans [OF sub] by blast
qed

definition evolves :: "request_kind \<Rightarrow> uuid \<Rightarrow> Db \<Rightarrow> Db \<Rightarrow> bool" where
  "evolves m tn d d' \<longleftrightarrow>
     grows (\<lambda>l. l_TenantID l = tn) (=) (db_ledgers d) (db_ledgers d')
   \<and> grows (\<lambda>a. a_TenantID a = tn) (=) (db_accounts d) (db_accounts d')
   \<and> grows (\<lambda>t. t_TenantID t = tn) (tx_later m) (db_transactions d) (db_transactions d')
   \<and> grows (\<lambda>p. pr_tenant p = tn) (=) (db_postings d) (db_postings d')
   \<and> grows (\<lambda>b. br_tenant b = tn) balance_later (db_balances d) (db_balances d')
   \<and> grows (\<lambda>r. h_TenantID (hr_hold r) = tn) hold_later (db_holds d) (db_holds d')
   \<and> (m \<noteq> Reserving \<longrightarrow> length (db_holds d') = length (db_holds d))
   \<and> grows (\<lambda>r. ir_tenant r = tn) (=) (db_keys d) (db_keys d')
   \<and> grows (\<lambda>o'. or_tenant o' = tn) (=) (db_outbox d) (db_outbox d')
   \<and> postings_kept d d'"

definition step_ok :: "request_kind \<Rightarrow> uuid \<Rightarrow> Db \<Rightarrow> Db \<Rightarrow> bool" where
  "step_ok m tn d d' \<longleftrightarrow> (ids_ok d \<longrightarrow> ids_ok d' \<and> evolves m tn d d')"

lemma evolves_refl [simp, intro!]: "evolves m tn d d"
  by (simp add: evolves_def postings_kept_same)

lemma evolves_trans: "evolves m tn a b \<Longrightarrow> evolves m tn b c \<Longrightarrow> evolves m tn a c"
  unfolding evolves_def
  by (elim conjE, intro conjI; (erule (1) grows_trans | erule (1) postings_kept_trans | (rule impI, simp)))
    (auto simp: balance_later_def intro: tx_later_trans hold_later_trans)

lemma step_ok_refl [simp, intro!]: "step_ok m tn d d"
  by (simp add: step_ok_def)

lemma step_ok_trans: "step_ok m tn a b \<Longrightarrow> step_ok m tn b c \<Longrightarrow> step_ok m tn a c"
  by (auto simp: step_ok_def intro: evolves_trans)

section \<open>Statements\<close>

lemma step_ok_insert_ledger: "insert_ledger tn l d = Inr e \<Longrightarrow> step_ok m tn d e"
proof -
  assume i: "insert_ledger tn l d = Inr e"
  then have e: "e = d\<lparr>db_ledgers := db_ledgers d @ [l\<lparr>l_Metadata := meta (l_Metadata l)\<rparr>]\<rparr>" "l_TenantID l = tn"
    and "l_ID l \<notin> l_ID ` set (db_ledgers d)"
    by (auto simp: insert_ledger_def ledger_exists_def list_ex_iff image_iff split: if_splits)
  then show ?thesis by (simp add: step_ok_def ids_ok_def evolves_def grows_append postings_kept_same)
qed

lemma step_ok_insert_account: "insert_account tn a d = Inr e \<Longrightarrow> step_ok m tn d e"
proof -
  assume i: "insert_account tn a d = Inr e"
  then have e: "e = d\<lparr>db_accounts := db_accounts d @ [a\<lparr>a_Metadata := meta (a_Metadata a)\<rparr>]\<rparr>" "a_TenantID a = tn"
    and "a_ID a \<notin> a_ID ` set (db_accounts d)"
    by (auto simp: insert_account_def account_exists_def list_ex_iff image_iff split: if_splits)
  then show ?thesis by (simp add: step_ok_def ids_ok_def evolves_def grows_append postings_kept_same)
qed

lemma insert_postings_rows:
  "run_batch (\<lambda>p. insert_posting tn (posting_row t p)) ps d = Inr e \<Longrightarrow>
     \<exists>q. e = d\<lparr>db_postings := db_postings d @ map (posting_row t) ps, db_deferred := q\<rparr> \<and> (ps = [] \<or> t_TenantID t = tn)"
proof (induction ps arbitrary: d)
  case Nil
  then show ?case by (auto intro!: exI [of _ "db_deferred d"])
next
  case (Cons p ps)
  then obtain b where b: "insert_posting tn (posting_row t p) d = Inr b" "run_batch (\<lambda>p. insert_posting tn (posting_row t p)) ps b = Inr e"
    by (auto simp: bindE_Inr_iff)
  then have "b = d\<lparr>db_postings := db_postings d @ [posting_row t p], db_deferred := t_ID t # db_deferred d\<rparr>" "t_TenantID t = tn"
    by (auto simp: insert_posting_Inr posting_row_def)
  with Cons.IH [OF b(2)] show ?case by auto
qed

lemma step_ok_insertTransactionTx:
  assumes "insertTransactionTx tn t d = Inr e"
  shows "step_ok m tn d e"
proof -
  obtain b where b: "insert_tx tn t d = Inr b" "run_batch (\<lambda>p. insert_posting tn (posting_row t p)) (t_Postings t) b = Inr e"
    using assms by (auto simp: insertTransactionTx_def bindE_Inr_iff)
  then have tn: "t_TenantID t = tn" and fresh: "t_ID t \<notin> t_ID ` set (db_transactions d)"
    by (auto simp: insert_tx_Inr tx_exists_def list_ex_iff image_iff)
  obtain q where e: "e = d\<lparr>db_transactions := db_transactions d @ [tx_row t],
      db_postings := db_postings d @ map (posting_row t) (t_Postings t), db_deferred := q\<rparr>"
    using b(1) insert_postings_rows [OF b(2)] by (auto simp: insert_tx_Inr)
  have "postings_kept d e"
    using fresh by (auto simp: postings_kept_def tx_rows_def e posting_row_def filter_empty_conv)
  moreover have "list_all (\<lambda>p. pr_tenant p = tn) (map (posting_row t) (t_Postings t))"
    using tn by (simp add: list_all_iff posting_row_def)
  ultimately show ?thesis using fresh tn by (simp add: step_ok_def evolves_def e grows_append) (simp add: ids_ok_def e)
qed

lemma step_ok_insert_hold: "insert_hold tn r d = Inr e \<Longrightarrow> step_ok Reserving tn d e"
proof -
  assume i: "insert_hold tn r d = Inr e"
  then have e: "e = d\<lparr>db_holds := db_holds d @ [r]\<rparr>" "h_TenantID (hr_hold r) = tn"
    and "h_ID (hr_hold r) \<notin> (\<lambda>r. h_ID (hr_hold r)) ` set (db_holds d)"
    by (auto simp: insert_hold_def Let_def list_ex_iff image_iff split: if_splits)
  then show ?thesis by (simp add: step_ok_def ids_ok_def evolves_def grows_append postings_kept_same)
qed

lemma step_ok_insert_key: "insert_key tn r d = Inr e \<Longrightarrow> step_ok m tn d e"
  by (auto simp: insert_key_Inr step_ok_def ids_ok_def evolves_def grows_append postings_kept_same)

lemma step_ok_outbox: "insertOutbox evID wall tn topic rt payload d = Inr e \<Longrightarrow> step_ok m tn d e"
  by (auto simp: insertOutbox_Inr step_ok_def ids_ok_def evolves_def grows_append postings_kept_same)

lemma ids_ok_balances:
  "map balance_key (db_balances e) = map balance_key (db_balances d) \<Longrightarrow> other_tables e = other_tables d \<Longrightarrow> ids_ok e = ids_ok d"
  using other_tables_eqD [of e d] by (simp add: ids_ok_def)

text \<open>A balance statement touches the row of one account and asset, which the session must own.\<close>

lemma balance_rows_later:
  assumes "distinct (map balance_key rows)" and "find (\<lambda>r. br_account r = acc \<and> br_asset r = asset) rows = Some r"
    and "br_tenant r = tn" and "keeps_key f"
  shows "grows (\<lambda>b. br_tenant b = tn) balance_later rows (update_rows (\<lambda>x. br_account x = acc \<and> br_asset x = asset) f rows)"
proof (rule grows_update)
  fix x assume x: "x \<in> set rows" "br_account x = acc \<and> br_asset x = asset"
  have "r \<in> set rows" "br_account r = acc \<and> br_asset r = asset" using assms(2) by (auto dest!: find_Some_filter)
  then have "x = r" using x assms(1) by (auto simp: balance_key_def distinct_map inj_on_def)
  then show "br_tenant x = tn \<and> br_tenant (f x) = tn \<and> balance_later x (f x)"
    using assms(3,4) by (simp add: keeps_key_def balance_later_def balance_key_def)
qed

lemma step_ok_upsert:
  assumes i: "upsert_balance tn acc rt asset f d = Inr e" and f: "keeps_key f"
  shows "step_ok m tn d e"
proof (cases "find_balance acc asset d")
  case None
  then have e: "e = d\<lparr>db_balances := db_balances d @ [f (zero_balance acc rt asset)]\<rparr>" "rt = tn"
    using i by (auto simp: upsert_balance_def split: if_splits)
  have "x \<in> set (db_balances d) \<Longrightarrow> balance_key x \<noteq> (acc, asset)" for x
    using None by (auto simp: find_balance_def find_None_iff balance_key_def)
  then have "balance_key (f (zero_balance acc rt asset)) \<notin> balance_key ` set (db_balances d)"
    using f by (auto simp: balance_key_def keeps_key_def zero_balance_def)
  moreover have "br_tenant (f (zero_balance acc rt asset)) = tn"
    using f e(2) by (simp add: keeps_key_def zero_balance_def)
  ultimately show ?thesis by (simp add: e(1) step_ok_def ids_ok_def evolves_def grows_append postings_kept_same)
next
  case (Some r)
  then have e: "e = d\<lparr>db_balances := update_rows (\<lambda>x. br_account x = acc \<and> br_asset x = asset) f (db_balances d)\<rparr>" "br_tenant r = tn"
    using i by (auto simp: upsert_balance_def split: if_splits)
  have "map balance_key (db_balances e) = map balance_key (db_balances d)"
    unfolding e(1) using f by (simp add: keeps_key_def balance_key_def)
  moreover have "other_tables e = other_tables d" by (rule upsert_balance_frame [OF i])
  ultimately have ids: "ids_ok e = ids_ok d" by (rule ids_ok_balances)
  have "ids_ok d \<Longrightarrow> grows (\<lambda>b. br_tenant b = tn) balance_later (db_balances d) (db_balances e)"
    using balance_rows_later [OF _ Some [unfolded find_balance_def] e(2) f] by (simp add: e(1) ids_ok_def)
  then have "ids_ok d \<Longrightarrow> evolves m tn d e" by (simp add: evolves_def e(1) postings_kept_same)
  with ids show ?thesis by (simp add: step_ok_def)
qed

lemma step_ok_update_balance:
  assumes i: "update_balance tn acc asset f d = Inr (n, e)" and f: "keeps_key f"
  shows "step_ok m tn d e"
proof (cases "n = 1")
  case True
  then obtain r where r: "find_balance acc asset d = Some r" "br_tenant r = tn"
    and e: "e = d\<lparr>db_balances := update_rows (\<lambda>x. br_account x = acc \<and> br_asset x = asset) f (db_balances d)\<rparr>"
    using i by (auto simp: update_balance_def split: if_splits option.splits)
  have "map balance_key (db_balances e) = map balance_key (db_balances d)"
    unfolding e using f by (simp add: keeps_key_def balance_key_def)
  moreover have "other_tables e = other_tables d" by (rule update_balance_frame [OF i])
  ultimately have ids: "ids_ok e = ids_ok d" by (rule ids_ok_balances)
  have "ids_ok d \<Longrightarrow> grows (\<lambda>b. br_tenant b = tn) balance_later (db_balances d) (db_balances e)"
    using balance_rows_later [OF _ r(1) [unfolded find_balance_def] r(2) f] by (simp add: e ids_ok_def)
  then have "ids_ok d \<Longrightarrow> evolves m tn d e" by (simp add: evolves_def e postings_kept_same)
  with ids show ?thesis by (simp add: step_ok_def)
next
  case False
  then have "e = d" using i by (auto simp: update_balance_def split: if_splits option.splits)
  then show ?thesis by simp
qed

lemma step_ok_batch:
  "(\<And>x a b. x \<in> set xs \<Longrightarrow> stmt x a = Inr b \<Longrightarrow> step_ok m tn a b) \<Longrightarrow> run_batch stmt xs d = Inr e \<Longrightarrow> step_ok m tn d e"
proof (induction xs arbitrary: d)
  case (Cons x xs)
  then obtain b where "stmt x d = Inr b" "run_batch stmt xs b = Inr e" by (auto simp: bindE_Inr_iff)
  with Cons show ?case by (meson list.set_intros step_ok_trans)
qed simp

lemma step_ok_balances:
  "applyBalances tn rt ps upsertPostedBalance d = Inr e \<Longrightarrow> step_ok m tn d e"
  "applyBalances tn rt ps upsertPendingBalance d = Inr e \<Longrightarrow> step_ok m tn d e"
  "promoteBalances tn ps d = Inr e \<Longrightarrow> step_ok m tn d e"
  unfolding applyBalances_def promoteBalances_def
  by (erule step_ok_batch [rotated], force simp: upsertPostedBalance_def upsertPendingBalance_def movePendingToPosted_def
      bindE_Inr_iff intro: step_ok_upsert step_ok_update_balance split: prod.splits)+

lemma step_ok_held: "upsertHeld tn h d = Inr e \<Longrightarrow> step_ok m tn d e" "releaseHeld tn h d = Inr e \<Longrightarrow> step_ok m tn d e"
  unfolding upsertHeld_def releaseHeld_def bindE_Inr_iff
  by (auto intro: step_ok_upsert step_ok_update_balance split: if_splits)

text \<open>Updates of a transaction or a hold move it forward.\<close>

lemma step_ok_update_tx:
  assumes i: "update_tx tn i f d = Inr e" and f: "f = set_posted now \<and> m = Recording \<or> f = set_reversed r \<and> m = Reversing"
  shows "step_ok m tn d e"
proof (cases "find_tx tn i d")
  case (Some t)
  then have e: "e = d\<lparr>db_transactions := update_rows (\<lambda>x. t_ID x = i) f (db_transactions d), db_deferred := i # db_deferred d\<rparr>"
    and g: "transactions_guard t (f t) = Inr ()"
    using i by (auto simp: update_tx_def bindE_Inr_iff split: if_splits)
  have t: "t \<in> set (db_transactions d)" "t_ID t = i" "t_TenantID t = tn"
    using Some by (auto simp: find_tx_def dest!: find_Some_filter)
  have keep: "t_ID (f x) = t_ID x" "immutable (f x) = immutable x" for x
    using f by (auto simp: set_posted_def set_reversed_def immutable_def)
  have later: "tx_later m t (f t)"
    using f
  proof (elim disjE conjE)
    assume "f = set_posted now" "m = Recording"
    then show ?thesis using transactions_guard_Inr [OF g] by (simp add: tx_later_def set_posted_def) blast
  next
    assume "f = set_reversed r" "m = Reversing"
    then show ?thesis using transactions_guard_Inr [OF g] by (simp add: tx_later_def set_reversed_def) blast
  qed
  have ids: "ids_ok e = ids_ok d"
    by (simp add: ids_ok_def e keep)
  have "grows (\<lambda>t. t_TenantID t = tn) (tx_later m) (db_transactions d) (db_transactions e)" if "ids_ok d"
  proof -
    have "t_TenantID x = tn \<and> t_TenantID (f x) = tn \<and> tx_later m x (f x)" if x: "x \<in> set (db_transactions d)" "t_ID x = i" for x
    proof -
      have "x = t" using x t \<open>ids_ok d\<close> by (auto simp: ids_ok_def distinct_map inj_on_def)
      then show ?thesis using later t(3) immutable_fields(2) [OF keep(2)] by simp
    qed
    then have "grows (\<lambda>t. t_TenantID t = tn) (tx_later m) (db_transactions d) (update_rows (\<lambda>x. t_ID x = i) f (db_transactions d))"
      by (rule grows_update)
    then show ?thesis by (simp add: e)
  qed
  then have "ids_ok d \<Longrightarrow> evolves m tn d e" by (simp add: evolves_def) (simp add: e keep postings_kept_same)
  with ids show ?thesis by (simp add: step_ok_def)
qed (use i in \<open>simp add: update_tx_def\<close>)

lemma step_ok_update_hold:
  assumes i: "update_hold tn i f d = Inr e" and f: "f = set_captured x \<or> f = set_released"
    and active: "find_hold tn i d = Some r" "h_Status (hr_hold r) = HoldActive"
  shows "step_ok m tn d e"
proof -
  let ?g = "\<lambda>x. x\<lparr>hr_hold := f (hr_hold x)\<rparr>"
  have e: "e = d\<lparr>db_holds := update_rows (\<lambda>x. h_ID (hr_hold x) = i) ?g (db_holds d)\<rparr>"
    using i active by (auto simp: update_hold_def split: if_splits)
  have r: "r \<in> set (db_holds d)" "h_ID (hr_hold r) = i" "h_TenantID (hr_hold r) = tn"
    using active(1) by (auto simp: find_hold_def dest!: find_Some_filter)
  have keep: "h_ID (f x) = h_ID x" "h_TenantID (f x) = h_TenantID x" "hold_terms (?g y) = hold_terms y" for x y
    using f by (auto simp: set_captured_def set_released_def hold_terms_def)
  have later: "hold_later r (?g r)"
    using f keep(3) [of r] active(2) by (auto simp: hold_later_def set_captured_def set_released_def)
  have ids: "ids_ok e = ids_ok d" by (simp add: ids_ok_def e keep)
  have "grows (\<lambda>r. h_TenantID (hr_hold r) = tn) hold_later (db_holds d) (db_holds e)" if "ids_ok d"
  proof -
    have "h_TenantID (hr_hold x) = tn \<and> h_TenantID (hr_hold (?g x)) = tn \<and> hold_later x (?g x)"
      if x: "x \<in> set (db_holds d)" "h_ID (hr_hold x) = i" for x
    proof -
      have "x = r" using x r \<open>ids_ok d\<close> by (auto simp: ids_ok_def distinct_map inj_on_def)
      then show ?thesis using later r(3) keep(2) by simp
    qed
    then have "grows (\<lambda>r. h_TenantID (hr_hold r) = tn) hold_later (db_holds d) (update_rows (\<lambda>x. h_ID (hr_hold x) = i) ?g (db_holds d))"
      by (rule grows_update)
    then show ?thesis by (simp add: e)
  qed
  then have "ids_ok d \<Longrightarrow> evolves m tn d e" by (simp add: evolves_def) (simp add: e keep postings_kept_same)
  with ids show ?thesis by (simp add: step_ok_def)
qed

lemmas statements_step_ok =
  step_ok_insert_ledger step_ok_insert_account step_ok_insert_hold step_ok_insert_key step_ok_outbox
  step_ok_balances step_ok_insertTransactionTx step_ok_held step_ok_update_tx

section \<open>Requests\<close>

lemma step_ok_commit:
  assumes inv: "ledger_inv d" and body: "\<And>x e. fn d = Inr (x, e) \<Longrightarrow> step_ok m tn d e"
  shows "evolves m tn d (snd (WithTenantTx tn' fn d))"
proof -
  obtain r e where w: "WithTenantTx tn' fn d = (r, e)" by fastforce
  have "ids_ok d" "db_deferred d = []" using inv by (simp_all add: ledger_inv_def struct_ok_def)
  from w this(2) show ?thesis
  proof (cases rule: WithTenantTx_cases)
    case (ok x e')
    then have "evolves m tn d e'" using body \<open>ids_ok d\<close> by (auto simp: step_ok_def)
    then show ?thesis by (simp add: w ok(5) evolves_def postings_kept_def tx_rows_def)
  qed (simp add: w)
qed

lemma create_tx_body_step: "create_tx_body H uuidString evID wall dl t d = Inr (x, e) \<Longrightarrow> step_ok m (t_TenantID t) d e"
proof (cases "lookupIdempotentTx (t_TenantID t) (t_IdempotencyKey t) dl")
  assume b: "create_tx_body H uuidString evID wall dl t d = Inr (x, e)"
  case None
  with b show ?thesis
  proof (cases rule: create_tx_body_steps)
    case (1 d1 d2 d3)
    have "step_ok m (t_TenantID t) d1 d3" using 1(5)
      by (elim disjE conjE) (auto intro: step_ok_trans [OF step_ok_balances(1) step_ok_outbox] step_ok_balances(2))
    note step_ok_trans [OF step_ok_insertTransactionTx [OF 1(4)] this]
    then show ?thesis by (rule step_ok_trans [OF _ step_ok_insert_key [OF 1(6) [unfolded storeIdempotentResponse_def]]])
  qed
qed (auto simp: create_tx_body_def Let_def bindE_Inr_iff)

lemma reverse_tx_body_step:
  assumes b: "reverse_tx_body H uuidString newV7 evID wall dl tn i key reason now d = Inr (x, e)"
  shows "step_ok Reversing tn d e"
proof (cases "lookupIdempotentTx tn (if key = '''' then ReversalReferencePrefix @ uuidString i else key) dl")
  case None
  from b this show ?thesis
  proof (cases rule: reverse_tx_body_steps)
    case (1 t0 revID rv0 rv d1 d2 d3 d4 ev)
    note step_ok_trans [OF step_ok_insertTransactionTx [OF 1(5)] step_ok_balances(1) [OF 1(6)]]
    note step_ok_trans [OF this step_ok_update_tx [OF 1(7) disjI2 [OF conjI [OF refl refl]]]]
    note step_ok_trans [OF this step_ok_insert_key [OF 1(8) [unfolded storeIdempotentResponse_def]]]
    then show ?thesis by (rule step_ok_trans [OF _ step_ok_outbox [OF 1(9)]])
  qed
qed (use b in \<open>auto simp: reverse_tx_body_def Let_def bindE_Inr_iff\<close>)

lemma create_hold_body_step:
  assumes b: "create_hold_body H uuidString evID wall dl h d = Inr (x, e)"
  shows "step_ok Reserving (h_TenantID h) d e"
proof (cases "lookupHoldTx (h_TenantID h) (h_IdempotencyKey h) dl")
  case None
  from b this show ?thesis
  proof (cases rule: create_hold_body_steps)
    case (1 a h' d1 d2 ev)
    note step_ok_trans [OF step_ok_insert_hold [OF 1(5)] step_ok_held(1) [OF 1(6)]]
    then show ?thesis by (rule step_ok_trans [OF _ step_ok_outbox [OF 1(7)]])
  qed
qed (use b in \<open>auto simp: create_hold_body_def Let_def bindE_Inr_iff\<close>)

lemma close_hold_step:
  assumes "find_hold tn i d = Some r" "h_Status (hr_hold r) = HoldActive" "f = set_captured x \<or> f = set_released"
    and u: "update_hold tn i f d = Inr d1" and h: "releaseHeld tn h d1 = Inr d2"
    and o: "insertOutbox evID wall tn topic rt ev d2 = Inr e"
  shows "step_ok m tn d e"
proof -
  note step_ok_trans [OF step_ok_update_hold [OF u assms(3,1,2)] step_ok_held(2) [OF h]]
  then show ?thesis by (rule step_ok_trans [OF _ step_ok_outbox [OF o]])
qed

text \<open>A request of a tenant other than the purge, and the purge of a tenant.\<close>

inductive request :: "uuid \<Rightarrow> Db \<Rightarrow> Db \<Rightarrow> bool" where
  "request tn d (snd (CreateLedger env tn lreq d))"
| "request tn d (snd (CreateAccount env tn areq d))"
| "request tn d (snd (CreateTransaction env dl dr tn treq d))"
| "request tn d (snd (PostTransaction env tn i d))"
| "request tn d (snd (ReverseTransaction env dl dr tn i key reason d))"
| "request tn d (snd (CreateHold env dl dr tn hreq d))"
| "request tn d (snd (CaptureHold env tn i amount txid d))"
| "request tn d (snd (ReleaseHold env tn i d))"

lemma ledger_step_cases: "ledger_step d d' \<Longrightarrow> \<exists>tn. request tn d d' \<or> d' = snd (PurgeTenant tn d)"
  by (cases rule: ledger_step.cases) (auto intro: request.intros)

lemma request_evolves:
  assumes inv: "ledger_inv d" and r: "request tn d d'"
  shows "evolves Recording tn d d' \<or> evolves Reversing tn d d'
    \<or> evolves Reserving tn d d' \<and> (\<exists>env dl dr req. d' = snd (CreateHold env dl dr tn req d))"
  using r
proof cases
  case (1 env lreq)
  have "evolves Recording tn d d'"
  proof (cases "cli_Name lreq = '''' \<or> length (cli_Name lreq) > 255 \<or> isl (newID env 0)")
    case False
    then obtain x where x: "newID env 0 = Inr x" by (cases "newID env 0") auto
    have "evolves Recording tn d (snd (store_CreateLedger l d))" if "l_TenantID l = tn" for l
      unfolding store_CreateLedger_def map_res_snd that
      by (rule step_ok_commit [OF inv]) (auto simp: bindE_Inr_iff intro: statements_step_ok)
    from this [of "\<lparr>l_ID = x, l_TenantID = tn, l_Name = cli_Name lreq, l_Description = cli_Description lreq,
        l_Environment = cli_Environment lreq, l_Metadata = cli_Metadata lreq, l_CreatedAt = ev_now env\<rparr>"]
    show ?thesis unfolding 1 using False x by (auto simp: CreateLedger_def Let_def split: prod.splits sum.splits)
  qed (auto simp: 1 CreateLedger_def isl_def)
  then show ?thesis ..
next
  case (2 env areq)
  have "evolves Recording tn d (snd (store_CreateAccount a d))" if "a_TenantID a = tn" for a
    unfolding store_CreateAccount_def map_res_snd that
    by (rule step_ok_commit [OF inv]) (auto simp: bindE_Inr_iff intro: statements_step_ok split: option.splits)
  then have "evolves Recording tn d d'" unfolding 2 CreateAccount_def Let_def
    by (auto split: prod.splits sum.splits if_splits) (metis Account.select_convs(2) snd_conv)+
  then show ?thesis ..
next
  case (3 env dl dr treq)
  have "evolves Recording tn d d'"
  proof (cases "build_transaction env tn treq")
    case (Inr t)
    then show ?thesis unfolding 3 CreateTransaction_def using build_transaction_Inr [OF Inr]
      by (auto simp: store_CreateTransaction_def snd_retry intro: step_ok_commit [OF inv] dest: create_tx_body_step)
  qed (simp add: 3 CreateTransaction_def)
  then show ?thesis ..
next
  case (4 env i)
  have "evolves Recording tn d d'" unfolding 4 PostTransaction_def store_PostTransaction_def map_res_snd
  proof (rule step_ok_commit [OF inv])
    fix x e
    assume "bindE (loadTransactionTx tn i d) (\<lambda>t. if t_Status t = TransactionPosted then Inr (t, d)
         else if t_Status t = TransactionReversed then Inl ErrInvalidState
         else bindE (update_tx tn i (set_posted (ev_now env)) d) (\<lambda>d1.
           bindE (promoteBalances tn (t_Postings t) d1) (\<lambda>d2.
           let t' = t\<lparr>t_Status := TransactionPosted, t_PostedAt := Some (ev_now env)\<rparr> in
           bindE (insertOutbox (ev_eventID env) (ev_wall env) tn TopicTransactionPosted (t_TenantID t')
                    (PostedData (NewTransactionPostedEvent t' (ev_now env))) d2) (\<lambda>d3. Inr (t', d3))))) = Inr (x, e)"
    then have "e = d \<or> (\<exists>d1 d2 ps topic rt ev. update_tx tn i (set_posted (ev_now env)) d = Inr d1 \<and> promoteBalances tn ps d1 = Inr d2
        \<and> insertOutbox (ev_eventID env) (ev_wall env) tn topic rt ev d2 = Inr e)"
      by (auto simp: bindE_Inr_iff Let_def split: if_splits) blast
    then show "step_ok Recording tn d e"
    proof (elim disjE exE conjE)
      fix d1 d2 ps topic rt ev
      assume "update_tx tn i (set_posted (ev_now env)) d = Inr d1" and p: "promoteBalances tn ps d1 = Inr d2"
        and o: "insertOutbox (ev_eventID env) (ev_wall env) tn topic rt ev d2 = Inr e"
      note step_ok_update_tx [OF this(1) disjI1 [OF conjI [OF refl refl]]]
      note step_ok_trans [OF this step_ok_balances(3) [OF p]]
      then show ?thesis by (rule step_ok_trans [OF _ step_ok_outbox [OF o]])
    qed simp
  qed
  then show ?thesis ..
next
  case (5 env dl dr i key reason)
  have "evolves Reversing tn d d'" unfolding 5 ReverseTransaction_def
    by (auto simp: store_ReverseTransaction_def snd_retry intro: step_ok_commit [OF inv] dest: reverse_tx_body_step)
  then show ?thesis by blast
next
  case (6 env dl dr hreq)
  have "evolves Reserving tn d d'"
  proof (cases "build_hold env tn hreq")
    case (Inr h)
    then show ?thesis unfolding 6 CreateHold_def using build_hold_Inr [OF Inr]
      by (auto simp: store_CreateHold_def snd_retry intro: step_ok_commit [OF inv] dest: create_hold_body_step)
  qed (simp add: 6 CreateHold_def)
  then show ?thesis using 6 by blast
next
  case (7 env i amount txid)
  have "evolves Recording tn d (snd (store_CaptureHold (ev_eventID env) (ev_wall env) tn i amount txid (ev_now env) d))"
    unfolding store_CaptureHold_def map_res_snd
    by (rule step_ok_commit [OF inv])
      (auto simp: bindE_Inr_iff getHoldTx_Inr split: if_splits intro: close_hold_step)
  then show ?thesis unfolding 7 CaptureHold_def by simp
next
  case (8 env i)
  have "evolves Recording tn d d'" unfolding 8 ReleaseHold_def store_ReleaseHold_def map_res_snd
    by (rule step_ok_commit [OF inv])
      (auto simp: bindE_Inr_iff getHoldTx_Inr split: if_splits intro: close_hold_step)
  then show ?thesis ..
qed

lemma request_evolves_some: "ledger_inv d \<Longrightarrow> request tn d d' \<Longrightarrow> \<exists>m. evolves m tn d d'"
  using request_evolves by blast

lemma request_inv: "ledger_inv d \<Longrightarrow> request tn d d' \<Longrightarrow> ledger_inv d'"
  by (erule request.cases) (auto intro: ledger_step_inv ledger_step.intros)

lemma PurgeTenant_cases: "ledger_inv d \<Longrightarrow> snd (PurgeTenant tn d) = d \<or> snd (PurgeTenant tn d) = delete_tenant tn d"
  by (rule WithTenantTx_cases [OF surjective_pairing [of "WithTenantTx tn (purge_expired_sandbox_tenant tn) d"]])
    (auto simp: ledger_inv_def PurgeTenant_def purge_expired_sandbox_tenant_def delete_tenant_def split: if_splits)

section \<open>Isolation of tenants\<close>

text \<open>Everything the database holds for a tenant.\<close>

definition tenant_rows :: "uuid \<Rightarrow> Db \<Rightarrow> Db" where
  "tenant_rows tn d = d\<lparr>
     db_ledgers := filter (\<lambda>l. l_TenantID l = tn) (db_ledgers d),
     db_accounts := filter (\<lambda>a. a_TenantID a = tn) (db_accounts d),
     db_transactions := filter (\<lambda>t. t_TenantID t = tn) (db_transactions d),
     db_postings := filter (\<lambda>p. pr_tenant p = tn) (db_postings d),
     db_balances := filter (\<lambda>b. br_tenant b = tn) (db_balances d),
     db_holds := filter (\<lambda>r. h_TenantID (hr_hold r) = tn) (db_holds d),
     db_keys := filter (\<lambda>r. ir_tenant r = tn) (db_keys d),
     db_outbox := filter (\<lambda>o'. or_tenant o' = tn) (db_outbox d),
     db_deferred := []\<rparr>"

lemma grows_other: "grows (\<lambda>x. f x = tn) later xs ys \<Longrightarrow> tn' \<noteq> tn \<Longrightarrow> filter (\<lambda>x. f x = tn') ys = filter (\<lambda>x. f x = tn') xs"
proof -
  assume g: "grows (\<lambda>x. f x = tn) later xs ys" and "tn' \<noteq> tn"
  then have "filter (\<lambda>x. f x = tn') zs = filter (\<lambda>x. f x = tn') (filter (\<lambda>x. f x \<noteq> tn) zs)" for zs
    by (auto intro: filter_cong)
  then show ?thesis using grows_others [OF g] by metis
qed

lemma evolves_other: "evolves m tn d d' \<Longrightarrow> tn' \<noteq> tn \<Longrightarrow> tenant_rows tn' d' = tenant_rows tn' d"
  unfolding evolves_def tenant_rows_def by (elim conjE) (simp add: grows_other [where tn = tn])

lemma delete_tenant_other: "tn' \<noteq> tn \<Longrightarrow> tenant_rows tn' (delete_tenant tn d) = tenant_rows tn' d"
proof -
  assume "tn' \<noteq> tn"
  then have "(x \<noteq> tn \<and> x = tn') = (x = tn')" for x by blast
  then show ?thesis by (simp add: tenant_rows_def delete_tenant_def)
qed

text \<open>
  C8. Tenants are isolated: whatever a tenant asks for, and when a tenant is purged, every row of every
  other tenant (ledgers, accounts, transactions, postings, balances, holds, idempotency keys, outbox)
  stays exactly as it was.
\<close>

theorem tenant_isolation:
  assumes "ledger_step\<^sup>*\<^sup>* empty_db d" and "request tn d d' \<or> d' = snd (PurgeTenant tn d)" and "tn' \<noteq> tn"
  shows "tenant_rows tn' d' = tenant_rows tn' d"
proof -
  have inv: "ledger_inv d" by (rule ledger.reachable [OF assms(1)])
  have "tenant_rows tn' d' = tenant_rows tn' d" if "request tn d d'"
    using request_evolves_some [OF inv that] evolves_other [OF _ assms(3)] by blast
  then show ?thesis
    using assms(2) PurgeTenant_cases [OF inv] delete_tenant_other [OF assms(3)] by metis
qed

theorem tenant_isolation_witness:
  "tenant_rows 1 (snd (CreateLedger (sample_env 900) 2
     \<lparr>cli_Name = ''main'', cli_Description = '''', cli_Environment = ''sandbox'', cli_Metadata = None\<rparr> sample_db)) = tenant_rows 1 sample_db"
  by (rule tenant_isolation [OF sample_reachable(3) disjI1 [OF request.intros(1)]]) simp

section \<open>Append-only history\<close>

lemma filter_key_unique: "distinct (map f xs) \<Longrightarrow> x \<in> set xs \<Longrightarrow> filter (\<lambda>y. f y = f x) xs = [x]"
  by (induction xs) (auto simp: filter_empty_conv image_iff)

text \<open>
  C10. History is append-only. A request changes a recorded transaction in one of two ways only: it posts
  a draft that was not posted before, setting the status and the instant of posting, or it reverses a posted
  transaction that was not reversed before, setting the status and the transaction that reverses it; every other
  field stays, and a draft is never reversed. No posting of a recorded transaction is ever added, changed or lost.
  A hold only moves from active to captured or released, once, on unchanged terms.
\<close>

theorem history_append_only:
  assumes "ledger_step\<^sup>*\<^sup>* empty_db d" and "request tn d d'"
  shows "(\<forall>t \<in> set (db_transactions d).
        (\<exists>t' \<in> set (db_transactions d'). t' = t
            \<or> t_Status t = TransactionDraft \<and> t_PostedAt t = None \<and> (\<exists>now. t' = set_posted now t)
            \<or> t_Status t = TransactionPosted \<and> t_ReversedByID t = None \<and> (\<exists>i. t' = set_reversed i t))
        \<and> length (filter (\<lambda>t'. t_ID t' = t_ID t) (db_transactions d')) = 1
        \<and> filter (\<lambda>p. pr_tx p = t_ID t) (db_postings d') = filter (\<lambda>p. pr_tx p = t_ID t) (db_postings d))
    \<and> (\<forall>r \<in> set (db_holds d). \<exists>r' \<in> set (db_holds d'). hold_terms r' = hold_terms r
            \<and> (r' = r \<or> h_Status (hr_hold r) = HoldActive \<and> h_Status (hr_hold r') \<in> {HoldCaptured, HoldReleased}))"
proof (intro conjI ballI)
  have inv: "ledger_inv d" by (rule ledger.reachable [OF assms(1)])
  then obtain m where ev: "evolves m tn d d'" using request_evolves_some [OF _ assms(2)] by blast
  note parts = ev [unfolded evolves_def]
  fix t assume t: "t \<in> set (db_transactions d)"
  obtain t' where t': "t' \<in> set (db_transactions d')" "tx_later m t t'"
    using parts grows_mem [OF _ t] by (fastforce simp: tx_later_def)
  then show "\<exists>t' \<in> set (db_transactions d'). t' = t
      \<or> t_Status t = TransactionDraft \<and> t_PostedAt t = None \<and> (\<exists>now. t' = set_posted now t)
      \<or> t_Status t = TransactionPosted \<and> t_ReversedByID t = None \<and> (\<exists>i. t' = set_reversed i t)"
    by (auto simp: tx_later_def)
  have "distinct (map t_ID (db_transactions d'))"
    using request_inv [OF inv assms(2)] by (simp add: ledger_inv_def struct_ok_def ids_ok_def)
  moreover have "t_ID t' = t_ID t" using immutable_fields(1) [OF tx_later_immutable [OF t'(2)]] .
  ultimately show "length (filter (\<lambda>t'. t_ID t' = t_ID t) (db_transactions d')) = 1"
    using filter_key_unique [of t_ID "db_transactions d'" t'] t'(1) by simp
  show "filter (\<lambda>p. pr_tx p = t_ID t) (db_postings d') = filter (\<lambda>p. pr_tx p = t_ID t) (db_postings d)"
    using parts t by (simp add: postings_kept_def tx_rows_def)
next
  obtain m where "evolves m tn d d'" using request_evolves_some [OF ledger.reachable [OF assms(1)] assms(2)] by blast
  then have g: "grows (\<lambda>r. h_TenantID (hr_hold r) = tn) hold_later (db_holds d) (db_holds d')" by (simp add: evolves_def)
  fix r assume "r \<in> set (db_holds d)"
  then obtain r' where "r' \<in> set (db_holds d')" "hold_later r r'"
    using grows_mem [OF g] by (fastforce simp: hold_later_def)
  then show "\<exists>r' \<in> set (db_holds d'). hold_terms r' = hold_terms r
      \<and> (r' = r \<or> h_Status (hr_hold r) = HoldActive \<and> h_Status (hr_hold r') \<in> {HoldCaptured, HoldReleased})"
    by (auto simp: hold_later_def)
qed

theorem history_append_only_witness:
  "\<exists>t' \<in> set (db_transactions (snd (ReverseTransaction (sample_env 900) sample_db sample_db 1 400 '''' '''' sample_db))).
     t' = hd (db_transactions sample_db) \<or> (\<exists>i. t' = set_reversed i (hd (db_transactions sample_db)))"
proof -
  let ?t = "hd (db_transactions sample_db)" and ?d = "snd (ReverseTransaction (sample_env 900) sample_db sample_db 1 400 '''' '''' sample_db)"
  have t: "db_transactions sample_db \<noteq> []" "t_Status ?t \<noteq> TransactionDraft" by code_simp+
  have "request 1 sample_db ?d" by (rule request.intros(5))
  note h = history_append_only [OF sample_reachable(3) this, THEN conjunct1]
  obtain t' where "t' \<in> set (db_transactions ?d)" "t' = ?t \<or> (\<exists>i. t' = set_reversed i ?t)"
    using bspec [OF h list.set_sel(1) [OF t(1)]] t(2) by (elim conjE bexE) blast
  then show ?thesis by blast
qed

end
