(* ===== verification/Ledger_Idempotency.thy ===== *)
theory Ledger_Idempotency
  imports Ledger_History
begin

text \<open>
  Idempotency: a request carries a key, and a key is used up by the first request that succeeds with
  it. Every later request of the tenant with that key gets the stored answer, or a conflict when its
  fingerprint differs, and leaves the database as it is; this also when the first lookup of the key
  ran on a snapshot from before the key was stored.
\<close>

section \<open>Keys persist\<close>

text \<open>Whatever may happen to the database of a tenant short of purging the tenant.\<close>

inductive unpurged :: "uuid \<Rightarrow> Db \<Rightarrow> Db \<Rightarrow> bool" for tn where
  "request tn' d d' \<Longrightarrow> unpurged tn d d'"
| "tn' \<noteq> tn \<Longrightarrow> unpurged tn d (snd (PurgeTenant tn' d))"

lemma unpurged_inv: "ledger_inv d \<Longrightarrow> unpurged tn d d' \<Longrightarrow> ledger_inv d'"
  by (erule unpurged.cases) (auto intro: request_inv PurgeTenant_inv)

lemma evolves_find_key: "evolves m tn' d d' \<Longrightarrow> find_key tn k d = Some r \<Longrightarrow> find_key tn k d' = Some r"
  by (auto simp: evolves_def find_key_def find_append dest!: grows_append_only)

lemma unpurged_find_key:
  assumes "ledger_inv d" and "unpurged tn d d'" and k: "find_key tn k d = Some r"
  shows "find_key tn k d' = Some r"
  using assms(2)
proof cases
  case (1 tn')
  then show ?thesis using request_evolves_some [OF assms(1)] evolves_find_key [OF _ k] by blast
next
  case (2 tn')
  then have "find_key tn k (delete_tenant tn' d) = find_key tn k d"
    unfolding find_key_def by (auto simp: delete_tenant_def intro: find_filter_all)
  then show ?thesis using k PurgeTenant_cases [OF assms(1), of tn'] by (auto simp: 2)
qed

lemma unpurged_star:
  "(unpurged tn)\<^sup>*\<^sup>* d d' \<Longrightarrow> ledger_inv d \<Longrightarrow> find_key tn k d = Some r \<Longrightarrow> ledger_inv d' \<and> find_key tn k d' = Some r"
  by (induction rule: rtranclp_induct) (auto intro: unpurged_inv unpurged_find_key)

section \<open>A used key\<close>

lemma stored_key:
  "storeIdempotentResponse tn rt key 201 t h d = Inr e \<Longrightarrow>
     rt = tn \<and> find_key tn key d = None \<and> find_key tn key e = Some \<lparr>ir_tenant = tn, ir_key = key, ir_status = 201,
       ir_response = json_snapshot t, ir_hash = h\<rparr>"
proof -
  assume a: "storeIdempotentResponse tn rt key 201 t h d = Inr e"
  then have "find_key tn key d = None" "rt = tn"
    by (auto simp: storeIdempotentResponse_def insert_key_def find_key_def find_None_iff list_ex_iff split: if_splits)
  with a show ?thesis
    by (auto simp: storeIdempotentResponse_def insert_key_def find_key_def find_append split: if_splits)
qed

lemma failed_tenant_tx: "(\<And>x e. fn d \<noteq> Inr (x, e)) \<Longrightarrow> db_deferred d = [] \<Longrightarrow> \<exists>err. WithTenantTx tn fn d = (Inl err, d)"
proof -
  assume f: "\<And>x e. fn d \<noteq> Inr (x, e)" and "db_deferred d = []"
  then have "d\<lparr>db_deferred := []\<rparr> = d" by simp
  then show ?thesis using f by (cases "fn d") (auto simp: WithTenantTx_def)
qed

lemma create_tx_body_used:
  assumes ids: "ids_ok d" and k: "find_key (t_TenantID t) (t_IdempotencyKey t) d = Some r"
    and b: "create_tx_body H uuidString evID wall dl t d = Inr (x, e)"
  shows "e = d"
proof (cases "lookupIdempotentTx (t_TenantID t) (t_IdempotencyKey t) dl")
  case None
  from b this show ?thesis
  proof (cases rule: create_tx_body_steps)
    case (1 d1 d2 d3)
    have "step_ok Recording (t_TenantID t) d1 d3" using 1(5)
      by (elim disjE conjE) (auto intro: step_ok_trans [OF step_ok_balances(1) step_ok_outbox] step_ok_balances(2))
    then have "evolves Recording (t_TenantID t) d d3"
      using step_ok_trans [OF step_ok_insertTransactionTx [OF 1(4)]] ids by (auto simp: step_ok_def)
    then show ?thesis using evolves_find_key [OF _ k] stored_key [OF 1(6)] by simp
  qed
qed (use b in \<open>auto simp: create_tx_body_def Let_def bindE_Inr_iff\<close>)

lemma reversal_key:
  "Reverse uuidString newV7 t revID now = Inr rv \<Longrightarrow>
     t_IdempotencyKey (reversal_of key reason t rv) = (if key = '''' then ReversalReferencePrefix @ uuidString (t_ID t) else key)"
  by (auto simp: Reverse_def reversal_of_def bindE_Inr_iff split: if_splits)

lemma reverse_tx_body_used:
  assumes ids: "ids_ok d"
    and k: "find_key tn (if key = '''' then ReversalReferencePrefix @ uuidString i else key) d = Some r"
    and b: "reverse_tx_body H uuidString newV7 evID wall dl tn i key reason now d = Inr (x, e)"
  shows "e = d"
proof (cases "lookupIdempotentTx tn (if key = '''' then ReversalReferencePrefix @ uuidString i else key) dl")
  case None
  from b this show ?thesis
  proof (cases rule: reverse_tx_body_steps)
    case (1 t0 revID rv0 rv d1 d2 d3 d4 ev)
    note step_ok_trans [OF step_ok_insertTransactionTx [OF 1(5)] step_ok_balances(1) [OF 1(6)]]
    note step_ok_trans [OF this step_ok_update_tx [OF 1(7) disjI2 [OF conjI [OF refl refl]]]]
    then have "evolves Reversing tn d d3" using ids by (simp add: step_ok_def)
    moreover have "t_IdempotencyKey rv = (if key = '''' then ReversalReferencePrefix @ uuidString i else key)"
      using reversal_key [OF 1(2)] find_Some_filter [OF 1(1) [unfolded find_tx_def]] by (simp add: 1(3))
    ultimately show ?thesis using evolves_find_key [OF _ k] stored_key [OF 1(8)] by simp
  qed
qed (use b in \<open>auto simp: reverse_tx_body_def Let_def bindE_Inr_iff\<close>)

lemma create_hold_body_used:
  assumes k: "find_hold_key (h_TenantID h) (h_IdempotencyKey h) d = Some r"
    and b: "create_hold_body H uuidString evID wall dl h d = Inr (x, e)"
  shows "e = d"
proof (cases "lookupHoldTx (h_TenantID h) (h_IdempotencyKey h) dl")
  case None
  from b this show ?thesis
  proof (cases rule: create_hold_body_steps)
    case (1 a h' d1 d2 ev)
    have "r \<in> set (db_holds d) \<and> h_TenantID (hr_hold r) = h_TenantID h \<and> h_IdempotencyKey (hr_hold r) = h_IdempotencyKey h"
      using k by (auto simp: find_hold_key_def dest!: find_Some_filter)
    then have False using 1(2,5) by (auto simp: insert_hold_def Let_def hold_row_def list_ex_iff split: if_splits)
    then show ?thesis ..
  qed
qed (use b in \<open>auto simp: create_hold_body_def Let_def bindE_Inr_iff\<close>)

lemma used_tenant_tx:
  assumes inv: "ledger_inv d" and b: "\<And>x e. fn d = Inr (x, e) \<Longrightarrow> e = d"
  shows "snd (WithTenantTx tn fn d) = d"
proof -
  obtain r e where w: "WithTenantTx tn fn d = (r, e)" by fastforce
  have q: "db_deferred d = []" using inv by (simp add: ledger_inv_def)
  from w q show ?thesis
  proof (cases rule: WithTenantTx_cases)
    case (ok x e')
    then show ?thesis using b [OF ok(3)] q by (simp add: w ok(5))
  qed (simp add: w)
qed

lemma CreateTransaction_used:
  assumes inv: "ledger_inv d" and k: "find_key tn (cti_IdempotencyKey req) d = Some r"
  shows "snd (CreateTransaction env dl dr tn req d) = d"
proof (cases "build_transaction env tn req")
  case (Inr t)
  have "ids_ok d" using inv by (simp add: ledger_inv_def struct_ok_def)
  moreover have "find_key (t_TenantID t) (t_IdempotencyKey t) d = Some r" using k build_transaction_Inr [OF Inr] by simp
  ultimately show ?thesis unfolding CreateTransaction_def Inr
    by (simp add: store_CreateTransaction_def snd_retry used_tenant_tx [OF inv create_tx_body_used])
qed (simp add: CreateTransaction_def)

lemma ReverseTransaction_used:
  assumes inv: "ledger_inv d"
    and k: "find_key tn (if key = '''' then ReversalReferencePrefix @ ev_uuidString env i else key) d = Some r"
  shows "snd (ReverseTransaction env dl dr tn i key reason d) = d"
proof -
  have "ids_ok d" using inv by (simp add: ledger_inv_def struct_ok_def)
  then show ?thesis unfolding ReverseTransaction_def
    by (simp add: store_ReverseTransaction_def snd_retry used_tenant_tx [OF inv reverse_tx_body_used [where uuidString = "ev_uuidString env" and key = key and i = i, OF _ k]])
qed

lemma CreateHold_used:
  assumes inv: "ledger_inv d" and k: "find_hold_key tn (chi_IdempotencyKey req) d = Some r"
  shows "snd (CreateHold env dl dr tn req d) = d"
proof (cases "build_hold env tn req")
  case (Inr h)
  have "find_hold_key (h_TenantID h) (h_IdempotencyKey h) d = Some r" using k build_hold_Inr [OF Inr] by simp
  then show ?thesis unfolding CreateHold_def Inr
    by (simp add: store_CreateHold_def snd_retry used_tenant_tx [OF inv create_hold_body_used])
qed (simp add: CreateHold_def)

text \<open>The key of a creation that answered with a fresh transaction.\<close>

lemma CreateTransaction_fresh:
  assumes c: "CreateTransaction env dl dr tn req d = (Inr (t, False), d1)" and q: "db_deferred d = []"
  shows "find_key tn (cti_IdempotencyKey req) d1 = Some \<lparr>ir_tenant = tn, ir_key = cti_IdempotencyKey req, ir_status = 201,
    ir_response = json_snapshot t, ir_hash = transactionFingerprint (ev_H env) (ev_uuidString env) t\<rparr>"
proof -
  obtain t' where t': "build_transaction env tn req = Inr t'" using c by (cases "build_transaction env tn req") (auto simp: CreateTransaction_def)
  note b = build_transaction_Inr [OF t']
  have "(case W of (Inr r, d') \<Rightarrow> (Inr r, d') | (Inl e, d') \<Rightarrow> (retry_stored found fp e, d')) = (Inr (t, False), d1) \<Longrightarrow> W = (Inr (t, False), d1)"
    for W :: "(error + Transaction \<times> bool) \<times> Db" and found fp
    by (auto simp: retry_stored_def serve_stored_def split: prod.splits sum.splits if_splits option.splits)
  then have "WithTenantTx (t_TenantID t') (create_tx_body (ev_H env) (ev_uuidString env) (ev_eventID env) (ev_wall env) dl t') d = (Inr (t, False), d1)"
    using c unfolding CreateTransaction_def t' by (simp add: store_CreateTransaction_def)
  from this q show ?thesis
  proof (cases rule: WithTenantTx_cases)
    case (ok x e')
    have "lookupIdempotentTx (t_TenantID t') (t_IdempotencyKey t') dl = None"
      using ok(1,3) by (cases "lookupIdempotentTx (t_TenantID t') (t_IdempotencyKey t') dl")
        (auto simp: create_tx_body_def Let_def bindE_Inr_iff serve_stored_def split: if_splits prod.splits)
    with ok(3) show ?thesis
    proof (cases rule: create_tx_body_steps)
      case (1 d1' d2 d3)
      then have "t' = t" using ok(1) by simp
      then show ?thesis using stored_key [OF 1(6)] b by (simp add: ok(5) find_key_def)
    qed
  qed simp
qed

text \<open>What a creation answers when both of its lookups see the row of its key.\<close>

lemma CreateTransaction_stored:
  assumes t: "build_transaction env tn req = Inr t" and inv: "ledger_inv d" and tn: "tn \<noteq> uuid_Nil"
    and k: "find_key tn (cti_IdempotencyKey req) d = Some r"
  shows "CreateTransaction env d dr tn req d =
    (if ir_hash r \<noteq> [] \<and> ir_hash r \<noteq> transactionFingerprint (ev_H env) (ev_uuidString env) t
     then Inl ErrIdempotencyConflict else Inr (ir_response r, True), d)"
proof -
  note b = build_transaction_Inr [OF t]
  have q: "d\<lparr>db_deferred := []\<rparr> = d" using inv by (simp add: ledger_inv_def)
  have "lookupIdempotentTx (t_TenantID t) (t_IdempotencyKey t) d = Some (ir_response r, ir_hash r)"
    using k b by (simp add: lookupIdempotentTx_def)
  then have "create_tx_body (ev_H env) (ev_uuidString env) (ev_eventID env) (ev_wall env) d t d =
    (if ir_hash r \<noteq> [] \<and> ir_hash r \<noteq> transactionFingerprint (ev_H env) (ev_uuidString env) t
     then Inl ErrIdempotencyConflict else Inr ((ir_response r, True), d))"
    by (simp add: create_tx_body_def Let_def serve_stored_def)
  moreover have "db_deferred d = []" using inv by (simp add: ledger_inv_def)
  ultimately show ?thesis
    using b tn by (simp add: CreateTransaction_def t store_CreateTransaction_def WithTenantTx_def q retry_stored_def
        isUniqueViolation_def mapErr_def split: if_splits)
qed

section \<open>Properties\<close>

text \<open>
  C7. A key takes effect at most once: while the database holds a row for the key of a request, a
  creation, a reversal or a hold with that key leaves the database exactly as it is, whatever
  the request says and however stale the snapshots are that its lookups of the key read.
\<close>

theorem used_key_no_effect:
  assumes "ledger_step\<^sup>*\<^sup>* empty_db d"
  shows "(find_key tn (cti_IdempotencyKey req) d \<noteq> None \<longrightarrow> snd (CreateTransaction env dl dr tn req d) = d)
    \<and> (find_key tn (if key = '''' then ReversalReferencePrefix @ ev_uuidString env i else key) d \<noteq> None \<longrightarrow>
        snd (ReverseTransaction env dl dr tn i key reason d) = d)
    \<and> (find_hold_key tn (chi_IdempotencyKey hreq) d \<noteq> None \<longrightarrow> snd (CreateHold env dl dr tn hreq d) = d)"
  using CreateTransaction_used ReverseTransaction_used CreateHold_used ledger.reachable [OF assms]
  by (metis option.exhaust)

theorem used_key_no_effect_witness:
  "snd (CreateTransaction (sample_env 700) empty_db empty_db 1 sample_request sample_db) = sample_db
   \<and> snd (CreateHold (sample_env 700) empty_db empty_db 1 sample_hold_request sample_db) = sample_db"
proof -
  have "find_key 1 (cti_IdempotencyKey sample_request) sample_db \<noteq> None"
    "find_hold_key 1 (chi_IdempotencyKey sample_hold_request) sample_db \<noteq> None"
    by code_simp+
  then show ?thesis using used_key_no_effect [OF sample_reachable(3)] by blast
qed

text \<open>A creation that is not a replay answers with the transaction it built.\<close>

lemma CreateTransaction_returns:
  assumes c: "CreateTransaction env dl dr tn req d = (Inr (t, False), d1)"
  shows "build_transaction env tn req = Inr t"
proof -
  obtain t' where t': "build_transaction env tn req = Inr t'" using c by (cases "build_transaction env tn req") (auto simp: CreateTransaction_def)
  have "(case W of (Inr r, d') \<Rightarrow> (Inr r, d') | (Inl e, d') \<Rightarrow> (retry_stored found fp e, d')) = (Inr (t, False), d1) \<Longrightarrow> W = (Inr (t, False), d1)"
    for W :: "(error + Transaction \<times> bool) \<times> Db" and found fp
    by (auto simp: retry_stored_def serve_stored_def split: prod.splits sum.splits if_splits option.splits)
  then have "WithTenantTx (t_TenantID t') (create_tx_body (ev_H env) (ev_uuidString env) (ev_eventID env) (ev_wall env) dl t') d = (Inr (t, False), d1)"
    using c unfolding CreateTransaction_def t' by (simp add: store_CreateTransaction_def)
  then obtain e' where "create_tx_body (ev_H env) (ev_uuidString env) (ev_eventID env) (ev_wall env) dl t' (d\<lparr>db_deferred := []\<rparr>) = Inr ((t, False), e')"
    by (auto simp: WithTenantTx_def split: sum.splits if_splits)
  then have "t' = t"
    by (auto simp: create_tx_body_def Let_def bindE_Inr_iff serve_stored_def split: option.splits if_splits prod.splits)
  then show ?thesis using t' by simp
qed

lemma CreateTransaction_again:
  assumes inv: "ledger_inv d" and c: "CreateTransaction env dl dr tn req d = (Inr (t, False), d1)"
    and later: "(unpurged tn)\<^sup>*\<^sup>* d1 d2" and tn: "tn \<noteq> uuid_Nil"
    and b: "build_transaction env' tn req' = Inr t'" and key: "cti_IdempotencyKey req' = cti_IdempotencyKey req"
  shows "CreateTransaction env' d2 dr' tn req' d2 =
    (if transactionFingerprint (ev_H env) (ev_uuidString env) t \<noteq> []
        \<and> transactionFingerprint (ev_H env) (ev_uuidString env) t \<noteq> transactionFingerprint (ev_H env') (ev_uuidString env') t'
     then Inl ErrIdempotencyConflict else Inr (json_snapshot t, True), d2)"
proof -
  have inv1: "ledger_inv d1"
    using ledger_step_inv [OF ledger_step.create_transaction [of d env dl dr tn req] inv] c by simp
  have k: "find_key tn (cti_IdempotencyKey req) d1 = Some \<lparr>ir_tenant = tn, ir_key = cti_IdempotencyKey req, ir_status = 201,
    ir_response = json_snapshot t, ir_hash = transactionFingerprint (ev_H env) (ev_uuidString env) t\<rparr>"
    using CreateTransaction_fresh [OF c] inv by (simp add: ledger_inv_def)
  note stored = unpurged_star [OF later inv1 k]
  show ?thesis
    using CreateTransaction_stored [OF b conjunct1 [OF stored] tn] conjunct2 [OF stored] key by simp
qed

text \<open>
  The body of a creation as the fingerprint sees it: identifiers and instants the service draws are left out, a
  missing status is the default one, missing metadata is empty metadata, and the order of the postings does not count.
\<close>

definition input_canon :: "(uuid \<Rightarrow> string) \<Rightarrow> PostingInput \<Rightarrow> canonicalPosting" where
  "input_canon us p = \<lparr>cp_AccountID = us (pin_AccountID p), cp_Direction = pin_Direction p,
     cp_Asset = Asset (pin_Amount p), cp_Units = Units (pin_Amount p)\<rparr>"

definition request_status :: "CreateTransactionInput \<Rightarrow> string" where
  "request_status req = (if cti_Status req = '''' then TransactionPosted else cti_Status req)"

definition request_canon :: "(uuid \<Rightarrow> string) \<Rightarrow> CreateTransactionInput \<Rightarrow> canon" where
  "request_canon us req = CanonTransaction (us (cti_LedgerID req)) (cti_Reference req) (cti_Description req) (request_status req)
     (cti_EffectiveAt req) (meta (cti_Metadata req)) (sort_key canonical_key (map (input_canon us) (cti_Postings req)))"

definition same_body :: "CreateTransactionInput \<Rightarrow> CreateTransactionInput \<Rightarrow> bool" where
  "same_body r r' \<longleftrightarrow> cti_LedgerID r' = cti_LedgerID r \<and> cti_Reference r' = cti_Reference r \<and> cti_Description r' = cti_Description r
     \<and> request_status r' = request_status r \<and> cti_EffectiveAt r' = cti_EffectiveAt r \<and> meta (cti_Metadata r') = meta (cti_Metadata r)
     \<and> mset (cti_Postings r') = mset (cti_Postings r)"

lemma make_postings_canon:
  "make_postings env n ps = Inr qs \<Longrightarrow> map (canonical_posting us) qs = map (input_canon us) ps"
  by (induction ps arbitrary: n qs) (auto simp: bindE_Inr_iff canonical_posting_def input_canon_def)

lemma transactionFingerprint_canon:
  assumes "build_transaction env tn req = Inr t"
  shows "transactionFingerprint H us t = H (request_canon us req)"
proof -
  obtain ps where ps: "make_postings env 1 (cti_Postings req) = Inr ps" "t_Postings t = ps"
    using assms by (auto simp: build_transaction_def Let_def bindE_Inr_iff split: if_splits)
  have "t_LedgerID t = cti_LedgerID req \<and> t_Reference t = cti_Reference req \<and> t_Description t = cti_Description req
      \<and> t_Status t = request_status req \<and> t_Metadata t = cti_Metadata req
      \<and> (if t_EffectiveAtProvided t then Some (t_EffectiveAt t) else None) = cti_EffectiveAt req"
    using assms by (auto simp: build_transaction_def Let_def bindE_Inr_iff request_status_def split: if_splits option.splits)
  then show ?thesis
    using make_postings_canon [OF ps(1), of us] by (simp add: transactionFingerprint_def request_canon_def ps(2))
qed

lemma sort_key_mset:
  assumes "inj f"
  shows "sort_key f xs = sort_key f ys \<longleftrightarrow> mset xs = mset ys"
proof
  assume "sort_key f xs = sort_key f ys"
  then show "mset xs = mset ys" by (metis mset_sort)
next
  assume "mset xs = mset ys"
  then show "sort_key f xs = sort_key f ys"
    by (intro sort_key_inj_key_eq) (auto intro: inj_on_subset [OF assms])
qed

lemma request_canon_same:
  assumes us: "inj us"
  shows "request_canon us r = request_canon us r' \<longleftrightarrow> same_body r r'"
proof -
  have key: "inj canonical_key" by (rule injI) (auto simp: canonical_key_def int64_eq_iff intro!: canonicalPosting.equality)
  have "inj (input_canon us)"
    by (rule injI) (use us in \<open>auto simp: input_canon_def inj_eq intro: PostingInput.equality Amount.equality\<close>)
  then have ps: "mset (map (input_canon us) (cti_Postings r)) = mset (map (input_canon us) (cti_Postings r')) \<longleftrightarrow>
      mset (cti_Postings r) = mset (cti_Postings r')"
    by (simp add: inj_eq [OF multiset.inj_map])
  show ?thesis
    unfolding request_canon_def same_body_def canon.inject sort_key_mset [OF key] ps inj_eq [OF us] by (rule iffI) (elim conjE, intro conjI, simp_all)+
qed

text \<open>
  C11. A retry gets the first answer: after a creation that returned the transaction \<open>t\<close>, and after any
  further requests of any tenants and purges of other tenants, a request of the tenant with the same key that
  passes the checks of its form is answered by its body. With the body of the first request, up to the order of
  the postings, it gets the stored transaction, marked as a replay; with any other body it is refused as
  a conflict. Neither changes the database. The fingerprint is assumed not to be empty and not to collide on
  the two bodies, and the text of a UUID to determine it.
\<close>

theorem CreateTransaction_replay:
  assumes "ledger_step\<^sup>*\<^sup>* empty_db d" and "CreateTransaction env dl dr tn req d = (Inr (t, False), d1)"
    and "(unpurged tn)\<^sup>*\<^sup>* d1 d2" and "tn \<noteq> uuid_Nil" and "cti_IdempotencyKey req' = cti_IdempotencyKey req"
    and "ev_H env' = ev_H env" and "ev_uuidString env' = ev_uuidString env" and "inj (ev_uuidString env)"
    and "ev_H env (request_canon (ev_uuidString env) req) \<noteq> []"
    and "ev_H env (request_canon (ev_uuidString env) req) = ev_H env (request_canon (ev_uuidString env) req')
      \<longrightarrow> request_canon (ev_uuidString env) req = request_canon (ev_uuidString env) req'"
  shows "CreateTransaction env' d2 dr' tn req' d2 =
    (case build_transaction env' tn req' of
       Inl e \<Rightarrow> Inl e
     | Inr _ \<Rightarrow> if same_body req req' then Inr (json_snapshot t, True) else Inl ErrIdempotencyConflict, d2)"
proof (cases "build_transaction env' tn req'")
  case (Inl e)
  then show ?thesis by (simp add: CreateTransaction_def)
next
  case (Inr t')
  note fp = transactionFingerprint_canon [OF CreateTransaction_returns [OF assms(2)]] transactionFingerprint_canon [OF Inr]
  have "ev_H env (request_canon (ev_uuidString env) req) = ev_H env (request_canon (ev_uuidString env) req') \<longleftrightarrow> same_body req req'"
    using assms(10) request_canon_same [OF assms(8)] by metis
  then show ?thesis
    using CreateTransaction_again [OF ledger.reachable [OF assms(1)] assms(2-4) Inr assms(5), of dr'] assms(6,7,9)
    by (simp add: fp Inr)
qed

text \<open>A hash that tells descriptions apart, a retry with the postings in the other order, and another body.\<close>

definition sample_hash_env :: "nat \<Rightarrow> Env" where
  "sample_hash_env n = (sample_env n)\<lparr>ev_H := (\<lambda>c. case c of
     CanonTransaction _ _ description _ _ _ _ \<Rightarrow> 1 # map (\<lambda>_. 2) description | _ \<Rightarrow> [1])\<rparr>"

definition sample_retry_request :: CreateTransactionInput where
  "sample_retry_request = sample_request\<lparr>cti_Postings := rev (cti_Postings sample_request), cti_Status := TransactionPosted\<rparr>"

definition sample_other_request :: CreateTransactionInput where
  "sample_other_request = sample_request\<lparr>cti_Description := ''again''\<rparr>"

theorem CreateTransaction_replay_witness:
  "(case CreateTransaction (sample_hash_env 400) sample_accounts_db sample_accounts_db 1 sample_request sample_accounts_db of (r, d1) \<Rightarrow>
     CreateTransaction (sample_hash_env 700) d1 empty_db 1 sample_retry_request d1 = (Inr (json_snapshot (fst (projr r)), True), d1)
     \<and> CreateTransaction (sample_hash_env 700) d1 empty_db 1 sample_other_request d1 = (Inl ErrIdempotencyConflict, d1))"
proof -
  let ?c = "CreateTransaction (sample_hash_env 400) sample_accounts_db sample_accounts_db 1 sample_request sample_accounts_db"
  have v: "\<not> isl (fst ?c) \<and> \<not> snd (projr (fst ?c))" by code_simp
  define t d1 where "t = fst (projr (fst ?c))" and "d1 = snd ?c"
  have c: "?c = (Inr (t, False), d1)"
    using v unfolding t_def d1_def by (cases ?c; cases "fst ?c") auto
  have env: "ev_H (sample_hash_env n) = ev_H (sample_hash_env 400)" "ev_uuidString (sample_hash_env n) = sample_uuidString" for n
    by (simp_all add: sample_hash_env_def sample_env_def)
  have us: "inj sample_uuidString" using sample_formats(3) by (metis injI option.inject)
  have b: "\<not> isl (build_transaction (sample_hash_env 700) 1 sample_retry_request)"
    "\<not> isl (build_transaction (sample_hash_env 700) 1 sample_other_request)" by code_simp+
  have same: "same_body sample_request sample_retry_request" "\<not> same_body sample_request sample_other_request"
    by (simp_all add: same_body_def sample_retry_request_def sample_other_request_def sample_request_def request_status_def add_mset_commute)
  have H: "ev_H (sample_hash_env 400) (request_canon us r) = 1 # map (\<lambda>_. 2) (cti_Description r)" for us r
    by (simp add: sample_hash_env_def request_canon_def)
  have r: "CreateTransaction (sample_hash_env 700) d1 empty_db 1 req' d1 =
    (case build_transaction (sample_hash_env 700) 1 req' of
       Inl e \<Rightarrow> Inl e
     | Inr _ \<Rightarrow> if same_body sample_request req' then Inr (json_snapshot t, True) else Inl ErrIdempotencyConflict, d1)"
    if "cti_IdempotencyKey req' = cti_IdempotencyKey sample_request"
      and "same_body sample_request req' \<or> cti_Description req' = ''again''" for req'
  proof (rule CreateTransaction_replay [OF sample_reachable(1) c rtranclp.rtrancl_refl _ that(1) env(1)])
    show "ev_H (sample_hash_env 400) (request_canon (ev_uuidString (sample_hash_env 400)) sample_request)
        = ev_H (sample_hash_env 400) (request_canon (ev_uuidString (sample_hash_env 400)) req')
      \<longrightarrow> request_canon (ev_uuidString (sample_hash_env 400)) sample_request = request_canon (ev_uuidString (sample_hash_env 400)) req'"
      using that(2) request_canon_same [OF us] by (auto simp: env(2) H sample_request_def)
  qed (simp_all add: env(2) us H)
  have "CreateTransaction (sample_hash_env 700) d1 empty_db 1 sample_retry_request d1 = (Inr (json_snapshot t, True), d1)"
    using r [of sample_retry_request] same(1) b(1) by (auto simp: sample_retry_request_def split: sum.splits)
  moreover have "CreateTransaction (sample_hash_env 700) d1 empty_db 1 sample_other_request d1 = (Inl ErrIdempotencyConflict, d1)"
    using r [of sample_other_request] same(2) b(2) by (auto simp: sample_other_request_def split: sum.splits)
  ultimately show ?thesis by (simp add: c)
qed

end
