(* ===== verification/Ledger_Reserves.thy ===== *)
theory Ledger_Reserves
  imports Ledger_Idempotency
begin

text \<open>
  What is on hold is backed by what is posted: the amount on hold on an account never exceeds what was ever
  posted on the account's normal side. The invariant keeps the available balance of every account within
  \<open>int64\<close>, so that the wrapping subtraction of \<open>Available\<close> is the exact one.
\<close>

section \<open>Available funds\<close>

text \<open>The exact net balance of an account, signed by its normal side.\<close>

definition net_posted :: "Db \<Rightarrow> uuid \<Rightarrow> string \<Rightarrow> string \<Rightarrow> int" where
  "net_posted d acc asset nb =
     (let raw = stored d (PostedDebits, acc, asset) - stored d (PostedCredits, acc, asset)
      in if nb = NormalDebit then raw else - raw)"

lemma stored_posted_range:
  assumes "ledger_inv d"
  shows "0 \<le> stored d (c, acc, asset) \<and> stored d (c, acc, asset) \<le> MaxInt64"
proof -
  have "0 \<le> computed d (c, acc, asset)"
    using assms by (auto simp: ledger_inv_def struct_ok_def posting_linked_def intro!: row_sum_nonneg)
  moreover have "stored d (c, acc, asset) = computed d (c, acc, asset)"
    using assms unfolding ledger_inv_def counters_ok_def by blast
  moreover have "stored d (c, acc, asset) \<le> MaxInt64"
    using assms by (cases c) (auto simp: ledger_inv_def struct_ok_def balance_linked_def balance_ok_def fits64_def find_balance_def
        split: option.split dest!: find_Some_filter)
  ultimately show ?thesis by simp
qed

lemma held_range:
  assumes "ledger_inv d"
  shows "0 \<le> held d (acc, asset) \<and> held d (acc, asset) \<le> MaxInt64"
proof -
  have "0 \<le> held d (acc, asset)"
    using assms active_held_nonneg [of "db_holds d"] by (auto simp: ledger_inv_def struct_ok_def held_ok_def hold_linked_def)
  moreover have "held d (acc, asset) \<le> MaxInt64"
    using assms by (auto simp: ledger_inv_def struct_ok_def balance_linked_def balance_ok_def fits64_def find_balance_def held_def
        split: option.split dest!: find_Some_filter)
  ultimately show ?thesis by simp
qed

text \<open>The row the availability check reads belongs to the tenant of the account.\<close>

lemma scan_balance_columns:
  assumes inv: "ledger_inv d" and a: "find_account tn acc d = Some a"
  shows "sint (b_PostedDebits (scan_balance tn acc asset d)) = stored d (PostedDebits, acc, asset)"
    "sint (b_PostedCredits (scan_balance tn acc asset d)) = stored d (PostedCredits, acc, asset)"
    "sint (b_Held (scan_balance tn acc asset d)) = held d (acc, asset)"
proof -
  have so: "struct_ok d" using inv by (simp add: ledger_inv_def)
  have "br_tenant r = tn \<and> balance_ok r" if "find_balance acc asset d = Some r" for r
  proof -
    have r: "r \<in> set (db_balances d)" "br_account r = acc" using that by (auto simp: find_balance_def dest!: find_Some_filter)
    then have "tenant_account d (br_tenant r) acc" "balance_ok r" using so by (auto simp: struct_ok_def balance_linked_def)
    moreover have "tenant_account d tn acc" using a by (auto simp: find_account_def tenant_account_def dest!: find_Some_filter)
    ultimately show ?thesis using tenant_account_unique [OF so] by blast
  qed
  then show "sint (b_PostedDebits (scan_balance tn acc asset d)) = stored d (PostedDebits, acc, asset)"
    "sint (b_PostedCredits (scan_balance tn acc asset d)) = stored d (PostedCredits, acc, asset)"
    "sint (b_Held (scan_balance tn acc asset d)) = held d (acc, asset)"
    by (auto simp: scan_balance_def Let_def held_def balance_ok_def sint_of_int64 split: option.split)
qed

lemma sint_int64_minus: "fits64 (sint a - sint b) \<Longrightarrow> sint (a - b :: int64) = sint a - sint b"
  using sint_of_int64 [of "sint a - sint b"] by simp

lemma Available_exact:
  assumes inv: "ledger_inv d" and a: "find_account tn acc d = Some a"
    and low: "MinInt64 \<le> net_posted d acc asset nb - held d (acc, asset)"
  shows "sint (Available (scan_balance tn acc asset d) nb) = net_posted d acc asset nb - held d (acc, asset)"
proof -
  let ?b = "scan_balance tn acc asset d"
  note cols = scan_balance_columns [OF inv a, of asset]
  note r = stored_posted_range [OF inv, of PostedDebits acc asset] stored_posted_range [OF inv, of PostedCredits acc asset]
  have net: "sint (PostedNet ?b nb) = net_posted d acc asset nb"
    using r by (auto simp: PostedNet_def net_posted_def Let_def sint_int64_minus fits64_def cols)
  moreover have "net_posted d acc asset nb \<le> MaxInt64" using r by (auto simp: net_posted_def Let_def)
  ultimately have "fits64 (sint (PostedNet ?b nb) - sint (b_Held ?b))"
    using held_range [OF inv, of acc asset] low unfolding fits64_def cols by auto
  then show ?thesis unfolding Available_def by (simp add: sint_int64_minus net cols)
qed

lemma CreateHold_fresh:
  assumes c: "CreateHold env dl dr tn req d = (Inr (h, False), d')" and inv: "ledger_inv d"
  obtains a where "find_account tn (chi_AccountID req) d = Some a"
    "\<not> sint (Available (scan_balance tn (chi_AccountID req) (Asset (chi_Amount req)) d) (a_NormalBalance a)) < sint (Units (chi_Amount req))"
    "\<And>acc asset. held d' (acc, asset) = held d (acc, asset)
       + (if acc = chi_AccountID req \<and> asset = Asset (chi_Amount req) then sint (Units (chi_Amount req)) else 0)"
    "\<And>k. stored d' k = stored d k"
proof -
  obtain h0 where h0: "build_hold env tn req = Inr h0" using c by (cases "build_hold env tn req") (auto simp: CreateHold_def)
  note b = build_hold_Inr [OF h0]
  have q: "db_deferred d = []" using inv by (simp add: ledger_inv_def)
  have "WithTenantTx (h_TenantID h0) (create_hold_body (ev_H env) (ev_uuidString env) (ev_eventID env) (ev_wall env) dl h0) d = (Inr (h, False), d')"
    using c unfolding CreateHold_def h0
    by (auto simp: store_CreateHold_def retry_stored_def serve_stored_def split: prod.splits sum.splits if_splits option.splits)
  from this q show thesis
  proof (cases rule: WithTenantTx_cases)
    case (ok x e)
    have "lookupHoldTx (h_TenantID h0) (h_IdempotencyKey h0) dl = None"
      using ok(1,3) by (cases "lookupHoldTx (h_TenantID h0) (h_IdempotencyKey h0) dl")
        (auto simp: create_hold_body_def Let_def bindE_Inr_iff serve_stored_def split: if_splits prod.splits)
    with ok(3) show thesis
    proof (cases rule: create_hold_body_steps)
      case (1 a h' d1 d2 ev)
      have d1: "db_balances d1 = db_balances d" using 1(5) by (auto simp: insert_hold_def Let_def split: if_splits)
      have e: "db_balances e = db_balances d2" using 1(7) by (auto simp: insertOutbox_Inr)
      note u = upsertHeld_effect [OF 1(6)]
      have "stored d' k = stored d k" for k
        using u(1) [of k] stored_same [OF d1, of k] stored_same [OF e, of k] stored_same [of d' e k] ok(5) by simp
      moreover have "held d' (acc, asset) = held d (acc, asset)
          + (if acc = chi_AccountID req \<and> asset = Asset (chi_Amount req) then sint (Units (chi_Amount req)) else 0)" for acc asset
        using u(3) [of acc asset] held_same [OF d1] held_same [OF e] held_same [of d' e] ok(5) 1(2) b by auto
      ultimately show thesis using that 1(1,4) b by simp
    qed
  qed simp
qed

section \<open>Holds are backed\<close>

text \<open>The column that grows with the balance of an account.\<close>

definition backing :: "string \<Rightarrow> column" where
  "backing nb = (if nb = NormalDebit then PostedDebits else PostedCredits)"

definition backed_holds :: "Db \<Rightarrow> bool" where
  "backed_holds d \<longleftrightarrow> (\<forall>a \<in> set (db_accounts d). \<forall>asset.
     held d (a_ID a, asset) \<le> stored d (backing (a_NormalBalance a), a_ID a, asset))"

text \<open>The available balance is what is posted on the normal side, less the other side and the holds.\<close>

lemma net_posted_low:
  assumes "ledger_inv d" and "held d (acc, asset) \<le> stored d (backing nb, acc, asset)"
  shows "MinInt64 \<le> net_posted d acc asset nb - held d (acc, asset)"
  using assms(2) stored_posted_range [OF assms(1), of PostedDebits acc asset] stored_posted_range [OF assms(1), of PostedCredits acc asset]
  by (auto simp: net_posted_def Let_def backing_def simp del: stored.simps)

lemma active_held_later:
  assumes "list_all2 (\<lambda>x z. z = x \<or> mine x \<and> mine z \<and> hold_later x z) xs zs"
    and "\<forall>r \<in> set xs. 0 < sint (Units (h_Amount (hr_hold r)))"
  shows "active_held zs acc asset \<le> active_held xs acc asset"
  using assms
proof (induction rule: list_all2_induct)
  case (Cons x xs z zs)
  have "h_Status (hr_hold z) \<noteq> HoldActive \<or> z = x" using Cons.hyps(1) by (auto simp: hold_later_def)
  then show ?case using Cons.IH Cons.prems by (auto simp: active_held_def)
qed (simp add: active_held_def)

lemma evolves_held:
  assumes "ledger_inv d" and "ledger_inv d'" and "evolves m tn d d'" and "m \<noteq> Reserving"
  shows "held d' (acc, asset) \<le> held d (acc, asset)"
proof -
  have g: "grows (\<lambda>r. h_TenantID (hr_hold r) = tn) hold_later (db_holds d) (db_holds d')" "length (db_holds d') = length (db_holds d)"
    using assms(3,4) by (simp_all add: evolves_def)
  then obtain zs ws where z: "db_holds d' = zs @ ws"
    "list_all2 (\<lambda>x z. z = x \<or> h_TenantID (hr_hold x) = tn \<and> h_TenantID (hr_hold z) = tn \<and> hold_later x z) (db_holds d) zs"
    unfolding grows_def by blast
  then have "ws = []" using g(2) list_all2_lengthD [OF z(2)] by simp
  with z have "list_all2 (\<lambda>x z. z = x \<or> h_TenantID (hr_hold x) = tn \<and> h_TenantID (hr_hold z) = tn \<and> hold_later x z) (db_holds d) (db_holds d')"
    by simp
  moreover have "\<forall>r \<in> set (db_holds d). 0 < sint (Units (h_Amount (hr_hold r)))"
    using assms(1) by (simp add: ledger_inv_def struct_ok_def hold_linked_def)
  ultimately have "active_held (db_holds d') acc asset \<le> active_held (db_holds d) acc asset" by (rule active_held_later)
  then show ?thesis using assms(1,2) by (simp add: ledger_inv_def held_ok_def)
qed

text \<open>Posted columns never fall: postings are only appended, and a transaction that counts goes on counting.\<close>

lemma evolves_status:
  assumes "ledger_inv d" and "ledger_inv d'" and "evolves m tn d d'" and t: "t \<in> set (db_transactions d)"
    and firm: "t_Status t = TransactionPosted \<or> t_Status t = TransactionReversed"
  shows "tx_status d' (t_ID t) = TransactionPosted \<or> tx_status d' (t_ID t) = TransactionReversed"
proof -
  obtain t' where t': "t' \<in> set (db_transactions d')" "tx_later m t t'"
    using assms(3) grows_mem [OF _ t] by (fastforce simp: evolves_def tx_later_def)
  have "distinct (map t_ID (db_transactions d'))" using assms(2) by (simp add: ledger_inv_def struct_ok_def ids_ok_def)
  then have "find (\<lambda>x. t_ID x = t_ID t) (db_transactions d') = Some t'"
    by (rule find_distinct [OF _ t'(1)]) (rule immutable_fields(1) [OF tx_later_immutable [OF t'(2)]])
  moreover have "t_Status t' = TransactionPosted \<or> t_Status t' = TransactionReversed"
    using t'(2) firm by (auto simp: tx_later_def set_reversed_def set_posted_def)
  ultimately show ?thesis by (simp add: tx_status_def)
qed

lemma row_sum_mono: "(\<And>p. p \<in> set ps \<Longrightarrow> 0 \<le> pr_amount p) \<Longrightarrow> (\<And>p. p \<in> set ps \<Longrightarrow> P p \<Longrightarrow> Q p) \<Longrightarrow> row_sum P ps \<le> row_sum Q ps"
  by (induction ps) fastforce+

lemma posting_tx:
  assumes "ledger_inv d" and "p \<in> set (db_postings d)"
  shows "\<exists>t \<in> set (db_transactions d). t_ID t = pr_tx p"
proof -
  have "posting_linked d p" using assms by (simp add: ledger_inv_def struct_ok_def)
  then show ?thesis unfolding posting_linked_def by blast
qed

lemma evolves_stored:
  assumes inv: "ledger_inv d" and inv': "ledger_inv d'" and ev: "evolves m tn d d'" and c: "col_posted c"
  shows "stored d (c, acc, asset) \<le> stored d' (c, acc, asset)"
proof -
  obtain ws where p: "db_postings d' = db_postings d @ ws"
    using ev grows_append_only unfolding evolves_def by blast
  have pos: "0 \<le> pr_amount p" if "p \<in> set (db_postings d')" for p
    using inv' that by (auto simp: ledger_inv_def struct_ok_def posting_linked_def)
  have firm: "col_counts c (tx_status d' (pr_tx p))" if "p \<in> set (db_postings d)" and "col_counts c (tx_status d (pr_tx p))" for p
  proof -
    obtain t where t: "t \<in> set (db_transactions d)" "t_ID t = pr_tx p"
      using posting_tx [OF inv \<open>p \<in> set (db_postings d)\<close>] by blast
    have "distinct (map t_ID (db_transactions d))" using inv by (simp add: ledger_inv_def struct_ok_def ids_ok_def)
    then have "tx_status d (pr_tx p) = t_Status t" using find_distinct [where k = t_ID, OF _ t] by (simp add: tx_status_def)
    then show ?thesis using that(2) evolves_status [OF inv inv' ev t(1)] t(2) c by (simp add: col_counts_def)
  qed
  let ?P = "\<lambda>d p. col_counts c (tx_status d (pr_tx p)) \<and> pr_direction p = col_direction c \<and> pr_account p = acc \<and> pr_asset p = asset"
  have "row_sum (?P d) (db_postings d) \<le> row_sum (?P d') (db_postings d)"
    by (rule row_sum_mono) (use pos firm in \<open>auto simp: p\<close>)
  moreover have "0 \<le> row_sum (?P d') ws" by (rule row_sum_nonneg) (use pos in \<open>simp add: p\<close>)
  ultimately have "computed d (c, acc, asset) \<le> computed d' (c, acc, asset)" by (simp add: p)
  then show ?thesis using inv inv' by (simp add: ledger_inv_def counters_ok_def del: stored.simps computed.simps)
qed

text \<open>An account that is not there yet has nothing on hold.\<close>

lemma held_unknown:
  assumes "ledger_inv d" and "acc \<notin> a_ID ` set (db_accounts d)"
  shows "held d (acc, asset) = 0"
proof -
  have "h_AccountID (hr_hold r) \<noteq> acc" if "r \<in> set (db_holds d)" for r
  proof -
    have "hold_linked d r" using assms(1) that by (simp add: ledger_inv_def struct_ok_def)
    then obtain a where "a \<in> set (db_accounts d)" "a_ID a = h_AccountID (hr_hold r)" by (auto simp: hold_linked_def tenant_account_def)
    then show ?thesis using assms(2) by force
  qed
  then have "active_held (db_holds d) acc asset = (\<Sum>r\<leftarrow>db_holds d. 0)"
    unfolding active_held_def by (intro arg_cong [of _ _ sum_list] map_cong) auto
  then have "active_held (db_holds d) acc asset = 0" by simp
  then show ?thesis using assms(1) by (simp add: ledger_inv_def held_ok_def)
qed

lemma CreateHold_outcomes:
  assumes inv: "ledger_inv d"
  obtains "snd (CreateHold env dl dr tn req d) = d" | h d' where "CreateHold env dl dr tn req d = (Inr (h, False), d')"
proof (cases "build_hold env tn req")
  case (Inl e)
  then show thesis using that(1) by (simp add: CreateHold_def)
next
  case (Inr h)
  let ?body = "create_hold_body (ev_H env) (ev_uuidString env) (ev_eventID env) (ev_wall env) dl h"
  have q: "db_deferred d = []" using inv by (simp add: ledger_inv_def)
  obtain r e where w: "WithTenantTx (h_TenantID h) ?body d = (r, e)" by fastforce
  have c: "snd (CreateHold env dl dr tn req d) = e"
    by (simp add: CreateHold_def Inr store_CreateHold_def w split: sum.split)
  from w q show thesis
  proof (cases rule: WithTenantTx_cases)
    case (ok x e')
    show thesis
    proof (cases "lookupHoldTx (h_TenantID h) (h_IdempotencyKey h) dl")
      case None
      with ok(3) obtain h' where "x = (h', False)" by (cases rule: create_hold_body_steps)
      then have "CreateHold env dl dr tn req d = (Inr (h', False), e)"
        by (simp add: CreateHold_def Inr store_CreateHold_def w ok(1))
      then show thesis by (rule that(2))
    next
      case (Some st)
      then have "e' = d" using ok(3) by (auto simp: create_hold_body_def Let_def bindE_Inr_iff)
      then show thesis using that(1) c q by (simp add: ok(5))
    qed
  qed (use that(1) c in simp)
qed

lemma backed_CreateHold:
  assumes inv: "ledger_inv d" and inv': "ledger_inv d'" and ev: "evolves Reserving tn d d'" and backed: "backed_holds d"
    and c: "CreateHold env dl dr tn req d = (Inr (h, False), d')" and a: "a \<in> set (db_accounts d')"
  shows "held d' (a_ID a, asset) \<le> stored d' (backing (a_NormalBalance a), a_ID a, asset)
    \<or> held d' (a_ID a, asset) = held d (a_ID a, asset)"
  using c inv
proof (cases rule: CreateHold_fresh)
  case (1 a0)
  let ?acc = "chi_AccountID req" and ?asset = "Asset (chi_Amount req)" and ?nb = "a_NormalBalance a0"
  have a0: "a0 \<in> set (db_accounts d)" "a_ID a0 = ?acc" using 1(1) by (auto simp: find_account_def dest!: find_Some_filter)
  show ?thesis
  proof (cases "a_ID a = ?acc \<and> asset = ?asset")
    case True
    have "a0 \<in> set (db_accounts d')" using a0(1) ev grows_append_only unfolding evolves_def by (metis UnI1 set_append)
    moreover have "distinct (map a_ID (db_accounts d'))" using inv' by (simp add: ledger_inv_def struct_ok_def ids_ok_def)
    ultimately have eq: "a = a0" using a a0(2) True by (metis distinct_map inj_onD)
    have le: "held d (?acc, ?asset) \<le> stored d (backing ?nb, ?acc, ?asset)"
      using backed a0 unfolding backed_holds_def by metis
    have "sint (Available (scan_balance tn ?acc ?asset d) ?nb) = net_posted d ?acc ?asset ?nb - held d (?acc, ?asset)"
      by (rule Available_exact [OF inv 1(1) net_posted_low [OF inv le]])
    then have "held d' (?acc, ?asset) \<le> net_posted d ?acc ?asset ?nb" using 1(2,3) by simp
    also have "\<dots> \<le> stored d' (backing ?nb, ?acc, ?asset)"
      using stored_posted_range [OF inv, of PostedDebits ?acc ?asset] stored_posted_range [OF inv, of PostedCredits ?acc ?asset]
      by (auto simp: net_posted_def Let_def backing_def 1(4) simp del: stored.simps)
    finally show ?thesis using True eq by simp
  qed (use 1(3) in auto)
qed

lemma backed_request:
  assumes inv: "ledger_inv d" and backed: "backed_holds d" and r: "request tn d d'"
  shows "backed_holds d'"
proof -
  have inv': "ledger_inv d'" by (rule request_inv [OF inv r])
  have fin: "held d' (a_ID a, asset) \<le> stored d' (backing (a_NormalBalance a), a_ID a, asset)"
    if ev: "evolves m tn d d'" and a: "a \<in> set (db_accounts d')" and le: "held d' (a_ID a, asset) \<le> held d (a_ID a, asset)" for m a asset
  proof (cases "a \<in> set (db_accounts d)")
    case True
    then have "held d (a_ID a, asset) \<le> stored d (backing (a_NormalBalance a), a_ID a, asset)"
      using backed unfolding backed_holds_def by blast
    also have "\<dots> \<le> stored d' (backing (a_NormalBalance a), a_ID a, asset)"
      by (rule evolves_stored [OF inv inv' ev]) (simp add: backing_def)
    finally show ?thesis using le by linarith
  next
    case False
    obtain ws where ws: "db_accounts d' = db_accounts d @ ws" using ev grows_append_only unfolding evolves_def by blast
    moreover have "distinct (map a_ID (db_accounts d'))" using inv' by (simp add: ledger_inv_def struct_ok_def ids_ok_def)
    ultimately have "a_ID a \<notin> a_ID ` set (db_accounts d)" using a False by auto
    from held_unknown [OF inv this, of asset] show ?thesis
      using le stored_posted_range [OF inv', of "backing (a_NormalBalance a)" "a_ID a" asset] by (simp del: stored.simps)
  qed
  from request_evolves [OF inv r] consider m where "evolves m tn d d'" "m \<noteq> Reserving"
    | env dl dr req where "evolves Reserving tn d d'" "d' = snd (CreateHold env dl dr tn req d)"
    by blast
  then show ?thesis
  proof cases
    case (1 m)
    then show ?thesis unfolding backed_holds_def using fin [OF 1(1)] evolves_held [OF inv inv' 1] by blast
  next
    case (2 env dl dr req)
    from inv show ?thesis
    proof (cases rule: CreateHold_outcomes [where env = env and dl = dl and dr = dr and tn = tn and req = req])
      case 1
      then show ?thesis using 2(2) backed by simp
    next
      case (2 h e)
      then have "CreateHold env dl dr tn req d = (Inr (h, False), d')" using \<open>d' = _\<close> by simp
      from backed_CreateHold [OF inv inv' \<open>evolves Reserving tn d d'\<close> backed this]
      show ?thesis unfolding backed_holds_def using fin [OF \<open>evolves Reserving tn d d'\<close>] by (metis order_refl)
    qed
  qed
qed

lemma backed_purge:
  assumes inv: "ledger_inv d" and backed: "backed_holds d"
  shows "backed_holds (snd (PurgeTenant tn d))"
proof -
  have so: "struct_ok d" using inv by (simp add: ledger_inv_def)
  have "held (delete_tenant tn d) (a_ID a, asset) \<le> stored (delete_tenant tn d) (backing (a_NormalBalance a), a_ID a, asset)"
    if "a \<in> set (db_accounts d)" for a asset
    using backed that by (auto simp: backed_holds_def held_def purge_balance [OF so])
  then have "backed_holds (delete_tenant tn d)" unfolding backed_holds_def by (auto simp: delete_tenant_def simp del: stored.simps)
  then show ?thesis using PurgeTenant_cases [OF inv, of tn] backed by auto
qed

interpretation funds: invariant_of empty_db ledger_step "\<lambda>d. ledger_inv d \<and> backed_holds d"
proof unfold_locales
  show "ledger_inv empty_db \<and> backed_holds empty_db"
    using ledger_inv_empty by (simp add: backed_holds_def empty_db_def)
next
  fix d d'
  assume d: "ledger_inv d \<and> backed_holds d" and s: "ledger_step d d'"
  then show "ledger_inv d' \<and> backed_holds d'"
    using ledger_step_inv [OF s] ledger_step_cases [OF s] backed_request backed_purge by blast
qed

end
