(* ===== verification/Ledger_Funds.thy ===== *)
theory Ledger_Funds
  imports Ledger_Reserves
begin

text \<open>
  What the operations do to balances and to the life of transactions and holds: a hold never reserves
  more than is available, a reversal gives every account back what the original moved, and every
  request that a transaction or a hold is not in the right state for is refused without effect.
\<close>

section \<open>Reversals\<close>

text \<open>What a set of postings adds to the balance of an account, debits counted positive.\<close>

definition signed_effect :: "Posting list \<Rightarrow> uuid \<Rightarrow> string \<Rightarrow> int" where
  "signed_effect ps acc asset = (\<Sum>p\<leftarrow>ps. if p_AccountID p = acc \<and> p_asset p = asset
     then (if p_Direction p = DirectionDebit then units p else - units p) else 0)"

lemma signed_effect_contrib:
  "list_all (\<lambda>p. Direction_Valid (p_Direction p)) ps \<Longrightarrow>
     (\<Sum>p\<leftarrow>ps. contrib True p (PostedDebits, acc, asset)) - (\<Sum>p\<leftarrow>ps. contrib True p (PostedCredits, acc, asset))
     = signed_effect ps acc asset"
  by (induction ps) (auto simp: signed_effect_def Direction_Valid_def)

lemma signed_effect_mirrored:
  "list_all2 mirrored ps qs \<Longrightarrow> list_all (\<lambda>p. Direction_Valid (p_Direction p)) ps \<Longrightarrow>
     signed_effect qs acc asset = - signed_effect ps acc asset \<and> list_all (\<lambda>p. Direction_Valid (p_Direction p)) qs"
  by (induction rule: list_all2_induct) (auto simp: signed_effect_def mirrored_def p_asset_def units_def Direction_Valid_def Direction_Opposite_def)

lemma loadPostings_valid:
  assumes s: "struct_ok d" and t: "find_tx tn i d = Some t" and p: "p \<in> set (loadPostings tn d [i] i)"
  shows "Direction_Valid (p_Direction p)"
proof -
  obtain r where r: "r \<in> set (tx_rows i d)" "p = posting_of_row r" by (rule loadPostings_set [OF s t p])
  then show ?thesis using struct_tx_rows [OF s t r(1)] by (simp add: posting_of_row_def posting_linked_def)
qed

lemma ReverseTransaction_fresh:
  assumes c: "ReverseTransaction env dl dr tn i key reason d = (Inr (rv, False), d')" and inv: "ledger_inv d"
  obtains t0 d1 d2 d3 where "find_tx tn i d = Some t0" "t_Status t0 = TransactionPosted"
    "list_all2 mirrored (loadPostings tn d [i] i) (t_Postings rv)" "t_TenantID rv = tn" "t_Status rv = TransactionPosted"
    "t_ReversesID rv = Some i" "t_LedgerID rv = t_LedgerID t0"
    "insertTransactionTx tn rv d = Inr d1" "applyBalances tn tn (t_Postings rv) upsertPostedBalance d1 = Inr d2"
    "update_tx tn i (set_reversed (t_ID rv)) d2 = Inr d3"
    "db_transactions d' = db_transactions d3" "db_balances d' = db_balances d3"
proof -
  have q: "db_deferred d = []" using inv by (simp add: ledger_inv_def)
  have "WithTenantTx tn (reverse_tx_body (ev_H env) (ev_uuidString env) (ev_newV7 env) (ev_eventID env) (ev_wall env) dl tn i key reason
      (ev_now env)) d = (Inr (rv, False), d')"
    using c unfolding ReverseTransaction_def
    by (auto simp: store_ReverseTransaction_def retry_stored_def serve_stored_def split: prod.splits sum.splits if_splits option.splits)
  from this q show thesis
  proof (cases rule: WithTenantTx_cases)
    case (ok x e)
    have "lookupIdempotentTx tn (if key = '''' then ReversalReferencePrefix @ ev_uuidString env i else key) dl = None"
      using ok(1,3) by (cases "lookupIdempotentTx tn (if key = '''' then ReversalReferencePrefix @ ev_uuidString env i else key) dl")
        (auto simp: reverse_tx_body_def Let_def bindE_Inr_iff serve_stored_def split: if_splits prod.splits)
    with ok(3) show thesis
    proof (cases rule: reverse_tx_body_steps)
      case (1 t0 revID rv0 rv' d1 d2 d3 d4 ev)
      have rv': "rv' = rv" using 1(4) ok(1) by simp
      note r = Reverse_Inr [OF 1(2)]
      have t0: "t_TenantID t0 = tn" "t_ID t0 = i" using 1(1) by (auto simp: find_tx_def dest!: find_Some_filter)
      have "db_transactions d4 = db_transactions d3" "db_balances d4 = db_balances d3"
        using 1(8) by (auto simp: storeIdempotentResponse_def insert_key_Inr)
      then have "db_transactions d' = db_transactions d3" "db_balances d' = db_balances d3"
        using 1(9) by (auto simp: insertOutbox_Inr ok(5))
      then show thesis using that [of t0 d1 d2 d3] 1(1,3,5,6,7) r t0 rv' by simp
    qed
  qed simp
qed

lemma fresh_result: "\<not> isl (fst c) \<and> \<not> snd (projr (fst c)) \<Longrightarrow> c = (Inr (fst (projr (fst c)), False), snd c)"
  by (cases c; cases "fst c") auto

lemma same_deferred: "db_deferred d = [] \<Longrightarrow> d\<lparr>db_deferred := []\<rparr> = d"
  by simp

lemma WithTenantTx_Inl:
  assumes "tn \<noteq> uuid_Nil" and "db_deferred d = []" and "fn d = Inl e"
  shows "WithTenantTx tn fn d = (Inl e, d)"
  using assms by (simp add: WithTenantTx_def same_deferred [OF assms(2)])

lemma WithTenantTx_unchanged:
  assumes "tn \<noteq> uuid_Nil" and "db_deferred d = []" and "fn d = Inr (x, d)"
  shows "WithTenantTx tn fn d = (Inr x, d)"
  using assms by (simp add: WithTenantTx_def same_deferred [OF assms(2)])

section \<open>Properties\<close>

text \<open>
  C5. Funds on hold never exceed the available balance: when a request creates a hold in a reachable
  database, the total held on the account and asset grows by the amount of the hold and stays within the
  net posted balance of the account, computed exactly; the subtractions of the availability check, done in
  \<open>int64\<close>, cannot wrap. The posted and pending counters do not move.
\<close>

theorem hold_within_funds:
  assumes "ledger_step\<^sup>*\<^sup>* empty_db d" and "CreateHold env dl dr tn req d = (Inr (h, False), d')"
    and "find_account tn (chi_AccountID req) d = Some a"
  shows "held d' (chi_AccountID req, Asset (chi_Amount req)) = held d (chi_AccountID req, Asset (chi_Amount req)) + sint (Units (chi_Amount req))
    \<and> held d' (chi_AccountID req, Asset (chi_Amount req))
        \<le> net_posted d' (chi_AccountID req) (Asset (chi_Amount req)) (a_NormalBalance a)
    \<and> sint (Available (scan_balance tn (chi_AccountID req) (Asset (chi_Amount req)) d) (a_NormalBalance a))
        = net_posted d (chi_AccountID req) (Asset (chi_Amount req)) (a_NormalBalance a) - held d (chi_AccountID req, Asset (chi_Amount req))
    \<and> stored d' k = stored d k"
proof -
  let ?acc = "chi_AccountID req" and ?asset = "Asset (chi_Amount req)" and ?nb = "a_NormalBalance a"
  have inv: "ledger_inv d" and backed: "backed_holds d" using funds.reachable [OF assms(1)] by simp_all
  have "a \<in> set (db_accounts d)" "a_ID a = ?acc" using assms(3) by (auto simp: find_account_def dest!: find_Some_filter)
  then have "held d (?acc, ?asset) \<le> stored d (backing ?nb, ?acc, ?asset)" using backed unfolding backed_holds_def by metis
  note exact = Available_exact [OF inv assms(3) net_posted_low [OF inv this]]
  from assms(2) inv show ?thesis
  proof (cases rule: CreateHold_fresh)
    case (1 a')
    then have "a' = a" using assms(3) by simp
    moreover have "net_posted d' acc asset nb = net_posted d acc asset nb" for acc asset nb
      using 1(4) by (simp add: net_posted_def del: stored.simps)
    ultimately show ?thesis using 1(2-4) exact by simp
  qed
qed

theorem hold_within_funds_witness:
  "held sample_db (200, ''USD'') \<le> net_posted sample_db 200 ''USD'' NormalDebit"
proof -
  let ?c = "CreateHold (sample_env 500) sample_posted_db sample_posted_db 1 sample_hold_request sample_posted_db"
  have v: "\<not> isl (fst ?c) \<and> \<not> snd (projr (fst ?c))" by code_simp
  then have c: "?c = (Inr (fst (projr (fst ?c)), False), sample_db)"
    unfolding sample_db_def by (cases ?c; cases "fst ?c") auto
  have "map_option a_NormalBalance (find_account 1 200 sample_posted_db) = Some NormalDebit" by code_simp
  then obtain a where a: "find_account 1 200 sample_posted_db = Some a" "a_NormalBalance a = NormalDebit" by auto
  have r: "chi_AccountID sample_hold_request = 200" "Asset (chi_Amount sample_hold_request) = ''USD''"
    by (simp_all add: sample_hold_request_def)
  have "find_account 1 (chi_AccountID sample_hold_request) sample_posted_db = Some a" using a(1) r by simp
  from hold_within_funds [OF sample_reachable(2) c this, unfolded r a(2)] show ?thesis by blast
qed

lemma find_tx_set_reversed:
  assumes "db_transactions d' = update_rows (\<lambda>x. t_ID x = i) (set_reversed r) (db_transactions d)"
  shows "find_tx tn j d' = map_option (\<lambda>t. if t_ID t = i then set_reversed r t else t) (find_tx tn j d)"
  using assms find_update_rows [where Q = "\<lambda>x. t_ID x = i" and f = "set_reversed r" and P = "\<lambda>t. t_TenantID t = tn \<and> t_ID t = j"]
  by (simp add: find_tx_def set_reversed_def)

lemma find_tx_new:
  assumes "\<not> tx_exists (t_ID t) d" and "db_transactions d' = db_transactions d @ [t]" and "t_TenantID t = tn"
  shows "find_tx tn (t_ID t) d' = Some t"
proof -
  have "find (\<lambda>x. t_TenantID x = tn \<and> t_ID x = t_ID t) (db_transactions d) = None"
    using assms(1) by (auto simp: find_None_iff tx_exists_def list_ex_iff)
  then show ?thesis using assms(2,3) by (simp add: find_tx_def find_append)
qed

lemma insertTransactionTx_new: "insertTransactionTx tn t d = Inr d1 \<Longrightarrow> \<not> tx_exists (t_ID t) d"
  by (auto simp: insertTransactionTx_def insert_tx_Inr bindE_Inr_iff)

text \<open>
  C6. A reversal undoes its original: it mirrors the recorded postings of the original, takes their
  effect off the posted balance of every account and asset, records itself as a posted transaction that
  reverses the original, and marks the original as reversed by it.
\<close>

theorem reversal_undoes:
  assumes "ledger_step\<^sup>*\<^sup>* empty_db d" and "ReverseTransaction env dl dr tn i key reason d = (Inr (rv, False), d')"
  shows "list_all2 mirrored (loadPostings tn d [i] i) (t_Postings rv)
    \<and> net_posted d' acc asset NormalDebit = net_posted d acc asset NormalDebit - signed_effect (loadPostings tn d [i] i) acc asset
    \<and> find_tx tn i d' = map_option (set_reversed (t_ID rv)) (find_tx tn i d)
    \<and> map_option (\<lambda>t. (t_Status t, t_ReversesID t)) (find_tx tn (t_ID rv) d') = Some (TransactionPosted, Some i)"
proof -
  have inv: "ledger_inv d" by (rule ledger.reachable [OF assms(1)])
  then have so: "struct_ok d" by (simp add: ledger_inv_def)
  from assms(2) inv show ?thesis
  proof (cases rule: ReverseTransaction_fresh)
    case (1 t0 d1 d2 d3)
    have acc: "account_in d tn (t_LedgerID rv) (p_AccountID q)" if "q \<in> set (t_Postings rv)" for q
      using reversal_accounts [OF so 1(1,3) that] by (simp add: 1(7))
    note eff = insertTransactionTx_effect [OF inv_session [OF inv] 1(8) acc]
    have tacc: "tenant_account d1 tn (p_AccountID p)" if "p \<in> set (t_Postings rv)" for p
      using acc [OF that] account_in_tenant tenant_account_frame [OF eff(5)] by auto
    have s2: "session tn d d2" by (rule session_apply_posted [OF eff(1) 1(9) tacc])
    have ot: "other_tables d2 = other_tables d1" using 1(9) posted_frame.batch unfolding applyBalances_def by blast
    have valid: "list_all (\<lambda>p. Direction_Valid (p_Direction p)) (t_Postings rv)" using eff(11) by (simp add: list_all_iff)
    have st: "stored d2 k = stored d k + (\<Sum>p\<leftarrow>t_Postings rv. contrib True p k)" for k
      using posted.batch [OF 1(9) [unfolded applyBalances_def], of k] eff(11) by (simp add: eff(2))
    have t2: "db_transactions d2 = db_transactions d @ [tx_row rv]" using eff(8) other_tables_eqD(3) [OF ot] by simp
    then have f2: "find_tx tn i d2 = Some t0" by (rule find_tx_append [OF 1(1)])
    note u = update_tx_Some(1) [OF 1(10) f2]
    have new: "\<not> tx_exists (t_ID (tx_row rv)) d" using insertTransactionTx_new [OF 1(8)] by simp
    have t0: "t_ID t0 = i" "t_ID rv \<noteq> i"
      using 1(1) new by (auto simp: find_tx_def tx_exists_def list_ex_iff dest!: find_Some_filter)
    have row: "find_tx tn j d' = map_option (\<lambda>t. if t_ID t = i then set_reversed (t_ID rv) t else t) (find_tx tn j d2)" for j
      by (rule find_tx_set_reversed) (use 1(11) u in simp)
    have dv: "list_all (\<lambda>p. Direction_Valid (p_Direction p)) (loadPostings tn d [i] i)"
      unfolding list_all_iff using loadPostings_valid [OF so 1(1)] by blast
    have "net_posted d' acc asset NormalDebit = net_posted d acc asset NormalDebit + signed_effect (t_Postings rv) acc asset"
    proof -
      have "stored d' k = stored d2 k" for k using stored_same [of d' d2] 1(12) u by simp
      then show ?thesis
        using signed_effect_contrib [OF valid, of acc asset] unfolding net_posted_def by (simp add: st del: stored.simps)
    qed
    moreover have "find_tx tn i d' = Some (set_reversed (t_ID rv) t0)"
      using f2 t0(1) by (simp add: row)
    moreover have "find_tx tn (t_ID rv) d2 = Some (tx_row rv)"
      using find_tx_new [OF new t2] eff(7) by simp
    then have "map_option (\<lambda>t. (t_Status t, t_ReversesID t)) (find_tx tn (t_ID rv) d') = Some (TransactionPosted, Some i)"
      using 1(5,6) t0(2) by (simp add: row)
    ultimately show ?thesis using 1(1,3) signed_effect_mirrored [OF 1(3) dv, of acc asset] by simp
  qed
qed

theorem reversal_undoes_witness:
  "net_posted (snd (ReverseTransaction (sample_env 900) empty_db empty_db 1 400 '''' '''' sample_posted_db)) 200 ''USD'' NormalDebit
     = net_posted sample_posted_db 200 ''USD'' NormalDebit - signed_effect (loadPostings 1 sample_posted_db [400] 400) 200 ''USD''"
proof -
  let ?c = "ReverseTransaction (sample_env 900) empty_db empty_db 1 400 '''' '''' sample_posted_db"
  have "\<not> isl (fst ?c) \<and> \<not> snd (projr (fst ?c))" by code_simp
  note c = fresh_result [OF this]
  show ?thesis using reversal_undoes [OF sample_reachable(2) c] by blast
qed

text \<open>
  Settled states are final: for a request of a tenant, posting a posted transaction returns it and
  changes nothing, posting a reversed one is refused with \<open>ErrInvalidState\<close>, capturing the whole of or releasing a hold that is not active is refused with
  \<open>ErrInvalidState\<close>, and an unknown transaction or hold is reported as \<open>ErrNotFound\<close>; none of these
  requests changes the database.
\<close>

theorem settled_states_final:
  assumes "ledger_step\<^sup>*\<^sup>* empty_db d" and "tn \<noteq> uuid_Nil"
  shows "(case find_tx tn i d of
      None \<Rightarrow> PostTransaction env tn i d = (Inl ErrNotFound, d)
    | Some t \<Rightarrow>
        if t_Status t = TransactionPosted then PostTransaction env tn i d = (Inr (t\<lparr>t_Postings := loadPostings tn d [i] i\<rparr>), d)
        else t_Status t = TransactionReversed \<longrightarrow> PostTransaction env tn i d = (Inl ErrInvalidState, d))
    \<and> (case find_hold tn j d of
      None \<Rightarrow> ReleaseHold env tn j d = (Inl ErrNotFound, d) \<and> CaptureHold env tn j None x d = (Inl ErrNotFound, d)
    | Some r \<Rightarrow> h_Status (hr_hold r) \<noteq> HoldActive \<longrightarrow>
        ReleaseHold env tn j d = (Inl ErrInvalidState, d) \<and> CaptureHold env tn j None x d = (Inl ErrInvalidState, d))"
proof -
  have "db_deferred d = []" using ledger.reachable [OF assms(1)] by (simp add: ledger_inv_def)
  note inl = WithTenantTx_Inl [OF assms(2) this] and same = WithTenantTx_unchanged [OF assms(2) this]
  show ?thesis
    by (auto simp: PostTransaction_def store_PostTransaction_def ReleaseHold_def store_ReleaseHold_def CaptureHold_def store_CaptureHold_def
        loadTransactionTx_def getHoldTx_def map_res_def mapErr_def inl same split: option.splits)
qed

theorem settled_states_final_witness:
  "ReleaseHold (sample_env 900) 1 999 sample_db = (Inl ErrNotFound, sample_db)
   \<and> (\<exists>t. PostTransaction (sample_env 900) 1 400 sample_db = (Inr t, sample_db))"
proof -
  have n: "(1::uuid) \<noteq> uuid_Nil" by simp
  have "find_hold 1 999 sample_db = None" by code_simp
  moreover have "map_option t_Status (find_tx 1 400 sample_db) = Some TransactionPosted" by code_simp
  ultimately show ?thesis
    using settled_states_final [OF sample_reachable(3) n, where i = 400 and env = "sample_env 900" and j = 999 and x = None] by (auto split: option.splits)
qed

end
