(* ===== verification/Webhook_Domain.thy ===== *)
theory Webhook_Domain
  imports Events Pagination Text
begin

text \<open>
  The pure model of the webhooks service, \<open>services/webhooks/internal/domain/domain.go\<close>: event-type
  lists, endpoint validation, signing secrets, the retry policy and the entities. \<open>url.Parse\<close> (as the
  host and scheme of a well-formed URL) and the random source (\<open>crypto/rand\<close>, as a stream of indexes
  that may fail) are parameters.
\<close>

section \<open>Event types\<close>

text \<open>The errors of the service: its sentinels, and what the database and the cipher report.\<close>

datatype keycrypt_error = ErrNoMasterKey | ErrNoCipher | ErrNonce | ErrMalformedBlob | ErrDecryption | ErrMasterKey

datatype webhook_error = WErrNotFound | WErrConflict | ValidationError | ErrSecret | InvalidJSON | InvalidText | CipherError keycrypt_error | DbError error

definition Wildcard :: string where
  "Wildcard = ''*''"

definition KnownEventTypes :: "string list" where
  "KnownEventTypes = [''ledger.transaction.posted'', ''ledger.transaction.reversed'', ''ledger.hold.created'',
     ''ledger.hold.captured'', ''ledger.hold.released'', ''recon.discrepancy.detected'']"

fun Matches :: "string list \<Rightarrow> string \<Rightarrow> bool" where
  "Matches [] eventType = False"
| "Matches (t # ts) eventType = (if t = Wildcard \<or> t = eventType then True else Matches ts eventType)"

fun known_types :: "string list \<Rightarrow> webhook_error + unit" where
  "known_types [] = Inr ()"
| "known_types (t # ts) = (if t = Wildcard then known_types ts
     else if t \<notin> set KnownEventTypes then Inl ValidationError else known_types ts)"

definition ValidateEventTypes :: "string list \<Rightarrow> webhook_error + unit" where
  "ValidateEventTypes eventTypes = (if eventTypes = [] then Inl ValidationError else known_types eventTypes)"

fun normalize_types :: "string list \<Rightarrow> string list \<Rightarrow> string list" where
  "normalize_types seen [] = []"
| "normalize_types seen (t # ts) = (if t \<in> set seen then normalize_types seen ts else t # normalize_types (t # seen) ts)"

definition NormalizeEventTypes :: "string list \<Rightarrow> string list" where
  "NormalizeEventTypes eventTypes = normalize_types [] eventTypes"

section \<open>Endpoints\<close>

text \<open>\<open>parse raw\<close> is \<open>url.Parse\<close>: the host and the scheme (lower case) of the URL, or an error.\<close>

definition ValidateEndpointURL :: "(string \<Rightarrow> (string \<times> string) option) \<Rightarrow> string \<Rightarrow> bool \<Rightarrow> webhook_error + unit" where
  "ValidateEndpointURL parse raw requireHTTPS = (case parse raw of
     None \<Rightarrow> Inl ValidationError
   | Some (host, scheme) \<Rightarrow>
       if host = '''' then Inl ValidationError
       else if scheme = ''https'' then Inr ()
       else if scheme = ''http'' then (if requireHTTPS then Inl ValidationError else Inr ())
       else Inl ValidationError)"

section \<open>Secrets\<close>

definition SecretPrefix :: string where
  "SecretPrefix = ''lcwh_''"

abbreviation Second :: int where
  "Second \<equiv> 10 ^ 9"

definition RotationGrace :: int where
  "RotationGrace = 24 * 3600 * Second"

definition secretAlphabet :: string where
  "secretAlphabet = ''0123456789ABCDEFGHIJKLMNOPQRSTUVWXYZabcdefghijklmnopqrstuvwxyz''"

definition secretLength :: nat where
  "secretLength = 32"

text \<open>\<open>rand i\<close> is the \<open>i\<close>-th draw of \<open>rand.Int\<close> below the alphabet size, \<^const>\<open>None\<close> when the source fails.\<close>

fun draw_secret :: "(nat \<Rightarrow> nat option) \<Rightarrow> nat \<Rightarrow> nat \<Rightarrow> webhook_error + string" where
  "draw_secret rand i 0 = Inr ''''"
| "draw_secret rand i (Suc k) = (case rand i of
     None \<Rightarrow> Inl ErrSecret
   | Some n \<Rightarrow> bindE (draw_secret rand (Suc i) k) (\<lambda>s. Inr (secretAlphabet ! n # s)))"

definition NewSecret :: "(nat \<Rightarrow> nat option) \<Rightarrow> webhook_error + string" where
  "NewSecret rand = bindE (draw_secret rand 0 secretLength) (\<lambda>s. Inr (SecretPrefix @ s))"

section \<open>Retry policy\<close>

definition MaxAttempts :: int where
  "MaxAttempts = 5"

definition backoffSchedule :: "int list" where
  "backoffSchedule = [60 * Second, 5 * 60 * Second, 30 * 60 * Second, 2 * 3600 * Second, 12 * 3600 * Second]"

definition Backoff :: "int \<Rightarrow> int" where
  "Backoff attempts =
     (let a = (if attempts < 1 then 1 else attempts);
          b = (if a > int (length backoffSchedule) then int (length backoffSchedule) else a)
      in backoffSchedule ! nat (b - 1))"

definition IsDead :: "int \<Rightarrow> bool" where
  "IsDead attempts \<longleftrightarrow> attempts \<ge> MaxAttempts"

section \<open>Deliveries and subscriptions\<close>

definition StatusPending :: string where "StatusPending = ''pending''"

definition StatusDelivered :: string where "StatusDelivered = ''delivered''"

definition StatusFailed :: string where "StatusFailed = ''failed''"

definition StatusDead :: string where "StatusDead = ''dead''"

definition ValidStatus :: "string \<Rightarrow> bool" where
  "ValidStatus s \<longleftrightarrow> s \<in> {StatusPending, StatusDelivered, StatusFailed, StatusDead}"

record Subscription =
  sub_ID :: uuid
  sub_TenantID :: uuid
  sub_URL :: string
  sub_Secret :: string
  sub_EventTypes :: "string list"
  sub_Active :: bool
  sub_CreatedAt :: timestamp
  sub_PreviousSecret :: "string option"
  sub_PreviousSecretExpiresAt :: "timestamp option"

definition signingSecrets :: "string \<Rightarrow> string option \<Rightarrow> timestamp option \<Rightarrow> timestamp \<Rightarrow> string list" where
  "signingSecrets secret prev prevExpires now = secret #
     (case (prev, prevExpires) of (Some p, Some e) \<Rightarrow> if p \<noteq> '''' \<and> now < e then [p] else [] | _ \<Rightarrow> [])"

definition SigningSecrets :: "Subscription \<Rightarrow> timestamp \<Rightarrow> string list" where
  "SigningSecrets s now = signingSecrets (sub_Secret s) (sub_PreviousSecret s) (sub_PreviousSecretExpiresAt s) now"

record Delivery =
  del_ID :: uuid
  del_TenantID :: uuid
  del_SubscriptionID :: uuid
  del_EventID :: uuid
  del_EventType :: string
  del_Payload :: string
  del_Status :: string
  del_Attempts :: int
  del_NextAttemptAt :: timestamp
  del_LastStatusCode :: "int option"
  del_LastError :: "string option"
  del_CreatedAt :: timestamp
  del_DeliveredAt :: "timestamp option"

record ClaimedDelivery =
  cd_ID :: uuid
  cd_TenantID :: uuid
  cd_SubscriptionID :: uuid
  cd_EventID :: uuid
  cd_EventType :: string
  cd_Payload :: string
  cd_Attempts :: int
  cd_URL :: string
  cd_Secret :: string
  cd_PreviousSecret :: "string option"
  cd_PreviousSecretExpiresAt :: "timestamp option"

definition claimed_SigningSecrets :: "ClaimedDelivery \<Rightarrow> timestamp \<Rightarrow> string list" where
  "claimed_SigningSecrets c now = signingSecrets (cd_Secret c) (cd_PreviousSecret c) (cd_PreviousSecretExpiresAt c) now"

section \<open>Lemmas\<close>

lemma Matches_iff: "Matches ts ev \<longleftrightarrow> Wildcard \<in> set ts \<or> ev \<in> set ts"
  by (induction ts) auto

lemma known_types_iff: "known_types ts = Inr () \<longleftrightarrow> set ts \<subseteq> insert Wildcard (set KnownEventTypes)"
  by (induction ts) auto

lemma normalize_types_set: "set (normalize_types seen ts) = set ts - set seen"
  by (induction seen ts rule: normalize_types.induct) auto

lemma normalize_types_distinct: "distinct (normalize_types seen ts)"
  by (induction seen ts rule: normalize_types.induct) (auto simp: normalize_types_set)

lemma NormalizeEventTypes_props [simp]:
  "set (NormalizeEventTypes ts) = set ts" "distinct (NormalizeEventTypes ts)"
  "Matches (NormalizeEventTypes ts) ev = Matches ts ev"
  by (simp_all add: NormalizeEventTypes_def normalize_types_set normalize_types_distinct Matches_iff)

text \<open>The known topics are the topics the ledger and the reconciliation service publish.\<close>

lemma KnownEventTypes_topics:
  "KnownEventTypes = [TopicTransactionPosted, TopicTransactionReversed, TopicHoldCreated, TopicHoldCaptured,
     TopicHoldReleased, TopicDiscrepancyDetected]"
  by (simp add: KnownEventTypes_def TopicTransactionPosted_def TopicTransactionReversed_def TopicHoldCreated_def
      TopicHoldCaptured_def TopicHoldReleased_def TopicDiscrepancyDetected_def)

lemma Backoff_cases:
  "Backoff n \<in> set backoffSchedule" "60 * Second \<le> Backoff n"
  "\<not> IsDead n \<Longrightarrow> Backoff n \<le> 2 * 3600 * Second"
proof -
  consider "n \<le> 1" | "n = 2" | "n = 3" | "n = 4" | "5 \<le> n" by linarith
  then have "Backoff n \<in> set backoffSchedule \<and> 60 * Second \<le> Backoff n \<and> (\<not> IsDead n \<longrightarrow> Backoff n \<le> 2 * 3600 * Second)"
    by cases (auto simp: Backoff_def backoffSchedule_def IsDead_def MaxAttempts_def Let_def numeral_eq_Suc)
  then show "Backoff n \<in> set backoffSchedule" "60 * Second \<le> Backoff n" "\<not> IsDead n \<Longrightarrow> Backoff n \<le> 2 * 3600 * Second"
    by blast+
qed

lemma draw_secret_length: "draw_secret rand i k = Inr s \<Longrightarrow> length s = k"
  by (induction k arbitrary: i s) (auto simp: bindE_Inr_iff split: option.splits)

lemma NewSecret_shape: "NewSecret rand = Inr s \<Longrightarrow> length s = 37 \<and> take 5 s = SecretPrefix"
  by (auto simp: NewSecret_def bindE_Inr_iff SecretPrefix_def secretLength_def dest!: draw_secret_length)

end
