(* ===== verification/Webhook_Signature.thy ===== *)
theory Webhook_Signature
  imports Webhook_Domain
begin

text \<open>
  The signing scheme of the webhooks, \<open>services/webhooks/internal/signature/signature.go\<close>, and the
  encryption of the stored secrets, \<open>services/webhooks/internal/keycrypt/keycrypt.go\<close>. HMAC-SHA256 is a
  parameter \<open>hmac\<close> (key, message), and every statement holds for any such function; the AES-GCM cipher is
  a parameter of which only its documented law is used: \<open>Open\<close> undoes \<open>Seal\<close> under the same nonce and data.
  Hexadecimal and padded base64 are written out. Text is bytes, trimmed of ASCII space.
\<close>

section \<open>Hexadecimal\<close>

definition hex_digit :: "nat \<Rightarrow> char" where
  "hex_digit n = (if n < 10 then char_of (48 + n) else char_of (87 + n))"

definition hex_val :: "char \<Rightarrow> nat option" where
  "hex_val c = (let n = of_char c :: nat in
     if 48 \<le> n \<and> n \<le> 57 then Some (n - 48) else if 97 \<le> n \<and> n \<le> 102 then Some (n - 87)
     else if 65 \<le> n \<and> n \<le> 70 then Some (n - 55) else None)"

definition hex_encode :: "string \<Rightarrow> string" where
  "hex_encode s = concat (map (\<lambda>c. let n = of_char c :: nat in [hex_digit (n div 16), hex_digit (n mod 16)]) s)"

fun hex_decode :: "string \<Rightarrow> string option" where
  "hex_decode [] = Some []"
| "hex_decode [c] = None"
| "hex_decode (c # d # r) = (case (hex_val c, hex_val d) of
     (Some a, Some b) \<Rightarrow> map_option (\<lambda>s. char_of (a * 16 + b) # s) (hex_decode r)
   | _ \<Rightarrow> None)"

section \<open>Signing\<close>

definition mac :: "(string \<Rightarrow> string \<Rightarrow> string) \<Rightarrow> string \<Rightarrow> int64 \<Rightarrow> string \<Rightarrow> string" where
  "mac hmac secret t body = hmac secret (show_int (sint t) @ ''.'' @ body)"

definition Sign :: "(string \<Rightarrow> string \<Rightarrow> string) \<Rightarrow> string \<Rightarrow> int64 \<Rightarrow> string \<Rightarrow> string" where
  "Sign hmac secret t body = hex_encode (mac hmac secret t body)"

definition SchemeV1 :: string where
  "SchemeV1 = ''v1''"

definition HeaderMulti :: "(string \<Rightarrow> string \<Rightarrow> string) \<Rightarrow> string list \<Rightarrow> int64 \<Rightarrow> string \<Rightarrow> string" where
  "HeaderMulti hmac secrets t body =
     ''t='' @ show_int (sint t) @ concat (map (\<lambda>s. '','' @ SchemeV1 @ ''='' @ Sign hmac s t body) secrets)"

definition Header :: "(string \<Rightarrow> string \<Rightarrow> string) \<Rightarrow> string \<Rightarrow> int64 \<Rightarrow> string \<Rightarrow> string" where
  "Header hmac secret t body = HeaderMulti hmac [secret] t body"

section \<open>Verification\<close>

datatype signature_error = ErrInvalidHeader | ErrTimestampTooOld | ErrSignatureMismatch

fun parse_parts :: "int64 option \<Rightarrow> string list \<Rightarrow> string list \<Rightarrow> signature_error + int64 option \<times> string list" where
  "parse_parts ts candidates [] = Inr (ts, candidates)"
| "parse_parts ts candidates (part # parts) = (case cut_at (CHR ''='') (TrimSpace part) of
     None \<Rightarrow> Inl ErrInvalidHeader
   | Some (key, value) \<Rightarrow>
       if key = ''t'' then (case ParseInt value of None \<Rightarrow> Inl ErrInvalidHeader | Some x \<Rightarrow> parse_parts (Some x) candidates parts)
       else if key = SchemeV1 then parse_parts ts (candidates @ [value]) parts
       else parse_parts ts candidates parts)"

definition parseHeader :: "string \<Rightarrow> signature_error + int64 \<times> string list" where
  "parseHeader header = bindE (parse_parts None [] (split_on (CHR '','') header)) (\<lambda>(ts, candidates).
     case ts of None \<Rightarrow> Inl ErrInvalidHeader
     | Some t \<Rightarrow> if candidates = [] then Inl ErrInvalidHeader else Inr (t, candidates))"

text \<open>
  \<open>time.Unix(ts, 0)\<close>: the seconds are kept from year 1 in an \<open>int64\<close>, so the largest timestamps wrap.
  \<open>Time.Sub\<close> saturates at the bounds of \<open>Duration\<close>.
\<close>

definition unix_instant :: "int64 \<Rightarrow> timestamp" where
  "unix_instant ts = (sint (ts + 62135596800) - 62135596800) * Second"

definition time_Sub :: "timestamp \<Rightarrow> timestamp \<Rightarrow> int64" where
  "time_Sub t u = (if fits64 (t - u) then word_of_int (t - u)
     else if t < u then word_of_int MinInt64 else word_of_int MaxInt64)"

fun any_match :: "string \<Rightarrow> string list \<Rightarrow> bool" where
  "any_match expected [] = False"
| "any_match expected (c # cs) = (case hex_decode c of
     None \<Rightarrow> any_match expected cs
   | Some raw \<Rightarrow> if raw = expected then True else any_match expected cs)"

definition VerifyAt ::
  "(string \<Rightarrow> string \<Rightarrow> string) \<Rightarrow> string \<Rightarrow> string \<Rightarrow> string \<Rightarrow> timestamp \<Rightarrow> int64 \<Rightarrow> signature_error + unit" where
  "VerifyAt hmac secret header body now tolerance =
     bindE (parseHeader header) (\<lambda>(ts, candidates).
       let diff = time_Sub now (unix_instant ts);
           diff' = (if sint diff < 0 then - diff else diff)
       in if 0 < sint tolerance \<and> sint tolerance < sint diff' then Inl ErrTimestampTooOld
          else if any_match (mac hmac secret ts body) candidates then Inr () else Inl ErrSignatureMismatch)"

definition DefaultTolerance :: int64 where
  "DefaultTolerance = word_of_int (5 * 60 * Second)"

section \<open>Encryption of secrets at rest\<close>

text \<open>The AEAD: its nonce size, \<open>Seal nonce plaintext data\<close> and \<open>Open nonce ciphertext data\<close>.\<close>

record Cipher =
  cph_NonceSize :: nat
  cph_Seal :: "string \<Rightarrow> string \<Rightarrow> string \<Rightarrow> string"
  cph_Open :: "string \<Rightarrow> string \<Rightarrow> string \<Rightarrow> string option"

definition key_prefix :: string where
  "key_prefix = ''enc:v1:''"

text \<open>\<open>base64.StdEncoding\<close>: the standard alphabet, padded to a multiple of four characters.\<close>

definition to_std :: "char \<Rightarrow> char" where
  "to_std c = (if c = CHR ''-'' then CHR ''+'' else if c = CHR ''_'' then CHR ''/'' else c)"

definition from_std :: "char \<Rightarrow> char" where
  "from_std c = (if c = CHR ''+'' then CHR ''-'' else if c = CHR ''/'' then CHR ''_''
     else if c = CHR ''-'' \<or> c = CHR ''_'' then CHR ''='' else c)"

definition std_encode :: "string \<Rightarrow> string" where
  "std_encode s = (let e = map to_std (b64_encode s) in e @ replicate ((4 - length e mod 4) mod 4) (CHR ''=''))"

definition std_decode :: "string \<Rightarrow> string option" where
  "std_decode s =
     (let t = filter (\<lambda>c. c \<noteq> CHR 0x0A \<and> c \<noteq> CHR 0x0D) s; e = takeWhile (\<lambda>c. c \<noteq> CHR ''='') t in
      if length t mod 4 = 0 \<and> drop (length e) t = replicate ((4 - length e mod 4) mod 4) (CHR ''='')
      then b64_decode (map from_std e) else None)"

definition NewCipher :: "(string \<Rightarrow> Cipher) \<Rightarrow> string \<Rightarrow> keycrypt_error + Cipher" where
  "NewCipher aes_gcm hexKey = (case hex_decode (TrimSpace hexKey) of
     None \<Rightarrow> Inl ErrMasterKey
   | Some raw \<Rightarrow> if length raw \<noteq> 32 then Inl ErrMasterKey else Inr (aes_gcm raw))"

definition IsEncrypted :: "string \<Rightarrow> bool" where
  "IsEncrypted stored \<longleftrightarrow> take (length key_prefix) stored = key_prefix"

text \<open>\<open>nonce\<close> is what \<open>rand.Read\<close> filled in, \<^const>\<open>None\<close> when it failed.\<close>

definition Encrypt :: "Cipher option \<Rightarrow> string option \<Rightarrow> string \<Rightarrow> string \<Rightarrow> keycrypt_error + string" where
  "Encrypt c nonce plaintext aad = (case c of
     None \<Rightarrow> Inl ErrNoCipher
   | Some a \<Rightarrow> (case nonce of
       None \<Rightarrow> Inl ErrNonce
     | Some n \<Rightarrow> Inr (key_prefix @ std_encode (n @ cph_Seal a n plaintext aad))))"

definition Decrypt :: "Cipher option \<Rightarrow> string \<Rightarrow> string \<Rightarrow> keycrypt_error + string" where
  "Decrypt c stored aad =
     (if \<not> IsEncrypted stored then Inr stored
      else case c of
        None \<Rightarrow> Inl ErrNoMasterKey
      | Some a \<Rightarrow>
        (case std_decode (drop (length key_prefix) stored) of
           None \<Rightarrow> Inl ErrMalformedBlob
         | Some raw \<Rightarrow>
             if length raw < cph_NonceSize a then Inl ErrMalformedBlob
             else (case cph_Open a (take (cph_NonceSize a) raw) (drop (cph_NonceSize a) raw) aad of
                     None \<Rightarrow> Inl ErrDecryption
                   | Some plain \<Rightarrow> Inr plain)))"

section \<open>Encodings\<close>

lemma hex_val_digit: "n < 16 \<Longrightarrow> hex_val (hex_digit n) = Some n"
  by (auto simp: hex_digit_def hex_val_def Let_def)

lemma hex_encode_Cons:
  "hex_encode (c # s) = hex_digit (of_char c div 16) # hex_digit (of_char c mod 16) # hex_encode s"
  by (simp add: hex_encode_def Let_def)

lemma hex_roundtrip [simp]: "hex_decode (hex_encode s) = Some s"
proof (induction s)
  case (Cons c s)
  have "of_char c div 16 < (16 :: nat)" using nat_of_char_less_256 [of c] by (simp add: less_mult_imp_div_less)
  then show ?case using Cons by (simp add: hex_encode_Cons hex_val_digit)
qed (simp add: hex_encode_def)

lemma hex_encode_chars: "c \<in> set (hex_encode s) \<Longrightarrow> hex_val c \<noteq> None"
proof (induction s)
  case (Cons x s)
  have "of_char x div 16 < (16 :: nat)" using nat_of_char_less_256 [of x] by (simp add: less_mult_imp_div_less)
  then show ?case using Cons by (auto simp: hex_encode_Cons hex_val_digit)
qed (simp add: hex_encode_def)

section \<open>Headers\<close>

lemma split_on_append: "sep \<notin> set p \<Longrightarrow> split_on sep (p @ sep # q) = p # split_on sep q"
  by (induction p) auto

lemma split_on_none: "sep \<notin> set p \<Longrightarrow> split_on sep p = [p]"
  by (induction p) auto

lemma split_on_parts:
  "list_all (\<lambda>p. sep \<notin> set p) (p # ps) \<Longrightarrow> split_on sep (p @ concat (map (\<lambda>q. sep # q) ps)) = p # ps"
  by (induction ps arbitrary: p) (auto simp: split_on_append split_on_none)

lemma cut_at_append: "sep \<notin> set k \<Longrightarrow> cut_at sep (k @ sep # v) = Some (k, v)"
proof -
  assume "sep \<notin> set k"
  then have "takeWhile (\<lambda>c. c \<noteq> sep) (k @ sep # v) = k \<and> dropWhile (\<lambda>c. c \<noteq> sep) (k @ sep # v) = sep # v"
    by (induction k) auto
  then show ?thesis by (simp add: cut_at_def)
qed

lemma dropWhile_none: "list_all (\<lambda>c. \<not> P c) s \<Longrightarrow> dropWhile P s = s"
  by (cases s) auto

lemma TrimSpace_id: "list_all (\<lambda>c. \<not> is_space c) s \<Longrightarrow> TrimSpace s = s"
  by (simp add: TrimSpace_def dropWhile_none list_all_iff)

lemma plain_chars:
  "hex_val c \<noteq> None \<Longrightarrow> \<not> is_space c \<and> c \<noteq> CHR '','' \<and> c \<noteq> CHR ''=''"
  "is_digit c \<Longrightarrow> \<not> is_space c \<and> c \<noteq> CHR '','' \<and> c \<noteq> CHR ''=''"
  by (auto simp: hex_val_def is_space_def is_digit_code Let_def split: if_splits)

lemma show_int_plain: "c \<in> set (show_int i) \<Longrightarrow> \<not> is_space c \<and> c \<noteq> CHR '',''"
proof -
  assume "c \<in> set (show_int i)"
  then have "c = CHR ''-'' \<or> is_digit c" using show_nat_digits by (auto simp: show_int_def split: if_splits)
  then show ?thesis using plain_chars(2) by (elim disjE) (simp_all add: is_space_def Let_def)
qed

lemma signature_part:
  fixes hmac secret t body
  defines "v \<equiv> SchemeV1 @ ''='' @ Sign hmac secret t body"
  shows "TrimSpace v = v" "cut_at (CHR ''='') v = Some (SchemeV1, Sign hmac secret t body)" "CHR '','' \<notin> set v"
proof -
  have "c \<in> set (Sign hmac secret t body) \<Longrightarrow> \<not> is_space c \<and> c \<noteq> CHR '',''" for c
    using hex_encode_chars plain_chars(1) unfolding Sign_def by blast
  then show "TrimSpace v = v" "CHR '','' \<notin> set v"
    by (auto simp: v_def SchemeV1_def list_all_iff is_space_def Let_def intro!: TrimSpace_id)
  show "cut_at (CHR ''='') v = Some (SchemeV1, Sign hmac secret t body)"
    using cut_at_append [of "CHR ''=''" SchemeV1] by (simp add: v_def SchemeV1_def)
qed

lemma timestamp_part:
  "TrimSpace (''t='' @ show_int i) = ''t='' @ show_int i" "cut_at (CHR ''='') (''t='' @ show_int i) = Some (''t'', show_int i)"
  "CHR '','' \<notin> set (''t='' @ show_int i)"
proof -
  show "TrimSpace (''t='' @ show_int i) = ''t='' @ show_int i"
    using show_int_plain by (intro TrimSpace_id) (auto simp: list_all_iff is_space_def Let_def)
  show "cut_at (CHR ''='') (''t='' @ show_int i) = Some (''t'', show_int i)"
    using cut_at_append [of "CHR ''=''" "''t''"] by simp
  show "CHR '','' \<notin> set (''t='' @ show_int i)" using show_int_plain by auto
qed

lemma parse_signatures:
  "parse_parts ts cs (map (\<lambda>s. SchemeV1 @ CHR ''='' # Sign hmac s t body) secrets)
     = Inr (ts, cs @ map (\<lambda>s. Sign hmac s t body) secrets)"
proof (induction secrets arbitrary: cs)
  case (Cons s secrets)
  then show ?case using signature_part(1,2) [of hmac s t body] by (simp add: SchemeV1_def)
qed simp

lemma parse_HeaderMulti:
  assumes "secrets \<noteq> []"
  shows "parseHeader (HeaderMulti hmac secrets t body) = Inr (t, map (\<lambda>s. Sign hmac s t body) secrets)"
proof -
  let ?t = "''t='' @ show_int (sint t)" and ?v = "\<lambda>s. SchemeV1 @ ''='' @ Sign hmac s t body"
  have "split_on (CHR '','') (HeaderMulti hmac secrets t body) = ?t # map ?v secrets"
    using split_on_parts [of "CHR '',''" ?t "map ?v secrets"] timestamp_part(3) signature_part(3)
    by (simp add: HeaderMulti_def list_all_iff comp_def del: split_on.simps)
  then show ?thesis
    using assms timestamp_part(1,2) [of "sint t"] by (simp add: parseHeader_def parse_signatures del: split_on.simps)
qed

lemma any_match_iff: "any_match expected cs \<longleftrightarrow> (\<exists>c \<in> set cs. hex_decode c = Some expected)"
  by (induction cs) (auto split: option.splits)

text \<open>Whether a timestamp passes the check of the code, on differences that saturate at the bounds of \<open>Duration\<close>.\<close>

lemma time_Sub_value: "sint (time_Sub t u) = (if t - u < MinInt64 then MinInt64 else if MaxInt64 < t - u then MaxInt64 else t - u)"
  using sint_of_int64 [of MinInt64] sint_of_int64 [of MaxInt64] sint_of_int64 [of "t - u"]
  by (auto simp: time_Sub_def fits64_def)

lemma sint_minus: "sint (- w :: int64) = (if sint w = MinInt64 then MinInt64 else - sint w)"
proof (cases "sint w = MinInt64")
  case True
  then have "w = word_of_int MinInt64" by (metis int64_of_sint)
  then show ?thesis by simp
next
  case False
  then have "fits64 (- sint w)" using sint64_range [of w] by (simp add: fits64_def)
  then show ?thesis using False sint_of_int64 [of "- sint w"] by simp
qed

definition age_passes :: "timestamp \<Rightarrow> int64 \<Rightarrow> int64 \<Rightarrow> bool" where
  "age_passes now ts tolerance \<longleftrightarrow> sint tolerance \<le> 0
     \<or> (let d = now - unix_instant ts in d \<le> MinInt64 \<or> min \<bar>d\<bar> MaxInt64 \<le> sint tolerance)"

lemma VerifyAt_eq:
  "VerifyAt hmac secret header body now tolerance = bindE (parseHeader header) (\<lambda>(ts, cs).
     if \<not> age_passes now ts tolerance then Inl ErrTimestampTooOld
     else if \<exists>c \<in> set cs. hex_decode c = Some (mac hmac secret ts body) then Inr () else Inl ErrSignatureMismatch)"
proof -
  have "(let d = time_Sub now (unix_instant ts); d' = (if sint d < 0 then - d else d) in 0 < sint tolerance \<and> sint tolerance < sint d')
    \<longleftrightarrow> \<not> age_passes now ts tolerance" for ts
    using sint64_range [of tolerance]
    by (auto simp: age_passes_def Let_def time_Sub_value sint_minus del: notI)
  then show ?thesis
    by (auto simp: VerifyAt_def Let_def any_match_iff intro!: bindE_cong split: prod.splits)
qed

section \<open>Stored secrets\<close>

lemma b64_char_std:
  assumes "n < 64"
  shows "from_std (to_std (b64_char n)) = b64_char n" "to_std (b64_char n) \<noteq> CHR ''=''"
    "to_std (b64_char n) \<noteq> CHR 0x0A" "to_std (b64_char n) \<noteq> CHR 0x0D"
proof -
  have "of_char (b64_char n) \<in> {48..57} \<union> {65..90} \<union> {97..122} \<union> {45, 95 :: nat}"
    using assms by (auto simp: b64_char_def)
  then have "b64_char n \<notin> {CHR ''+'', CHR ''/'', CHR ''='', CHR 0x0A, CHR 0x0D}" by auto
  then show "from_std (to_std (b64_char n)) = b64_char n" "to_std (b64_char n) \<noteq> CHR ''=''"
    "to_std (b64_char n) \<noteq> CHR 0x0A" "to_std (b64_char n) \<noteq> CHR 0x0D"
    by (auto simp: from_std_def to_std_def)
qed

lemma std_roundtrip [simp]: "std_decode (std_encode s) = Some s"
proof -
  define e where "e = map to_std (b64_encode s)"
  define pad where "pad = replicate ((4 - length e mod 4) mod 4) (CHR ''='')"
  have n: "list_all (\<lambda>n. n < 64) (b64_sextets (map of_char s))"
    by (rule b64_sextets_small) (simp add: list_all_iff nat_of_char_less_256)
  then have e: "map from_std e = b64_encode s" "\<And>c. c \<in> set e \<Longrightarrow> c \<noteq> CHR ''='' \<and> c \<noteq> CHR 0x0A \<and> c \<noteq> CHR 0x0D"
    by (auto simp: e_def b64_encode_def list_all_iff b64_char_std)
  have "filter (\<lambda>c. c \<noteq> CHR 0x0A \<and> c \<noteq> CHR 0x0D) (e @ pad) = e @ pad"
    using e(2) by (auto simp: filter_id_conv pad_def)
  moreover have "takeWhile (\<lambda>c. c \<noteq> CHR ''='') (e @ pad) = e"
    using e(2) by (cases "(4 - length e mod 4) mod 4") (auto simp: takeWhile_append pad_def takeWhile_eq_all_conv)
  moreover have "length (e @ pad) mod 4 = 0"
    by (simp add: pad_def mod_add_right_eq) presburger
  ultimately show ?thesis
    by (simp add: std_decode_def std_encode_def Let_def e_def [symmetric] pad_def [symmetric] e(1) b64_roundtrip)
qed

text \<open>What the AEAD promises: opening what was sealed, under the same nonce and data, gives the plaintext.\<close>

definition aead_law :: "Cipher \<Rightarrow> bool" where
  "aead_law c \<longleftrightarrow> (\<forall>n p a. length n = cph_NonceSize c \<longrightarrow> cph_Open c n (cph_Seal c n p a) a = Some p)"

lemma Encrypt_Decrypt:
  assumes "aead_law c" and "length nonce = cph_NonceSize c" and "Encrypt (Some c) (Some nonce) p aad = Inr stored"
  shows "IsEncrypted stored" "Decrypt (Some c) stored aad = Inr p" "Decrypt None stored aad = Inl ErrNoMasterKey"
  using assms by (auto simp: Encrypt_def Decrypt_def IsEncrypted_def aead_law_def)

lemma NewSecret_plain: "NewSecret rand = Inr s \<Longrightarrow> \<not> IsEncrypted s \<and> s \<noteq> ''''"
  by (auto simp: NewSecret_def bindE_Inr_iff IsEncrypted_def key_prefix_def SecretPrefix_def)

section \<open>Properties\<close>

definition sample_hmac :: "string \<Rightarrow> string \<Rightarrow> string" where
  "sample_hmac key msg = key @ msg"

text \<open>
  What the check is for: a timestamp is fresh when it lies within the tolerance of the receiver's clock, on either
  side; a tolerance that is not positive turns the check off.
\<close>

definition fresh_at :: "timestamp \<Rightarrow> int64 \<Rightarrow> int64 \<Rightarrow> bool" where
  "fresh_at now ts tolerance \<longleftrightarrow> sint tolerance \<le> 0 \<or> \<bar>now - sint ts * Second\<bar> \<le> sint tolerance"

text \<open>
  Where the code lets more pass: the timestamp lies so far ahead of the clock (\<open>2\<^sup>6\<^sup>3\<close> nanoseconds, 292 years, or
  more) that the difference saturates at the smallest \<open>Duration\<close>, which negation leaves negative.
\<close>

definition saturates_ahead :: "timestamp \<Rightarrow> int64 \<Rightarrow> bool" where
  "saturates_ahead now ts \<longleftrightarrow> now + 2 ^ 63 \<le> sint ts * Second \<and> sint ts \<le> MaxInt64 - 62135596800"

lemma unix_instant_exact: "sint t \<le> MaxInt64 - 62135596800 \<Longrightarrow> unix_instant t = sint t * Second"
  using sint64_range [of t] int64_add_cases [of t "62135596800"] by (auto simp: unix_instant_def fits64_def)

lemma unix_instant_wrapped: "MaxInt64 - 62135596800 < sint t \<Longrightarrow> unix_instant t < - 62135596800 * Second"
  using sint64_range [of t] int64_add_cases [of t "62135596800"] by (auto simp: unix_instant_def fits64_def)

lemma age_passes_iff:
  assumes "0 \<le> now" and "now \<le> MaxInt64"
  shows "age_passes now ts tolerance \<longleftrightarrow> fresh_at now ts tolerance \<or> saturates_ahead now ts \<or> sint tolerance = MaxInt64"
proof (cases "sint ts \<le> MaxInt64 - 62135596800")
  case True
  then show ?thesis
    using sint64_range [of tolerance] by (auto simp: age_passes_def fresh_at_def saturates_ahead_def Let_def unix_instant_exact)
next
  case False
  then have "MaxInt64 < now - unix_instant ts" "\<not> \<bar>now - sint ts * Second\<bar> \<le> sint tolerance"
    using assms sint64_range [of ts] sint64_range [of tolerance] unix_instant_wrapped [of ts] by simp_all
  then show ?thesis
    using False sint64_range [of tolerance] by (auto simp: age_passes_def fresh_at_def saturates_ahead_def Let_def)
qed

text \<open>
  C32. Verification, exactly, for a receiver whose clock reads between 1970 and 2262: a header is accepted if and
  only if it parses to a timestamp and signatures of which one is the hexadecimal MAC, under the receiver's secret,
  of that timestamp and the received body, and the timestamp is fresh, that is, within the tolerance of the clock
  or the tolerance is not positive. Two further cases pass, which the comment of the code does not intend: a timestamp 292
  years or more ahead of the clock, and any timestamp under the largest tolerance there is.
\<close>

theorem VerifyAt_exact:
  assumes "0 \<le> now" and "now \<le> MaxInt64"
  shows "VerifyAt hmac secret header body now tolerance = Inr () \<longleftrightarrow>
     (\<exists>ts cs. parseHeader header = Inr (ts, cs)
        \<and> (fresh_at now ts tolerance \<or> saturates_ahead now ts \<or> sint tolerance = MaxInt64)
        \<and> (\<exists>c \<in> set cs. hex_decode c = Some (hmac secret (show_int (sint ts) @ ''.'' @ body))))"
  using age_passes_iff [OF assms] by (auto simp: VerifyAt_eq bindE_Inr_iff mac_def split: if_splits)

text \<open>A header of now, one of ten minutes ago, and one of three centuries ahead, at the default tolerance.\<close>

theorem VerifyAt_exact_witness:
  "VerifyAt sample_hmac ''k'' (Header sample_hmac ''k'' 1000 ''{}'') ''{}'' (1001 * Second) DefaultTolerance = Inr ()
   \<and> VerifyAt sample_hmac ''k'' (Header sample_hmac ''k'' 400 ''{}'') ''{}'' (1001 * Second) DefaultTolerance \<noteq> Inr ()
   \<and> VerifyAt sample_hmac ''k'' (Header sample_hmac ''k'' 20000000000 ''{}'') ''{}'' (1001 * Second) DefaultTolerance = Inr ()"
proof -
  have p: "parseHeader (Header hmac secret t body) = Inr (t, [Sign hmac secret t body])" for hmac secret t body
    by (simp add: Header_def parse_HeaderMulti)
  have n: "0 \<le> 1001 * Second" "1001 * Second \<le> MaxInt64" by simp_all
  show ?thesis
    unfolding VerifyAt_exact [OF n] p
    by (simp add: Sign_def mac_def fresh_at_def saturates_ahead_def DefaultTolerance_def sint_of_int64 fits64_def)
qed

lemma VerifyAt_signed:
  assumes "s \<in> set secrets" and "age_passes now t tolerance"
  shows "VerifyAt hmac s (HeaderMulti hmac secrets t body) body now tolerance = Inr ()"
proof -
  have "secrets \<noteq> []" using assms(1) by auto
  then show ?thesis
    using assms by (auto simp: VerifyAt_eq parse_HeaderMulti Sign_def)
qed

text \<open>
  Rotating a secret loses no delivery: a delivery signed at \<open>now\<close> with the signing secrets of its
  subscription verifies, within the tolerance of the receiver's clock, under the current secret and, until
  its expiry, under the previous one.
\<close>

theorem rotation_verifies:
  assumes "s = sub_Secret sub \<or> sub_PreviousSecret sub = Some s \<and> s \<noteq> '''' \<and> (\<exists>e. sub_PreviousSecretExpiresAt sub = Some e \<and> now < e)"
    and "sint t \<le> MaxInt64 - 62135596800" and "\<bar>arrival - sint t * Second\<bar> \<le> sint tolerance"
  shows "VerifyAt hmac s (HeaderMulti hmac (SigningSecrets sub now) t body) body arrival tolerance = Inr ()"
proof (rule VerifyAt_signed)
  show "s \<in> set (SigningSecrets sub now)" using assms(1) by (auto simp: SigningSecrets_def signingSecrets_def)
  show "age_passes arrival t tolerance" using assms(2,3) by (simp add: age_passes_def Let_def unix_instant_exact min_le_iff_disj)
qed

definition sample_rotated :: Subscription where
  "sample_rotated = \<lparr>sub_ID = 7, sub_TenantID = 1, sub_URL = ''https://a.example/hook'', sub_Secret = ''lcwh_new'', sub_EventTypes = [''*''],
     sub_Active = True, sub_CreatedAt = 0, sub_PreviousSecret = Some ''lcwh_old'', sub_PreviousSecretExpiresAt = Some (2000 * Second)\<rparr>"

theorem rotation_verifies_witness:
  "VerifyAt sample_hmac ''lcwh_old'' (HeaderMulti sample_hmac (SigningSecrets sample_rotated (1000 * Second)) 1000 ''{}'') ''{}''
     (1001 * Second) DefaultTolerance = Inr ()"
  by (rule rotation_verifies) (simp_all add: sample_rotated_def DefaultTolerance_def sint_of_int64 fits64_def)

text \<open>
  A timestamp too far in the future is not refused: when the signed timestamp lies more than the
  largest \<open>Duration\<close> (about 292 years) ahead of the receiver's clock, the difference saturates at the
  smallest \<open>Duration\<close>, whose negation is itself, and the header is accepted whatever the tolerance.
\<close>

theorem future_timestamp_accepted:
  assumes "now + 2 ^ 63 \<le> sint t * Second" and "sint t \<le> MaxInt64 - 62135596800"
  shows "VerifyAt hmac secret (Header hmac secret t body) body now tolerance = Inr ()"
  unfolding Header_def
  by (rule VerifyAt_signed) (use assms in \<open>simp_all add: age_passes_def Let_def unix_instant_exact\<close>)

theorem future_timestamp_accepted_witness:
  "VerifyAt sample_hmac ''lcwh_x'' (Header sample_hmac ''lcwh_x'' 20000000000 ''{}'') ''{}'' (1784000000 * Second) DefaultTolerance = Inr ()"
  by (rule future_timestamp_accepted) simp_all

end
