(* ===== verification/Webhook_Repo.thy ===== *)
theory Webhook_Repo
  imports Webhook_Signature
begin

text \<open>
  The storage of the webhooks service, \<open>services/webhooks/internal/adapters/postgres/repo.go\<close> over the
  tables and functions of its migrations, and the purge of a tenant (\<open>adapters/purge/purge.go\<close>). A row
  of \<open>subscriptions\<close> is a \<^typ>\<open>Subscription\<close> whose secrets are in their stored form. The tenant
  statements see the rows of their tenant; the maintenance functions (\<open>claim_due_deliveries\<close> and the
  sweeps) see every row. \<open>now\<close> is the clock of the database; \<open>us\<close> is \<open>uuid.UUID.String\<close>; \<open>jsonb\<close> is the
  normal form in which a \<open>JSONB\<close> column gives a document back, \<^const>\<open>None\<close> for text that is no JSON.
\<close>

record WebhookDb =
  wd_subs :: "Subscription list"
  wd_dels :: "Delivery list"

definition empty_webhooks :: WebhookDb where
  "empty_webhooks = \<lparr>wd_subs = [], wd_dels = []\<rparr>"

text \<open>\<open>pgxutil.WithTenantTx\<close> and \<open>WithSystemTx\<close>: an error of the body rolls back.\<close>

definition system_tx :: "(WebhookDb \<Rightarrow> webhook_error + 'a \<times> WebhookDb) \<Rightarrow> WebhookDb \<Rightarrow> (webhook_error + 'a) \<times> WebhookDb" where
  "system_tx fn d = (case fn d of Inl e \<Rightarrow> (Inl e, d) | Inr (x, d') \<Rightarrow> (Inr x, d'))"

definition tenant_tx ::
  "uuid \<Rightarrow> (WebhookDb \<Rightarrow> webhook_error + 'a \<times> WebhookDb) \<Rightarrow> WebhookDb \<Rightarrow> (webhook_error + 'a) \<times> WebhookDb" where
  "tenant_tx tenantID fn d = (if tenantID = uuid_Nil then (Inl (DbError ErrNilTenant), d) else system_tx fn d)"

section \<open>Secrets of rows\<close>

definition encryptSecret :: "Cipher option \<Rightarrow> string option \<Rightarrow> (uuid \<Rightarrow> string) \<Rightarrow> string \<Rightarrow> uuid \<Rightarrow> webhook_error + string" where
  "encryptSecret cph nonce us plaintext subID = (case cph of
     None \<Rightarrow> Inr plaintext
   | Some _ \<Rightarrow> if plaintext = '''' then Inr plaintext
       else (case Encrypt cph nonce plaintext (us subID) of Inl e \<Rightarrow> Inl (CipherError e) | Inr s \<Rightarrow> Inr s))"

definition decryptSecret :: "Cipher option \<Rightarrow> (uuid \<Rightarrow> string) \<Rightarrow> string \<Rightarrow> uuid \<Rightarrow> webhook_error + string" where
  "decryptSecret cph us stored subID =
     (if stored = '''' then Inr ''''
      else if \<not> IsEncrypted stored then Inr stored
      else case Decrypt cph stored (us subID) of Inl e \<Rightarrow> Inl (CipherError e) | Inr s \<Rightarrow> Inr s)"

definition decrypt_previous :: "Cipher option \<Rightarrow> (uuid \<Rightarrow> string) \<Rightarrow> string option \<Rightarrow> uuid \<Rightarrow> webhook_error + string option" where
  "decrypt_previous cph us prev subID = (case prev of
     None \<Rightarrow> Inr None
   | Some p \<Rightarrow> bindE (decryptSecret cph us p subID) (\<lambda>plain. Inr (Some plain)))"

definition scanSubscription :: "Cipher option \<Rightarrow> (uuid \<Rightarrow> string) \<Rightarrow> Subscription option \<Rightarrow> webhook_error + Subscription" where
  "scanSubscription cph us row = (case row of
     None \<Rightarrow> Inl WErrNotFound
   | Some s \<Rightarrow>
       bindE (decryptSecret cph us (sub_Secret s) (sub_ID s)) (\<lambda>secret.
       bindE (decrypt_previous cph us (sub_PreviousSecret s) (sub_ID s)) (\<lambda>prev.
       Inr (s\<lparr>sub_Secret := secret, sub_PreviousSecret := prev\<rparr>))))"

fun scan_all :: "('r \<Rightarrow> webhook_error + 'x) \<Rightarrow> 'r list \<Rightarrow> webhook_error + 'x list" where
  "scan_all scan [] = Inr []"
| "scan_all scan (r # rs) = bindE (scan r) (\<lambda>x. bindE (scan_all scan rs) (\<lambda>xs. Inr (x # xs)))"

section \<open>Subscriptions\<close>

definition find_sub :: "uuid \<Rightarrow> uuid \<Rightarrow> WebhookDb \<Rightarrow> Subscription option" where
  "find_sub tn i d = find (\<lambda>s. sub_ID s = i \<and> sub_TenantID s = tn) (wd_subs d)"

definition update_subs :: "(Subscription \<Rightarrow> bool) \<Rightarrow> (Subscription \<Rightarrow> Subscription) \<Rightarrow> WebhookDb \<Rightarrow> WebhookDb" where
  "update_subs P f d = d\<lparr>wd_subs := map (\<lambda>s. if P s then f s else s) (wd_subs d)\<rparr>"

definition insert_subscription :: "Subscription \<Rightarrow> WebhookDb \<Rightarrow> webhook_error + unit \<times> WebhookDb" where
  "insert_subscription sub d =
     (if list_ex (\<lambda>s. sub_ID s = sub_ID sub) (wd_subs d) then Inl (DbError (PgError UniqueViolation))
      else Inr ((), d\<lparr>wd_subs := wd_subs d @ [sub\<lparr>sub_PreviousSecret := None, sub_PreviousSecretExpiresAt := None\<rparr>]\<rparr>))"

definition repo_Create ::
  "Cipher option \<Rightarrow> string option \<Rightarrow> (uuid \<Rightarrow> string) \<Rightarrow> Subscription \<Rightarrow> WebhookDb \<Rightarrow> (webhook_error + unit) \<times> WebhookDb" where
  "repo_Create cph nonce us sub d = (case encryptSecret cph nonce us (sub_Secret sub) (sub_ID sub) of
     Inl e \<Rightarrow> (Inl e, d)
   | Inr secret \<Rightarrow> tenant_tx (sub_TenantID sub) (insert_subscription (sub\<lparr>sub_Secret := secret\<rparr>)) d)"

definition querySubscriptions ::
  "Cipher option \<Rightarrow> (uuid \<Rightarrow> string) \<Rightarrow> uuid \<Rightarrow> (Subscription list \<Rightarrow> Subscription list) \<Rightarrow> WebhookDb
     \<Rightarrow> (webhook_error + Subscription list) \<times> WebhookDb" where
  "querySubscriptions cph us tn query d = tenant_tx tn (\<lambda>d.
     bindE (scan_all (\<lambda>r. scanSubscription cph us (Some r)) (query (filter (\<lambda>s. sub_TenantID s = tn) (wd_subs d)))) (\<lambda>out. Inr (out, d))) d"

definition repo_List ::
  "Cipher option \<Rightarrow> (uuid \<Rightarrow> string) \<Rightarrow> uuid \<Rightarrow> nat \<Rightarrow> Cursor \<Rightarrow> WebhookDb \<Rightarrow> (webhook_error + Subscription list) \<times> WebhookDb" where
  "repo_List cph us tn limit cursor d =
     querySubscriptions cph us tn (keyset_page (\<lambda>s. (sub_CreatedAt s, sub_ID s)) cursor limit) d"

definition repo_ListActive :: "Cipher option \<Rightarrow> (uuid \<Rightarrow> string) \<Rightarrow> uuid \<Rightarrow> WebhookDb \<Rightarrow> (webhook_error + Subscription list) \<times> WebhookDb" where
  "repo_ListActive cph us tn d =
     querySubscriptions cph us tn (\<lambda>rows. sort_key (\<lambda>s. (sub_CreatedAt s, sub_ID s)) (filter sub_Active rows)) d"

definition repo_Get :: "Cipher option \<Rightarrow> (uuid \<Rightarrow> string) \<Rightarrow> uuid \<Rightarrow> uuid \<Rightarrow> WebhookDb \<Rightarrow> (webhook_error + Subscription) \<times> WebhookDb" where
  "repo_Get cph us tn i d = tenant_tx tn (\<lambda>d. bindE (scanSubscription cph us (find_sub tn i d)) (\<lambda>s. Inr (s, d))) d"

text \<open>The columns a patch sets; a patch that sets none only reads the row.\<close>

definition patch_columns :: "string option \<Rightarrow> string list option \<Rightarrow> bool option \<Rightarrow> Subscription \<Rightarrow> Subscription" where
  "patch_columns url eventTypes active s =
     s\<lparr>sub_URL := (case url of None \<Rightarrow> sub_URL s | Some u \<Rightarrow> u),
       sub_EventTypes := (case eventTypes of None \<Rightarrow> sub_EventTypes s | Some ts \<Rightarrow> ts),
       sub_Active := (case active of None \<Rightarrow> sub_Active s | Some b \<Rightarrow> b)\<rparr>"

definition repo_Update ::
  "Cipher option \<Rightarrow> (uuid \<Rightarrow> string) \<Rightarrow> uuid \<Rightarrow> uuid \<Rightarrow> string option \<Rightarrow> string list option \<Rightarrow> bool option \<Rightarrow> WebhookDb
     \<Rightarrow> (webhook_error + Subscription) \<times> WebhookDb" where
  "repo_Update cph us tn i url eventTypes active d = tenant_tx tn (\<lambda>d.
     if url = None \<and> eventTypes = None \<and> active = None
     then bindE (scanSubscription cph us (find_sub tn i d)) (\<lambda>s. Inr (s, d))
     else (let d' = update_subs (\<lambda>s. sub_ID s = i \<and> sub_TenantID s = tn) (patch_columns url eventTypes active) d
           in bindE (scanSubscription cph us (find_sub tn i d')) (\<lambda>s. Inr (s, d')))) d"

definition install_secret :: "string \<Rightarrow> timestamp \<Rightarrow> Subscription \<Rightarrow> Subscription" where
  "install_secret secret prevExpiresAt s =
     s\<lparr>sub_PreviousSecret := Some (sub_Secret s), sub_PreviousSecretExpiresAt := Some prevExpiresAt, sub_Secret := secret\<rparr>"

definition repo_RotateSecret ::
  "Cipher option \<Rightarrow> string option \<Rightarrow> (uuid \<Rightarrow> string) \<Rightarrow> uuid \<Rightarrow> uuid \<Rightarrow> string \<Rightarrow> timestamp \<Rightarrow> WebhookDb
     \<Rightarrow> (webhook_error + unit) \<times> WebhookDb" where
  "repo_RotateSecret cph nonce us tn i secret prevExpiresAt d = (case encryptSecret cph nonce us secret i of
     Inl e \<Rightarrow> (Inl e, d)
   | Inr enc \<Rightarrow> tenant_tx tn (\<lambda>d. case find_sub tn i d of
         None \<Rightarrow> Inl WErrNotFound
       | Some _ \<Rightarrow> Inr ((), update_subs (\<lambda>s. sub_ID s = i \<and> sub_TenantID s = tn) (install_secret enc prevExpiresAt) d)) d)"

text \<open>\<open>purge_expired_previous_secrets\<close> and its caller.\<close>

definition previous_expired :: "timestamp \<Rightarrow> Subscription \<Rightarrow> bool" where
  "previous_expired now s \<longleftrightarrow> sub_PreviousSecret s \<noteq> None
     \<and> (case sub_PreviousSecretExpiresAt s of None \<Rightarrow> False | Some e \<Rightarrow> e \<le> now)"

definition PurgeExpiredPreviousSecrets :: "timestamp \<Rightarrow> WebhookDb \<Rightarrow> (webhook_error + nat) \<times> WebhookDb" where
  "PurgeExpiredPreviousSecrets now d = system_tx (\<lambda>d.
     Inr (length (filter (previous_expired now) (wd_subs d)),
          update_subs (previous_expired now) (\<lambda>s. s\<lparr>sub_PreviousSecret := None, sub_PreviousSecretExpiresAt := None\<rparr>) d)) d"

text \<open>\<open>list_plaintext_secrets\<close>, \<open>set_encrypted_secret\<close> and the migration that uses them.\<close>

definition list_plaintext_secrets :: "WebhookDb \<Rightarrow> Subscription list" where
  "list_plaintext_secrets d = filter (\<lambda>s. \<not> IsEncrypted (sub_Secret s)
     \<or> (case sub_PreviousSecret s of None \<Rightarrow> False | Some p \<Rightarrow> \<not> IsEncrypted p)) (wd_subs d)"

definition set_encrypted_secret :: "uuid \<Rightarrow> string \<Rightarrow> string option \<Rightarrow> WebhookDb \<Rightarrow> WebhookDb" where
  "set_encrypted_secret i secret prev d =
     update_subs (\<lambda>s. sub_ID s = i) (\<lambda>s. s\<lparr>sub_Secret := secret, sub_PreviousSecret := prev\<rparr>) d"

definition seal :: "Cipher option \<Rightarrow> string option \<Rightarrow> string \<Rightarrow> string \<Rightarrow> webhook_error + string" where
  "seal cph nonce aad v = (if IsEncrypted v then Inr v
     else (case Encrypt cph nonce v aad of Inl e \<Rightarrow> Inl (CipherError e) | Inr s \<Rightarrow> Inr s))"

fun reencrypt_rows ::
  "Cipher option \<Rightarrow> (nat \<Rightarrow> string option) \<Rightarrow> (uuid \<Rightarrow> string) \<Rightarrow> nat \<Rightarrow> Subscription list \<Rightarrow> WebhookDb \<Rightarrow> webhook_error + nat \<times> WebhookDb" where
  "reencrypt_rows cph nonces us k [] d = Inr (0, d)"
| "reencrypt_rows cph nonces us k (p # ps) d =
     bindE (seal cph (nonces (2 * k)) (us (sub_ID p)) (sub_Secret p)) (\<lambda>secret.
     bindE (case sub_PreviousSecret p of None \<Rightarrow> Inr None
            | Some v \<Rightarrow> bindE (seal cph (nonces (2 * k + 1)) (us (sub_ID p)) v) (\<lambda>v'. Inr (Some v'))) (\<lambda>prev.
     bindE (reencrypt_rows cph nonces us (Suc k) ps (set_encrypted_secret (sub_ID p) secret prev d)) (\<lambda>(n, d').
     Inr (Suc n, d'))))"

text \<open>The rows are listed in \<open>dl\<close>, the database the first statement of the transaction sees.\<close>

definition ReencryptPlaintextSecrets ::
  "Cipher option \<Rightarrow> (nat \<Rightarrow> string option) \<Rightarrow> (uuid \<Rightarrow> string) \<Rightarrow> WebhookDb \<Rightarrow> WebhookDb \<Rightarrow> (webhook_error + nat) \<times> WebhookDb" where
  "ReencryptPlaintextSecrets cph nonces us dl d = (case cph of
     None \<Rightarrow> (Inr 0, d)
   | Some _ \<Rightarrow> system_tx (reencrypt_rows cph nonces us 0 (list_plaintext_secrets dl)) d)"

section \<open>Deliveries\<close>

definition find_del :: "uuid \<Rightarrow> uuid \<Rightarrow> WebhookDb \<Rightarrow> Delivery option" where
  "find_del tn i d = find (\<lambda>x. del_ID x = i \<and> del_TenantID x = tn) (wd_dels d)"

definition update_dels :: "(Delivery \<Rightarrow> bool) \<Rightarrow> (Delivery \<Rightarrow> Delivery) \<Rightarrow> WebhookDb \<Rightarrow> WebhookDb" where
  "update_dels P f d = d\<lparr>wd_dels := map (\<lambda>x. if P x then f x else x) (wd_dels d)\<rparr>"

text \<open>
  One insert of \<open>InsertPending\<close>: the payload must be JSON, the row must be the tenant's and have a known
  status; \<open>ON CONFLICT (subscription_id, event_id) DO NOTHING\<close>; the subscription must exist.
\<close>

definition insert_delivery :: "(string \<Rightarrow> string option) \<Rightarrow> uuid \<Rightarrow> Delivery \<Rightarrow> WebhookDb \<Rightarrow> webhook_error + WebhookDb" where
  "insert_delivery jsonb tn x d = (case jsonb (del_Payload x) of
     None \<Rightarrow> Inl InvalidJSON
   | Some doc \<Rightarrow>
       if del_TenantID x \<noteq> tn then Inl (DbError (PgError RowSecurityViolation))
       else if \<not> ValidStatus (del_Status x) then Inl (DbError (PgError CheckViolation))
       else if list_ex (\<lambda>y. del_SubscriptionID y = del_SubscriptionID x \<and> del_EventID y = del_EventID x) (wd_dels d) then Inr d
       else if list_ex (\<lambda>y. del_ID y = del_ID x) (wd_dels d) then Inl (DbError (PgError UniqueViolation))
       else if \<not> list_ex (\<lambda>s. sub_ID s = del_SubscriptionID x) (wd_subs d) then Inl (DbError (PgError ForeignKeyViolation))
       else Inr (d\<lparr>wd_dels := wd_dels d @ [x\<lparr>del_Payload := doc, del_LastStatusCode := None, del_LastError := None,
                                              del_DeliveredAt := None\<rparr>]\<rparr>))"

fun insert_deliveries :: "(string \<Rightarrow> string option) \<Rightarrow> uuid \<Rightarrow> Delivery list \<Rightarrow> WebhookDb \<Rightarrow> webhook_error + WebhookDb" where
  "insert_deliveries jsonb tn [] d = Inr d"
| "insert_deliveries jsonb tn (x # xs) d = bindE (insert_delivery jsonb tn x d) (insert_deliveries jsonb tn xs)"

definition InsertPending :: "(string \<Rightarrow> string option) \<Rightarrow> uuid \<Rightarrow> Delivery list \<Rightarrow> WebhookDb \<Rightarrow> (webhook_error + unit) \<times> WebhookDb" where
  "InsertPending jsonb tn ds d = tenant_tx tn (\<lambda>d. bindE (insert_deliveries jsonb tn ds d) (\<lambda>d'. Inr ((), d'))) d"

record DeliveryFilter =
  df_Status :: string
  df_SubscriptionID :: "uuid option"
  df_Cursor :: Cursor
  df_Limit :: int

definition delivery_cursor :: "Delivery \<Rightarrow> Cursor" where
  "delivery_cursor x = \<lparr>c_CreatedAt = del_CreatedAt x, c_ID = del_ID x\<rparr>"

definition repo_ListDeliveries ::
  "(Cursor \<Rightarrow> string) \<Rightarrow> uuid \<Rightarrow> DeliveryFilter \<Rightarrow> WebhookDb \<Rightarrow> (webhook_error + Delivery list \<times> string) \<times> WebhookDb" where
  "repo_ListDeliveries enc tn f d = tenant_tx tn (\<lambda>d.
     let limit = nat (df_Limit f);
         out = keyset_page (\<lambda>x. (del_CreatedAt x, del_ID x)) (df_Cursor f) (limit + 1)
           (filter (\<lambda>x. del_TenantID x = tn \<and> (df_Status f = '''' \<or> del_Status x = df_Status f)
              \<and> (case df_SubscriptionID f of None \<Rightarrow> True | Some s \<Rightarrow> del_SubscriptionID x = s)) (wd_dels d))
     in Inr (if length out > limit then (take limit out, enc (delivery_cursor (last (take limit out)))) else (out, ''''), d)) d"

definition repo_Requeue :: "timestamp \<Rightarrow> uuid \<Rightarrow> uuid \<Rightarrow> WebhookDb \<Rightarrow> (webhook_error + Delivery) \<times> WebhookDb" where
  "repo_Requeue now tn i d = tenant_tx tn (\<lambda>d. case find_del tn i d of
     None \<Rightarrow> Inl WErrNotFound
   | Some x \<Rightarrow>
       if del_Status x \<noteq> StatusFailed \<and> del_Status x \<noteq> StatusDead then Inl WErrConflict
       else (let f = (\<lambda>y. y\<lparr>del_Status := StatusPending, del_Attempts := 0, del_NextAttemptAt := now\<rparr>)
             in Inr (f x, update_dels (\<lambda>y. del_ID y = i \<and> del_TenantID y = tn) f d))) d"

section \<open>The dispatcher's statements\<close>

definition sub_of :: "WebhookDb \<Rightarrow> Delivery \<Rightarrow> Subscription option" where
  "sub_of d x = find (\<lambda>s. sub_ID s = del_SubscriptionID x) (wd_subs d)"

definition is_due :: "timestamp \<Rightarrow> WebhookDb \<Rightarrow> Delivery \<Rightarrow> bool" where
  "is_due now d x \<longleftrightarrow> (del_Status x = StatusPending \<or> del_Status x = StatusFailed) \<and> del_NextAttemptAt x \<le> now
     \<and> (case sub_of d x of None \<Rightarrow> False | Some s \<Rightarrow> sub_Active s)"

definition claimed_row :: "Delivery \<Rightarrow> Subscription \<Rightarrow> ClaimedDelivery" where
  "claimed_row x s = \<lparr>cd_ID = del_ID x, cd_TenantID = del_TenantID x, cd_SubscriptionID = del_SubscriptionID x,
     cd_EventID = del_EventID x, cd_EventType = del_EventType x, cd_Payload = del_Payload x, cd_Attempts = del_Attempts x,
     cd_URL = sub_URL s, cd_Secret = sub_Secret s, cd_PreviousSecret = sub_PreviousSecret s,
     cd_PreviousSecretExpiresAt = sub_PreviousSecretExpiresAt s\<rparr>"

text \<open>
  \<open>claim_due_deliveries\<close>: \<open>locked\<close> says which rows another session holds (\<open>SKIP LOCKED\<close>); rows that are
  due at the same instant are taken in the order of the table.
\<close>

definition due_rows :: "(uuid \<Rightarrow> bool) \<Rightarrow> nat \<Rightarrow> timestamp \<Rightarrow> WebhookDb \<Rightarrow> Delivery list" where
  "due_rows locked limit now d =
     take limit (sort_key del_NextAttemptAt (filter (\<lambda>x. is_due now d x \<and> \<not> locked (del_ID x)) (wd_dels d)))"

definition claim_due_deliveries ::
  "(uuid \<Rightarrow> bool) \<Rightarrow> nat \<Rightarrow> int \<Rightarrow> timestamp \<Rightarrow> WebhookDb \<Rightarrow> ClaimedDelivery list \<times> WebhookDb" where
  "claim_due_deliveries locked limit lease now d =
     (let ids = map del_ID (due_rows locked limit now d) in
      (map (\<lambda>x. claimed_row x (the (sub_of d x))) (sort_key del_CreatedAt (filter (\<lambda>x. del_ID x \<in> set ids) (wd_dels d))),
       update_dels (\<lambda>x. del_ID x \<in> set ids) (\<lambda>x. x\<lparr>del_NextAttemptAt := now + lease\<rparr>) d))"

definition scan_claimed :: "Cipher option \<Rightarrow> (uuid \<Rightarrow> string) \<Rightarrow> ClaimedDelivery \<Rightarrow> webhook_error + ClaimedDelivery" where
  "scan_claimed cph us c =
     bindE (decryptSecret cph us (cd_Secret c) (cd_SubscriptionID c)) (\<lambda>secret.
     bindE (decrypt_previous cph us (cd_PreviousSecret c) (cd_SubscriptionID c)) (\<lambda>prev.
     Inr (c\<lparr>cd_Secret := secret, cd_PreviousSecret := prev\<rparr>)))"

definition ClaimDue ::
  "Cipher option \<Rightarrow> (uuid \<Rightarrow> string) \<Rightarrow> (uuid \<Rightarrow> bool) \<Rightarrow> nat \<Rightarrow> int \<Rightarrow> timestamp \<Rightarrow> WebhookDb
     \<Rightarrow> (webhook_error + ClaimedDelivery list) \<times> WebhookDb" where
  "ClaimDue cph us locked limit lease now d = system_tx (\<lambda>d.
     case claim_due_deliveries locked limit lease now d of (rows, d') \<Rightarrow>
       bindE (scan_all (scan_claimed cph us) rows) (\<lambda>out. Inr (out, d'))) d"

definition MarkDelivered :: "timestamp \<Rightarrow> uuid \<Rightarrow> uuid \<Rightarrow> int \<Rightarrow> WebhookDb \<Rightarrow> (webhook_error + unit) \<times> WebhookDb" where
  "MarkDelivered now tn i statusCode d = tenant_tx tn (\<lambda>d. Inr ((),
     update_dels (\<lambda>x. del_ID x = i \<and> del_TenantID x = tn)
       (\<lambda>x. x\<lparr>del_Status := StatusDelivered, del_DeliveredAt := Some now, del_LastStatusCode := Some statusCode, del_LastError := None\<rparr>) d)) d"

text \<open>A \<open>TEXT\<close> value must be valid UTF-8 without zero bytes; PostgreSQL refuses the statement otherwise.\<close>

definition cont_byte :: "char \<Rightarrow> bool" where
  "cont_byte c \<longleftrightarrow> (let n = of_char c :: nat in 128 \<le> n \<and> n \<le> 191)"

fun utf8_text :: "string \<Rightarrow> bool" where
  "utf8_text [] = True"
| "utf8_text (c # s) = (let n = of_char c :: nat in
     if n = 0 then False
     else if n < 128 then utf8_text s
     else if 194 \<le> n \<and> n \<le> 223 then (case s of c1 # r \<Rightarrow> cont_byte c1 \<and> utf8_text r | _ \<Rightarrow> False)
     else if 224 \<le> n \<and> n \<le> 239 then (case s of c1 # c2 # r \<Rightarrow>
         cont_byte c1 \<and> cont_byte c2 \<and> (n \<noteq> 224 \<or> 160 \<le> (of_char c1 :: nat)) \<and> (n \<noteq> 237 \<or> (of_char c1 :: nat) \<le> 159) \<and> utf8_text r
       | _ \<Rightarrow> False)
     else if 240 \<le> n \<and> n \<le> 244 then (case s of c1 # c2 # c3 # r \<Rightarrow>
         cont_byte c1 \<and> cont_byte c2 \<and> cont_byte c3 \<and> (n \<noteq> 240 \<or> 144 \<le> (of_char c1 :: nat)) \<and> (n \<noteq> 244 \<or> (of_char c1 :: nat) \<le> 143)
         \<and> utf8_text r
       | _ \<Rightarrow> False)
     else False)"

definition MarkFailed ::
  "uuid \<Rightarrow> uuid \<Rightarrow> int \<Rightarrow> int option \<Rightarrow> string \<Rightarrow> timestamp \<Rightarrow> bool \<Rightarrow> WebhookDb \<Rightarrow> (webhook_error + unit) \<times> WebhookDb" where
  "MarkFailed tn i attempts statusCode lastError nextAttemptAt dead d = tenant_tx tn (\<lambda>d.
     if \<not> utf8_text lastError then Inl InvalidText
     else Inr ((), update_dels (\<lambda>x. del_ID x = i \<and> del_TenantID x = tn)
       (\<lambda>x. x\<lparr>del_Status := (if dead then StatusDead else StatusFailed), del_Attempts := attempts, del_LastStatusCode := statusCode,
              del_LastError := Some lastError, del_NextAttemptAt := nextAttemptAt\<rparr>) d)) d"

section \<open>Tenant purge\<close>

definition webhook_Tenant :: "uuid \<Rightarrow> WebhookDb \<Rightarrow> (webhook_error + nat \<times> nat) \<times> WebhookDb" where
  "webhook_Tenant tn d = tenant_tx tn (\<lambda>d.
     let dels = filter (\<lambda>x. del_TenantID x \<noteq> tn) (wd_dels d);
         subs = filter (\<lambda>s. sub_TenantID s \<noteq> tn) (wd_subs d);
         kept = filter (\<lambda>x. list_ex (\<lambda>s. sub_ID s = del_SubscriptionID x) subs) dels
     in Inr ((length (wd_dels d) - length dels, length (wd_subs d) - length subs), d\<lparr>wd_subs := subs, wd_dels := kept\<rparr>)) d"

end
