(* ===== verification/Webhook_Service.thy ===== *)
theory Webhook_Service
  imports Webhook_Repo
begin

text \<open>
  The use cases of the webhooks service (\<open>services/webhooks/internal/app/service.go\<close>), the consumer of the
  event stream (\<open>adapters/natsconsumer/consumer.go\<close>) and the delivery worker
  (\<open>internal/dispatcher/dispatcher.go\<close> with the address filter of \<open>ssrf.go\<close>).

  A \<open>WebhookEnv\<close> gathers what the code reads from outside: the cipher and its nonces, the text of a
  UUID, \<open>url.Parse\<close>, the JSON functions, HMAC, fresh UUIDs, random draws and the clocks. The HTTP client
  is a function \<open>post\<close> from the signed request to an error text or a status code.
\<close>

record WebhookEnv =
  we_cipher :: "Cipher option"
  we_nonces :: "nat \<Rightarrow> string option"
  we_us :: "uuid \<Rightarrow> string"
  we_parse :: "string \<Rightarrow> (string \<times> string) option"
  we_jsonb :: "string \<Rightarrow> string option"
  we_marshal :: "string Envelope \<Rightarrow> string option"
  we_unmarshal :: "string \<Rightarrow> string Envelope option"
  we_hmac :: "string \<Rightarrow> string \<Rightarrow> string"
  we_newID :: "nat \<Rightarrow> uuid"
  we_rand :: "nat \<Rightarrow> nat option"
  we_now :: timestamp
  we_dbnow :: timestamp

section \<open>Subscriptions\<close>

definition validate_endpoint :: "(string \<Rightarrow> (string \<times> string) option) \<Rightarrow> bool \<Rightarrow> string option \<Rightarrow> webhook_error + unit" where
  "validate_endpoint parse requireHTTPS url = (case url of None \<Rightarrow> Inr () | Some u \<Rightarrow> ValidateEndpointURL parse u requireHTTPS)"

definition CreateSubscription ::
  "WebhookEnv \<Rightarrow> uuid \<Rightarrow> bool \<Rightarrow> string \<Rightarrow> string list \<Rightarrow> WebhookDb \<Rightarrow> (webhook_error + Subscription) \<times> WebhookDb" where
  "CreateSubscription env tenantID requireHTTPS rawURL eventTypes d =
     (case bindE (ValidateEndpointURL (we_parse env) rawURL requireHTTPS) (\<lambda>_.
           bindE (ValidateEventTypes (NormalizeEventTypes eventTypes)) (\<lambda>_. NewSecret (we_rand env))) of
        Inl e \<Rightarrow> (Inl e, d)
      | Inr secret \<Rightarrow>
          let sub = \<lparr>sub_ID = we_newID env 0, sub_TenantID = tenantID, sub_URL = rawURL, sub_Secret = secret,
                sub_EventTypes = NormalizeEventTypes eventTypes, sub_Active = True, sub_CreatedAt = we_now env,
                sub_PreviousSecret = None, sub_PreviousSecretExpiresAt = None\<rparr>
          in (case repo_Create (we_cipher env) (we_nonces env 0) (we_us env) sub d of
                (Inl e, d') \<Rightarrow> (Inl e, d') | (Inr _, d') \<Rightarrow> (Inr sub, d')))"

definition ListSubscriptions :: "WebhookEnv \<Rightarrow> uuid \<Rightarrow> nat \<Rightarrow> Cursor \<Rightarrow> WebhookDb \<Rightarrow> (webhook_error + Subscription list) \<times> WebhookDb" where
  "ListSubscriptions env tenantID limit cursor d = repo_List (we_cipher env) (we_us env) tenantID limit cursor d"

definition GetSubscription :: "WebhookEnv \<Rightarrow> uuid \<Rightarrow> uuid \<Rightarrow> WebhookDb \<Rightarrow> (webhook_error + Subscription) \<times> WebhookDb" where
  "GetSubscription env tenantID i d = repo_Get (we_cipher env) (we_us env) tenantID i d"

record SubscriptionPatch =
  pt_URL :: "string option"
  pt_EventTypes :: "string list option"
  pt_Active :: "bool option"

definition UpdateSubscription ::
  "WebhookEnv \<Rightarrow> uuid \<Rightarrow> bool \<Rightarrow> uuid \<Rightarrow> SubscriptionPatch \<Rightarrow> WebhookDb \<Rightarrow> (webhook_error + Subscription) \<times> WebhookDb" where
  "UpdateSubscription env tenantID requireHTTPS i patch d =
     (case bindE (validate_endpoint (we_parse env) requireHTTPS (pt_URL patch)) (\<lambda>_.
           case pt_EventTypes patch of None \<Rightarrow> Inr None
           | Some ts \<Rightarrow> bindE (ValidateEventTypes (NormalizeEventTypes ts)) (\<lambda>_. Inr (Some (NormalizeEventTypes ts)))) of
        Inl e \<Rightarrow> (Inl e, d)
      | Inr types \<Rightarrow> repo_Update (we_cipher env) (we_us env) tenantID i (pt_URL patch) types (pt_Active patch) d)"

definition RotateSecret :: "WebhookEnv \<Rightarrow> uuid \<Rightarrow> uuid \<Rightarrow> WebhookDb \<Rightarrow> (webhook_error + string \<times> timestamp) \<times> WebhookDb" where
  "RotateSecret env tenantID i d = (case NewSecret (we_rand env) of
     Inl e \<Rightarrow> (Inl e, d)
   | Inr secret \<Rightarrow>
       let prevExpires = we_now env + RotationGrace
       in (case repo_RotateSecret (we_cipher env) (we_nonces env 0) (we_us env) tenantID i secret prevExpires d of
             (Inl e, d') \<Rightarrow> (Inl e, d') | (Inr _, d') \<Rightarrow> (Inr (secret, prevExpires), d')))"

section \<open>Deliveries\<close>

definition ListDeliveries ::
  "(Cursor \<Rightarrow> string) \<Rightarrow> uuid \<Rightarrow> DeliveryFilter \<Rightarrow> WebhookDb \<Rightarrow> (webhook_error + Delivery list \<times> string) \<times> WebhookDb" where
  "ListDeliveries enc tenantID f d =
     (if df_Status f \<noteq> '''' \<and> \<not> ValidStatus (df_Status f) then (Inl ValidationError, d)
      else let f1 = (if df_Limit f \<le> 0 then f\<lparr>df_Limit := 50\<rparr> else f);
               f2 = (if df_Limit f1 > 200 then f1\<lparr>df_Limit := 200\<rparr> else f1)
           in repo_ListDeliveries enc tenantID f2 d)"

definition RetryDelivery :: "WebhookEnv \<Rightarrow> uuid \<Rightarrow> uuid \<Rightarrow> WebhookDb \<Rightarrow> (webhook_error + Delivery) \<times> WebhookDb" where
  "RetryDelivery env tenantID i d = repo_Requeue (we_dbnow env) tenantID i d"

definition new_delivery :: "WebhookEnv \<Rightarrow> string Envelope \<Rightarrow> string \<Rightarrow> nat \<Rightarrow> Subscription \<Rightarrow> Delivery" where
  "new_delivery env e payload k sub =
     \<lparr>del_ID = we_newID env k, del_TenantID = env_TenantID e, del_SubscriptionID = sub_ID sub, del_EventID = env_ID e,
      del_EventType = env_Type e, del_Payload = payload, del_Status = StatusPending, del_Attempts = 0,
      del_NextAttemptAt = we_now env, del_LastStatusCode = None, del_LastError = None, del_CreatedAt = we_now env,
      del_DeliveredAt = None\<rparr>"

fun fan_out :: "WebhookEnv \<Rightarrow> string Envelope \<Rightarrow> string \<Rightarrow> nat \<Rightarrow> Subscription list \<Rightarrow> Delivery list" where
  "fan_out env e payload k [] = []"
| "fan_out env e payload k (sub # subs) =
     (if \<not> Matches (sub_EventTypes sub) (env_Type e) then fan_out env e payload k subs
      else new_delivery env e payload k sub # fan_out env e payload (Suc k) subs)"

text \<open>
  The active subscriptions are read in a transaction of their own, which sees \<open>dl\<close>; the deliveries are
  inserted in a second one.
\<close>

definition EnqueueEnvelope ::
  "WebhookEnv \<Rightarrow> WebhookDb \<Rightarrow> string Envelope \<Rightarrow> string option \<Rightarrow> WebhookDb \<Rightarrow> (webhook_error + unit) \<times> WebhookDb" where
  "EnqueueEnvelope env dl e rawEnvelope d =
     (if env_ID e = uuid_Nil \<or> env_TenantID e = uuid_Nil \<or> env_Type e = '''' then (Inl ValidationError, d)
      else case fst (repo_ListActive (we_cipher env) (we_us env) (env_TenantID e) dl) of
        Inl err \<Rightarrow> (Inl err, d)
      | Inr subs \<Rightarrow>
        (case (case rawEnvelope of Some raw \<Rightarrow> Some raw | None \<Rightarrow> we_marshal env e) of
           None \<Rightarrow> (Inl InvalidJSON, d)
         | Some payload \<Rightarrow>
             let ds = fan_out env e payload 0 subs
             in if ds = [] then (Inr (), d) else InsertPending (we_jsonb env) (env_TenantID e) ds d))"

text \<open>\<open>handle\<close>: what the consumer tells the broker about a message.\<close>

datatype ack = Ack | Nak | Term

definition webhook_handle :: "WebhookEnv \<Rightarrow> WebhookDb \<Rightarrow> string \<Rightarrow> WebhookDb \<Rightarrow> ack \<times> WebhookDb" where
  "webhook_handle env dl msg d = (case we_unmarshal env msg of
     None \<Rightarrow> (Term, d)
   | Some e \<Rightarrow>
       if env_ID e = uuid_Nil \<or> env_TenantID e = uuid_Nil \<or> env_Type e = '''' then (Term, d)
       else (case EnqueueEnvelope env dl e (Some msg) d of (Inl _, d') \<Rightarrow> (Nak, d') | (Inr _, d') \<Rightarrow> (Ack, d')))"

section \<open>The delivery worker\<close>

definition DefaultBatchSize :: nat where
  "DefaultBatchSize = 50"

definition DefaultLease :: int where
  "DefaultLease = 2 * 60 * Second"

definition maxErrorLen :: nat where
  "maxErrorLen = 500"

definition truncate_text :: "string \<Rightarrow> nat \<Rightarrow> string" where
  "truncate_text s n = (if length s \<le> n then s else take n s)"

record Request =
  rq_URL :: string
  rq_EventID :: string
  rq_EventType :: string
  rq_Signature :: string
  rq_Body :: string

text \<open>The clock readings of one attempt: the signature's timestamp, the choice of secrets, the reschedule and the database.\<close>

record Clocks =
  ck_sign :: timestamp
  ck_secrets :: timestamp
  ck_after :: timestamp
  ck_db :: timestamp

definition build_request :: "WebhookEnv \<Rightarrow> Clocks \<Rightarrow> ClaimedDelivery \<Rightarrow> Request" where
  "build_request env ck c =
     \<lparr>rq_URL = cd_URL c, rq_EventID = we_us env (cd_EventID c), rq_EventType = cd_EventType c,
      rq_Signature = HeaderMulti (we_hmac env) (claimed_SigningSecrets c (ck_secrets ck)) (word_of_int (ck_sign ck div Second)) (cd_Payload c),
      rq_Body = cd_Payload c\<rparr>"

definition Send :: "(Request \<Rightarrow> string + int) \<Rightarrow> WebhookEnv \<Rightarrow> Clocks \<Rightarrow> ClaimedDelivery \<Rightarrow> string + int" where
  "Send post env ck c = post (build_request env ck c)"

definition process :: "(Request \<Rightarrow> string + int) \<Rightarrow> WebhookEnv \<Rightarrow> Clocks \<Rightarrow> ClaimedDelivery \<Rightarrow> WebhookDb \<Rightarrow> WebhookDb" where
  "process post env ck c d =
     (let failed = (\<lambda>code lastError.
        let attempts = cd_Attempts c + 1; dead = IsDead attempts;
            next = (if dead then ck_after ck else ck_after ck + Backoff attempts)
        in snd (MarkFailed (cd_TenantID c) (cd_ID c) attempts code lastError next dead d))
      in case Send post env ck c of
           Inl err \<Rightarrow> failed None (truncate_text err maxErrorLen)
         | Inr code \<Rightarrow>
             if 200 \<le> code \<and> code < 300 then snd (MarkDelivered (ck_db ck) (cd_TenantID c) (cd_ID c) code d)
             else failed (Some code) (''endpoint returned status '' @ show_int code))"

text \<open>
  One tick: batches until one comes back short, the claim fails or the context is cancelled. \<open>clock k\<close> is
  the database clock at the \<open>k\<close>-th claim, \<open>locked k\<close> the rows other sessions hold then, \<open>cks c\<close> the clocks
  and \<open>post\<close> the endpoint of an attempt; the deliveries of a batch are recorded one after the other, in
  the order they were claimed. The fuel bounds the number of batches; the result lists the attempts made.
\<close>

record TickEnv =
  tk_env :: WebhookEnv
  tk_post :: "Request \<Rightarrow> string + int"
  tk_clock :: "nat \<Rightarrow> timestamp"
  tk_locked :: "nat \<Rightarrow> uuid \<Rightarrow> bool"
  tk_clocks :: "uuid \<Rightarrow> Clocks"
  tk_cancelled :: "nat \<Rightarrow> bool"

definition process_batch :: "TickEnv \<Rightarrow> ClaimedDelivery list \<Rightarrow> WebhookDb \<Rightarrow> WebhookDb" where
  "process_batch t claimed d = fold (\<lambda>c. process (tk_post t) (tk_env t) (tk_clocks t (cd_ID c)) c) claimed d"

fun tick :: "nat \<Rightarrow> TickEnv \<Rightarrow> nat \<Rightarrow> WebhookDb \<Rightarrow> (uuid list \<times> WebhookDb) option" where
  "tick 0 t k d = None"
| "tick (Suc n) t k d =
     (case ClaimDue (we_cipher (tk_env t)) (we_us (tk_env t)) (tk_locked t k) DefaultBatchSize DefaultLease (tk_clock t k) d of
        (Inl _, d') \<Rightarrow> Some ([], d')
      | (Inr claimed, d') \<Rightarrow>
          if claimed = [] then Some ([], d')
          else let d'' = process_batch t claimed d'; ids = map cd_ID claimed
               in if length claimed < DefaultBatchSize \<or> tk_cancelled t k then Some (ids, d'')
                  else map_option (\<lambda>(more_ids, e). (ids @ more_ids, e)) (tick n t (Suc k) d''))"

section \<open>The address filter\<close>

text \<open>
  An address is \<^const>\<open>None\<close> for \<open>nil\<close>, four bytes, or sixteen bytes; the classification methods of \<open>net.IP\<close>
  read the four-byte form (\<open>To4\<close>) of an IPv4 address embedded in \<open>::ffff:0:0/96\<close>.
\<close>

type_synonym ip = "nat list"

definition To4 :: "ip \<Rightarrow> ip option" where
  "To4 a = (if length a = 4 then Some a
     else if length a = 16 \<and> take 12 a = replicate 10 0 @ [255, 255] then Some (drop 12 a) else None)"

definition IsUnspecified :: "ip \<Rightarrow> bool" where
  "IsUnspecified a \<longleftrightarrow> (case To4 a of Some v \<Rightarrow> v = [0, 0, 0, 0] | None \<Rightarrow> a = replicate 16 0)"

definition IsLoopback :: "ip \<Rightarrow> bool" where
  "IsLoopback a \<longleftrightarrow> (case To4 a of Some v \<Rightarrow> v ! 0 = 127 | None \<Rightarrow> a = replicate 15 0 @ [1])"

definition IsPrivate :: "ip \<Rightarrow> bool" where
  "IsPrivate a \<longleftrightarrow> (case To4 a of
     Some v \<Rightarrow> v ! 0 = 10 \<or> v ! 0 = 172 \<and> v ! 1 div 16 = 1 \<or> v ! 0 = 192 \<and> v ! 1 = 168
   | None \<Rightarrow> length a = 16 \<and> a ! 0 div 2 = 126)"

definition IsMulticast :: "ip \<Rightarrow> bool" where
  "IsMulticast a \<longleftrightarrow> (case To4 a of Some v \<Rightarrow> v ! 0 div 16 = 14 | None \<Rightarrow> length a = 16 \<and> a ! 0 = 255)"

definition IsInterfaceLocalMulticast :: "ip \<Rightarrow> bool" where
  "IsInterfaceLocalMulticast a \<longleftrightarrow> length a = 16 \<and> a ! 0 = 255 \<and> a ! 1 mod 16 = 1"

definition IsLinkLocalMulticast :: "ip \<Rightarrow> bool" where
  "IsLinkLocalMulticast a \<longleftrightarrow> (case To4 a of
     Some v \<Rightarrow> v ! 0 = 224 \<and> v ! 1 = 0 \<and> v ! 2 = 0
   | None \<Rightarrow> length a = 16 \<and> a ! 0 = 255 \<and> a ! 1 mod 16 = 2)"

definition IsLinkLocalUnicast :: "ip \<Rightarrow> bool" where
  "IsLinkLocalUnicast a \<longleftrightarrow> (case To4 a of
     Some v \<Rightarrow> v ! 0 = 169 \<and> v ! 1 = 254
   | None \<Rightarrow> length a = 16 \<and> a ! 0 = 254 \<and> a ! 1 div 64 = 2)"

definition IsGlobalUnicast :: "ip \<Rightarrow> bool" where
  "IsGlobalUnicast a \<longleftrightarrow> (length a = 4 \<or> length a = 16) \<and> To4 a \<noteq> Some [255, 255, 255, 255] \<and> \<not> IsUnspecified a
     \<and> \<not> IsLoopback a \<and> \<not> IsMulticast a \<and> \<not> IsLinkLocalUnicast a"

definition isBlockedIP :: "ip option \<Rightarrow> bool" where
  "isBlockedIP addr = (case addr of
     None \<Rightarrow> True
   | Some a \<Rightarrow>
       if IsLoopback a \<or> IsPrivate a \<or> IsLinkLocalUnicast a \<or> IsLinkLocalMulticast a \<or> IsInterfaceLocalMulticast a
          \<or> IsMulticast a \<or> IsUnspecified a then True
       else if (case To4 a of Some v \<Rightarrow> v ! 0 = 100 \<and> 64 \<le> v ! 1 \<and> v ! 1 \<le> 127 | None \<Rightarrow> False) then True
       else \<not> IsGlobalUnicast a)"

text \<open>
  \<open>safeControl\<close> on the address about to be dialled: \<open>split\<close> is \<open>net.SplitHostPort\<close>, \<open>parseIP\<close> is
  \<open>net.ParseIP\<close>; the connection is refused unless the result is \<^const>\<open>True\<close>.
\<close>

definition safeControl :: "(string \<Rightarrow> (string \<times> string) option) \<Rightarrow> (string \<Rightarrow> ip option) \<Rightarrow> string \<Rightarrow> bool" where
  "safeControl split parseIP address = (case split address of
     None \<Rightarrow> False
   | Some (host, _) \<Rightarrow> (case parseIP host of None \<Rightarrow> False | Some a \<Rightarrow> \<not> isBlockedIP (Some a)))"

end
