(* ===== verification/Webhook_Theorems.thy ===== *)
theory Webhook_Theorems
  imports Webhook_Service
begin

text \<open>
  The invariant of the webhooks service: its tables and the attempts in flight over every interleaving of
  requests, events, claims and recorded attempts; and the fan-out of an event.
\<close>

section \<open>The tables\<close>

text \<open>What the status of a delivery says about its attempts.\<close>

definition delivery_ok :: "Delivery \<Rightarrow> bool" where
  "delivery_ok x \<longleftrightarrow>
     (del_Status x = StatusPending \<and> del_Attempts x = 0)
   \<or> (del_Status x = StatusFailed \<and> 1 \<le> del_Attempts x \<and> del_Attempts x < MaxAttempts)
   \<or> (del_Status x = StatusDead \<and> del_Attempts x = MaxAttempts)
   \<or> (del_Status x = StatusDelivered \<and> 0 \<le> del_Attempts x \<and> del_Attempts x \<le> MaxAttempts \<and> del_DeliveredAt x \<noteq> None)"

definition owned :: "WebhookDb \<Rightarrow> Delivery \<Rightarrow> bool" where
  "owned d x \<longleftrightarrow> (\<exists>s \<in> set (wd_subs d). sub_ID s = del_SubscriptionID x \<and> sub_TenantID s = del_TenantID x)"

definition webhook_ok :: "WebhookDb \<Rightarrow> bool" where
  "webhook_ok d \<longleftrightarrow> distinct (map sub_ID (wd_subs d)) \<and> distinct (map del_ID (wd_dels d))
     \<and> distinct (map (\<lambda>x. (del_SubscriptionID x, del_EventID x)) (wd_dels d))
     \<and> (\<forall>s \<in> set (wd_subs d). sub_TenantID s \<noteq> uuid_Nil)
     \<and> (\<forall>x \<in> set (wd_dels d). owned d x \<and> delivery_ok x)"

definition claim_ok :: "ClaimedDelivery \<Rightarrow> bool" where
  "claim_ok c \<longleftrightarrow> 0 \<le> cd_Attempts c \<and> cd_Attempts c < MaxAttempts"

lemmas status_defs = StatusPending_def StatusFailed_def StatusDead_def StatusDelivered_def

lemma status_distinct [simp]:
  "StatusPending \<noteq> StatusFailed" "StatusFailed \<noteq> StatusPending" "StatusPending \<noteq> StatusDead" "StatusDead \<noteq> StatusPending"
  "StatusPending \<noteq> StatusDelivered" "StatusDelivered \<noteq> StatusPending" "StatusFailed \<noteq> StatusDead" "StatusDead \<noteq> StatusFailed"
  "StatusFailed \<noteq> StatusDelivered" "StatusDelivered \<noteq> StatusFailed" "StatusDead \<noteq> StatusDelivered" "StatusDelivered \<noteq> StatusDead"
  by (simp_all add: status_defs)

lemma system_tx_keeps:
  assumes "P d" and "\<And>x e. fn d = Inr (x, e) \<Longrightarrow> P e"
  shows "P (snd (system_tx fn d))"
  using assms by (auto simp: system_tx_def split: sum.split prod.split)

lemma tenant_tx_keeps:
  assumes "P d" and "\<And>x e. fn d = Inr (x, e) \<Longrightarrow> P e"
  shows "P (snd (tenant_tx tn fn d))"
  using system_tx_keeps [of P d fn] assms by (simp add: tenant_tx_def)

lemma ok_tenant_tx:
  "webhook_ok d \<Longrightarrow> (\<And>x e. tn \<noteq> uuid_Nil \<Longrightarrow> fn d = Inr (x, e) \<Longrightarrow> webhook_ok e) \<Longrightarrow> webhook_ok (snd (tenant_tx tn fn d))"
  using system_tx_keeps [of webhook_ok d fn] by (simp add: tenant_tx_def)

lemma snd_result: "snd (case r of (Inl e, d') \<Rightarrow> (Inl e, d') | (Inr x, d') \<Rightarrow> (Inr (g x d'), d')) = snd r"
  by (simp split: prod.split sum.split)

lemma update_subs_simps [simp]:
  "wd_dels (update_subs P f d) = wd_dels d" "wd_subs (update_subs P f d) = map (\<lambda>s. if P s then f s else s) (wd_subs d)"
  "wd_subs (update_dels Q g d) = wd_subs d" "wd_dels (update_dels Q g d) = map (\<lambda>x. if Q x then g x else x) (wd_dels d)"
  by (simp_all add: update_subs_def update_dels_def)

definition keeps_owner :: "(Subscription \<Rightarrow> Subscription) \<Rightarrow> bool" where
  "keeps_owner f \<longleftrightarrow> (\<forall>s. sub_ID (f s) = sub_ID s \<and> sub_TenantID (f s) = sub_TenantID s)"

definition keeps_delivery :: "(Delivery \<Rightarrow> Delivery) \<Rightarrow> bool" where
  "keeps_delivery f \<longleftrightarrow> (\<forall>x. del_ID (f x) = del_ID x \<and> del_TenantID (f x) = del_TenantID x
     \<and> del_SubscriptionID (f x) = del_SubscriptionID x \<and> del_EventID (f x) = del_EventID x)"

lemma webhook_ok_update_subs:
  assumes "webhook_ok d" and "keeps_owner f"
  shows "webhook_ok (update_subs P f d)"
proof -
  have "map sub_ID (wd_subs (update_subs P f d)) = map sub_ID (wd_subs d)"
    using assms(2) by (auto simp: keeps_owner_def)
  moreover have "owned (update_subs P f d) x" if x: "owned d x" for x
  proof -
    obtain s where "s \<in> set (wd_subs d)" "sub_ID s = del_SubscriptionID x" "sub_TenantID s = del_TenantID x"
      using x by (auto simp: owned_def)
    then show ?thesis
      using assms(2) unfolding owned_def keeps_owner_def by (intro bexI [of _ "if P s then f s else s"]) auto
  qed
  moreover have "\<forall>s \<in> set (wd_subs (update_subs P f d)). sub_TenantID s \<noteq> uuid_Nil"
    using assms by (auto simp: webhook_ok_def keeps_owner_def)
  ultimately show ?thesis using assms(1) by (simp add: webhook_ok_def del: update_subs_simps(2))
qed

lemma webhook_ok_update_dels:
  assumes ok: "webhook_ok d" and f: "keeps_delivery f" and st: "\<And>x. x \<in> set (wd_dels d) \<Longrightarrow> P x \<Longrightarrow> delivery_ok (f x)"
  shows "webhook_ok (update_dels P f d)"
proof -
  have "map del_ID (wd_dels (update_dels P f d)) = map del_ID (wd_dels d)"
    "map (\<lambda>x. (del_SubscriptionID x, del_EventID x)) (wd_dels (update_dels P f d)) = map (\<lambda>x. (del_SubscriptionID x, del_EventID x)) (wd_dels d)"
    using f by (auto simp: keeps_delivery_def)
  moreover have "owned (update_dels P f d) (f x) = owned d x" "owned (update_dels P f d) x = owned d x" for x
    using f by (simp_all add: owned_def keeps_delivery_def)
  moreover have "\<forall>x \<in> set (wd_dels (update_dels P f d)). owned (update_dels P f d) x \<and> delivery_ok x"
    using ok st calculation(3,4) by (auto simp: webhook_ok_def)
  ultimately show ?thesis using ok by (simp add: webhook_ok_def del: update_subs_simps(4))
qed

lemma keeps_simps [simp]:
  "keeps_owner (patch_columns url types active)" "keeps_owner (install_secret secret expires)"
  "keeps_owner (\<lambda>s. s\<lparr>sub_PreviousSecret := None, sub_PreviousSecretExpiresAt := None\<rparr>)"
  "keeps_owner (\<lambda>s. s\<lparr>sub_Secret := secret, sub_PreviousSecret := prev\<rparr>)"
  by (simp_all add: keeps_owner_def patch_columns_def install_secret_def)

section \<open>The operations keep the tables well-formed\<close>

lemma querySubscriptions_same [simp]: "snd (querySubscriptions cph us tn q d) = d"
  unfolding querySubscriptions_def by (rule tenant_tx_keeps [where P = "\<lambda>e. e = d"]) (auto simp: bindE_Inr_iff)

lemma insert_subscription_ok:
  assumes "webhook_ok d" and "sub_TenantID sub \<noteq> uuid_Nil" and "insert_subscription sub d = Inr (x, e)"
  shows "webhook_ok e"
  using assms by (auto simp: insert_subscription_def list_ex_iff webhook_ok_def owned_def split: if_splits) blast

lemma CreateSubscription_ok: "webhook_ok d \<Longrightarrow> webhook_ok (snd (CreateSubscription env tn https url types d))"
proof -
  assume ok: "webhook_ok d"
  have "webhook_ok (snd (repo_Create cph nonce us sub d))" for cph nonce us sub
    unfolding repo_Create_def
    by (cases "encryptSecret cph nonce us (sub_Secret sub) (sub_ID sub)")
      (auto simp: ok intro!: ok_tenant_tx intro: insert_subscription_ok [OF ok, rotated])
  then show ?thesis using ok by (simp add: CreateSubscription_def Let_def snd_result split: sum.split)
qed

lemma UpdateSubscription_ok: "webhook_ok d \<Longrightarrow> webhook_ok (snd (UpdateSubscription env tn https i patch d))"
proof -
  assume ok: "webhook_ok d"
  have "webhook_ok (snd (repo_Update cph us tn i url types active d))" for cph us url types active
    unfolding repo_Update_def
    by (rule ok_tenant_tx) (auto simp: ok bindE_Inr_iff Let_def webhook_ok_update_subs split: if_splits)
  then show ?thesis using ok by (simp add: UpdateSubscription_def split: sum.split)
qed

lemma RotateSecret_ok: "webhook_ok d \<Longrightarrow> webhook_ok (snd (RotateSecret env tn i d))"
proof -
  assume ok: "webhook_ok d"
  have "webhook_ok (snd (repo_RotateSecret cph nonce us tn i secret expires d))" for cph nonce us secret expires
    unfolding repo_RotateSecret_def
    by (cases "encryptSecret cph nonce us secret i")
      (auto simp: ok webhook_ok_update_subs split: option.splits intro!: ok_tenant_tx)
  then show ?thesis using ok by (simp add: RotateSecret_def Let_def snd_result split: sum.split)
qed

lemma PurgeExpired_ok: "webhook_ok d \<Longrightarrow> webhook_ok (snd (PurgeExpiredPreviousSecrets now d))"
  by (simp add: PurgeExpiredPreviousSecrets_def system_tx_def webhook_ok_update_subs)

lemma reencrypt_rows_ok: "webhook_ok d \<Longrightarrow> reencrypt_rows cph nonces us k ps d = Inr (n, e) \<Longrightarrow> webhook_ok e"
proof (induction ps arbitrary: k d n e)
  case (Cons p ps)
  then show ?case
    by (auto simp: bindE_Inr_iff set_encrypted_secret_def webhook_ok_update_subs intro: Cons.IH [rotated])
qed simp

lemma Reencrypt_ok: "webhook_ok d \<Longrightarrow> webhook_ok (snd (ReencryptPlaintextSecrets cph nonces us dl d))"
  using system_tx_keeps [of webhook_ok d "reencrypt_rows cph nonces us 0 (list_plaintext_secrets dl)"] reencrypt_rows_ok
  by (auto simp: ReencryptPlaintextSecrets_def split: option.split)

lemma RetryDelivery_ok: "webhook_ok d \<Longrightarrow> webhook_ok (snd (RetryDelivery env tn i d))"
  unfolding RetryDelivery_def repo_Requeue_def
  by (rule ok_tenant_tx)
    (auto simp: Let_def keeps_delivery_def delivery_ok_def split: option.splits if_splits intro!: webhook_ok_update_dels)

lemma webhook_Tenant_ok: "webhook_ok d \<Longrightarrow> webhook_ok (snd (webhook_Tenant tn d))"
proof -
  assume ok: "webhook_ok d"
  let ?s = "filter (\<lambda>s. sub_TenantID s \<noteq> tn) (wd_subs d)"
  have "owned (d\<lparr>wd_subs := ?s, wd_dels := ys\<rparr>) x" if "owned d x" "del_TenantID x \<noteq> tn" for x ys
    using that by (auto simp: owned_def)
  with ok have "webhook_ok (d\<lparr>wd_subs := ?s, wd_dels := filter Q (filter (\<lambda>x. del_TenantID x \<noteq> tn) (wd_dels d))\<rparr>)" for Q
    by (auto simp: webhook_ok_def distinct_map_filter simp del: filter_filter)
  with ok show ?thesis unfolding webhook_Tenant_def by (intro ok_tenant_tx) (auto simp: Let_def)
qed

text \<open>
  The subscriptions an event is fanned out to are read before the deliveries are inserted; in between a
  subscription may change or disappear, but its identifier never passes to another tenant (\<open>uuid.New\<close>).
\<close>

definition same_owners :: "WebhookDb \<Rightarrow> WebhookDb \<Rightarrow> bool" where
  "same_owners dl d \<longleftrightarrow> (\<forall>s \<in> set (wd_subs dl). \<forall>s' \<in> set (wd_subs d). sub_ID s = sub_ID s' \<longrightarrow> sub_TenantID s = sub_TenantID s')"

lemma same_owners_refl: "webhook_ok d \<Longrightarrow> same_owners d d"
  by (auto simp: same_owners_def webhook_ok_def distinct_map inj_on_def)

lemma scan_all_ids:
  "scan_all (\<lambda>r. scanSubscription cph us (Some r)) rows = Inr out \<Longrightarrow>
     map sub_ID out = map sub_ID rows \<and> map sub_TenantID out = map sub_TenantID rows \<and> map sub_EventTypes out = map sub_EventTypes rows"
  by (induction rows arbitrary: out) (auto simp: bindE_Inr_iff scanSubscription_def)

lemma ListActive_result:
  assumes "fst (repo_ListActive cph us tn dl) = Inr subs"
  obtains rows where "mset rows = mset (filter (\<lambda>s. sub_TenantID s = tn \<and> sub_Active s) (wd_subs dl))"
    "map sub_ID subs = map sub_ID rows" "map sub_TenantID subs = map sub_TenantID rows" "map sub_EventTypes subs = map sub_EventTypes rows"
proof -
  let ?rows = "sort_key (\<lambda>s. (sub_CreatedAt s, sub_ID s)) (filter sub_Active (filter (\<lambda>s. sub_TenantID s = tn) (wd_subs dl)))"
  have "scan_all (\<lambda>r. scanSubscription cph us (Some r)) ?rows = Inr subs"
    using assms by (auto simp: repo_ListActive_def querySubscriptions_def tenant_tx_def system_tx_def bindE_def
        split: if_splits sum.splits prod.splits)
  from scan_all_ids [OF this] show thesis by (intro that [of ?rows]) (simp_all add: conj_commute)
qed

text \<open>A row that may be inserted for the tenant: pending, and the subscription, where it exists, is the tenant's.\<close>

definition insertable :: "uuid \<Rightarrow> WebhookDb \<Rightarrow> Delivery \<Rightarrow> bool" where
  "insertable tn d x \<longleftrightarrow> del_Status x = StatusPending \<and> del_Attempts x = 0
     \<and> (\<forall>s \<in> set (wd_subs d). sub_ID s = del_SubscriptionID x \<longrightarrow> sub_TenantID s = tn)"

lemma insert_delivery_ok:
  assumes ok: "webhook_ok d" and x: "insertable tn d x" and i: "insert_delivery jsonb tn x d = Inr e"
  shows "webhook_ok e \<and> wd_subs e = wd_subs d"
proof -
  consider "e = d" | doc where "del_TenantID x = tn" "\<not> list_ex (\<lambda>y. del_SubscriptionID y = del_SubscriptionID x \<and> del_EventID y = del_EventID x) (wd_dels d)"
    "\<not> list_ex (\<lambda>y. del_ID y = del_ID x) (wd_dels d)" "list_ex (\<lambda>s. sub_ID s = del_SubscriptionID x) (wd_subs d)"
    "e = d\<lparr>wd_dels := wd_dels d @ [x\<lparr>del_Payload := doc, del_LastStatusCode := None, del_LastError := None, del_DeliveredAt := None\<rparr>]\<rparr>"
    using i by (auto simp: insert_delivery_def split: option.splits if_splits)
  then show ?thesis
  proof cases
    case 2
    have "owned e (x\<lparr>del_Payload := doc, del_LastStatusCode := None, del_LastError := None, del_DeliveredAt := None\<rparr>)"
      using 2 x by (auto simp: owned_def insertable_def list_ex_iff)
    moreover have "owned e y = owned d y" for y using 2 by (simp add: owned_def)
    ultimately show ?thesis
      using ok 2 x by (auto simp: webhook_ok_def list_ex_iff insertable_def delivery_ok_def)
  qed (use ok in simp)
qed

lemma insert_deliveries_ok:
  "webhook_ok d \<Longrightarrow> list_all (insertable tn d) ds \<Longrightarrow> insert_deliveries jsonb tn ds d = Inr e \<Longrightarrow> webhook_ok e \<and> wd_subs e = wd_subs d"
proof (induction ds arbitrary: d)
  case (Cons x xs)
  then obtain d1 where d1: "insert_delivery jsonb tn x d = Inr d1" "insert_deliveries jsonb tn xs d1 = Inr e"
    by (auto simp: bindE_Inr_iff)
  have "webhook_ok d1 \<and> wd_subs d1 = wd_subs d" using Cons.prems insert_delivery_ok [OF _ _ d1(1)] by simp
  then show ?case using Cons.IH [of d1] Cons.prems d1(2) by (simp add: insertable_def)
qed simp

lemma fan_out_insertable:
  assumes "\<And>s. s \<in> set subs \<Longrightarrow> (\<forall>s' \<in> set (wd_subs d). sub_ID s' = sub_ID s \<longrightarrow> sub_TenantID s' = env_TenantID e)"
  shows "list_all (insertable (env_TenantID e) d) (fan_out env e payload k subs)"
  using assms
proof (induction subs arbitrary: k)
  case (Cons s subs)
  have "insertable (env_TenantID e) d (new_delivery env e payload k s)"
    using Cons.prems [of s] by (simp add: insertable_def new_delivery_def)
  moreover have "list_all (insertable (env_TenantID e) d) (fan_out env e payload k' subs)" for k'
    by (rule Cons.IH, rule Cons.prems) simp
  ultimately show ?case by simp
qed simp

lemma EnqueueEnvelope_ok:
  assumes ok: "webhook_ok d" and so: "same_owners dl d"
  shows "webhook_ok (snd (EnqueueEnvelope env dl e raw d))"
proof -
  have "webhook_ok (snd (InsertPending (we_jsonb env) (env_TenantID e) (fan_out env e payload 0 subs) d))"
    if l: "fst (repo_ListActive (we_cipher env) (we_us env) (env_TenantID e) dl) = Inr subs" for payload subs
  proof -
    obtain rows where r: "mset rows = mset (filter (\<lambda>s. sub_TenantID s = env_TenantID e \<and> sub_Active s) (wd_subs dl))"
      "map sub_ID subs = map sub_ID rows" by (rule ListActive_result [OF l])
    have "\<forall>s' \<in> set (wd_subs d). sub_ID s' = sub_ID s \<longrightarrow> sub_TenantID s' = env_TenantID e" if s: "s \<in> set subs" for s
    proof -
      have "sub_ID s \<in> set (map sub_ID rows)" unfolding r(2) [symmetric] using s by simp
      then obtain x where "x \<in> set rows" "sub_ID x = sub_ID s" by auto
      moreover have "x \<in> set rows \<Longrightarrow> x \<in> set (wd_subs dl) \<and> sub_TenantID x = env_TenantID e" for x
        unfolding mset_eq_setD [OF r(1)] by simp
      ultimately have "x \<in> set (wd_subs dl)" "sub_ID x = sub_ID s" "sub_TenantID x = env_TenantID e" by blast+
      note x = this
      show ?thesis
      proof (intro ballI impI)
        fix s'
        assume s': "s' \<in> set (wd_subs d)" "sub_ID s' = sub_ID s"
        have "sub_TenantID x = sub_TenantID s'" using so x(1,2) s' by (simp add: same_owners_def)
        then show "sub_TenantID s' = env_TenantID e" using x(3) by simp
      qed
    qed
    note ins = fan_out_insertable [OF this]
    show ?thesis
      unfolding InsertPending_def
    proof (rule ok_tenant_tx [OF ok])
      fix x d'
      assume "bindE (insert_deliveries (we_jsonb env) (env_TenantID e) (fan_out env e payload 0 subs) d) (\<lambda>d'. Inr ((), d')) = Inr (x, d')"
      then have "insert_deliveries (we_jsonb env) (env_TenantID e) (fan_out env e payload 0 subs) d = Inr d'"
        by (auto simp: bindE_Inr_iff)
      then show "webhook_ok d'" using insert_deliveries_ok [OF ok ins] by blast
    qed
  qed
  then show ?thesis
    using ok by (simp add: EnqueueEnvelope_def Let_def split: sum.split option.split)
qed

lemma webhook_handle_ok: "webhook_ok d \<Longrightarrow> same_owners dl d \<Longrightarrow> webhook_ok (snd (webhook_handle env dl msg d))"
proof -
  assume h: "webhook_ok d" "same_owners dl d"
  have "snd (case r of (Inl _, d') \<Rightarrow> (Nak, d') | (Inr _, d') \<Rightarrow> (Ack, d')) = snd r" for r :: "(webhook_error + unit) \<times> WebhookDb"
    by (simp split: prod.split sum.split)
  then show ?thesis using h EnqueueEnvelope_ok [OF h] by (simp add: webhook_handle_def split: option.split)
qed

section \<open>Claims and attempts\<close>

definition unscanned :: "ClaimedDelivery \<Rightarrow> uuid \<times> uuid \<times> int" where
  "unscanned c = (cd_ID c, cd_TenantID c, cd_Attempts c)"

lemma scan_claimed_ids: "scan_all (scan_claimed cph us) rows = Inr out \<Longrightarrow> map unscanned out = map unscanned rows"
  by (induction rows arbitrary: out) (auto simp: bindE_Inr_iff scan_claimed_def unscanned_def)

lemma ClaimDue_result:
  assumes "ClaimDue cph us locked limit lease now d = (Inr cs, e)"
  defines "ids \<equiv> map del_ID (due_rows locked limit now d)"
  shows "map unscanned cs = map (\<lambda>x. (del_ID x, del_TenantID x, del_Attempts x)) (sort_key del_CreatedAt (filter (\<lambda>x. del_ID x \<in> set ids) (wd_dels d)))"
    and "e = update_dels (\<lambda>x. del_ID x \<in> set ids) (\<lambda>x. x\<lparr>del_NextAttemptAt := now + lease\<rparr>) d"
proof -
  have s: "scan_all (scan_claimed cph us) (fst (claim_due_deliveries locked limit lease now d)) = Inr cs"
    and e: "e = snd (claim_due_deliveries locked limit lease now d)"
    using assms(1) by (auto simp: ClaimDue_def system_tx_def bindE_def split: sum.splits prod.splits)
  show "e = update_dels (\<lambda>x. del_ID x \<in> set ids) (\<lambda>x. x\<lparr>del_NextAttemptAt := now + lease\<rparr>) d"
    using e by (simp add: claim_due_deliveries_def Let_def ids_def)
  show "map unscanned cs = map (\<lambda>x. (del_ID x, del_TenantID x, del_Attempts x)) (sort_key del_CreatedAt (filter (\<lambda>x. del_ID x \<in> set ids) (wd_dels d)))"
    using scan_claimed_ids [OF s]
    by (simp add: claim_due_deliveries_def Let_def ids_def comp_def unscanned_def claimed_row_def)
qed

lemma ClaimDue_error: "ClaimDue cph us locked limit lease now d = (Inl err, e) \<Longrightarrow> e = d"
  by (auto simp: ClaimDue_def system_tx_def split: sum.splits prod.splits)

lemma due_rows_due: "x \<in> set (due_rows locked limit now d) \<Longrightarrow> x \<in> set (wd_dels d) \<and> is_due now d x \<and> \<not> locked (del_ID x)"
  unfolding due_rows_def by (drule in_set_takeD) simp

lemma due_attempts: "delivery_ok x \<Longrightarrow> is_due now d x \<Longrightarrow> 0 \<le> del_Attempts x \<and> del_Attempts x < MaxAttempts"
  by (auto simp: delivery_ok_def is_due_def MaxAttempts_def)

lemma claimed_delivery:
  assumes ok: "webhook_ok d" and cl: "ClaimDue cph us locked limit lease now d = (Inr cs, e)" and c: "c \<in> set cs"
  obtains x where "x \<in> set (due_rows locked limit now d)" "cd_ID c = del_ID x" "cd_TenantID c = del_TenantID x" "cd_Attempts c = del_Attempts x"
proof -
  let ?ids = "map del_ID (due_rows locked limit now d)"
  have "unscanned c \<in> set (map unscanned cs)" using c by simp
  then obtain y where y: "y \<in> set (wd_dels d)" "del_ID y \<in> set ?ids" "unscanned c = (del_ID y, del_TenantID y, del_Attempts y)"
    unfolding ClaimDue_result(1) [OF cl] by auto
  then obtain x where x: "x \<in> set (due_rows locked limit now d)" "del_ID x = del_ID y" by auto
  have "x = y" using ok x y(1) due_rows_due [OF x(1)] by (auto simp: webhook_ok_def distinct_map inj_on_def)
  then show thesis using that [OF x(1)] y(3) by (simp add: unscanned_def)
qed

lemma ClaimDue_ok:
  assumes ok: "webhook_ok d" and cl: "ClaimDue cph us locked limit lease now d = (Inr cs, e)"
  shows "webhook_ok e" "list_all claim_ok cs"
proof -
  show "webhook_ok e"
    unfolding ClaimDue_result(2) [OF cl]
  proof (rule webhook_ok_update_dels [OF ok])
    show "delivery_ok (x\<lparr>del_NextAttemptAt := now + lease\<rparr>)" if "x \<in> set (wd_dels d)" for x
      using ok that by (auto simp: webhook_ok_def delivery_ok_def)
  qed (simp add: keeps_delivery_def)
  have "claim_ok c" if c: "c \<in> set cs" for c
  proof -
    obtain x where x: "x \<in> set (due_rows locked limit now d)" "cd_Attempts c = del_Attempts x"
      by (rule claimed_delivery [OF ok cl c])
    then show ?thesis using ok due_rows_due [OF x(1)] due_attempts [of x now d] by (auto simp: webhook_ok_def claim_ok_def)
  qed
  then show "list_all claim_ok cs" by (simp add: list_all_iff)
qed

text \<open>What an attempt records: a delivery, a failure with its new attempt count, or nothing when the error text is refused.\<close>

definition record_failure :: "int \<Rightarrow> int option \<Rightarrow> string \<Rightarrow> timestamp \<Rightarrow> Delivery \<Rightarrow> Delivery" where
  "record_failure attempts code err after x =
     x\<lparr>del_Status := (if IsDead attempts then StatusDead else StatusFailed), del_Attempts := attempts, del_LastStatusCode := code,
       del_LastError := Some err, del_NextAttemptAt := (if IsDead attempts then after else after + Backoff attempts)\<rparr>"

definition record_success :: "timestamp \<Rightarrow> int \<Rightarrow> Delivery \<Rightarrow> Delivery" where
  "record_success at code x =
     x\<lparr>del_Status := StatusDelivered, del_DeliveredAt := Some at, del_LastStatusCode := Some code, del_LastError := None\<rparr>"

lemma process_cases:
  obtains (skip) "process post env ck c d = d"
  | (sent) code where "Send post env ck c = Inr code" "200 \<le> code" "code < 300"
      "process post env ck c d = update_dels (\<lambda>x. del_ID x = cd_ID c \<and> del_TenantID x = cd_TenantID c) (record_success (ck_db ck) code) d"
  | (failed) code err where
      "process post env ck c d = update_dels (\<lambda>x. del_ID x = cd_ID c \<and> del_TenantID x = cd_TenantID c)
         (record_failure (cd_Attempts c + 1) code err (ck_after ck)) d"
proof (cases "cd_TenantID c = uuid_Nil")
  case True
  then show thesis by (intro skip) (simp add: process_def Let_def MarkFailed_def MarkDelivered_def tenant_tx_def split: sum.split)
next
  case False
  have *: "snd (MarkFailed (cd_TenantID c) (cd_ID c) (cd_Attempts c + 1) code err
      (if IsDead (cd_Attempts c + 1) then ck_after ck else ck_after ck + Backoff (cd_Attempts c + 1)) (IsDead (cd_Attempts c + 1)) d)
    = (if utf8_text err then update_dels (\<lambda>x. del_ID x = cd_ID c \<and> del_TenantID x = cd_TenantID c)
         (record_failure (cd_Attempts c + 1) code err (ck_after ck)) d else d)" for code err
    using False by (simp add: MarkFailed_def tenant_tx_def system_tx_def record_failure_def [abs_def])
  show thesis
  proof (cases "Send post env ck c")
    case (Inl err)
    then show thesis
      using skip failed by (cases "utf8_text (truncate_text err maxErrorLen)") (simp_all add: process_def Let_def *)
  next
    case (Inr code)
    show thesis
    proof (cases "200 \<le> code \<and> code < 300")
      case True
      then show thesis
        using sent [OF Inr] Inr False
        by (simp add: process_def Let_def MarkDelivered_def tenant_tx_def system_tx_def record_success_def [abs_def])
    next
      case f: False
      let ?t = "''endpoint returned status '' @ show_int code"
      have p: "process post env ck c d = (if utf8_text ?t then update_dels (\<lambda>x. del_ID x = cd_ID c \<and> del_TenantID x = cd_TenantID c)
          (record_failure (cd_Attempts c + 1) (Some code) ?t (ck_after ck)) d else d)"
        using Inr f unfolding process_def Let_def * by (auto simp del: utf8_text.simps)
      show thesis by (cases "utf8_text ?t") (rule failed [of "Some code" ?t], use p in simp, rule skip, use p in simp)
    qed
  qed
qed

lemma record_keeps [simp]: "keeps_delivery (record_success at code)" "keeps_delivery (record_failure n code' err after)"
  by (simp_all add: keeps_delivery_def record_success_def record_failure_def)

lemma process_ok:
  assumes ok: "webhook_ok d" and c: "claim_ok c"
  shows "webhook_ok (process post env ck c d)"
proof (cases rule: process_cases [of post env ck c d])
  case (sent code)
  have "delivery_ok (record_success (ck_db ck) code x)" if "delivery_ok x" for x
    using that by (auto simp: delivery_ok_def record_success_def MaxAttempts_def)
  then show ?thesis unfolding sent(4) using ok by (intro webhook_ok_update_dels) (auto simp: webhook_ok_def)
next
  case (failed code err)
  have "delivery_ok (record_failure (cd_Attempts c + 1) code err (ck_after ck) x)" for x
    using c by (auto simp: delivery_ok_def record_failure_def claim_ok_def IsDead_def MaxAttempts_def)
  then show ?thesis unfolding failed using ok by (intro webhook_ok_update_dels) auto
qed (use ok in simp)

section \<open>Every interleaving\<close>

text \<open>
  A state: the tables, and the claims whose attempts the workers have yet to record. Requests, events,
  sweeps, claims and recorded attempts interleave in any order; a worker that crashes forgets a claim.
\<close>

type_synonym webhook_state = "WebhookDb \<times> ClaimedDelivery list"

inductive webhook_step :: "webhook_state \<Rightarrow> webhook_state \<Rightarrow> bool" where
  subscribe: "webhook_step (d, cl) (snd (CreateSubscription env tn https url types d), cl)"
| update: "webhook_step (d, cl) (snd (UpdateSubscription env tn https i patch d), cl)"
| rotate: "webhook_step (d, cl) (snd (RotateSecret env tn i d), cl)"
| sweep: "webhook_step (d, cl) (snd (PurgeExpiredPreviousSecrets now d), cl)"
| reencrypt: "webhook_step (d, cl) (snd (ReencryptPlaintextSecrets cph nonces us dl d), cl)"
| event: "same_owners dl d \<Longrightarrow> webhook_step (d, cl) (snd (webhook_handle env dl msg d), cl)"
| retry: "webhook_step (d, cl) (snd (RetryDelivery env tn i d), cl)"
| purge: "webhook_step (d, cl) (snd (webhook_Tenant tn d), cl)"
| claim: "ClaimDue cph us locked limit lease now d = (Inr cs, e) \<Longrightarrow> webhook_step (d, cl) (e, cl @ cs)"
| attempt: "c \<in> set cl \<Longrightarrow> webhook_step (d, cl) (process post env ck c d, remove1 c cl)"
| crash: "webhook_step (d, cl) (d, remove1 c cl)"

definition state_ok :: "webhook_state \<Rightarrow> bool" where
  "state_ok s \<longleftrightarrow> webhook_ok (fst s) \<and> list_all claim_ok (snd s)"

lemma list_all_remove1: "list_all P xs \<Longrightarrow> list_all P (remove1 x xs)"
  by (induction xs) auto

lemma webhook_step_ok: "webhook_step s s' \<Longrightarrow> state_ok s \<Longrightarrow> state_ok s'"
proof (induction rule: webhook_step.induct)
  case (claim cph us locked limit lease now d cs e cl)
  then show ?case using ClaimDue_ok [of d] by (auto simp: state_ok_def)
next
  case (attempt c cl d post env ck)
  then show ?case using process_ok [of d c] by (auto simp: state_ok_def list_all_remove1 list_all_iff)
qed (auto simp: state_ok_def list_all_remove1 CreateSubscription_ok UpdateSubscription_ok RotateSecret_ok PurgeExpired_ok Reencrypt_ok
    webhook_handle_ok RetryDelivery_ok webhook_Tenant_ok)

interpretation webhooks: invariant_of "(empty_webhooks, [])" webhook_step state_ok
proof
  show "state_ok (empty_webhooks, [])" by (simp add: state_ok_def webhook_ok_def empty_webhooks_def)
qed (rule webhook_step_ok)

section \<open>Properties\<close>

text \<open>
  C27. In every state the webhooks service can reach, however requests, events, claims and attempts
  interleave: an event has at most one delivery per subscription, a delivery belongs to the tenant of its
  subscription, and its status agrees with its attempts: none while pending, one to four after a failure,
  five exactly when it is dead.
\<close>

theorem reachable_deliveries:
  assumes "webhook_step\<^sup>*\<^sup>* (empty_webhooks, []) (d, cl)"
  shows "distinct (map (\<lambda>x. (del_SubscriptionID x, del_EventID x)) (wd_dels d))
    \<and> (\<forall>x \<in> set (wd_dels d). (\<exists>s \<in> set (wd_subs d). sub_ID s = del_SubscriptionID x \<and> sub_TenantID s = del_TenantID x)
         \<and> (del_Status x = StatusPending \<longrightarrow> del_Attempts x = 0)
         \<and> (del_Status x = StatusFailed \<longrightarrow> 1 \<le> del_Attempts x \<and> del_Attempts x < 5)
         \<and> (del_Status x = StatusDead \<longrightarrow> del_Attempts x = 5)
         \<and> (del_Status x = StatusDelivered \<longrightarrow> del_Attempts x \<le> 5 \<and> del_DeliveredAt x \<noteq> None)
         \<and> ValidStatus (del_Status x))"
proof -
  have "webhook_ok d" using webhooks.reachable [OF assms] by (simp add: state_ok_def)
  then show ?thesis by (auto simp: webhook_ok_def owned_def delivery_ok_def ValidStatus_def MaxAttempts_def)
qed

text \<open>A sample run: a subscription, an event, a claim, a failed attempt.\<close>

definition sample_cipher :: Cipher where
  "sample_cipher = \<lparr>cph_NonceSize = 2, cph_Seal = (\<lambda>n p a. a @ p),
     cph_Open = (\<lambda>n c a. if take (length a) c = a then Some (drop (length a) c) else None)\<rparr>"

definition sample_event :: "string Envelope" where
  "sample_event = \<lparr>env_ID = 50, env_Type = ''ledger.hold.created'', env_TenantID = 1, env_OccurredAt = 5, env_Version = 1, env_Data = ''{}''\<rparr>"

definition sample_wenv :: "nat \<Rightarrow> WebhookEnv" where
  "sample_wenv n = \<lparr>we_cipher = Some sample_cipher, we_nonces = (\<lambda>_. Some ''ab''), we_us = sample_uuidString,
     we_parse = (\<lambda>_. Some (''a.example'', ''https'')), we_jsonb = Some, we_marshal = (\<lambda>_. None),
     we_unmarshal = (\<lambda>_. Some sample_event), we_hmac = sample_hmac, we_newID = (\<lambda>k. word_of_nat (n + k)),
     we_rand = (\<lambda>i. Some 10), we_now = int n, we_dbnow = int n\<rparr>"

definition sample_subscribed :: WebhookDb where
  "sample_subscribed = snd (CreateSubscription (sample_wenv 10) 1 True ''u'' [''*''] empty_webhooks)"

definition sample_enqueued :: WebhookDb where
  "sample_enqueued = snd (webhook_handle (sample_wenv 20) sample_subscribed ''e'' sample_subscribed)"

lemma sample_webhooks:
  "webhook_step\<^sup>*\<^sup>* (empty_webhooks, []) (sample_subscribed, [])" "webhook_step\<^sup>*\<^sup>* (empty_webhooks, []) (sample_enqueued, [])"
proof -
  show s: "webhook_step\<^sup>*\<^sup>* (empty_webhooks, []) (sample_subscribed, [])"
    unfolding sample_subscribed_def by (rule r_into_rtranclp) (rule webhook_step.subscribe)
  have "same_owners sample_subscribed sample_subscribed"
    using webhooks.reachable [OF s] by (intro same_owners_refl) (simp add: state_ok_def)
  then show "webhook_step\<^sup>*\<^sup>* (empty_webhooks, []) (sample_enqueued, [])"
    unfolding sample_enqueued_def by (rule rtranclp.rtrancl_into_rtrancl [OF s webhook_step.event])
qed

theorem reachable_deliveries_witness:
  "map del_Status (wd_dels sample_enqueued) = [StatusPending] \<and> del_Attempts (hd (wd_dels sample_enqueued)) = 0"
proof -
  have s: "map del_Status (wd_dels sample_enqueued) = [StatusPending]" by code_simp
  then have "hd (wd_dels sample_enqueued) \<in> set (wd_dels sample_enqueued)" "del_Status (hd (wd_dels sample_enqueued)) = StatusPending"
    by (cases "wd_dels sample_enqueued"; simp)+
  then show ?thesis using s reachable_deliveries [OF sample_webhooks(2)] by blast
qed

section \<open>The fan-out of an event\<close>

definition pair_of :: "Delivery \<Rightarrow> uuid \<times> uuid" where
  "pair_of x = (del_SubscriptionID x, del_EventID x)"

lemma insert_delivery_effect:
  assumes "insert_delivery jsonb tn x d = Inr e"
  shows "pair_of ` set (wd_dels e) = insert (pair_of x) (pair_of ` set (wd_dels d)) \<and> wd_subs e = wd_subs d
    \<and> (\<exists>n. wd_dels e = wd_dels d @ n \<and> (\<forall>y \<in> set n. del_Status y = del_Status x \<and> del_EventID y = del_EventID x)) \<and> jsonb (del_Payload x) \<noteq> None"
  using assms by (auto simp: insert_delivery_def pair_of_def list_ex_iff image_iff split: option.splits if_splits) metis

lemma insert_deliveries_effect:
  assumes "insert_deliveries jsonb tn ds d = Inr e" and "\<forall>x \<in> set ds. del_Status x = StatusPending \<and> del_EventID x = ev"
  shows "pair_of ` set (wd_dels e) = pair_of ` set (wd_dels d) \<union> pair_of ` set ds \<and> wd_subs e = wd_subs d
    \<and> (\<exists>n. wd_dels e = wd_dels d @ n \<and> (\<forall>y \<in> set n. del_Status y = StatusPending \<and> del_EventID y = ev))"
  using assms
proof (induction ds arbitrary: d)
  case (Cons x ds)
  then obtain d1 where d1: "insert_delivery jsonb tn x d = Inr d1" "insert_deliveries jsonb tn ds d1 = Inr e"
    by (auto simp: bindE_Inr_iff)
  obtain n where n: "wd_dels d1 = wd_dels d @ n" "\<forall>y \<in> set n. del_Status y = StatusPending \<and> del_EventID y = ev"
    using insert_delivery_effect [OF d1(1)] Cons.prems(2) by auto
  obtain m where m: "wd_dels e = wd_dels d1 @ m" "\<forall>y \<in> set m. del_Status y = StatusPending \<and> del_EventID y = ev"
    using Cons.IH [OF d1(2)] Cons.prems(2) by auto
  have "wd_dels e = wd_dels d @ (n @ m)" "\<forall>y \<in> set (n @ m). del_Status y = StatusPending \<and> del_EventID y = ev"
    using n m by auto
  moreover have "pair_of ` set (wd_dels e) = pair_of ` set (wd_dels d) \<union> pair_of ` set (x # ds)" "wd_subs e = wd_subs d"
    using Cons.IH [OF d1(2)] Cons.prems(2) insert_delivery_effect [OF d1(1)] by auto
  ultimately show ?case by blast
qed simp

lemma insert_deliveries_again:
  assumes "\<forall>x \<in> set ds. pair_of x \<in> pair_of ` set (wd_dels d) \<and> jsonb (del_Payload x) \<noteq> None \<and> del_TenantID x = tn \<and> del_Status x = StatusPending"
  shows "insert_deliveries jsonb tn ds d = Inr d"
  using assms
proof (induction ds)
  case (Cons x ds)
  obtain y where "y \<in> set (wd_dels d)" "pair_of y = pair_of x" using Cons.prems by auto
  then have "list_ex (\<lambda>y. del_SubscriptionID y = del_SubscriptionID x \<and> del_EventID y = del_EventID x) (wd_dels d)"
    by (auto simp: list_ex_iff pair_of_def)
  then have "insert_delivery jsonb tn x d = Inr d"
    using Cons.prems by (auto simp: insert_delivery_def ValidStatus_def)
  then show ?case using Cons by simp
qed simp

lemma insert_deliveries_json: "insert_deliveries jsonb tn ds d = Inr e \<Longrightarrow> x \<in> set ds \<Longrightarrow> jsonb (del_Payload x) \<noteq> None \<and> del_TenantID x = tn"
proof (induction ds arbitrary: d)
  case (Cons y ds)
  then obtain d1 where d1: "insert_delivery jsonb tn y d = Inr d1" "insert_deliveries jsonb tn ds d1 = Inr e"
    by (auto simp: bindE_Inr_iff)
  have "jsonb (del_Payload y) \<noteq> None \<and> del_TenantID y = tn"
    using d1(1) by (auto simp: insert_delivery_def split: option.splits if_splits)
  then show ?case using Cons.IH [OF d1(2)] Cons.prems(2) by auto
qed simp

lemma fan_out_members:
  "x \<in> set (fan_out env e payload k subs) \<Longrightarrow> del_Status x = StatusPending \<and> del_EventID x = env_ID e \<and> del_TenantID x = env_TenantID e \<and> del_Payload x = payload"
  by (induction subs arbitrary: k) (auto simp: new_delivery_def split: if_splits)

lemma fan_out_pairs:
  "pair_of ` set (fan_out env e payload k subs) = (\<lambda>s. (sub_ID s, env_ID e)) ` {s \<in> set subs. Matches (sub_EventTypes s) (env_Type e)}"
  by (induction subs arbitrary: k) (auto simp: new_delivery_def pair_of_def)

lemma ListActive_cong: "wd_subs d' = wd_subs d \<Longrightarrow> fst (repo_ListActive cph us tn d') = fst (repo_ListActive cph us tn d)"
  by (simp add: repo_ListActive_def querySubscriptions_def tenant_tx_def system_tx_def bindE_def split: sum.split)

text \<open>The subscriptions an event must reach.\<close>

definition reached :: "WebhookDb \<Rightarrow> string Envelope \<Rightarrow> Subscription set" where
  "reached d e = {s \<in> set (wd_subs d). sub_TenantID s = env_TenantID e \<and> sub_Active s \<and> Matches (sub_EventTypes s) (env_Type e)}"

lemma map_eq_images:
  assumes "map f xs = map f ys" and "map g xs = map g ys"
  shows "f ` {x \<in> set xs. P (g x)} = f ` {x \<in> set ys. P (g x)}"
proof -
  have "map (\<lambda>x. (f x, g x)) xs = map (\<lambda>x. (f x, g x)) ys"
    using assms by (simp add: list_eq_iff_nth_eq map_equality_iff)
  then have "(\<lambda>x. (f x, g x)) ` set xs = (\<lambda>x. (f x, g x)) ` set ys" by (metis set_map)
  then have "fst ` {p \<in> (\<lambda>x. (f x, g x)) ` set xs. P (snd p)} = fst ` {p \<in> (\<lambda>x. (f x, g x)) ` set ys. P (snd p)}" by simp
  moreover have "fst ` {p \<in> (\<lambda>x. (f x, g x)) ` set zs. P (snd p)} = f ` {x \<in> set zs. P (g x)}" for zs by force
  ultimately show ?thesis by simp
qed

lemma ListActive_reached:
  assumes "fst (repo_ListActive cph us (env_TenantID e) d) = Inr subs"
  shows "sub_ID ` {s \<in> set subs. Matches (sub_EventTypes s) (env_Type e)} = sub_ID ` reached d e"
proof -
  obtain rows where r: "mset rows = mset (filter (\<lambda>s. sub_TenantID s = env_TenantID e \<and> sub_Active s) (wd_subs d))"
    "map sub_ID subs = map sub_ID rows" "map sub_EventTypes subs = map sub_EventTypes rows"
    by (rule ListActive_result [OF assms])
  have "sub_ID ` {s \<in> set subs. Matches (sub_EventTypes s) (env_Type e)} = sub_ID ` {s \<in> set rows. Matches (sub_EventTypes s) (env_Type e)}"
    by (rule map_eq_images [OF r(2,3)])
  also have "{s \<in> set rows. Matches (sub_EventTypes s) (env_Type e)} = reached d e"
    using mset_eq_setD [OF r(1)] by (auto simp: reached_def)
  finally show ?thesis .
qed

lemma webhook_handle_Ack:
  assumes "webhook_handle env d msg d = (Ack, d')" and "we_unmarshal env msg = Some e"
  obtains subs where "env_ID e \<noteq> uuid_Nil" "env_TenantID e \<noteq> uuid_Nil" "env_Type e \<noteq> ''''"
    "fst (repo_ListActive (we_cipher env) (we_us env) (env_TenantID e) d) = Inr subs"
    "insert_deliveries (we_jsonb env) (env_TenantID e) (fan_out env e msg 0 subs) d = Inr d'"
proof -
  have h: "env_ID e \<noteq> uuid_Nil" "env_TenantID e \<noteq> uuid_Nil" "env_Type e \<noteq> ''''" "EnqueueEnvelope env d e (Some msg) d = (Inr (), d')"
    using assms by (auto simp: webhook_handle_def split: if_splits sum.splits prod.splits)
  obtain subs where subs: "fst (repo_ListActive (we_cipher env) (we_us env) (env_TenantID e) d) = Inr subs"
    using h by (auto simp: EnqueueEnvelope_def split: sum.splits if_splits)
  have "insert_deliveries (we_jsonb env) (env_TenantID e) (fan_out env e msg 0 subs) d = Inr d'"
    using h subs by (cases "fan_out env e msg 0 subs = []")
      (auto simp: EnqueueEnvelope_def InsertPending_def tenant_tx_def system_tx_def bindE_def split: if_splits sum.splits)
  from that [OF h(1-3) subs this] show thesis .
qed

lemma webhook_handle_again:
  assumes "env_ID e \<noteq> uuid_Nil" "env_TenantID e \<noteq> uuid_Nil" "env_Type e \<noteq> ''''" "we_unmarshal env msg = Some e"
    and subs: "fst (repo_ListActive (we_cipher env) (we_us env) (env_TenantID e) d) = Inr subs"
    and ds: "insert_deliveries (we_jsonb env) (env_TenantID e) (fan_out env e msg 0 subs) d = Inr d"
  shows "webhook_handle env d msg d = (Ack, d)"
  using assms by (cases "fan_out env e msg 0 subs = []")
    (simp_all add: webhook_handle_def EnqueueEnvelope_def Let_def InsertPending_def tenant_tx_def system_tx_def)

text \<open>
  C28. An acknowledged event is fanned out exactly once: its deliveries are one for each active subscription
  of its tenant whose event types match, no earlier delivery is touched, the new ones are pending, and
  handling the message again, at any later time and with other identifiers, changes nothing.
\<close>

theorem event_fans_out_once:
  assumes ack: "webhook_handle env d msg d = (Ack, d')" and e: "we_unmarshal env msg = Some e"
  shows "pair_of ` set (wd_dels d') = pair_of ` set (wd_dels d) \<union> (\<lambda>s. (sub_ID s, env_ID e)) ` reached d e
    \<and> (\<exists>n. wd_dels d' = wd_dels d @ n \<and> list_all (\<lambda>x. del_Status x = StatusPending \<and> del_EventID x = env_ID e) n)
    \<and> webhook_handle (env\<lparr>we_newID := ids, we_now := later\<rparr>) d' msg d' = (Ack, d')"
proof -
  obtain subs where h: "env_ID e \<noteq> uuid_Nil" "env_TenantID e \<noteq> uuid_Nil" "env_Type e \<noteq> ''''"
    "fst (repo_ListActive (we_cipher env) (we_us env) (env_TenantID e) d) = Inr subs"
    "insert_deliveries (we_jsonb env) (env_TenantID e) (fan_out env e msg 0 subs) d = Inr d'"
    by (rule webhook_handle_Ack [OF ack e])
  let ?env = "env\<lparr>we_newID := ids, we_now := later\<rparr>"
  have eff: "pair_of ` set (wd_dels d') = pair_of ` set (wd_dels d) \<union> pair_of ` set (fan_out env e msg 0 subs) \<and> wd_subs d' = wd_subs d
    \<and> (\<exists>n. wd_dels d' = wd_dels d @ n \<and> (\<forall>y \<in> set n. del_Status y = StatusPending \<and> del_EventID y = env_ID e))"
    by (rule insert_deliveries_effect [OF h(5)]) (auto dest: fan_out_members)
  have pairs: "pair_of ` set (fan_out env' e msg 0 subs) = (\<lambda>s. (sub_ID s, env_ID e)) ` reached d e" for env'
    using ListActive_reached [OF h(4)] unfolding fan_out_pairs by (simp add: image_image [symmetric, of "\<lambda>i. (i, env_ID e)" sub_ID])
  have json: "we_jsonb env msg \<noteq> None" if "fan_out ?env e msg 0 subs \<noteq> []"
  proof -
    have "pair_of ` set (fan_out ?env e msg 0 subs) \<noteq> {}" using that by (simp del: fan_out.simps)
    then have "pair_of ` set (fan_out env e msg 0 subs) \<noteq> {}" unfolding pairs .
    then obtain x where "x \<in> set (fan_out env e msg 0 subs)" by (metis image_is_empty ex_in_conv)
    then show ?thesis using insert_deliveries_json [OF h(5)] fan_out_members by metis
  qed
  have "insert_deliveries (we_jsonb ?env) (env_TenantID e) (fan_out ?env e msg 0 subs) d' = Inr d'"
  proof (rule insert_deliveries_again, intro ballI)
    fix x
    assume x: "x \<in> set (fan_out ?env e msg 0 subs)"
    have "pair_of x \<in> (\<lambda>s. (sub_ID s, env_ID e)) ` reached d e" using imageI [OF x, of pair_of] unfolding pairs .
    then have "pair_of x \<in> pair_of ` set (wd_dels d')" using conjunct1 [OF eff, unfolded pairs] by (simp only: Un_iff) simp
    moreover have "fan_out ?env e msg 0 subs \<noteq> []" using x by auto
    ultimately show "pair_of x \<in> pair_of ` set (wd_dels d') \<and> we_jsonb ?env (del_Payload x) \<noteq> None \<and> del_TenantID x = env_TenantID e \<and> del_Status x = StatusPending"
      using fan_out_members [OF x] json by simp
  qed
  then have "webhook_handle ?env d' msg d' = (Ack, d')"
    using h e ListActive_cong [of d' d] eff by (intro webhook_handle_again [where subs = subs]) simp_all
  then show ?thesis using eff unfolding pairs list_all_iff by blast
qed

theorem event_fans_out_once_witness:
  "webhook_handle (sample_wenv 20\<lparr>we_newID := \<lambda>_. 3, we_now := 99\<rparr>) sample_enqueued ''e'' sample_enqueued = (Ack, sample_enqueued)"
proof -
  have "fst (webhook_handle (sample_wenv 20) sample_subscribed ''e'' sample_subscribed) = Ack" by code_simp
  then have "webhook_handle (sample_wenv 20) sample_subscribed ''e'' sample_subscribed = (Ack, sample_enqueued)"
    by (simp add: sample_enqueued_def prod_eq_iff)
  moreover have "we_unmarshal (sample_wenv 20) ''e'' = Some sample_event" by (simp add: sample_wenv_def)
  ultimately show ?thesis using event_fans_out_once by blast
qed

end
