(* ===== verification/Webhook_Worker.thy ===== *)
theory Webhook_Worker
  imports Webhook_Theorems
begin

text \<open>
  The delivery worker: a tick ends, attempts every delivery at most once and, when the endpoints accept,
  delivers everything that was due; the retry policy; the secrets at rest; the address filter.
\<close>

section \<open>Ticks\<close>

text \<open>
  The deliveries a tick that starts at \<open>T\<close> may attempt: those that can become due within a minute of it,
  the shortest backoff. Claiming a delivery moves it two minutes ahead, recording a failure at least one.
\<close>

definition soon :: "timestamp \<Rightarrow> Delivery \<Rightarrow> bool" where
  "soon T x \<longleftrightarrow> (del_Status x = StatusPending \<or> del_Status x = StatusFailed) \<and> del_NextAttemptAt x < T + 60 * Second"

definition soon_ids :: "timestamp \<Rightarrow> WebhookDb \<Rightarrow> uuid set" where
  "soon_ids T d = del_ID ` {x \<in> set (wd_dels d). soon T x}"

text \<open>The clocks of a tick that takes less than a minute.\<close>

definition within_minute :: "timestamp \<Rightarrow> TickEnv \<Rightarrow> bool" where
  "within_minute T t \<longleftrightarrow> (\<forall>k. T \<le> tk_clock t k \<and> tk_clock t k < T + 60 * Second) \<and> (\<forall>i. T \<le> ck_after (tk_clocks t i))"

lemma process_soon:
  assumes "T \<le> ck_after ck" and "y \<in> set (wd_dels (process post env ck c d))"
  obtains x where "x \<in> set (wd_dels d)" "del_ID y = del_ID x" "soon T y \<Longrightarrow> soon T x" "del_ID x \<noteq> cd_ID c \<Longrightarrow> y = x"
    "del_SubscriptionID y = del_SubscriptionID x"
proof (cases rule: process_cases [of post env ck c d])
  case skip
  then show thesis using that [of y] assms(2) by simp
next
  case (sent code)
  then obtain x where x: "x \<in> set (wd_dels d)"
    "y = (if del_ID x = cd_ID c \<and> del_TenantID x = cd_TenantID c then record_success (ck_db ck) code x else x)"
    using assms(2) by auto
  show thesis by (rule that [of x]) (use x in \<open>auto simp: record_success_def soon_def split: if_splits\<close>)
next
  case (failed code err)
  then obtain x where x: "x \<in> set (wd_dels d)"
    "y = (if del_ID x = cd_ID c \<and> del_TenantID x = cd_TenantID c then record_failure (cd_Attempts c + 1) code err (ck_after ck) x else x)"
    using assms(2) by auto
  have "\<not> soon T (record_failure (cd_Attempts c + 1) code err (ck_after ck) x)"
    using assms(1) Backoff_cases(2) [of "cd_Attempts c + 1"] by (auto simp: soon_def record_failure_def)
  then show thesis by - (rule that [of x], use x in \<open>auto simp: record_failure_def split: if_splits\<close>)
qed

lemma process_keeps_rows:
  "map del_ID (wd_dels (process post env ck c d)) = map del_ID (wd_dels d)" "wd_subs (process post env ck c d) = wd_subs d"
  "x \<in> set (wd_dels d) \<Longrightarrow> del_ID x \<noteq> cd_ID c \<Longrightarrow> x \<in> set (wd_dels (process post env ck c d))"
  by (cases rule: process_cases [of post env ck c d]; force simp: record_success_def record_failure_def image_iff)+

text \<open>A batch: only the claimed rows change, and a row is soon afterwards only if it was so before.\<close>

lemma process_batch_rows:
  assumes "\<forall>i. T \<le> ck_after (tk_clocks t i)"
  shows "map del_ID (wd_dels (process_batch t cs d)) = map del_ID (wd_dels d) \<and> wd_subs (process_batch t cs d) = wd_subs d
    \<and> (\<forall>x \<in> set (wd_dels d). del_ID x \<notin> cd_ID ` set cs \<longrightarrow> x \<in> set (wd_dels (process_batch t cs d)))
    \<and> soon_ids T (process_batch t cs d) \<subseteq> soon_ids T d"
proof (induction cs arbitrary: d)
  case (Cons c cs)
  let ?d = "process (tk_post t) (tk_env t) (tk_clocks t (cd_ID c)) c d"
  have "soon_ids T ?d \<subseteq> soon_ids T d"
  proof
    fix i
    assume "i \<in> soon_ids T ?d"
    then obtain y where y: "y \<in> set (wd_dels ?d)" "soon T y" "i = del_ID y" by (auto simp: soon_ids_def)
    obtain x where "x \<in> set (wd_dels d)" "del_ID y = del_ID x" "soon T y \<Longrightarrow> soon T x"
      using process_soon [OF spec [OF assms] y(1)] by blast
    then show "i \<in> soon_ids T d" using y by (auto simp: soon_ids_def)
  qed
  then show ?case
    using Cons.IH [of ?d] process_keeps_rows [where c = c and d = d] by (auto simp: process_batch_def)
qed (simp add: process_batch_def)

lemma process_batch_soon:
  assumes "\<forall>i. T \<le> ck_after (tk_clocks t i)"
  shows "y \<in> set (wd_dels (process_batch t cs d)) \<Longrightarrow> soon T y \<Longrightarrow> \<exists>x \<in> set (wd_dels d). soon T x \<and> del_SubscriptionID x = del_SubscriptionID y"
proof (induction cs arbitrary: d)
  case (Cons c cs)
  let ?d = "process (tk_post t) (tk_env t) (tk_clocks t (cd_ID c)) c d"
  obtain z where z: "z \<in> set (wd_dels ?d)" "soon T z" "del_SubscriptionID z = del_SubscriptionID y"
    using Cons.IH [of ?d] Cons.prems by (auto simp: process_batch_def)
  obtain x where "x \<in> set (wd_dels d)" "soon T z \<Longrightarrow> soon T x" "del_SubscriptionID z = del_SubscriptionID x"
    using process_soon [OF spec [OF assms] z(1)] by blast
  then show ?case using z by auto
qed (auto simp: process_batch_def)

lemma process_batch_ok: "webhook_ok d \<Longrightarrow> list_all claim_ok cs \<Longrightarrow> webhook_ok (process_batch t cs d)"
  by (induction cs arbitrary: d) (auto simp: process_batch_def process_ok)

lemma claimed_ids:
  assumes ok: "webhook_ok d" and cl: "ClaimDue cph us locked limit lease now d = (Inr cs, e)"
  shows "distinct (map cd_ID cs)" "cd_ID ` set cs = del_ID ` set (due_rows locked limit now d)" "length cs = length (due_rows locked limit now d)"
proof -
  let ?rows = "due_rows locked limit now d"
  let ?kept = "filter (\<lambda>x. del_ID x \<in> set (map del_ID ?rows)) (wd_dels d)"
  have "map fst (map unscanned cs) = map del_ID (sort_key del_CreatedAt ?kept)"
    unfolding ClaimDue_result(1) [OF cl] by (simp add: comp_def)
  then have ids: "map cd_ID cs = map del_ID (sort_key del_CreatedAt ?kept)" by (simp add: comp_def unscanned_def)
  have dist: "distinct (map del_ID (wd_dels d))" using ok by (simp add: webhook_ok_def)
  have "mset (map cd_ID cs) = mset (map del_ID ?kept)" unfolding ids by simp
  then have "distinct (map cd_ID cs) = distinct (map del_ID ?kept)" by (rule mset_eq_imp_distinct_iff)
  then show d1: "distinct (map cd_ID cs)" using dist by (simp add: distinct_map_filter)
  have rows: "distinct (map del_ID ?rows)"
  proof -
    have "mset (map del_ID (sort_key del_NextAttemptAt (filter P (wd_dels d)))) = mset (map del_ID (filter P (wd_dels d)))" for P
      by simp
    from mset_eq_imp_distinct_iff [OF this] show ?thesis
      using dist unfolding due_rows_def by (simp add: take_map [symmetric] distinct_map_filter del: take_map)
  qed
  have sub: "del_ID ` set ?rows \<subseteq> del_ID ` set (wd_dels d)" using due_rows_due by blast
  show s: "cd_ID ` set cs = del_ID ` set ?rows"
  proof -
    have "cd_ID ` set cs = set (map cd_ID cs)" by simp
    also have "\<dots> = del_ID ` {x \<in> set (wd_dels d). del_ID x \<in> del_ID ` set ?rows}" unfolding ids by simp
    also have "\<dots> = del_ID ` set (wd_dels d) \<inter> del_ID ` set ?rows" by (auto simp del: set_sort)
    also have "\<dots> = del_ID ` set ?rows" using sub by (rule Int_absorb1)
    finally show ?thesis .
  qed
  have "length cs = card (cd_ID ` set cs)" using distinct_card [OF d1] by simp
  also have "\<dots> = length ?rows" unfolding s using distinct_card [OF rows] by simp
  finally show "length cs = length ?rows" .
qed
lemma claim_moves:
  assumes cl: "ClaimDue cph us locked limit DefaultLease now d = (Inr cs, e)" and ok: "webhook_ok d" and now: "T \<le> now" "now < T + 60 * Second"
  shows "cd_ID ` set cs \<subseteq> soon_ids T d" "soon_ids T e \<subseteq> soon_ids T d - cd_ID ` set cs"
    "map del_ID (wd_dels e) = map del_ID (wd_dels d)" "wd_subs e = wd_subs d"
    "\<And>x. x \<in> set (wd_dels d) \<Longrightarrow> del_ID x \<notin> cd_ID ` set cs \<Longrightarrow> x \<in> set (wd_dels e)"
proof -
  note ids = claimed_ids(2) [OF ok cl] and e = ClaimDue_result(2) [OF cl]
  show "cd_ID ` set cs \<subseteq> soon_ids T d"
    unfolding ids soon_ids_def using now(2) by (force simp: soon_def is_due_def dest: due_rows_due)
  have lease: "\<not> soon T (x\<lparr>del_NextAttemptAt := now + DefaultLease\<rparr>)" for x
    using now by (simp add: soon_def DefaultLease_def)
  show "soon_ids T e \<subseteq> soon_ids T d - cd_ID ` set cs"
    unfolding ids e using lease by (auto simp: soon_ids_def split: if_splits)
  show "map del_ID (wd_dels e) = map del_ID (wd_dels d)" "wd_subs e = wd_subs d" unfolding e by simp_all
  show "x \<in> set (wd_dels e)" if "x \<in> set (wd_dels d)" "del_ID x \<notin> cd_ID ` set cs" for x
    using that unfolding ids e by (force simp: image_iff)
qed

lemma batch_moves:
  assumes cl: "ClaimDue cph us locked limit DefaultLease now d = (Inr cs, d1)" and ok: "webhook_ok d" and now: "T \<le> now" "now < T + 60 * Second"
    and ck: "\<forall>i. T \<le> ck_after (tk_clocks t i)"
  defines "e \<equiv> process_batch t cs d1"
  shows "webhook_ok e" "soon_ids T e \<subseteq> soon_ids T d - cd_ID ` set cs" "cd_ID ` set cs \<subseteq> soon_ids T d" "wd_subs e = wd_subs d"
    "\<And>x. x \<in> set (wd_dels d) \<Longrightarrow> del_ID x \<notin> cd_ID ` set cs \<Longrightarrow> x \<in> set (wd_dels e)"
proof -
  note m = claim_moves [OF cl ok now] and b = process_batch_rows [OF ck, of cs d1]
  show "webhook_ok e" unfolding e_def using ClaimDue_ok [OF ok cl] by (intro process_batch_ok)
  show "soon_ids T e \<subseteq> soon_ids T d - cd_ID ` set cs" using b m(2) unfolding e_def by blast
  show "cd_ID ` set cs \<subseteq> soon_ids T d" "wd_subs e = wd_subs d" using m(1,4) b by (simp_all add: e_def)
  show "x \<in> set (wd_dels e)" if "x \<in> set (wd_dels d)" "del_ID x \<notin> cd_ID ` set cs" for x
    using m(5) [OF that] b that(2) unfolding e_def by blast
qed

lemma soon_ids_finite [simp]: "finite (soon_ids T d)"
  by (simp add: soon_ids_def)

lemma tick_ends:
  assumes t: "within_minute T t"
  shows "webhook_ok d \<Longrightarrow> card (soon_ids T d) < n \<Longrightarrow>
    \<exists>ids e. tick n t k d = Some (ids, e) \<and> distinct ids \<and> set ids \<subseteq> soon_ids T d \<and> webhook_ok e
      \<and> (\<forall>x \<in> set (wd_dels d). del_ID x \<notin> set ids \<longrightarrow> x \<in> set (wd_dels e))"
proof (induction n arbitrary: k d)
  case (Suc n)
  let ?c = "ClaimDue (we_cipher (tk_env t)) (we_us (tk_env t)) (tk_locked t k) DefaultBatchSize DefaultLease (tk_clock t k) d"
  have now: "T \<le> tk_clock t k" "tk_clock t k < T + 60 * Second" and ck: "\<forall>i. T \<le> ck_after (tk_clocks t i)"
    using t by (simp_all add: within_minute_def)
  consider err d1 where "?c = (Inl err, d1)" | d1 where "?c = (Inr [], d1)" | cs d1 where "?c = (Inr cs, d1)" "cs \<noteq> []"
    by (cases ?c; cases "fst ?c") auto
  then show ?case
  proof cases
    case (1 err d1)
    then show ?thesis using Suc.prems(1) ClaimDue_error [OF 1] by simp
  next
    case (2 d1)
    then show ?thesis
      using ClaimDue_ok(1) [OF Suc.prems(1) 2] claim_moves(5) [OF 2 Suc.prems(1) now] by simp
  next
    case (3 cs d1)
    note b = batch_moves [OF 3(1) Suc.prems(1) now ck] and dist = claimed_ids(1) [OF Suc.prems(1) 3(1)]
    let ?e = "process_batch t cs d1"
    have "card (soon_ids T ?e) < card (soon_ids T d)"
    proof (rule psubset_card_mono)
      obtain c where "c \<in> set cs" using 3(2) by (cases cs) auto
      then have "cd_ID c \<in> soon_ids T d" "cd_ID c \<notin> soon_ids T ?e" using b(2,3) by blast+
      then show "soon_ids T ?e \<subset> soon_ids T d" using b(2) by blast
    qed simp
    then have "card (soon_ids T ?e) < n" using Suc.prems(2) by simp
    from Suc.IH [OF b(1) this, of "Suc k"] obtain ids e where r: "tick n t (Suc k) ?e = Some (ids, e)" "distinct ids"
      "set ids \<subseteq> soon_ids T ?e" "webhook_ok e" "\<forall>x \<in> set (wd_dels ?e). del_ID x \<notin> set ids \<longrightarrow> x \<in> set (wd_dels e)" by blast
    show ?thesis
    proof (cases "length cs < DefaultBatchSize \<or> tk_cancelled t k")
      case True
      then show ?thesis using 3 b(1,3,5) dist by (auto simp: Let_def)
    next
      case False
      have "distinct (map cd_ID cs @ ids)" using dist r(2,3) b(2) by auto
      moreover have "set (map cd_ID cs @ ids) \<subseteq> soon_ids T d" using r(3) b(2,3) by auto
      moreover have "\<forall>x \<in> set (wd_dels d). del_ID x \<notin> set (map cd_ID cs @ ids) \<longrightarrow> x \<in> set (wd_dels e)" using b(5) r(5) by auto
      ultimately show ?thesis using False 3 r(1,4) by (auto simp: Let_def)
    qed
  qed
qed simp

section \<open>Properties\<close>

text \<open>
  C29. A tick of the worker ends and attempts each delivery at most once: from any reachable state, a tick
  that takes less than a minute by the database's clock, the worker's clock not lagging its start, claims only finitely many batches (as many as
  there are deliveries, and one, are enough), its attempts are for distinct deliveries, it leaves every
  other delivery as it was, and it keeps the tables well-formed. The bound rests on the shortest backoff
  being a minute and the lease two.
\<close>

theorem tick_terminates:
  assumes "webhook_step\<^sup>*\<^sup>* (empty_webhooks, []) (d, cl)" and "within_minute T t" and "length (wd_dels d) < n"
  shows "\<exists>ids e. tick n t 0 d = Some (ids, e) \<and> distinct ids \<and> set ids \<subseteq> del_ID ` set (wd_dels d) \<and> webhook_ok e
    \<and> (\<forall>x \<in> set (wd_dels d). del_ID x \<notin> set ids \<longrightarrow> x \<in> set (wd_dels e))"
proof -
  have ok: "webhook_ok d" using webhooks.reachable [OF assms(1)] by (simp add: state_ok_def)
  have "card (soon_ids T d) \<le> card (set (wd_dels d))"
    unfolding soon_ids_def by (rule order_trans [OF card_image_le card_mono]) auto
  also have "\<dots> \<le> length (wd_dels d)" by (rule card_length)
  finally have "card (soon_ids T d) < n" using assms(3) by simp
  from tick_ends [OF assms(2) ok this, of 0] show ?thesis by (auto simp: soon_ids_def subset_eq) blast
qed

lemma sample_ok: "webhook_ok sample_enqueued"
  using webhooks.reachable [OF sample_webhooks(2)] by (simp add: state_ok_def)

definition sample_tick :: TickEnv where
  "sample_tick = \<lparr>tk_env = sample_wenv 30, tk_post = (\<lambda>_. Inr 200), tk_clock = (\<lambda>_. 30), tk_locked = (\<lambda>_ _. False),
     tk_clocks = (\<lambda>_. \<lparr>ck_sign = 30, ck_secrets = 30, ck_after = 30, ck_db = 30\<rparr>), tk_cancelled = (\<lambda>_. False)\<rparr>"

lemma sample_tick_within: "within_minute 30 sample_tick"
  by (simp add: within_minute_def sample_tick_def)

theorem tick_terminates_witness:
  "\<exists>ids e. tick 2 sample_tick 0 sample_enqueued = Some (ids, e) \<and> distinct ids"
proof -
  have "length (wd_dels sample_enqueued) < 2" by code_simp
  from tick_terminates [OF sample_webhooks(2) sample_tick_within this] show ?thesis by blast
qed

text \<open>
  The secrets of a subscription can be read; so can those of every active subscription with a delivery that a tick
  starting at \<open>T\<close> may attempt. No other session holds a row, no one cancels the tick, and the endpoints answer with
  a success.
\<close>

definition readable :: "WebhookEnv \<Rightarrow> Subscription \<Rightarrow> bool" where
  "readable env s \<longleftrightarrow> \<not> isl (scanSubscription (we_cipher env) (we_us env) (Some s))"

definition secrets_readable :: "timestamp \<Rightarrow> WebhookEnv \<Rightarrow> WebhookDb \<Rightarrow> bool" where
  "secrets_readable T env d \<longleftrightarrow> (\<forall>x \<in> set (wd_dels d). soon T x \<longrightarrow>
     (case sub_of d x of None \<Rightarrow> True | Some s \<Rightarrow> sub_Active s \<longrightarrow> readable env s))"

definition undisturbed :: "TickEnv \<Rightarrow> bool" where
  "undisturbed t \<longleftrightarrow> (\<forall>k i. \<not> tk_locked t k i) \<and> (\<forall>k. \<not> tk_cancelled t k)
     \<and> (\<forall>r. case tk_post t r of Inl _ \<Rightarrow> False | Inr code \<Rightarrow> 200 \<le> code \<and> code < 300)"

lemma scan_all_succeeds: "\<forall>r \<in> set rows. \<not> isl (scan r) \<Longrightarrow> \<not> isl (scan_all scan rows)"
proof (induction rows)
  case (Cons r rows)
  then show ?case by (cases "scan r"; cases "scan_all scan rows") auto
qed simp

lemma is_due_sub: "is_due now d x \<Longrightarrow> \<exists>s. sub_of d x = Some s \<and> s \<in> set (wd_subs d) \<and> sub_ID s = del_SubscriptionID x"
  by (auto simp: is_due_def sub_of_def split: option.splits dest: find_Some_filter)

lemma scan_all_fails: "r \<in> set rows \<Longrightarrow> isl (scan r) \<Longrightarrow> isl (scan_all scan rows)"
proof (induction rows)
  case (Cons x rows)
  then show ?case by (cases "scan x"; cases "scan_all scan rows") auto
qed simp

lemma scan_claimed_readable:
  assumes "sub_of d x = Some s"
  shows "isl (scan_claimed (we_cipher env) (we_us env) (claimed_row x s)) \<longleftrightarrow> \<not> readable env s"
proof -
  have "sub_ID s = del_SubscriptionID x" using assms by (auto simp: sub_of_def dest: find_Some_filter)
  then show ?thesis
    by (simp add: readable_def scanSubscription_def scan_claimed_def claimed_row_def bindE_def split: sum.splits)
qed

lemma claim_succeeds:
  assumes ok: "webhook_ok d" and r: "\<forall>y \<in> set (due_rows locked limit now d). readable env (the (sub_of d y))"
  obtains cs e where "ClaimDue (we_cipher env) (we_us env) locked limit lease now d = (Inr cs, e)"
proof -
  have "\<not> isl (scan_claimed (we_cipher env) (we_us env) (claimed_row x (the (sub_of d x))))"
    if x: "x \<in> set (wd_dels d)" "del_ID x \<in> set (map del_ID (due_rows locked limit now d))" for x
  proof -
    obtain y where y: "y \<in> set (due_rows locked limit now d)" "del_ID y = del_ID x" using x(2) by auto
    have yx: "y = x" using ok x(1) y due_rows_due [OF y(1)] by (auto simp: webhook_ok_def distinct_map inj_on_def)
    then obtain s where s: "sub_of d x = Some s"
      using is_due_sub [of now d x] due_rows_due [OF y(1)] by auto
    then show ?thesis using scan_claimed_readable [OF s] r y(1) yx by auto
  qed
  then have "\<not> isl (scan_all (scan_claimed (we_cipher env) (we_us env)) (fst (claim_due_deliveries locked limit lease now d)))"
    by (intro scan_all_succeeds) (auto simp: claim_due_deliveries_def Let_def)
  then obtain out where out: "scan_all (scan_claimed (we_cipher env) (we_us env)) (fst (claim_due_deliveries locked limit lease now d)) = Inr out"
    by (cases "scan_all (scan_claimed (we_cipher env) (we_us env)) (fst (claim_due_deliveries locked limit lease now d))") auto
  show thesis
    by (rule that [of out "snd (claim_due_deliveries locked limit lease now d)"]) (simp add: ClaimDue_def system_tx_def case_prod_beta out)
qed

text \<open>One subscription whose secret cannot be read makes the claim of its whole batch fail.\<close>

lemma claim_fails:
  assumes x: "x \<in> set (due_rows locked limit now d)" and s: "sub_of d x = Some s" and r: "\<not> readable env s"
  obtains err where "ClaimDue (we_cipher env) (we_us env) locked limit lease now d = (Inl err, d)"
proof -
  let ?rows = "fst (claim_due_deliveries locked limit lease now d)"
  have "x \<in> set (wd_dels d)" using due_rows_due [OF x] by simp
  then have "claimed_row x s \<in> set ?rows"
    using x s by (force simp: claim_due_deliveries_def Let_def)
  moreover have "isl (scan_claimed (we_cipher env) (we_us env) (claimed_row x s))" using scan_claimed_readable [OF s] r by simp
  ultimately have "isl (scan_all (scan_claimed (we_cipher env) (we_us env)) ?rows)" by (rule scan_all_fails)
  then obtain err where "scan_all (scan_claimed (we_cipher env) (we_us env)) ?rows = Inl err" by (auto simp: isl_def)
  then show thesis by (intro that [of err]) (simp add: ClaimDue_def system_tx_def case_prod_beta)
qed

text \<open>Delivering a batch records every claimed delivery, and delivered rows stay delivered.\<close>

definition delivered :: "WebhookDb \<Rightarrow> uuid \<Rightarrow> bool" where
  "delivered d i \<longleftrightarrow> (\<exists>y \<in> set (wd_dels d). del_ID y = i \<and> del_Status y = StatusDelivered)"

lemma delivered_update:
  assumes f: "\<And>x. del_ID (f x) = del_ID x" "\<And>x. del_Status x = StatusDelivered \<Longrightarrow> del_Status (f x) = StatusDelivered"
    and d: "delivered d i"
  shows "delivered (update_dels P f d) i"
proof -
  obtain y where y: "y \<in> set (wd_dels d)" "del_ID y = i" "del_Status y = StatusDelivered" using d by (auto simp: delivered_def)
  then have "(if P y then f y else y) \<in> set (wd_dels (update_dels P f d))" by force
  then show ?thesis unfolding delivered_def using y f by (intro bexI [of _ "if P y then f y else y"]) auto
qed

lemma process_delivers:
  assumes u: "undisturbed t" and x: "x \<in> set (wd_dels d)" "del_ID x = cd_ID c" "del_TenantID x = cd_TenantID c" "cd_TenantID c \<noteq> uuid_Nil"
  shows "delivered (process (tk_post t) env ck c d) (cd_ID c)"
proof -
  obtain code where code: "Send (tk_post t) env ck c = Inr code" "200 \<le> code" "code < 300"
    using u by (auto simp: undisturbed_def Send_def split: sum.splits) (metis Inr_inject sum.exhaust)
  then have "process (tk_post t) env ck c d
      = update_dels (\<lambda>x. del_ID x = cd_ID c \<and> del_TenantID x = cd_TenantID c) (record_success (ck_db ck) code) d"
    using x(4) by (simp add: process_def Let_def MarkDelivered_def tenant_tx_def system_tx_def record_success_def [abs_def])
  then show ?thesis using x unfolding delivered_def
    by (intro bexI [of _ "record_success (ck_db ck) code x"]) (auto simp: record_success_def image_iff)
qed

lemma process_keeps_delivered:
  assumes "undisturbed t" and "delivered d i"
  shows "delivered (process (tk_post t) env ck c d) i"
proof -
  obtain code where code: "Send (tk_post t) env ck c = Inr code" "200 \<le> code" "code < 300"
    using assms(1) by (auto simp: undisturbed_def Send_def split: sum.splits) (metis Inr_inject sum.exhaust)
  then have "process (tk_post t) env ck c d = d \<or> process (tk_post t) env ck c d
      = update_dels (\<lambda>x. del_ID x = cd_ID c \<and> del_TenantID x = cd_TenantID c) (record_success (ck_db ck) code) d"
    by (simp add: process_def Let_def MarkDelivered_def tenant_tx_def system_tx_def record_success_def [abs_def])
  moreover have "delivered (update_dels P (record_success at code) d) i" for P at
    using assms(2) by (intro delivered_update) (simp_all add: record_success_def)
  ultimately show ?thesis using assms(2) by auto
qed

lemma process_batch_delivers:
  assumes u: "undisturbed t"
  shows "(\<And>c. c \<in> set cs \<Longrightarrow> cd_TenantID c \<noteq> uuid_Nil \<and> (\<exists>x \<in> set (wd_dels d). del_ID x = cd_ID c \<and> del_TenantID x = cd_TenantID c))
     \<Longrightarrow> (\<forall>i. delivered d i \<or> i \<in> cd_ID ` set cs \<longrightarrow> delivered (process_batch t cs d) i)"
proof (induction cs arbitrary: d)
  case (Cons c cs)
  let ?d = "process (tk_post t) (tk_env t) (tk_clocks t (cd_ID c)) c d"
  have "map (\<lambda>x. (del_ID x, del_TenantID x)) (wd_dels ?d) = map (\<lambda>x. (del_ID x, del_TenantID x)) (wd_dels d)"
    by (cases rule: process_cases [of "tk_post t" "tk_env t" "tk_clocks t (cd_ID c)" c d])
      (auto simp: record_success_def record_failure_def)
  from arg_cong [OF this, of set]
  have rows: "(\<lambda>x. (del_ID x, del_TenantID x)) ` set (wd_dels ?d) = (\<lambda>x. (del_ID x, del_TenantID x)) ` set (wd_dels d)"
    unfolding set_map .
  have rest: "cd_TenantID c' \<noteq> uuid_Nil \<and> (\<exists>x \<in> set (wd_dels ?d). del_ID x = cd_ID c' \<and> del_TenantID x = cd_TenantID c')"
    if m: "c' \<in> set cs" for c'
  proof -
    obtain x where "x \<in> set (wd_dels d)" "del_ID x = cd_ID c'" "del_TenantID x = cd_TenantID c'"
      using Cons.prems [of c'] m by auto
    then have "(cd_ID c', cd_TenantID c') \<in> (\<lambda>x. (del_ID x, del_TenantID x)) ` set (wd_dels d)" by force
    then have "(cd_ID c', cd_TenantID c') \<in> (\<lambda>x. (del_ID x, del_TenantID x)) ` set (wd_dels ?d)" unfolding rows .
    then obtain y where "y \<in> set (wd_dels ?d)" "del_ID y = cd_ID c'" "del_TenantID y = cd_TenantID c'" by auto
    then show ?thesis using Cons.prems [of c'] m by auto
  qed
  have "delivered ?d (cd_ID c)" using Cons.prems [of c] process_delivers [OF u] by auto
  then show ?case
    using Cons.IH [OF rest] process_keeps_delivered [OF u, of d] by (auto simp: process_batch_def)
qed (simp add: process_batch_def)

lemma claimed_present:
  assumes ok: "webhook_ok d" and cl: "ClaimDue cph us locked limit lease now d = (Inr cs, d1)" and c: "c \<in> set cs"
  shows "cd_TenantID c \<noteq> uuid_Nil \<and> (\<exists>x \<in> set (wd_dels d1). del_ID x = cd_ID c \<and> del_TenantID x = cd_TenantID c)"
proof -
  obtain x where x: "x \<in> set (due_rows locked limit now d)" "cd_ID c = del_ID x" "cd_TenantID c = del_TenantID x"
    by (rule claimed_delivery [OF ok cl c])
  have m: "x \<in> set (wd_dels d)" using due_rows_due [OF x(1)] by simp
  then have "owned d x" using ok by (simp add: webhook_ok_def)
  then have "del_TenantID x \<noteq> uuid_Nil" using ok by (auto simp: owned_def webhook_ok_def)
  moreover have "x\<lparr>del_NextAttemptAt := now + lease\<rparr> \<in> set (wd_dels d1)"
    unfolding ClaimDue_result(2) [OF cl] using m x(1) by (force simp: image_iff)
  ultimately show ?thesis using x(2,3) by (intro conjI bexI [of _ "x\<lparr>del_NextAttemptAt := now + lease\<rparr>"]) simp_all
qed

lemma tick_keeps_delivered:
  assumes u: "undisturbed t"
  shows "tick n t k d = Some (ids, e) \<Longrightarrow> delivered d i \<Longrightarrow> delivered e i"
proof (induction n arbitrary: k d ids e)
  case (Suc n)
  let ?c = "ClaimDue (we_cipher (tk_env t)) (we_us (tk_env t)) (tk_locked t k) DefaultBatchSize DefaultLease (tk_clock t k) d"
  obtain r d1 where c: "?c = (r, d1)" by (cases ?c) auto
  have "delivered d1 i"
  proof (cases r)
    case (Inl err)
    then show ?thesis using ClaimDue_error c Suc.prems(2) by blast
  next
    case (Inr cs)
    then have d1: "?c = (Inr cs, d1)" using c by simp
    show ?thesis using Suc.prems(2) unfolding ClaimDue_result(2) [OF d1] by (intro delivered_update) simp_all
  qed
  moreover have "delivered d1 i \<Longrightarrow> delivered (process_batch t cs d1) i" for cs
  proof (induction cs arbitrary: d1)
    case (Cons c cs)
    then show ?case using process_keeps_delivered [OF u] by (simp add: process_batch_def)
  qed (simp add: process_batch_def)
  ultimately show ?case using Suc.prems(1) Suc.IH c by (auto simp: Let_def split: sum.splits if_splits)
qed simp

lemma readable_due:
  assumes r: "secrets_readable T env d" and now: "now < T + 60 * Second"
  shows "\<forall>y \<in> set (due_rows locked limit now d). readable env (the (sub_of d y))"
proof
  fix y assume "y \<in> set (due_rows locked limit now d)"
  then have y: "y \<in> set (wd_dels d)" "is_due now d y" using due_rows_due by auto
  then have "soon T y" using now by (simp add: is_due_def soon_def)
  then show "readable env (the (sub_of d y))" using r y by (auto simp: secrets_readable_def is_due_def split: option.splits)
qed

lemma batch_readable:
  assumes r: "secrets_readable T env d" and cl: "ClaimDue cph us locked limit DefaultLease now d = (Inr cs, d1)"
    and now: "T \<le> now" and ck: "\<forall>i. T \<le> ck_after (tk_clocks t i)"
  shows "secrets_readable T env (process_batch t cs d1)"
  unfolding secrets_readable_def
proof (intro ballI impI)
  fix y assume y: "y \<in> set (wd_dels (process_batch t cs d1))" "soon T y"
  obtain z where z: "z \<in> set (wd_dels d1)" "soon T z" "del_SubscriptionID z = del_SubscriptionID y"
    using process_batch_soon [OF ck y] by blast
  have lease: "\<not> soon T (x\<lparr>del_NextAttemptAt := now + DefaultLease\<rparr>)" for x
    using now by (simp add: soon_def DefaultLease_def)
  then have "z \<in> set (wd_dels d)" using z(1,2) unfolding ClaimDue_result(2) [OF cl] by (auto split: if_splits)
  moreover have "wd_subs (process_batch t cs d1) = wd_subs d"
    using process_batch_rows [OF ck, of cs d1] unfolding ClaimDue_result(2) [OF cl] by simp
  then have "sub_of (process_batch t cs d1) y = sub_of d z" by (simp add: sub_of_def z(3))
  ultimately show "case sub_of (process_batch t cs d1) y of None \<Rightarrow> True | Some s \<Rightarrow> sub_Active s \<longrightarrow> readable env s"
    using r z(2) by (auto simp: secrets_readable_def)
qed

lemma tick_delivers_due:
  assumes u: "undisturbed t" and t: "within_minute T t"
  shows "webhook_ok d \<Longrightarrow> secrets_readable T (tk_env t) d \<Longrightarrow> tick n t k d = Some (ids, e) \<Longrightarrow> x \<in> set (wd_dels d) \<Longrightarrow> is_due T d x
    \<Longrightarrow> delivered e (del_ID x)"
proof (induction n arbitrary: k d ids e)
  case (Suc n)
  let ?now = "tk_clock t k"
  have now: "T \<le> ?now" "?now < T + 60 * Second" and ck: "\<forall>i. T \<le> ck_after (tk_clocks t i)"
    using t by (simp_all add: within_minute_def)
  obtain cs d1 where c: "ClaimDue (we_cipher (tk_env t)) (we_us (tk_env t)) (tk_locked t k) DefaultBatchSize DefaultLease ?now d = (Inr cs, d1)"
    by (rule claim_succeeds [OF Suc.prems(1) readable_due [OF Suc.prems(2) now(2)]])
  note b = batch_moves [OF c Suc.prems(1) now ck] and ids = claimed_ids(2,3) [OF Suc.prems(1) c]
  let ?e = "process_batch t cs d1"
  let ?all = "filter (\<lambda>x. is_due ?now d x \<and> \<not> tk_locked t k (del_ID x)) (wd_dels d)"
  have "x \<in> set ?all" using Suc.prems(4,5) now u by (auto simp: is_due_def undisturbed_def split: option.splits)
  then have due: "x \<in> set (due_rows (tk_locked t k) DefaultBatchSize ?now d) \<or> length cs = DefaultBatchSize"
    unfolding ids(2) due_rows_def by (cases "length ?all \<le> DefaultBatchSize") auto
  have now_delivered: "x \<in> set (due_rows (tk_locked t k) DefaultBatchSize ?now d) \<Longrightarrow> delivered ?e (del_ID x)"
    using process_batch_delivers [OF u claimed_present [OF Suc.prems(1) c]] ids(1) by blast
  have ne: "cs \<noteq> []" using due ids(2) by (auto simp: DefaultBatchSize_def)
  show ?case
  proof (cases "length cs < DefaultBatchSize")
    case True
    then have "e = ?e" using Suc.prems(3) c ne by (simp add: Let_def)
    then show ?thesis using due True now_delivered by simp
  next
    case False
    then obtain ids' where r: "tick n t (Suc k) ?e = Some (ids', e)"
      using Suc.prems(3) c ne u by (auto simp: Let_def undisturbed_def)
    show ?thesis
    proof (cases "x \<in> set (due_rows (tk_locked t k) DefaultBatchSize ?now d)")
      case True
      show ?thesis by (rule tick_keeps_delivered [OF u r now_delivered [OF True]])
    next
      case f: False
      have "del_ID x \<notin> cd_ID ` set cs"
      proof
        assume "del_ID x \<in> cd_ID ` set cs"
        then obtain y where y: "y \<in> set (due_rows (tk_locked t k) DefaultBatchSize ?now d)" "del_ID x = del_ID y" unfolding ids(1) by auto
        then have "y = x" using Suc.prems(1,4) due_rows_due [OF y(1)] by (auto simp: webhook_ok_def distinct_map inj_on_def)
        then show False using y f by simp
      qed
      then have "x \<in> set (wd_dels ?e)" using b(5) Suc.prems(4) by simp
      moreover have "is_due T ?e x" using Suc.prems(5) b(4) by (simp add: is_due_def sub_of_def)
      moreover have "secrets_readable T (tk_env t) ?e" by (rule batch_readable [OF Suc.prems(2) c now(1) ck])
      ultimately show ?thesis using Suc.IH [OF b(1) _ r] by simp
    qed
  qed
qed simp

text \<open>
  C30. A working endpoint gets its deliveries, unless a secret cannot be read. Let a tick take less than a minute
  by the database's clock, no other session hold a row, no one cancel the tick, and every endpoint answer with a
  success. The tick ends. If the secrets of every active subscription with a delivery that comes due within that
  minute can be decrypted, every delivery of an active subscription that was due when the tick started is recorded as
  delivered. If one delivery of the first batch belongs to a subscription whose secrets cannot be decrypted, the tick
  attempts nothing at all, for no tenant, and leaves the tables as they were.
\<close>

theorem tick_delivers:
  assumes "webhook_step\<^sup>*\<^sup>* (empty_webhooks, []) (d, cl)" and "within_minute T t" and "undisturbed t"
  shows "\<exists>ids e. tick (Suc (length (wd_dels d))) t 0 d = Some (ids, e)
    \<and> (secrets_readable T (tk_env t) d \<longrightarrow> (\<forall>x \<in> set (wd_dels d). is_due T d x \<longrightarrow>
         (\<exists>y \<in> set (wd_dels e). del_ID y = del_ID x \<and> del_Status y = StatusDelivered)))
    \<and> (\<forall>x \<in> set (due_rows (tk_locked t 0) DefaultBatchSize (tk_clock t 0) d).
         \<forall>s. sub_of d x = Some s \<and> \<not> readable (tk_env t) s \<longrightarrow> ids = [] \<and> e = d)"
proof -
  have ok: "webhook_ok d" using webhooks.reachable [OF assms(1)] by (simp add: state_ok_def)
  have "card (soon_ids T d) \<le> card (set (wd_dels d))"
    unfolding soon_ids_def by (rule order_trans [OF card_image_le card_mono]) auto
  also have "\<dots> \<le> length (wd_dels d)" by (rule card_length)
  finally have "card (soon_ids T d) < Suc (length (wd_dels d))" by simp
  from tick_ends [OF assms(2) ok this, of 0] obtain ids e where r: "tick (Suc (length (wd_dels d))) t 0 d = Some (ids, e)" by blast
  have "ids = [] \<and> e = d" if "x \<in> set (due_rows (tk_locked t 0) DefaultBatchSize (tk_clock t 0) d)" "sub_of d x = Some s"
      "\<not> readable (tk_env t) s" for x s
    using claim_fails [OF that, of DefaultLease] r by fastforce
  then show ?thesis using tick_delivers_due [OF assms(3,2) ok _ r] r unfolding delivered_def by blast
qed

text \<open>The delivery of the sample database, with the master key it was sealed under and without.\<close>

definition sample_keyless_tick :: TickEnv where
  "sample_keyless_tick = sample_tick\<lparr>tk_env := (sample_wenv 30)\<lparr>we_cipher := None\<rparr>\<rparr>"

theorem tick_delivers_witness:
  "(\<exists>ids e y. tick (Suc (length (wd_dels sample_enqueued))) sample_tick 0 sample_enqueued = Some (ids, e) \<and> y \<in> set (wd_dels e)
     \<and> del_Status y = StatusDelivered)
   \<and> tick (Suc (length (wd_dels sample_enqueued))) sample_keyless_tick 0 sample_enqueued = Some ([], sample_enqueued)"
proof
  have u: "undisturbed sample_tick" "undisturbed sample_keyless_tick" by (simp_all add: undisturbed_def sample_tick_def sample_keyless_tick_def)
  have "list_all (\<lambda>s. \<not> isl (scanSubscription (Some sample_cipher) sample_uuidString (Some s))) (wd_subs sample_enqueued)" by code_simp
  then have "readable (tk_env sample_tick) s" if "s \<in> set (wd_subs sample_enqueued)" for s
    using that by (simp add: readable_def list_all_iff sample_tick_def sample_wenv_def)
  then have r: "secrets_readable 30 (tk_env sample_tick) sample_enqueued"
    by (auto simp: secrets_readable_def sub_of_def split: option.split dest: find_Some_filter)
  have "list_ex (is_due 30 sample_enqueued) (wd_dels sample_enqueued)" by code_simp
  then obtain x where "x \<in> set (wd_dels sample_enqueued)" "is_due 30 sample_enqueued x" by (auto simp: list_ex_iff)
  with tick_delivers [OF sample_webhooks(2) sample_tick_within u(1)] r
  show "\<exists>ids e y. tick (Suc (length (wd_dels sample_enqueued))) sample_tick 0 sample_enqueued = Some (ids, e) \<and> y \<in> set (wd_dels e)
     \<and> del_Status y = StatusDelivered" by blast
  have w: "within_minute 30 sample_keyless_tick" using sample_tick_within by (simp add: within_minute_def sample_keyless_tick_def)
  have "list_ex (\<lambda>x. case sub_of sample_enqueued x of None \<Rightarrow> False
      | Some s \<Rightarrow> isl (scanSubscription None sample_uuidString (Some s))) (due_rows (\<lambda>_. False) DefaultBatchSize 30 sample_enqueued)"
    by code_simp
  then obtain x s where x: "x \<in> set (due_rows (tk_locked sample_keyless_tick 0) DefaultBatchSize (tk_clock sample_keyless_tick 0) sample_enqueued)"
      "sub_of sample_enqueued x = Some s" "\<not> readable (tk_env sample_keyless_tick) s"
    by (auto simp: list_ex_iff readable_def sample_keyless_tick_def sample_tick_def sample_wenv_def split: option.splits)
  show "tick (Suc (length (wd_dels sample_enqueued))) sample_keyless_tick 0 sample_enqueued = Some ([], sample_enqueued)"
    using tick_delivers [OF sample_webhooks(2) w u(2)] x by blast
qed

section \<open>Failed attempts\<close>

lemma utf8_ascii: "list_all (\<lambda>c. 0 < (of_char c :: nat) \<and> (of_char c :: nat) < 128) s \<Longrightarrow> utf8_text (s @ r) = utf8_text r"
  by (induction s) auto

text \<open>An error text of 501 bytes whose last character takes two of them.\<close>

definition long_error :: string where
  "long_error = replicate 499 (CHR ''x'') @ [CHR 0xC3, CHR 0xA9]"

text \<open>
  Cutting the error text can lose the attempt: a transport error whose text, valid UTF-8, is cut by
  \<open>truncate\<close> inside a character is refused by the \<open>TEXT\<close> column, so the failure is not recorded: the
  attempt counter stays and the delivery is tried again after the lease, never reaching \<open>dead\<close>.
\<close>

theorem cut_error_loses_attempt:
  assumes "Send post env ck c = Inl long_error"
  shows "utf8_text long_error \<and> process post env ck c d = d"
proof -
  have x: "utf8_text (replicate n (CHR ''x'') @ r) = utf8_text r" for n r
    by (rule utf8_ascii) (simp add: list_all_iff)
  have "length long_error = 501" by (simp add: long_error_def)
  moreover have "take 500 long_error = replicate 499 (CHR ''x'') @ [CHR 0xC3]" by (simp add: long_error_def)
  ultimately have "truncate_text long_error maxErrorLen = replicate 499 (CHR ''x'') @ [CHR 0xC3]"
    by (simp add: truncate_text_def maxErrorLen_def)
  then have "\<not> utf8_text (truncate_text long_error maxErrorLen)" by (simp add: x)
  then have "process post env ck c d = d"
    using assms by (simp add: process_def Let_def MarkFailed_def tenant_tx_def system_tx_def)
  moreover have "utf8_text long_error" unfolding long_error_def x by (simp add: cont_byte_def)
  ultimately show ?thesis by blast
qed

theorem cut_error_loses_attempt_witness:
  "\<forall>ck c. process (\<lambda>_. Inl long_error) (sample_wenv 30) ck c sample_enqueued = sample_enqueued"
proof (intro allI)
  fix ck c
  have "Send (\<lambda>_. Inl long_error) (sample_wenv 30) ck c = Inl long_error" by (simp add: Send_def)
  from cut_error_loses_attempt [OF this]
  show "process (\<lambda>_. Inl long_error) (sample_wenv 30) ck c sample_enqueued = sample_enqueued" by blast
qed

section \<open>Secrets\<close>

lemma find_skip: "find P xs = None \<Longrightarrow> find P (xs @ ys) = find P ys"
  by (induction xs) (auto split: if_splits)

text \<open>
  A secret is stored sealed and read back as it was: a subscription created under a master key keeps
  only the sealed secret in its row, and reading it returns the secret the client was given.
\<close>

theorem created_secret_sealed:
  assumes c: "we_cipher env = Some c" and law: "aead_law c" and n: "we_nonces env 0 = Some nonce" "length nonce = cph_NonceSize c"
    and cr: "CreateSubscription env tn https url types d = (Inr sub, d')"
  shows "\<exists>row. wd_subs d' = wd_subs d @ [row] \<and> IsEncrypted (sub_Secret row) \<and> \<not> IsEncrypted (sub_Secret sub)
    \<and> GetSubscription env tn (sub_ID sub) d' = (Inr sub, d')"
proof -
  obtain secret where s: "NewSecret (we_rand env) = Inr secret" "sub_Secret sub = secret" "sub_ID sub = we_newID env 0" "sub_TenantID sub = tn"
      "sub_PreviousSecret sub = None" "sub_PreviousSecretExpiresAt sub = None"
    and r: "repo_Create (we_cipher env) (we_nonces env 0) (we_us env) sub d = (Inr (), d')"
    using cr by (auto simp: CreateSubscription_def Let_def bindE_def split: sum.splits prod.splits)
  note plain = NewSecret_plain [OF s(1)]
  define enc where "enc = key_prefix @ std_encode (nonce @ cph_Seal c nonce secret (we_us env (sub_ID sub)))"
  have e: "Encrypt (Some c) (Some nonce) secret (we_us env (sub_ID sub)) = Inr enc" by (simp add: Encrypt_def enc_def)
  note dec = Encrypt_Decrypt [OF law n(2) e]
  have "encryptSecret (we_cipher env) (we_nonces env 0) (we_us env) (sub_Secret sub) (sub_ID sub) = Inr enc"
    using plain e by (simp add: encryptSecret_def c n s(2))
  then have ins: "tn \<noteq> uuid_Nil" "insert_subscription (sub\<lparr>sub_Secret := enc\<rparr>) d = Inr ((), d')"
    using r s(4) by (auto simp: repo_Create_def tenant_tx_def system_tx_def split: if_splits sum.splits)
  let ?row = "sub\<lparr>sub_Secret := enc\<rparr>"
  have "?row\<lparr>sub_PreviousSecret := None, sub_PreviousSecretExpiresAt := None\<rparr> = ?row" using s(5,6) by (cases sub) simp
  then have d': "d' = d\<lparr>wd_subs := wd_subs d @ [?row]\<rparr>" "\<forall>x \<in> set (wd_subs d). sub_ID x \<noteq> sub_ID sub"
    using ins(2) by (auto simp: insert_subscription_def list_ex_iff split: if_splits)
  have "find_sub tn (sub_ID sub) d' = Some ?row"
  proof -
    have "find (\<lambda>x. sub_ID x = sub_ID sub \<and> sub_TenantID x = tn) (wd_subs d) = None" using d'(2) by (auto simp: find_None_iff)
    then show ?thesis using s(4) by (simp add: find_sub_def d'(1) find_skip)
  qed
  moreover have "decryptSecret (we_cipher env) (we_us env) enc (sub_ID sub) = Inr secret"
    using dec(1,2) by (simp add: decryptSecret_def c enc_def key_prefix_def)
  moreover have "?row\<lparr>sub_Secret := secret, sub_PreviousSecret := None\<rparr> = sub" using s(2,5) by (cases sub) simp
  ultimately have "GetSubscription env tn (sub_ID sub) d' = (Inr sub, d')"
    using ins(1) s(5) by (simp add: GetSubscription_def repo_Get_def tenant_tx_def system_tx_def scanSubscription_def decrypt_previous_def)
  then show ?thesis using d'(1) dec(1) plain s(2) by (intro exI [of _ ?row]) simp
qed

theorem created_secret_sealed_witness:
  "\<exists>row. wd_subs sample_subscribed = [row] \<and> IsEncrypted (sub_Secret row)"
proof -
  let ?c = "CreateSubscription (sample_wenv 10) 1 True ''u'' [''*''] empty_webhooks"
  have "\<not> isl (fst ?c)" by code_simp
  then have c: "?c = (Inr (projr (fst ?c)), sample_subscribed)" by (simp add: sample_subscribed_def prod_eq_iff)
  have "we_cipher (sample_wenv 10) = Some sample_cipher" "we_nonces (sample_wenv 10) 0 = Some ''ab''" "length ''ab'' = cph_NonceSize sample_cipher"
    by (simp_all add: sample_wenv_def sample_cipher_def)
  moreover have "aead_law sample_cipher" by (simp add: aead_law_def sample_cipher_def)
  ultimately show ?thesis using created_secret_sealed [OF _ _ _ _ c] by (fastforce simp: empty_webhooks_def)
qed

lemma find_map_id:
  "(\<And>s. sub_ID (f s) = sub_ID s \<and> sub_TenantID (f s) = sub_TenantID s) \<Longrightarrow>
     find (\<lambda>s. sub_ID s = i \<and> sub_TenantID s = tn) (map (\<lambda>s. if sub_ID s = i \<and> sub_TenantID s = tn then f s else s) xs)
     = map_option f (find (\<lambda>s. sub_ID s = i \<and> sub_TenantID s = tn) xs)"
  by (induction xs) auto

lemma encryptSecret_decrypts:
  assumes "case we_cipher env of None \<Rightarrow> True | Some c \<Rightarrow> aead_law c \<and> (\<exists>n. we_nonces env 0 = Some n \<and> length n = cph_NonceSize c)"
    and "\<not> IsEncrypted secret" and "encryptSecret (we_cipher env) (we_nonces env 0) (we_us env) secret i = Inr enc"
  shows "decryptSecret (we_cipher env) (we_us env) enc i = Inr secret"
proof (cases "we_cipher env")
  case None
  then show ?thesis using assms(2,3) by (simp add: encryptSecret_def decryptSecret_def)
next
  case (Some c)
  then obtain n where n: "aead_law c" "we_nonces env 0 = Some n" "length n = cph_NonceSize c" using assms(1) by auto
  show ?thesis
  proof (cases "secret = ''''")
    case True
    then show ?thesis using assms(3) Some by (simp add: encryptSecret_def decryptSecret_def)
  next
    case False
    then have e: "Encrypt (Some c) (Some n) secret (we_us env i) = Inr enc"
      using assms(3) Some n(2) by (auto simp: encryptSecret_def split: sum.splits)
    have "enc \<noteq> ''''" using e by (auto simp: Encrypt_def key_prefix_def)
    then show ?thesis using Encrypt_Decrypt [OF n(1,3) e] Some by (simp add: decryptSecret_def)
  qed
qed

text \<open>
  C31. A rotation, exactly: after it the subscription reads back with the new secret first and, until the
  promised expiry, the secret it had before; an older one, whose own grace period may not be over, is
  dropped. Nothing else of the subscription changes.
\<close>

theorem rotation_effect:
  assumes law: "case we_cipher env of None \<Rightarrow> True | Some c \<Rightarrow> aead_law c \<and> (\<exists>n. we_nonces env 0 = Some n \<and> length n = cph_NonceSize c)"
    and before: "GetSubscription env tn i d = (Inr sub, d)" and r: "RotateSecret env tn i d = (Inr (secret, expires), d')"
  shows "\<exists>sub'. GetSubscription env tn i d' = (Inr sub', d') \<and> expires = we_now env + RotationGrace
    \<and> SigningSecrets sub' now = (if sub_Secret sub \<noteq> '''' \<and> now < expires then [secret, sub_Secret sub] else [secret])
    \<and> sub_URL sub' = sub_URL sub \<and> sub_EventTypes sub' = sub_EventTypes sub \<and> sub_Active sub' = sub_Active sub"
proof -
  have s: "NewSecret (we_rand env) = Inr secret" "expires = we_now env + RotationGrace"
    "repo_RotateSecret (we_cipher env) (we_nonces env 0) (we_us env) tn i secret expires d = (Inr (), d')"
    using r by (auto simp: RotateSecret_def Let_def split: sum.splits prod.splits)
  obtain enc where enc: "encryptSecret (we_cipher env) (we_nonces env 0) (we_us env) secret i = Inr enc"
    using s(3) by (auto simp: repo_RotateSecret_def split: sum.splits)
  then obtain row where row: "tn \<noteq> uuid_Nil" "find_sub tn i d = Some row"
    "d' = update_subs (\<lambda>s. sub_ID s = i \<and> sub_TenantID s = tn) (install_secret enc expires) d"
    using s(3) by (auto simp: repo_RotateSecret_def tenant_tx_def system_tx_def split: if_splits option.splits)
  have i: "sub_ID row = i" using row(2) by (auto simp: find_sub_def dest: find_Some_filter)
  have old: "decryptSecret (we_cipher env) (we_us env) (sub_Secret row) i = Inr (sub_Secret sub)"
    "sub_URL row = sub_URL sub" "sub_EventTypes row = sub_EventTypes sub" "sub_Active row = sub_Active sub"
    using before row(1,2) i
    by (auto simp: GetSubscription_def repo_Get_def tenant_tx_def system_tx_def scanSubscription_def bindE_def split: sum.splits)
  have "find_sub tn i d' = Some (install_secret enc expires row)"
    using row(2) unfolding row(3) find_sub_def update_subs_simps
    by (subst find_map_id) (simp_all add: install_secret_def)
  moreover have "decryptSecret (we_cipher env) (we_us env) enc i = Inr secret"
    by (rule encryptSecret_decrypts [OF law _ enc]) (use NewSecret_plain [OF s(1)] in simp)
  ultimately have "GetSubscription env tn i d' = (Inr (row\<lparr>sub_Secret := secret, sub_PreviousSecret := Some (sub_Secret sub),
      sub_PreviousSecretExpiresAt := Some expires\<rparr>), d')"
    using row(1) old(1) i
    by (simp add: GetSubscription_def repo_Get_def tenant_tx_def system_tx_def scanSubscription_def decrypt_previous_def install_secret_def)
  then show ?thesis using s(2) old(2-4) by (auto simp: SigningSecrets_def signingSecrets_def)
qed

theorem rotation_effect_witness:
  "\<exists>sub'. GetSubscription (sample_wenv 40) 1 10 (snd (RotateSecret (sample_wenv 40) 1 10 sample_subscribed))
    = (Inr sub', snd (RotateSecret (sample_wenv 40) 1 10 sample_subscribed)) \<and> length (SigningSecrets sub' 41) = 2"
proof -
  let ?r = "RotateSecret (sample_wenv 40) 1 10 sample_subscribed" and ?g = "GetSubscription (sample_wenv 40) 1 10 sample_subscribed"
  have "\<not> isl (fst ?r) \<and> snd (projr (fst ?r)) > 41" by code_simp
  then obtain secret expires where r: "?r = (Inr (secret, expires), snd ?r)" "41 < expires" by (cases ?r; cases "fst ?r") auto
  have "\<not> isl (fst ?g) \<and> sub_Secret (projr (fst ?g)) \<noteq> ''''" by code_simp
  moreover have "snd ?g = sample_subscribed"
    unfolding GetSubscription_def repo_Get_def by (rule tenant_tx_keeps) (auto simp: bindE_Inr_iff)
  ultimately obtain sub where g: "?g = (Inr sub, sample_subscribed)" "sub_Secret sub \<noteq> ''''" by (cases ?g; cases "fst ?g") auto
  have "case we_cipher (sample_wenv 40) of None \<Rightarrow> True
      | Some c \<Rightarrow> aead_law c \<and> (\<exists>n. we_nonces (sample_wenv 40) 0 = Some n \<and> length n = cph_NonceSize c)"
    by (simp add: sample_wenv_def sample_cipher_def aead_law_def)
  from rotation_effect [OF this g(1) r(1), of 41] show ?thesis using r(2) g(2) by auto
qed

text \<open>The sweep of expired secrets changes no signature: from its instant on, every row signs as before.\<close>

lemma sweep_changes_no_signature:
  "now \<le> t \<Longrightarrow> map (\<lambda>s. SigningSecrets s t) (wd_subs (snd (PurgeExpiredPreviousSecrets now d))) = map (\<lambda>s. SigningSecrets s t) (wd_subs d)"
  by (auto simp: PurgeExpiredPreviousSecrets_def system_tx_def previous_expired_def SigningSecrets_def signingSecrets_def split: option.splits)

section \<open>Addresses\<close>

text \<open>The number of an IPv4 address, and membership in a network given by its leading bits.\<close>

definition ipv4_number :: "ip \<Rightarrow> nat" where
  "ipv4_number a = ((a ! 0 * 256 + a ! 1) * 256 + a ! 2) * 256 + a ! 3"

definition in_net :: "nat \<Rightarrow> nat \<Rightarrow> ip \<Rightarrow> bool" where
  "in_net net len a \<longleftrightarrow> ipv4_number a div 2 ^ (32 - len) = net div 2 ^ (32 - len)"

lemma byte_div: "z < 256 \<Longrightarrow> (v * 256 + z) div 256 = (v :: nat)"
  by simp

lemma quad_div:
  fixes w x y z :: nat
  assumes b: "x < 256" "y < 256" "z < 256"
  defines "n \<equiv> ((w * 256 + x) * 256 + y) * 256 + z"
  shows "n div 65536 = w * 256 + x" "n div 16777216 = w" "n div 1048576 = w * 16 + x div 16" "n div 4194304 = w * 4 + x div 64"
    "n div 268435456 = w div 16"
proof -
  have "n div 65536 = n div 256 div 256" by (simp add: div_mult2_eq [symmetric])
  also have "\<dots> = w * 256 + x" unfolding n_def byte_div [OF b(3)] byte_div [OF b(2)] ..
  finally show q: "n div 65536 = w * 256 + x" .
  have "n div 16777216 = n div 65536 div 256" by (simp add: div_mult2_eq [symmetric])
  then show r: "n div 16777216 = w" unfolding q using byte_div [OF b(1)] by simp
  have "n div 1048576 = n div 65536 div 16" by (simp add: div_mult2_eq [symmetric])
  moreover have "(w * 256 + x) div 16 = w * 16 + x div 16" by (simp add: div_add1_eq)
  ultimately show "n div 1048576 = w * 16 + x div 16" unfolding q by simp
  have "n div 4194304 = n div 65536 div 64" by (simp add: div_mult2_eq [symmetric])
  moreover have "(w * 256 + x) div 64 = w * 4 + x div 64" by (simp add: div_add1_eq)
  ultimately show "n div 4194304 = w * 4 + x div 64" unfolding q by simp
  have "n div 268435456 = n div 16777216 div 16" by (simp add: div_mult2_eq [symmetric])
  then show "n div 268435456 = w div 16" unfolding r by simp
qed

lemma digit_pair: "x < m \<Longrightarrow> w * m + x = c \<longleftrightarrow> w = c div m \<and> x = c mod (m :: nat)"
  by auto

lemma nets:
  fixes w x y z :: nat
  assumes "w < 256" "x < 256" "y < 256" "z < 256"
  defines "a \<equiv> [w, x, y, z]"
  shows "in_net (10 * 2 ^ 24) 8 a \<longleftrightarrow> w = 10" "in_net (127 * 2 ^ 24) 8 a \<longleftrightarrow> w = 127"
    "in_net (224 * 2 ^ 24) 4 a \<longleftrightarrow> w div 16 = 14"
    "in_net (169 * 2 ^ 24 + 254 * 2 ^ 16) 16 a \<longleftrightarrow> w = 169 \<and> x = 254"
    "in_net (192 * 2 ^ 24 + 168 * 2 ^ 16) 16 a \<longleftrightarrow> w = 192 \<and> x = 168"
    "in_net (172 * 2 ^ 24 + 16 * 2 ^ 16) 12 a \<longleftrightarrow> w = 172 \<and> x div 16 = 1"
    "in_net (100 * 2 ^ 24 + 64 * 2 ^ 16) 10 a \<longleftrightarrow> w = 100 \<and> 64 \<le> x \<and> x \<le> 127"
    "ipv4_number a = 0 \<longleftrightarrow> a = [0, 0, 0, 0]" "ipv4_number a = 2 ^ 32 - 1 \<longleftrightarrow> a = [255, 255, 255, 255]"
proof -
  have n: "ipv4_number a = ((w * 256 + x) * 256 + y) * 256 + z" by (simp add: ipv4_number_def a_def)
  note q = quad_div [OF assms(2-4), of w, folded n]
  have d: "x div 16 < 16" "x div 64 < 4" using assms(2) by (simp_all add: less_mult_imp_div_less)
  have x: "64 \<le> x \<and> x \<le> 127 \<longleftrightarrow> x div 64 = 1" by (auto simp: div_eq_dividend_iff)
  show "in_net (10 * 2 ^ 24) 8 a \<longleftrightarrow> w = 10" "in_net (127 * 2 ^ 24) 8 a \<longleftrightarrow> w = 127"
    "in_net (224 * 2 ^ 24) 4 a \<longleftrightarrow> w div 16 = 14"
    by (simp_all add: in_net_def q)
  show "in_net (169 * 2 ^ 24 + 254 * 2 ^ 16) 16 a \<longleftrightarrow> w = 169 \<and> x = 254" "in_net (192 * 2 ^ 24 + 168 * 2 ^ 16) 16 a \<longleftrightarrow> w = 192 \<and> x = 168"
    by (simp_all add: in_net_def q digit_pair [OF assms(2)])
  show "in_net (172 * 2 ^ 24 + 16 * 2 ^ 16) 12 a \<longleftrightarrow> w = 172 \<and> x div 16 = 1"
    by (simp add: in_net_def q digit_pair [OF d(1)])
  show "in_net (100 * 2 ^ 24 + 64 * 2 ^ 16) 10 a \<longleftrightarrow> w = 100 \<and> 64 \<le> x \<and> x \<le> 127"
    unfolding x by (simp add: in_net_def q digit_pair [OF d(2)])
  show "ipv4_number a = 0 \<longleftrightarrow> a = [0, 0, 0, 0]" by (auto simp: ipv4_number_def a_def)
  show "ipv4_number a = 2 ^ 32 - 1 \<longleftrightarrow> a = [255, 255, 255, 255]" unfolding n digit_pair [OF assms(4)] digit_pair [OF assms(3)] digit_pair [OF assms(2)] by (auto simp: a_def)
qed

text \<open>
  The address filter, against the registry: an IPv4 address is refused exactly when it is
  0.0.0.0, 255.255.255.255 or lies in 10/8, 100.64/10, 127/8, 169.254/16, 172.16/12, 192.168/16 or 224/4,
  and the IPv6 form that embeds it (\<open>::ffff:0:0/96\<close>) gets the same verdict.
\<close>

theorem isBlockedIP_networks:
  assumes "length a = 4" and "list_all (\<lambda>b. b < 256) a"
  shows "(isBlockedIP (Some a) \<longleftrightarrow> ipv4_number a = 0 \<or> ipv4_number a = 2 ^ 32 - 1
      \<or> in_net (10 * 2 ^ 24) 8 a \<or> in_net (100 * 2 ^ 24 + 64 * 2 ^ 16) 10 a \<or> in_net (127 * 2 ^ 24) 8 a
      \<or> in_net (169 * 2 ^ 24 + 254 * 2 ^ 16) 16 a \<or> in_net (172 * 2 ^ 24 + 16 * 2 ^ 16) 12 a
      \<or> in_net (192 * 2 ^ 24 + 168 * 2 ^ 16) 16 a \<or> in_net (224 * 2 ^ 24) 4 a)
    \<and> isBlockedIP (Some (replicate 10 0 @ [255, 255] @ a)) = isBlockedIP (Some a)"
proof -
  obtain w x y z where a: "a = [w, x, y, z]" using assms(1) by (auto simp: numeral_eq_Suc length_Suc_conv)
  then have b: "w < 256" "x < 256" "y < 256" "z < 256" using assms(2) by simp_all
  let ?m = "replicate 10 0 @ [255, 255] @ a"
  have l: "length a = 4" "length ?m = 16" by (simp_all add: a)
  have "take 12 ?m = replicate 10 0 @ [255, 255]" "drop 12 ?m = a" by simp_all
  then have t: "To4 a = Some a" "To4 ?m = Some a" unfolding To4_def l by simp_all
  have i: "IsInterfaceLocalMulticast a = False" "IsInterfaceLocalMulticast ?m = False"
    unfolding IsInterfaceLocalMulticast_def l by (simp_all add: nth_append)
  note defs = isBlockedIP_def IsLoopback_def IsPrivate_def IsLinkLocalUnicast_def IsLinkLocalMulticast_def IsMulticast_def
    IsUnspecified_def IsGlobalUnicast_def option.case
  have same: "isBlockedIP (Some ?m) = isBlockedIP (Some a)" unfolding defs i l t by simp
  have "isBlockedIP (Some a) \<longleftrightarrow> w = 127 \<or> (w = 10 \<or> w = 172 \<and> x div 16 = 1 \<or> w = 192 \<and> x = 168) \<or> w = 169 \<and> x = 254
     \<or> w div 16 = 14 \<or> a = [0, 0, 0, 0] \<or> w = 100 \<and> 64 \<le> x \<and> x \<le> 127 \<or> a = [255, 255, 255, 255]"
  proof -
    have bool: "(if P then True else if Q then True else \<not> R) = (P \<or> Q \<or> \<not> R)" for P Q R by simp
    have nth: "a ! 0 = w" "a ! 1 = x" "a ! 2 = y" by (simp_all add: a)
    have "w = 224 \<and> x = 0 \<and> y = 0 \<longrightarrow> w div 16 = 14" by simp
    then show ?thesis unfolding defs i l t bool nth simp_thms option.inject by argo
  qed
  then show ?thesis unfolding nets [OF b, folded a] same by argo
qed

theorem isBlockedIP_networks_witness:
  "isBlockedIP (Some [169, 254, 169, 254]) \<and> isBlockedIP (Some (replicate 10 0 @ [255, 255] @ [10, 0, 0, 1])) \<and> \<not> isBlockedIP (Some [8, 8, 8, 8])"
  using isBlockedIP_networks [of "[169, 254, 169, 254]"] isBlockedIP_networks [of "[10, 0, 0, 1]"] isBlockedIP_networks [of "[8, 8, 8, 8]"]
  by (simp add: in_net_def ipv4_number_def)

end
