(* ===== verification/Ident.thy ===== *)
theory Ident
  imports Pagination Text "HOL-Library.AList"
begin

text \<open>
  The authentication library every service shares, \<open>libs/go/ident/ident.go\<close>: scopes and claims, the cache
  of the identity service's key set (JWKS), and the middlewares \<open>RequireAuthConfig\<close> and \<open>RequireScope\<close>. A
  middleware is a function from a request to the refusal it writes (status and code) or to the claims it
  injects into the context of the next handler.

  The JWT library is a pair of parameters: the unverified header of a token (its \<open>kid\<close>, the empty string
  when there is none; \<^const>\<open>None\<close> for a malformed token or an algorithm other than EdDSA), and the
  verification of its signature and registered claims under a public key. The JSON decoder of the key set
  and the response of the HTTP client are parameters too.
\<close>

section \<open>Scopes and claims\<close>

definition EnvSandbox :: string where "EnvSandbox = ''sandbox''"

definition EnvLive :: string where "EnvLive = ''live''"

definition ScopeWildcard :: string where "ScopeWildcard = ''*''"

definition ScopeLedgerRead :: string where "ScopeLedgerRead = ''ledger:read''"

definition ScopeLedgerWrite :: string where "ScopeLedgerWrite = ''ledger:write''"

definition ScopeReconRead :: string where "ScopeReconRead = ''reconciliation:read''"

definition ScopeReconWrite :: string where "ScopeReconWrite = ''reconciliation:write''"

definition ScopeWebhooksRead :: string where "ScopeWebhooksRead = ''webhooks:read''"

definition ScopeWebhooksWrite :: string where "ScopeWebhooksWrite = ''webhooks:write''"

definition DefaultAudiences :: "string list" where
  "DefaultAudiences = [''ledger-core'', ''reconciliation'', ''webhooks'']"

definition DefaultIssuer :: string where "DefaultIssuer = ''ledgercore-identity''"

definition DefaultClockSkew :: int where "DefaultClockSkew = 60 * 10 ^ 9"

record Claims =
  cl_Subject :: string
  cl_TenantID :: uuid
  cl_Environment :: string
  cl_Scopes :: "string list"

fun grants :: "string list \<Rightarrow> string \<Rightarrow> bool" where
  "grants [] scope = False"
| "grants (s # ss) scope = (if s = scope \<or> s = ScopeWildcard then True else grants ss scope)"

definition HasScope :: "Claims \<Rightarrow> string \<Rightarrow> bool" where
  "HasScope c scope = grants (cl_Scopes c) scope"

text \<open>The payload of a token, the contract between the issuer and every service.\<close>

record tokenClaims =
  tc_TenantID :: string
  tc_Environment :: string
  tc_Scopes :: "string list"
  tc_Subject :: string
  tc_Issuer :: string
  tc_Audience :: "string list"
  tc_IssuedAt :: timestamp
  tc_ExpiresAt :: timestamp
  tc_ID :: string

section \<open>The key set cache\<close>

datatype ident_error = ErrFetch | ErrStatus int | ErrRead | ErrParse | ErrNoUsableKeys | ErrUnknownKid

record jwk =
  jwk_Kty :: string
  jwk_Crv :: string
  jwk_Kid :: string
  jwk_X :: string

text \<open>The Go map from key ids to public keys is an association list; \<open>fetchedAt\<close> starts at the zero time.\<close>

record jwksCache =
  jc_keys :: "(string \<times> string) list"
  jc_fetchedAt :: timestamp

definition newJWKSCache :: jwksCache where
  "newJWKSCache = \<lparr>jc_keys = [], jc_fetchedAt = zeroTime\<rparr>"

definition refreshEvery :: int where
  "refreshEvery = 5 * 60 * 10 ^ 9"

definition PublicKeySize :: nat where
  "PublicKeySize = 32"

fun collect_keys :: "(string \<times> string) list \<Rightarrow> jwk list \<Rightarrow> (string \<times> string) list" where
  "collect_keys keys [] = keys"
| "collect_keys keys (k # ks) =
     (if jwk_Kty k \<noteq> ''OKP'' \<or> jwk_Crv k \<noteq> ''Ed25519'' \<or> jwk_Kid k = '''' then collect_keys keys ks
      else case b64_decode (jwk_X k) of
             None \<Rightarrow> collect_keys keys ks
           | Some raw \<Rightarrow> if length raw \<noteq> PublicKeySize then collect_keys keys ks
                         else collect_keys (AList.update (jwk_Kid k) raw keys) ks)"

text \<open>
  \<open>fetch\<close>: \<open>resp\<close> is the answer of the HTTP client, its status and body (\<^const>\<open>None\<close> inside when reading
  failed), of which at most one mebibyte is read; \<open>json\<close> decodes the document.
\<close>

type_synonym http_answer = "(int \<times> string option) option"

definition fetch :: "(string \<Rightarrow> jwk list option) \<Rightarrow> http_answer \<Rightarrow> timestamp \<Rightarrow> jwksCache \<Rightarrow> (ident_error + unit) \<times> jwksCache" where
  "fetch json resp now c = (case resp of
     None \<Rightarrow> (Inl ErrFetch, c)
   | Some (status, body) \<Rightarrow>
       if status \<noteq> 200 then (Inl (ErrStatus status), c)
       else case body of
         None \<Rightarrow> (Inl ErrRead, c)
       | Some b \<Rightarrow> (case json (take (2 ^ 20) b) of
           None \<Rightarrow> (Inl ErrParse, c)
         | Some doc \<Rightarrow>
             let keys = collect_keys [] doc
             in if keys = [] then (Inl ErrNoUsableKeys, c)
                else (Inr (), c\<lparr>jc_keys := keys, jc_fetchedAt := now\<rparr>)))"

text \<open>
  \<open>key\<close>: \<open>now\<close> is the time of the look-up and \<open>later\<close> the time the fetch finished. \<open>time.Since\<close> saturates,
  which no comparison with five minutes can tell from the exact difference.
\<close>

definition cache_key ::
  "(string \<Rightarrow> jwk list option) \<Rightarrow> http_answer \<Rightarrow> timestamp \<Rightarrow> timestamp \<Rightarrow> string \<Rightarrow> jwksCache
     \<Rightarrow> (ident_error + string) \<times> jwksCache" where
  "cache_key json resp now later kid c =
     (let k = map_of (jc_keys c) kid; fresh = now - jc_fetchedAt c < refreshEvery in
      if k \<noteq> None \<and> fresh then (Inr (the k), c)
      else case fetch json resp later c of
        (Inl e, c') \<Rightarrow> (case k of Some raw \<Rightarrow> (Inr raw, c') | None \<Rightarrow> (Inl e, c'))
      | (Inr _, c') \<Rightarrow> (case map_of (jc_keys c') kid of Some raw \<Rightarrow> (Inr raw, c') | None \<Rightarrow> (Inl ErrUnknownKid, c')))"

text \<open>A tick of \<open>refreshLoop\<close>.\<close>

definition refresh_tick :: "(string \<Rightarrow> jwk list option) \<Rightarrow> http_answer \<Rightarrow> timestamp \<Rightarrow> jwksCache \<Rightarrow> jwksCache" where
  "refresh_tick json resp now c = snd (fetch json resp now c)"

section \<open>Middlewares\<close>

record AuthConfig =
  ac_AuthDisabled :: bool
  ac_ExpectedIssuer :: string
  ac_ExpectedAudience :: string
  ac_ClockSkew :: int

text \<open>The options given to the JWT parser: it accepts EdDSA only and requires an expiry.\<close>

record parserOpts =
  po_Leeway :: int
  po_Issuer :: "string option"
  po_Audience :: "string option"

record IdentEnv =
  ie_uuidParse :: "string \<Rightarrow> uuid option"
  ie_header :: "string \<Rightarrow> string option"
  ie_verify :: "parserOpts \<Rightarrow> string \<Rightarrow> timestamp \<Rightarrow> string \<Rightarrow> tokenClaims option"
  ie_json :: "string \<Rightarrow> jwk list option"
  ie_resp :: http_answer
  ie_now :: timestamp
  ie_later :: timestamp

text \<open>A request, by the headers the middleware reads (empty when absent).\<close>

record AuthRequest =
  rq_XTenantId :: string
  rq_Authorization :: string

abbreviation unauthorized :: "int \<times> string" where
  "unauthorized \<equiv> (401, ''unauthorized'')"

abbreviation forbidden :: "int \<times> string" where
  "forbidden \<equiv> (403, ''forbidden'')"

definition parser_opts :: "AuthConfig \<Rightarrow> parserOpts" where
  "parser_opts cfg =
     \<lparr>po_Leeway = (if ac_ClockSkew cfg \<le> 0 then DefaultClockSkew else ac_ClockSkew cfg),
      po_Issuer = (if ac_ExpectedIssuer cfg \<noteq> '''' then Some (ac_ExpectedIssuer cfg) else None),
      po_Audience = (if ac_ExpectedAudience cfg \<noteq> '''' then Some (ac_ExpectedAudience cfg) else None)\<rparr>"

definition auth_disabled :: "(string \<Rightarrow> uuid option) \<Rightarrow> AuthRequest \<Rightarrow> (int \<times> string) + Claims" where
  "auth_disabled uuidParse r = (let raw = rq_XTenantId r in
     if raw = '''' then Inl unauthorized
     else case uuidParse raw of
       None \<Rightarrow> Inl unauthorized
     | Some i \<Rightarrow> Inr \<lparr>cl_Subject = ''dev'', cl_TenantID = i, cl_Environment = EnvSandbox, cl_Scopes = [ScopeWildcard]\<rparr>)"

text \<open>\<open>jwt.ParseWithClaims\<close> with the key function of the middleware.\<close>

definition ParseWithClaims :: "IdentEnv \<Rightarrow> parserOpts \<Rightarrow> string \<Rightarrow> jwksCache \<Rightarrow> tokenClaims option \<times> jwksCache" where
  "ParseWithClaims env opts token c = (case ie_header env token of
     None \<Rightarrow> (None, c)
   | Some kid \<Rightarrow>
       if kid = '''' then (None, c)
       else case cache_key (ie_json env) (ie_resp env) (ie_now env) (ie_later env) kid c of
         (Inl _, c') \<Rightarrow> (None, c')
       | (Inr pub, c') \<Rightarrow> (ie_verify env opts pub (ie_now env) token, c'))"

definition bearer :: string where
  "bearer = ''Bearer ''"

definition claims_of :: "(string \<Rightarrow> uuid option) \<Rightarrow> tokenClaims \<Rightarrow> (int \<times> string) + Claims" where
  "claims_of uuidParse tc =
     (if TrimSpace (tc_Subject tc) = '''' then Inl unauthorized
      else case uuidParse (tc_TenantID tc) of
        None \<Rightarrow> Inl unauthorized
      | Some i \<Rightarrow>
          if tc_Environment tc \<noteq> EnvSandbox \<and> tc_Environment tc \<noteq> EnvLive then Inl unauthorized
          else Inr \<lparr>cl_Subject = tc_Subject tc, cl_TenantID = i, cl_Environment = tc_Environment tc,
                    cl_Scopes = tc_Scopes tc\<rparr>)"

definition RequireAuthConfig :: "IdentEnv \<Rightarrow> AuthConfig \<Rightarrow> AuthRequest \<Rightarrow> jwksCache \<Rightarrow> ((int \<times> string) + Claims) \<times> jwksCache" where
  "RequireAuthConfig env cfg r c =
     (if ac_AuthDisabled cfg then (auth_disabled (ie_uuidParse env) r, c)
      else if take (length bearer) (rq_Authorization r) \<noteq> bearer then (Inl unauthorized, c)
      else case ParseWithClaims env (parser_opts cfg) (TrimSpace (drop (length bearer) (rq_Authorization r))) c of
             (None, c') \<Rightarrow> (Inl unauthorized, c')
           | (Some tc, c') \<Rightarrow> (claims_of (ie_uuidParse env) tc, c'))"

definition RequireAuth :: "IdentEnv \<Rightarrow> bool \<Rightarrow> AuthRequest \<Rightarrow> jwksCache \<Rightarrow> ((int \<times> string) + Claims) \<times> jwksCache" where
  "RequireAuth env authDisabled = RequireAuthConfig env
     \<lparr>ac_AuthDisabled = authDisabled, ac_ExpectedIssuer = DefaultIssuer, ac_ExpectedAudience = '''', ac_ClockSkew = 0\<rparr>"

text \<open>\<open>RequireScope\<close> inside \<open>RequireAuth\<close>: the claims in the context, if any.\<close>

definition RequireScope :: "string \<Rightarrow> Claims option \<Rightarrow> (int \<times> string) + Claims" where
  "RequireScope scope claims = (case claims of
     None \<Rightarrow> Inl unauthorized
   | Some c \<Rightarrow> if \<not> HasScope c scope then Inl forbidden else Inr c)"

definition TenantFromContext :: "Claims option \<Rightarrow> uuid option" where
  "TenantFromContext claims = map_option cl_TenantID claims"

section \<open>Lemmas\<close>

lemma HasScope_iff: "HasScope c s \<longleftrightarrow> s \<in> set (cl_Scopes c) \<or> ScopeWildcard \<in> set (cl_Scopes c)"
proof -
  have "grants ss s \<longleftrightarrow> s \<in> set ss \<or> ScopeWildcard \<in> set ss" for ss by (induction ss) auto
  then show ?thesis by (simp add: HasScope_def)
qed

end
