(* ===== verification/Identity_Domain.thy ===== *)
theory Identity_Domain
  imports Ident Events Webhook_Signature
begin

text \<open>
  The pure model of the identity service: tenants and slugs (\<open>services/identity/internal/domain/tenant.go\<close>),
  API keys and their secrets (\<open>domain/apikey.go\<close>), signing keys (\<open>domain/signingkey.go\<close>), the scopes of
  \<open>libs/go/ident\<close> and their validation, and \<open>slugify\<close> (\<open>app/service.go\<close>).

  SHA-256 (\<open>sha\<close>) and the random source (\<open>rd k\<close>: the bytes the \<open>k\<close>-th \<open>rand.Read\<close> filled in, \<^const>\<open>None\<close>
  when it failed) are parameters. Text is ASCII, or bytes: a byte outside ASCII is neither a letter, a
  digit nor a space.
\<close>

datatype identity_error =
    IdErrNotFound | ErrSlugConflict | ErrEmailTaken | ErrSignupLimitReached
  | ErrInvalidCredentials | IdValidationError | ErrInvalidEnvironment | ErrRandom | IdErrGenerateID
  | ErrSign | ErrUnsupportedAlgorithm | ErrMalformedPEM | ErrGenerateKey
  | IdCipherError keycrypt_error | IdDbError error

section \<open>Tenants\<close>

definition TenantStatusActive :: string where "TenantStatusActive = ''active''"

definition TenantStatusSuspended :: string where "TenantStatusSuspended = ''suspended''"

definition TenantStatusPurging :: string where "TenantStatusPurging = ''purging''"

definition TenantStatusPurged :: string where "TenantStatusPurged = ''purged''"

definition EnvironmentSandbox :: string where "EnvironmentSandbox = ''sandbox''"

definition EnvironmentLive :: string where "EnvironmentLive = ''live''"

record Tenant =
  tn_ID :: uuid
  tn_Name :: string
  tn_Slug :: string
  tn_Status :: string
  tn_CreatedAt :: timestamp
  tn_ExpiresAt :: "timestamp option"

definition Tenant_Active :: "Tenant \<Rightarrow> bool" where
  "Tenant_Active t \<longleftrightarrow> tn_Status t = TenantStatusActive"

definition MaxSlugLength :: nat where
  "MaxSlugLength = 100"

definition slug_char :: "char \<Rightarrow> bool" where
  "slug_char c \<longleftrightarrow> (CHR ''a'' \<le> c \<and> c \<le> CHR ''z'') \<or> (CHR ''0'' \<le> c \<and> c \<le> CHR ''9'')"

text \<open>\<open>^[a-z0-9]+(?:-[a-z0-9]+)*$\<close>: groups of slug characters, none empty, separated by single hyphens.\<close>

definition slugPattern :: "string \<Rightarrow> bool" where
  "slugPattern s \<longleftrightarrow> list_all (\<lambda>g. g \<noteq> [] \<and> list_all slug_char g) (split_on (CHR ''-'') s)"

definition ValidSlug :: "string \<Rightarrow> bool" where
  "ValidSlug s \<longleftrightarrow> s \<noteq> '''' \<and> length s \<le> MaxSlugLength \<and> slugPattern s"

definition ValidEnvironment :: "string \<Rightarrow> bool" where
  "ValidEnvironment s \<longleftrightarrow> s = EnvironmentSandbox \<or> s = EnvironmentLive"

text \<open>\<open>strings.Trim(s, "-")\<close>, and the loop of \<open>slugify\<close> with its \<open>prevHyphen\<close> flag.\<close>

definition trim_hyphens :: "string \<Rightarrow> string" where
  "trim_hyphens s = rev (dropWhile (\<lambda>c. c = CHR ''-'') (rev (dropWhile (\<lambda>c. c = CHR ''-'') s)))"

fun slug_loop :: "bool \<Rightarrow> string \<Rightarrow> string" where
  "slug_loop prevHyphen [] = []"
| "slug_loop prevHyphen (r # rs) =
     (if slug_char r then r # slug_loop False rs
      else if \<not> prevHyphen then CHR ''-'' # slug_loop True rs else slug_loop prevHyphen rs)"

definition slugify :: "string \<Rightarrow> string" where
  "slugify name = (let s = trim_hyphens (slug_loop True (to_lower name)) in
     if length s > 100 then trim_hyphens (take 100 s) else s)"

section \<open>API keys\<close>

definition SecretRandomLength :: nat where "SecretRandomLength = 32"

definition KeyPrefixLength :: nat where "KeyPrefixLength = 12"

definition base62Alphabet :: string where
  "base62Alphabet = ''0123456789ABCDEFGHIJKLMNOPQRSTUVWXYZabcdefghijklmnopqrstuvwxyz''"

record APIKey =
  ak_ID :: uuid
  ak_TenantID :: uuid
  ak_Environment :: string
  ak_Name :: string
  ak_KeyPrefix :: string
  ak_SecretHash :: string
  ak_Scopes :: "string list"
  ak_CreatedAt :: timestamp
  ak_RevokedAt :: "timestamp option"

definition Revoked :: "APIKey \<Rightarrow> bool" where
  "Revoked k \<longleftrightarrow> ak_RevokedAt k \<noteq> None"

definition HashSecret :: "(string \<Rightarrow> string) \<Rightarrow> string \<Rightarrow> string" where
  "HashSecret sha secret = sha secret"

definition VerifySecret :: "(string \<Rightarrow> string) \<Rightarrow> APIKey \<Rightarrow> string \<Rightarrow> bool" where
  "VerifySecret sha k secret \<longleftrightarrow> HashSecret sha secret = ak_SecretHash k"

text \<open>
  \<open>randomBase62\<close>: the inner loop over one buffer, and the outer loop, which ends only when enough bytes
  below 248 have been read. The result of a run that never ends is \<^const>\<open>None\<close>.
\<close>

fun take_symbols :: "nat \<Rightarrow> string \<Rightarrow> bytes \<Rightarrow> string" where
  "take_symbols n out [] = out"
| "take_symbols n out (b # bs) =
     (if 248 \<le> unat b then take_symbols n out bs
      else let out' = out @ [base62Alphabet ! (unat b mod 62)]
           in if length out' = n then out' else take_symbols n out' bs)"

partial_function (option) random_loop :: "(nat \<Rightarrow> bytes option) \<Rightarrow> nat \<Rightarrow> nat \<Rightarrow> string \<Rightarrow> (identity_error + string) option" where
  "random_loop rd n k out =
     (if length out < n
      then (case rd k of
              None \<Rightarrow> Some (Inl ErrRandom)
            | Some buf \<Rightarrow> random_loop rd n (Suc k) (take_symbols n out buf))
      else Some (Inr out))"

definition randomBase62 :: "(nat \<Rightarrow> bytes option) \<Rightarrow> nat \<Rightarrow> (identity_error + string) option" where
  "randomBase62 rd n = random_loop rd n 0 ''''"

definition NewAPIKeySecret :: "(nat \<Rightarrow> bytes option) \<Rightarrow> string \<Rightarrow> (identity_error + string) option" where
  "NewAPIKeySecret rd environment =
     (if \<not> ValidEnvironment environment then Some (Inl ErrInvalidEnvironment)
      else map_option (\<lambda>r. bindE r (\<lambda>random. Inr (''lk_'' @ environment @ ''_'' @ random)))
             (randomBase62 rd SecretRandomLength))"

definition PrefixOf :: "string \<Rightarrow> string" where
  "PrefixOf secret = (if length secret < KeyPrefixLength then secret else take KeyPrefixLength secret)"

section \<open>Signing keys\<close>

definition AlgorithmEdDSA :: string where "AlgorithmEdDSA = ''EdDSA''"

record SigningKey =
  sk_Kid :: uuid
  sk_PrivateKeyPEM :: string
  sk_PublicKeyPEM :: string
  sk_Algorithm :: string
  sk_CreatedAt :: timestamp
  sk_Active :: bool

text \<open>\<open>pair\<close> is the PEM text of a fresh key pair, \<open>kid\<close> the fresh UUID.\<close>

definition GenerateSigningKey :: "(string \<times> string) option \<Rightarrow> uuid option \<Rightarrow> timestamp \<Rightarrow> identity_error + SigningKey" where
  "GenerateSigningKey pair kid now = (case pair of
     None \<Rightarrow> Inl ErrGenerateKey
   | Some (priv, pub) \<Rightarrow> (case kid of
       None \<Rightarrow> Inl IdErrGenerateID
     | Some i \<Rightarrow> Inr \<lparr>sk_Kid = i, sk_PrivateKeyPEM = priv, sk_PublicKeyPEM = pub, sk_Algorithm = AlgorithmEdDSA,
                      sk_CreatedAt = now, sk_Active = True\<rparr>))"

section \<open>Scopes\<close>

definition DefaultScopes :: "string list" where
  "DefaultScopes = [ScopeLedgerRead, ScopeLedgerWrite, ScopeReconRead, ScopeReconWrite, ScopeWebhooksRead, ScopeWebhooksWrite]"

definition AllowedScopes :: "string \<Rightarrow> bool" where
  "AllowedScopes s \<longleftrightarrow> s \<in> {ScopeLedgerRead, ScopeLedgerWrite, ScopeReconRead, ScopeReconWrite, ScopeWebhooksRead, ScopeWebhooksWrite}"

fun scope_loop :: "string list \<Rightarrow> string list \<Rightarrow> identity_error + string list" where
  "scope_loop out [] = Inr out"
| "scope_loop out (s # ss) = (let s = TrimSpace s in
     if \<not> AllowedScopes s then Inl IdValidationError
     else if s \<notin> set out then scope_loop (out @ [s]) ss else scope_loop out ss)"

text \<open>The set \<open>seen\<close> of the code holds the scopes of \<open>out\<close>.\<close>

definition normalizeScopes :: "string list \<Rightarrow> identity_error + string list" where
  "normalizeScopes requested = (if requested = [] then Inr DefaultScopes else scope_loop [] requested)"

end
