(* ===== verification/Identity_Store.thy ===== *)
theory Identity_Store
  imports Identity_Domain
begin

text \<open>
  The identity database and its statements: the tables of
  \<open>services/identity/internal/adapters/postgres/migrations/\<close> with their constraints, and the operations of
  \<open>adapters/postgres/store.go\<close> and \<open>sandbox.go\<close>. Every table is system level, so the statements run without
  a tenant; a statement or a transaction that fails leaves the database as it was.
\<close>

section \<open>Tables\<close>

record TenantExpiredPayload =
  tep_TenantID :: uuid
  tep_Slug :: string
  tep_ExpiresAt :: timestamp

record Signup =
  su_email :: string
  su_tenant :: uuid
  su_created_at :: timestamp

record IdentityDb =
  id_tenants :: "Tenant list"
  id_keys :: "APIKey list"
  id_signing :: "SigningKey list"
  id_signups :: "Signup list"
  id_outbox :: "TenantExpiredPayload OutboxRow list"

definition empty_identity_db :: IdentityDb where
  "empty_identity_db = \<lparr>id_tenants = [], id_keys = [], id_signing = [], id_signups = [], id_outbox = []\<rparr>"

type_synonym 'a identity_op = "IdentityDb \<Rightarrow> (identity_error + 'a) \<times> IdentityDb"

definition IdWithSystemTx :: "(IdentityDb \<Rightarrow> identity_error + 'a \<times> IdentityDb) \<Rightarrow> 'a identity_op" where
  "IdWithSystemTx fn d = (case fn d of Inl e \<Rightarrow> (Inl e, d) | Inr (x, d') \<Rightarrow> (Inr x, d'))"

section \<open>Tenants\<close>

text \<open>
  The two unique constraints of \<open>tenants\<close> and the check on the status; the constraint an insertion
  violates, if any, the primary key first.
\<close>

datatype tenant_constraint = tenants_pkey | tenants_slug_key | tenants_status_check

definition tenant_violation :: "Tenant \<Rightarrow> IdentityDb \<Rightarrow> tenant_constraint option" where
  "tenant_violation t d =
     (if tn_Status t \<notin> {TenantStatusActive, TenantStatusSuspended, TenantStatusPurging, TenantStatusPurged}
      then Some tenants_status_check
      else if tn_ID t \<in> tn_ID ` set (id_tenants d) then Some tenants_pkey
      else if tn_Slug t \<in> tn_Slug ` set (id_tenants d) then Some tenants_slug_key
      else None)"

definition store_CreateTenant :: "Tenant \<Rightarrow> unit identity_op" where
  "store_CreateTenant t d = (case tenant_violation t d of
     None \<Rightarrow> (Inr (), d\<lparr>id_tenants := id_tenants d @ [t]\<rparr>)
   | Some tenants_status_check \<Rightarrow> (Inl (IdDbError (PgError CheckViolation)), d)
   | Some _ \<Rightarrow> (Inl ErrSlugConflict, d))"

definition store_GetTenant :: "uuid \<Rightarrow> IdentityDb \<Rightarrow> identity_error + Tenant" where
  "store_GetTenant i d = (case find (\<lambda>t. tn_ID t = i) (id_tenants d) of None \<Rightarrow> Inl IdErrNotFound | Some t \<Rightarrow> Inr t)"

definition store_ListTenants :: "nat \<Rightarrow> Cursor \<Rightarrow> IdentityDb \<Rightarrow> Tenant list" where
  "store_ListTenants limit cursor d = keyset_page (\<lambda>t. (tn_CreatedAt t, tn_ID t)) cursor limit (id_tenants d)"

section \<open>API keys\<close>

definition insert_api_key :: "APIKey \<Rightarrow> IdentityDb \<Rightarrow> identity_error + IdentityDb" where
  "insert_api_key k d =
     (if \<not> ValidEnvironment (ak_Environment k) then Inl (IdDbError (PgError CheckViolation))
      else if length (ak_KeyPrefix k) > 16 then Inl (IdDbError (PgError StringTooLong))
      else if ak_ID k \<in> ak_ID ` set (id_keys d) then Inl (IdDbError (PgError UniqueViolation))
      else if ak_TenantID k \<notin> tn_ID ` set (id_tenants d) then Inl (IdDbError (PgError ForeignKeyViolation))
      else Inr (d\<lparr>id_keys := id_keys d @ [k\<lparr>ak_RevokedAt := None\<rparr>]\<rparr>))"

definition store_CreateAPIKey :: "APIKey \<Rightarrow> unit identity_op" where
  "store_CreateAPIKey k d = (case insert_api_key k d of Inl e \<Rightarrow> (Inl e, d) | Inr d' \<Rightarrow> (Inr (), d'))"

text \<open>The rows come in the order of the table: the statement has no \<open>ORDER BY\<close>.\<close>

definition FindAPIKeysByPrefix :: "string \<Rightarrow> IdentityDb \<Rightarrow> APIKey list" where
  "FindAPIKeysByPrefix prefix d = filter (\<lambda>k. ak_KeyPrefix k = prefix) (id_keys d)"

definition store_RevokeAPIKey :: "timestamp \<Rightarrow> uuid \<Rightarrow> unit identity_op" where
  "store_RevokeAPIKey now i d =
     (let hit = (\<lambda>k. ak_ID k = i \<and> ak_RevokedAt k = None) in
      if list_ex hit (id_keys d)
      then (Inr (), d\<lparr>id_keys := map (\<lambda>k. if hit k then k\<lparr>ak_RevokedAt := Some now\<rparr> else k) (id_keys d)\<rparr>)
      else if list_ex (\<lambda>k. ak_ID k = i) (id_keys d) then (Inr (), d)
      else (Inl IdErrNotFound, d))"

section \<open>Signing keys\<close>

definition InsertSigningKey :: "SigningKey \<Rightarrow> unit identity_op" where
  "InsertSigningKey k d =
     (if sk_Algorithm k \<noteq> AlgorithmEdDSA then (Inl (IdDbError (PgError CheckViolation)), d)
      else if sk_Kid k \<in> sk_Kid ` set (id_signing d) then (Inl (IdDbError (PgError UniqueViolation)), d)
      else (Inr (), d\<lparr>id_signing := id_signing d @ [k]\<rparr>))"

definition UpdateSigningKeyPrivatePEM :: "uuid \<Rightarrow> string \<Rightarrow> unit identity_op" where
  "UpdateSigningKeyPrivatePEM kid pem d =
     (if kid \<notin> sk_Kid ` set (id_signing d) then (Inl IdErrNotFound, d)
      else (Inr (), d\<lparr>id_signing := map (\<lambda>k. if sk_Kid k = kid then k\<lparr>sk_PrivateKeyPEM := pem\<rparr> else k) (id_signing d)\<rparr>))"

definition ListActiveSigningKeys :: "IdentityDb \<Rightarrow> SigningKey list" where
  "ListActiveSigningKeys d = rev (sort_key (\<lambda>k. (sk_CreatedAt k, sk_Kid k)) (filter sk_Active (id_signing d)))"

section \<open>Sandbox signup\<close>

text \<open>\<open>date_trunc('day', now())\<close> in a session whose time zone is UTC.\<close>

definition day_start :: "timestamp \<Rightarrow> timestamp" where
  "day_start now = now - now mod (24 * 3600 * 10 ^ 9)"

text \<open>
  The transaction of \<open>ProvisionSandboxTenant\<close>. Its lock on \<open>sandbox_signups\<close> serialises the transactions, so
  each sees the rows of the ones before it. The key is inserted without its scopes: the column's default
  is the empty array. \<open>dbnow\<close> is the clock of the database.
\<close>

definition provision_body :: "timestamp \<Rightarrow> string \<Rightarrow> Tenant \<Rightarrow> APIKey \<Rightarrow> int \<Rightarrow> IdentityDb \<Rightarrow> identity_error + unit \<times> IdentityDb" where
  "provision_body dbnow email t k dailyLimit d =
     (let todays = length (filter (\<lambda>s. su_created_at s \<ge> day_start dbnow) (id_signups d)) in
      if int todays \<ge> dailyLimit then Inl ErrSignupLimitReached
      else case tenant_violation t d of
        Some tenants_slug_key \<Rightarrow> Inl ErrSlugConflict
      | Some tenants_pkey \<Rightarrow> Inl (IdDbError (PgError UniqueViolation))
      | Some tenants_status_check \<Rightarrow> Inl (IdDbError (PgError CheckViolation))
      | None \<Rightarrow>
        bindE (insert_api_key (k\<lparr>ak_Scopes := []\<rparr>) (d\<lparr>id_tenants := id_tenants d @ [t]\<rparr>)) (\<lambda>d.
        if email \<in> su_email ` set (id_signups d) then Inl ErrEmailTaken
        else Inr ((), d\<lparr>id_signups := id_signups d @ [\<lparr>su_email = email, su_tenant = tn_ID t, su_created_at = tn_CreatedAt t\<rparr>]\<rparr>)))"

definition ProvisionSandboxTenant :: "timestamp \<Rightarrow> string \<Rightarrow> Tenant \<Rightarrow> APIKey \<Rightarrow> int \<Rightarrow> unit identity_op" where
  "ProvisionSandboxTenant dbnow email t k dailyLimit = IdWithSystemTx (provision_body dbnow email t k dailyLimit)"

section \<open>Expiry\<close>

definition announced_not :: "Tenant \<Rightarrow> bool" where
  "announced_not t \<longleftrightarrow> tn_Status t = TenantStatusActive \<or> tn_Status t = TenantStatusSuspended"

definition expired_before :: "timestamp \<Rightarrow> Tenant \<Rightarrow> bool" where
  "expired_before now t \<longleftrightarrow> (case tn_ExpiresAt t of None \<Rightarrow> False | Some e \<Rightarrow> e < now)"

definition ExpiredSandboxTenants :: "timestamp \<Rightarrow> IdentityDb \<Rightarrow> Tenant list" where
  "ExpiredSandboxTenants now d =
     sort_key (\<lambda>t. the (tn_ExpiresAt t)) (filter (\<lambda>t. expired_before now t \<and> announced_not t) (id_tenants d))"

definition set_status :: "(Tenant \<Rightarrow> bool) \<Rightarrow> string \<Rightarrow> IdentityDb \<Rightarrow> IdentityDb" where
  "set_status P st d = d\<lparr>id_tenants := map (\<lambda>t. if P t then t\<lparr>tn_Status := st\<rparr> else t) (id_tenants d)\<rparr>"

definition mark_purging_body :: "TenantExpiredPayload Envelope \<Rightarrow> IdentityDb \<Rightarrow> identity_error + unit \<times> IdentityDb" where
  "mark_purging_body env d =
     (let hit = (\<lambda>t. tn_ID t = env_TenantID env \<and> announced_not t) in
      if \<not> list_ex hit (id_tenants d) then Inr ((), d)
      else Inr ((), (set_status hit TenantStatusPurging d)\<lparr>id_outbox := id_outbox d @
             [\<lparr>or_tenant = env_TenantID env, or_topic = env_Type env, or_envelope = Some env, or_published = False\<rparr>]\<rparr>))"

definition MarkTenantPurging :: "TenantExpiredPayload Envelope \<Rightarrow> unit identity_op" where
  "MarkTenantPurging env = IdWithSystemTx (mark_purging_body env)"

definition PurgeableTenants :: "timestamp \<Rightarrow> IdentityDb \<Rightarrow> uuid list" where
  "PurgeableTenants cutoff d =
     map tn_ID (filter (\<lambda>t. tn_Status t = TenantStatusPurging \<and> expired_before cutoff t) (id_tenants d))"

definition finalize_body :: "uuid \<Rightarrow> IdentityDb \<Rightarrow> identity_error + nat \<times> IdentityDb" where
  "finalize_body i d =
     (let hit = (\<lambda>t. tn_ID t = i \<and> tn_Status t = TenantStatusPurging) in
      if \<not> list_ex hit (id_tenants d) then Inr (0, d)
      else Inr (length (filter (\<lambda>k. ak_TenantID k = i) (id_keys d)),
                (set_status hit TenantStatusPurged d)\<lparr>id_keys := filter (\<lambda>k. ak_TenantID k \<noteq> i) (id_keys d)\<rparr>))"

definition FinalizeTenantPurge :: "uuid \<Rightarrow> nat identity_op" where
  "FinalizeTenantPurge i = IdWithSystemTx (finalize_body i)"

section \<open>Outbox\<close>

definition drain_identity_outbox :: "(nat \<Rightarrow> bool) \<Rightarrow> IdentityDb \<Rightarrow> IdentityDb \<times> TenantExpiredPayload Envelope list \<times> bool" where
  "drain_identity_outbox pub d = (case drainOnce pub (id_outbox d) of (rows, sent, failed) \<Rightarrow> (d\<lparr>id_outbox := rows\<rparr>, sent, failed))"

end
