(* ===== verification/Identity_Service.thy ===== *)
theory Identity_Service
  imports Identity_Store
begin

text \<open>
  The use cases of the identity service: tenants, API keys and token issuance
  (\<open>services/identity/internal/app/service.go\<close>), the token issuer and the key set (\<open>app/token.go\<close>), and the
  self-service sandbox with its sweeper (\<open>app/sandbox.go\<close>).

  An \<open>IdentityWorld\<close> gathers what the code reads from outside: the random source, SHA-256, fresh UUIDs
  (\<^const>\<open>None\<close> when the generator fails), the text of a UUID, the clocks of the service and of the
  database, the JWT signature and \<open>mail.ParseAddress\<close>. An operation that draws a secret is \<^const>\<open>None\<close> when
  its random source never yields enough acceptable bytes.
\<close>

record IdentityWorld =
  iw_rand :: "nat \<Rightarrow> bytes option"
  iw_sha :: "string \<Rightarrow> string"
  iw_newID :: "nat \<Rightarrow> uuid option"
  iw_us :: "uuid \<Rightarrow> string"
  iw_now :: timestamp
  iw_dbnow :: timestamp
  iw_sign :: "string \<Rightarrow> string \<Rightarrow> tokenClaims \<Rightarrow> string option"
  iw_tokenID :: string
  iw_mail :: "string \<Rightarrow> string option"

section \<open>Tenants\<close>

definition CreateTenant :: "IdentityWorld \<Rightarrow> string \<Rightarrow> string \<Rightarrow> Tenant identity_op" where
  "CreateTenant w name slug d =
     (let name = TrimSpace name in
      if name = '''' \<or> length name > 255 then (Inl IdValidationError, d)
      else let slug = (if slug = '''' then slugify name else slug) in
      if \<not> ValidSlug slug then (Inl IdValidationError, d)
      else case iw_newID w 0 of
        None \<Rightarrow> (Inl IdErrGenerateID, d)
      | Some i \<Rightarrow>
          let tenant = \<lparr>tn_ID = i, tn_Name = name, tn_Slug = slug, tn_Status = TenantStatusActive,
                        tn_CreatedAt = iw_now w, tn_ExpiresAt = None\<rparr>
          in (case store_CreateTenant tenant d of (Inl e, d') \<Rightarrow> (Inl e, d') | (Inr _, d') \<Rightarrow> (Inr tenant, d')))"

definition GetTenant :: "uuid \<Rightarrow> IdentityDb \<Rightarrow> identity_error + Tenant" where
  "GetTenant i d = store_GetTenant i d"

definition ListTenants :: "nat \<Rightarrow> Cursor \<Rightarrow> IdentityDb \<Rightarrow> Tenant list" where
  "ListTenants limit cursor d = store_ListTenants limit cursor d"

section \<open>API keys\<close>

definition new_api_key :: "IdentityWorld \<Rightarrow> uuid \<Rightarrow> uuid \<Rightarrow> string \<Rightarrow> string \<Rightarrow> string \<Rightarrow> string list \<Rightarrow> APIKey" where
  "new_api_key w i tenantID environment name secret scopes =
     \<lparr>ak_ID = i, ak_TenantID = tenantID, ak_Environment = environment, ak_Name = name,
      ak_KeyPrefix = PrefixOf secret, ak_SecretHash = HashSecret (iw_sha w) secret, ak_Scopes = scopes,
      ak_CreatedAt = iw_now w, ak_RevokedAt = None\<rparr>"

text \<open>The checks of \<open>CreateAPIKey\<close> before it draws the secret: the trimmed name and the scopes granted.\<close>

definition api_key_request :: "uuid \<Rightarrow> string \<Rightarrow> string \<Rightarrow> string list \<Rightarrow> IdentityDb \<Rightarrow> identity_error + string \<times> string list" where
  "api_key_request tenantID environment name scopes d =
     (let name = TrimSpace name in
      if name = '''' \<or> length name > 255 then Inl IdValidationError
      else if \<not> ValidEnvironment environment then Inl IdValidationError
      else bindE (normalizeScopes scopes) (\<lambda>granted.
           bindE (store_GetTenant tenantID d) (\<lambda>_. Inr (name, granted))))"

definition CreateAPIKey ::
  "IdentityWorld \<Rightarrow> uuid \<Rightarrow> string \<Rightarrow> string \<Rightarrow> string list \<Rightarrow> IdentityDb
     \<Rightarrow> ((identity_error + APIKey \<times> string) \<times> IdentityDb) option" where
  "CreateAPIKey w tenantID environment name scopes d =
     (case api_key_request tenantID environment name scopes d of
        Inl e \<Rightarrow> Some (Inl e, d)
      | Inr (name, granted) \<Rightarrow>
        (case NewAPIKeySecret (iw_rand w) environment of
           None \<Rightarrow> None
         | Some (Inl e) \<Rightarrow> Some (Inl e, d)
         | Some (Inr secret) \<Rightarrow>
           (case iw_newID w 0 of
              None \<Rightarrow> Some (Inl IdErrGenerateID, d)
            | Some i \<Rightarrow>
                let key = new_api_key w i tenantID environment name secret granted
                in (case store_CreateAPIKey key d of
                      (Inl e, d') \<Rightarrow> Some (Inl e, d') | (Inr _, d') \<Rightarrow> Some (Inr (key, secret), d')))))"

definition RevokeAPIKey :: "IdentityWorld \<Rightarrow> uuid \<Rightarrow> unit identity_op" where
  "RevokeAPIKey w i = store_RevokeAPIKey (iw_dbnow w) i"

section \<open>Tokens\<close>

definition TokenTTL :: int where
  "TokenTTL = 15 * 60 * 10 ^ 9"

record TokenIssuer =
  ti_kid :: string
  ti_key :: string
  ti_ttl :: int
  ti_audiences :: "string list"

text \<open>\<open>pem priv\<close> is the Ed25519 private key a PEM text holds.\<close>

definition NewTokenIssuer :: "(string \<Rightarrow> string option) \<Rightarrow> (uuid \<Rightarrow> string) \<Rightarrow> SigningKey \<Rightarrow> int \<Rightarrow> identity_error + TokenIssuer" where
  "NewTokenIssuer pem us key ttl =
     (if sk_Algorithm key \<noteq> AlgorithmEdDSA then Inl ErrUnsupportedAlgorithm
      else case pem (sk_PrivateKeyPEM key) of
        None \<Rightarrow> Inl ErrMalformedPEM
      | Some priv \<Rightarrow> Inr \<lparr>ti_kid = us (sk_Kid key), ti_key = priv, ti_ttl = ttl, ti_audiences = DefaultAudiences\<rparr>)"

record IssuedToken =
  it_AccessToken :: string
  it_TokenType :: string
  it_ExpiresIn :: int

text \<open>The claims of a token; the JWT library truncates the two instants to seconds when it encodes them.\<close>

definition token_claims :: "IdentityWorld \<Rightarrow> TokenIssuer \<Rightarrow> uuid \<Rightarrow> uuid \<Rightarrow> string \<Rightarrow> string list \<Rightarrow> tokenClaims" where
  "token_claims w iss apiKeyID tenantID environment scopes =
     \<lparr>tc_TenantID = iw_us w tenantID, tc_Environment = environment, tc_Scopes = scopes,
      tc_Subject = ''api_key:'' @ iw_us w apiKeyID, tc_Issuer = DefaultIssuer, tc_Audience = ti_audiences iss,
      tc_IssuedAt = iw_now w, tc_ExpiresAt = iw_now w + ti_ttl iss, tc_ID = iw_tokenID w\<rparr>"

definition Issue :: "IdentityWorld \<Rightarrow> TokenIssuer \<Rightarrow> uuid \<Rightarrow> uuid \<Rightarrow> string \<Rightarrow> string list \<Rightarrow> identity_error + IssuedToken" where
  "Issue w iss apiKeyID tenantID environment scopes =
     (case iw_sign w (ti_kid iss) (ti_key iss) (token_claims w iss apiKeyID tenantID environment scopes) of
        None \<Rightarrow> Inl ErrSign
      | Some token \<Rightarrow> Inr \<lparr>it_AccessToken = token, it_TokenType = ''Bearer'', it_ExpiresIn = ti_ttl iss div 10 ^ 9\<rparr>)"

text \<open>\<open>strings.HasPrefix(secret, "lk_")\<close>; the look-up by prefix, then the first candidate whose hash matches.\<close>

definition IssueToken :: "IdentityWorld \<Rightarrow> TokenIssuer \<Rightarrow> string \<Rightarrow> IdentityDb \<Rightarrow> identity_error + IssuedToken" where
  "IssueToken w iss secret d =
     (if take 3 secret \<noteq> ''lk_'' \<or> length secret \<le> KeyPrefixLength then Inl ErrInvalidCredentials
      else case find (\<lambda>k. VerifySecret (iw_sha w) k secret) (FindAPIKeysByPrefix (PrefixOf secret) d) of
        None \<Rightarrow> Inl ErrInvalidCredentials
      | Some match \<Rightarrow>
          if Revoked match then Inl ErrInvalidCredentials
          else case store_GetTenant (ak_TenantID match) d of
            Inl e \<Rightarrow> (if e = IdErrNotFound then Inl ErrInvalidCredentials else Inl e)
          | Inr tenant \<Rightarrow>
              if \<not> Tenant_Active tenant then Inl ErrInvalidCredentials
              else Issue w iss (ak_ID match) (tn_ID tenant) (ak_Environment match)
                     (if ak_Scopes match = [] then DefaultScopes else ak_Scopes match))"

record JWK =
  jw_Kty :: string
  jw_Crv :: string
  jw_Kid :: string
  jw_X :: string
  jw_Alg :: string
  jw_Use :: string

fun jwks_loop :: "(string \<Rightarrow> string option) \<Rightarrow> (uuid \<Rightarrow> string) \<Rightarrow> SigningKey list \<Rightarrow> identity_error + JWK list" where
  "jwks_loop pem us [] = Inr []"
| "jwks_loop pem us (k # ks) = (case pem (sk_PublicKeyPEM k) of
     None \<Rightarrow> Inl ErrMalformedPEM
   | Some pub \<Rightarrow> bindE (jwks_loop pem us ks) (\<lambda>rest.
       Inr (\<lparr>jw_Kty = ''OKP'', jw_Crv = ''Ed25519'', jw_Kid = us (sk_Kid k), jw_X = b64_encode pub,
             jw_Alg = AlgorithmEdDSA, jw_Use = ''sig''\<rparr> # rest)))"

definition JWKS :: "(string \<Rightarrow> string option) \<Rightarrow> (uuid \<Rightarrow> string) \<Rightarrow> IdentityDb \<Rightarrow> identity_error + JWK list" where
  "JWKS pem us d = jwks_loop pem us (ListActiveSigningKeys d)"

section \<open>Signing keys at startup\<close>

text \<open>
  The identity service's copy of \<open>keycrypt\<close> differs from the one of webhooks in one branch: a value that
  is not sealed is refused.
\<close>

definition identity_Decrypt :: "Cipher option \<Rightarrow> string \<Rightarrow> string \<Rightarrow> keycrypt_error + string" where
  "identity_Decrypt c stored kid = (if \<not> IsEncrypted stored then Inl ErrMalformedBlob else Decrypt c stored kid)"

fun seal_keys :: "Cipher option \<Rightarrow> (nat \<Rightarrow> string option) \<Rightarrow> (uuid \<Rightarrow> string) \<Rightarrow> nat \<Rightarrow> SigningKey list \<Rightarrow> unit identity_op" where
  "seal_keys cph nonces us n [] d = (Inr (), d)"
| "seal_keys cph nonces us n (k # ks) d =
     (if IsEncrypted (sk_PrivateKeyPEM k) then seal_keys cph nonces us n ks d
      else case Encrypt cph (nonces n) (sk_PrivateKeyPEM k) (us (sk_Kid k)) of
        Inl e \<Rightarrow> (Inl (IdCipherError e), d)
      | Inr sealed \<Rightarrow>
        (case UpdateSigningKeyPrivatePEM (sk_Kid k) sealed d of
           (Inl e, d') \<Rightarrow> (Inl e, d')
         | (Inr _, d') \<Rightarrow> seal_keys cph nonces us (Suc n) ks d'))"

definition EnsureSigningKey ::
  "Cipher option \<Rightarrow> (nat \<Rightarrow> string option) \<Rightarrow> (uuid \<Rightarrow> string) \<Rightarrow> identity_error + SigningKey \<Rightarrow> SigningKey identity_op" where
  "EnsureSigningKey cph nonces us fresh d =
     (case ListActiveSigningKeys d of
        key # rest \<Rightarrow>
          (case (if cph = None then (Inr (), d) else seal_keys cph nonces us 0 (key # rest) d) of
             (Inl e, d') \<Rightarrow> (Inl e, d')
           | (Inr _, d') \<Rightarrow>
               if IsEncrypted (sk_PrivateKeyPEM key)
               then (case identity_Decrypt cph (sk_PrivateKeyPEM key) (us (sk_Kid key)) of
                       Inl e \<Rightarrow> (Inl (IdCipherError e), d')
                     | Inr plain \<Rightarrow> (Inr (key\<lparr>sk_PrivateKeyPEM := plain\<rparr>), d'))
               else (Inr key, d'))
      | [] \<Rightarrow>
          (case fresh of
             Inl e \<Rightarrow> (Inl e, d)
           | Inr key \<Rightarrow>
             (case (if cph = None then Inr key
                    else case Encrypt cph (nonces 0) (sk_PrivateKeyPEM key) (us (sk_Kid key)) of
                      Inl e \<Rightarrow> Inl (IdCipherError e) | Inr sealed \<Rightarrow> Inr (key\<lparr>sk_PrivateKeyPEM := sealed\<rparr>)) of
                Inl e \<Rightarrow> (Inl e, d)
              | Inr stored \<Rightarrow>
                (case InsertSigningKey stored d of (Inl e, d') \<Rightarrow> (Inl e, d') | (Inr _, d') \<Rightarrow> (Inr key, d')))))"

section \<open>Sandbox\<close>

definition SandboxTTL :: int where
  "SandboxTTL = 14 * 24 * 3600 * 10 ^ 9"

definition PurgeGrace :: int where
  "PurgeGrace = 24 * 3600 * 10 ^ 9"

definition DefaultSignupsPerDay :: int where
  "DefaultSignupsPerDay = 20"

definition NewSandboxService :: "int \<Rightarrow> int" where
  "NewSandboxService dailyLimit = (if dailyLimit \<le> 0 then DefaultSignupsPerDay else dailyLimit)"

definition signup_slug :: "string \<Rightarrow> string \<Rightarrow> string" where
  "signup_slug companyName idText =
     (let base = (if slugify companyName = '''' then ''sandbox'' else slugify companyName);
          suffix = take 6 (to_lower (filter (\<lambda>c. c \<noteq> CHR ''-'') idText));
          slug = (if length base > MaxSlugLength - 7 then trim_hyphens (take (MaxSlugLength - 7) base) else base)
      in slug @ ''-'' @ suffix)"

record SandboxSignup =
  ss_Tenant :: Tenant
  ss_Key :: APIKey
  ss_Secret :: string

definition signup_request :: "IdentityWorld \<Rightarrow> string \<Rightarrow> string \<Rightarrow> identity_error + string \<times> string" where
  "signup_request w email companyName =
     (let email = to_lower (TrimSpace email); companyName = TrimSpace companyName in
      if email = '''' \<or> length email > 320 then Inl IdValidationError
      else if iw_mail w email \<noteq> Some email then Inl IdValidationError
      else if companyName = '''' \<or> length companyName > 255 then Inl IdValidationError
      else Inr (email, companyName))"

definition sandbox_tenant :: "IdentityWorld \<Rightarrow> uuid \<Rightarrow> string \<Rightarrow> Tenant" where
  "sandbox_tenant w i companyName =
     \<lparr>tn_ID = i, tn_Name = companyName, tn_Slug = signup_slug companyName (iw_us w i), tn_Status = TenantStatusActive,
      tn_CreatedAt = iw_now w, tn_ExpiresAt = Some (iw_now w + SandboxTTL)\<rparr>"

definition Signup ::
  "IdentityWorld \<Rightarrow> int \<Rightarrow> string \<Rightarrow> string \<Rightarrow> IdentityDb \<Rightarrow> ((identity_error + SandboxSignup) \<times> IdentityDb) option" where
  "Signup w dailyLimit email companyName d =
     (case signup_request w email companyName of
        Inl e \<Rightarrow> Some (Inl e, d)
      | Inr (email, companyName) \<Rightarrow>
        (case iw_newID w 0 of
           None \<Rightarrow> Some (Inl IdErrGenerateID, d)
         | Some tenantID \<Rightarrow>
           (case NewAPIKeySecret (iw_rand w) EnvironmentSandbox of
              None \<Rightarrow> None
            | Some (Inl e) \<Rightarrow> Some (Inl e, d)
            | Some (Inr secret) \<Rightarrow>
              (case iw_newID w 1 of
                 None \<Rightarrow> Some (Inl IdErrGenerateID, d)
               | Some keyID \<Rightarrow>
                   let tenant = sandbox_tenant w tenantID companyName;
                       key = new_api_key w keyID tenantID EnvironmentSandbox ''sandbox signup key'' secret DefaultScopes
                   in (case ProvisionSandboxTenant (iw_dbnow w) email tenant key dailyLimit d of
                         (Inl e, d') \<Rightarrow> Some (Inl e, d')
                       | (Inr _, d') \<Rightarrow> Some (Inr \<lparr>ss_Tenant = tenant, ss_Key = key, ss_Secret = secret\<rparr>, d'))))))"

section \<open>The sweeper\<close>

text \<open>
  A pass announces the tenants read by its first query and finalizes those read by its second;
  \<open>eventID k\<close> is the identifier and \<open>wall\<close> the time of the envelope.
\<close>

fun announce_loop :: "(nat \<Rightarrow> uuid option) \<Rightarrow> timestamp \<Rightarrow> nat \<Rightarrow> Tenant list \<Rightarrow> unit identity_op" where
  "announce_loop eventID wall k [] d = (Inr (), d)"
| "announce_loop eventID wall k (t # ts) d =
     (case NewEnvelope (eventID k) wall TopicTenantExpired (tn_ID t)
             \<lparr>tep_TenantID = tn_ID t, tep_Slug = tn_Slug t, tep_ExpiresAt = the (tn_ExpiresAt t)\<rparr> of
        Inl e \<Rightarrow> (Inl (IdDbError e), d)
      | Inr env \<Rightarrow>
        (case MarkTenantPurging env d of
           (Inl e, d') \<Rightarrow> (Inl e, d')
         | (Inr _, d') \<Rightarrow> announce_loop eventID wall (Suc k) ts d'))"

fun finalize_loop :: "uuid list \<Rightarrow> unit identity_op" where
  "finalize_loop [] d = (Inr (), d)"
| "finalize_loop (i # is) d = (case FinalizeTenantPurge i d of (Inl e, d') \<Rightarrow> (Inl e, d') | (Inr _, d') \<Rightarrow> finalize_loop is d')"

definition Sweep :: "IdentityWorld \<Rightarrow> timestamp \<Rightarrow> unit identity_op" where
  "Sweep w wall d =
     (case announce_loop (iw_newID w) wall 0 (ExpiredSandboxTenants (iw_now w) d) d of
        (Inl e, d') \<Rightarrow> (Inl e, d')
      | (Inr _, d') \<Rightarrow> finalize_loop (PurgeableTenants (iw_now w - PurgeGrace) d') d')"

end
