(* ===== verification/Identity_Text.thy ===== *)
theory Identity_Text
  imports Identity_Service
begin

text \<open>
  Slugs and secrets of the identity service: every slug the service derives is a valid one, and the
  rejection sampling of \<open>randomBase62\<close> ends as soon as enough bytes are acceptable, with unbiased symbols.
\<close>

section \<open>Slugs\<close>

text \<open>A left-to-right recogniser: \<open>prev\<close> says whether a hyphen may not come next.\<close>

fun slug_auto :: "bool \<Rightarrow> string \<Rightarrow> bool" where
  "slug_auto prev [] = True"
| "slug_auto prev (c # cs) = (if c = CHR ''-'' then \<not> prev \<and> slug_auto True cs else slug_char c \<and> slug_auto False cs)"

lemma hyphen_not_slug [simp]: "\<not> slug_char (CHR ''-'')"
  by (simp add: slug_char_def less_eq_char_def)

lemma split_on_ne: "split_on c s \<noteq> []"
  by (induction s) (auto split: list.splits)

lemma slug_groups:
  "(case split_on (CHR ''-'') s of g # gs \<Rightarrow> (prev \<longrightarrow> g \<noteq> []) \<and> list_all slug_char g
       \<and> list_all (\<lambda>g. g \<noteq> [] \<and> list_all slug_char g) gs)
     \<longleftrightarrow> slug_auto prev s \<and> (if s = [] then \<not> prev else last s \<noteq> CHR ''-'')"
proof (induction s arbitrary: prev)
  case (Cons c s)
  show ?case
    using Cons.IH [of True] Cons.IH [of False] split_on_ne [of "CHR ''-''" s]
    by (cases "split_on (CHR ''-'') s") auto
qed simp

lemma slugPattern_iff: "slugPattern s \<longleftrightarrow> slug_auto True s \<and> s \<noteq> [] \<and> last s \<noteq> CHR ''-''"
  using slug_groups [where s = s and prev = True] split_on_ne [of "CHR ''-''" s]
  by (cases "split_on (CHR ''-'') s") (auto simp: slugPattern_def)

lemma slug_auto_append: "slug_auto prev (a @ b) \<Longrightarrow> slug_auto prev a"
  by (induction a arbitrary: prev) (auto split: if_splits)

lemma slug_auto_take: "slug_auto prev s \<Longrightarrow> slug_auto prev (take n s)"
  by (metis append_take_drop_id slug_auto_append)

lemma slug_auto_loop: "slug_auto prev (slug_loop prev s)"
  by (induction prev s rule: slug_loop.induct) auto

lemma slug_auto_hd: "slug_auto True s \<Longrightarrow> s \<noteq> [] \<Longrightarrow> slug_char (hd s)"
  by (cases s) (auto split: if_splits)

lemma trim_hyphens_slug:
  assumes "slug_auto True s"
  shows "slug_auto True (trim_hyphens s)" "trim_hyphens s = [] \<longleftrightarrow> s = []" "trim_hyphens s \<noteq> [] \<Longrightarrow> last (trim_hyphens s) \<noteq> CHR ''-''"
    "length (trim_hyphens s) \<le> length s"
proof -
  have d: "dropWhile (\<lambda>c. c = CHR ''-'') s = s" using assms by (cases s) auto
  define t where "t = rev (dropWhile (\<lambda>c. c = CHR ''-'') (rev s))"
  have t: "trim_hyphens s = t" by (simp add: trim_hyphens_def d t_def)
  have "s = t @ rev (takeWhile (\<lambda>c. c = CHR ''-'') (rev s))"
    by (metis t_def rev_append rev_rev_ident takeWhile_dropWhile_id)
  then show "slug_auto True (trim_hyphens s)" "length (trim_hyphens s) \<le> length s"
    using assms slug_auto_append unfolding t by (metis, metis length_append le_add1)
  show "trim_hyphens s \<noteq> [] \<Longrightarrow> last (trim_hyphens s) \<noteq> CHR ''-''"
    unfolding t t_def using hd_dropWhile [of "\<lambda>c. c = CHR ''-''" "rev s"] by (simp add: last_rev)
  have "t \<noteq> []" if "s \<noteq> []"
  proof -
    have "hd s \<in> set (rev s)" "hd s \<noteq> CHR ''-''" using that slug_auto_hd [OF assms that] by auto
    then show ?thesis by (auto simp: t_def dropWhile_eq_Nil_conv)
  qed
  moreover have "t = []" if "s = []" using that by (simp add: t_def)
  ultimately show "trim_hyphens s = [] \<longleftrightarrow> s = []" unfolding t by blast
qed

lemma slug_loop_nil: "slug_loop True s = [] \<longleftrightarrow> list_all (\<lambda>c. \<not> slug_char c) s"
  by (induction s) auto

lemma slugify_valid:
  "slugify n = '''' \<longleftrightarrow> list_all (\<lambda>c. \<not> slug_char c) (to_lower n)"
  "slugify n \<noteq> '''' \<Longrightarrow> ValidSlug (slugify n)"
proof -
  define s where "s = trim_hyphens (slug_loop True (to_lower n))"
  note a = trim_hyphens_slug [OF slug_auto_loop [of True "to_lower n"], folded s_def]
  note b = trim_hyphens_slug [OF slug_auto_take [OF a(1), of 100]]
  have e: "slugify n = (if length s > 100 then trim_hyphens (take 100 s) else s)" by (simp add: slugify_def s_def Let_def)
  then show "slugify n = '''' \<longleftrightarrow> list_all (\<lambda>c. \<not> slug_char c) (to_lower n)"
    using a(2) b(2) slug_loop_nil by auto
  show "slugify n \<noteq> '''' \<Longrightarrow> ValidSlug (slugify n)"
    using a b by (auto simp: e ValidSlug_def MaxSlugLength_def slugPattern_iff split: if_splits)
qed

lemma slug_join:
  assumes "slug_auto True a" "a \<noteq> []" "last a \<noteq> CHR ''-''" "list_all slug_char b" "b \<noteq> []"
  shows "slugPattern (a @ ''-'' @ b)"
proof -
  have b: "slug_auto True b" "last b \<noteq> CHR ''-''"
  proof -
    have "slug_auto p b" for p using assms(4) by (induction b arbitrary: p) auto
    then show "slug_auto True b" .
    show "last b \<noteq> CHR ''-''" using assms(4,5) hyphen_not_slug by (metis last_in_set list_all_iff)
  qed
  have "slug_auto p (a @ ''-'' @ b)" if "slug_auto p a" "a \<noteq> []" "last a \<noteq> CHR ''-''" for p
    using that b by (induction a arbitrary: p) (auto split: if_splits)
  then show ?thesis using assms b by (simp add: slugPattern_iff)
qed

lemma signup_slug_valid:
  assumes "6 \<le> length (filter (\<lambda>c. c \<noteq> CHR ''-'') txt)"
    and "list_all slug_char (to_lower (filter (\<lambda>c. c \<noteq> CHR ''-'') txt))"
  shows "ValidSlug (signup_slug name txt)"
proof -
  define base where "base = (if slugify name = '''' then ''sandbox'' else slugify name)"
  define slug where "slug = (if length base > 93 then trim_hyphens (take 93 base) else base)"
  define suffix where "suffix = take 6 (to_lower (filter (\<lambda>c. c \<noteq> CHR ''-'') txt))"
  have "ValidSlug ''sandbox''"
    by (simp add: ValidSlug_def slugPattern_def MaxSlugLength_def slug_char_def less_eq_char_def)
  then have b: "slug_auto True base" "base \<noteq> []" "last base \<noteq> CHR ''-''"
    using slugify_valid(2) [of name] by (auto simp: base_def ValidSlug_def slugPattern_iff)
  note t = trim_hyphens_slug [OF slug_auto_take [OF b(1), of 93]]
  have s: "slug_auto True slug" "slug \<noteq> []" "last slug \<noteq> CHR ''-''" "length slug \<le> 93"
    using b t by (auto simp: slug_def)
  have x: "list_all slug_char suffix" "length suffix = 6"
    using assms set_take_subset [of 6 "to_lower (filter (\<lambda>c. c \<noteq> CHR ''-'') txt)"]
    by (auto simp: suffix_def list_all_iff) (simp add: to_lower_def)
  have "signup_slug name txt = slug @ ''-'' @ suffix"
    by (simp add: signup_slug_def Let_def slug_def base_def suffix_def MaxSlugLength_def)
  moreover have "slugPattern (slug @ ''-'' @ suffix)" using s x by (intro slug_join) auto
  ultimately show ?thesis using s(4) x(2) by (simp add: ValidSlug_def MaxSlugLength_def)
qed

text \<open>
  Slugs derived by the service are well formed: \<open>slugify\<close> gives a valid slug, or the empty string exactly
  for a name without a letter or digit, and the slug of a signup is valid for every company name, given
  the text of a UUID (hexadecimal digits and hyphens).
\<close>

theorem derived_slugs_valid:
  assumes "6 \<le> length (filter (\<lambda>c. c \<noteq> CHR ''-'') idText)"
    and "list_all slug_char (to_lower (filter (\<lambda>c. c \<noteq> CHR ''-'') idText))"
  shows "(slugify name = '''' \<longleftrightarrow> (\<forall>c \<in> set (to_lower name). \<not> slug_char c))
    \<and> (slugify name \<noteq> '''' \<longrightarrow> ValidSlug (slugify name)) \<and> ValidSlug (signup_slug name idText)"
  using slugify_valid [of name] signup_slug_valid [OF assms] by (auto simp: list_all_iff)

theorem derived_slugs_valid_witness:
  "ValidSlug (signup_slug ''Acme & Co.'' ''019e3b2a-77'')"
proof -
  have "6 \<le> length (filter (\<lambda>c. c \<noteq> CHR ''-'') ''019e3b2a-77'')" by simp
  moreover have "list_all slug_char (to_lower (filter (\<lambda>c. c \<noteq> CHR ''-'') ''019e3b2a-77''))"
    by (simp add: to_lower_def slug_char_def less_eq_char_def)
  ultimately show ?thesis using derived_slugs_valid by blast
qed

section \<open>Random secrets\<close>

definition symbol_of :: "byte \<Rightarrow> char" where
  "symbol_of b = base62Alphabet ! (unat b mod 62)"

definition accepted_byte :: "byte \<Rightarrow> bool" where
  "accepted_byte b \<longleftrightarrow> unat b < 248"

lemma take_symbols_spec:
  "length out < n \<Longrightarrow> take_symbols n out bs = out @ map symbol_of (take (n - length out) (filter accepted_byte bs))"
proof (induction n out bs rule: take_symbols.induct)
  case (2 n out b bs)
  show ?case
  proof (cases "accepted_byte b")
    case True
    then have b: "\<not> 248 \<le> unat b" by (simp add: accepted_byte_def)
    have k: "n - length out = Suc (n - Suc (length out))" using 2(3) by simp
    show ?thesis
      using 2 b True k by (cases "Suc (length out) = n") (auto simp: symbol_of_def Let_def)
  next
    case False
    then show ?thesis using 2 by (simp add: accepted_byte_def)
  qed
qed simp

lemma random_loop_spec:
  assumes "\<forall>i < m. rd (k + i) \<noteq> None"
    and "n \<le> length out + length (filter accepted_byte (concat (map (\<lambda>i. the (rd (k + i))) [0..<m])))"
  shows "random_loop rd n k out = Some (Inr (out @ map symbol_of
     (take (n - length out) (filter accepted_byte (concat (map (\<lambda>i. the (rd (k + i))) [0..<m]))))))"
  using assms
proof (induction m arbitrary: k out)
  case 0
  then show ?case by (simp add: random_loop.simps)
next
  case (Suc m)
  show ?case
  proof (cases "length out < n")
    case False
    then show ?thesis by (simp add: random_loop.simps)
  next
    case True
    obtain buf where buf: "rd k = Some buf" using Suc.prems(1) by (metis add_0_right not_None_eq zero_less_Suc)
    define rest where "rest = concat (map (\<lambda>i. the (rd (Suc k + i))) [0..<m])"
    have split: "concat (map (\<lambda>i. the (rd (k + i))) [0..<Suc m]) = buf @ rest"
      using buf by (simp add: rest_def upt_conv_Cons map_Suc_upt [symmetric] comp_def del: upt_Suc)
    define a where "a = filter accepted_byte buf"
    have ts: "take_symbols n out buf = out @ map symbol_of (take (n - length out) a)"
      unfolding a_def by (rule take_symbols_spec [OF True])
    have "random_loop rd n (Suc k) (take_symbols n out buf) = Some (Inr (take_symbols n out buf @ map symbol_of
       (take (n - length (take_symbols n out buf)) (filter accepted_byte rest))))"
      unfolding rest_def
    proof (rule Suc.IH)
      show "\<forall>i < m. rd (Suc k + i) \<noteq> None" using Suc.prems(1) by (metis Suc_less_eq add_Suc_shift)
      show "n \<le> length (take_symbols n out buf) + length (filter accepted_byte (concat (map (\<lambda>i. the (rd (Suc k + i))) [0..<m])))"
        using Suc.prems(2) unfolding split unfolding rest_def [symmetric] by (simp add: ts a_def)
    qed
    then show ?thesis
      using True buf unfolding split
      by (subst random_loop.simps) (auto simp: ts a_def min_def)
  qed
qed

lemma alphabet_props: "length base62Alphabet = 62" "distinct base62Alphabet"
  by (simp_all add: base62Alphabet_def)

lemma symbol_count:
  assumes "c \<in> set base62Alphabet"
  shows "card {b :: byte. accepted_byte b \<and> symbol_of b = c} = 4"
proof -
  obtain j where j: "j < 62" "c = base62Alphabet ! j" using assms alphabet_props by (metis in_set_conv_nth)
  have eq: "accepted_byte b \<and> symbol_of b = c \<longleftrightarrow> unat b < 248 \<and> unat b mod 62 = j" for b
    using j(1) alphabet_props nth_eq_iff_index_eq [of base62Alphabet "unat b mod 62" j]
    by (simp add: accepted_byte_def symbol_of_def j(2))
  have val: "x < 248 \<and> x mod 62 = j \<longleftrightarrow> x = j \<or> x = j + 62 \<or> x = j + 124 \<or> x = j + 186" for x :: nat
  proof
    assume x: "x < 248 \<and> x mod 62 = j"
    then consider "x div 62 = 0" | "x div 62 = 1" | "x div 62 = 2" | "x div 62 = 3" by linarith
    then show "x = j \<or> x = j + 62 \<or> x = j + 124 \<or> x = j + 186"
      using x div_mult_mod_eq [of x 62] by cases simp_all
  next
    assume "x = j \<or> x = j + 62 \<or> x = j + 124 \<or> x = j + 186"
    then consider "x = j + 62 * 0" | "x = j + 62 * 1" | "x = j + 62 * 2" | "x = j + 62 * 3" by linarith
    then show "x < 248 \<and> x mod 62 = j"
      using j(1) by cases (simp_all only: mod_mult_self2, simp_all)
  qed
  have "{b :: byte. accepted_byte b \<and> symbol_of b = c} = word_of_nat ` {j, j + 62, j + 124, j + 186}"
  proof (intro equalityI subsetI)
    fix b :: byte
    assume "b \<in> {b. accepted_byte b \<and> symbol_of b = c}"
    then have "unat b \<in> {j, j + 62, j + 124, j + 186}" unfolding mem_Collect_eq eq val by simp
    then have "word_of_nat (unat b) \<in> (word_of_nat :: nat \<Rightarrow> byte) ` {j, j + 62, j + 124, j + 186}" by (rule imageI)
    then show "b \<in> word_of_nat ` {j, j + 62, j + 124, j + 186}" by simp
  next
    fix b :: byte
    assume "b \<in> word_of_nat ` {j, j + 62, j + 124, j + 186}"
    then obtain x where x: "x \<in> {j, j + 62, j + 124, j + 186}" "b = word_of_nat x" by (rule imageE) blast
    from x(1) have "x < 248 \<and> x mod 62 = j" unfolding val by simp
    moreover then have "unat b = x" by (simp add: x(2) unat_of_nat)
    ultimately show "b \<in> {b. accepted_byte b \<and> symbol_of b = c}" unfolding mem_Collect_eq eq by simp
  qed
  moreover have "inj_on (word_of_nat :: nat \<Rightarrow> byte) {j, j + 62, j + 124, j + 186}"
  proof (rule inj_onI)
    fix x y
    assume "x \<in> {j, j + 62, j + 124, j + 186}" "y \<in> {j, j + 62, j + 124, j + 186}" "(word_of_nat x :: byte) = word_of_nat y"
    moreover from this(1,2) have "x < 256" "y < 256" using j(1) by auto
    moreover from this have "unat (word_of_nat x :: byte) = x" "unat (word_of_nat y :: byte) = y" by (simp_all add: unat_of_nat)
    ultimately show "x = y" by metis
  qed
  moreover have "card {j, j + 62, j + 124, j + 186} = 4" by simp
  ultimately show ?thesis by (simp only: card_image)
qed

text \<open>
  The sampling of secrets ends and is unbiased: as soon as the buffers read so far hold enough bytes
  below 248, \<open>randomBase62\<close> returns, with the symbols of the first of those bytes in order; and every symbol
  of the alphabet stands for exactly four of them.
\<close>

theorem randomBase62_returns:
  assumes "\<forall>i < m. rd i \<noteq> None"
    and "n \<le> length (filter accepted_byte (concat (map (\<lambda>i. the (rd i)) [0..<m])))"
  shows "randomBase62 rd n = Some (Inr (map symbol_of (take n (filter accepted_byte (concat (map (\<lambda>i. the (rd i)) [0..<m]))))))
    \<and> (\<forall>c \<in> set base62Alphabet. card {b. accepted_byte b \<and> symbol_of b = c} = 4)"
  using random_loop_spec [where k = 0 and out = "''''" and rd = rd and m = m and n = n] assms symbol_count
  by (simp add: randomBase62_def)

theorem randomBase62_returns_witness:
  "randomBase62 (\<lambda>i. Some [250, word_of_nat i, 255]) 2 = Some (Inr ''01'')"
proof -
  have "[0..<2] = [0, Suc 0]" by (simp add: upt_rec)
  then have "filter accepted_byte (concat (map (\<lambda>i. the (Some [250, word_of_nat i, 255])) [0..<2])) = [0, 1]"
    by (simp add: accepted_byte_def)
  then show ?thesis
    using randomBase62_returns [of 2 "\<lambda>i. Some [250, word_of_nat i, 255]" 2]
    by (simp add: symbol_of_def base62Alphabet_def)
qed

end
