(* ===== verification/Identity_States.thy ===== *)
theory Identity_States
  imports Identity_Text
begin

text \<open>
  The states the identity service reaches under every interleaving of its use cases, the transactions of
  its sweepers and its outbox poller: one announcement per expired tenant, well-formed keys, one signup
  per address.
\<close>

section \<open>The states the service reaches\<close>

definition key_ok :: "APIKey \<Rightarrow> bool" where
  "key_ok k \<longleftrightarrow> ValidEnvironment (ak_Environment k) \<and> length (ak_KeyPrefix k) = KeyPrefixLength \<and> take 3 (ak_KeyPrefix k) = ''lk_''
     \<and> list_all AllowedScopes (ak_Scopes k) \<and> distinct (ak_Scopes k)"

definition announced :: "string \<Rightarrow> bool" where
  "announced st \<longleftrightarrow> st = TenantStatusPurging \<or> st = TenantStatusPurged"

definition announces :: "TenantExpiredPayload OutboxRow \<Rightarrow> Tenant \<Rightarrow> bool" where
  "announces r t \<longleftrightarrow> or_tenant r = tn_ID t \<and> or_topic r = TopicTenantExpired
     \<and> (case or_envelope r of None \<Rightarrow> False
        | Some e \<Rightarrow> env_Type e = TopicTenantExpired \<and> env_TenantID e = tn_ID t
            \<and> Some (tep_ExpiresAt (env_Data e)) = tn_ExpiresAt t \<and> tep_TenantID (env_Data e) = tn_ID t \<and> tep_Slug (env_Data e) = tn_Slug t)"

definition identity_ok :: "IdentityDb \<Rightarrow> bool" where
  "identity_ok d \<longleftrightarrow> distinct (map tn_ID (id_tenants d)) \<and> distinct (map tn_Slug (id_tenants d))
     \<and> (\<forall>t \<in> set (id_tenants d). announced_not t \<or> announced (tn_Status t))
     \<and> (\<forall>t \<in> set (id_tenants d). count_list (map or_tenant (id_outbox d)) (tn_ID t) = (if announced (tn_Status t) then 1 else 0))
     \<and> (\<forall>r \<in> set (id_outbox d). \<exists>t \<in> set (id_tenants d). announces r t)
     \<and> (\<forall>k \<in> set (id_keys d). key_ok k \<and> ak_TenantID k \<in> tn_ID ` set (id_tenants d)) \<and> distinct (map ak_ID (id_keys d))
     \<and> distinct (map su_email (id_signups d)) \<and> (\<forall>s \<in> set (id_signups d). su_tenant s \<in> tn_ID ` set (id_tenants d))"

text \<open>
  The steps of the service: every use case, and the two transactions of the sweeper as separate steps. A
  sweep reads the expired tenants first and updates them one by one, so another instance may have moved a
  tenant on in between: the steps keep what cannot change, the expiry of the row, and drop the status the
  query saw.
\<close>

inductive identity_step :: "IdentityDb \<Rightarrow> IdentityDb \<Rightarrow> bool" where
  Step_CreateTenant: "identity_step d (snd (CreateTenant w name slug d))"
| Step_CreateAPIKey: "CreateAPIKey w tenantID environment name scopes d = Some (r, d') \<Longrightarrow> identity_step d d'"
| Step_RevokeAPIKey: "identity_step d (snd (RevokeAPIKey w i d))"
| Step_EnsureSigningKey: "identity_step d (snd (EnsureSigningKey cph nonces us fresh d))"
| Step_Signup: "Signup w limit email company d = Some (r, d') \<Longrightarrow> identity_step d d'"
| Step_Announce: "t \<in> set (id_tenants d) \<Longrightarrow> expired_before now t
    \<Longrightarrow> NewEnvelope ev wall TopicTenantExpired (tn_ID t) \<lparr>tep_TenantID = tn_ID t, tep_Slug = tn_Slug t, tep_ExpiresAt = the (tn_ExpiresAt t)\<rparr> = Inr env
    \<Longrightarrow> identity_step d (snd (MarkTenantPurging env d))"
| Step_Finalize: "t \<in> set (id_tenants d) \<Longrightarrow> expired_before (now - PurgeGrace) t
    \<Longrightarrow> identity_step d (snd (FinalizeTenantPurge (tn_ID t) d))"
| Step_Drain: "identity_step d (fst (drain_identity_outbox pub d))"

lemma identity_status_distinct [simp]:
  "announced TenantStatusActive = False" "announced TenantStatusPurging" "announced TenantStatusPurged"
  "TenantStatusPurging \<noteq> TenantStatusPurged" "TenantStatusActive \<noteq> TenantStatusPurging" "TenantStatusActive \<noteq> TenantStatusPurged"
  by (simp_all add: announced_def TenantStatusActive_def TenantStatusPurging_def TenantStatusPurged_def)

lemma announced_not_iff: "announced_not t \<Longrightarrow> \<not> announced (tn_Status t)"
  by (auto simp: announced_def announced_not_def TenantStatusActive_def TenantStatusSuspended_def TenantStatusPurging_def TenantStatusPurged_def)

lemma count_list_zero: "x \<notin> set xs \<Longrightarrow> count_list xs x = 0"
  by (induction xs) auto

lemma identity_ok_empty: "identity_ok empty_identity_db"
  by (simp add: identity_ok_def empty_identity_db_def)

lemma identity_ok_insert_tenant:
  assumes "identity_ok d" and "tenant_violation t d = None" and "tn_Status t = TenantStatusActive"
  shows "identity_ok (d\<lparr>id_tenants := id_tenants d @ [t]\<rparr>)"
proof -
  have t: "tn_ID t \<notin> tn_ID ` set (id_tenants d)" "tn_Slug t \<notin> tn_Slug ` set (id_tenants d)"
    using assms(2) by (auto simp: tenant_violation_def split: if_splits)
  have "tn_ID t \<notin> set (map or_tenant (id_outbox d))"
  proof
    assume "tn_ID t \<in> set (map or_tenant (id_outbox d))"
    then obtain r where "r \<in> set (id_outbox d)" "or_tenant r = tn_ID t" by auto
    moreover obtain t' where "t' \<in> set (id_tenants d)" "announces r t'" using assms(1) calculation(1) unfolding identity_ok_def by blast
    ultimately show False using t(1) by (auto simp: announces_def)
  qed
  then have "count_list (map or_tenant (id_outbox d)) (tn_ID t) = 0" by (rule count_list_zero)
  then show ?thesis
    using assms(1,3) t by (auto simp: identity_ok_def announced_not_def)
qed

lemma identity_ok_insert_key:
  assumes "identity_ok d" and "insert_api_key k d = Inr d'" and "key_ok k"
  shows "identity_ok d'" "id_tenants d' = id_tenants d" "id_signups d' = id_signups d"
  using assms by (auto simp: insert_api_key_def identity_ok_def key_ok_def split: if_splits)

lemma identity_ok_map_keys:
  assumes "identity_ok d" and "\<And>k. f k = k\<lparr>ak_RevokedAt := ak_RevokedAt (f k)\<rparr>"
  shows "identity_ok (d\<lparr>id_keys := map f (id_keys d)\<rparr>)"
proof -
  have "ak_ID (f k) = ak_ID k \<and> ak_TenantID (f k) = ak_TenantID k \<and> key_ok (f k) = key_ok k" for k
    by (subst (1 2 3) assms(2)) (simp add: key_ok_def)
  then show ?thesis using assms(1) by (simp add: identity_ok_def comp_def)
qed

lemma identity_ok_signing: "identity_ok (d\<lparr>id_signing := ks\<rparr>) = identity_ok d"
  by (simp add: identity_ok_def)

lemma set_status_map: "map tn_ID (map (\<lambda>t. if P t then t\<lparr>tn_Status := st\<rparr> else t) ts) = map tn_ID ts"
  "map tn_Slug (map (\<lambda>t. if P t then t\<lparr>tn_Status := st\<rparr> else t) ts) = map tn_Slug ts"
  by auto

lemma announces_status: "announces r (t\<lparr>tn_Status := st\<rparr>) = announces r t"
  by (auto simp: announces_def split: option.splits)

lemma identity_ok_update:
  assumes ok: "identity_ok d"
    and same: "\<And>x. tn_ID (f x) = tn_ID x" "\<And>x. tn_Slug (f x) = tn_Slug x" "\<And>r x. announces r (f x) = announces r x"
    and status: "\<And>x. x \<in> set (id_tenants d) \<Longrightarrow> announced_not (f x) \<or> announced (tn_Status (f x))"
    and rows: "\<And>r. r \<in> set rows \<Longrightarrow> \<exists>x \<in> set (id_tenants d). announces r x"
    and count: "\<And>x. x \<in> set (id_tenants d) \<Longrightarrow> count_list (map or_tenant rows) (tn_ID x) = (if announced (tn_Status (f x)) then 1 else 0)"
  shows "identity_ok (d\<lparr>id_tenants := map f (id_tenants d), id_outbox := rows, id_keys := filter Q (id_keys d)\<rparr>)"
proof -
  have maps: "map tn_ID (map f (id_tenants d)) = map tn_ID (id_tenants d)" "map tn_Slug (map f (id_tenants d)) = map tn_Slug (id_tenants d)"
    by (simp_all add: same)
  have ids: "tn_ID ` set (map f (id_tenants d)) = tn_ID ` set (id_tenants d)" by (metis maps(1) set_map)
  have keys: "distinct (map ak_ID (filter Q (id_keys d)))" using ok by (simp add: identity_ok_def distinct_map_filter)
  show ?thesis
    using ok status rows count keys unfolding identity_ok_def
    by (simp add: ids [simplified] same comp_def)
qed

lemma identity_ok_purging:
  assumes ok: "identity_ok d" and t: "t \<in> set (id_tenants d)" "tn_ExpiresAt t = Some e"
    and env: "env_Type env = TopicTenantExpired" "env_TenantID env = tn_ID t"
      "env_Data env = \<lparr>tep_TenantID = tn_ID t, tep_Slug = tn_Slug t, tep_ExpiresAt = e\<rparr>"
  shows "identity_ok (snd (MarkTenantPurging env d))"
proof -
  define hit where "hit = (\<lambda>x :: Tenant. tn_ID x = env_TenantID env \<and> announced_not x)"
  define row where "row = \<lparr>or_tenant = env_TenantID env, or_topic = env_Type env, or_envelope = Some env, or_published = False\<rparr>"
  define f where "f = (\<lambda>x. if hit x then x\<lparr>tn_Status := TenantStatusPurging\<rparr> else x)"
  have one: "x = t" if "x \<in> set (id_tenants d)" "tn_ID x = tn_ID t" for x
    using ok t(1) that by (auto simp: identity_ok_def distinct_map inj_on_def)
  show ?thesis
  proof (cases "list_ex hit (id_tenants d)")
    case False
    then show ?thesis using ok
      by (simp add: MarkTenantPurging_def IdWithSystemTx_def mark_purging_body_def hit_def [symmetric] Let_def)
  next
    case True
    then have an: "announced_not t" using one env(2) by (auto simp: hit_def list_ex_iff)
    have ids: "tn_ID (f x) = tn_ID x" "tn_Slug (f x) = tn_Slug x" "announces r (f x) = announces r x" for x r
      by (simp_all add: f_def announces_status)
    have d': "snd (MarkTenantPurging env d) = d\<lparr>id_tenants := map f (id_tenants d), id_outbox := id_outbox d @ [row]\<rparr>"
      using True by (simp add: MarkTenantPurging_def IdWithSystemTx_def mark_purging_body_def hit_def [symmetric] Let_def
          set_status_def f_def row_def)
    have rows: "\<exists>x \<in> set (id_tenants d). announces r x" if "r \<in> set (id_outbox d @ [row])" for r
    proof (cases "r = row")
      case True
      have "announces row t" using t(2) env by (simp add: announces_def row_def)
      then show ?thesis using t(1) True by blast
    next
      case False
      then show ?thesis using ok that unfolding identity_ok_def by auto
    qed
    have old: "count_list (map or_tenant (id_outbox d)) (tn_ID x) = (if announced (tn_Status x) then 1 else 0)"
      if "x \<in> set (id_tenants d)" for x
      using ok that by (simp add: identity_ok_def)
    have count: "count_list (map or_tenant (id_outbox d @ [row])) (tn_ID x) = (if announced (tn_Status (f x)) then 1 else 0)"
      if x: "x \<in> set (id_tenants d)" for x
    proof (cases "x = t")
      case True
      then show ?thesis using old [OF x] announced_not_iff [OF an] an by (simp add: f_def hit_def row_def env(2))
    next
      case False
      then have "tn_ID x \<noteq> tn_ID t" using one [OF x] by blast
      then show ?thesis using old [OF x] by (simp add: f_def hit_def row_def env(2))
    qed
    have status: "announced_not (f x) \<or> announced (tn_Status (f x))" if "x \<in> set (id_tenants d)" for x
      using ok that by (auto simp: identity_ok_def f_def)
    have "identity_ok (d\<lparr>id_tenants := map f (id_tenants d), id_outbox := id_outbox d @ [row], id_keys := filter (\<lambda>_. True) (id_keys d)\<rparr>)"
      by (rule identity_ok_update [OF ok ids status rows count])
    then show ?thesis unfolding d' by simp
  qed
qed

lemma identity_ok_finalize:
  assumes ok: "identity_ok d"
  shows "identity_ok (snd (FinalizeTenantPurge i d))"
proof -
  define hit where "hit = (\<lambda>x :: Tenant. tn_ID x = i \<and> tn_Status x = TenantStatusPurging)"
  define f where "f = (\<lambda>x. if hit x then x\<lparr>tn_Status := TenantStatusPurged\<rparr> else x)"
  show ?thesis
  proof (cases "list_ex hit (id_tenants d)")
    case False
    then show ?thesis using ok by (simp add: FinalizeTenantPurge_def IdWithSystemTx_def finalize_body_def hit_def [symmetric] Let_def)
  next
    case True
    have d': "snd (FinalizeTenantPurge i d) = d\<lparr>id_tenants := map f (id_tenants d), id_keys := filter (\<lambda>k. ak_TenantID k \<noteq> i) (id_keys d)\<rparr>"
      using True by (simp add: FinalizeTenantPurge_def IdWithSystemTx_def finalize_body_def hit_def [symmetric] Let_def set_status_def f_def)
    have ids: "tn_ID (f x) = tn_ID x" "tn_Slug (f x) = tn_Slug x" "announces r (f x) = announces r x"
      "announced (tn_Status (f x)) = announced (tn_Status x)" for x r
      by (simp_all add: f_def hit_def announces_status)
    have not: "announced_not x \<Longrightarrow> announced_not (f x)" for x
      by (auto simp: f_def hit_def announced_not_def TenantStatusPurging_def TenantStatusActive_def TenantStatusSuspended_def)
    have "identity_ok (d\<lparr>id_tenants := map f (id_tenants d), id_outbox := id_outbox d, id_keys := filter (\<lambda>k. ak_TenantID k \<noteq> i) (id_keys d)\<rparr>)"
      by (rule identity_ok_update [OF ok ids(1-3)]) (use ok ids(4) not in \<open>auto simp: identity_ok_def\<close>)
    then show ?thesis unfolding d' by simp
  qed
qed

lemma mark_published_tables:
  "map or_tenant (mark_published ids rows) = map or_tenant rows"
  "r \<in> set (mark_published ids rows) \<Longrightarrow> \<exists>r' \<in> set rows. or_tenant r = or_tenant r' \<and> or_topic r = or_topic r' \<and> or_envelope r = or_envelope r'"
proof -
  show "map or_tenant (mark_published ids rows) = map or_tenant rows"
    by (rule nth_equalityI) (auto simp: mark_published_def nth_enumerate_eq)
  show "\<exists>r' \<in> set rows. or_tenant r = or_tenant r' \<and> or_topic r = or_topic r' \<and> or_envelope r = or_envelope r'"
    if m: "r \<in> set (mark_published ids rows)"
  proof -
    obtain p where p: "p \<in> set (enumerate 0 rows)" "r = (case p of (i, r) \<Rightarrow> if i \<in> set ids then r\<lparr>or_published := True\<rparr> else r)"
      using m unfolding mark_published_def set_map by (rule imageE)
    moreover have "snd p \<in> snd ` set (enumerate 0 rows)" using p(1) by (rule imageI)
    then have "snd p \<in> set rows" by (metis map_snd_enumerate set_map)
    ultimately show ?thesis by (intro bexI [where x = "snd p"]) (simp_all split: prod.splits)
  qed
qed

lemma identity_ok_drain:
  assumes ok: "identity_ok d"
  shows "identity_ok (fst (drain_identity_outbox pub d))"
proof -
  obtain ids where d': "fst (drain_identity_outbox pub d) = d\<lparr>id_outbox := mark_published ids (id_outbox d)\<rparr>"
    by (cases "publish_loop pub 0 (take batchSize (pending_rows (id_outbox d)))") (auto simp: drain_identity_outbox_def drainOnce_def)
  have "\<exists>t \<in> set (id_tenants d). announces r t" if m: "r \<in> set (mark_published ids (id_outbox d))" for r
  proof -
    obtain r' where r': "r' \<in> set (id_outbox d)" "or_tenant r = or_tenant r'" "or_topic r = or_topic r'" "or_envelope r = or_envelope r'"
      using mark_published_tables(2) [OF m] by blast
    then obtain t where "t \<in> set (id_tenants d)" "announces r' t" using ok unfolding identity_ok_def by blast
    moreover have "announces r t = announces r' t" by (simp add: announces_def r')
    ultimately show ?thesis by blast
  qed
  then show ?thesis using ok unfolding d' identity_ok_def by (simp add: mark_published_tables(1))
qed

lemma random_loop_length:
  assumes "random_loop rd n k out = Some (Inr s)"
  shows "n \<le> length s"
proof -
  have "\<forall>s. r = Inr s \<longrightarrow> n \<le> length s" if m: "random_loop rd n k out = Some r" for r
  proof (rule random_loop.raw_induct [where P = "\<lambda>rd n k out r. \<forall>s. r = Inr s \<longrightarrow> n \<le> length s", OF _ m])
    fix loop rd n k out r
    assume "\<And>rd n k out r. loop rd n k out = Some r \<Longrightarrow> \<forall>s. r = Inr s \<longrightarrow> n \<le> length s"
      and "(if length out < n
         then case rd k of None \<Rightarrow> Some (Inl ErrRandom) | Some buf \<Rightarrow> loop rd n (Suc k) (take_symbols n out buf)
         else Some (Inr out)) = Some r"
    then show "\<forall>s. r = Inr s \<longrightarrow> n \<le> length s" by (auto split: if_splits option.splits)
  qed
  then show ?thesis using assms by blast
qed

lemma NewAPIKeySecret_shape:
  assumes "NewAPIKeySecret rd environment = Some (Inr secret)"
  shows "ValidEnvironment environment" "40 \<le> length secret" "take 3 secret = ''lk_''" "PrefixOf secret = take 12 secret"
proof -
  obtain random where r: "ValidEnvironment environment" "random_loop rd SecretRandomLength 0 '''' = Some (Inr random)"
    "secret = ''lk_'' @ environment @ ''_'' @ random"
    using assms by (auto simp: NewAPIKeySecret_def randomBase62_def bindE_Inr_iff split: if_splits)
  have "32 \<le> length random" using random_loop_length [OF r(2)] by (simp add: SecretRandomLength_def)
  moreover have "4 \<le> length environment" using r(1) by (auto simp: ValidEnvironment_def EnvironmentSandbox_def EnvironmentLive_def)
  ultimately show "ValidEnvironment environment" "40 \<le> length secret" "take 3 secret = ''lk_''" "PrefixOf secret = take 12 secret"
    using r(1) by (simp_all add: r(3) PrefixOf_def KeyPrefixLength_def)
qed

lemma scope_loop_ok:
  "scope_loop out ss = Inr granted \<Longrightarrow> list_all AllowedScopes out \<Longrightarrow> distinct out
     \<Longrightarrow> list_all AllowedScopes granted \<and> distinct granted \<and> set granted = set out \<union> TrimSpace ` set ss"
  by (induction out ss rule: scope_loop.induct) (auto simp: Let_def split: if_splits)

lemma DefaultScopes_ok: "list_all AllowedScopes DefaultScopes" "distinct DefaultScopes" "DefaultScopes \<noteq> []"
  by (simp_all add: DefaultScopes_def AllowedScopes_def ScopeLedgerRead_def ScopeLedgerWrite_def ScopeReconRead_def
      ScopeReconWrite_def ScopeWebhooksRead_def ScopeWebhooksWrite_def)

lemma normalizeScopes_ok:
  assumes "normalizeScopes ss = Inr granted"
  shows "list_all AllowedScopes granted" "distinct granted" "granted \<noteq> []"
    "ss \<noteq> [] \<Longrightarrow> set granted = TrimSpace ` set ss"
proof -
  have "list_all AllowedScopes granted \<and> distinct granted \<and> granted \<noteq> [] \<and> (ss \<noteq> [] \<longrightarrow> set granted = TrimSpace ` set ss)"
    using assms DefaultScopes_ok scope_loop_ok [of "[]" ss granted] by (auto simp: normalizeScopes_def split: if_splits)
  then show "list_all AllowedScopes granted" "distinct granted" "granted \<noteq> []" "ss \<noteq> [] \<Longrightarrow> set granted = TrimSpace ` set ss" by auto
qed

lemma wildcard_not_allowed: "\<not> AllowedScopes ScopeWildcard"
  by (simp add: AllowedScopes_def ScopeWildcard_def ScopeLedgerRead_def ScopeLedgerWrite_def ScopeReconRead_def
      ScopeReconWrite_def ScopeWebhooksRead_def ScopeWebhooksWrite_def)

lemma new_api_key_ok:
  assumes "NewAPIKeySecret rd environment = Some (Inr secret)" and "list_all AllowedScopes scopes" and "distinct scopes"
  shows "key_ok (new_api_key w i tn environment name secret scopes)"
proof -
  note s = NewAPIKeySecret_shape [OF assms(1)]
  have "take 3 (take 12 secret) = ''lk_''" using s(3) by simp
  then show ?thesis using s assms(2,3) by (simp add: key_ok_def new_api_key_def KeyPrefixLength_def)
qed

lemma CreateTenant_cases:
  obtains (kept) "snd (CreateTenant w name slug d) = d"
  | (added) t where "CreateTenant w name slug d = (Inr t, d\<lparr>id_tenants := id_tenants d @ [t]\<rparr>)" "tenant_violation t d = None"
      "tn_Status t = TenantStatusActive" "ValidSlug (tn_Slug t)" "tn_ExpiresAt t = None"
proof -
  have "snd (CreateTenant w name slug d) = d \<or> (\<exists>t. CreateTenant w name slug d = (Inr t, d\<lparr>id_tenants := id_tenants d @ [t]\<rparr>)
      \<and> tenant_violation t d = None \<and> tn_Status t = TenantStatusActive \<and> ValidSlug (tn_Slug t) \<and> tn_ExpiresAt t = None)"
    by (auto simp: CreateTenant_def Let_def store_CreateTenant_def split: option.splits tenant_constraint.splits)
  then show ?thesis using kept added by blast
qed

lemma CreateAPIKey_cases:
  assumes "CreateAPIKey w tenantID environment name scopes d = Some (r, d')"
  obtains (kept) e where "r = Inl e" "d' = d"
  | (added) secret granted i n where "r = Inr (new_api_key w i tenantID environment n secret granted, secret)"
      "NewAPIKeySecret (iw_rand w) environment = Some (Inr secret)" "normalizeScopes scopes = Inr granted"
      "store_GetTenant tenantID d \<noteq> Inl IdErrNotFound"
      "insert_api_key (new_api_key w i tenantID environment n secret granted) d = Inr d'"
proof -
  have "(\<exists>e. r = Inl e \<and> d' = d) \<or> (\<exists>secret granted i n. r = Inr (new_api_key w i tenantID environment n secret granted, secret)
      \<and> NewAPIKeySecret (iw_rand w) environment = Some (Inr secret) \<and> normalizeScopes scopes = Inr granted
      \<and> store_GetTenant tenantID d \<noteq> Inl IdErrNotFound
      \<and> insert_api_key (new_api_key w i tenantID environment n secret granted) d = Inr d')"
    using assms
    by (auto simp: CreateAPIKey_def api_key_request_def Let_def bindE_def store_CreateAPIKey_def split: sum.splits option.splits prod.splits if_splits)
  then show ?thesis using kept added by blast
qed

lemma Signup_cases:
  assumes "Signup w limit email company d = Some (r, d')"
  obtains (kept) e where "r = Inl e" "d' = d"
  | (added) i j secret em co where "iw_newID w 0 = Some i" "iw_newID w 1 = Some j" "signup_request w email company = Inr (em, co)"
      "NewAPIKeySecret (iw_rand w) EnvironmentSandbox = Some (Inr secret)"
      "r = Inr \<lparr>ss_Tenant = sandbox_tenant w i co, ss_Key = new_api_key w j i EnvironmentSandbox ''sandbox signup key'' secret DefaultScopes, ss_Secret = secret\<rparr>"
      "provision_body (iw_dbnow w) em (sandbox_tenant w i co) (new_api_key w j i EnvironmentSandbox ''sandbox signup key'' secret DefaultScopes) limit d = Inr ((), d')"
proof -
  have "(\<exists>e. r = Inl e \<and> d' = d) \<or> (\<exists>i j secret em co. iw_newID w 0 = Some i \<and> iw_newID w 1 = Some j \<and> signup_request w email company = Inr (em, co)
      \<and> NewAPIKeySecret (iw_rand w) EnvironmentSandbox = Some (Inr secret)
      \<and> r = Inr \<lparr>ss_Tenant = sandbox_tenant w i co, ss_Key = new_api_key w j i EnvironmentSandbox ''sandbox signup key'' secret DefaultScopes, ss_Secret = secret\<rparr>
      \<and> provision_body (iw_dbnow w) em (sandbox_tenant w i co) (new_api_key w j i EnvironmentSandbox ''sandbox signup key'' secret DefaultScopes) limit d = Inr ((), d'))"
    using assms by (auto simp: Signup_def Let_def ProvisionSandboxTenant_def IdWithSystemTx_def split: sum.splits option.splits prod.splits)
  then show ?thesis using kept added by blast
qed

lemma provision_Inr:
  assumes "provision_body dbnow email t k limit d = Inr (u, d')"
  obtains "int (length (filter (\<lambda>s. su_created_at s \<ge> day_start dbnow) (id_signups d))) < limit" "tenant_violation t d = None"
    "email \<notin> su_email ` set (id_signups d)"
    "d' = d\<lparr>id_tenants := id_tenants d @ [t], id_keys := id_keys d @ [k\<lparr>ak_Scopes := [], ak_RevokedAt := None\<rparr>],
      id_signups := id_signups d @ [\<lparr>su_email = email, su_tenant = tn_ID t, su_created_at = tn_CreatedAt t\<rparr>]\<rparr>"
    "insert_api_key (k\<lparr>ak_Scopes := []\<rparr>) (d\<lparr>id_tenants := id_tenants d @ [t]\<rparr>)
       = Inr (d\<lparr>id_tenants := id_tenants d @ [t], id_keys := id_keys d @ [k\<lparr>ak_Scopes := [], ak_RevokedAt := None\<rparr>]\<rparr>)"
  using assms by (auto simp: provision_body_def Let_def bindE_Inr_iff insert_api_key_def split: if_splits option.splits tenant_constraint.splits)

lemma identity_ok_provision:
  assumes ok: "identity_ok d" and p: "provision_body dbnow email t k limit d = Inr (u, d')"
    and "tn_Status t = TenantStatusActive" and "key_ok k" and "tn_ID t = ak_TenantID k"
  shows "identity_ok d'"
proof -
  from p show ?thesis
  proof (rule provision_Inr)
    assume h: "tenant_violation t d = None" "email \<notin> su_email ` set (id_signups d)"
      and d': "d' = d\<lparr>id_tenants := id_tenants d @ [t], id_keys := id_keys d @ [k\<lparr>ak_Scopes := [], ak_RevokedAt := None\<rparr>],
        id_signups := id_signups d @ [\<lparr>su_email = email, su_tenant = tn_ID t, su_created_at = tn_CreatedAt t\<rparr>]\<rparr>"
      and ins: "insert_api_key (k\<lparr>ak_Scopes := []\<rparr>) (d\<lparr>id_tenants := id_tenants d @ [t]\<rparr>)
         = Inr (d\<lparr>id_tenants := id_tenants d @ [t], id_keys := id_keys d @ [k\<lparr>ak_Scopes := [], ak_RevokedAt := None\<rparr>]\<rparr>)"
    have "key_ok (k\<lparr>ak_Scopes := []\<rparr>)" using assms(4) by (simp add: key_ok_def)
    from identity_ok_insert_key(1) [OF identity_ok_insert_tenant [OF ok h(1) assms(3)] ins this]
    show "identity_ok d'" using h(2) unfolding d' identity_ok_def by auto
  qed
qed

lemma identity_ok_core: "d\<lparr>id_signing := []\<rparr> = x\<lparr>id_signing := []\<rparr> \<Longrightarrow> identity_ok d = identity_ok x"
  by (metis identity_ok_signing)

lemma signing_core:
  "UpdateSigningKeyPrivatePEM kid pem x = (r, x') \<Longrightarrow> x'\<lparr>id_signing := []\<rparr> = x\<lparr>id_signing := []\<rparr>"
  "InsertSigningKey k x = (r, x') \<Longrightarrow> x'\<lparr>id_signing := []\<rparr> = x\<lparr>id_signing := []\<rparr>"
  "seal_keys cph nonces us n ks x = (r, x') \<Longrightarrow> x'\<lparr>id_signing := []\<rparr> = x\<lparr>id_signing := []\<rparr>"
proof -
  show u: "UpdateSigningKeyPrivatePEM kid pem x = (r, x') \<Longrightarrow> x'\<lparr>id_signing := []\<rparr> = x\<lparr>id_signing := []\<rparr>" for kid pem x x' and r :: "identity_error + unit"
    by (auto simp: UpdateSigningKeyPrivatePEM_def split: if_splits)
  show "InsertSigningKey k x = (r, x') \<Longrightarrow> x'\<lparr>id_signing := []\<rparr> = x\<lparr>id_signing := []\<rparr>"
    by (auto simp: InsertSigningKey_def split: if_splits)
  show "seal_keys cph nonces us n ks x = (r, x') \<Longrightarrow> x'\<lparr>id_signing := []\<rparr> = x\<lparr>id_signing := []\<rparr>"
  proof (induction cph nonces us n ks x rule: seal_keys.induct)
    case (2 cph nonces us n k ks d)
    then show ?case by (auto split: if_splits sum.splits prod.splits dest!: u)
  qed simp
qed

lemma identity_ok_signing_step:
  assumes "identity_ok d"
  shows "identity_ok (snd (EnsureSigningKey cph nonces us fresh d))"
proof -
  obtain r d' where e: "EnsureSigningKey cph nonces us fresh d = (r, d')" by fastforce
  then have "d'\<lparr>id_signing := []\<rparr> = d\<lparr>id_signing := []\<rparr>"
    by (auto simp: EnsureSigningKey_def simp del: seal_keys.simps dest: signing_core split: list.splits sum.splits prod.splits if_splits)
  from identity_ok_core [OF this] assms e show ?thesis by simp
qed

lemma identity_step_ok: "identity_ok d \<Longrightarrow> identity_step d d' \<Longrightarrow> identity_ok d'"
proof (erule identity_step.cases, goal_cases)
  case (1 d w name slug)
  then show ?case by (cases rule: CreateTenant_cases [of w name slug d]) (auto intro: identity_ok_insert_tenant)
next
  case (2 w tn environment name scopes d r d')
  from 2(4) show ?case
  proof (cases rule: CreateAPIKey_cases)
    case (added secret granted i n)
    note ns = normalizeScopes_ok [OF added(3)]
    show ?thesis using 2 identity_ok_insert_key(1) [OF _ added(5) new_api_key_ok [OF added(2) ns(1,2)]] by simp
  qed (use 2 in simp)
next
  case (3 d w i)
  then show ?case
    by (auto simp: RevokeAPIKey_def store_RevokeAPIKey_def Let_def intro!: identity_ok_map_keys)
next
  case 4
  then show ?case using identity_ok_signing_step by simp
next
  case (5 w limit email company d r d')
  from 5(4) show ?case
  proof (cases rule: Signup_cases)
    case (added i j secret em co)
    have "key_ok (new_api_key w j i EnvironmentSandbox ''sandbox signup key'' secret DefaultScopes)"
      by (rule new_api_key_ok [OF added(4) DefaultScopes_ok(1,2)])
    then show ?thesis
      using 5 identity_ok_provision [OF _ added(6)] by (simp add: sandbox_tenant_def new_api_key_def)
  qed (use 5 in simp)
next
  case (6 t d now ev wall env)
  then obtain e where "tn_ExpiresAt t = Some e" by (auto simp: expired_before_def split: option.splits)
  then show ?case using 6 identity_ok_purging [of d t e env] by (auto simp: NewEnvelope_def split: option.splits)
next
  case 7
  then show ?case using identity_ok_finalize by simp
next
  case 8
  then show ?case using identity_ok_drain by simp
qed

end
