(* ===== verification/Identity_Sweep.thy ===== *)
theory Identity_Sweep
  imports Identity_States
begin

text \<open>A pass of the sandbox sweeper, from its two queries to the rows it leaves.\<close>

section \<open>Sweeps\<close>

definition swept_status :: "timestamp \<Rightarrow> Tenant \<Rightarrow> string" where
  "swept_status now t =
     (let s = (if expired_before now t \<and> announced_not t then TenantStatusPurging else tn_Status t)
      in if s = TenantStatusPurging \<and> expired_before (now - PurgeGrace) t then TenantStatusPurged else s)"

lemma MarkTenantPurging_hit:
  assumes "t \<in> set (id_tenants d)" "tn_ID t = env_TenantID env" "announced_not t"
  shows "MarkTenantPurging env d = (Inr (), d\<lparr>id_tenants := map (\<lambda>x. if tn_ID x = env_TenantID env \<and> announced_not x then x\<lparr>tn_Status := TenantStatusPurging\<rparr> else x) (id_tenants d),
     id_outbox := id_outbox d @ [\<lparr>or_tenant = env_TenantID env, or_topic = env_Type env, or_envelope = Some env, or_published = False\<rparr>]\<rparr>)"
proof -
  have "list_ex (\<lambda>x. tn_ID x = env_TenantID env \<and> announced_not x) (id_tenants d)" using assms by (auto simp: list_ex_iff)
  then show ?thesis by (simp add: MarkTenantPurging_def IdWithSystemTx_def mark_purging_body_def Let_def set_status_def)
qed

lemma purging_not_announced: "\<not> announced_not (x\<lparr>tn_Status := TenantStatusPurging\<rparr>)"
  by (simp add: announced_not_def TenantStatusPurging_def TenantStatusActive_def TenantStatusSuspended_def)

lemma announce_loop_spec:
  assumes "distinct (map tn_ID ts)"
    and "\<forall>t \<in> set ts. \<exists>x \<in> set (id_tenants d). tn_ID x = tn_ID t \<and> announced_not x"
    and "\<forall>i < length ts. eventID (k + i) \<noteq> None"
  shows "\<exists>rows. announce_loop eventID wall k ts d = (Inr (), d\<lparr>id_tenants := map (\<lambda>x. if tn_ID x \<in> tn_ID ` set ts \<and> announced_not x
        then x\<lparr>tn_Status := TenantStatusPurging\<rparr> else x) (id_tenants d), id_outbox := id_outbox d @ rows\<rparr>)
     \<and> map or_tenant rows = map tn_ID ts"
  using assms
proof (induction ts arbitrary: k d)
  case Nil
  then show ?case by (auto intro!: exI [of _ "[]"] simp: map_idI)
next
  case (Cons t ts)
  obtain ev where ev: "eventID k = Some ev" using Cons.prems(3) by (metis add_0_right length_greater_0_conv list.distinct(1) not_None_eq)
  define env where "env = \<lparr>env_ID = ev, env_Type = TopicTenantExpired, env_TenantID = tn_ID t, env_OccurredAt = wall, env_Version = EnvelopeVersion,
      env_Data = \<lparr>tep_TenantID = tn_ID t, tep_Slug = tn_Slug t, tep_ExpiresAt = the (tn_ExpiresAt t)\<rparr>\<rparr>"
  define f where "f = (\<lambda>x. if tn_ID x = tn_ID t \<and> announced_not x then x\<lparr>tn_Status := TenantStatusPurging\<rparr> else x)"
  define row where "row = \<lparr>or_tenant = tn_ID t, or_topic = TopicTenantExpired, or_envelope = Some env, or_published = False\<rparr>"
  define d1 where "d1 = d\<lparr>id_tenants := map f (id_tenants d), id_outbox := id_outbox d @ [row]\<rparr>"
  obtain x where "x \<in> set (id_tenants d)" "tn_ID x = tn_ID t" "announced_not x" using Cons.prems(2) by auto
  then have mark: "MarkTenantPurging env d = (Inr (), d1)"
    using MarkTenantPurging_hit [of x d env] by (simp add: env_def d1_def f_def row_def)
  have keep: "f x = x" if "tn_ID x \<noteq> tn_ID t" for x using that by (simp add: f_def)
  have fid: "tn_ID (f x) = tn_ID x" for x by (simp add: f_def)
  have rest: "\<forall>u \<in> set ts. \<exists>x \<in> set (id_tenants d1). tn_ID x = tn_ID u \<and> announced_not x"
  proof
    fix u
    assume u: "u \<in> set ts"
    then have "tn_ID u \<noteq> tn_ID t" using Cons.prems(1) by (metis distinct.simps(2) image_eqI list.map(2) set_map)
    moreover obtain x where "x \<in> set (id_tenants d)" "tn_ID x = tn_ID u" "announced_not x" using Cons.prems(2) u by auto
    ultimately show "\<exists>x \<in> set (id_tenants d1). tn_ID x = tn_ID u \<and> announced_not x"
      using keep [of x] by (intro bexI [of _ x]) (auto simp: d1_def intro: rev_image_eqI)
  qed
  have "\<forall>i < length ts. eventID (Suc k + i) \<noteq> None" using Cons.prems(3) by (metis Suc_less_eq add_Suc_shift length_Cons)
  from Cons.IH [OF _ rest this] Cons.prems(1) obtain rows where rows:
    "announce_loop eventID wall (Suc k) ts d1 = (Inr (), d1\<lparr>id_tenants := map (\<lambda>x. if tn_ID x \<in> tn_ID ` set ts \<and> announced_not x
        then x\<lparr>tn_Status := TenantStatusPurging\<rparr> else x) (id_tenants d1), id_outbox := id_outbox d1 @ rows\<rparr>)"
    "map or_tenant rows = map tn_ID ts" by auto
  have "(if tn_ID (f x) \<in> tn_ID ` set ts \<and> announced_not (f x) then (f x)\<lparr>tn_Status := TenantStatusPurging\<rparr> else f x)
      = (if tn_ID x \<in> tn_ID ` set (t # ts) \<and> announced_not x then x\<lparr>tn_Status := TenantStatusPurging\<rparr> else x)" for x
    using purging_not_announced by (auto simp: f_def)
  then have "announce_loop eventID wall (Suc k) ts d1 = (Inr (), d\<lparr>id_tenants := map (\<lambda>x. if tn_ID x \<in> tn_ID ` set (t # ts) \<and> announced_not x
        then x\<lparr>tn_Status := TenantStatusPurging\<rparr> else x) (id_tenants d), id_outbox := id_outbox d @ (row # rows)\<rparr>)"
    unfolding rows(1) by (simp add: d1_def comp_def)
  moreover have "announce_loop eventID wall k (t # ts) d = announce_loop eventID wall (Suc k) ts d1"
    using mark by (simp add: NewEnvelope_def ev env_def)
  moreover have "map or_tenant (row # rows) = map tn_ID (t # ts)" using rows(2) by (simp add: row_def)
  ultimately show ?case by (intro exI [of _ "row # rows"] conjI) (simp_all only:)
qed

lemma FinalizeTenantPurge_effect:
  "FinalizeTenantPurge i d = (fst (FinalizeTenantPurge i d), d\<lparr>id_tenants := map (\<lambda>x. if tn_ID x = i \<and> tn_Status x = TenantStatusPurging then x\<lparr>tn_Status := TenantStatusPurged\<rparr> else x) (id_tenants d),
     id_keys := filter (\<lambda>k. \<not> (ak_TenantID k = i \<and> (\<exists>x \<in> set (id_tenants d). tn_ID x = i \<and> tn_Status x = TenantStatusPurging))) (id_keys d)\<rparr>)
   \<and> (\<exists>n. fst (FinalizeTenantPurge i d) = Inr n)"
proof (cases "list_ex (\<lambda>x. tn_ID x = i \<and> tn_Status x = TenantStatusPurging) (id_tenants d)")
  case True
  then show ?thesis
    by (auto simp: FinalizeTenantPurge_def IdWithSystemTx_def finalize_body_def Let_def set_status_def list_ex_iff intro!: filter_cong)
next
  case False
  then have "map (\<lambda>x. if tn_ID x = i \<and> tn_Status x = TenantStatusPurging then x\<lparr>tn_Status := TenantStatusPurged\<rparr> else x) (id_tenants d) = id_tenants d"
    by (auto simp: list_ex_iff intro!: map_idI)
  then show ?thesis using False
    by (auto simp: FinalizeTenantPurge_def IdWithSystemTx_def finalize_body_def Let_def list_ex_iff)
qed

lemma finalize_loop_spec:
  "finalize_loop is d = (Inr (), d\<lparr>id_tenants := map (\<lambda>x. if tn_ID x \<in> set is \<and> tn_Status x = TenantStatusPurging then x\<lparr>tn_Status := TenantStatusPurged\<rparr> else x) (id_tenants d),
     id_keys := filter (\<lambda>k. \<not> (ak_TenantID k \<in> set is \<and> (\<exists>x \<in> set (id_tenants d). tn_ID x = ak_TenantID k \<and> tn_Status x = TenantStatusPurging))) (id_keys d)\<rparr>)"
proof (induction "is" arbitrary: d)
  case Nil
  then show ?case by (simp add: map_idI)
next
  case (Cons i "is")
  define f where "f = (\<lambda>x :: Tenant. if tn_ID x = i \<and> tn_Status x = TenantStatusPurging then x\<lparr>tn_Status := TenantStatusPurged\<rparr> else x)"
  define d1 where "d1 = d\<lparr>id_tenants := map f (id_tenants d),
     id_keys := filter (\<lambda>k. \<not> (ak_TenantID k = i \<and> (\<exists>x \<in> set (id_tenants d). tn_ID x = i \<and> tn_Status x = TenantStatusPurging))) (id_keys d)\<rparr>"
  obtain n where fin: "FinalizeTenantPurge i d = (Inr n, d1)"
    using FinalizeTenantPurge_effect [of i d] unfolding d1_def f_def by (metis (no_types, lifting))
  have t: "map (\<lambda>x. if tn_ID x \<in> set is \<and> tn_Status x = TenantStatusPurging then x\<lparr>tn_Status := TenantStatusPurged\<rparr> else x) (map f (id_tenants d))
      = map (\<lambda>x. if tn_ID x \<in> set (i # is) \<and> tn_Status x = TenantStatusPurging then x\<lparr>tn_Status := TenantStatusPurged\<rparr> else x) (id_tenants d)"
    by (auto simp: f_def)
  have purging: "(\<exists>x \<in> set (map f (id_tenants d)). tn_ID x = j \<and> tn_Status x = TenantStatusPurging)
      \<longleftrightarrow> j \<noteq> i \<and> (\<exists>x \<in> set (id_tenants d). tn_ID x = j \<and> tn_Status x = TenantStatusPurging)" for j
    using identity_status_distinct(4) [symmetric] by (auto simp: f_def)
  have k: "filter (\<lambda>k. \<not> (ak_TenantID k \<in> set is \<and> (\<exists>x \<in> set (id_tenants d1). tn_ID x = ak_TenantID k \<and> tn_Status x = TenantStatusPurging))) (id_keys d1)
      = filter (\<lambda>k. \<not> (ak_TenantID k \<in> set (i # is) \<and> (\<exists>x \<in> set (id_tenants d). tn_ID x = ak_TenantID k \<and> tn_Status x = TenantStatusPurging))) (id_keys d)"
    unfolding d1_def by (simp add: purging [simplified]) (rule filter_cong, auto)
  show ?case using fin Cons.IH [of d1] t k by (simp add: d1_def)
qed

lemma sweep_result:
  assumes ok: "identity_ok d" and ids: "\<And>k. iw_newID w k \<noteq> None"
  shows "\<exists>rows. Sweep w wall d = (Inr (), d\<lparr>id_tenants := map (\<lambda>t. t\<lparr>tn_Status := swept_status (iw_now w) t\<rparr>) (id_tenants d),
       id_keys := filter (\<lambda>k. \<not> (\<exists>t \<in> set (id_tenants d). tn_ID t = ak_TenantID k \<and> swept_status (iw_now w) t = TenantStatusPurged
          \<and> tn_Status t \<noteq> TenantStatusPurged)) (id_keys d), id_outbox := id_outbox d @ rows\<rparr>)
     \<and> map or_tenant rows = map tn_ID (ExpiredSandboxTenants (iw_now w) d)"
proof -
  let ?now = "iw_now w"
  define exp where "exp = ExpiredSandboxTenants ?now d"
  have set_exp: "set exp = {t \<in> set (id_tenants d). expired_before ?now t \<and> announced_not t}"
    by (auto simp: exp_def ExpiredSandboxTenants_def)
  have dist: "distinct (map tn_ID (id_tenants d))" using ok by (simp add: identity_ok_def)
  have one: "x = y" if "x \<in> set (id_tenants d)" "y \<in> set (id_tenants d)" "tn_ID x = tn_ID y" for x y
    using dist that by (auto simp: distinct_map inj_on_def)
  have "distinct (map tn_ID exp)"
    using dist by (auto simp: exp_def ExpiredSandboxTenants_def distinct_map distinct_filter inj_on_def)
  moreover have "\<forall>t \<in> set exp. \<exists>x \<in> set (id_tenants d). tn_ID x = tn_ID t \<and> announced_not x" using set_exp by auto
  ultimately obtain rows where ann: "announce_loop (iw_newID w) wall 0 exp d = (Inr (), d\<lparr>id_tenants := map (\<lambda>x. if tn_ID x \<in> tn_ID ` set exp \<and> announced_not x
        then x\<lparr>tn_Status := TenantStatusPurging\<rparr> else x) (id_tenants d), id_outbox := id_outbox d @ rows\<rparr>)"
    and rows: "map or_tenant rows = map tn_ID exp"
    using announce_loop_spec [of exp d "iw_newID w" 0 wall] ids by auto
  define g where "g = (\<lambda>x. if expired_before ?now x \<and> announced_not x then x\<lparr>tn_Status := TenantStatusPurging\<rparr> else x)"
  have g: "map (\<lambda>x. if tn_ID x \<in> tn_ID ` set exp \<and> announced_not x then x\<lparr>tn_Status := TenantStatusPurging\<rparr> else x) (id_tenants d) = map g (id_tenants d)"
  proof (rule map_cong [OF refl])
    fix x
    assume x: "x \<in> set (id_tenants d)"
    then have "tn_ID x \<in> tn_ID ` set exp \<longleftrightarrow> x \<in> set exp" using one set_exp by blast
    then show "(if tn_ID x \<in> tn_ID ` set exp \<and> announced_not x then x\<lparr>tn_Status := TenantStatusPurging\<rparr> else x) = g x"
      using x by (auto simp: set_exp g_def)
  qed
  define d1 where "d1 = d\<lparr>id_tenants := map g (id_tenants d), id_outbox := id_outbox d @ rows\<rparr>"
  have gsame: "tn_ID (g x) = tn_ID x" "expired_before n (g x) = expired_before n x" for x n by (simp_all add: g_def expired_before_def)
  define ps where "ps = PurgeableTenants (?now - PurgeGrace) d1"
  have ps: "set ps = tn_ID ` {x \<in> set (id_tenants d). tn_Status (g x) = TenantStatusPurging \<and> expired_before (?now - PurgeGrace) x}"
    unfolding ps_def PurgeableTenants_def d1_def by (force simp: gsame filter_map comp_def image_image)
  have in_ps: "tn_ID x \<in> set ps \<longleftrightarrow> tn_Status (g x) = TenantStatusPurging \<and> expired_before (?now - PurgeGrace) x" if "x \<in> set (id_tenants d)" for x
    using that one unfolding ps by blast
  have sw: "swept_status ?now x = (if tn_Status (g x) = TenantStatusPurging \<and> expired_before (?now - PurgeGrace) x then TenantStatusPurged else tn_Status (g x))" for x
    by (simp add: swept_status_def Let_def g_def)
  have upd: "(if tn_ID (g x) \<in> set ps \<and> tn_Status (g x) = TenantStatusPurging then (g x)\<lparr>tn_Status := TenantStatusPurged\<rparr> else g x) = x\<lparr>tn_Status := swept_status ?now x\<rparr>"
    if "x \<in> set (id_tenants d)" for x
    using in_ps [OF that] by (cases x) (auto simp: sw gsame g_def)
  have ten: "map (\<lambda>x. if tn_ID x \<in> set ps \<and> tn_Status x = TenantStatusPurging then x\<lparr>tn_Status := TenantStatusPurged\<rparr> else x) (map g (id_tenants d))
      = map (\<lambda>t. t\<lparr>tn_Status := swept_status ?now t\<rparr>) (id_tenants d)"
    using upd by simp
  have gone: "(j \<in> set ps \<and> (\<exists>x \<in> set (map g (id_tenants d)). tn_ID x = j \<and> tn_Status x = TenantStatusPurging))
      \<longleftrightarrow> (\<exists>t \<in> set (id_tenants d). tn_ID t = j \<and> swept_status ?now t = TenantStatusPurged \<and> tn_Status t \<noteq> TenantStatusPurged)" for j
  proof -
    have "(j \<in> set ps \<and> (\<exists>x \<in> set (map g (id_tenants d)). tn_ID x = j \<and> tn_Status x = TenantStatusPurging))
      \<longleftrightarrow> (\<exists>t \<in> set (id_tenants d). tn_ID t = j \<and> tn_Status (g t) = TenantStatusPurging \<and> expired_before (?now - PurgeGrace) t)"
      unfolding ps using one by (auto simp: gsame)
    also have "\<dots> \<longleftrightarrow> (\<exists>t \<in> set (id_tenants d). tn_ID t = j \<and> swept_status ?now t = TenantStatusPurged \<and> tn_Status t \<noteq> TenantStatusPurged)"
    proof -
      have "tn_Status (g t) = TenantStatusPurging \<and> expired_before (?now - PurgeGrace) t
          \<longleftrightarrow> swept_status ?now t = TenantStatusPurged \<and> tn_Status t \<noteq> TenantStatusPurged" for t
        using identity_status_distinct(4) by (auto simp: sw g_def announced_not_def TenantStatusPurged_def TenantStatusActive_def TenantStatusSuspended_def split: if_splits)
      then show ?thesis by simp
    qed
    finally show ?thesis .
  qed
  have "Sweep w wall d = finalize_loop ps d1"
    by (simp add: Sweep_def exp_def [symmetric] ann g d1_def [symmetric] ps_def)
  also have "\<dots> = (Inr (), d\<lparr>id_tenants := map (\<lambda>t. t\<lparr>tn_Status := swept_status ?now t\<rparr>) (id_tenants d),
       id_keys := filter (\<lambda>k. \<not> (\<exists>t \<in> set (id_tenants d). tn_ID t = ak_TenantID k \<and> swept_status ?now t = TenantStatusPurged
          \<and> tn_Status t \<noteq> TenantStatusPurged)) (id_keys d), id_outbox := id_outbox d @ rows\<rparr>)"
    unfolding finalize_loop_spec using ten gone by (simp add: d1_def)
  finally show ?thesis using rows unfolding exp_def by blast
qed

end
