(* ===== verification/Identity_Theorems.thy ===== *)
theory Identity_Theorems
  imports Identity_Sweep
begin

text \<open>
  The properties of the identity service's database over every reachable state: announcements, stored rows,
  signups and sweeps, with a sample run that instantiates them.
\<close>

section \<open>Reachable states\<close>

interpretation identity: invariant_of empty_identity_db identity_step identity_ok
  by unfold_locales (auto intro: identity_ok_empty identity_step_ok)

text \<open>
  C35. An expired sandbox tenant is announced exactly once, whatever the interleaving of requests, sweeper
  instances and publications: the outbox holds one expiry event for a tenant that is purging or purged,
  none for any other, and the event carries the slug and the expiry of its tenant.
\<close>

theorem expiry_announced_once:
  assumes "identity_step\<^sup>*\<^sup>* empty_identity_db d" and "t \<in> set (id_tenants d)"
  shows "length (filter (\<lambda>r. or_tenant r = tn_ID t) (id_outbox d)) = (if announced (tn_Status t) then 1 else 0)
    \<and> (\<forall>r \<in> set (id_outbox d). or_tenant r = tn_ID t \<longrightarrow> announces r t)"
proof -
  have ok: "identity_ok d" by (rule identity.reachable [OF assms(1)])
  have len: "length (filter (\<lambda>r. or_tenant r = j) rs) = count_list (map or_tenant rs) j" for j and rs :: "TenantExpiredPayload OutboxRow list"
    by (induction rs) auto
  have "announces r t" if r: "r \<in> set (id_outbox d)" "or_tenant r = tn_ID t" for r
  proof -
    obtain u where u: "u \<in> set (id_tenants d)" "announces r u" using ok r(1) unfolding identity_ok_def by blast
    moreover have "tn_ID u = tn_ID t" using u(2) r(2) by (simp add: announces_def)
    then have "u = t" using ok u(1) assms(2) by (auto simp: identity_ok_def distinct_map inj_on_def)
    ultimately show ?thesis by simp
  qed
  moreover have "count_list (map or_tenant (id_outbox d)) (tn_ID t) = (if announced (tn_Status t) then 1 else 0)"
    using ok assms(2) by (simp add: identity_ok_def)
  ultimately show ?thesis unfolding len by blast
qed

text \<open>
  C36. The stored rows are well typed: in every reachable database the ids of tenants and keys, the slugs and
  the signup addresses are unique, every key belongs to a stored tenant, is of a known environment, is
  found under the first twelve characters of an \<open>lk_\<close> secret, and holds distinct scopes of the closed set,
  never the wildcard.
\<close>

theorem stored_rows_well_typed:
  assumes "identity_step\<^sup>*\<^sup>* empty_identity_db d"
  shows "distinct (map tn_ID (id_tenants d)) \<and> distinct (map tn_Slug (id_tenants d)) \<and> distinct (map ak_ID (id_keys d))
    \<and> distinct (map su_email (id_signups d))
    \<and> list_all (\<lambda>k. ValidEnvironment (ak_Environment k) \<and> length (ak_KeyPrefix k) = KeyPrefixLength \<and> take 3 (ak_KeyPrefix k) = ''lk_''
        \<and> distinct (ak_Scopes k) \<and> list_all AllowedScopes (ak_Scopes k) \<and> ScopeWildcard \<notin> set (ak_Scopes k)
        \<and> (\<exists>t. store_GetTenant (ak_TenantID k) d = Inr t)) (id_keys d)"
proof -
  have ok: "identity_ok d" by (rule identity.reachable [OF assms])
  have "ScopeWildcard \<notin> set (ak_Scopes k)" if "key_ok k" for k
    using that wildcard_not_allowed by (auto simp: key_ok_def list_all_iff)
  moreover have "\<exists>t. store_GetTenant i d = Inr t" if "i \<in> tn_ID ` set (id_tenants d)" for i
    using that by (auto simp: store_GetTenant_def find_None_iff split: option.splits)
  ultimately show ?thesis using ok unfolding identity_ok_def list_all_iff by (auto simp: key_ok_def list_all_iff)
qed

text \<open>
  C37. A signup is all or nothing and within its limits: it leaves the database as it was, or it adds one
  active tenant that expires after the sandbox TTL, one sandbox key and one signup record for an address
  that had none; and when the two clocks are on the same day the signups of the day stay within the cap.
\<close>

theorem signup_atomic:
  assumes "Signup w limit email company d = Some (r, d')"
  shows "(\<exists>e. r = Inl e) \<and> d' = d
    \<or> (\<exists>s su. r = Inr s \<and> id_tenants d' = id_tenants d @ [ss_Tenant s] \<and> Tenant_Active (ss_Tenant s)
        \<and> tn_ExpiresAt (ss_Tenant s) = Some (iw_now w + SandboxTTL)
        \<and> id_keys d' = id_keys d @ [(ss_Key s)\<lparr>ak_Scopes := []\<rparr>] \<and> VerifySecret (iw_sha w) (ss_Key s) (ss_Secret s)
        \<and> ak_Environment (ss_Key s) = EnvironmentSandbox \<and> ak_TenantID (ss_Key s) = tn_ID (ss_Tenant s)
        \<and> id_signups d' = id_signups d @ [su] \<and> su_email su = to_lower (TrimSpace email) \<and> su_tenant su = tn_ID (ss_Tenant s)
        \<and> su_email su \<notin> su_email ` set (id_signups d)
        \<and> (day_start (iw_now w) = day_start (iw_dbnow w) \<longrightarrow>
             int (length (filter (\<lambda>s. su_created_at s \<ge> day_start (iw_dbnow w)) (id_signups d'))) \<le> limit))"
  using assms
proof (cases rule: Signup_cases)
  case kept
  then show ?thesis by blast
next
  case (added i j secret em co)
  have em: "em = to_lower (TrimSpace email)" using added(3) by (auto simp: signup_request_def Let_def split: if_splits)
  from added(6) show ?thesis
  proof (rule provision_Inr)
    assume p: "int (length (filter (\<lambda>s. su_created_at s \<ge> day_start (iw_dbnow w)) (id_signups d))) < limit"
      "em \<notin> su_email ` set (id_signups d)"
      and d': "d' = d\<lparr>id_tenants := id_tenants d @ [sandbox_tenant w i co],
        id_keys := id_keys d @ [(new_api_key w j i EnvironmentSandbox ''sandbox signup key'' secret DefaultScopes)\<lparr>ak_Scopes := [], ak_RevokedAt := None\<rparr>],
        id_signups := id_signups d @ [\<lparr>su_email = em, su_tenant = tn_ID (sandbox_tenant w i co), su_created_at = tn_CreatedAt (sandbox_tenant w i co)\<rparr>]\<rparr>"
    show ?thesis
      using p by (auto simp: d' added(5) em sandbox_tenant_def Tenant_Active_def new_api_key_def VerifySecret_def)
  qed
qed

section \<open>Signups of the same company\<close>

text \<open>
  What the UUID library documents: the first 48 bits of a version 7 UUID are the milliseconds of its
  creation, and the first six digits of its text are its first 24 bits.
\<close>

definition uuid_v7_law :: "IdentityWorld \<Rightarrow> bool" where
  "uuid_v7_law w \<longleftrightarrow> (\<forall>k i. iw_newID w k = Some i \<longrightarrow> unat i div 2 ^ 80 = nat (iw_now w div 10 ^ 6))"

definition uuid_text_law :: "(uuid \<Rightarrow> string) \<Rightarrow> bool" where
  "uuid_text_law us \<longleftrightarrow> (\<forall>i j. unat i div 2 ^ 104 = unat j div 2 ^ 104 \<longrightarrow>
     take 6 (to_lower (filter (\<lambda>c. c \<noteq> CHR ''-'') (us i))) = take 6 (to_lower (filter (\<lambda>c. c \<noteq> CHR ''-'') (us j))))"

lemma identity_step_slugs:
  assumes "identity_step d d'"
  shows "tn_Slug ` set (id_tenants d) \<subseteq> tn_Slug ` set (id_tenants d')"
  using assms
proof (cases rule: identity_step.cases)
  case (Step_CreateTenant w name slug)
  then show ?thesis by (cases rule: CreateTenant_cases [of w name slug d]) auto
next
  case (Step_CreateAPIKey w tn environment name scopes r)
  then show ?thesis
    by (auto elim!: CreateAPIKey_cases simp: insert_api_key_def split: if_splits)
next
  case (Step_RevokeAPIKey w i)
  then show ?thesis by (simp add: RevokeAPIKey_def store_RevokeAPIKey_def Let_def)
next
  case (Step_EnsureSigningKey cph nonces us fresh)
  obtain r e where e: "EnsureSigningKey cph nonces us fresh d = (r, e)" by fastforce
  then have "e\<lparr>id_signing := []\<rparr> = d\<lparr>id_signing := []\<rparr>"
    by (auto simp: EnsureSigningKey_def simp del: seal_keys.simps dest: signing_core split: list.splits sum.splits prod.splits if_splits)
  then have "id_tenants (e\<lparr>id_signing := []\<rparr>) = id_tenants (d\<lparr>id_signing := []\<rparr>)" by (rule arg_cong)
  then have "id_tenants e = id_tenants d" by simp
  then show ?thesis using e Step_EnsureSigningKey by simp
next
  case (Step_Signup w limit email company r)
  from Step_Signup show ?thesis by (auto elim!: Signup_cases provision_Inr)
next
  case (Step_Announce t now ev wall env)
  have "map tn_Slug (id_tenants d') = map tn_Slug (id_tenants d)"
    unfolding Step_Announce by (simp add: MarkTenantPurging_def IdWithSystemTx_def mark_purging_body_def Let_def set_status_def set_status_map del: map_map)
  then show ?thesis by (metis order_refl set_map)
next
  case (Step_Finalize t now)
  have "map tn_Slug (id_tenants d') = map tn_Slug (id_tenants d)"
    unfolding Step_Finalize by (simp add: FinalizeTenantPurge_def IdWithSystemTx_def finalize_body_def Let_def set_status_def set_status_map del: map_map)
  then show ?thesis by (metis order_refl set_map)
next
  case (Step_Drain pub)
  then show ?thesis by (simp add: drain_identity_outbox_def split: prod.splits)
qed

text \<open>
  C39. Two companies with one name do collide: after a signup, any other signup under the same company name
  whose tenant id is drawn in the same window of \<open>2\<^sup>2\<^sup>4\<close> milliseconds (4 hours and 39 minutes) is refused with
  a slug conflict, although its address, its key and its id are fresh and the cap is not reached: the
  suffix of the slug is the first six digits of a time-ordered UUID, which are its most significant bits.
\<close>

theorem same_company_collides:
  assumes laws: "uuid_v7_law w1" "uuid_v7_law w2" "uuid_text_law (iw_us w1)" "iw_us w2 = iw_us w1"
    and window: "nat (iw_now w1 div 10 ^ 6) div 2 ^ 24 = nat (iw_now w2 div 10 ^ 6) div 2 ^ 24"
    and first: "Signup w1 limit1 email1 company d = Some (Inr s1, d1)" and later: "identity_step\<^sup>*\<^sup>* d1 d2"
    and second: "signup_request w2 email2 company = Inr (em2, co2)" "iw_newID w2 0 = Some i" "iw_newID w2 1 = Some j"
      "NewAPIKeySecret (iw_rand w2) EnvironmentSandbox = Some (Inr secret)" "i \<notin> tn_ID ` set (id_tenants d2)"
      "int (length (filter (\<lambda>s. su_created_at s \<ge> day_start (iw_dbnow w2)) (id_signups d2))) < limit2"
  shows "Signup w2 limit2 email2 company d2 = Some (Inl ErrSlugConflict, d2)"
proof -
  obtain i1 em1 co1 where f: "iw_newID w1 0 = Some i1" "signup_request w1 email1 company = Inr (em1, co1)"
    "tn_Slug (sandbox_tenant w1 i1 co1) \<in> tn_Slug ` set (id_tenants d1)"
    using first by (auto elim!: Signup_cases provision_Inr)
  have "co1 = TrimSpace company" "co2 = TrimSpace company"
    using f(2) second(1) by (auto simp: signup_request_def Let_def split: if_splits)
  then have co: "co2 = co1" by simp
  have top: "unat u div 2 ^ 104 = unat u div 2 ^ 80 div 2 ^ 24" for u :: uuid by (simp add: div_mult2_eq [symmetric])
  have "unat i1 div 2 ^ 104 = unat i div 2 ^ 104"
    using laws(1,2) f(1) second(2) window unfolding top uuid_v7_law_def by metis
  then have "signup_slug co2 (iw_us w2 i) = signup_slug co1 (iw_us w1 i1)"
    using laws(3,4) co unfolding uuid_text_law_def signup_slug_def Let_def by metis
  moreover have "tn_Slug (sandbox_tenant w1 i1 co1) \<in> tn_Slug ` set (id_tenants d2)"
    using later f(3) by (induction rule: rtranclp_induct) (use identity_step_slugs in blast)+
  ultimately have "tn_Slug (sandbox_tenant w2 i co2) \<in> tn_Slug ` set (id_tenants d2)" by (simp add: sandbox_tenant_def)
  then have "tenant_violation (sandbox_tenant w2 i co2) d2 = Some tenants_slug_key"
    using second(5) by (simp add: tenant_violation_def sandbox_tenant_def)
  then show ?thesis
    using second by (simp add: Signup_def Let_def ProvisionSandboxTenant_def IdWithSystemTx_def provision_body_def)
qed

section \<open>A sample run\<close>

text \<open>A UUID in its canonical form, version 7 identifiers of the millisecond \<open>ms\<close>, and a service at that time.\<close>

definition sample_uuid_text :: "uuid \<Rightarrow> string" where
  "sample_uuid_text i = (let h = map (\<lambda>k. hex_digit (unat i div 16 ^ (31 - k) mod 16)) [0..<32]
     in take 8 h @ ''-'' @ take 4 (drop 8 h) @ ''-'' @ take 4 (drop 12 h) @ ''-'' @ take 4 (drop 16 h) @ ''-'' @ drop 20 h)"

definition sample_world :: "nat \<Rightarrow> nat \<Rightarrow> IdentityWorld" where
  "sample_world ms r = \<lparr>iw_rand = (\<lambda>_. Some (replicate 64 7)), iw_sha = id,
     iw_newID = (\<lambda>k. Some (word_of_nat (ms * 2 ^ 80 + (r + k mod 4)))), iw_us = sample_uuid_text,
     iw_now = int ms * 10 ^ 6, iw_dbnow = int ms * 10 ^ 6, iw_sign = (\<lambda>_ _ _. Some ''token''), iw_tokenID = ''jti'', iw_mail = Some\<rparr>"

lemma uuid_of_nat: "x < 2 ^ 128 \<Longrightarrow> unat (word_of_nat x :: uuid) = x"
  by (simp add: unat_of_nat)

lemma sample_v7:
  assumes "ms < 2 ^ 48" and "r < 2 ^ 40"
  shows "uuid_v7_law (sample_world ms r)"
proof -
  have "unat (word_of_nat (ms * 2 ^ 80 + (r + k mod 4)) :: uuid) div 2 ^ 80 = ms" for k
  proof -
    have small: "r + k mod 4 < 2 ^ 80" using assms(2) by simp
    have "ms * 2 ^ 80 + (r + k mod 4) < 2 ^ 128"
    proof -
      have "ms * 2 ^ 80 \<le> (2 ^ 48 - 1) * 2 ^ 80" using assms(1) by (intro mult_le_mono1) simp
      then show ?thesis using small by simp
    qed
    then have "unat (word_of_nat (ms * 2 ^ 80 + (r + k mod 4)) :: uuid) = ms * 2 ^ 80 + (r + k mod 4)" by (rule uuid_of_nat)
    then show ?thesis using small by (simp only: div_mult_self3) simp
  qed
  then show ?thesis by (simp add: uuid_v7_law_def sample_world_def)
qed

lemma hex_digit_not_hyphen: "n < 16 \<Longrightarrow> hex_digit n \<noteq> CHR ''-''"
proof -
  assume "n < 16"
  then have "of_char (hex_digit n) \<noteq> (45 :: nat)" by (simp add: hex_digit_def)
  then show ?thesis by auto
qed

lemma sample_text_law: "uuid_text_law sample_uuid_text"
proof -
  define g where "g = (\<lambda>(i :: uuid) k. hex_digit (unat i div 16 ^ (31 - k) mod 16))"
  have digits: "filter (\<lambda>c. c \<noteq> CHR ''-'') (sample_uuid_text i) = map (g i) [0..<32]" for i
  proof -
    define h where "h = map (g i) [0..<32]"
    have h: "\<forall>c \<in> set h. c \<noteq> CHR ''-''" by (auto simp: h_def g_def hex_digit_not_hyphen)
    have f: "filter (\<lambda>c. c \<noteq> CHR ''-'') xs = xs" if "set xs \<subseteq> set h" for xs using h that by (auto simp: filter_id_conv)
    have sub: "set (take n xs) \<subseteq> set xs" "set (drop n xs) \<subseteq> set xs" for n and xs :: string
      by (auto dest: in_set_takeD in_set_dropD)
    have "filter (\<lambda>c. c \<noteq> CHR ''-'') (sample_uuid_text i)
        = take 8 h @ take 4 (drop 8 h) @ take 4 (drop 12 h) @ take 4 (drop 16 h) @ drop 20 h"
    proof -
      have e: "sample_uuid_text i = take 8 h @ ''-'' @ take 4 (drop 8 h) @ ''-'' @ take 4 (drop 12 h) @ ''-'' @ take 4 (drop 16 h) @ ''-'' @ drop 20 h"
        by (simp only: sample_uuid_text_def Let_def h_def g_def)
      have "filter (\<lambda>c. c \<noteq> CHR ''-'') (take 8 h) = take 8 h" "filter (\<lambda>c. c \<noteq> CHR ''-'') (drop 20 h) = drop 20 h"
        by (rule f, rule sub)+
      moreover have "filter (\<lambda>c. c \<noteq> CHR ''-'') (take 4 (drop n h)) = take 4 (drop n h)" for n
        by (rule f) (rule subset_trans [OF sub(1) sub(2)])
      ultimately show ?thesis unfolding e by (simp only: filter_append filter.simps simp_thms if_True if_False append_Nil)
    qed
    also have "\<dots> = h"
      using append_take_drop_id [of 4 "drop 16 h"] append_take_drop_id [of 4 "drop 12 h"] append_take_drop_id [of 4 "drop 8 h"]
        append_take_drop_id [of 8 h] by (simp add: drop_drop)
    finally show ?thesis by (simp add: h_def)
  qed
  have top: "g i k = g j k" if "k < 6" "unat i div 2 ^ 104 = unat j div 2 ^ 104" for i j k
  proof -
    have e: "(16 :: nat) ^ (31 - k) = 2 ^ 104 * 16 ^ (5 - k)"
    proof -
      have "(16 :: nat) ^ (31 - k) = 16 ^ 26 * 16 ^ (5 - k)" using that(1) by (simp only: power_add [symmetric]) simp
      then show ?thesis by simp
    qed
    show ?thesis using that(2) by (simp only: g_def e div_mult2_eq)
  qed
  have first: "take 6 (to_lower (map (g i) [0..<32])) = map (\<lambda>k. hd (to_lower [g i k])) [0..<6]" for i
    by (simp add: to_lower_def take_map)
  have same: "map (\<lambda>k. hd (to_lower [g i k])) [0..<6] = map (\<lambda>k. hd (to_lower [g j k])) [0..<6]"
    if "unat i div 2 ^ 104 = unat j div 2 ^ 104" for i j
    by (rule map_cong [OF refl]) (simp only: top [OF _ that] set_upt atLeastLessThan_iff)
  show ?thesis unfolding uuid_text_law_def digits first by (intro allI impI same)
qed

lemma sample_secret:
  assumes "ValidEnvironment environment"
  shows "NewAPIKeySecret (\<lambda>_. Some (replicate 64 7)) environment = Some (Inr (''lk_'' @ environment @ ''_'' @ replicate 32 (CHR ''7'')))"
proof -
  have "filter accepted_byte (replicate 64 7) = replicate 64 7" by (simp add: accepted_byte_def)
  then have "random_loop (\<lambda>_. Some (replicate 64 7)) 32 0 '''' = Some (Inr (replicate 32 (symbol_of 7)))"
    using random_loop_spec [of 1 "\<lambda>_. Some (replicate 64 7)" 0 32 "''''"] by (simp add: min_def)
  moreover have "symbol_of 7 = CHR ''7''" by (simp add: symbol_of_def base62Alphabet_def)
  ultimately show ?thesis using assms by (simp add: NewAPIKeySecret_def randomBase62_def SecretRandomLength_def)
qed

lemma char_of_a: "char_of (97 :: nat) = CHR ''a''"
  by (simp add: char_of_def bit_iff_odd)

lemma sample_request: "signup_request (sample_world ms r) '' Ann@acme.io'' ''Acme'' = Inr (''ann@acme.io'', ''Acme'')"
  "signup_request (sample_world ms r) ''bob@acme.io'' ''Acme'' = Inr (''bob@acme.io'', ''Acme'')"
  by (simp_all add: signup_request_def sample_world_def TrimSpace_def is_space_def to_lower_def Let_def char_of_a)

definition sample_tenant_id :: "nat \<Rightarrow> uuid" where
  "sample_tenant_id ms = word_of_nat (ms * 2 ^ 80)"

definition sample_key_id :: "nat \<Rightarrow> uuid" where
  "sample_key_id ms = word_of_nat (ms * 2 ^ 80 + 1)"

definition sample_signup_key :: "nat \<Rightarrow> APIKey" where
  "sample_signup_key ms = new_api_key (sample_world ms 0) (sample_key_id ms) (sample_tenant_id ms) EnvironmentSandbox
     ''sandbox signup key'' (''lk_sandbox_'' @ replicate 32 (CHR ''7'')) DefaultScopes"

definition sample_tenant :: "nat \<Rightarrow> Tenant" where
  "sample_tenant ms = sandbox_tenant (sample_world ms 0) (sample_tenant_id ms) ''Acme''"

definition sample_signed_up :: "nat \<Rightarrow> IdentityDb" where
  "sample_signed_up ms = \<lparr>id_tenants = [sample_tenant ms], id_keys = [(sample_signup_key ms)\<lparr>ak_Scopes := []\<rparr>], id_signing = [],
     id_signups = [\<lparr>su_email = ''ann@acme.io'', su_tenant = sample_tenant_id ms, su_created_at = int ms * 10 ^ 6\<rparr>], id_outbox = []\<rparr>"

lemma sample_signup:
  "Signup (sample_world ms 0) 20 '' Ann@acme.io'' ''Acme'' empty_identity_db
     = Some (Inr \<lparr>ss_Tenant = sample_tenant ms, ss_Key = sample_signup_key ms, ss_Secret = ''lk_sandbox_'' @ replicate 32 (CHR ''7'')\<rparr>, sample_signed_up ms)"
proof -
  have n: "NewAPIKeySecret (iw_rand (sample_world ms 0)) EnvironmentSandbox = Some (Inr (''lk_sandbox_'' @ replicate 32 (CHR ''7'')))"
    using sample_secret [of EnvironmentSandbox] by (simp add: ValidEnvironment_def sample_world_def EnvironmentSandbox_def)
  have i: "iw_newID (sample_world ms 0) 0 = Some (sample_tenant_id ms)" "iw_newID (sample_world ms 0) 1 = Some (sample_key_id ms)"
    by (simp_all add: sample_world_def sample_tenant_id_def sample_key_id_def)
  have k: "new_api_key (sample_world ms 0) (sample_key_id ms) (sample_tenant_id ms) EnvironmentSandbox
     ''sandbox signup key'' (''lk_sandbox_'' @ replicate 32 (CHR ''7'')) DefaultScopes = sample_signup_key ms"
    by (simp only: sample_signup_key_def)
  have t: "sandbox_tenant (sample_world ms 0) (sample_tenant_id ms) ''Acme'' = sample_tenant ms"
    by (simp only: sample_tenant_def)
  have v: "tenant_violation (sample_tenant ms) empty_identity_db = None"
    by (simp add: tenant_violation_def sample_tenant_def sandbox_tenant_def empty_identity_db_def)
  have ins: "insert_api_key ((sample_signup_key ms)\<lparr>ak_Scopes := []\<rparr>) (empty_identity_db\<lparr>id_tenants := [sample_tenant ms]\<rparr>)
      = Inr (empty_identity_db\<lparr>id_tenants := [sample_tenant ms], id_keys := [(sample_signup_key ms)\<lparr>ak_Scopes := []\<rparr>]\<rparr>)"
    by (simp add: insert_api_key_def sample_signup_key_def new_api_key_def PrefixOf_def KeyPrefixLength_def ValidEnvironment_def
        empty_identity_db_def sample_tenant_def sandbox_tenant_def)
  have p: "provision_body (int ms * 10 ^ 6) ''ann@acme.io'' (sample_tenant ms) (sample_signup_key ms) 20 empty_identity_db = Inr ((), sample_signed_up ms)"
    using v ins by (simp add: provision_body_def sample_signed_up_def empty_identity_db_def Let_def)
      (simp add: sample_tenant_def sandbox_tenant_def sample_world_def)
  have "ProvisionSandboxTenant (iw_dbnow (sample_world ms 0)) ''ann@acme.io'' (sample_tenant ms) (sample_signup_key ms) 20 empty_identity_db
      = (Inr (), sample_signed_up ms)"
    using p by (simp add: ProvisionSandboxTenant_def IdWithSystemTx_def sample_world_def)
  then show ?thesis
    unfolding Signup_def sample_request sum.case prod.case i n option.case Let_def t k by simp
qed

lemma sample_signed_up_reachable: "identity_step\<^sup>*\<^sup>* empty_identity_db (sample_signed_up ms)"
  by (rule r_into_rtranclp, rule Step_Signup, rule sample_signup)

definition sample_expiry :: "TenantExpiredPayload Envelope" where
  "sample_expiry = \<lparr>env_ID = 77, env_Type = TopicTenantExpired, env_TenantID = sample_tenant_id 5, env_OccurredAt = 0, env_Version = EnvelopeVersion,
     env_Data = \<lparr>tep_TenantID = sample_tenant_id 5, tep_Slug = tn_Slug (sample_tenant 5), tep_ExpiresAt = 5 * 10 ^ 6 + SandboxTTL\<rparr>\<rparr>"

lemma sample_announce_step: "identity_step (sample_signed_up 5) (snd (MarkTenantPurging sample_expiry (sample_signed_up 5)))"
proof (rule Step_Announce)
  show "sample_tenant 5 \<in> set (id_tenants (sample_signed_up 5))" by (simp add: sample_signed_up_def)
  show "expired_before (5 * 10 ^ 6 + SandboxTTL + 1) (sample_tenant 5)"
    by (simp add: expired_before_def sample_tenant_def sandbox_tenant_def sample_world_def)
  show "NewEnvelope (Some 77) 0 TopicTenantExpired (tn_ID (sample_tenant 5))
     \<lparr>tep_TenantID = tn_ID (sample_tenant 5), tep_Slug = tn_Slug (sample_tenant 5), tep_ExpiresAt = the (tn_ExpiresAt (sample_tenant 5))\<rparr> = Inr sample_expiry"
    by (simp add: NewEnvelope_def sample_expiry_def sample_tenant_def sandbox_tenant_def sample_world_def)
qed

theorem expiry_announced_once_witness:
  "length (filter (\<lambda>r. or_tenant r = sample_tenant_id 5) (id_outbox (snd (MarkTenantPurging sample_expiry (sample_signed_up 5))))) = 1"
proof -
  let ?d = "snd (MarkTenantPurging sample_expiry (sample_signed_up 5))"
  have r: "identity_step\<^sup>*\<^sup>* empty_identity_db ?d"
    using sample_signed_up_reachable sample_announce_step by (rule rtranclp.rtrancl_into_rtrancl)
  have hit: "MarkTenantPurging sample_expiry (sample_signed_up 5) = (Inr (), (sample_signed_up 5)\<lparr>id_tenants := [(sample_tenant 5)\<lparr>tn_Status := TenantStatusPurging\<rparr>],
      id_outbox := [\<lparr>or_tenant = sample_tenant_id 5, or_topic = TopicTenantExpired, or_envelope = Some sample_expiry, or_published = False\<rparr>]\<rparr>)"
    using MarkTenantPurging_hit [of "sample_tenant 5" "sample_signed_up 5" sample_expiry]
    by (simp add: sample_signed_up_def sample_expiry_def sample_tenant_def sandbox_tenant_def announced_not_def)
  have t: "(sample_tenant 5)\<lparr>tn_Status := TenantStatusPurging\<rparr> \<in> set (id_tenants ?d)" by (simp add: hit)
  have "tn_ID ((sample_tenant 5)\<lparr>tn_Status := TenantStatusPurging\<rparr>) = sample_tenant_id 5"
    by (simp add: sample_tenant_def sandbox_tenant_def)
  then show ?thesis using expiry_announced_once [OF r t] by simp
qed

theorem stored_rows_well_typed_witness:
  "\<exists>k t. id_keys (sample_signed_up 5) = [k] \<and> length (ak_KeyPrefix k) = 12 \<and> store_GetTenant (ak_TenantID k) (sample_signed_up 5) = Inr t"
  using stored_rows_well_typed [OF sample_signed_up_reachable [of 5]]
  by (simp add: sample_signed_up_def KeyPrefixLength_def)

theorem signup_atomic_witness:
  "VerifySecret id (sample_signup_key 5) (''lk_sandbox_'' @ replicate 32 (CHR ''7'')) \<and> Tenant_Active (sample_tenant 5)
   \<and> id_tenants (sample_signed_up 5) = id_tenants empty_identity_db @ [sample_tenant 5]"
  using signup_atomic [OF sample_signup [of 5]] by (auto simp: sample_world_def)

theorem same_company_collides_witness:
  "Signup (sample_world 1780000060000 0) 20 ''bob@acme.io'' ''Acme'' (sample_signed_up 1780000000000)
     = Some (Inl ErrSlugConflict, sample_signed_up 1780000000000)"
proof -
  have f0: "uuid_v7_law (sample_world 1780000000000 0)" and f00: "uuid_v7_law (sample_world 1780000060000 0)" by (simp_all add: sample_v7)
  have f1: "uuid_text_law (iw_us (sample_world 1780000000000 0))" using sample_text_law by (simp add: sample_world_def)
  have f2: "iw_us (sample_world 1780000060000 0) = iw_us (sample_world 1780000000000 0)" by (simp add: sample_world_def)
  have f3: "nat (iw_now (sample_world 1780000000000 0) div 10 ^ 6) div 2 ^ 24 = nat (iw_now (sample_world 1780000060000 0) div 10 ^ 6) div 2 ^ 24"
    by (simp add: sample_world_def)
  have f4: "Signup (sample_world 1780000000000 0) 20 '' Ann@acme.io'' ''Acme'' empty_identity_db
     = Some (Inr \<lparr>ss_Tenant = sample_tenant 1780000000000, ss_Key = sample_signup_key 1780000000000, ss_Secret = ''lk_sandbox_'' @ replicate 32 (CHR ''7'')\<rparr>,
        sample_signed_up 1780000000000)" by (rule sample_signup)
  have f5: "identity_step\<^sup>*\<^sup>* (sample_signed_up 1780000000000) (sample_signed_up 1780000000000)" by (rule rtranclp.rtrancl_refl)
  have f6: "signup_request (sample_world 1780000060000 0) ''bob@acme.io'' ''Acme'' = Inr (''bob@acme.io'', ''Acme'')" by (rule sample_request(2))
  have f7: "iw_newID (sample_world 1780000060000 0) 0 = Some (sample_tenant_id 1780000060000)"
    "iw_newID (sample_world 1780000060000 0) 1 = Some (sample_key_id 1780000060000)"
    by (simp_all add: sample_world_def sample_tenant_id_def sample_key_id_def)
  have f8: "NewAPIKeySecret (iw_rand (sample_world 1780000060000 0)) EnvironmentSandbox = Some (Inr (''lk_'' @ EnvironmentSandbox @ ''_'' @ replicate 32 (CHR ''7'')))"
    using sample_secret [of EnvironmentSandbox] by (simp add: ValidEnvironment_def sample_world_def)
  have f9: "sample_tenant_id 1780000060000 \<notin> tn_ID ` set (id_tenants (sample_signed_up 1780000000000))"
    by (simp add: sample_signed_up_def sample_tenant_def sandbox_tenant_def sample_tenant_id_def)
  have f10: "int (length (filter (\<lambda>s. day_start (iw_dbnow (sample_world 1780000060000 0)) \<le> su_created_at s) (id_signups (sample_signed_up 1780000000000)))) < 20"
    by (simp add: sample_signed_up_def)
  show ?thesis
    by (rule same_company_collides [OF f0 f00 f1 f2 f3 f4 f5 f6 f7(1) f7(2) f8 f9 f10])
qed

text \<open>
  C38. A pass of the sweeper, exactly: when UUIDs can be generated it succeeds, every tenant past its expiry
  moves to purging, or to purged when the grace period after its expiry is over as well, the keys of the
  tenants it purges are deleted and no others, and the expired tenants it found are announced in the order
  of their expiry, one event each. A tenant the pass finds expired for longer than the grace period is
  announced and purged in the same pass.
\<close>

theorem sweep_exact:
  assumes "identity_step\<^sup>*\<^sup>* empty_identity_db d" and "\<And>k. iw_newID w k \<noteq> None"
  shows "\<exists>rows. Sweep w wall d = (Inr (), d\<lparr>
         id_tenants := map (\<lambda>t. t\<lparr>tn_Status :=
             (if announced_not t \<and> expired_before (iw_now w) t \<or> tn_Status t = TenantStatusPurging
              then (if expired_before (iw_now w - PurgeGrace) t then TenantStatusPurged else TenantStatusPurging)
              else tn_Status t)\<rparr>) (id_tenants d),
         id_keys := filter (\<lambda>k. \<not> (\<exists>t \<in> set (id_tenants d). tn_ID t = ak_TenantID k \<and> tn_Status t \<noteq> TenantStatusPurged
             \<and> expired_before (iw_now w - PurgeGrace) t)) (id_keys d),
         id_outbox := id_outbox d @ rows\<rparr>)
     \<and> map or_tenant rows = map tn_ID (ExpiredSandboxTenants (iw_now w) d)"
proof -
  have ok: "identity_ok d" by (rule identity.reachable [OF assms(1)])
  have grace: "expired_before (iw_now w - PurgeGrace) t \<Longrightarrow> expired_before (iw_now w) t" for t
    by (auto simp: expired_before_def PurgeGrace_def split: option.splits)
  have st: "announced_not t \<or> tn_Status t = TenantStatusPurging \<or> tn_Status t = TenantStatusPurged" if "t \<in> set (id_tenants d)" for t
    using ok that by (auto simp: identity_ok_def announced_def)
  have status: "swept_status (iw_now w) t = (if announced_not t \<and> expired_before (iw_now w) t \<or> tn_Status t = TenantStatusPurging
              then (if expired_before (iw_now w - PurgeGrace) t then TenantStatusPurged else TenantStatusPurging) else tn_Status t)" for t
    by (auto simp: swept_status_def Let_def)
  have keys: "swept_status (iw_now w) t = TenantStatusPurged \<and> tn_Status t \<noteq> TenantStatusPurged
      \<longleftrightarrow> tn_Status t \<noteq> TenantStatusPurged \<and> expired_before (iw_now w - PurgeGrace) t" if "t \<in> set (id_tenants d)" for t
    using st [OF that] grace [of t] identity_status_distinct(4) by (auto simp: status split: if_splits)
  have "(\<exists>t \<in> set (id_tenants d). tn_ID t = i \<and> swept_status (iw_now w) t = TenantStatusPurged \<and> tn_Status t \<noteq> TenantStatusPurged)
      \<longleftrightarrow> (\<exists>t \<in> set (id_tenants d). tn_ID t = i \<and> tn_Status t \<noteq> TenantStatusPurged \<and> expired_before (iw_now w - PurgeGrace) t)" for i
    using keys by blast
  then show ?thesis using sweep_result [where w = w and wall = wall, OF ok assms(2)] unfolding status by simp
qed

theorem sweep_exact_witness:
  "map tn_Status (id_tenants (snd (Sweep ((sample_world 5 0)\<lparr>iw_now := 5 * 10 ^ 6 + SandboxTTL + 1\<rparr>) 0 (sample_signed_up 5)))) = [TenantStatusPurging]"
proof -
  have n: "iw_newID ((sample_world 5 0)\<lparr>iw_now := 5 * 10 ^ 6 + SandboxTTL + 1\<rparr>) k \<noteq> None" for k by (simp add: sample_world_def)
  from sweep_exact [where wall = 0, OF sample_signed_up_reachable [of 5] n] show ?thesis
    by (auto simp: sample_signed_up_def sample_tenant_def sandbox_tenant_def announced_not_def expired_before_def sample_world_def PurgeGrace_def)
qed

text \<open>The grace period is counted from the expiry, not from the announcement: a late pass leaves none.\<close>

lemma late_sweep_skips_grace:
  assumes "identity_ok d" and "\<And>k. iw_newID w k \<noteq> None" and "t \<in> set (id_tenants d)" and "Tenant_Active t"
    and "expired_before (iw_now w - PurgeGrace) t"
  shows "t\<lparr>tn_Status := TenantStatusPurged\<rparr> \<in> set (id_tenants (snd (Sweep w wall d)))
    \<and> (\<forall>k \<in> set (id_keys (snd (Sweep w wall d))). ak_TenantID k \<noteq> tn_ID t)"
proof -
  have "expired_before (iw_now w) t" using assms(5) by (auto simp: expired_before_def PurgeGrace_def split: option.splits)
  then have s: "swept_status (iw_now w) t = TenantStatusPurged" "tn_Status t \<noteq> TenantStatusPurged"
    using assms(4,5) by (simp_all add: swept_status_def Let_def announced_not_def Tenant_Active_def)
  obtain rows where sw: "Sweep w wall d = (Inr (), d\<lparr>id_tenants := map (\<lambda>t. t\<lparr>tn_Status := swept_status (iw_now w) t\<rparr>) (id_tenants d),
       id_keys := filter (\<lambda>k. \<not> (\<exists>t \<in> set (id_tenants d). tn_ID t = ak_TenantID k \<and> swept_status (iw_now w) t = TenantStatusPurged
          \<and> tn_Status t \<noteq> TenantStatusPurged)) (id_keys d), id_outbox := id_outbox d @ rows\<rparr>)"
    using sweep_result [where w = w and wall = wall, OF assms(1,2)] by blast
  show ?thesis using s assms(3) by (auto simp: sw intro: rev_image_eqI)
qed

end
