(* ===== verification/Identity_Tokens.thy ===== *)
theory Identity_Tokens
  imports Identity_Theorems
begin

text \<open>
  Tokens from the key to the claims of a request: what \<open>IssueToken\<close> grants, the key set the identity
  service publishes and the cache that every service keeps of it, and the middleware that turns a token back
  into the identity of its key.
\<close>

section \<open>Issuing\<close>

lemma find_api_key:
  assumes "find P (FindAPIKeysByPrefix prefix d) = Some k"
  shows "k \<in> set (id_keys d)" "ak_KeyPrefix k = prefix" "P k"
  using find_Some_filter [OF assms] by (auto simp: FindAPIKeysByPrefix_def)

text \<open>
  C34. A token is only issued for a live key of an active tenant and never exceeds the key: in every
  reachable database, an issued token is the signature, under the issuer's key, of claims that name a stored
  key with this secret that is not revoked, its tenant, which is active, and its environment; its scopes
  are those of the key, or the default ones for a key without scopes, all of the closed set and never the
  wildcard; and it expires after the issuer's lifetime. Every refusal is the same error, except that of the
  signature itself.
\<close>

theorem token_within_key:
  assumes "identity_step\<^sup>*\<^sup>* empty_identity_db d"
  shows "case IssueToken w iss secret d of
      Inl e \<Rightarrow> e = ErrInvalidCredentials \<or> e = ErrSign
    | Inr tok \<Rightarrow> \<exists>k \<in> set (id_keys d). \<exists>t \<in> set (id_tenants d). \<exists>scopes.
        iw_sha w secret = ak_SecretHash k \<and> ak_RevokedAt k = None \<and> tn_ID t = ak_TenantID k \<and> tn_Status t = TenantStatusActive
        \<and> iw_sign w (ti_kid iss) (ti_key iss) (token_claims w iss (ak_ID k) (tn_ID t) (ak_Environment k) scopes) = Some (it_AccessToken tok)
        \<and> scopes = (if ak_Scopes k = [] then DefaultScopes else ak_Scopes k)
        \<and> list_all AllowedScopes scopes \<and> ScopeWildcard \<notin> set scopes
        \<and> tc_ExpiresAt (token_claims w iss (ak_ID k) (tn_ID t) (ak_Environment k) scopes) = iw_now w + ti_ttl iss"
proof -
  have ok: "identity_ok d" by (rule identity.reachable [OF assms])
  show ?thesis
  proof (cases "IssueToken w iss secret d")
    case (Inl e)
    then show ?thesis
      by (auto simp: IssueToken_def Issue_def store_GetTenant_def split: if_splits option.splits sum.splits)
  next
    case (Inr tok)
    then obtain k t where k: "find (\<lambda>k. VerifySecret (iw_sha w) k secret) (FindAPIKeysByPrefix (PrefixOf secret) d) = Some k"
      and r: "\<not> Revoked k" and t: "find (\<lambda>t. tn_ID t = ak_TenantID k) (id_tenants d) = Some t" "Tenant_Active t"
      and iss: "Issue w iss (ak_ID k) (tn_ID t) (ak_Environment k) (if ak_Scopes k = [] then DefaultScopes else ak_Scopes k) = Inr tok"
      by (auto simp: IssueToken_def store_GetTenant_def split: if_splits option.splits)
    note kd = find_api_key [OF k] and td = find_Some_filter [OF t(1)]
    define scopes where "scopes = (if ak_Scopes k = [] then DefaultScopes else ak_Scopes k)"
    have "list_all AllowedScopes scopes"
      using ok kd(1) DefaultScopes_ok by (auto simp: identity_ok_def key_ok_def scopes_def)
    moreover from this have "ScopeWildcard \<notin> set scopes" using wildcard_not_allowed by (auto simp: list_all_iff)
    moreover have "iw_sign w (ti_kid iss) (ti_key iss) (token_claims w iss (ak_ID k) (tn_ID t) (ak_Environment k) scopes) = Some (it_AccessToken tok)"
      using iss by (auto simp: Issue_def scopes_def split: option.splits)
    moreover have "iw_sha w secret = ak_SecretHash k" "ak_RevokedAt k = None" "tn_ID t = ak_TenantID k" "tn_Status t = TenantStatusActive"
      "tc_ExpiresAt (token_claims w iss (ak_ID k) (tn_ID t) (ak_Environment k) scopes) = iw_now w + ti_ttl iss"
      using kd(3) r t(2) td by (simp_all add: VerifySecret_def HashSecret_def Revoked_def Tenant_Active_def token_claims_def)
    ultimately have "\<exists>k \<in> set (id_keys d). \<exists>t \<in> set (id_tenants d). \<exists>scopes.
        iw_sha w secret = ak_SecretHash k \<and> ak_RevokedAt k = None \<and> tn_ID t = ak_TenantID k \<and> tn_Status t = TenantStatusActive
        \<and> iw_sign w (ti_kid iss) (ti_key iss) (token_claims w iss (ak_ID k) (tn_ID t) (ak_Environment k) scopes) = Some (it_AccessToken tok)
        \<and> scopes = (if ak_Scopes k = [] then DefaultScopes else ak_Scopes k)
        \<and> list_all AllowedScopes scopes \<and> ScopeWildcard \<notin> set scopes
        \<and> tc_ExpiresAt (token_claims w iss (ak_ID k) (tn_ID t) (ak_Environment k) scopes) = iw_now w + ti_ttl iss"
      using kd(1) td scopes_def by blast
    then show ?thesis using Inr by simp
  qed
qed

definition sample_issuer :: TokenIssuer where
  "sample_issuer = \<lparr>ti_kid = ''kid'', ti_key = ''priv'', ti_ttl = TokenTTL, ti_audiences = DefaultAudiences\<rparr>"

lemma sample_issue:
  "IssueToken (sample_world 5 0) sample_issuer (''lk_sandbox_'' @ replicate 32 (CHR ''7'')) (sample_signed_up 5)
     = Inr \<lparr>it_AccessToken = ''token'', it_TokenType = ''Bearer'', it_ExpiresIn = 900\<rparr>"
  by (simp add: IssueToken_def KeyPrefixLength_def sample_signed_up_def FindAPIKeysByPrefix_def sample_signup_key_def new_api_key_def
      VerifySecret_def Revoked_def store_GetTenant_def sample_tenant_def sandbox_tenant_def Tenant_Active_def Issue_def sample_world_def
      sample_issuer_def TokenTTL_def)

theorem token_within_key_witness:
  "\<exists>k \<in> set (id_keys (sample_signed_up 5)). ak_RevokedAt k = None \<and> ak_SecretHash k = ''lk_sandbox_'' @ replicate 32 (CHR ''7'')
     \<and> IssueToken (sample_world 5 0) sample_issuer (ak_SecretHash k) (sample_signed_up 5)
         = Inr \<lparr>it_AccessToken = ''token'', it_TokenType = ''Bearer'', it_ExpiresIn = 900\<rparr>"
proof -
  let ?s = "''lk_sandbox_'' @ replicate 32 (CHR ''7'')"
  obtain k where k: "k \<in> set (id_keys (sample_signed_up 5))" "iw_sha (sample_world 5 0) ?s = ak_SecretHash k" "ak_RevokedAt k = None"
    using token_within_key [where w = "sample_world 5 0" and iss = sample_issuer and secret = ?s, OF sample_signed_up_reachable [of 5]]
    unfolding sample_issue sum.case by blast
  have "ak_SecretHash k = ?s" using k(2) by (simp add: sample_world_def)
  with k(1,3) sample_issue show ?thesis by metis
qed

section \<open>The key set\<close>

lemma collect_keys_source:
  "map_of (collect_keys keys ks) kid = Some raw \<Longrightarrow> map_of keys kid = Some raw
     \<or> (\<exists>k \<in> set ks. jwk_Kid k = kid \<and> jwk_Kty k = ''OKP'' \<and> jwk_Crv k = ''Ed25519'' \<and> kid \<noteq> ''''
          \<and> b64_decode (jwk_X k) = Some raw \<and> length raw = PublicKeySize)"
proof (induction keys ks rule: collect_keys.induct)
  case (2 keys k ks)
  then show ?case by (auto simp: AList.update_conv' split: if_splits option.splits)
qed simp

lemma fetch_cases:
  assumes "fetch json resp later c = (r, c')"
  obtains (failed) e where "r = Inl e" "c' = c"
  | (fetched) body doc where "r = Inr ()" "resp = Some (200, Some body)" "json (take (2 ^ 20) body) = Some doc"
      "c' = c\<lparr>jc_keys := collect_keys [] doc, jc_fetchedAt := later\<rparr>" "collect_keys [] doc \<noteq> []"
proof -
  have "(\<exists>e. r = Inl e \<and> c' = c) \<or> (\<exists>body doc. r = Inr () \<and> resp = Some (200, Some body) \<and> json (take (2 ^ 20) body) = Some doc
      \<and> c' = c\<lparr>jc_keys := collect_keys [] doc, jc_fetchedAt := later\<rparr> \<and> collect_keys [] doc \<noteq> [])"
    using assms by (auto simp: fetch_def Let_def split: option.splits if_splits prod.splits)
  then show ?thesis using failed fetched by blast
qed

text \<open>
  C40. The key a service verifies a token with is one the identity service publishes: a look-up returns a key
  only if the cache held it and was less than five minutes old, or the cache held it and the key set could
  not be fetched, or the document fetched now lists it as a well-formed Ed25519 key; and a failed fetch
  leaves the cache as it was.
\<close>

theorem verification_key_published:
  assumes "cache_key json resp now later kid c = (Inr raw, c')"
  shows "map_of (jc_keys c) kid = Some raw \<and> c' = c
        \<and> (now - jc_fetchedAt c < refreshEvery \<or> (\<exists>e. fst (fetch json resp later c) = Inl e))
    \<or> jc_fetchedAt c' = later \<and> (\<exists>body doc. resp = Some (200, Some body) \<and> json (take (2 ^ 20) body) = Some doc
        \<and> (\<exists>k \<in> set doc. jwk_Kid k = kid \<and> jwk_Kty k = ''OKP'' \<and> jwk_Crv k = ''Ed25519''
             \<and> b64_decode (jwk_X k) = Some raw \<and> length raw = PublicKeySize))"
proof (cases "map_of (jc_keys c) kid \<noteq> None \<and> now - jc_fetchedAt c < refreshEvery")
  case True
  then show ?thesis using assms by (auto simp: cache_key_def Let_def)
next
  case False
  obtain r c1 where f: "fetch json resp later c = (r, c1)" by fastforce
  then show ?thesis
  proof (cases rule: fetch_cases)
    case (failed e)
    then show ?thesis using assms False f by (auto simp: cache_key_def Let_def split: option.splits)
  next
    case (fetched body doc)
    then have m: "map_of (collect_keys [] doc) kid = Some raw" "c' = c1"
      using assms False f by (auto simp: cache_key_def Let_def split: option.splits)
    from collect_keys_source [OF m(1)] fetched m(2) show ?thesis by auto
  qed
qed

theorem verification_key_published_witness:
  "cache_key (\<lambda>_. None) (Some (503, None)) 10 11 ''k'' \<lparr>jc_keys = [(''k'', replicate 32 (CHR ''x''))], jc_fetchedAt = 0\<rparr>
     = (Inr (replicate 32 (CHR ''x'')), \<lparr>jc_keys = [(''k'', replicate 32 (CHR ''x''))], jc_fetchedAt = 0\<rparr>)
   \<and> map_of [(''k'', replicate 32 (CHR ''x''))] ''k'' = Some (replicate 32 (CHR ''x''))"
proof -
  have c: "cache_key (\<lambda>_. None) (Some (503, None)) 10 11 ''k'' \<lparr>jc_keys = [(''k'', replicate 32 (CHR ''x''))], jc_fetchedAt = 0\<rparr>
     = (Inr (replicate 32 (CHR ''x'')), \<lparr>jc_keys = [(''k'', replicate 32 (CHR ''x''))], jc_fetchedAt = 0\<rparr>)"
    by (simp add: cache_key_def Let_def refreshEvery_def)
  from verification_key_published [OF this] c show ?thesis by simp
qed

text \<open>The published document, as \<open>ident\<close> decodes it.\<close>

definition to_jwk :: "JWK \<Rightarrow> jwk" where
  "to_jwk k = \<lparr>jwk_Kty = jw_Kty k, jwk_Crv = jw_Crv k, jwk_Kid = jw_Kid k, jwk_X = jw_X k\<rparr>"

lemma collect_published:
  assumes "jwks_loop pub us ks = Inr doc" and "distinct (map sk_Kid ks)" and "inj us" and "\<And>i. us i \<noteq> ''''"
    and "\<And>k p. k \<in> set ks \<Longrightarrow> pub (sk_PublicKeyPEM k) = Some p \<Longrightarrow> length p = PublicKeySize"
  shows "map_of (collect_keys keys (map to_jwk doc)) (us i) =
     (case find (\<lambda>k. sk_Kid k = i) ks of None \<Rightarrow> map_of keys (us i) | Some k \<Rightarrow> pub (sk_PublicKeyPEM k))"
  using assms(1,2,5)
proof (induction ks arbitrary: doc keys)
  case Nil
  then show ?case by simp
next
  case (Cons k ks)
  obtain p rest where p: "pub (sk_PublicKeyPEM k) = Some p" and rest: "jwks_loop pub us ks = Inr rest"
    and doc: "doc = \<lparr>jw_Kty = ''OKP'', jw_Crv = ''Ed25519'', jw_Kid = us (sk_Kid k), jw_X = b64_encode p, jw_Alg = AlgorithmEdDSA, jw_Use = ''sig''\<rparr> # rest"
    using Cons.prems(1) by (auto simp: bindE_Inr_iff split: option.splits)
  have len: "length p = PublicKeySize" using Cons.prems(3) [of k p] p by simp
  have step: "collect_keys keys (map to_jwk doc) = collect_keys (AList.update (us (sk_Kid k)) p keys) (map to_jwk rest)"
    using len assms(4) by (simp add: doc to_jwk_def b64_roundtrip)
  have none: "find (\<lambda>x. sk_Kid x = sk_Kid k) ks = None" using Cons.prems(2) by (auto simp: find_None_iff intro: rev_image_eqI)
  have "us (sk_Kid k) = us i \<longleftrightarrow> sk_Kid k = i" using assms(3) by (auto dest: injD)
  moreover have "map_of (collect_keys (AList.update (us (sk_Kid k)) p keys) (map to_jwk rest)) (us i)
      = (case find (\<lambda>k. sk_Kid k = i) ks of None \<Rightarrow> map_of (AList.update (us (sk_Kid k)) p keys) (us i) | Some k \<Rightarrow> pub (sk_PublicKeyPEM k))"
    by (rule Cons.IH [OF rest]) (use Cons.prems(2,3) in auto)
  ultimately show ?case
    using none p unfolding step by (cases "sk_Kid k = i") (auto simp: AList.update_conv' split: option.splits)
qed

lemma distinct_active: "distinct (map sk_Kid (id_signing d)) \<Longrightarrow> distinct (map sk_Kid (ListActiveSigningKeys d))"
  by (auto simp: ListActiveSigningKeys_def distinct_map distinct_filter inj_on_def)

section \<open>From a key to the claims of a request\<close>

text \<open>
  What the JWT library documents of the tokens an issuer signs, for a service that looks the public key
  \<open>pub\<close> up under the issuer's key id: the header carries the key id, the text has no space around it, and
  the verification accepts it while the issuer and audience are the expected ones, it is not used before it
  was issued, and it has not expired (the expiry being encoded in whole seconds), both up to the leeway.
\<close>

definition jwt_law :: "IdentityWorld \<Rightarrow> TokenIssuer \<Rightarrow> string \<Rightarrow> IdentEnv \<Rightarrow> bool" where
  "jwt_law w iss pub env \<longleftrightarrow> (\<forall>c tok. iw_sign w (ti_kid iss) (ti_key iss) c = Some tok \<longrightarrow>
     TrimSpace tok = tok \<and> ie_header env tok = Some (ti_kid iss)
     \<and> (\<forall>opts now. (po_Issuer opts = None \<or> po_Issuer opts = Some (tc_Issuer c))
           \<and> (case po_Audience opts of None \<Rightarrow> True | Some a \<Rightarrow> a \<in> set (tc_Audience c))
           \<and> tc_IssuedAt c \<le> now + po_Leeway opts \<and> now + 10 ^ 9 < tc_ExpiresAt c + po_Leeway opts
         \<longrightarrow> (\<exists>c'. ie_verify env opts pub now tok = Some c' \<and> tc_TenantID c' = tc_TenantID c \<and> tc_Environment c' = tc_Environment c
                \<and> tc_Scopes c' = tc_Scopes c \<and> tc_Subject c' = tc_Subject c)))"

definition auth_header :: "IssuedToken \<Rightarrow> AuthRequest" where
  "auth_header tok = \<lparr>rq_XTenantId = '''', rq_Authorization = it_TokenType tok @ '' '' @ it_AccessToken tok\<rparr>"

lemma TrimSpace_nonempty: "c \<in> set s \<Longrightarrow> \<not> is_space c \<Longrightarrow> TrimSpace s \<noteq> ''''"
proof -
  assume c: "c \<in> set s" "\<not> is_space c"
  have "c \<in> set (dropWhile is_space s)"
    using c by (metis Un_iff set_append set_takeWhileD takeWhile_dropWhile_id)
  then show ?thesis using c(2) by (auto simp: TrimSpace_def dropWhile_eq_Nil_conv)
qed

lemma find_append_none: "find P xs = None \<Longrightarrow> find P (xs @ ys) = find P ys"
  by (induction xs) (auto split: if_splits)

lemma issued_token:
  assumes key: "CreateAPIKey w tn environment name scopes d = Some (Inr (key, secret), d1)"
    and fresh: "\<forall>k \<in> set (id_keys d). ak_SecretHash k \<noteq> iw_sha w secret"
    and tenant: "store_GetTenant tn d1 = Inr t" "Tenant_Active t"
    and w2: "iw_sha w2 = iw_sha w"
    and sign: "iw_sign w2 (ti_kid iss) (ti_key iss) (token_claims w2 iss (ak_ID key) tn environment (ak_Scopes key)) = Some tokText"
  shows "IssueToken w2 iss secret d1 = Inr \<lparr>it_AccessToken = tokText, it_TokenType = ''Bearer'', it_ExpiresIn = ti_ttl iss div 10 ^ 9\<rparr>"
    "ak_Scopes key \<noteq> []" "ScopeWildcard \<notin> set (ak_Scopes key)" "ValidEnvironment environment"
proof -
  obtain granted i n where k: "key = new_api_key w i tn environment n secret granted"
    and s: "NewAPIKeySecret (iw_rand w) environment = Some (Inr secret)" and g: "normalizeScopes scopes = Inr granted"
    and ins: "insert_api_key key d = Inr d1"
    using key by (auto elim: CreateAPIKey_cases)
  note sh = NewAPIKeySecret_shape [OF s] and ns = normalizeScopes_ok [OF g]
  have d1: "id_keys d1 = id_keys d @ [key]" "id_tenants d1 = id_tenants d"
    using ins by (auto simp: insert_api_key_def k new_api_key_def split: if_splits)
  have kp: "ak_KeyPrefix key = PrefixOf secret" "ak_SecretHash key = iw_sha w secret" "ak_RevokedAt key = None" "ak_TenantID key = tn"
    "ak_Environment key = environment" "ak_Scopes key = granted"
    by (simp_all add: k new_api_key_def HashSecret_def)
  show sc: "ak_Scopes key \<noteq> []" "ScopeWildcard \<notin> set (ak_Scopes key)" "ValidEnvironment environment"
    using ns wildcard_not_allowed sh(1) kp(6) by (auto simp: list_all_iff)
  have "find (\<lambda>k. VerifySecret (iw_sha w) k secret) (FindAPIKeysByPrefix (PrefixOf secret) d) = None"
    using fresh by (auto simp: find_None_iff FindAPIKeysByPrefix_def VerifySecret_def HashSecret_def)
  then have "find (\<lambda>k. VerifySecret (iw_sha w2) k secret) (FindAPIKeysByPrefix (PrefixOf secret) d1) = Some key"
    using kp by (simp add: FindAPIKeysByPrefix_def d1 find_append_none w2 VerifySecret_def HashSecret_def)
  moreover have "tn_ID t = tn" using find_Some_filter tenant(1) by (force simp: store_GetTenant_def split: option.splits)
  ultimately show "IssueToken w2 iss secret d1 = Inr \<lparr>it_AccessToken = tokText, it_TokenType = ''Bearer'', it_ExpiresIn = ti_ttl iss div 10 ^ 9\<rparr>"
    using sh sc(1) kp tenant sign by (simp add: IssueToken_def KeyPrefixLength_def Revoked_def Issue_def)
qed

lemma published_key:
  assumes sk: "sk \<in> set (ListActiveSigningKeys d)" and "distinct (map sk_Kid (id_signing d))"
    and doc: "JWKS pub us d = Inr doc" and us: "inj us" "\<And>i. us i \<noteq> ''''"
    and len: "\<And>(k :: SigningKey) p. pub (sk_PublicKeyPEM k) = Some p \<Longrightarrow> length p = PublicKeySize"
    and p: "pub (sk_PublicKeyPEM sk) = Some p"
  shows "map_of (collect_keys [] (map to_jwk doc)) (us (sk_Kid sk)) = Some p"
proof -
  have dist: "distinct (map sk_Kid (ListActiveSigningKeys d))" by (rule distinct_active [OF assms(2)])
  obtain x where x: "find (\<lambda>k. sk_Kid k = sk_Kid sk) (ListActiveSigningKeys d) = Some x"
    using sk by (cases "find (\<lambda>k. sk_Kid k = sk_Kid sk) (ListActiveSigningKeys d)") (auto simp: find_None_iff)
  then have "x = sk" using find_Some_filter [OF x] dist sk by (auto simp: distinct_map inj_on_def)
  moreover have "map_of (collect_keys [] (map to_jwk doc)) (us (sk_Kid sk)) = (case find (\<lambda>k. sk_Kid k = sk_Kid sk) (ListActiveSigningKeys d) of
      None \<Rightarrow> map_of [] (us (sk_Kid sk)) | Some k \<Rightarrow> pub (sk_PublicKeyPEM k))"
    by (rule collect_published [OF doc [unfolded JWKS_def] dist us]) (erule len)
  ultimately show ?thesis using x p by simp
qed

text \<open>
  C33. A key works end to end: the secret a client is given when its key is created buys a token of the
  identity service; a service that has never seen the key set fetches the published one, accepts the token
  while it is valid, and injects the claims of the key: its tenant, its environment, its identity as
  subject, and a scope check that passes exactly for the scopes granted to the key.
\<close>

theorem key_works_end_to_end:
  assumes key: "CreateAPIKey w tn environment name scopes d = Some (Inr (key, secret), d1)"
    and fresh: "\<forall>k \<in> set (id_keys d). ak_SecretHash k \<noteq> iw_sha w secret"
    and tenant: "store_GetTenant tn d1 = Inr t" "Tenant_Active t"
    and w2: "iw_sha w2 = iw_sha w" "inj (iw_us w2)" "\<And>i. iw_us w2 i \<noteq> ''''"
    and issuer: "sk \<in> set (ListActiveSigningKeys d1)" "NewTokenIssuer priv (iw_us w2) sk TokenTTL = Inr iss"
    and sign: "iw_sign w2 (ti_kid iss) (ti_key iss) (token_claims w2 iss (ak_ID key) tn environment (ak_Scopes key)) = Some tokText"
    and published: "JWKS pub (iw_us w2) d1 = Inr doc" "distinct (map sk_Kid (id_signing d1))"
      "\<And>(k :: SigningKey) p. pub (sk_PublicKeyPEM k) = Some p \<Longrightarrow> length p = PublicKeySize"
      "ie_resp env = Some (200, Some body)" "ie_json env (take (2 ^ 20) body) = Some (map to_jwk doc)"
    and jwt: "pub (sk_PublicKeyPEM sk) = Some p" "jwt_law w2 iss p env"
    and parse: "\<And>i. ie_uuidParse env (iw_us w2 i) = Some i"
    and service: "\<not> ac_AuthDisabled cfg" "ac_ExpectedIssuer cfg \<in> {'''', DefaultIssuer}" "ac_ExpectedAudience cfg \<in> insert '''' (set DefaultAudiences)"
    and time: "iw_now w2 \<le> ie_now env" "ie_now env + 10 ^ 9 \<le> iw_now w2 + TokenTTL"
  shows "\<exists>tok claims. IssueToken w2 iss secret d1 = Inr tok \<and> it_ExpiresIn tok = 900
    \<and> fst (RequireAuthConfig env cfg (auth_header tok) newJWKSCache) = Inr claims
    \<and> cl_TenantID claims = tn \<and> cl_Environment claims = environment \<and> cl_Subject claims = ''api_key:'' @ iw_us w2 (ak_ID key)
    \<and> (\<forall>s. RequireScope s (Some claims) = (if s \<in> set (ak_Scopes key) then Inr claims else Inl forbidden))"
proof -
  note tok = issued_token [OF key fresh tenant w2(1) sign]
  define c where "c = token_claims w2 iss (ak_ID key) tn environment (ak_Scopes key)"
  have iss: "ti_kid iss = iw_us w2 (sk_Kid sk)" "ti_ttl iss = TokenTTL" "ti_audiences iss = DefaultAudiences"
    using issuer(2) by (auto simp: NewTokenIssuer_def split: if_splits option.splits)
  have keyed: "map_of (collect_keys [] (map to_jwk doc)) (ti_kid iss) = Some p"
    unfolding iss(1) by (rule published_key [OF issuer(1) published(2,1) w2(2,3) published(3) jwt(1)])
  then have ne: "collect_keys [] (map to_jwk doc) \<noteq> []" by auto
  have law: "TrimSpace tokText = tokText" "ie_header env tokText = Some (ti_kid iss)" using jwt(2) sign unfolding jwt_law_def by blast+
  define opts where "opts = parser_opts cfg"
  have lee: "0 < po_Leeway opts" by (simp add: opts_def parser_opts_def DefaultClockSkew_def)
  have o: "po_Issuer opts = None \<or> po_Issuer opts = Some (tc_Issuer c)" "case po_Audience opts of None \<Rightarrow> True | Some a \<Rightarrow> a \<in> set (tc_Audience c)"
    using service(2,3) by (auto simp: opts_def parser_opts_def c_def token_claims_def iss(3))
  have ti: "tc_IssuedAt c \<le> ie_now env + po_Leeway opts" "ie_now env + 10 ^ 9 < tc_ExpiresAt c + po_Leeway opts"
    using time lee by (simp_all add: c_def token_claims_def iss(2))
  note accept = jwt(2) [unfolded jwt_law_def, THEN spec, THEN spec, THEN mp, OF sign [folded c_def], THEN conjunct2, THEN conjunct2,
      THEN spec, THEN spec, THEN mp]
  have "\<exists>c'. ie_verify env opts p (ie_now env) tokText = Some c' \<and> tc_TenantID c' = tc_TenantID c \<and> tc_Environment c' = tc_Environment c
      \<and> tc_Scopes c' = tc_Scopes c \<and> tc_Subject c' = tc_Subject c"
    by (rule accept) (intro conjI o ti)
  then obtain c' where c': "ie_verify env opts p (ie_now env) tokText = Some c'" "tc_TenantID c' = iw_us w2 tn" "tc_Environment c' = environment"
    "tc_Scopes c' = ak_Scopes key" "tc_Subject c' = ''api_key:'' @ iw_us w2 (ak_ID key)"
    by (auto simp: c_def token_claims_def)
  have cache: "cache_key (ie_json env) (ie_resp env) (ie_now env) (ie_later env) (ti_kid iss) newJWKSCache
      = (Inr p, \<lparr>jc_keys = collect_keys [] (map to_jwk doc), jc_fetchedAt = ie_later env\<rparr>)"
    using keyed ne published(4,5) by (simp add: cache_key_def Let_def newJWKSCache_def fetch_def)
  have parsed: "ParseWithClaims env opts tokText newJWKSCache = (Some c', \<lparr>jc_keys = collect_keys [] (map to_jwk doc), jc_fetchedAt = ie_later env\<rparr>)"
    using law(2) w2(3) cache c'(1) by (simp add: ParseWithClaims_def iss(1))
  define claims where "claims = \<lparr>cl_Subject = ''api_key:'' @ iw_us w2 (ak_ID key), cl_TenantID = tn, cl_Environment = environment, cl_Scopes = ak_Scopes key\<rparr>"
  have "TrimSpace (''api_key:'' @ iw_us w2 (ak_ID key)) \<noteq> ''''" by (rule TrimSpace_nonempty [of "CHR ''a''"]) (simp_all add: is_space_def)
  then have cl: "claims_of (ie_uuidParse env) c' = Inr claims"
    using c' parse tok(4) by (auto simp: claims_of_def claims_def EnvSandbox_def EnvLive_def ValidEnvironment_def EnvironmentSandbox_def EnvironmentLive_def)
  have "fst (RequireAuthConfig env cfg (auth_header \<lparr>it_AccessToken = tokText, it_TokenType = ''Bearer'', it_ExpiresIn = 900\<rparr>) newJWKSCache) = Inr claims"
    using service(1) parsed cl law(1) by (simp add: RequireAuthConfig_def auth_header_def bearer_def opts_def)
  moreover have "ti_ttl iss div 10 ^ 9 = 900" by (simp add: iss(2) TokenTTL_def)
  moreover have "RequireScope s (Some claims) = (if s \<in> set (ak_Scopes key) then Inr claims else Inl forbidden)" for s
    using tok(3) by (simp add: RequireScope_def HasScope_iff claims_def)
  ultimately show ?thesis using tok(1) by (intro exI [of _ claims] exI) (auto simp: claims_def)
qed

text \<open>A sample exchange: one tenant, one signing key, a key with one scope, and a service with a cold cache.\<close>

definition sample_exchange_db :: IdentityDb where
  "sample_exchange_db = \<lparr>id_tenants = [\<lparr>tn_ID = 7, tn_Name = ''Acme'', tn_Slug = ''acme'', tn_Status = TenantStatusActive, tn_CreatedAt = 0, tn_ExpiresAt = None\<rparr>],
     id_keys = [], id_signing = [\<lparr>sk_Kid = 1, sk_PrivateKeyPEM = ''pem'', sk_PublicKeyPEM = ''pem'', sk_Algorithm = AlgorithmEdDSA, sk_CreatedAt = 0, sk_Active = True\<rparr>],
     id_signups = [], id_outbox = []\<rparr>"

definition sample_exchange_base :: IdentityWorld where
  "sample_exchange_base = (sample_world 5 0)\<lparr>iw_newID := \<lambda>k. Some 9, iw_us := sample_uuidString\<rparr>"

definition sample_exchange_key :: APIKey where
  "sample_exchange_key = new_api_key sample_exchange_base 9 7 EnvironmentLive ''ci'' (''lk_live_'' @ replicate 32 (CHR ''7'')) [ScopeLedgerRead]"

definition sample_exchange_issuer :: TokenIssuer where
  "sample_exchange_issuer = \<lparr>ti_kid = sample_uuidString 1, ti_key = ''priv'', ti_ttl = TokenTTL, ti_audiences = DefaultAudiences\<rparr>"

definition sample_exchange_claims :: tokenClaims where
  "sample_exchange_claims = token_claims sample_exchange_base sample_exchange_issuer 9 7 EnvironmentLive [ScopeLedgerRead]"

definition sample_exchange_world :: IdentityWorld where
  "sample_exchange_world = sample_exchange_base\<lparr>iw_sign := \<lambda>_ _ c. if c = sample_exchange_claims then Some ''token'' else None\<rparr>"

definition sample_exchange_doc :: "JWK list" where
  "sample_exchange_doc = [\<lparr>jw_Kty = ''OKP'', jw_Crv = ''Ed25519'', jw_Kid = sample_uuidString 1, jw_X = b64_encode (replicate 32 (CHR ''p'')),
     jw_Alg = AlgorithmEdDSA, jw_Use = ''sig''\<rparr>]"

definition sample_service_env :: IdentEnv where
  "sample_service_env = \<lparr>ie_uuidParse = sample_uuidParse, ie_header = (\<lambda>_. Some (sample_uuidString 1)), ie_verify = (\<lambda>_ _ _ _. Some sample_exchange_claims),
     ie_json = (\<lambda>_. Some (map to_jwk sample_exchange_doc)), ie_resp = Some (200, Some ''{}''), ie_now = 6 * 10 ^ 9, ie_later = 6 * 10 ^ 9\<rparr>"

definition sample_service :: AuthConfig where
  "sample_service = \<lparr>ac_AuthDisabled = False, ac_ExpectedIssuer = DefaultIssuer, ac_ExpectedAudience = ''ledger-core'', ac_ClockSkew = 0\<rparr>"

lemma sample_uuid_inj: "inj sample_uuidString" "sample_uuidString i \<noteq> ''''"
proof -
  show "inj sample_uuidString" using sample_formats(3) by (metis injI option.inject)
  show "sample_uuidString i \<noteq> ''''" by (simp add: sample_uuidString_def)
qed

lemma sample_exchange_created:
  "CreateAPIKey sample_exchange_base 7 EnvironmentLive ''ci'' [''ledger:read''] sample_exchange_db
     = Some (Inr (sample_exchange_key, ''lk_live_'' @ replicate 32 (CHR ''7'')), sample_exchange_db\<lparr>id_keys := [sample_exchange_key]\<rparr>)"
proof -
  have req: "api_key_request 7 EnvironmentLive ''ci'' [''ledger:read''] sample_exchange_db = Inr (''ci'', [ScopeLedgerRead])"
    by (simp add: api_key_request_def TrimSpace_def is_space_def ValidEnvironment_def normalizeScopes_def AllowedScopes_def ScopeLedgerRead_def
        store_GetTenant_def sample_exchange_db_def)
  have sec: "NewAPIKeySecret (iw_rand sample_exchange_base) EnvironmentLive = Some (Inr (''lk_live_'' @ replicate 32 (CHR ''7'')))"
    using sample_secret [of EnvironmentLive] by (simp add: ValidEnvironment_def EnvironmentLive_def sample_exchange_base_def sample_world_def)
  have nid: "iw_newID sample_exchange_base 0 = Some 9" by (simp add: sample_exchange_base_def)
  have ins: "store_CreateAPIKey sample_exchange_key sample_exchange_db = (Inr (), sample_exchange_db\<lparr>id_keys := [sample_exchange_key]\<rparr>)"
    by (simp add: store_CreateAPIKey_def insert_api_key_def sample_exchange_key_def new_api_key_def ValidEnvironment_def PrefixOf_def
        KeyPrefixLength_def sample_exchange_db_def)
  show ?thesis
    unfolding CreateAPIKey_def req sec nid sum.case prod.case option.case Let_def sample_exchange_key_def [symmetric] ins by simp
qed

theorem key_works_end_to_end_witness:
  "\<exists>tok claims. IssueToken sample_exchange_world sample_exchange_issuer (''lk_live_'' @ replicate 32 (CHR ''7'')) (sample_exchange_db\<lparr>id_keys := [sample_exchange_key]\<rparr>) = Inr tok
    \<and> fst (RequireAuthConfig sample_service_env sample_service (auth_header tok) newJWKSCache) = Inr claims
    \<and> cl_TenantID claims = 7 \<and> RequireScope ''ledger:read'' (Some claims) = Inr claims \<and> RequireScope ''ledger:write'' (Some claims) = Inl forbidden"
proof -
  have scopes: "ak_Scopes sample_exchange_key = [ScopeLedgerRead]" "ak_ID sample_exchange_key = 9" by (simp_all add: sample_exchange_key_def new_api_key_def)
  have claims: "token_claims sample_exchange_world sample_exchange_issuer (ak_ID sample_exchange_key) 7 EnvironmentLive (ak_Scopes sample_exchange_key) = sample_exchange_claims"
    by (simp add: scopes sample_exchange_world_def sample_exchange_claims_def token_claims_def)
  have law: "jwt_law sample_exchange_world sample_exchange_issuer (replicate 32 (CHR ''p'')) sample_service_env"
    by (auto simp: jwt_law_def sample_exchange_world_def sample_service_env_def sample_exchange_issuer_def TrimSpace_def is_space_def split: if_splits)
  define d1 where "d1 = sample_exchange_db\<lparr>id_keys := [sample_exchange_key]\<rparr>"
  have sk: "ListActiveSigningKeys d1 = id_signing sample_exchange_db" by (simp add: ListActiveSigningKeys_def d1_def sample_exchange_db_def)
  have "\<exists>tok claims. IssueToken sample_exchange_world sample_exchange_issuer (''lk_live_'' @ replicate 32 (CHR ''7'')) d1 = Inr tok \<and> it_ExpiresIn tok = 900
    \<and> fst (RequireAuthConfig sample_service_env sample_service (auth_header tok) newJWKSCache) = Inr claims
    \<and> cl_TenantID claims = 7 \<and> cl_Environment claims = EnvironmentLive \<and> cl_Subject claims = ''api_key:'' @ iw_us sample_exchange_world (ak_ID sample_exchange_key)
    \<and> (\<forall>s. RequireScope s (Some claims) = (if s \<in> set (ak_Scopes sample_exchange_key) then Inr claims else Inl forbidden))"
  proof (rule key_works_end_to_end [where d = sample_exchange_db and w = sample_exchange_base and name = "''ci''" and scopes = "[''ledger:read'']"
        and t = "hd (id_tenants sample_exchange_db)" and sk = "hd (id_signing sample_exchange_db)" and priv = "\<lambda>_. Some ''priv''" and tokText = "''token''"
        and pub = "\<lambda>_. Some (replicate 32 (CHR ''p''))" and doc = sample_exchange_doc and p = "replicate 32 (CHR ''p'')" and body = "''{}''"])
    show "CreateAPIKey sample_exchange_base 7 EnvironmentLive ''ci'' [''ledger:read''] sample_exchange_db
       = Some (Inr (sample_exchange_key, ''lk_live_'' @ replicate 32 (CHR ''7'')), d1)" unfolding d1_def by (rule sample_exchange_created)
    show "\<forall>k \<in> set (id_keys sample_exchange_db). ak_SecretHash k \<noteq> iw_sha sample_exchange_base (''lk_live_'' @ replicate 32 (CHR ''7''))"
      by (simp add: sample_exchange_db_def)
    show "store_GetTenant 7 d1 = Inr (hd (id_tenants sample_exchange_db))" "Tenant_Active (hd (id_tenants sample_exchange_db))"
      by (simp_all add: store_GetTenant_def d1_def sample_exchange_db_def Tenant_Active_def)
    show "iw_sha sample_exchange_world = iw_sha sample_exchange_base" "inj (iw_us sample_exchange_world)" "iw_us sample_exchange_world i \<noteq> ''''" for i
      by (simp_all add: sample_exchange_world_def sample_exchange_base_def sample_uuid_inj)
    show "hd (id_signing sample_exchange_db) \<in> set (ListActiveSigningKeys d1)" unfolding sk by (simp add: sample_exchange_db_def)
    show "NewTokenIssuer (\<lambda>_. Some ''priv'') (iw_us sample_exchange_world) (hd (id_signing sample_exchange_db)) TokenTTL = Inr sample_exchange_issuer"
      by (simp add: NewTokenIssuer_def sample_exchange_db_def sample_exchange_issuer_def sample_exchange_world_def sample_exchange_base_def)
    show "iw_sign sample_exchange_world (ti_kid sample_exchange_issuer) (ti_key sample_exchange_issuer) (token_claims sample_exchange_world sample_exchange_issuer
        (ak_ID sample_exchange_key) 7 EnvironmentLive (ak_Scopes sample_exchange_key)) = Some ''token''"
      unfolding claims by (simp add: sample_exchange_world_def)
    show "JWKS (\<lambda>_. Some (replicate 32 (CHR ''p''))) (iw_us sample_exchange_world) d1 = Inr sample_exchange_doc"
      unfolding JWKS_def sk by (simp add: sample_exchange_db_def sample_exchange_doc_def sample_exchange_world_def sample_exchange_base_def)
    show "distinct (map sk_Kid (id_signing d1))" by (simp add: d1_def sample_exchange_db_def)
    show "length p = PublicKeySize" if "Some (replicate 32 (CHR ''p'')) = Some p" for p using that by (auto simp: PublicKeySize_def)
    show "ie_resp sample_service_env = Some (200, Some ''{}'')" "ie_json sample_service_env (take (2 ^ 20) ''{}'') = Some (map to_jwk sample_exchange_doc)"
      by (simp_all add: sample_service_env_def)
    show "Some (replicate 32 (CHR ''p'')) = Some (replicate 32 (CHR ''p''))" by (rule refl)
    show "jwt_law sample_exchange_world sample_exchange_issuer (replicate 32 (CHR ''p'')) sample_service_env" by (rule law)
    show "ie_uuidParse sample_service_env (iw_us sample_exchange_world i) = Some i" for i
      by (simp add: sample_service_env_def sample_exchange_world_def sample_exchange_base_def sample_formats)
    show "\<not> ac_AuthDisabled sample_service" "ac_ExpectedIssuer sample_service \<in> {'''', DefaultIssuer}"
      "ac_ExpectedAudience sample_service \<in> insert '''' (set DefaultAudiences)"
      by (simp_all add: sample_service_def DefaultAudiences_def)
    show "iw_now sample_exchange_world \<le> ie_now sample_service_env" "ie_now sample_service_env + 10 ^ 9 \<le> iw_now sample_exchange_world + TokenTTL"
      by (simp_all add: sample_exchange_world_def sample_exchange_base_def sample_world_def sample_service_env_def TokenTTL_def)
  qed
  moreover have "ScopeLedgerRead = ''ledger:read''" "''ledger:write'' \<noteq> ScopeLedgerRead" by (simp_all add: ScopeLedgerRead_def)
  ultimately show ?thesis unfolding scopes d1_def by auto
qed

end
