(* ===== verification/Http.thy ===== *)
theory Http
  imports Ident Webhook_Signature
begin

text \<open>
  The HTTP building blocks shared by every service, \<open>libs/go/httpx/httpx.go\<close>, and the part of \<open>net/http\<close>
  they rest on: requests, replies, the error catalogue, \<open>DecodeJSON\<close>, the middlewares and the method and
  path patterns of \<open>ServeMux\<close>.

  A handler function of a service is an \<open>endpoint\<close>: from the context of the request (claims and request
  id), the request and the state of the service to what it writes and the new state. It writes either an
  error, as the status and code it gives \<open>WriteError\<close>, or an answer. A middleware acts on a \<open>handler\<close>,
  which replies, panics before it has written anything, or never returns; the response headers set so far
  are kept apart from the reply, as they outlive a panic. Log lines, and the texts of error messages, are not
  modelled.
\<close>

section \<open>Requests and replies\<close>

record Ctx =
  cx_Claims :: "Claims option"
  cx_RequestID :: string

text \<open>
  The path is given by its segments, as the multiplexer sees them after it has cleaned the path; a path that
  ends in a slash ends in an empty segment. An absent header or query parameter is the empty string.
  \<open>hq_id\<close> is the path value \<open>id\<close>, filled in by the multiplexer.
\<close>

record HttpRequest =
  hq_Method :: string
  hq_Path :: "string list"
  hq_header :: "string \<Rightarrow> string"
  hq_query :: "string \<Rightarrow> string"
  hq_body :: string
  hq_ContentLength :: int
  hq_id :: string

record errorBody =
  eb_Code :: string
  eb_RequestID :: string

datatype 'b Body = NoBody | TextBody | ErrorBody errorBody | Json 'b

record 'b Reply =
  rp_Status :: int
  rp_Body :: "'b Body"

record Headers =
  hd_RequestId :: "string option"
  hd_AllowOrigin :: "string option"
  hd_Replay :: bool
  hd_CacheControl :: string

definition no_headers :: Headers where
  "no_headers = \<lparr>hd_RequestId = None, hd_AllowOrigin = None, hd_Replay = False, hd_CacheControl = ''''\<rparr>"

section \<open>Error catalogue\<close>

text \<open>The two codes \<^const>\<open>ParsePage\<close> writes are values of its error type; the others are constants.\<close>

fun page_code :: "page_error \<Rightarrow> string" where
  "page_code CodeValidationFailed = ''validation_failed''"
| "page_code CodeInvalidCursor = ''invalid_cursor''"

declare page_code.simps [simp del]

definition CodeUnauthorized :: string where "CodeUnauthorized = ''unauthorized''"

definition CodeForbidden :: string where "CodeForbidden = ''forbidden''"

definition CodeNotFound :: string where "CodeNotFound = ''not_found''"

definition CodeConflict :: string where "CodeConflict = ''conflict''"

definition CodeIdempotencyConflict :: string where "CodeIdempotencyConflict = ''idempotency_conflict''"

definition CodeUnbalancedTransaction :: string where "CodeUnbalancedTransaction = ''unbalanced_transaction''"

definition CodeInsufficientFunds :: string where "CodeInsufficientFunds = ''insufficient_funds''"

definition CodeRateLimited :: string where "CodeRateLimited = ''rate_limited''"

definition CodeServiceUnavailable :: string where "CodeServiceUnavailable = ''service_unavailable''"

definition CodeInternal :: string where "CodeInternal = ''internal''"

type_synonym refusal = "int \<times> string"

text \<open>The pairs of the table in \<open>docs/errores-api.md\<close>.\<close>

definition catalogue :: "refusal list" where
  "catalogue =
    [(400, page_code CodeValidationFailed), (400, page_code CodeInvalidCursor), (401, CodeUnauthorized),
     (403, CodeForbidden), (404, CodeNotFound), (409, CodeConflict), (409, CodeIdempotencyConflict),
     (422, CodeUnbalancedTransaction), (422, CodeInsufficientFunds), (429, CodeRateLimited),
     (500, CodeInternal), (503, CodeServiceUnavailable)]"

abbreviation bad_request :: refusal where
  "bad_request \<equiv> (400, page_code CodeValidationFailed)"

abbreviation internal_error :: refusal where
  "internal_error \<equiv> (500, CodeInternal)"

text \<open>What an endpoint writes when it succeeds: \<open>w.Header().Set\<close> of the two headers the services use, and \<open>WriteJSON\<close>.\<close>

record 'b answer =
  an_Status :: int
  an_Replay :: bool
  an_CacheControl :: string
  an_Body :: "'b option"

definition answer_json :: "int \<Rightarrow> 'b \<Rightarrow> 'b answer" where
  "answer_json status v = \<lparr>an_Status = status, an_Replay = False, an_CacheControl = '''', an_Body = Some v\<rparr>"

definition WriteJSON :: "int \<Rightarrow> 'b option \<Rightarrow> 'b Reply" where
  "WriteJSON status v = \<lparr>rp_Status = status, rp_Body = (case v of None \<Rightarrow> NoBody | Some b \<Rightarrow> Json b)\<rparr>"

definition WriteError :: "Ctx \<Rightarrow> refusal \<Rightarrow> 'b Reply" where
  "WriteError cx e = \<lparr>rp_Status = fst e, rp_Body = ErrorBody \<lparr>eb_Code = snd e, eb_RequestID = cx_RequestID cx\<rparr>\<rparr>"

section \<open>Request bodies\<close>

datatype json_error =
    MaxBytesError | EOF | UnexpectedEOF | JsonSyntaxError int | UnmarshalTypeError string | JsonUnknownField string | OtherError

datatype decode_error =
    BodyTooLarge | BodyEmpty | BodyTruncated | MalformedAt int | InvalidFieldType string | UnknownField string
  | InvalidBody | TrailingValue

definition MaxBodyBytes :: nat where
  "MaxBodyBytes = 2 ^ 20"

text \<open>
  The JSON decoder of a request type: from the bytes the limited reader lets through, and whether it was cut
  there, to an error or the decoded value and the bytes after it.
\<close>

type_synonym 'a decoder = "string \<Rightarrow> bool \<Rightarrow> json_error + 'a \<times> string"

definition json_space :: "char \<Rightarrow> bool" where
  "json_space c \<longleftrightarrow> c = CHR '' '' \<or> c = CHR 0x09 \<or> c = CHR 0x0A \<or> c = CHR 0x0D"

text \<open>\<open>Decoder.More\<close>: the next byte that is not a space exists and closes no array or object.\<close>

definition More :: "string \<Rightarrow> bool" where
  "More rest = (case dropWhile json_space rest of [] \<Rightarrow> False | c # _ \<Rightarrow> c \<noteq> CHR '']'' \<and> c \<noteq> CHR ''}'')"

fun decode_failure :: "json_error \<Rightarrow> decode_error" where
  "decode_failure MaxBytesError = BodyTooLarge"
| "decode_failure EOF = BodyEmpty"
| "decode_failure UnexpectedEOF = BodyTruncated"
| "decode_failure (JsonSyntaxError offset) = MalformedAt offset"
| "decode_failure (UnmarshalTypeError field) = InvalidFieldType field"
| "decode_failure (JsonUnknownField field) = UnknownField field"
| "decode_failure OtherError = InvalidBody"

definition DecodeJSON :: "'a decoder \<Rightarrow> HttpRequest \<Rightarrow> decode_error + 'a" where
  "DecodeJSON dec r = (case dec (take MaxBodyBytes (hq_body r)) (length (hq_body r) > MaxBodyBytes) of
     Inl e \<Rightarrow> Inl (decode_failure e)
   | Inr (v, rest) \<Rightarrow> if More rest then Inl TrailingValue else Inr v)"

section \<open>Handlers\<close>

type_synonym ('s, 'b) endpoint = "Ctx \<Rightarrow> HttpRequest \<Rightarrow> 's \<Rightarrow> (refusal + 'b answer) \<times> 's"

datatype 'b Outcome = Replied "'b Reply" | Panicked | Diverged

type_synonym ('s, 'b) handler = "Ctx \<Rightarrow> HttpRequest \<Rightarrow> 's \<Rightarrow> Headers \<times> 'b Outcome \<times> 's"

definition write_result :: "(refusal + 'b answer) \<times> 's \<Rightarrow> Ctx \<Rightarrow> Headers \<times> 'b Outcome \<times> 's" where
  "write_result res cx = (case res of
     (Inl e, s') \<Rightarrow> (no_headers, Replied (WriteError cx e), s')
   | (Inr a, s') \<Rightarrow> (no_headers\<lparr>hd_Replay := an_Replay a, hd_CacheControl := an_CacheControl a\<rparr>,
                    Replied (WriteJSON (an_Status a) (an_Body a)), s'))"

definition serve :: "('s, 'b) endpoint \<Rightarrow> ('s, 'b) handler" where
  "serve f cx r s = write_result (f cx r s) cx"

text \<open>
  The steps the endpoints share: reading the body, the path id, an optional UUID of the query and the page.
  Each writes its error and stops the endpoint, or yields a value.
\<close>

record HttpEnv =
  he_uuidParse :: "string \<Rightarrow> uuid option"
  he_uuidString :: "uuid \<Rightarrow> string"
  he_timeParse :: "string \<Rightarrow> timestamp option"
  he_timeFormat :: "timestamp \<Rightarrow> string"

definition read_body :: "'a decoder \<Rightarrow> HttpRequest \<Rightarrow> refusal + 'a" where
  "read_body dec r = (case DecodeJSON dec r of Inl _ \<Rightarrow> Inl bad_request | Inr v \<Rightarrow> Inr v)"

definition parse_id :: "HttpEnv \<Rightarrow> string \<Rightarrow> refusal + uuid" where
  "parse_id e raw = (case he_uuidParse e raw of None \<Rightarrow> Inl bad_request | Some i \<Rightarrow> Inr i)"

definition pathID :: "HttpEnv \<Rightarrow> HttpRequest \<Rightarrow> refusal + uuid" where
  "pathID e r = parse_id e (hq_id r)"

definition optionalUUID :: "HttpEnv \<Rightarrow> string \<Rightarrow> refusal + uuid option" where
  "optionalUUID e raw = (if raw = '''' then Inr None else bindE (parse_id e raw) (\<lambda>i. Inr (Some i)))"

definition read_page :: "HttpEnv \<Rightarrow> HttpRequest \<Rightarrow> refusal + PageRequest" where
  "read_page e r = (case ParsePage (he_timeParse e) (he_uuidParse e) (hq_query r ''limit'') (hq_query r ''cursor'') of
     Inl c \<Rightarrow> Inl (400, page_code c) | Inr p \<Rightarrow> Inr p)"

definition encode_cursor :: "HttpEnv \<Rightarrow> Cursor \<Rightarrow> string" where
  "encode_cursor e = Encode (he_timeFormat e) (he_uuidString e)"

text \<open>\<open>ListResponse\<close>, the uniform collection envelope.\<close>

record 'v ListResponse =
  lr_Data :: "'v list"
  lr_NextCursor :: "string option"

definition window_response :: "HttpEnv \<Rightarrow> ('a \<Rightarrow> Cursor) \<Rightarrow> ('a \<Rightarrow> 'v) \<Rightarrow> PageRequest \<Rightarrow> 'a list \<Rightarrow> 'v ListResponse" where
  "window_response e keyOf view p items =
     (let (rows, next) = Window (encode_cursor e) items (nat (pg_Limit p)) keyOf
      in \<lparr>lr_Data = map view rows, lr_NextCursor = next\<rparr>)"

text \<open>
  The end of an endpoint: the input is read, the use case runs on it, its error is mapped to a status and
  code, its result to an answer.
\<close>

definition respond ::
  "(refusal + 'i) \<Rightarrow> ('i \<Rightarrow> 's \<Rightarrow> ('e + 'a) \<times> 's) \<Rightarrow> ('e \<Rightarrow> refusal) \<Rightarrow> ('i \<Rightarrow> 'a \<Rightarrow> 'b answer) \<Rightarrow> 's \<Rightarrow> (refusal + 'b answer) \<times> 's" where
  "respond input use_case on_error view s = (case input of
     Inl e \<Rightarrow> (Inl e, s)
   | Inr i \<Rightarrow> (case use_case i s of
       (Inl e, s') \<Rightarrow> (Inl (on_error e), s')
     | (Inr x, s') \<Rightarrow> (Inr (view i x), s')))"

section \<open>Middlewares\<close>

definition RequestIDHeader :: string where
  "RequestIDHeader = ''X-Request-Id''"

definition newRequestID :: "bytes option \<Rightarrow> string \<Rightarrow> string" where
  "newRequestID rand uuidNew = (case rand of
     None \<Rightarrow> uuidNew
   | Some bs \<Rightarrow> concat (map (\<lambda>b. [hex_digit (unat b div 16), hex_digit (unat b mod 16)]) bs))"

definition RequestID :: "string \<Rightarrow> ('s, 'b) handler \<Rightarrow> ('s, 'b) handler" where
  "RequestID fresh h cx r s =
     (let x = hq_header r RequestIDHeader;
          i = (if x = '''' \<or> length x > 128 then fresh else x);
          (hs, rp, s') = h (cx\<lparr>cx_RequestID := i\<rparr>) r s
      in (hs\<lparr>hd_RequestId := Some i\<rparr>, rp, s'))"

definition Recover :: "('s, 'b) handler \<Rightarrow> ('s, 'b) handler" where
  "Recover h cx r s = (case h cx r s of
     (hs, Panicked, s') \<Rightarrow> (hs, Replied (WriteError cx internal_error), s')
   | other \<Rightarrow> other)"

definition CORSDev :: "('s, 'b) handler \<Rightarrow> ('s, 'b) handler" where
  "CORSDev h cx r s =
     (let origin = hq_header r ''Origin'';
          cors = (\<lambda>hs. if origin \<noteq> '''' then hs\<lparr>hd_AllowOrigin := Some origin\<rparr> else hs)
      in if hq_Method r = ''OPTIONS'' then (cors no_headers, Replied (WriteJSON 204 None), s)
         else let (hs, rp, s') = h cx r s in (cors hs, rp, s'))"

definition scoped :: "string \<Rightarrow> ('s, 'b) endpoint \<Rightarrow> ('s, 'b) endpoint" where
  "scoped scope f cx r s = (case RequireScope scope (cx_Claims cx) of Inl e \<Rightarrow> (Inl e, s) | Inr _ \<Rightarrow> f cx r s)"

text \<open>\<open>RequireAuthConfig\<close> as a middleware, over the state of the service and the key cache.\<close>

definition auth_request :: "HttpRequest \<Rightarrow> AuthRequest" where
  "auth_request r = \<lparr>rq_XTenantId = hq_header r ''X-Tenant-Id'', rq_Authorization = hq_header r ''Authorization''\<rparr>"

definition authenticated :: "IdentEnv \<Rightarrow> AuthConfig \<Rightarrow> ('s, 'b) handler \<Rightarrow> ('s \<times> jwksCache, 'b) handler" where
  "authenticated env cfg h cx r sc = (case sc of (s, c) \<Rightarrow>
     (case RequireAuthConfig env cfg (auth_request r) c of
        (Inl e, c') \<Rightarrow> (no_headers, Replied (WriteError cx e), (s, c'))
      | (Inr claims, c') \<Rightarrow> (case h (cx\<lparr>cx_Claims := Some claims\<rparr>) r s of (hs, rp, s') \<Rightarrow> (hs, rp, (s', c')))))"

section \<open>Routing\<close>

datatype seg = Lit string | Wild

type_synonym ('s, 'b) route = "string \<times> seg list \<times> ('s, 'b) handler"

text \<open>A wildcard matches one non-empty segment; the result is the segment of the (only) wildcard, \<open>id\<close>.\<close>

fun match_path :: "seg list \<Rightarrow> string list \<Rightarrow> string option" where
  "match_path [] [] = Some ''''"
| "match_path (Lit l # ps) (x # xs) = (if x = l then match_path ps xs else None)"
| "match_path (Wild # ps) (x # xs) = (if x = '''' then None else map_option (\<lambda>_. x) (match_path ps xs))"
| "match_path _ _ = None"

definition match_method :: "string \<Rightarrow> string \<Rightarrow> bool" where
  "match_method m pattern \<longleftrightarrow> m = pattern \<or> pattern = ''GET'' \<and> m = ''HEAD''"

text \<open>The patterns of a service never overlap, so the first that matches is the only one.\<close>

fun mux :: "('s, 'b) route list \<Rightarrow> bool \<Rightarrow> ('s, 'b) handler" where
  "mux [] other cx r s = (no_headers, Replied \<lparr>rp_Status = (if other then 405 else 404), rp_Body = TextBody\<rparr>, s)"
| "mux ((m, p, f) # rs) other cx r s = (case match_path p (hq_Path r) of
     None \<Rightarrow> mux rs other cx r s
   | Some x \<Rightarrow> if match_method (hq_Method r) m then f cx (r\<lparr>hq_id := x\<rparr>) s else mux rs True cx r s)"

text \<open>
  The outer multiplexer of the three tenant services: the two probes, and everything under \<open>/v1/\<close> behind the
  authentication. \<open>ping\<close> tells whether the database answers; \<open>status\<close> makes the body of a probe.
\<close>

definition probes :: "(string \<Rightarrow> 'b) \<Rightarrow> string \<Rightarrow> bool \<Rightarrow> ('s, 'b) route list" where
  "probes status ready ping =
     [(''GET'', [Lit ''healthz''], serve (\<lambda>cx r s. (Inr (answer_json 200 (status ''ok'')), s))),
      (''GET'', [Lit ''readyz''], serve (\<lambda>cx r s.
         (if \<not> ping then Inl (503, CodeServiceUnavailable) else Inr (answer_json 200 (status ready)), s)))]"

definition root_mux ::
  "(string \<Rightarrow> 'b) \<Rightarrow> string \<Rightarrow> bool \<Rightarrow> ('s, 'b) handler \<Rightarrow> ('s, 'b) handler" where
  "root_mux status ready ping api cx r s =
     (if take 1 (hq_Path r) = [''v1''] \<and> length (hq_Path r) > 1 then api cx r s
      else if hq_Path r = [''v1''] then (no_headers, Replied \<lparr>rp_Status = 307, rp_Body = TextBody\<rparr>, s)
      else mux (probes status ready ping) False cx r s)"

definition v1 :: "seg list \<Rightarrow> seg list" where
  "v1 p = Lit ''v1'' # p"

definition service_auth :: "bool \<Rightarrow> string \<Rightarrow> AuthConfig" where
  "service_auth authDisabled audience = \<lparr>ac_AuthDisabled = authDisabled, ac_ExpectedIssuer = DefaultIssuer,
     ac_ExpectedAudience = audience, ac_ClockSkew = 0\<rparr>"

end
