(* ===== verification/Ledger_Http.thy ===== *)
theory Ledger_Http
  imports Http Ledger_Reports
begin

text \<open>
  The HTTP adapter of the ledger, \<open>services/ledger-core/internal/adapters/http\<close>: the wire views of
  \<open>views.go\<close>, the handlers of \<open>handlers.go\<close> as endpoints over the database, and the router of \<open>router.go\<close>
  with its scopes and middlewares. Amounts are decimal texts of minor units, as on the wire; a field the JSON
  encoder omits when empty is the empty string here.
\<close>

section \<open>Views\<close>

record moneyView =
  mv_Asset :: string
  mv_Amount :: string

definition FormatInt :: "int64 \<Rightarrow> string" where
  "FormatInt u = show_int (sint u)"

definition newMoneyView :: "Amount \<Rightarrow> moneyView" where
  "newMoneyView a = \<lparr>mv_Asset = Asset a, mv_Amount = FormatInt (Units a)\<rparr>"

record moneyBody =
  mb_Asset :: string
  mb_Amount :: string

definition toAmount :: "moneyBody \<Rightarrow> Amount option" where
  "toAmount m = (case ParseInt (TrimSpace (mb_Amount m)) of
     None \<Rightarrow> None | Some u \<Rightarrow> Some \<lparr>Asset = mb_Asset m, Units = u\<rparr>)"

definition normalBalanceOut :: "string \<Rightarrow> string" where
  "normalBalanceOut nb = (if nb = NormalDebit then DirectionDebit else DirectionCredit)"

definition normalBalanceIn :: "string \<Rightarrow> string option" where
  "normalBalanceIn s = (if to_upper s = DirectionDebit then Some NormalDebit
     else if to_upper s = DirectionCredit then Some NormalCredit else None)"

definition orEmpty :: "metadata \<Rightarrow> (string \<times> string) list" where
  "orEmpty m = (case m of None \<Rightarrow> [] | Some kvs \<Rightarrow> kvs)"

record ledgerView =
  lv_ID :: uuid
  lv_Name :: string
  lv_Description :: string
  lv_Environment :: string
  lv_Metadata :: "(string \<times> string) list"
  lv_CreatedAt :: timestamp

definition newLedgerView :: "Ledger \<Rightarrow> ledgerView" where
  "newLedgerView l = \<lparr>lv_ID = l_ID l, lv_Name = l_Name l, lv_Description = l_Description l,
     lv_Environment = l_Environment l, lv_Metadata = orEmpty (l_Metadata l), lv_CreatedAt = l_CreatedAt l\<rparr>"

record accountView =
  av_ID :: uuid
  av_LedgerID :: uuid
  av_Name :: string
  av_Type :: string
  av_NormalBalance :: string
  av_Status :: string
  av_Metadata :: "(string \<times> string) list"
  av_CreatedAt :: timestamp

definition newAccountView :: "Account \<Rightarrow> accountView" where
  "newAccountView a = \<lparr>av_ID = a_ID a, av_LedgerID = a_LedgerID a, av_Name = a_Name a, av_Type = a_Type a,
     av_NormalBalance = normalBalanceOut (a_NormalBalance a), av_Status = a_Status a,
     av_Metadata = orEmpty (a_Metadata a), av_CreatedAt = a_CreatedAt a\<rparr>"

record balanceView =
  bv_Asset :: string
  bv_Exponent :: int
  bv_Posted :: string
  bv_Pending :: string
  bv_Available :: string
  bv_Held :: string
  bv_Debits :: string
  bv_Credits :: string
  bv_Version :: int64

definition newBalanceView :: "Balance \<Rightarrow> string \<Rightarrow> balanceView" where
  "newBalanceView b nb = \<lparr>bv_Asset = b_Asset b, bv_Exponent = AssetExponent (b_Asset b),
     bv_Posted = FormatInt (PostedNet b nb), bv_Pending = FormatInt (PendingNet b nb),
     bv_Available = FormatInt (Available b nb), bv_Held = FormatInt (b_Held b),
     bv_Debits = FormatInt (b_PostedDebits b), bv_Credits = FormatInt (b_PostedCredits b), bv_Version = b_Version b\<rparr>"

record postingView =
  pv_ID :: uuid
  pv_AccountID :: uuid
  pv_Direction :: string
  pv_Amount :: moneyView

record transactionView =
  tv_ID :: uuid
  tv_LedgerID :: uuid
  tv_IdempotencyKey :: string
  tv_Reference :: string
  tv_Description :: string
  tv_Status :: string
  tv_Postings :: "postingView list"
  tv_Metadata :: "(string \<times> string) list"
  tv_ReversedBy :: "uuid option"
  tv_Reverses :: "uuid option"
  tv_EffectiveAt :: timestamp
  tv_CreatedAt :: timestamp
  tv_PostedAt :: "timestamp option"

definition newTransactionView :: "Transaction \<Rightarrow> transactionView" where
  "newTransactionView t = \<lparr>tv_ID = t_ID t, tv_LedgerID = t_LedgerID t, tv_IdempotencyKey = t_IdempotencyKey t,
     tv_Reference = t_Reference t, tv_Description = t_Description t, tv_Status = t_Status t,
     tv_Postings = map (\<lambda>p. \<lparr>pv_ID = p_ID p, pv_AccountID = p_AccountID p, pv_Direction = p_Direction p,
        pv_Amount = newMoneyView (p_Amount p)\<rparr>) (t_Postings t),
     tv_Metadata = orEmpty (t_Metadata t), tv_ReversedBy = t_ReversedByID t, tv_Reverses = t_ReversesID t,
     tv_EffectiveAt = t_EffectiveAt t, tv_CreatedAt = t_CreatedAt t, tv_PostedAt = t_PostedAt t\<rparr>"

record entryView =
  ev_ID :: uuid
  ev_TransactionID :: uuid
  ev_AccountID :: uuid
  ev_Direction :: string
  ev_Amount :: moneyView
  ev_CreatedAt :: timestamp

definition newEntryView :: "Entry \<Rightarrow> entryView" where
  "newEntryView e = \<lparr>ev_ID = e_ID e, ev_TransactionID = e_TransactionID e, ev_AccountID = e_AccountID e,
     ev_Direction = e_Direction e, ev_Amount = newMoneyView (e_Amount e), ev_CreatedAt = e_CreatedAt e\<rparr>"

record holdView =
  hv_ID :: uuid
  hv_LedgerID :: uuid
  hv_AccountID :: uuid
  hv_IdempotencyKey :: string
  hv_Amount :: moneyView
  hv_Status :: string
  hv_TransactionID :: "uuid option"
  hv_ExpiresAt :: timestamp
  hv_Metadata :: "(string \<times> string) list"
  hv_CreatedAt :: timestamp

definition newHoldView :: "Hold \<Rightarrow> holdView" where
  "newHoldView h = \<lparr>hv_ID = h_ID h, hv_LedgerID = h_LedgerID h, hv_AccountID = h_AccountID h,
     hv_IdempotencyKey = h_IdempotencyKey h, hv_Amount = newMoneyView (h_Amount h), hv_Status = h_Status h,
     hv_TransactionID = h_CapturedTransactionID h, hv_ExpiresAt = h_ExpiresAt h,
     hv_Metadata = orEmpty (h_Metadata h), hv_CreatedAt = h_CreatedAt h\<rparr>"

record trialBalanceRowView =
  rv_AccountID :: uuid
  rv_AccountName :: string
  rv_AccountType :: string
  rv_Asset :: string
  rv_Debits :: string
  rv_Credits :: string
  rv_Net :: string

record trialBalanceTotalView =
  tt_Asset :: string
  tt_Debits :: string
  tt_Credits :: string
  tt_Balanced :: bool

record trialBalanceView =
  tbv_LedgerID :: uuid
  tbv_AsOf :: timestamp
  tbv_Rows :: "trialBalanceRowView list"
  tbv_Totals :: "trialBalanceTotalView list"

definition newTrialBalanceView :: "TrialBalanceReport \<Rightarrow> trialBalanceView" where
  "newTrialBalanceView tb = \<lparr>tbv_LedgerID = tb_LedgerID tb, tbv_AsOf = tb_AsOf tb,
     tbv_Rows = map (\<lambda>r. \<lparr>rv_AccountID = tbr_AccountID r, rv_AccountName = tbr_AccountName r,
        rv_AccountType = tbr_AccountType r, rv_Asset = tbr_Asset r, rv_Debits = FormatInt (tbr_Debits r),
        rv_Credits = FormatInt (tbr_Credits r), rv_Net = FormatInt (tbr_Debits r - tbr_Credits r)\<rparr>) (tb_Rows tb),
     tbv_Totals = map (\<lambda>t. \<lparr>tt_Asset = tbt_Asset t, tt_Debits = FormatInt (tbt_Debits t),
        tt_Credits = FormatInt (tbt_Credits t), tt_Balanced = tbt_Balanced t\<rparr>) (tb_Totals tb)\<rparr>"

record assetBalanceView =
  abv_Asset :: string
  abv_Exponent :: int
  abv_Amount :: string

definition newAssetBalanceViews :: "AssetBalance list \<Rightarrow> assetBalanceView list" where
  "newAssetBalanceViews bs = map (\<lambda>b. \<lparr>abv_Asset = ab_Asset b, abv_Exponent = AssetExponent (ab_Asset b),
     abv_Amount = FormatInt (ab_Units b)\<rparr>) bs"

record statementEntryView =
  sev_ID :: uuid
  sev_TransactionID :: uuid
  sev_Reference :: string
  sev_Direction :: string
  sev_Amount :: moneyView
  sev_EffectiveAt :: timestamp
  sev_RunningBalance :: string

record statementView =
  sv_Account :: accountView
  sv_From :: timestamp
  sv_To :: timestamp
  sv_Opening :: "assetBalanceView list"
  sv_Entries :: "statementEntryView list"
  sv_Closing :: "assetBalanceView list"
  sv_NextCursor :: "string option"

definition statement_entry_view :: "StatementEntry \<Rightarrow> statementEntryView" where
  "statement_entry_view x = \<lparr>sev_ID = se_PostingID x, sev_TransactionID = se_TransactionID x,
     sev_Reference = se_Reference x, sev_Direction = se_Direction x, sev_Amount = newMoneyView (se_Amount x),
     sev_EffectiveAt = se_EffectiveAt x, sev_RunningBalance = FormatInt (se_Running x)\<rparr>"

definition newStatementView :: "HttpEnv \<Rightarrow> StatementReport \<Rightarrow> nat \<Rightarrow> statementView" where
  "newStatementView e st limit =
     (let (entries, next) = Window (encode_cursor e) (st_Entries st) limit
            (\<lambda>x. \<lparr>c_CreatedAt = se_EffectiveAt x, c_ID = se_PostingID x\<rparr>)
      in \<lparr>sv_Account = newAccountView (st_Account st), sv_From = st_From st, sv_To = st_To st,
          sv_Opening = newAssetBalanceViews (st_Opening st), sv_Entries = map statement_entry_view entries,
          sv_Closing = newAssetBalanceViews (st_Closing st), sv_NextCursor = next\<rparr>)"

definition positionDirection :: "int64 \<Rightarrow> string" where
  "positionDirection net = (if sint net > 0 then ''they_owe_us'' else if sint net < 0 then ''we_owe_them'' else ''flat'')"

record providerAssetPositionView =
  ppv_Asset :: string
  ppv_Exponent :: int
  ppv_Net :: string
  ppv_Direction :: string
  ppv_Accounts :: "uuid list"


record providerPositionView =
  ppw_Provider :: string
  ppw_Positions :: "providerAssetPositionView list"

record providerPositionsResponse =
  ppr_Data :: "providerPositionView list"
  ppr_Hint :: string

definition providerPositionsHint :: string where
  "providerPositionsHint = ''no provider accounts found: name accounts as '' @
     ''assets:provider:<name>:... (or liabilities:provider:<name>:...) or set metadata.provider on the account''"

definition newProviderPositionsView :: "ProviderPosition list \<Rightarrow> providerPositionsResponse" where
  "newProviderPositionsView ps = \<lparr>ppr_Data = map (\<lambda>p. \<lparr>ppw_Provider = pp_Provider p,
       ppw_Positions = map (\<lambda>x. \<lparr>ppv_Asset = pap_Asset x, ppv_Exponent = AssetExponent (pap_Asset x), ppv_Net = FormatInt (pap_Net x),
         ppv_Direction = positionDirection (pap_Net x), ppv_Accounts = pap_Accounts x\<rparr>) (pp_Positions p)\<rparr>) ps,
     ppr_Hint = (if ps = [] then providerPositionsHint else '''')\<rparr>"

section \<open>Requests\<close>

record createLedgerRequest =
  clr_Name :: string
  clr_Description :: string
  clr_Metadata :: metadata

record createAccountRequest =
  car_LedgerID :: uuid
  car_Name :: string
  car_Type :: string
  car_NormalBalance :: string
  car_Metadata :: metadata

record postingRequest =
  psr_AccountID :: uuid
  psr_Direction :: string
  psr_Amount :: moneyBody

record createTransactionRequest =
  ctr_LedgerID :: uuid
  ctr_IdempotencyKey :: string
  ctr_Reference :: string
  ctr_Description :: string
  ctr_Status :: string
  ctr_EffectiveAt :: "timestamp option"
  ctr_Metadata :: metadata
  ctr_Postings :: "postingRequest list"

record reverseTransactionRequest =
  rtr_IdempotencyKey :: string
  rtr_Reason :: string

record createHoldRequest =
  chr_LedgerID :: "uuid option"
  chr_AccountID :: uuid
  chr_IdempotencyKey :: string
  chr_Amount :: moneyBody
  chr_ExpiresAt :: "timestamp option"
  chr_Metadata :: metadata

record captureHoldRequest =
  cpr_Amount :: "moneyBody option"
  cpr_TransactionID :: "uuid option"

datatype ledger_body =
    StatusBody string
  | LedgerBody ledgerView | LedgersBody "ledgerView ListResponse"
  | AccountBody accountView | AccountsBody "accountView ListResponse" | BalancesBody "balanceView list"
  | EntriesBody "entryView ListResponse"
  | TransactionBody transactionView | TransactionsBody "transactionView ListResponse"
  | HoldBody holdView
  | TrialBalanceBody trialBalanceView | StatementBody statementView | ProviderPositionsBody providerPositionsResponse

text \<open>
  What a request needs from outside: the environment of the use cases with the databases its stale lookups
  see (\<open>Ledger_Service\<close>), the collation, the layout \<open>time.RFC3339\<close>, and the JSON decoder of each request type.
\<close>

record LedgerHttp =
  lh_http :: HttpEnv
  lh_env :: Env
  lh_dl :: Db
  lh_dr :: Db
  lh_ck :: "string \<Rightarrow> string"
  lh_rfc3339 :: "string \<Rightarrow> timestamp option"
  lh_ledger :: "createLedgerRequest decoder"
  lh_account :: "createAccountRequest decoder"
  lh_transaction :: "createTransactionRequest decoder"
  lh_reverse :: "reverseTransactionRequest decoder"
  lh_hold :: "createHoldRequest decoder"
  lh_capture :: "captureHoldRequest decoder"

type_synonym ledger_endpoint = "LedgerHttp \<Rightarrow> (Db, ledger_body) endpoint"

section \<open>Helpers\<close>

definition tenant :: "Ctx \<Rightarrow> refusal + uuid" where
  "tenant cx = (case TenantFromContext (cx_Claims cx) of
     None \<Rightarrow> Inl (401, CodeUnauthorized)
   | Some i \<Rightarrow> if i = uuid_Nil then Inl (401, CodeUnauthorized) else Inr i)"

text \<open>\<open>writeErr\<close>: an error that is none of the known ones is opaque.\<close>

definition writeErr :: "error \<Rightarrow> refusal" where
  "writeErr e = (case e of
     ErrNotFound \<Rightarrow> (404, CodeNotFound)
   | ErrIdempotencyConflict \<Rightarrow> (409, CodeIdempotencyConflict)
   | ErrConflict \<Rightarrow> (409, CodeConflict)
   | ErrInvalidState \<Rightarrow> (409, CodeConflict)
   | ErrInsufficientFunds \<Rightarrow> (422, CodeInsufficientFunds)
   | ErrUnbalanced \<Rightarrow> (422, CodeUnbalancedTransaction)
   | MoneyError m \<Rightarrow> (if m = ErrOverflow then (422, CodeUnbalancedTransaction)
                     else if m = ErrInvalidAsset then bad_request else internal_error)
   | ErrTooFewPostings \<Rightarrow> bad_request
   | ErrNonPositiveAmount \<Rightarrow> bad_request
   | ErrInvalidDirection \<Rightarrow> bad_request
   | ErrValidation \<Rightarrow> bad_request
   | _ \<Rightarrow> internal_error)"

text \<open>\<open>parsePage\<close>: the page the store is asked for, with one row more, and the size shown to the client.\<close>

definition parsePage :: "LedgerHttp \<Rightarrow> HttpRequest \<Rightarrow> refusal + (Cursor \<times> int) \<times> PageRequest" where
  "parsePage e r = bindE (read_page (lh_http e) r) (\<lambda>p. Inr ((pg_Cursor p, FetchLimit p), p))"

definition created_or_replayed :: "bool \<Rightarrow> 'b \<Rightarrow> 'b answer" where
  "created_or_replayed replayed v = \<lparr>an_Status = (if replayed then 200 else 201), an_Replay = replayed, an_CacheControl = '''', an_Body = Some v\<rparr>"

definition key_or_header :: "string \<Rightarrow> HttpRequest \<Rightarrow> string" where
  "key_or_header key r = (if key = '''' then hq_header r ''Idempotency-Key'' else key)"

definition optional_body :: "'a \<Rightarrow> 'a decoder \<Rightarrow> HttpRequest \<Rightarrow> refusal + 'a" where
  "optional_body zero dec r = (if hq_ContentLength r \<noteq> 0 then read_body dec r else Inr zero)"

definition optionalTime :: "LedgerHttp \<Rightarrow> string \<Rightarrow> refusal + timestamp" where
  "optionalTime e raw = (if raw = '''' then Inr zeroTime
     else case lh_rfc3339 e raw of None \<Rightarrow> Inl bad_request | Some t \<Rightarrow> Inr t)"

section \<open>Ledgers\<close>

definition createLedger :: ledger_endpoint where
  "createLedger e cx r = respond
     (bindE (tenant cx) (\<lambda>tn. bindE (read_body (lh_ledger e) r) (\<lambda>req. Inr (tn,
        \<lparr>cli_Name = clr_Name req, cli_Description = clr_Description req,
         cli_Environment = (case cx_Claims cx of None \<Rightarrow> '''' | Some c \<Rightarrow> cl_Environment c),
         cli_Metadata = clr_Metadata req\<rparr>))))
     (\<lambda>(tn, inp). CreateLedger (lh_env e) tn inp) writeErr
     (\<lambda>_ l. answer_json 201 (LedgerBody (newLedgerView l)))"

definition listLedgers :: ledger_endpoint where
  "listLedgers e cx r = respond
     (bindE (tenant cx) (\<lambda>tn. bindE (parsePage e r) (\<lambda>page. Inr (tn, page))))
     (\<lambda>(tn, (cursor, limit), _). store_ListLedgers tn cursor limit) writeErr
     (\<lambda>(_, _, p) ls. answer_json 200 (LedgersBody (window_response (lh_http e)
        (\<lambda>l. \<lparr>c_CreatedAt = l_CreatedAt l, c_ID = l_ID l\<rparr>) newLedgerView p ls)))"

definition getLedger :: ledger_endpoint where
  "getLedger e cx r = respond
     (bindE (tenant cx) (\<lambda>tn. bindE (pathID (lh_http e) r) (\<lambda>i. Inr (tn, i))))
     (\<lambda>(tn, i). store_GetLedger tn i) writeErr
     (\<lambda>_ l. answer_json 200 (LedgerBody (newLedgerView l)))"

section \<open>Accounts\<close>

definition createAccount :: ledger_endpoint where
  "createAccount e cx r = respond
     (bindE (tenant cx) (\<lambda>tn. bindE (read_body (lh_account e) r) (\<lambda>req.
        case normalBalanceIn (car_NormalBalance req) of
          None \<Rightarrow> Inl bad_request
        | Some nb \<Rightarrow> Inr (tn, \<lparr>cai_LedgerID = car_LedgerID req, cai_Name = car_Name req,
             cai_Type = to_lower (car_Type req), cai_NormalBalance = nb, cai_Metadata = car_Metadata req\<rparr>))))
     (\<lambda>(tn, inp). CreateAccount (lh_env e) tn inp) writeErr
     (\<lambda>_ a. answer_json 201 (AccountBody (newAccountView a)))"

definition account_filter :: "HttpRequest \<Rightarrow> refusal + string option" where
  "account_filter r = (let raw = hq_query r ''type'' in
     if raw = '''' then Inr None
     else if \<not> AccountType_Valid (to_lower raw) then Inl bad_request else Inr (Some (to_lower raw)))"

definition listAccounts :: ledger_endpoint where
  "listAccounts e cx r = respond
     (bindE (tenant cx) (\<lambda>tn. bindE (parsePage e r) (\<lambda>page.
      bindE (optionalUUID (lh_http e) (hq_query r ''ledger_id'')) (\<lambda>ledgerID.
      bindE (account_filter r) (\<lambda>typ. Inr (tn, page, ledgerID, typ))))))
     (\<lambda>(tn, ((cursor, limit), _), ledgerID, typ). store_ListAccounts tn ledgerID typ cursor limit) writeErr
     (\<lambda>(_, (_, p), _) xs. answer_json 200 (AccountsBody (window_response (lh_http e)
        (\<lambda>a. \<lparr>c_CreatedAt = a_CreatedAt a, c_ID = a_ID a\<rparr>) newAccountView p xs)))"

definition getAccount :: ledger_endpoint where
  "getAccount e cx r = respond
     (bindE (tenant cx) (\<lambda>tn. bindE (pathID (lh_http e) r) (\<lambda>i. Inr (tn, i))))
     (\<lambda>(tn, i). store_GetAccount tn i) writeErr
     (\<lambda>_ a. answer_json 200 (AccountBody (newAccountView a)))"

definition getBalances :: ledger_endpoint where
  "getBalances e cx r = respond
     (bindE (tenant cx) (\<lambda>tn. bindE (pathID (lh_http e) r) (\<lambda>i. Inr (tn, i))))
     (\<lambda>(tn, i). store_GetBalances (lh_ck e) tn i) writeErr
     (\<lambda>_ (a, bs). answer_json 200 (BalancesBody (map (\<lambda>b. newBalanceView b (a_NormalBalance a)) bs)))"

definition listEntries :: ledger_endpoint where
  "listEntries e cx r = respond
     (bindE (tenant cx) (\<lambda>tn. bindE (pathID (lh_http e) r) (\<lambda>i. bindE (parsePage e r) (\<lambda>page. Inr (tn, i, page)))))
     (\<lambda>(tn, i, (cursor, limit), _). ListEntries tn i (hq_query r ''asset'') cursor limit) writeErr
     (\<lambda>(_, _, _, p) xs. answer_json 200 (EntriesBody (window_response (lh_http e)
        (\<lambda>x. \<lparr>c_CreatedAt = e_CreatedAt x, c_ID = e_ID x\<rparr>) newEntryView p xs)))"


section \<open>Transactions\<close>

fun posting_inputs :: "postingRequest list \<Rightarrow> refusal + PostingInput list" where
  "posting_inputs [] = Inr []"
| "posting_inputs (p # ps) = (case toAmount (psr_Amount p) of
     None \<Rightarrow> Inl bad_request
   | Some amount \<Rightarrow> bindE (posting_inputs ps) (\<lambda>qs. Inr (\<lparr>pin_AccountID = psr_AccountID p,
       pin_Direction = to_upper (psr_Direction p), pin_Amount = amount\<rparr> # qs)))"

definition transaction_input :: "HttpRequest \<Rightarrow> createTransactionRequest \<Rightarrow> refusal + CreateTransactionInput" where
  "transaction_input r req = bindE (posting_inputs (ctr_Postings req)) (\<lambda>ps. Inr
     \<lparr>cti_LedgerID = ctr_LedgerID req, cti_IdempotencyKey = key_or_header (ctr_IdempotencyKey req) r,
      cti_Reference = ctr_Reference req, cti_Description = ctr_Description req, cti_Status = ctr_Status req,
      cti_EffectiveAt = ctr_EffectiveAt req, cti_Metadata = ctr_Metadata req, cti_Postings = ps\<rparr>)"

definition createTransaction :: ledger_endpoint where
  "createTransaction e cx r = respond
     (bindE (tenant cx) (\<lambda>tn. bindE (read_body (lh_transaction e) r) (\<lambda>req.
      bindE (transaction_input r req) (\<lambda>inp. Inr (tn, inp)))))
     (\<lambda>(tn, inp). CreateTransaction (lh_env e) (lh_dl e) (lh_dr e) tn inp) writeErr
     (\<lambda>_ (t, replayed). created_or_replayed replayed (TransactionBody (newTransactionView t)))"

definition transaction_filter :: "HttpRequest \<Rightarrow> refusal + string option" where
  "transaction_filter r = (let raw = hq_query r ''status''; s = to_lower raw in
     if raw = '''' then Inr None
     else if s \<noteq> TransactionDraft \<and> s \<noteq> TransactionPosted \<and> s \<noteq> TransactionReversed then Inl bad_request
     else Inr (Some s))"

definition listTransactions :: ledger_endpoint where
  "listTransactions e cx r = respond
     (bindE (tenant cx) (\<lambda>tn. bindE (parsePage e r) (\<lambda>page.
      bindE (optionalUUID (lh_http e) (hq_query r ''ledger_id'')) (\<lambda>ledgerID.
      bindE (transaction_filter r) (\<lambda>status. Inr (tn, page, ledgerID, status))))))
     (\<lambda>(tn, ((cursor, limit), _), ledgerID, status). store_ListTransactions tn ledgerID status cursor limit) writeErr
     (\<lambda>(_, (_, p), _) xs. answer_json 200 (TransactionsBody (window_response (lh_http e)
        (\<lambda>t. \<lparr>c_CreatedAt = t_CreatedAt t, c_ID = t_ID t\<rparr>) newTransactionView p xs)))"

definition getTransaction :: ledger_endpoint where
  "getTransaction e cx r = respond
     (bindE (tenant cx) (\<lambda>tn. bindE (pathID (lh_http e) r) (\<lambda>i. Inr (tn, i))))
     (\<lambda>(tn, i). store_GetTransaction tn i) writeErr
     (\<lambda>_ t. answer_json 200 (TransactionBody (newTransactionView t)))"

definition postTransaction :: ledger_endpoint where
  "postTransaction e cx r = respond
     (bindE (tenant cx) (\<lambda>tn. bindE (pathID (lh_http e) r) (\<lambda>i. Inr (tn, i))))
     (\<lambda>(tn, i). PostTransaction (lh_env e) tn i) writeErr
     (\<lambda>_ t. answer_json 200 (TransactionBody (newTransactionView t)))"

definition reverseTransaction :: ledger_endpoint where
  "reverseTransaction e cx r = respond
     (bindE (tenant cx) (\<lambda>tn. bindE (pathID (lh_http e) r) (\<lambda>i.
      bindE (optional_body \<lparr>rtr_IdempotencyKey = '''', rtr_Reason = ''''\<rparr> (lh_reverse e) r) (\<lambda>req. Inr (tn, i, req)))))
     (\<lambda>(tn, i, req). ReverseTransaction (lh_env e) (lh_dl e) (lh_dr e) tn i
        (key_or_header (rtr_IdempotencyKey req) r) (rtr_Reason req)) writeErr
     (\<lambda>_ (t, replayed). created_or_replayed replayed (TransactionBody (newTransactionView t)))"

section \<open>Holds\<close>

definition hold_input :: "createHoldRequest \<Rightarrow> refusal + CreateHoldInput" where
  "hold_input req = (case toAmount (chr_Amount req) of
     None \<Rightarrow> Inl bad_request
   | Some amount \<Rightarrow> Inr \<lparr>chi_AccountID = chr_AccountID req,
       chi_LedgerID = (case chr_LedgerID req of None \<Rightarrow> uuid_Nil | Some i \<Rightarrow> i),
       chi_IdempotencyKey = chr_IdempotencyKey req, chi_Amount = amount, chi_ExpiresAt = chr_ExpiresAt req,
       chi_Metadata = chr_Metadata req\<rparr>)"

definition createHold :: ledger_endpoint where
  "createHold e cx r = respond
     (bindE (tenant cx) (\<lambda>tn. bindE (read_body (lh_hold e) r) (\<lambda>req. bindE (hold_input req) (\<lambda>inp. Inr (tn, inp)))))
     (\<lambda>(tn, inp). CreateHold (lh_env e) (lh_dl e) (lh_dr e) tn inp) writeErr
     (\<lambda>_ (h, replayed). created_or_replayed replayed (HoldBody (newHoldView h)))"

definition getHold :: ledger_endpoint where
  "getHold e cx r = respond
     (bindE (tenant cx) (\<lambda>tn. bindE (pathID (lh_http e) r) (\<lambda>i. Inr (tn, i))))
     (\<lambda>(tn, i). store_GetHold tn i) writeErr
     (\<lambda>_ h. answer_json 200 (HoldBody (newHoldView h)))"

definition capture_amount :: "captureHoldRequest \<Rightarrow> refusal + Amount option" where
  "capture_amount req = (case cpr_Amount req of
     None \<Rightarrow> Inr None
   | Some m \<Rightarrow> (case toAmount m of None \<Rightarrow> Inl bad_request | Some amount \<Rightarrow> Inr (Some amount)))"

definition captureHold :: ledger_endpoint where
  "captureHold e cx r = respond
     (bindE (tenant cx) (\<lambda>tn. bindE (pathID (lh_http e) r) (\<lambda>i.
      bindE (optional_body \<lparr>cpr_Amount = None, cpr_TransactionID = None\<rparr> (lh_capture e) r) (\<lambda>req.
      bindE (capture_amount req) (\<lambda>amount. Inr (tn, i, amount, cpr_TransactionID req))))))
     (\<lambda>(tn, i, amount, tx). CaptureHold (lh_env e) tn i amount tx) writeErr
     (\<lambda>_ h. answer_json 200 (HoldBody (newHoldView h)))"

definition releaseHold :: ledger_endpoint where
  "releaseHold e cx r = respond
     (bindE (tenant cx) (\<lambda>tn. bindE (pathID (lh_http e) r) (\<lambda>i. Inr (tn, i))))
     (\<lambda>(tn, i). ReleaseHold (lh_env e) tn i) writeErr
     (\<lambda>_ h. answer_json 200 (HoldBody (newHoldView h)))"

section \<open>Reports\<close>

definition trialBalance :: ledger_endpoint where
  "trialBalance e cx r = respond
     (bindE (tenant cx) (\<lambda>tn. bindE (parse_id (lh_http e) (hq_query r ''ledger_id'')) (\<lambda>ledgerID.
      bindE (optionalTime e (hq_query r ''as_of'')) (\<lambda>t. Inr (tn, ledgerID, if t = zeroTime then None else Some t)))))
     (\<lambda>(tn, ledgerID, asOf). store_TrialBalance (lh_ck e) tn ledgerID asOf (ev_wall (lh_env e))) writeErr
     (\<lambda>_ tb. answer_json 200 (TrialBalanceBody (newTrialBalanceView tb)))"

definition statement :: ledger_endpoint where
  "statement e cx r = respond
     (bindE (tenant cx) (\<lambda>tn. bindE (parse_id (lh_http e) (hq_query r ''account_id'')) (\<lambda>accountID.
      bindE (optionalTime e (hq_query r ''from'')) (\<lambda>from0. bindE (optionalTime e (hq_query r ''to'')) (\<lambda>to0.
      bindE (parsePage e r) (\<lambda>page. Inr (tn, accountID, from0, to0, page)))))))
     (\<lambda>(tn, accountID, from0, to0, (cursor, limit), _). StatementUseCase (ev_now (lh_env e)) tn accountID from0 to0 cursor limit) writeErr
     (\<lambda>(_, _, _, _, _, p) st. answer_json 200 (StatementBody (newStatementView (lh_http e) st (nat (pg_Limit p)))))"

definition providerPositions :: ledger_endpoint where
  "providerPositions e cx r = respond (tenant cx) (\<lambda>tn. ProviderPositions (lh_ck e) tn) writeErr
     (\<lambda>_ ps. answer_json 200 (ProviderPositionsBody (newProviderPositionsView ps)))"

section \<open>Router\<close>

definition ledger_routes :: "LedgerHttp \<Rightarrow> (Db, ledger_body) route list" where
  "ledger_routes e = (let rd = (\<lambda>f. serve (scoped ScopeLedgerRead f)); wr = (\<lambda>f. serve (scoped ScopeLedgerWrite f)) in
    [(''POST'', v1 [Lit ''ledgers''], wr (createLedger e)),
     (''GET'', v1 [Lit ''ledgers''], rd (listLedgers e)),
     (''GET'', v1 [Lit ''ledgers'', Wild], rd (getLedger e)),
     (''POST'', v1 [Lit ''accounts''], wr (createAccount e)),
     (''GET'', v1 [Lit ''accounts''], rd (listAccounts e)),
     (''GET'', v1 [Lit ''accounts'', Wild], rd (getAccount e)),
     (''GET'', v1 [Lit ''accounts'', Wild, Lit ''balances''], rd (getBalances e)),
     (''GET'', v1 [Lit ''accounts'', Wild, Lit ''entries''], rd (listEntries e)),
     (''POST'', v1 [Lit ''transactions''], wr (createTransaction e)),
     (''GET'', v1 [Lit ''transactions''], rd (listTransactions e)),
     (''GET'', v1 [Lit ''transactions'', Wild], rd (getTransaction e)),
     (''POST'', v1 [Lit ''transactions'', Wild, Lit ''post''], wr (postTransaction e)),
     (''POST'', v1 [Lit ''transactions'', Wild, Lit ''reverse''], wr (reverseTransaction e)),
     (''POST'', v1 [Lit ''holds''], wr (createHold e)),
     (''GET'', v1 [Lit ''holds'', Wild], rd (getHold e)),
     (''POST'', v1 [Lit ''holds'', Wild, Lit ''capture''], wr (captureHold e)),
     (''POST'', v1 [Lit ''holds'', Wild, Lit ''release''], wr (releaseHold e)),
     (''GET'', v1 [Lit ''trial-balance''], rd (trialBalance e)),
     (''GET'', v1 [Lit ''statements''], rd (statement e)),
     (''GET'', v1 [Lit ''provider-positions''], rd (providerPositions e))])"

definition NewRouter ::
  "IdentEnv \<Rightarrow> bool \<Rightarrow> string \<Rightarrow> bool \<Rightarrow> LedgerHttp \<Rightarrow> (Db \<times> jwksCache, ledger_body) handler" where
  "NewRouter ienv authDisabled fresh ping e =
     RequestID fresh (Recover (CORSDev (root_mux StatusBody ''ok'' ping
       (authenticated ienv (service_auth authDisabled ''ledger-core'') (mux (ledger_routes e) False)))))"

end
