(* ===== verification/Http_Contract.thy ===== *)
theory Http_Contract
  imports Http
begin

text \<open>
  Two contracts of a service over HTTP, each an interface with lemmas proved once for every server built from
  the middlewares of \<open>Http\<close>. The first is the error contract of \<open>docs/errores-api.md\<close>: every error has a
  status and code of the catalogue and carries the id of its request. The second is authorization: only a
  request with an accepted token of the right scope changes the state of the service, and only for the
  tenant of the token.
\<close>

section \<open>Error contract\<close>

text \<open>Replies of the multiplexer itself have no JSON body; every other reply with a status of 400 or more has an error body.\<close>

definition contract :: "string \<Rightarrow> 'b Reply \<Rightarrow> bool" where
  "contract i rp = (case rp_Body rp of
     ErrorBody b \<Rightarrow> (rp_Status rp, eb_Code b) \<in> set catalogue \<and> eb_RequestID b = i
   | TextBody \<Rightarrow> rp_Status rp \<in> {307, 404, 405}
   | _ \<Rightarrow> rp_Status rp < 400)"

definition keeps_contract :: "('s, 'b) handler \<Rightarrow> bool" where
  "keeps_contract h \<longleftrightarrow> (\<forall>cx r s. case h cx r s of (_, Replied rp, _) \<Rightarrow> contract (cx_RequestID cx) rp | _ \<Rightarrow> True)"

definition sound_endpoint :: "('s, 'b) endpoint \<Rightarrow> bool" where
  "sound_endpoint f \<longleftrightarrow> (\<forall>cx r s. case f cx r s of (Inl e, _) \<Rightarrow> e \<in> set catalogue | (Inr a, _) \<Rightarrow> an_Status a < 400)"

definition returns :: "('s, 'b) handler \<Rightarrow> bool" where
  "returns h \<longleftrightarrow> (\<forall>cx r s. \<exists>hs rp s'. h cx r s = (hs, Replied rp, s'))"

named_theorems catalogued

lemma catalogued_codes [catalogued, simp]:
  "bad_request \<in> set catalogue" "(400, page_code c) \<in> set catalogue" "internal_error \<in> set catalogue" "(401, CodeUnauthorized) \<in> set catalogue"
  "(403, CodeForbidden) \<in> set catalogue" "(404, CodeNotFound) \<in> set catalogue" "(409, CodeConflict) \<in> set catalogue"
  "(409, CodeIdempotencyConflict) \<in> set catalogue" "(422, CodeUnbalancedTransaction) \<in> set catalogue"
  "(422, CodeInsufficientFunds) \<in> set catalogue" "(429, CodeRateLimited) \<in> set catalogue"
  "(503, CodeServiceUnavailable) \<in> set catalogue"
  by (cases c; simp add: catalogue_def page_code.simps)+

lemma catalogued_auth [catalogued, simp]: "unauthorized \<in> set catalogue" "forbidden \<in> set catalogue"
  using catalogued_codes by (simp_all add: CodeUnauthorized_def CodeForbidden_def)

lemma contract_WriteError [simp]: "contract i (WriteError cx e) \<longleftrightarrow> e \<in> set catalogue \<and> cx_RequestID cx = i"
  by (cases e) (simp add: contract_def WriteError_def)

lemma contract_WriteJSON [simp]: "contract i (WriteJSON status v) \<longleftrightarrow> status < 400"
  by (simp add: contract_def WriteJSON_def split: option.splits)

lemma contract_text [simp]: "contract i \<lparr>rp_Status = n, rp_Body = TextBody\<rparr> \<longleftrightarrow> n \<in> {307, 404, 405}"
  by (simp add: contract_def)

text \<open>What the shared steps of an endpoint refuse.\<close>

lemma read_refused [catalogued]:
  "read_body dec r = Inl x \<Longrightarrow> x \<in> set catalogue"
  "parse_id e raw = Inl x \<Longrightarrow> x \<in> set catalogue"
  "pathID e r = Inl x \<Longrightarrow> x \<in> set catalogue"
  "optionalUUID e raw = Inl x \<Longrightarrow> x \<in> set catalogue"
  "read_page e r = Inl x \<Longrightarrow> x \<in> set catalogue"
  by (auto simp: read_body_def parse_id_def pathID_def optionalUUID_def read_page_def bindE_Inl_iff
      split: sum.splits option.splits if_splits)

lemma sound_respond:
  assumes "\<And>x. input = Inl x \<Longrightarrow> x \<in> set catalogue" "\<And>e. on_error e \<in> set catalogue" "\<And>i x. an_Status (view i x) < 400"
  shows "case respond input use_case on_error view s of (Inl e, _) \<Rightarrow> e \<in> set catalogue | (Inr a, _) \<Rightarrow> an_Status a < 400"
proof (cases input)
  case (Inr i)
  obtain y s' where y: "use_case i s = (y, s')" by fastforce
  show ?thesis using assms(2,3) by (cases y) (simp_all add: respond_def Inr y)
qed (simp add: respond_def assms(1))

lemma answer_json_status [simp]: "an_Status (answer_json n v) = n"
  by (simp add: answer_json_def)

lemma serve_contract: "sound_endpoint f \<Longrightarrow> keeps_contract (serve f)"
  unfolding keeps_contract_def
proof (intro allI)
  fix cx r s
  assume f: "sound_endpoint f"
  obtain x s' where e: "f cx r s = (x, s')" by fastforce
  show "case serve f cx r s of (_, Replied rp, _) \<Rightarrow> contract (cx_RequestID cx) rp | _ \<Rightarrow> True"
    using spec [OF spec [OF spec [OF f [unfolded sound_endpoint_def], of cx], of r], of s] unfolding e
    by (cases x) (auto simp: serve_def write_result_def e)
qed

lemma serve_returns: "returns (serve f)"
  by (auto simp: returns_def serve_def write_result_def split: sum.splits prod.splits)

lemma sound_scoped: "sound_endpoint f \<Longrightarrow> sound_endpoint (scoped scope f)"
  unfolding sound_endpoint_def scoped_def RequireScope_def by (auto split: option.splits)


lemma mux_cases:
  "mux rs other cx r s = (no_headers, Replied \<lparr>rp_Status = 404, rp_Body = TextBody\<rparr>, s)
   \<or> mux rs other cx r s = (no_headers, Replied \<lparr>rp_Status = 405, rp_Body = TextBody\<rparr>, s)
   \<or> (\<exists>m p h x. (m, p, h) \<in> set rs \<and> match_path p (hq_Path r) = Some x \<and> match_method (hq_Method r) m
        \<and> mux rs other cx r s = h cx (r\<lparr>hq_id := x\<rparr>) s)"
proof (induction rs arbitrary: other)
  case (Cons a rs)
  obtain m p h where a: "a = (m, p, h)" by (metis prod_cases3)
  show ?case
  proof (cases "match_path p (hq_Path r) \<noteq> None \<and> match_method (hq_Method r) m")
    case True
    then obtain x where x: "match_path p (hq_Path r) = Some x" by auto
    then have "mux (a # rs) other cx r s = h cx (r\<lparr>hq_id := x\<rparr>) s" using True unfolding a by simp
    moreover have "(m, p, h) \<in> set (a # rs)" unfolding a by simp
    ultimately show ?thesis using True x by blast
  next
    case False
    then have "mux (a # rs) other cx r s = mux rs other cx r s \<or> mux (a # rs) other cx r s = mux rs True cx r s"
      unfolding a by (auto split: option.splits)
    then show ?thesis using Cons.IH [of other] Cons.IH [of True] by (metis list.set_intros(2))
  qed
qed simp

section \<open>The contract of a whole server\<close>

lemma keeps_contractD: "keeps_contract h \<Longrightarrow> h cx r s = (hs, Replied rp, s') \<Longrightarrow> contract (cx_RequestID cx) rp"
proof -
  assume h: "keeps_contract h" and e: "h cx r s = (hs, Replied rp, s')"
  show "contract (cx_RequestID cx) rp"
    using spec [OF spec [OF spec [OF h [unfolded keeps_contract_def], of cx], of r], of s] unfolding e by simp
qed

lemma keeps_contractI:
  "(\<And>cx r s hs rp s'. h cx r s = (hs, Replied rp, s') \<Longrightarrow> contract (cx_RequestID cx) rp) \<Longrightarrow> keeps_contract h"
  unfolding keeps_contract_def by (auto split: prod.splits Outcome.splits)

lemma CORSDev_contract: "keeps_contract h \<Longrightarrow> keeps_contract (CORSDev h)"
  by (rule keeps_contractI) (auto simp: CORSDev_def Let_def dest: keeps_contractD split: if_splits prod.splits)

lemma authenticated_contract:
  assumes h: "keeps_contract h"
  shows "keeps_contract (authenticated ienv cfg h)"
proof (rule keeps_contractI)
  fix cx r and sc :: "'a \<times> jwksCache" and hs rp sc'
  assume a: "authenticated ienv cfg h cx r sc = (hs, Replied rp, sc')"
  obtain s c where sc: "sc = (s, c)" by fastforce
  have refused: "e \<in> set catalogue" if "RequireAuthConfig ienv cfg q c = (Inl e, c')" for e q c'
    using that by (auto simp: RequireAuthConfig_def auth_disabled_def claims_of_def Let_def simp del: catalogued_codes
        split: if_splits option.splits prod.splits intro: catalogued_auth)
  show "contract (cx_RequestID cx) rp"
    using a refused unfolding authenticated_def sc
    by (auto split: prod.splits sum.splits dest: keeps_contractD [OF h])
qed

lemma Recover_contract:
  assumes h: "keeps_contract h"
  shows "keeps_contract (Recover h)"
proof (rule keeps_contractI)
  fix cx r s hs rp s'
  assume "Recover h cx r s = (hs, Replied rp, s')"
  then show "contract (cx_RequestID cx) rp"
    by (auto simp: Recover_def split: prod.splits Outcome.splits dest: keeps_contractD [OF h])
qed

lemma RequestID_contract:
  assumes h: "keeps_contract h" and q: "RequestID fresh h cx r s = (hs, Replied rp, s')"
  shows "\<exists>i. hd_RequestId hs = Some i \<and> contract i rp"
proof -
  define i where "i = (if hq_header r RequestIDHeader = '''' \<or> length (hq_header r RequestIDHeader) > 128 then fresh else hq_header r RequestIDHeader)"
  obtain hs' where hs': "h (cx\<lparr>cx_RequestID := i\<rparr>) r s = (hs', Replied rp, s')" "hs = hs'\<lparr>hd_RequestId := Some i\<rparr>"
    using q by (auto simp: RequestID_def Let_def i_def [symmetric] split: prod.splits)
  then show ?thesis using keeps_contractD [OF h hs'(1)] by simp
qed

text \<open>A set of routes that keep the contract; \<open>probes\<close> are such routes, and so are the routes of each service.\<close>

locale api =
  fixes routes :: "('s, 'b) route list"
  assumes route_contract: "(m, p, h) \<in> set routes \<Longrightarrow> keeps_contract h"
begin

lemma mux_contract: "keeps_contract (mux routes other)"
proof (rule keeps_contractI)
  fix cx r s hs rp s'
  assume a: "mux routes other cx r s = (hs, Replied rp, s')"
  consider n where "n \<in> {404, 405}" "rp = \<lparr>rp_Status = n, rp_Body = TextBody\<rparr>"
    | m p h x where "(m, p, h) \<in> set routes" "h cx (r\<lparr>hq_id := x\<rparr>) s = (hs, Replied rp, s')"
    using mux_cases [of routes other cx r s] unfolding a by auto
  then show "contract (cx_RequestID cx) rp"
    by cases (auto intro: keeps_contractD [OF route_contract])
qed

end

lemma serve_route_contract: "sound_endpoint f \<Longrightarrow> keeps_contract (serve (scoped scope f))"
  by (intro serve_contract sound_scoped)

interpretation probe_api: api "probes status ready ping" for status :: "string \<Rightarrow> 'b" and ready ping
  by unfold_locales
    (auto simp: probes_def intro!: serve_contract simp: sound_endpoint_def)

lemma root_mux_contract:
  assumes h: "keeps_contract h"
  shows "keeps_contract (root_mux status ready ping h)"
proof (rule keeps_contractI)
  fix cx r s hs rp s'
  assume "root_mux status ready ping h cx r s = (hs, Replied rp, s')"
  then show "contract (cx_RequestID cx) rp"
    by (auto simp: root_mux_def split: if_splits dest: keeps_contractD [OF h] keeps_contractD [OF probe_api.mux_contract])
qed


section \<open>Authorization\<close>

text \<open>
  \<open>acts\<close>: an endpoint keeps the state, or changes it on behalf of the tenant of its claims. \<open>good\<close> is the
  invariant the service keeps, \<open>ev tn s s'\<close> what a request of \<open>tn\<close> may do.
\<close>

definition acts :: "('s \<Rightarrow> bool) \<Rightarrow> (uuid \<Rightarrow> 's \<Rightarrow> 's \<Rightarrow> bool) \<Rightarrow> ('s, 'b) endpoint \<Rightarrow> bool" where
  "acts good ev f \<longleftrightarrow> (\<forall>cx r s. good s \<longrightarrow> snd (f cx r s) = s
     \<or> (\<exists>c. cx_Claims cx = Some c \<and> ev (cl_TenantID c) s (snd (f cx r s))))"

definition reads :: "('s \<Rightarrow> bool) \<Rightarrow> ('s, 'b) endpoint \<Rightarrow> bool" where
  "reads good f \<longleftrightarrow> (\<forall>cx r s. good s \<longrightarrow> snd (f cx r s) = s)"

definition guarded :: "string \<Rightarrow> ('s \<Rightarrow> bool) \<Rightarrow> (uuid \<Rightarrow> 's \<Rightarrow> 's \<Rightarrow> bool) \<Rightarrow> ('s, 'b) handler \<Rightarrow> bool" where
  "guarded w good ev h \<longleftrightarrow> (\<forall>cx r s hs out s'. good s \<longrightarrow> h cx r s = (hs, out, s') \<longrightarrow> s' = s
     \<or> (\<exists>c. cx_Claims cx = Some c \<and> HasScope c w \<and> ev (cl_TenantID c) s s'))"

definition authorised ::
  "string \<Rightarrow> ('s \<Rightarrow> bool) \<Rightarrow> (uuid \<Rightarrow> 's \<Rightarrow> 's \<Rightarrow> bool) \<Rightarrow> IdentEnv \<Rightarrow> AuthConfig \<Rightarrow> ('s \<times> jwksCache, 'b) handler \<Rightarrow> bool" where
  "authorised w good ev ienv cfg h \<longleftrightarrow> (\<forall>cx r s c hs out s' c'. good s \<longrightarrow> h cx r (s, c) = (hs, out, (s', c')) \<longrightarrow> s' \<noteq> s \<longrightarrow>
     (\<exists>claims. RequireAuthConfig ienv cfg (auth_request r) c = (Inr claims, c') \<and> HasScope claims w \<and> ev (cl_TenantID claims) s s'))"

lemma respond_state: "snd (respond input use_case on_error view s) = (case input of Inl _ \<Rightarrow> s | Inr i \<Rightarrow> snd (use_case i s))"
  by (auto simp: respond_def split: sum.splits prod.splits)

lemma serve_state: "serve f cx r s = (hs, out, s') \<Longrightarrow> s' = snd (f cx r s)"
  by (auto simp: serve_def write_result_def split: sum.splits prod.splits)

lemma scoped_state:
  "snd (scoped scope f cx r s) = s \<or> (\<exists>c. cx_Claims cx = Some c \<and> HasScope c scope \<and> snd (scoped scope f cx r s) = snd (f cx r s))"
  by (auto simp: scoped_def RequireScope_def split: option.splits)

lemma guarded_write:
  assumes f: "acts good ev f"
  shows "guarded w good ev (serve (scoped w f))"
  unfolding guarded_def
proof (intro allI impI)
  fix cx r s hs out s'
  assume good: "good s" and e: "serve (scoped w f) cx r s = (hs, out, s')"
  note s' = serve_state [OF e]
  show "s' = s \<or> (\<exists>c. cx_Claims cx = Some c \<and> HasScope c w \<and> ev (cl_TenantID c) s s')"
    using scoped_state [of w f cx r s] f good unfolding s' acts_def by (metis option.inject)
qed

lemma guarded_read:
  assumes f: "reads good f"
  shows "guarded w good ev (serve (scoped scope f))"
  unfolding guarded_def using serve_state scoped_state f unfolding reads_def by metis

locale tenant_api = api routes for routes :: "('s, 'b) route list" +
  fixes w :: string and good :: "'s \<Rightarrow> bool" and ev :: "uuid \<Rightarrow> 's \<Rightarrow> 's \<Rightarrow> bool"
  assumes route_guarded: "(m, p, h) \<in> set routes \<Longrightarrow> guarded w good ev h"
begin

lemma mux_guarded: "guarded w good ev (mux routes other)"
  unfolding guarded_def
proof (intro allI impI)
  fix cx r s hs out s'
  assume good: "good s" and e: "mux routes other cx r s = (hs, out, s')"
  consider "s' = s" | m p h x where "(m, p, h) \<in> set routes" "h cx (r\<lparr>hq_id := x\<rparr>) s = (hs, out, s')"
    using mux_cases [of routes other cx r s] unfolding e by auto
  then show "s' = s \<or> (\<exists>c. cx_Claims cx = Some c \<and> HasScope c w \<and> ev (cl_TenantID c) s s')"
    by cases (use good route_guarded in \<open>auto simp: guarded_def\<close>)
qed

text \<open>Behind the authentication, the claims a route sees are those of the verified token.\<close>

lemma authenticated_authorised: "authorised w good ev ienv cfg (authenticated ienv cfg (mux routes other))"
  unfolding authorised_def
proof (intro allI impI)
  fix cx r s c hs out s' c'
  assume good: "good s" and e: "authenticated ienv cfg (mux routes other) cx r (s, c) = (hs, out, (s', c'))" and ch: "s' \<noteq> s"
  obtain claims where k: "RequireAuthConfig ienv cfg (auth_request r) c = (Inr claims, c')"
      "mux routes other (cx\<lparr>cx_Claims := Some claims\<rparr>) r s = (hs, out, s')"
    using e ch by (auto simp: authenticated_def split: prod.splits sum.splits)
  have "HasScope claims w \<and> ev (cl_TenantID claims) s s'"
    using mux_guarded good k(2) ch unfolding guarded_def by fastforce
  then show "\<exists>claims. RequireAuthConfig ienv cfg (auth_request r) c = (Inr claims, c') \<and> HasScope claims w \<and> ev (cl_TenantID claims) s s'"
    using k(1) by blast
qed

end

lemma authorised_RequestID: "authorised w good ev ienv cfg h \<Longrightarrow> authorised w good ev ienv cfg (RequestID fresh h)"
  unfolding authorised_def RequestID_def by (fastforce simp: Let_def split: prod.splits)

lemma authorised_CORSDev: "authorised w good ev ienv cfg h \<Longrightarrow> authorised w good ev ienv cfg (CORSDev h)"
  unfolding authorised_def CORSDev_def by (fastforce simp: Let_def split: prod.splits if_splits)

lemma authorised_Recover:
  assumes "authorised w good ev ienv cfg h"
  shows "authorised w good ev ienv cfg (Recover h)"
  unfolding authorised_def
proof (intro allI impI)
  fix cx r s c hs out s' c'
  assume "good s" "Recover h cx r (s, c) = (hs, out, (s', c'))" "s' \<noteq> s"
  moreover from this(2) have "\<exists>out. h cx r (s, c) = (hs, out, (s', c'))"
    by (auto simp: Recover_def split: prod.splits Outcome.splits)
  ultimately show "\<exists>claims. RequireAuthConfig ienv cfg (auth_request r) c = (Inr claims, c') \<and> HasScope claims w \<and> ev (cl_TenantID claims) s s'"
    using assms unfolding authorised_def by blast
qed

lemma probes_state: "mux (probes status ready ping) other cx r s = (hs, out, s') \<Longrightarrow> s' = s"
  by (auto simp: probes_def serve_def write_result_def split: option.splits if_splits)

lemma authorised_root_mux:
  assumes "authorised w good ev ienv cfg h"
  shows "authorised w good ev ienv cfg (root_mux status ready ping h)"
  using assms unfolding authorised_def root_mux_def by (auto dest!: probes_state split: if_splits)

lemma authorised_server:
  assumes "authorised w good ev ienv cfg h"
  shows "authorised w good ev ienv cfg (RequestID fresh (Recover (CORSDev (root_mux status ready ping h))))"
    and "authorised w good ev ienv cfg (RequestID fresh (Recover (root_mux status ready ping h)))"
  using assms by (simp_all add: authorised_RequestID authorised_Recover authorised_CORSDev authorised_root_mux)

section \<open>Every request is answered\<close>

lemma returnsI: "(\<And>cx r s. \<exists>hs rp s'. h cx r s = (hs, Replied rp, s')) \<Longrightarrow> returns h"
  by (simp add: returns_def del: split_paired_Ex)

lemma returnsD: "returns h \<Longrightarrow> \<exists>hs rp s'. h cx r s = (hs, Replied rp, s')"
  by (simp add: returns_def del: split_paired_Ex split_paired_All)

lemma returns_mux: "(\<And>m p h. (m, p, h) \<in> set rs \<Longrightarrow> returns h) \<Longrightarrow> returns (mux rs other)"
  unfolding returns_def using mux_cases by metis

lemma returns_authenticated:
  assumes h: "returns h"
  shows "returns (authenticated ienv cfg h)"
proof (rule returnsI)
  fix cx r and sc :: "'a \<times> jwksCache"
  obtain s c where sc: "sc = (s, c)" by fastforce
  obtain res c' where q: "RequireAuthConfig ienv cfg (auth_request r) c = (res, c')" by fastforce
  show "\<exists>hs rp s'. authenticated ienv cfg h cx r sc = (hs, Replied rp, s')"
  proof (cases res)
    case (Inr claims)
    obtain hs rp s' where "h (cx\<lparr>cx_Claims := Some claims\<rparr>) r s = (hs, Replied rp, s')"
      using returnsD [OF h] by blast
    then show ?thesis by (simp add: authenticated_def sc q Inr)
  qed (simp add: authenticated_def sc q)
qed

lemma returns_RequestID: "returns h \<Longrightarrow> returns (RequestID fresh h)"
proof (rule returnsI)
  fix cx and r :: HttpRequest and s
  assume h: "returns h"
  let ?i = "if hq_header r RequestIDHeader = '''' \<or> length (hq_header r RequestIDHeader) > 128 then fresh else hq_header r RequestIDHeader"
  obtain hs rp s' where "h (cx\<lparr>cx_RequestID := ?i\<rparr>) r s = (hs, Replied rp, s')" using returnsD [OF h] by blast
  then show "\<exists>hs rp s'. RequestID fresh h cx r s = (hs, Replied rp, s')" by (simp add: RequestID_def Let_def)
qed

lemma returns_CORSDev: "returns h \<Longrightarrow> returns (CORSDev h)"
proof (rule returnsI)
  fix cx r s
  assume h: "returns h"
  obtain hs rp s' where "h cx r s = (hs, Replied rp, s')" using returnsD [OF h] by blast
  then show "\<exists>hs rp s'. CORSDev h cx r s = (hs, Replied rp, s')" by (simp add: CORSDev_def Let_def)
qed

lemma returns_Recover: "returns h \<Longrightarrow> returns (Recover h)"
proof (rule returnsI)
  fix cx r s
  assume h: "returns h"
  obtain hs rp s' where "h cx r s = (hs, Replied rp, s')" using returnsD [OF h] by blast
  then show "\<exists>hs rp s'. Recover h cx r s = (hs, Replied rp, s')" by (simp add: Recover_def)
qed

lemma returns_root_mux: "returns h \<Longrightarrow> returns (root_mux status ready ping h)"
proof (rule returnsI)
  fix cx r s
  assume h: "returns h"
  have p: "returns (mux (probes status ready ping) False)"
    by (rule returns_mux) (auto simp: probes_def serve_returns)
  show "\<exists>hs rp s'. root_mux status ready ping h cx r s = (hs, Replied rp, s')"
    using returnsD [OF h, of cx r s] returnsD [OF p, of cx r s] by (simp add: root_mux_def del: split_paired_Ex)
qed

lemmas returns_server =
  returns_RequestID returns_Recover returns_CORSDev returns_root_mux returns_authenticated returns_mux serve_returns

end
