(* ===== verification/Ledger_Server.thy ===== *)
theory Ledger_Server
  imports Ledger_Http Http_Contract Ledger_Idempotency
begin

text \<open>
  The ledger server meets both contracts of \<open>Http_Contract\<close>: its routes are interpreted as an \<open>api\<close> whose
  errors are catalogued, and as a \<open>tenant_api\<close> whose state changes are requests of the ledger
  (\<open>Ledger_History\<close>) made for the tenant of a token with the scope \<open>ledger:write\<close>.
\<close>

section \<open>Error contract\<close>

lemma tenant_refused [catalogued]: "tenant cx = Inl x \<Longrightarrow> x \<in> set catalogue"
  by (auto simp: tenant_def split: option.splits if_splits)

lemma writeErr_catalogued [catalogued]: "writeErr e \<in> set catalogue"
  by (simp add: writeErr_def split: error.splits)

lemma ledger_read_refused [catalogued]:
  "parsePage e r = Inl x \<Longrightarrow> x \<in> set catalogue"
  "optional_body z dec r = Inl x \<Longrightarrow> x \<in> set catalogue"
  "optionalTime e raw = Inl x \<Longrightarrow> x \<in> set catalogue"
  "account_filter r = Inl x \<Longrightarrow> x \<in> set catalogue"
  "transaction_filter r = Inl x \<Longrightarrow> x \<in> set catalogue"
  "hold_input hreq = Inl x \<Longrightarrow> x \<in> set catalogue"
  "capture_amount creq = Inl x \<Longrightarrow> x \<in> set catalogue"
  by (auto simp: parsePage_def optional_body_def optionalTime_def account_filter_def transaction_filter_def hold_input_def
      capture_amount_def bindE_Inl_iff Let_def dest: read_refused split: if_splits option.splits)

lemma posting_inputs_refused: "posting_inputs ps = Inl x \<Longrightarrow> x \<in> set catalogue"
  by (induction ps) (auto simp: bindE_Inl_iff split: option.splits)

lemma transaction_input_refused [catalogued]: "transaction_input r req = Inl x \<Longrightarrow> x \<in> set catalogue"
  by (auto simp: transaction_input_def bindE_Inl_iff dest: posting_inputs_refused)

lemma created_or_replayed_status [simp]: "an_Status (created_or_replayed b v) < 400"
  by (simp add: created_or_replayed_def)

lemmas ledger_endpoint_defs =
  createLedger_def listLedgers_def getLedger_def createAccount_def listAccounts_def getAccount_def getBalances_def
  listEntries_def createTransaction_def listTransactions_def getTransaction_def postTransaction_def reverseTransaction_def
  createHold_def getHold_def captureHold_def releaseHold_def trialBalance_def statement_def providerPositions_def

lemma ledger_sound:
  "sound_endpoint (createLedger e)" "sound_endpoint (listLedgers e)" "sound_endpoint (getLedger e)"
  "sound_endpoint (createAccount e)" "sound_endpoint (listAccounts e)" "sound_endpoint (getAccount e)"
  "sound_endpoint (getBalances e)" "sound_endpoint (listEntries e)" "sound_endpoint (createTransaction e)"
  "sound_endpoint (listTransactions e)" "sound_endpoint (getTransaction e)" "sound_endpoint (postTransaction e)"
  "sound_endpoint (reverseTransaction e)" "sound_endpoint (createHold e)" "sound_endpoint (getHold e)"
  "sound_endpoint (captureHold e)" "sound_endpoint (releaseHold e)" "sound_endpoint (trialBalance e)"
  "sound_endpoint (statement e)" "sound_endpoint (providerPositions e)"
  unfolding sound_endpoint_def ledger_endpoint_defs
  by (intro allI sound_respond; auto simp: bindE_Inl_iff catalogued split: option.splits prod.splits)+


section \<open>Authorization\<close>

lemma read_tx_state: "db_deferred d = [] \<Longrightarrow> snd (read_tx tn q d) = d"
  by (auto simp: read_tx_def WithTenantTx_def bindE_def split: sum.splits)

lemma ledger_inv_deferred: "ledger_inv d \<Longrightarrow> db_deferred d = []"
  by (simp add: ledger_inv_def)

lemma ledger_queries_state:
  assumes d: "db_deferred d = []"
  shows "snd (store_ListLedgers tn c n d) = d" "snd (store_GetLedger tn i d) = d" "snd (store_ListAccounts tn l t c n d) = d"
    "snd (store_GetAccount tn i d) = d" "snd (store_GetBalances ck tn i d) = d" "snd (ListEntries tn i asset c n d) = d"
    "snd (store_ListTransactions tn l t c n d) = d" "snd (store_GetTransaction tn i d) = d" "snd (store_GetHold tn i d) = d"
    "snd (store_TrialBalance ck tn lg asOf wall d) = d" "snd (StatementUseCase now tn i from0 to0 c n d) = d"
    "snd (ProviderPositions ck tn d) = d"
  using read_tx_state [OF d]
  by (simp_all add: store_ListLedgers_def store_GetLedger_def store_ListAccounts_def store_GetAccount_def store_GetBalances_def
      ListEntries_def store_ListEntries_def store_ListTransactions_def store_GetTransaction_def store_TrialBalance_def
      StatementUseCase_def store_Statement_def Let_def)
    (use d in \<open>auto simp: store_GetHold_def WithTenantTx_def bindE_def ProviderPositions_def store_ProviderAccountBalances_def
      Let_def split: sum.splits prod.splits dest!: arg_cong [where f = snd] simp: read_tx_state\<close>)

lemma ledger_reads:
  "reads ledger_inv (listLedgers e)" "reads ledger_inv (getLedger e)" "reads ledger_inv (listAccounts e)"
  "reads ledger_inv (getAccount e)" "reads ledger_inv (getBalances e)" "reads ledger_inv (listEntries e)"
  "reads ledger_inv (listTransactions e)" "reads ledger_inv (getTransaction e)" "reads ledger_inv (getHold e)"
  "reads ledger_inv (trialBalance e)" "reads ledger_inv (statement e)" "reads ledger_inv (providerPositions e)"
  unfolding reads_def ledger_endpoint_defs respond_state
  by (auto simp: ledger_queries_state ledger_inv_deferred split: sum.splits prod.splits)

lemma tenant_Inr: "tenant cx = Inr tn \<Longrightarrow> \<exists>c. cx_Claims cx = Some c \<and> cl_TenantID c = tn"
  by (auto simp: tenant_def TenantFromContext_def split: option.splits if_splits)

lemma ledger_acts:
  "acts ledger_inv request (createLedger e)" "acts ledger_inv request (createAccount e)"
  "acts ledger_inv request (createTransaction e)" "acts ledger_inv request (postTransaction e)"
  "acts ledger_inv request (reverseTransaction e)" "acts ledger_inv request (createHold e)"
  "acts ledger_inv request (captureHold e)" "acts ledger_inv request (releaseHold e)"
  unfolding acts_def ledger_endpoint_defs respond_state
  by (auto simp: bindE_Inr_iff split: sum.splits prod.splits option.splits dest!: tenant_Inr intro: request.intros)

interpretation ledger_api: tenant_api "ledger_routes e" ScopeLedgerWrite ledger_inv request for e
proof unfold_locales
  fix m p h
  assume "(m, p, h) \<in> set (ledger_routes e)"
  then show "keeps_contract h" "guarded ScopeLedgerWrite ledger_inv request h"
    unfolding ledger_routes_def Let_def
    by (auto intro: serve_route_contract ledger_sound guarded_write guarded_read ledger_reads ledger_acts)
qed

lemma ledger_routes_return: "(m, p, h) \<in> set (ledger_routes e) \<Longrightarrow> returns h"
  unfolding ledger_routes_def Let_def by (auto intro: serve_returns)

text \<open>The whole server, from the outermost middleware to the database.\<close>

lemma NewRouter_contract:
  "NewRouter ienv off fresh ping e cx r s = (hs, Replied rp, s') \<Longrightarrow> \<exists>i. hd_RequestId hs = Some i \<and> contract i rp"
  unfolding NewRouter_def
  apply (erule RequestID_contract [rotated])
  apply (rule Recover_contract)
  apply (rule CORSDev_contract)
  apply (rule root_mux_contract)
  apply (rule authenticated_contract)
  apply (rule ledger_api.mux_contract)
  done

lemma NewRouter_returns: "returns (NewRouter ienv off fresh ping e)"
  unfolding NewRouter_def by (intro returns_server ledger_routes_return)

lemma NewRouter_authorised:
  "authorised ScopeLedgerWrite ledger_inv request ienv (service_auth off ''ledger-core'') (NewRouter ienv off fresh ping e)"
  unfolding NewRouter_def by (intro authorised_server ledger_api.authenticated_authorised)


section \<open>Retries over HTTP\<close>

text \<open>A retry builds the same transaction but for the identifiers and instants it draws anew.\<close>

definition same_terms :: "Posting \<Rightarrow> Posting \<Rightarrow> bool" where
  "same_terms p q \<longleftrightarrow> p_AccountID q = p_AccountID p \<and> p_Direction q = p_Direction p \<and> p_Amount q = p_Amount p"

lemma sum_sides_terms: "list_all2 same_terms ps qs \<Longrightarrow> sum_sides qs D C = sum_sides ps D C"
proof (induction ps qs arbitrary: D C rule: list_all2_induct)
  case (Cons p ps q qs)
  have t: "p_Amount q = p_Amount p" "p_Direction q = p_Direction p" using Cons.hyps(1) by (simp_all add: same_terms_def)
  have "add_to_side m q = add_to_side m p" for m unfolding add_to_side_def t ..
  moreover have "sum_sides qs = sum_sides ps" by (intro ext Cons.IH)
  ultimately show ?case using t by (simp split: sum.splits)
qed simp

lemma ValidateBalanced_terms: "list_all2 same_terms ps qs \<Longrightarrow> ValidateBalanced qs = ValidateBalanced ps"
  by (simp add: ValidateBalanced_def sum_sides_terms list_all2_lengthD)

lemma canonical_terms: "list_all2 same_terms ps qs \<Longrightarrow> map (canonical_posting us) qs = map (canonical_posting us) ps"
  by (induction rule: list_all2_induct) (auto simp: same_terms_def canonical_posting_def)

lemma make_postings_again:
  assumes "make_postings env n ps = Inr qs" and "\<And>k. ev_newV7 env' k \<noteq> None"
  shows "\<exists>qs'. make_postings env' n' ps = Inr qs' \<and> list_all2 same_terms qs qs'"
  using assms
proof (induction ps arbitrary: n n' qs)
  case (Cons p ps)
  obtain pid where "ev_newV7 env' n' = Some pid" using Cons.prems(2) by auto
  then show ?case
    using Cons.prems Cons.IH [of "Suc n" _ "Suc n'"] by (auto simp: bindE_Inr_iff newID_def same_terms_def split: option.splits)
qed simp

lemma build_transaction_again:
  assumes b: "build_transaction env tn req = Inr t" and ids: "\<And>k. ev_newV7 env' k \<noteq> None"
  shows "\<exists>t'. build_transaction env' tn req = Inr t' \<and> transactionFingerprint H us t' = transactionFingerprint H us t"
proof -
  obtain i where i: "ev_newV7 env' 0 = Some i" using ids by auto
  obtain ps where ps: "make_postings env 1 (cti_Postings req) = Inr ps" "ValidateBalanced ps = Inr ()"
    using b by (auto simp: build_transaction_def Let_def bindE_Inr_iff split: if_splits)
  obtain qs where qs: "make_postings env' 1 (cti_Postings req) = Inr qs" "list_all2 same_terms ps qs"
    using make_postings_again [OF ps(1) ids] by blast
  have "ValidateBalanced qs = Inr ()" using ps(2) ValidateBalanced_terms [OF qs(2)] by simp
  then show ?thesis
    using b ps(1) qs(1) i canonical_terms [OF qs(2), of us]
    by (auto simp: build_transaction_def Let_def bindE_Inr_iff newID_def transactionFingerprint_def split: if_splits option.splits)
qed

lemma view_json_snapshot: "newTransactionView (json_snapshot t) = newTransactionView t"
  by (simp add: newTransactionView_def json_snapshot_def orEmpty_def)


lemma NewRouter_transactions:
  assumes "hq_Method r = ''POST''" "hq_Path r = [''v1'', ''transactions'']"
    and "RequireAuthConfig ienv (service_auth off ''ledger-core'') (auth_request r) c = (Inr claims, c')"
  shows "\<exists>i hs rp d'. serve (scoped ScopeLedgerWrite (createTransaction e)) (cx\<lparr>cx_RequestID := i, cx_Claims := Some claims\<rparr>) (r\<lparr>hq_id := ''''\<rparr>) d = (hs, Replied rp, d')
    \<and> (\<exists>hs'. NewRouter ienv off fresh ping e cx r (d, c) = (hs', Replied rp, (d', c')) \<and> hd_Replay hs' = hd_Replay hs)"
proof -
  define i where "i = (if hq_header r RequestIDHeader = '''' \<or> length (hq_header r RequestIDHeader) > 128 then fresh else hq_header r RequestIDHeader)"
  obtain hs rp d' where s: "serve (scoped ScopeLedgerWrite (createTransaction e)) (cx\<lparr>cx_RequestID := i, cx_Claims := Some claims\<rparr>) (r\<lparr>hq_id := ''''\<rparr>) d = (hs, Replied rp, d')"
    using returnsD [OF serve_returns] by metis
  then have m: "mux (ledger_routes e) False (cx\<lparr>cx_RequestID := i, cx_Claims := Some claims\<rparr>) r d = (hs, Replied rp, d')"
    using assms(1,2) by (simp add: ledger_routes_def v1_def Let_def match_method_def)
  have "NewRouter ienv off fresh ping e cx r (d, c) =
     (let x = (if hq_header r ''Origin'' \<noteq> '''' then hs\<lparr>hd_AllowOrigin := Some (hq_header r ''Origin'')\<rparr> else hs)
      in (x\<lparr>hd_RequestId := Some i\<rparr>, Replied rp, (d', c')))"
    using assms m
    by (simp add: NewRouter_def RequestID_def i_def [symmetric] Let_def Recover_def CORSDev_def root_mux_def authenticated_def)
  then have "\<exists>hs'. NewRouter ienv off fresh ping e cx r (d, c) = (hs', Replied rp, (d', c')) \<and> hd_Replay hs' = hd_Replay hs"
    by (auto simp: Let_def)
  then show ?thesis using s by blast
qed

lemma createTransaction_again:
  assumes inv: "ledger_inv d" and c: "createTransaction e cx r d = (Inr a, d1)" and st: "an_Status a = 201"
    and claims: "cx_Claims cx = Some claims" "cx_Claims cx' = Some claims"
    and later: "(unpurged (cl_TenantID claims))\<^sup>*\<^sup>* d1 d2"
    and e': "lh_transaction e' = lh_transaction e" "lh_dl e' = d2"
      "ev_H (lh_env e') = ev_H (lh_env e)" "ev_uuidString (lh_env e') = ev_uuidString (lh_env e)" "\<And>k. ev_newV7 (lh_env e') k \<noteq> None"
  shows "\<not> an_Replay a \<and> createTransaction e' cx' r d2 = (Inr (a\<lparr>an_Status := 200, an_Replay := True\<rparr>), d2)"
proof -
  let ?tn = "cl_TenantID claims"
  obtain req inp t rep where req: "read_body (lh_transaction e) r = Inr req" "transaction_input r req = Inr inp"
      and tn: "?tn \<noteq> uuid_Nil" and ct: "CreateTransaction (lh_env e) (lh_dl e) (lh_dr e) ?tn inp d = (Inr (t, rep), d1)"
      and a: "a = created_or_replayed rep (TransactionBody (newTransactionView t))"
    using c claims by (auto simp: createTransaction_def respond_def tenant_def TenantFromContext_def bindE_def
        split: sum.splits prod.splits if_splits)
  have rep: "rep = False" using st unfolding a by (auto simp: created_or_replayed_def split: if_splits)
  obtain t0 where t0: "build_transaction (lh_env e) ?tn inp = Inr t0"
    using ct by (cases "build_transaction (lh_env e) ?tn inp") (auto simp: CreateTransaction_def)
  have fp: "transactionFingerprint H us t = transactionFingerprint H us t0" for H us
    using CreateTransaction_returns [OF ct [unfolded rep]] t0 by simp
  obtain t' where t': "build_transaction (lh_env e') ?tn inp = Inr t'"
      "transactionFingerprint (ev_H (lh_env e)) (ev_uuidString (lh_env e)) t' = transactionFingerprint (ev_H (lh_env e)) (ev_uuidString (lh_env e)) t0"
    using build_transaction_again [OF t0 e'(5)] by blast
  have "CreateTransaction (lh_env e') d2 (lh_dr e') ?tn inp d2 = (Inr (json_snapshot t, True), d2)"
    using CreateTransaction_again [OF inv ct [unfolded rep] later tn t'(1) refl, of "lh_dr e'"] t'(2) fp e' by simp
  then have "createTransaction e' cx' r d2 = (Inr (created_or_replayed True (TransactionBody (newTransactionView t))), d2)"
    using req tn claims e'(1,2)
    by (simp add: createTransaction_def respond_def tenant_def TenantFromContext_def view_json_snapshot)
  then show ?thesis by (simp add: a rep created_or_replayed_def)
qed


lemma scoped_answer:
  assumes "serve (scoped scope f) cx r s = (hs, Replied rp, s')" and "rp_Status rp < 400" and "cx_Claims cx = Some claims"
    and "sound_endpoint f"
  shows "HasScope claims scope \<and> (\<exists>a. f cx r s = (Inr a, s') \<and> rp = WriteJSON (an_Status a) (an_Body a) \<and> hd_Replay hs = an_Replay a)"
proof -
  have scope: "HasScope claims scope"
    using assms(1-3) by (auto simp: serve_def scoped_def RequireScope_def write_result_def WriteError_def split: if_splits)
  obtain x y where x: "f cx r s = (x, y)" by fastforce
  have "\<not> isl x"
  proof (cases x)
    case (Inl e)
    have e: "e \<in> set catalogue" using spec [OF spec [OF spec [OF assms(4) [unfolded sound_endpoint_def], of cx], of r], of s] by (simp add: x Inl)
    have "rp_Status rp = fst e"
      using assms(1,3) scope x Inl by (auto simp: serve_def scoped_def RequireScope_def write_result_def WriteError_def)
    moreover have "fst e \<ge> 400" using e by (auto simp: catalogue_def)
    ultimately show ?thesis using assms(2) by simp
  qed simp
  then obtain a where a: "x = Inr a" by (cases x) auto
  have "s' = y \<and> rp = WriteJSON (an_Status a) (an_Body a) \<and> hd_Replay hs = an_Replay a"
    using assms(1,3) scope x a by (auto simp: serve_def scoped_def RequireScope_def write_result_def)
  then show ?thesis using scope x a by blast
qed

text \<open>
  C12. A client that sends the same \<open>POST /v1/transactions\<close> again, after a first one that answered 201 and any
  further requests of any tenants and purges of other tenants, is answered 200 with the same body and the
  header \<open>X-Idempotent-Replay\<close>, and the database is not touched: from the socket to the tables, a retry is
  safe, although it draws new identifiers and sees other clocks.
\<close>

theorem http_retry_replays:
  assumes "ledger_step\<^sup>*\<^sup>* empty_db d" and "hq_Method r = ''POST''" and "hq_Path r = [''v1'', ''transactions'']"
    and "NewRouter ienv off fresh ping e cx r (d, c) = (hs, Replied rp, (d1, c1))" and "rp_Status rp = 201"
    and "RequireAuthConfig ienv (service_auth off ''ledger-core'') (auth_request r) c = (Inr claims, c1)"
    and "RequireAuthConfig ienv' (service_auth off ''ledger-core'') (auth_request r) c2 = (Inr claims, c3)"
    and "(unpurged (cl_TenantID claims))\<^sup>*\<^sup>* d1 d2"
    and "lh_transaction e' = lh_transaction e" and "lh_dl e' = d2" and "ev_H (lh_env e') = ev_H (lh_env e)"
    and "ev_uuidString (lh_env e') = ev_uuidString (lh_env e)" and "\<And>k. ev_newV7 (lh_env e') k \<noteq> None"
  shows "\<exists>hs' rp'. NewRouter ienv' off fresh' ping' e' cx r (d2, c2) = (hs', Replied rp', (d2, c3))
    \<and> rp_Status rp' = 200 \<and> rp_Body rp' = rp_Body rp \<and> hd_Replay hs' \<and> \<not> hd_Replay hs"
proof -
  let ?cx = "\<lambda>i. cx\<lparr>cx_RequestID := i, cx_Claims := Some claims\<rparr>"
  let ?r = "r\<lparr>hq_id := ''''\<rparr>"
  obtain i x where x: "serve (scoped ScopeLedgerWrite (createTransaction e)) (?cx i) ?r d = (x, Replied rp, d1)" "hd_Replay hs = hd_Replay x"
    using NewRouter_transactions [OF assms(2,3,6), where e = e and cx = cx and d = d and fresh = fresh and ping = ping]
    unfolding assms(4) by auto
  obtain a where w: "HasScope claims ScopeLedgerWrite" and a: "createTransaction e (?cx i) ?r d = (Inr a, d1)"
      "rp = WriteJSON (an_Status a) (an_Body a)" "hd_Replay x = an_Replay a"
    using scoped_answer [OF x(1), of claims] assms(5) ledger_sound(9) by auto
  have st: "an_Status a = 201" using a(2) assms(5) by (simp add: WriteJSON_def)
  obtain j y rp' d' where y: "serve (scoped ScopeLedgerWrite (createTransaction e')) (?cx j) ?r d2 = (y, Replied rp', d')"
      "\<exists>hs'. NewRouter ienv' off fresh' ping' e' cx r (d2, c2) = (hs', Replied rp', (d', c3)) \<and> hd_Replay hs' = hd_Replay y"
    using NewRouter_transactions [OF assms(2,3,7), where e = e' and cx = cx and d = d2 and fresh = fresh' and ping = ping'] by blast
  have again: "\<not> an_Replay a" "createTransaction e' (?cx j) ?r d2 = (Inr (a\<lparr>an_Status := 200, an_Replay := True\<rparr>), d2)"
    using createTransaction_again [OF ledger.reachable [OF assms(1)] a(1) st _ _ assms(8-13), where cx' = "?cx j"] by auto
  have "d' = d2 \<and> rp' = WriteJSON 200 (an_Body a) \<and> hd_Replay y"
    using y(1) again(2) w by (auto simp: serve_def scoped_def RequireScope_def write_result_def)
  then show ?thesis using y(2) a x(2) again(1) by (auto simp: WriteJSON_def)
qed


section \<open>Samples\<close>

text \<open>A development server (authentication disabled) over the sample database; its decoder yields the sample request.\<close>

definition sample_ident :: IdentEnv where
  "sample_ident = \<lparr>ie_uuidParse = (\<lambda>s. if s = ''t'' then Some 1 else None), ie_header = (\<lambda>_. None), ie_verify = (\<lambda>_ _ _ _. None),
     ie_json = (\<lambda>_. None), ie_resp = None, ie_now = 0, ie_later = 0\<rparr>"

definition sample_http_env :: HttpEnv where
  "sample_http_env = \<lparr>he_uuidParse = (\<lambda>s. if s = ''t'' then Some 1 else None), he_uuidString = sample_uuidString,
     he_timeParse = (\<lambda>_. None), he_timeFormat = (\<lambda>_. '''')\<rparr>"

definition sample_transaction_body :: createTransactionRequest where
  "sample_transaction_body = \<lparr>ctr_LedgerID = 100, ctr_IdempotencyKey = '''', ctr_Reference = '''', ctr_Description = '''',
     ctr_Status = '''', ctr_EffectiveAt = None, ctr_Metadata = None,
     ctr_Postings = [\<lparr>psr_AccountID = 200, psr_Direction = ''debit'', psr_Amount = \<lparr>mb_Asset = ''USD'', mb_Amount = '' 500''\<rparr>\<rparr>,
       \<lparr>psr_AccountID = 300, psr_Direction = ''credit'', psr_Amount = \<lparr>mb_Asset = ''USD'', mb_Amount = ''500''\<rparr>\<rparr>]\<rparr>"

definition sample_http :: "nat \<Rightarrow> Db \<Rightarrow> LedgerHttp" where
  "sample_http n d = \<lparr>lh_http = sample_http_env, lh_env = sample_env n, lh_dl = d, lh_dr = d, lh_ck = id, lh_rfc3339 = (\<lambda>_. None),
     lh_ledger = (\<lambda>s _. Inr (\<lparr>clr_Name = s, clr_Description = '''', clr_Metadata = None\<rparr>, '''')), lh_account = (\<lambda>_ _. Inl EOF),
     lh_transaction = (\<lambda>_ _. Inr (sample_transaction_body, '''')), lh_reverse = (\<lambda>_ _. Inl EOF), lh_hold = (\<lambda>_ _. Inl EOF),
     lh_capture = (\<lambda>_ _. Inl EOF)\<rparr>"

definition sample_ctx :: Ctx where
  "sample_ctx = \<lparr>cx_Claims = None, cx_RequestID = ''''\<rparr>"

definition sample_post :: HttpRequest where
  "sample_post = \<lparr>hq_Method = ''POST'', hq_Path = [''v1'', ''transactions''],
     hq_header = (\<lambda>h. if h = ''X-Tenant-Id'' then ''t'' else if h = ''Idempotency-Key'' then ''k1'' else ''''),
     hq_query = (\<lambda>_. ''''), hq_body = '''', hq_ContentLength = 0, hq_id = ''''\<rparr>"

definition sample_claims :: Claims where
  "sample_claims = \<lparr>cl_Subject = ''dev'', cl_TenantID = 1, cl_Environment = EnvSandbox, cl_Scopes = [ScopeWildcard]\<rparr>"

lemma sample_auth: "RequireAuthConfig sample_ident (service_auth True ''ledger-core'') (auth_request sample_post) c = (Inr sample_claims, c)"
  by (simp add: RequireAuthConfig_def service_auth_def auth_disabled_def sample_ident_def auth_request_def sample_post_def sample_claims_def)

lemma sample_input: "transaction_input (sample_post\<lparr>hq_id := ''''\<rparr>) sample_transaction_body = Inr sample_request"
  by code_simp

lemma sample_created: "fst (CreateTransaction (sample_env 400) sample_accounts_db sample_accounts_db 1 sample_request sample_accounts_db)
    = Inr (fst (projr (fst (CreateTransaction (sample_env 400) sample_accounts_db sample_accounts_db 1 sample_request sample_accounts_db))), False)"
proof -
  let ?c = "CreateTransaction (sample_env 400) sample_accounts_db sample_accounts_db 1 sample_request sample_accounts_db"
  have "\<not> isl (fst ?c) \<and> \<not> snd (projr (fst ?c))" by code_simp
  then show ?thesis by (cases "fst ?c") auto
qed

lemma sample_first:
  assumes "serve (scoped ScopeLedgerWrite (createTransaction (sample_http 400 sample_accounts_db))) (cx\<lparr>cx_RequestID := i, cx_Claims := Some sample_claims\<rparr>)
    (sample_post\<lparr>hq_id := ''''\<rparr>) sample_accounts_db = (hs, Replied rp, d1)"
  shows "rp_Status rp = 201 \<and> d1 = sample_posted_db"
proof -
  have "read_body (lh_transaction (sample_http 400 sample_accounts_db)) (sample_post\<lparr>hq_id := ''''\<rparr>) = Inr sample_transaction_body"
    by (simp add: read_body_def DecodeJSON_def sample_http_def More_def)
  moreover have "tenant (cx\<lparr>cx_RequestID := i, cx_Claims := Some sample_claims\<rparr>) = Inr 1"
    by (simp add: tenant_def TenantFromContext_def sample_claims_def)
  moreover have "lh_env (sample_http 400 sample_accounts_db) = sample_env 400" "lh_dl (sample_http 400 sample_accounts_db) = sample_accounts_db"
    "lh_dr (sample_http 400 sample_accounts_db) = sample_accounts_db" by (simp_all add: sample_http_def)
  ultimately have "createTransaction (sample_http 400 sample_accounts_db) (cx\<lparr>cx_RequestID := i, cx_Claims := Some sample_claims\<rparr>)
      (sample_post\<lparr>hq_id := ''''\<rparr>) sample_accounts_db = (Inr (created_or_replayed False v), d')"
    if "CreateTransaction (sample_env 400) sample_accounts_db sample_accounts_db 1 sample_request sample_accounts_db = (Inr (t, False), d')"
      "v = TransactionBody (newTransactionView t)" for t v d'
    using that by (simp add: createTransaction_def respond_def sample_input)
  then show ?thesis
    using assms sample_created
    by (cases "CreateTransaction (sample_env 400) sample_accounts_db sample_accounts_db 1 sample_request sample_accounts_db")
      (auto simp: serve_def scoped_def RequireScope_def write_result_def WriteJSON_def created_or_replayed_def HasScope_iff sample_claims_def
        sample_posted_db_def)
qed

theorem http_retry_replays_witness:
  "case NewRouter sample_ident True ''r1'' True (sample_http 400 sample_accounts_db) sample_ctx sample_post (sample_accounts_db, newJWKSCache) of
     (_, Replied rp, (d1, c1)) \<Rightarrow>
       (case NewRouter sample_ident True ''r2'' True (sample_http 700 d1) sample_ctx sample_post (d1, c1) of
          (hs', Replied rp', s') \<Rightarrow> s' = (d1, c1) \<and> rp_Status rp' = 200 \<and> rp_Body rp' = rp_Body rp \<and> hd_Replay hs'
        | _ \<Rightarrow> False)
   | _ \<Rightarrow> False"
proof -
  let ?n = "NewRouter sample_ident True ''r1'' True (sample_http 400 sample_accounts_db) sample_ctx sample_post (sample_accounts_db, newJWKSCache)"
  have post: "hq_Method sample_post = ''POST''" "hq_Path sample_post = [''v1'', ''transactions'']" by (simp_all add: sample_post_def)
  obtain hs rp d1 where n: "?n = (hs, Replied rp, (d1, newJWKSCache))" "rp_Status rp = 201"
    using NewRouter_transactions [OF post sample_auth [of newJWKSCache], where cx = sample_ctx and fresh = "''r1''" and ping = True
      and d = sample_accounts_db and e = "sample_http 400 sample_accounts_db"] sample_first by blast
  have e: "lh_transaction (sample_http 700 d1) = lh_transaction (sample_http 400 sample_accounts_db)" "lh_dl (sample_http 700 d1) = d1"
    "ev_H (lh_env (sample_http 700 d1)) = ev_H (lh_env (sample_http 400 sample_accounts_db))"
    "ev_uuidString (lh_env (sample_http 700 d1)) = ev_uuidString (lh_env (sample_http 400 sample_accounts_db))"
    "ev_newV7 (lh_env (sample_http 700 d1)) k \<noteq> None" for k
    by (simp_all add: sample_http_def sample_env_def)
  obtain hs' rp' where "NewRouter sample_ident True ''r2'' True (sample_http 700 d1) sample_ctx sample_post (d1, newJWKSCache) = (hs', Replied rp', (d1, newJWKSCache))"
      "rp_Status rp' = 200" "rp_Body rp' = rp_Body rp" "hd_Replay hs'"
    using http_retry_replays [OF sample_reachable(1) post n sample_auth sample_auth rtranclp.rtrancl_refl e, where fresh' = "''r2''" and ping' = True] by blast
  then show ?thesis unfolding n by simp
qed

text \<open>
  C9. Whatever a request to the ledger server does to the database, it does on behalf of a token: if the
  database differs after a request, the request carried a token the authentication accepts (or, with
  authentication disabled for development, a tenant header), the claims of the token grant \<open>ledger:write\<close>,
  and no row of another tenant was touched.
\<close>

theorem http_write_needs_scope:
  assumes "ledger_step\<^sup>*\<^sup>* empty_db d" and "NewRouter ienv off fresh ping e cx r (d, c) = (hs, out, (d', c'))" and "d' \<noteq> d"
  shows "\<exists>claims. RequireAuthConfig ienv (service_auth off ''ledger-core'') (auth_request r) c = (Inr claims, c')
    \<and> HasScope claims ScopeLedgerWrite \<and> (\<forall>tn. tn \<noteq> cl_TenantID claims \<longrightarrow> tenant_rows tn d' = tenant_rows tn d)"
proof -
  have inv: "ledger_inv d" by (rule ledger.reachable [OF assms(1)])
  obtain claims where k: "RequireAuthConfig ienv (service_auth off ''ledger-core'') (auth_request r) c = (Inr claims, c')"
      "HasScope claims ScopeLedgerWrite" "request (cl_TenantID claims) d d'"
    using NewRouter_authorised [of ienv off fresh ping e] assms(2,3) inv unfolding authorised_def by blast
  have "tenant_rows tn d' = tenant_rows tn d" if "tn \<noteq> cl_TenantID claims" for tn
    using request_evolves_some [OF inv k(3)] evolves_other [OF _ that] by blast
  then show ?thesis using k by blast
qed

theorem http_write_needs_scope_witness:
  "case NewRouter sample_ident True ''r1'' True (sample_http 400 sample_accounts_db) sample_ctx sample_post (sample_accounts_db, newJWKSCache) of
     (_, _, (d', _)) \<Rightarrow> d' \<noteq> sample_accounts_db \<and> tenant_rows 2 d' = tenant_rows 2 sample_accounts_db"
proof -
  let ?n = "NewRouter sample_ident True ''r1'' True (sample_http 400 sample_accounts_db) sample_ctx sample_post (sample_accounts_db, newJWKSCache)"
  have post: "hq_Method sample_post = ''POST''" "hq_Path sample_post = [''v1'', ''transactions'']" by (simp_all add: sample_post_def)
  obtain hs rp where n: "?n = (hs, Replied rp, (sample_posted_db, newJWKSCache))"
    using NewRouter_transactions [OF post sample_auth [of newJWKSCache], where cx = sample_ctx and fresh = "''r1''" and ping = True
      and d = sample_accounts_db and e = "sample_http 400 sample_accounts_db"] sample_first by blast
  have ne: "sample_posted_db \<noteq> sample_accounts_db"
    unfolding sample_posted_db_value sample_accounts_db_value by simp
  have "tenant_rows 2 sample_posted_db = tenant_rows 2 sample_accounts_db"
    using http_write_needs_scope [OF sample_reachable(1) n ne] sample_auth by (auto simp: sample_claims_def)
  then show ?thesis unfolding n using ne by simp
qed

end
