(* ===== verification/Recon_Http.thy ===== *)
theory Recon_Http
  imports Http Recon_Service
begin

text \<open>
  The HTTP adapter of reconciliation, \<open>services/reconciliation/internal/adapters/httpapi\<close>: the wire shapes
  and handlers of \<open>handlers.go\<close> as endpoints over the database, and the server of \<open>server.go\<close>.
\<close>

section \<open>Wire shapes\<close>

record sourceJSON =
  soj_ID :: uuid
  soj_Name :: string
  soj_Kind :: string
  soj_CreatedAt :: timestamp

definition toSourceJSON :: "Source \<Rightarrow> sourceJSON" where
  "toSourceJSON s = \<lparr>soj_ID = src_ID s, soj_Name = src_Name s, soj_Kind = src_Kind s, soj_CreatedAt = src_CreatedAt s\<rparr>"

text \<open>The error text of a failed import is its \<open>statement_error\<close>, omitted when there is none.\<close>

record importJSON =
  imj_ID :: uuid
  imj_SourceID :: uuid
  imj_Filename :: string
  imj_Status :: string
  imj_RowCount :: nat
  imj_Error :: "statement_error option"
  imj_CreatedAt :: timestamp

definition toImportJSON :: "Import \<Rightarrow> importJSON" where
  "toImportJSON i = \<lparr>imj_ID = imp_ID i, imj_SourceID = imp_SourceID i, imj_Filename = imp_Filename i,
     imj_Status = imp_Status i, imj_RowCount = imp_RowCount i, imj_Error = imp_Error i, imj_CreatedAt = imp_CreatedAt i\<rparr>"

record runJSON =
  ruj_ID :: uuid
  ruj_SourceID :: uuid
  ruj_Status :: string
  ruj_MatchedCount :: nat
  ruj_UnmatchedCount :: nat
  ruj_StartedAt :: timestamp
  ruj_FinishedAt :: "timestamp option"

definition toRunJSON :: "Run \<Rightarrow> runJSON" where
  "toRunJSON x = \<lparr>ruj_ID = run_ID x, ruj_SourceID = run_SourceID x, ruj_Status = run_Status x,
     ruj_MatchedCount = run_MatchedCount x, ruj_UnmatchedCount = run_UnmatchedCount x,
     ruj_StartedAt = run_StartedAt x, ruj_FinishedAt = run_FinishedAt x\<rparr>"

record discrepancyJSON =
  dij_ID :: uuid
  dij_RunID :: uuid
  dij_Kind :: string
  dij_Details :: "(string \<times> string) list"
  dij_Status :: string
  dij_CreatedAt :: timestamp

definition toDiscrepancyJSON :: "Discrepancy \<Rightarrow> discrepancyJSON" where
  "toDiscrepancyJSON x = \<lparr>dij_ID = dis_ID x, dij_RunID = dis_RunID x, dij_Kind = dis_Kind x,
     dij_Details = dis_Details x, dij_Status = dis_Status x, dij_CreatedAt = dis_CreatedAt x\<rparr>"

record summaryJSON =
  suj_SourceID :: uuid
  suj_SourceName :: string
  suj_Matched :: nat
  suj_Unmatched :: nat
  suj_Disputed :: nat
  suj_OpenDiscrepancies :: nat

record reportTotals =
  rto_Matched :: nat
  rto_Unmatched :: nat
  rto_Disputed :: nat
  rto_OpenDiscrepancies :: nat

definition toSummaryJSON :: "SourceSummary \<Rightarrow> summaryJSON" where
  "toSummaryJSON s = \<lparr>suj_SourceID = sum_SourceID s, suj_SourceName = sum_SourceName s, suj_Matched = sum_Matched s,
     suj_Unmatched = sum_Unmatched s, suj_Disputed = sum_Disputed s, suj_OpenDiscrepancies = sum_OpenDiscrepancies s\<rparr>"

definition add_summary :: "SourceSummary \<Rightarrow> reportTotals \<Rightarrow> reportTotals" where
  "add_summary s t = \<lparr>rto_Matched = rto_Matched t + sum_Matched s, rto_Unmatched = rto_Unmatched t + sum_Unmatched s,
     rto_Disputed = rto_Disputed t + sum_Disputed s, rto_OpenDiscrepancies = rto_OpenDiscrepancies t + sum_OpenDiscrepancies s\<rparr>"

definition report_totals :: "SourceSummary list \<Rightarrow> reportTotals" where
  "report_totals ss = fold add_summary ss
     \<lparr>rto_Matched = 0, rto_Unmatched = 0, rto_Disputed = 0, rto_OpenDiscrepancies = 0\<rparr>"

datatype recon_body =
    ReconStatusBody string
  | SourceBody sourceJSON | SourcesBody "sourceJSON ListResponse"
  | ImportBody importJSON | RunBody runJSON | ReportBody "summaryJSON list" reportTotals
  | DiscrepancyBody discrepancyJSON | DiscrepanciesBody "discrepancyJSON ListResponse"

text \<open>
  The multipart form of an upload, as the library parses it from the bytes the limited reader lets through:
  what \<open>FormValue\<close> returns for \<open>source_id\<close> (the query of the URL included) and the file, with its name.
\<close>

record import_form =
  fm_source_id :: string
  fm_file :: "(string \<times> string) option"

record createSourceRequest =
  csr_Name :: string
  csr_Kind :: string

record patchDiscrepancyRequest =
  pdr_Status :: string
  pdr_ResolutionNote :: string

record ReconHttp =
  rh_http :: HttpEnv
  rh_env :: ReconEnv
  rh_ck :: "string \<Rightarrow> string"
  rh_csvTime :: "string \<Rightarrow> timestamp option"
  rh_form :: "(string \<Rightarrow> string) \<Rightarrow> string \<Rightarrow> bool \<Rightarrow> import_form option"
  rh_source :: "createSourceRequest decoder"
  rh_run :: "uuid decoder"
  rh_patch :: "patchDiscrepancyRequest decoder"

type_synonym recon_endpoint = "ReconHttp \<Rightarrow> (ReconDb, recon_body) endpoint"

section \<open>Handlers\<close>

definition maxImportBytes :: nat where
  "maxImportBytes = 10 * 2 ^ 20"

definition recon_tenant :: "Ctx \<Rightarrow> refusal + uuid" where
  "recon_tenant cx = (case TenantFromContext (cx_Claims cx) of
     None \<Rightarrow> Inl (401, CodeUnauthorized)
   | Some i \<Rightarrow> if i = uuid_Nil then Inl (401, CodeUnauthorized) else Inr i)"

definition recon_writeErr :: "error \<Rightarrow> refusal" where
  "recon_writeErr e = (if e = ErrNotFound then (404, CodeNotFound)
     else if e = ErrValidation then bad_request else internal_error)"

definition createSource :: recon_endpoint where
  "createSource e cx r = respond
     (bindE (recon_tenant cx) (\<lambda>tn. bindE (read_body (rh_source e) r) (\<lambda>req. Inr (tn, req))))
     (\<lambda>(tn, req). CreateSource (rh_env e) tn (csr_Name req) (csr_Kind req)) recon_writeErr
     (\<lambda>_ s. answer_json 201 (SourceBody (toSourceJSON s)))"

definition listSources :: recon_endpoint where
  "listSources e cx r = respond
     (bindE (recon_tenant cx) (\<lambda>tn. bindE (read_page (rh_http e) r) (\<lambda>p. Inr (tn, p))))
     (\<lambda>(tn, p). ListSources tn (nat (FetchLimit p)) (pg_Cursor p)) recon_writeErr
     (\<lambda>(_, p) xs. answer_json 200 (SourcesBody (window_response (rh_http e)
        (\<lambda>s. \<lparr>c_CreatedAt = src_CreatedAt s, c_ID = src_ID s\<rparr>) toSourceJSON p xs)))"

definition import_input :: "ReconHttp \<Rightarrow> HttpRequest \<Rightarrow> refusal + uuid \<times> string \<times> string" where
  "import_input e r = (case rh_form e (hq_query r) (take maxImportBytes (hq_body r)) (length (hq_body r) > maxImportBytes) of
     None \<Rightarrow> Inl bad_request
   | Some form \<Rightarrow> bindE (parse_id (rh_http e) (fm_source_id form)) (\<lambda>sourceID.
       case fm_file form of None \<Rightarrow> Inl bad_request | Some (filename, content) \<Rightarrow> Inr (sourceID, filename, content)))"

definition createImport :: recon_endpoint where
  "createImport e cx r = respond
     (bindE (recon_tenant cx) (\<lambda>tn. bindE (import_input e r) (\<lambda>inp. Inr (tn, inp))))
     (\<lambda>(tn, sourceID, filename, content). ImportStatement (rh_csvTime e) (rh_env e) tn sourceID filename content) recon_writeErr
     (\<lambda>_ i. answer_json 201 (ImportBody (toImportJSON i)))"

definition createRun :: recon_endpoint where
  "createRun e cx r = respond
     (bindE (recon_tenant cx) (\<lambda>tn. bindE (read_body (rh_run e) r) (\<lambda>sourceID. Inr (tn, sourceID))))
     (\<lambda>(tn, sourceID). StartRun (rh_env e) tn sourceID) recon_writeErr
     (\<lambda>_ x. answer_json 201 (RunBody (toRunJSON x)))"

definition getRun :: recon_endpoint where
  "getRun e cx r = respond
     (bindE (recon_tenant cx) (\<lambda>tn. bindE (pathID (rh_http e) r) (\<lambda>i. Inr (tn, i))))
     (\<lambda>(tn, i). GetRun tn i) recon_writeErr
     (\<lambda>_ x. answer_json 200 (RunBody (toRunJSON x)))"

definition getReports :: recon_endpoint where
  "getReports e cx r = respond (recon_tenant cx) (\<lambda>tn. Report (rh_ck e) tn) recon_writeErr
     (\<lambda>_ ss. answer_json 200 (ReportBody (map toSummaryJSON ss) (report_totals ss)))"

definition listDiscrepancies :: recon_endpoint where
  "listDiscrepancies e cx r = respond
     (bindE (recon_tenant cx) (\<lambda>tn. bindE (read_page (rh_http e) r) (\<lambda>p. Inr (tn, p))))
     (\<lambda>(tn, p). ListDiscrepancies tn (hq_query r ''status'') (nat (FetchLimit p)) (pg_Cursor p)) recon_writeErr
     (\<lambda>(_, p) xs. answer_json 200 (DiscrepanciesBody (window_response (rh_http e)
        (\<lambda>x. \<lparr>c_CreatedAt = dis_CreatedAt x, c_ID = dis_ID x\<rparr>) toDiscrepancyJSON p xs)))"

definition patchDiscrepancy :: recon_endpoint where
  "patchDiscrepancy e cx r = respond
     (bindE (recon_tenant cx) (\<lambda>tn. bindE (pathID (rh_http e) r) (\<lambda>i.
      bindE (read_body (rh_patch e) r) (\<lambda>req. Inr (tn, i, req)))))
     (\<lambda>(tn, i, req). UpdateDiscrepancy tn i (pdr_Status req) (pdr_ResolutionNote req)) recon_writeErr
     (\<lambda>_ x. answer_json 200 (DiscrepancyBody (toDiscrepancyJSON x)))"

section \<open>Server\<close>

definition recon_routes :: "ReconHttp \<Rightarrow> (ReconDb, recon_body) route list" where
  "recon_routes e = (let rd = (\<lambda>f. serve (scoped ScopeReconRead f)); wr = (\<lambda>f. serve (scoped ScopeReconWrite f));
       recon = (\<lambda>p. v1 (Lit ''reconciliation'' # p)) in
    [(''POST'', recon [Lit ''sources''], wr (createSource e)),
     (''GET'', recon [Lit ''sources''], rd (listSources e)),
     (''POST'', recon [Lit ''imports''], wr (createImport e)),
     (''POST'', recon [Lit ''runs''], wr (createRun e)),
     (''GET'', recon [Lit ''runs'', Wild], rd (getRun e)),
     (''GET'', recon [Lit ''reports''], rd (getReports e)),
     (''GET'', recon [Lit ''discrepancies''], rd (listDiscrepancies e)),
     (''PATCH'', recon [Lit ''discrepancies'', Wild], wr (patchDiscrepancy e))])"

definition recon_handler ::
  "IdentEnv \<Rightarrow> bool \<Rightarrow> string \<Rightarrow> bool \<Rightarrow> ReconHttp \<Rightarrow> (ReconDb \<times> jwksCache, recon_body) handler" where
  "recon_handler ienv authDisabled fresh ping e =
     RequestID fresh (Recover (CORSDev (root_mux ReconStatusBody ''ready'' ping
       (authenticated ienv (service_auth authDisabled ''reconciliation'') (mux (recon_routes e) False)))))"

end
