(* ===== verification/Recon_Server.thy ===== *)
theory Recon_Server
  imports Recon_Http Http_Contract
begin

text \<open>
  The reconciliation server meets both contracts of \<open>Http_Contract\<close>: its errors are catalogued, and only a
  request with \<open>reconciliation:write\<close> changes the database, touching no row of another tenant. A lookup of
  what each statement does to the rows of other tenants carries the second.
\<close>

section \<open>Error contract\<close>

lemma recon_tenant_refused [catalogued]: "recon_tenant cx = Inl x \<Longrightarrow> x \<in> set catalogue"
  by (auto simp: recon_tenant_def split: option.splits if_splits)

lemma recon_writeErr_catalogued [catalogued]: "recon_writeErr e \<in> set catalogue"
  by (simp add: recon_writeErr_def)

lemma import_input_refused [catalogued]: "import_input e r = Inl x \<Longrightarrow> x \<in> set catalogue"
  by (auto simp: import_input_def bindE_Inl_iff dest: read_refused split: option.splits)

lemmas recon_endpoint_defs =
  createSource_def listSources_def createImport_def createRun_def getRun_def getReports_def listDiscrepancies_def patchDiscrepancy_def

lemma recon_sound:
  "sound_endpoint (createSource e)" "sound_endpoint (listSources e)" "sound_endpoint (createImport e)"
  "sound_endpoint (createRun e)" "sound_endpoint (getRun e)" "sound_endpoint (getReports e)"
  "sound_endpoint (listDiscrepancies e)" "sound_endpoint (patchDiscrepancy e)"
  unfolding sound_endpoint_def recon_endpoint_defs
  by (intro allI sound_respond; auto simp: bindE_Inl_iff catalogued split: option.splits prod.splits)+

section \<open>Rows of other tenants\<close>

definition recon_rows :: "uuid \<Rightarrow> ReconDb \<Rightarrow> ReconDb" where
  "recon_rows tn d =
     \<lparr>rc_sources = filter (\<lambda>x. src_TenantID x = tn) (rc_sources d), rc_imports = filter (\<lambda>x. imp_TenantID x = tn) (rc_imports d),
      rc_externals = filter (\<lambda>x. ext_TenantID x = tn) (rc_externals d), rc_mirror = filter (\<lambda>x. me_TenantID x = tn) (rc_mirror d),
      rc_runs = filter (\<lambda>x. run_TenantID x = tn) (rc_runs d),
      rc_discrepancies = filter (\<lambda>x. dis_TenantID x = tn) (rc_discrepancies d),
      rc_outbox = filter (\<lambda>x. or_tenant x = tn) (rc_outbox d)\<rparr>"

definition recon_others :: "uuid \<Rightarrow> ReconDb \<Rightarrow> ReconDb \<Rightarrow> bool" where
  "recon_others tn d d' \<longleftrightarrow> (\<forall>tn'. tn' \<noteq> tn \<longrightarrow> recon_rows tn' d' = recon_rows tn' d)"

lemma recon_others_refl [simp, intro!]: "recon_others tn d d"
  by (simp add: recon_others_def)

lemma recon_others_trans: "recon_others tn a b \<Longrightarrow> recon_others tn b c \<Longrightarrow> recon_others tn a c"
  by (simp add: recon_others_def)

lemma filter_map_other:
  "(\<And>x. P x \<Longrightarrow> f x = x) \<Longrightarrow> (\<And>x. \<not> P x \<Longrightarrow> \<not> P (f x)) \<Longrightarrow> filter P (map f xs) = filter P xs"
  by (induction xs) auto

lemma recon_statement_others:
  "InsertSource tn s d = Inr d' \<Longrightarrow> recon_others tn d d'"
  "InsertImport tn imp d = Inr d' \<Longrightarrow> recon_others tn d d'"
  "insert_external tn x d = Inr d' \<Longrightarrow> recon_others tn d d'"
  "InsertRun tn run d = Inr d' \<Longrightarrow> recon_others tn d d'"
  "InsertDiscrepancy tn c d = Inr d' \<Longrightarrow> recon_others tn d d'"
  "InsertOutboxEnvelope at env d = Inr d' \<Longrightarrow> recon_others (env_TenantID env) d d'"
  by (auto simp: InsertSource_def InsertImport_def insert_external_def InsertRun_def InsertDiscrepancy_def InsertOutboxEnvelope_def
      recon_others_def recon_rows_def split: if_splits)

lemma recon_update_others:
  "update_external tn i f d = Inr d' \<Longrightarrow> (\<And>x. ext_TenantID (f x) = ext_TenantID x) \<Longrightarrow> recon_others tn d d'"
  "UpdateRun tn run d = Inr d' \<Longrightarrow> recon_others tn d d'"
  "recon_UpdateDiscrepancy tn c d = Inr d' \<Longrightarrow> recon_others tn d d'"
  by (auto simp: update_external_def UpdateRun_def recon_UpdateDiscrepancy_def recon_others_def recon_rows_def
      split: if_splits intro!: filter_map_other)

lemma mark_others:
  "MarkExternalMatched tn i j d = Inr d' \<Longrightarrow> recon_others tn d d'"
  "MarkExternalDisputed tn i d = Inr d' \<Longrightarrow> recon_others tn d d'"
  "mark_pair tn p d = Inr d' \<Longrightarrow> recon_others tn d d'"
  unfolding MarkExternalMatched_def MarkExternalDisputed_def mark_pair_def by (erule recon_update_others, simp)+

lemma batch_others:
  "batch stmt xs d = Inr d' \<Longrightarrow> (\<And>x a b. stmt x a = Inr b \<Longrightarrow> recon_others tn a b) \<Longrightarrow> recon_others tn d d'"
  by (induction xs arbitrary: d) (auto simp: bindE_Inr_iff, metis recon_others_trans)

lemma record_finding_others:
  assumes "record_finding env tn run kf d = Inr d'" and "run_TenantID run = tn"
  shows "recon_others tn d d'"
proof -
  obtain k f where kf: "kf = (k, f)" by fastforce
  have env: "env_TenantID e = tn" if "discrepancyEnvelope i w run disc f = Inr e" for i w disc e
    using that assms(2) by (auto simp: discrepancyEnvelope_def NewEnvelope_def Let_def split: if_splits option.splits)
  show ?thesis
    using assms(1) unfolding record_finding_def kf
    by (auto simp: bindE_Inr_iff Let_def split: if_splits option.splits
        dest!: mark_others recon_statement_others env intro: recon_others_trans)
qed

lemma Within_others:
  assumes "\<And>x e. fn d = Inr (x, e) \<Longrightarrow> recon_others tn d e"
  shows "recon_others tn d (snd (Within tn fn d))"
  using assms by (auto simp: Within_def split: sum.splits)

lemma CreateSource_others: "recon_others tn d (snd (CreateSource env tn name kind d))"
  by (auto simp: CreateSource_def Let_def bindE_Inr_iff intro!: Within_others dest: recon_statement_others)

lemma store_import_others: "store_import env tn imp parsed d = Inr (x, e) \<Longrightarrow> recon_others tn d e"
  by (auto simp: store_import_def bindE_Inr_iff Let_def InsertExternalTransactions_def split: sum.splits if_splits
      dest!: recon_statement_others(2) batch_others recon_statement_others(3) intro: recon_others_trans)

lemma ImportStatement_others: "recon_others tn d (snd (ImportStatement tp env tn src name csv d))"
  by (auto simp: ImportStatement_def Let_def intro!: Within_others dest: store_import_others)

lemma StartRun_others: "recon_others tn d (snd (StartRun env tn src d))"
proof (cases "src = uuid_Nil")
  case False
  define run where "run = \<lparr>run_ID = rv_newID env 0, run_TenantID = tn, run_SourceID = src, run_Status = RunRunning,
    run_MatchedCount = 0, run_UnmatchedCount = 0, run_StartedAt = rv_now env 0, run_FinishedAt = None\<rparr>"
  have run: "run_TenantID run = tn" by (simp add: run_def)
  have pairs: "batch (mark_pair tn) ps a = Inr b \<Longrightarrow> recon_others tn a b" for ps a b
    by (erule batch_others) (rule mark_others(3))
  have findings: "batch (record_finding env tn run) fs a = Inr b \<Longrightarrow> recon_others tn a b" for fs a b
    by (erule batch_others) (rule record_finding_others [OF _ run])
  show ?thesis
    using False unfolding StartRun_def Let_def run_def [symmetric]
    by (auto simp: bindE_Inr_iff intro!: Within_others dest!: recon_statement_others(4) pairs findings recon_update_others(2))
      (metis recon_others_trans)
qed (simp add: StartRun_def)

lemma UpdateDiscrepancy_others: "recon_others tn d (snd (UpdateDiscrepancy tn i status note d))"
  by (auto simp: UpdateDiscrepancy_def Let_def bindE_Inr_iff intro!: Within_others dest: recon_update_others(3))

section \<open>Authorization\<close>

lemma Within_state: "(\<And>x e. fn d = Inr (x, e) \<Longrightarrow> e = d) \<Longrightarrow> snd (Within tn fn d) = d"
  by (auto simp: Within_def split: sum.splits)

lemma recon_reads:
  "reads good (listSources e)" "reads good (getRun e)" "reads good (getReports e)" "reads good (listDiscrepancies e)"
  unfolding reads_def recon_endpoint_defs respond_state
  by (auto simp: ListSources_def GetRun_def Report_def ListDiscrepancies_def bindE_Inr_iff split: sum.splits prod.splits intro!: Within_state)

lemma recon_tenant_Inr: "recon_tenant cx = Inr tn \<Longrightarrow> \<exists>c. cx_Claims cx = Some c \<and> cl_TenantID c = tn"
  by (auto simp: recon_tenant_def TenantFromContext_def split: option.splits if_splits)

lemma recon_acts:
  "acts good recon_others (createSource e)" "acts good recon_others (createImport e)"
  "acts good recon_others (createRun e)" "acts good recon_others (patchDiscrepancy e)"
  unfolding acts_def recon_endpoint_defs respond_state
  by (auto simp: bindE_Inr_iff split: sum.splits prod.splits dest!: recon_tenant_Inr
      intro: CreateSource_others ImportStatement_others StartRun_others UpdateDiscrepancy_others)

interpretation recon_api: tenant_api "recon_routes e" ScopeReconWrite "\<lambda>_. True" recon_others for e
proof unfold_locales
  fix m p h
  assume "(m, p, h) \<in> set (recon_routes e)"
  then show "keeps_contract h" "guarded ScopeReconWrite (\<lambda>_. True) recon_others h"
    unfolding recon_routes_def Let_def
    by (auto intro: serve_route_contract recon_sound guarded_write guarded_read recon_reads recon_acts)
qed

lemma recon_handler_contract:
  "recon_handler ienv off fresh ping e cx r s = (hs, Replied rp, s') \<Longrightarrow> \<exists>i. hd_RequestId hs = Some i \<and> contract i rp"
  unfolding recon_handler_def
  by (erule RequestID_contract [rotated], intro Recover_contract CORSDev_contract root_mux_contract authenticated_contract
      recon_api.mux_contract)

lemma recon_handler_returns: "returns (recon_handler ienv off fresh ping e)"
  unfolding recon_handler_def
  by (intro returns_server) (auto simp: recon_routes_def Let_def intro: serve_returns)

lemma recon_handler_authorised:
  "authorised ScopeReconWrite (\<lambda>_. True) recon_others ienv (service_auth off ''reconciliation'') (recon_handler ienv off fresh ping e)"
  unfolding recon_handler_def by (intro authorised_server recon_api.authenticated_authorised)

end
