(* ===== verification/Webhook_Http.thy ===== *)
theory Webhook_Http
  imports Http Webhook_Service
begin

text \<open>
  The HTTP adapter of webhooks, \<open>services/webhooks/internal/adapters/httpapi\<close>: the wire shapes and handlers
  of \<open>handlers.go\<close> as endpoints over the database, and the handler of \<open>server.go\<close>. A secret is part of the
  answers to a creation and a rotation only.
\<close>

section \<open>Wire shapes\<close>

record subscriptionDTO =
  sd_ID :: uuid
  sd_URL :: string
  sd_EventTypes :: "string list"
  sd_Active :: bool
  sd_CreatedAt :: timestamp
  sd_Secret :: string

definition toSubscriptionDTO :: "Subscription \<Rightarrow> bool \<Rightarrow> subscriptionDTO" where
  "toSubscriptionDTO s includeSecret = \<lparr>sd_ID = sub_ID s, sd_URL = sub_URL s, sd_EventTypes = sub_EventTypes s,
     sd_Active = sub_Active s, sd_CreatedAt = sub_CreatedAt s, sd_Secret = (if includeSecret then sub_Secret s else '''')\<rparr>"

record deliveryDTO =
  dd_ID :: uuid
  dd_SubscriptionID :: uuid
  dd_EventID :: uuid
  dd_EventType :: string
  dd_Payload :: string
  dd_Status :: string
  dd_Attempts :: int
  dd_NextAttemptAt :: timestamp
  dd_LastStatusCode :: "int option"
  dd_LastError :: "string option"
  dd_CreatedAt :: timestamp
  dd_DeliveredAt :: "timestamp option"

definition toDeliveryDTO :: "Delivery \<Rightarrow> deliveryDTO" where
  "toDeliveryDTO x = \<lparr>dd_ID = del_ID x, dd_SubscriptionID = del_SubscriptionID x, dd_EventID = del_EventID x,
     dd_EventType = del_EventType x, dd_Payload = del_Payload x, dd_Status = del_Status x, dd_Attempts = del_Attempts x,
     dd_NextAttemptAt = del_NextAttemptAt x, dd_LastStatusCode = del_LastStatusCode x, dd_LastError = del_LastError x,
     dd_CreatedAt = del_CreatedAt x, dd_DeliveredAt = del_DeliveredAt x\<rparr>"

datatype webhook_body =
    WebhookStatusBody string
  | SubscriptionBody subscriptionDTO | SubscriptionsBody "subscriptionDTO ListResponse"
  | RotatedBody string string timestamp
  | DeliveryBody deliveryDTO | DeliveriesBody "deliveryDTO ListResponse"

record createSubscriptionRequest =
  cur_URL :: string
  cur_EventTypes :: "string list"

record WebhookHttp =
  wh_http :: HttpEnv
  wh_env :: WebhookEnv
  wh_create :: "createSubscriptionRequest decoder"
  wh_patch :: "SubscriptionPatch decoder"

type_synonym webhook_endpoint = "WebhookHttp \<Rightarrow> (WebhookDb, webhook_body) endpoint"

section \<open>Handlers\<close>

definition requestIdentity :: "Ctx \<Rightarrow> refusal + uuid \<times> bool" where
  "requestIdentity cx = (case cx_Claims cx of
     None \<Rightarrow> Inl (401, CodeUnauthorized)
   | Some c \<Rightarrow> Inr (cl_TenantID c, cl_Environment c = EnvLive))"

definition webhook_writeErr :: "webhook_error \<Rightarrow> refusal" where
  "webhook_writeErr e = (case e of
     ValidationError \<Rightarrow> bad_request
   | WErrNotFound \<Rightarrow> (404, CodeNotFound)
   | WErrConflict \<Rightarrow> (409, CodeConflict)
   | _ \<Rightarrow> internal_error)"

definition createSubscription :: webhook_endpoint where
  "createSubscription e cx r = respond
     (bindE (requestIdentity cx) (\<lambda>who. bindE (read_body (wh_create e) r) (\<lambda>req. Inr (who, req))))
     (\<lambda>((tn, requireHTTPS), req). CreateSubscription (wh_env e) tn requireHTTPS (cur_URL req) (cur_EventTypes req)) webhook_writeErr
     (\<lambda>_ s. answer_json 201 (SubscriptionBody (toSubscriptionDTO s True)))"

definition listSubscriptions :: webhook_endpoint where
  "listSubscriptions e cx r = respond
     (bindE (requestIdentity cx) (\<lambda>who. bindE (read_page (wh_http e) r) (\<lambda>p. Inr (fst who, p))))
     (\<lambda>(tn, p). ListSubscriptions (wh_env e) tn (nat (FetchLimit p)) (pg_Cursor p)) webhook_writeErr
     (\<lambda>(_, p) xs. answer_json 200 (SubscriptionsBody (window_response (wh_http e)
        (\<lambda>s. \<lparr>c_CreatedAt = sub_CreatedAt s, c_ID = sub_ID s\<rparr>) (\<lambda>s. toSubscriptionDTO s False) p xs)))"

definition getSubscription :: webhook_endpoint where
  "getSubscription e cx r = respond
     (bindE (requestIdentity cx) (\<lambda>who. bindE (pathID (wh_http e) r) (\<lambda>i. Inr (fst who, i))))
     (\<lambda>(tn, i). GetSubscription (wh_env e) tn i) webhook_writeErr
     (\<lambda>_ s. answer_json 200 (SubscriptionBody (toSubscriptionDTO s False)))"

definition updateSubscription :: webhook_endpoint where
  "updateSubscription e cx r = respond
     (bindE (requestIdentity cx) (\<lambda>who. bindE (pathID (wh_http e) r) (\<lambda>i.
      bindE (read_body (wh_patch e) r) (\<lambda>patch. Inr (who, i, patch)))))
     (\<lambda>((tn, requireHTTPS), i, patch). UpdateSubscription (wh_env e) tn requireHTTPS i patch) webhook_writeErr
     (\<lambda>_ s. answer_json 200 (SubscriptionBody (toSubscriptionDTO s False)))"

definition rotateSecret :: webhook_endpoint where
  "rotateSecret e cx r = respond
     (bindE (requestIdentity cx) (\<lambda>who. bindE (pathID (wh_http e) r) (\<lambda>i. Inr (fst who, i))))
     (\<lambda>(tn, i). RotateSecret (wh_env e) tn i) webhook_writeErr
     (\<lambda>(_, i) (secret, prevExpires). answer_json 200 (RotatedBody (he_uuidString (wh_http e) i) secret prevExpires))"

definition delivery_filter :: "WebhookHttp \<Rightarrow> HttpRequest \<Rightarrow> refusal + DeliveryFilter" where
  "delivery_filter e r =
     bindE (optionalUUID (wh_http e) (hq_query r ''subscription_id'')) (\<lambda>subID.
     bindE (read_page (wh_http e) r) (\<lambda>p. Inr
       \<lparr>df_Status = hq_query r ''status'', df_SubscriptionID = subID, df_Cursor = pg_Cursor p, df_Limit = pg_Limit p\<rparr>))"

definition listDeliveries :: webhook_endpoint where
  "listDeliveries e cx r = respond
     (bindE (requestIdentity cx) (\<lambda>who. bindE (delivery_filter e r) (\<lambda>f. Inr (fst who, f))))
     (\<lambda>(tn, f). ListDeliveries (encode_cursor (wh_http e)) tn f) webhook_writeErr
     (\<lambda>_ (xs, next). answer_json 200 (DeliveriesBody
        \<lparr>lr_Data = map toDeliveryDTO xs, lr_NextCursor = (if next \<noteq> '''' then Some next else None)\<rparr>))"

definition retryDelivery :: webhook_endpoint where
  "retryDelivery e cx r = respond
     (bindE (requestIdentity cx) (\<lambda>who. bindE (pathID (wh_http e) r) (\<lambda>i. Inr (fst who, i))))
     (\<lambda>(tn, i). RetryDelivery (wh_env e) tn i) webhook_writeErr
     (\<lambda>_ x. answer_json 200 (DeliveryBody (toDeliveryDTO x)))"

section \<open>Server\<close>

definition webhook_routes :: "WebhookHttp \<Rightarrow> (WebhookDb, webhook_body) route list" where
  "webhook_routes e = (let rd = (\<lambda>f. serve (scoped ScopeWebhooksRead f)); wr = (\<lambda>f. serve (scoped ScopeWebhooksWrite f)) in
    [(''POST'', v1 [Lit ''webhook-subscriptions''], wr (createSubscription e)),
     (''GET'', v1 [Lit ''webhook-subscriptions''], rd (listSubscriptions e)),
     (''GET'', v1 [Lit ''webhook-subscriptions'', Wild], rd (getSubscription e)),
     (''PATCH'', v1 [Lit ''webhook-subscriptions'', Wild], wr (updateSubscription e)),
     (''POST'', v1 [Lit ''webhook-subscriptions'', Wild, Lit ''rotate-secret''], wr (rotateSecret e)),
     (''GET'', v1 [Lit ''webhook-deliveries''], rd (listDeliveries e)),
     (''POST'', v1 [Lit ''webhook-deliveries'', Wild, Lit ''retry''], wr (retryDelivery e))])"

text \<open>This service answers no preflight request of a browser: it has no CORS middleware.\<close>

definition webhook_server ::
  "IdentEnv \<Rightarrow> bool \<Rightarrow> string \<Rightarrow> bool \<Rightarrow> WebhookHttp \<Rightarrow> (WebhookDb \<times> jwksCache, webhook_body) handler" where
  "webhook_server ienv authDisabled fresh ping e =
     RequestID fresh (Recover (root_mux WebhookStatusBody ''ready'' ping
       (authenticated ienv (service_auth authDisabled ''webhooks'') (mux (webhook_routes e) False))))"

end
