(* ===== verification/Webhook_Server.thy ===== *)
theory Webhook_Server
  imports Webhook_Http Http_Contract
begin

text \<open>
  The webhooks server meets both contracts of \<open>Http_Contract\<close>: its errors are catalogued, and only a request
  with \<open>webhooks:write\<close> changes the database, touching no row of another tenant.
\<close>

section \<open>Error contract\<close>

lemma requestIdentity_refused [catalogued]: "requestIdentity cx = Inl x \<Longrightarrow> x \<in> set catalogue"
  by (auto simp: requestIdentity_def split: option.splits)

lemma webhook_writeErr_catalogued [catalogued]: "webhook_writeErr e \<in> set catalogue"
  by (simp add: webhook_writeErr_def split: webhook_error.splits)

lemma delivery_filter_refused [catalogued]: "delivery_filter e r = Inl x \<Longrightarrow> x \<in> set catalogue"
  by (auto simp: delivery_filter_def bindE_Inl_iff dest: read_refused)

lemmas webhook_endpoint_defs =
  createSubscription_def listSubscriptions_def getSubscription_def updateSubscription_def rotateSecret_def
  listDeliveries_def retryDelivery_def

lemma webhook_sound:
  "sound_endpoint (createSubscription e)" "sound_endpoint (listSubscriptions e)" "sound_endpoint (getSubscription e)"
  "sound_endpoint (updateSubscription e)" "sound_endpoint (rotateSecret e)" "sound_endpoint (listDeliveries e)"
  "sound_endpoint (retryDelivery e)"
  unfolding sound_endpoint_def webhook_endpoint_defs
  by (intro allI sound_respond; auto simp: bindE_Inl_iff catalogued split: option.splits prod.splits)+

section \<open>Rows of other tenants\<close>

definition webhook_rows :: "uuid \<Rightarrow> WebhookDb \<Rightarrow> WebhookDb" where
  "webhook_rows tn d =
     \<lparr>wd_subs = filter (\<lambda>s. sub_TenantID s = tn) (wd_subs d), wd_dels = filter (\<lambda>x. del_TenantID x = tn) (wd_dels d)\<rparr>"

definition webhook_others :: "uuid \<Rightarrow> WebhookDb \<Rightarrow> WebhookDb \<Rightarrow> bool" where
  "webhook_others tn d d' \<longleftrightarrow> (\<forall>tn'. tn' \<noteq> tn \<longrightarrow> webhook_rows tn' d' = webhook_rows tn' d)"

lemma webhook_others_refl [simp, intro!]: "webhook_others tn d d"
  by (simp add: webhook_others_def)

lemma filter_update_other:
  "(\<And>x. Q x \<Longrightarrow> \<not> P x \<and> \<not> P (f x)) \<Longrightarrow> filter P (map (\<lambda>x. if Q x then f x else x) xs) = filter P xs"
  by (induction xs) auto

lemma update_subs_others:
  "(\<And>s. sub_TenantID (f s) = sub_TenantID s) \<Longrightarrow> webhook_others tn d (update_subs (\<lambda>s. sub_ID s = i \<and> sub_TenantID s = tn) f d)"
  by (auto simp: webhook_others_def webhook_rows_def update_subs_def intro!: filter_update_other)

lemma update_dels_others:
  "(\<And>x. del_TenantID (f x) = del_TenantID x) \<Longrightarrow> webhook_others tn d (update_dels (\<lambda>x. del_ID x = i \<and> del_TenantID x = tn) f d)"
  by (auto simp: webhook_others_def webhook_rows_def update_dels_def intro!: filter_update_other)

lemma tenant_tx_others: "(\<And>x e. fn d = Inr (x, e) \<Longrightarrow> webhook_others tn' d e) \<Longrightarrow> webhook_others tn' d (snd (tenant_tx tn fn d))"
  by (auto simp: tenant_tx_def system_tx_def split: sum.splits)

lemma tenant_tx_same: "(\<And>x e. fn d = Inr (x, e) \<Longrightarrow> e = d) \<Longrightarrow> snd (tenant_tx tn fn d) = d"
  by (auto simp: tenant_tx_def system_tx_def split: sum.splits)

lemma CreateSubscription_others: "webhook_others tn d (snd (CreateSubscription env tn https url types d))"
proof -
  have ins: "webhook_others (sub_TenantID sub) d e" if "insert_subscription sub d = Inr (x, e)" for sub x e
    using that by (auto simp: insert_subscription_def webhook_others_def webhook_rows_def split: if_splits)
  have create: "webhook_others (sub_TenantID sub) d (snd (repo_Create cph nonce us sub d))" for cph nonce us sub
    using ins by (auto simp: repo_Create_def split: sum.splits intro!: tenant_tx_others) fastforce
  show ?thesis
    by (auto simp: CreateSubscription_def Let_def split: sum.splits prod.splits)
      (metis create snd_conv Subscription.select_convs(2))+
qed

lemma UpdateSubscription_others: "webhook_others tn d (snd (UpdateSubscription env tn https i patch d))"
  by (auto simp: UpdateSubscription_def repo_Update_def Let_def bindE_Inr_iff patch_columns_def split: sum.splits if_splits
      intro!: tenant_tx_others update_subs_others)

lemma RotateSecret_others: "webhook_others tn d (snd (RotateSecret env tn i d))"
proof -
  have "webhook_others tn d (snd (repo_RotateSecret cph nonce us tn i secret prev d))" for cph nonce us secret prev
    by (auto simp: repo_RotateSecret_def install_secret_def split: sum.splits option.splits intro!: tenant_tx_others update_subs_others)
  then show ?thesis
    by (auto simp: RotateSecret_def Let_def split: sum.splits prod.splits) (metis snd_conv)+
qed

lemma RetryDelivery_others: "webhook_others tn d (snd (RetryDelivery env tn i d))"
  by (auto simp: RetryDelivery_def repo_Requeue_def Let_def split: option.splits if_splits intro!: tenant_tx_others update_dels_others)

section \<open>Authorization\<close>

lemma webhook_reads:
  "reads good (listSubscriptions e)" "reads good (getSubscription e)" "reads good (listDeliveries e)"
  unfolding reads_def webhook_endpoint_defs respond_state
  by (auto simp: ListSubscriptions_def repo_List_def querySubscriptions_def GetSubscription_def repo_Get_def ListDeliveries_def
      repo_ListDeliveries_def Let_def bindE_Inr_iff split: sum.splits prod.splits if_splits intro!: tenant_tx_same)

lemma requestIdentity_Inr: "requestIdentity cx = Inr who \<Longrightarrow> \<exists>c. cx_Claims cx = Some c \<and> cl_TenantID c = fst who"
  by (auto simp: requestIdentity_def split: option.splits)

lemma webhook_acts:
  "acts good webhook_others (createSubscription e)" "acts good webhook_others (updateSubscription e)"
  "acts good webhook_others (rotateSecret e)" "acts good webhook_others (retryDelivery e)"
  unfolding acts_def webhook_endpoint_defs respond_state
  by (auto simp: bindE_Inr_iff split: sum.splits prod.splits dest!: requestIdentity_Inr
      intro: CreateSubscription_others UpdateSubscription_others RotateSecret_others RetryDelivery_others)

interpretation webhook_api: tenant_api "webhook_routes e" ScopeWebhooksWrite "\<lambda>_. True" webhook_others for e
proof unfold_locales
  fix m p h
  assume "(m, p, h) \<in> set (webhook_routes e)"
  then show "keeps_contract h" "guarded ScopeWebhooksWrite (\<lambda>_. True) webhook_others h"
    unfolding webhook_routes_def Let_def
    by (auto intro: serve_route_contract webhook_sound guarded_write guarded_read webhook_reads webhook_acts)
qed

lemma webhook_server_contract:
  "webhook_server ienv off fresh ping e cx r s = (hs, Replied rp, s') \<Longrightarrow> \<exists>i. hd_RequestId hs = Some i \<and> contract i rp"
  unfolding webhook_server_def
  by (erule RequestID_contract [rotated], intro Recover_contract root_mux_contract authenticated_contract webhook_api.mux_contract)

lemma webhook_server_returns: "returns (webhook_server ienv off fresh ping e)"
  unfolding webhook_server_def
  by (intro returns_server) (auto simp: webhook_routes_def Let_def intro: serve_returns)

lemma webhook_server_authorised:
  "authorised ScopeWebhooksWrite (\<lambda>_. True) webhook_others ienv (service_auth off ''webhooks'') (webhook_server ienv off fresh ping e)"
  unfolding webhook_server_def by (intro authorised_server webhook_api.authenticated_authorised)

end
