(* ===== verification/Identity_Http.thy ===== *)
theory Identity_Http
  imports Http Identity_Service
begin

text \<open>
  The HTTP adapter of the identity service, \<open>services/identity/internal/adapters/http\<close>: the response shapes
  and handlers of \<open>handlers.go\<close> and the server of \<open>server.go\<close>, with the administrator's gate. Two use cases
  draw a secret and may not return (\<open>Identity_Service\<close>); their handlers then diverge.
\<close>

section \<open>Response shapes\<close>

record tenantResponse =
  ter_ID :: uuid
  ter_Name :: string
  ter_Slug :: string
  ter_Status :: string
  ter_CreatedAt :: timestamp

definition toTenantResponse :: "Tenant \<Rightarrow> tenantResponse" where
  "toTenantResponse t = \<lparr>ter_ID = tn_ID t, ter_Name = tn_Name t, ter_Slug = tn_Slug t, ter_Status = tn_Status t,
     ter_CreatedAt = tn_CreatedAt t\<rparr>"

record apiKeyResponse =
  akr_ID :: uuid
  akr_TenantID :: uuid
  akr_Environment :: string
  akr_Name :: string
  akr_KeyPrefix :: string
  akr_Scopes :: "string list"
  akr_Secret :: string
  akr_CreatedAt :: timestamp

definition toAPIKeyResponse :: "APIKey \<Rightarrow> string \<Rightarrow> apiKeyResponse" where
  "toAPIKeyResponse k secret = \<lparr>akr_ID = ak_ID k, akr_TenantID = ak_TenantID k, akr_Environment = ak_Environment k,
     akr_Name = ak_Name k, akr_KeyPrefix = ak_KeyPrefix k, akr_Scopes = ak_Scopes k, akr_Secret = secret,
     akr_CreatedAt = ak_CreatedAt k\<rparr>"

record signupResponse =
  sir_TenantID :: uuid
  sir_Slug :: string
  sir_APIKey :: string
  sir_KeyPrefix :: string
  sir_ExpiresAt :: "timestamp option"

definition toSignupResponse :: "SandboxSignup \<Rightarrow> signupResponse" where
  "toSignupResponse s = \<lparr>sir_TenantID = tn_ID (ss_Tenant s), sir_Slug = tn_Slug (ss_Tenant s), sir_APIKey = ss_Secret s,
     sir_KeyPrefix = ak_KeyPrefix (ss_Key s), sir_ExpiresAt = tn_ExpiresAt (ss_Tenant s)\<rparr>"

datatype identity_body =
    IdentityStatusBody string
  | TenantBody tenantResponse | TenantsBody "tenantResponse ListResponse"
  | APIKeyBody apiKeyResponse | SignupBody signupResponse | TokenBody IssuedToken | JWKSBody "JWK list"

record createTenantRequest =
  cte_Name :: string
  cte_Slug :: string

record createAPIKeyRequest =
  cak_TenantID :: string
  cak_Environment :: string
  cak_Name :: string
  cak_Scopes :: "string list"

record signupRequest =
  sgr_Email :: string
  sgr_CompanyName :: string

record tokenRequest =
  tkr_APIKey :: string
  tkr_APIKeyID :: string
  tkr_APIKeySecret :: string

record IdentityHttp =
  ih_http :: HttpEnv
  ih_world :: IdentityWorld
  ih_issuer :: TokenIssuer
  ih_pem :: "string \<Rightarrow> string option"
  ih_dailyLimit :: int
  ih_tenant :: "createTenantRequest decoder"
  ih_apiKey :: "createAPIKeyRequest decoder"
  ih_signup :: "signupRequest decoder"
  ih_token :: "tokenRequest decoder"

type_synonym identity_endpoint = "IdentityHttp \<Rightarrow> (IdentityDb, identity_body) endpoint"

section \<open>Handlers\<close>

definition identity_writeErr :: "identity_error \<Rightarrow> refusal" where
  "identity_writeErr e = (case e of
     IdValidationError \<Rightarrow> bad_request
   | IdErrNotFound \<Rightarrow> (404, CodeNotFound)
   | ErrSlugConflict \<Rightarrow> (409, CodeConflict)
   | ErrEmailTaken \<Rightarrow> (409, CodeConflict)
   | ErrSignupLimitReached \<Rightarrow> (429, CodeRateLimited)
   | ErrInvalidCredentials \<Rightarrow> (401, CodeUnauthorized)
   | _ \<Rightarrow> internal_error)"

definition handleCreateTenant :: identity_endpoint where
  "handleCreateTenant e cx r = respond (read_body (ih_tenant e) r)
     (\<lambda>req. CreateTenant (ih_world e) (cte_Name req) (cte_Slug req)) identity_writeErr
     (\<lambda>_ t. answer_json 201 (TenantBody (toTenantResponse t)))"

definition handleGetTenant :: identity_endpoint where
  "handleGetTenant e cx r = respond (pathID (ih_http e) r) (\<lambda>i d. (GetTenant i d, d)) identity_writeErr
     (\<lambda>_ t. answer_json 200 (TenantBody (toTenantResponse t)))"

definition handleListTenants :: identity_endpoint where
  "handleListTenants e cx r = respond (read_page (ih_http e) r)
     (\<lambda>p d. (Inr (ListTenants (nat (FetchLimit p)) (pg_Cursor p) d), d)) identity_writeErr
     (\<lambda>p ts. answer_json 200 (TenantsBody (window_response (ih_http e)
        (\<lambda>t. \<lparr>c_CreatedAt = tn_CreatedAt t, c_ID = tn_ID t\<rparr>) toTenantResponse p ts)))"

text \<open>The two handlers whose use case draws a secret.\<close>

definition serve_drawing ::
  "(refusal + 'i) \<Rightarrow> ('i \<Rightarrow> 's \<Rightarrow> (('e + 'a) \<times> 's) option) \<Rightarrow> ('e \<Rightarrow> refusal) \<Rightarrow> ('a \<Rightarrow> 'b answer) \<Rightarrow> Ctx \<Rightarrow> 's \<Rightarrow> Headers \<times> 'b Outcome \<times> 's" where
  "serve_drawing input use_case on_error view cx s = (case input of
     Inl e \<Rightarrow> write_result (Inl e, s) cx
   | Inr i \<Rightarrow> (case use_case i s of
       None \<Rightarrow> (no_headers, Diverged, s)
     | Some (Inl e, s') \<Rightarrow> write_result (Inl (on_error e), s') cx
     | Some (Inr x, s') \<Rightarrow> write_result (Inr (view x), s') cx))"

definition handleCreateAPIKey :: "IdentityHttp \<Rightarrow> (IdentityDb, identity_body) handler" where
  "handleCreateAPIKey e cx r = serve_drawing
     (bindE (read_body (ih_apiKey e) r) (\<lambda>req. bindE (parse_id (ih_http e) (cak_TenantID req)) (\<lambda>tn. Inr (tn, req))))
     (\<lambda>(tn, req). CreateAPIKey (ih_world e) tn (cak_Environment req) (cak_Name req) (cak_Scopes req)) identity_writeErr
     (\<lambda>(key, secret). answer_json 201 (APIKeyBody (toAPIKeyResponse key secret))) cx"

definition handleRevokeAPIKey :: identity_endpoint where
  "handleRevokeAPIKey e cx r = respond (pathID (ih_http e) r) (\<lambda>i. RevokeAPIKey (ih_world e) i) identity_writeErr
     (\<lambda>_ _. \<lparr>an_Status = 204, an_Replay = False, an_CacheControl = '''', an_Body = None\<rparr>)"

definition handleSandboxSignup :: "IdentityHttp \<Rightarrow> (IdentityDb, identity_body) handler" where
  "handleSandboxSignup e cx r = serve_drawing (read_body (ih_signup e) r)
     (\<lambda>req. Signup (ih_world e) (ih_dailyLimit e) (sgr_Email req) (sgr_CompanyName req)) identity_writeErr
     (\<lambda>s. answer_json 201 (SignupBody (toSignupResponse s))) cx"

definition token_secret :: "tokenRequest \<Rightarrow> refusal + string" where
  "token_secret req = (let k = (if tkr_APIKey req = '''' then tkr_APIKeySecret req else tkr_APIKey req)
     in if k = '''' then Inl bad_request else Inr k)"

definition handleIssueToken :: identity_endpoint where
  "handleIssueToken e cx r = respond (bindE (read_body (ih_token e) r) token_secret)
     (\<lambda>secret d. (IssueToken (ih_world e) (ih_issuer e) secret d, d)) identity_writeErr
     (\<lambda>_ t. answer_json 200 (TokenBody t))"

definition handleJWKS :: identity_endpoint where
  "handleJWKS e cx r = respond (Inr ()) (\<lambda>_ d. (JWKS (ih_pem e) (iw_us (ih_world e)) d, d)) identity_writeErr
     (\<lambda>_ doc. \<lparr>an_Status = 200, an_Replay = False, an_CacheControl = ''public, max-age=300'', an_Body = Some (JWKSBody doc)\<rparr>)"

section \<open>Server\<close>

text \<open>
  \<open>subtle.ConstantTimeCompare\<close> is equality as a function; how long it takes is not modelled.
\<close>

definition admin_credential :: "HttpRequest \<Rightarrow> string" where
  "admin_credential r = (let got = hq_header r ''X-Admin-Token''; auth = hq_header r ''Authorization'' in
     if got = '''' \<and> take (length bearer) auth = bearer then drop (length bearer) auth else got)"

definition admin :: "string \<Rightarrow> ('s, 'b) handler \<Rightarrow> ('s, 'b) handler" where
  "admin adminToken h cx r s =
     (if adminToken = '''' then (no_headers, Replied (WriteError cx (503, CodeServiceUnavailable)), s)
      else if admin_credential r \<noteq> adminToken then (no_headers, Replied (WriteError cx (401, CodeUnauthorized)), s)
      else h cx r s)"

definition identity_routes :: "IdentityHttp \<Rightarrow> string \<Rightarrow> bool \<Rightarrow> bool \<Rightarrow> (IdentityDb, identity_body) route list" where
  "identity_routes e adminToken sandbox ping =
     probes IdentityStatusBody ''ready'' ping
   @ [(''POST'', v1 [Lit ''auth'', Lit ''token''], serve (handleIssueToken e)),
      (''GET'', [Lit ''.well-known'', Lit ''jwks.json''], serve (handleJWKS e))]
   @ (if sandbox then [(''POST'', v1 [Lit ''sandbox'', Lit ''signups''], handleSandboxSignup e)] else [])
   @ [(''POST'', v1 [Lit ''tenants''], admin adminToken (serve (handleCreateTenant e))),
      (''GET'', v1 [Lit ''tenants''], admin adminToken (serve (handleListTenants e))),
      (''GET'', v1 [Lit ''tenants'', Wild], admin adminToken (serve (handleGetTenant e))),
      (''POST'', v1 [Lit ''api-keys''], admin adminToken (handleCreateAPIKey e)),
      (''DELETE'', v1 [Lit ''api-keys'', Wild], admin adminToken (serve (handleRevokeAPIKey e)))]"

text \<open>Unlike the other services, the recovery from a panic is outside of the request id.\<close>

definition identity_handler ::
  "string \<Rightarrow> bool \<Rightarrow> bool \<Rightarrow> string \<Rightarrow> IdentityHttp \<Rightarrow> (IdentityDb, identity_body) handler" where
  "identity_handler adminToken sandbox ping fresh e =
     Recover (RequestID fresh (CORSDev (mux (identity_routes e adminToken sandbox ping) False)))"

end
