(* ===== verification/Identity_Server.thy ===== *)
theory Identity_Server
  imports Identity_Http Http_Contract Identity_States
begin

text \<open>
  The identity server meets the error contract of \<open>Http_Contract\<close>, and its database changes only by a request
  with the administrator's token or by a sandbox signup.
\<close>

section \<open>Error contract\<close>

lemma identity_writeErr_catalogued [catalogued]: "identity_writeErr e \<in> set catalogue"
  by (simp add: identity_writeErr_def split: identity_error.splits)

lemma token_secret_refused [catalogued]: "token_secret req = Inl x \<Longrightarrow> x \<in> set catalogue"
  by (auto simp: token_secret_def Let_def split: if_splits)

lemmas identity_endpoint_defs =
  handleCreateTenant_def handleGetTenant_def handleListTenants_def handleRevokeAPIKey_def handleIssueToken_def handleJWKS_def

lemma identity_sound:
  "sound_endpoint (handleCreateTenant e)" "sound_endpoint (handleGetTenant e)" "sound_endpoint (handleListTenants e)"
  "sound_endpoint (handleRevokeAPIKey e)" "sound_endpoint (handleIssueToken e)" "sound_endpoint (handleJWKS e)"
  unfolding sound_endpoint_def identity_endpoint_defs
  by (intro allI sound_respond; auto simp: bindE_Inl_iff catalogued split: option.splits prod.splits)+

lemma serve_drawing_contract:
  assumes "\<And>r x. input r = Inl x \<Longrightarrow> x \<in> set catalogue" "\<And>e. on_error e \<in> set catalogue" "\<And>x. an_Status (view x) < 400"
  shows "keeps_contract (\<lambda>cx r s. serve_drawing (input r) use_case on_error view cx s)"
proof (rule keeps_contractI)
  fix cx r s hs rp s'
  assume a: "serve_drawing (input r) use_case on_error view cx s = (hs, Replied rp, s')"
  show "contract (cx_RequestID cx) rp"
  proof (cases "input r")
    case (Inl x)
    then show ?thesis using a assms(1) [OF Inl] by (auto simp: serve_drawing_def write_result_def)
  next
    case (Inr i)
    then obtain y t where "use_case i s = Some (y, t)" using a by (cases "use_case i s") (auto simp: serve_drawing_def)
    then show ?thesis
      using a Inr assms(2,3) by (cases y) (auto simp: serve_drawing_def write_result_def simp del: split_paired_All)
  qed
qed

lemma drawing_contract: "keeps_contract (handleCreateAPIKey e)" "keeps_contract (handleSandboxSignup e)"
  unfolding handleCreateAPIKey_def handleSandboxSignup_def
  by (intro serve_drawing_contract; auto simp: bindE_Inl_iff catalogued split: prod.splits)+

lemma admin_contract: "keeps_contract h \<Longrightarrow> keeps_contract (admin adminToken h)"
  by (rule keeps_contractI) (auto simp: admin_def split: if_splits dest: keeps_contractD)

interpretation identity_api: api "identity_routes e adminToken sandbox ping" for e adminToken sandbox ping
proof unfold_locales
  fix m p h
  assume "(m, p, h) \<in> set (identity_routes e adminToken sandbox ping)"
  then show "keeps_contract h"
    using probe_api.route_contract
    by (auto simp: identity_routes_def split: if_splits
        intro: admin_contract drawing_contract serve_contract identity_sound)
qed

text \<open>No handler of the service panics, so the outermost recovery, which knows no request id, is never needed.\<close>

definition calm :: "('s, 'b) handler \<Rightarrow> bool" where
  "calm h \<longleftrightarrow> (\<forall>cx r s hs s'. h cx r s \<noteq> (hs, Panicked, s'))"

lemma write_result_replied: "\<exists>rp. write_result res cx = (fst (write_result res cx), Replied rp, snd res)"
  by (auto simp: write_result_def split: sum.splits prod.splits)

lemma calm_serve: "calm (serve f)"
  unfolding calm_def serve_def using write_result_replied by (metis Outcome.distinct(1) prod.inject)

lemma calm_drawing: "calm (\<lambda>cx r s. serve_drawing (input r) use_case on_error view cx s)"
  unfolding calm_def serve_drawing_def write_result_def by (auto split: sum.splits option.splits prod.splits)

lemma calm_admin: "calm h \<Longrightarrow> calm (admin adminToken h)"
  unfolding calm_def admin_def by auto

lemma calm_mux:
  assumes "\<And>m p h. (m, p, h) \<in> set rs \<Longrightarrow> calm h"
  shows "calm (mux rs other)"
  unfolding calm_def
proof (intro allI notI)
  fix cx r s hs s'
  assume "mux rs other cx r s = (hs, Panicked, s')"
  then obtain m p h x where "(m, p, h) \<in> set rs" "h cx (r\<lparr>hq_id := x\<rparr>) s = (hs, Panicked, s')"
    using mux_cases [of rs other cx r s] by auto
  then show False using assms unfolding calm_def by blast
qed

lemma identity_mux_calm: "calm (mux (identity_routes e adminToken sandbox ping) other)"
  by (rule calm_mux)
    (auto simp: identity_routes_def probes_def handleCreateAPIKey_def [abs_def] handleSandboxSignup_def [abs_def]
      split: if_splits intro: calm_serve calm_admin calm_drawing)

lemma calm_chain: "calm h \<Longrightarrow> Recover (RequestID fresh (CORSDev h)) cx r s = RequestID fresh (CORSDev h) cx r s"
  unfolding Recover_def
  by (auto simp: calm_def RequestID_def CORSDev_def Let_def split: prod.splits Outcome.splits if_splits)

lemma identity_handler_contract:
  assumes "identity_handler adminToken sandbox ping fresh e cx r s = (hs, Replied rp, s')"
  shows "\<exists>i. hd_RequestId hs = Some i \<and> contract i rp"
proof (rule RequestID_contract)
  show "keeps_contract (CORSDev (mux (identity_routes e adminToken sandbox ping) False))"
    by (intro CORSDev_contract identity_api.mux_contract)
  show "RequestID fresh (CORSDev (mux (identity_routes e adminToken sandbox ping) False)) cx r s = (hs, Replied rp, s')"
    using assms unfolding identity_handler_def calm_chain [OF identity_mux_calm] .
qed

section \<open>The administrator's gate\<close>

definition gated :: "string \<Rightarrow> ('s, 'b) handler \<Rightarrow> bool" where
  "gated adminToken h \<longleftrightarrow> (\<forall>cx r s hs out s'. h cx r s = (hs, out, s') \<longrightarrow> s' = s \<or> adminToken \<noteq> '''' \<and> admin_credential r = adminToken)"

lemma gated_admin: "gated adminToken (admin adminToken h)"
  unfolding gated_def admin_def by auto

lemma gated_read: "(\<And>cx r s. snd (f cx r s) = s) \<Longrightarrow> gated adminToken (serve f)"
  unfolding gated_def using serve_state by metis

lemma identity_reads: "snd (handleIssueToken e cx r s) = s" "snd (handleJWKS e cx r s) = s"
  by (auto simp: handleIssueToken_def handleJWKS_def respond_state split: sum.splits)

lemma identity_routes_gated:
  assumes "(m, p, h) \<in> set (identity_routes e adminToken sandbox ping)"
  shows "gated adminToken h \<or> sandbox \<and> m = ''POST'' \<and> p = v1 [Lit ''sandbox'', Lit ''signups''] \<and> h = handleSandboxSignup e"
  using assms unfolding identity_routes_def probes_def
  by (auto split: if_splits intro!: gated_admin gated_read identity_reads)

lemma admin_credential_id [simp]: "admin_credential (r\<lparr>hq_id := x\<rparr>) = admin_credential r"
  by (simp add: admin_credential_def)

lemma match_signup: "match_path (v1 [Lit ''sandbox'', Lit ''signups'']) ps = Some x \<longleftrightarrow> ps = [''v1'', ''sandbox'', ''signups''] \<and> x = ''''"
  by (cases ps; cases "tl ps"; cases "tl (tl ps)"; cases "tl (tl (tl ps))") (auto simp: v1_def split: if_splits)

text \<open>What a signup through HTTP does to the database, when it does anything.\<close>

definition one_signup :: "IdentityDb \<Rightarrow> IdentityDb \<Rightarrow> bool" where
  "one_signup d d' \<longleftrightarrow> (\<exists>t k su. d' = d\<lparr>id_tenants := id_tenants d @ [t], id_keys := id_keys d @ [k], id_signups := id_signups d @ [su]\<rparr>
     \<and> tn_ExpiresAt t \<noteq> None \<and> tn_Status t = TenantStatusActive \<and> ak_TenantID k = tn_ID t \<and> su_tenant su = tn_ID t
     \<and> ak_Environment k = EnvironmentSandbox \<and> su_email su \<notin> su_email ` set (id_signups d))"

lemma Signup_effect:
  assumes "Signup w limit email company d = Some (r, d')" and "d' \<noteq> d"
  shows "one_signup d d'"
  using assms(1)
proof (cases rule: Signup_cases)
  case (added i j secret em co)
  from added(6) show ?thesis
  proof (rule provision_Inr)
    assume "em \<notin> su_email ` set (id_signups d)"
      and "d' = d\<lparr>id_tenants := id_tenants d @ [sandbox_tenant w i co], id_keys := id_keys d
          @ [(new_api_key w j i EnvironmentSandbox ''sandbox signup key'' secret DefaultScopes)\<lparr>ak_Scopes := [], ak_RevokedAt := None\<rparr>],
        id_signups := id_signups d @ [\<lparr>su_email = em, su_tenant = tn_ID (sandbox_tenant w i co), su_created_at = tn_CreatedAt (sandbox_tenant w i co)\<rparr>]\<rparr>"
    then show ?thesis
      unfolding one_signup_def by (intro exI conjI) (assumption | simp add: sandbox_tenant_def new_api_key_def)+
  qed
qed (use assms(2) in simp)

lemma handleSandboxSignup_effect:
  assumes "handleSandboxSignup e cx r d = (hs, out, d')" and "d' \<noteq> d"
  shows "one_signup d d'"
  using assms unfolding handleSandboxSignup_def serve_drawing_def write_result_def
  by (auto split: sum.splits option.splits prod.splits dest: Signup_effect)

lemma identity_change:
  assumes "identity_handler adminToken sandbox ping fresh e cx r s = (hs, out, s')" and "s' \<noteq> s"
  shows "adminToken \<noteq> '''' \<and> admin_credential r = adminToken
    \<or> sandbox \<and> hq_Method r = ''POST'' \<and> hq_Path r = [''v1'', ''sandbox'', ''signups''] \<and> one_signup s s'"
proof -
  let ?rs = "identity_routes e adminToken sandbox ping"
  obtain cx' hs' out' where m: "mux ?rs False cx' r s = (hs', out', s')"
    using assms unfolding identity_handler_def calm_chain [OF identity_mux_calm]
    by (auto simp: RequestID_def CORSDev_def Let_def split: prod.splits if_splits)
  then obtain k p h x where h: "(k, p, h) \<in> set ?rs" "match_path p (hq_Path r) = Some x" "match_method (hq_Method r) k"
      "h cx' (r\<lparr>hq_id := x\<rparr>) s = (hs', out', s')"
    using mux_cases [of ?rs False cx' r s] assms(2) by auto
  show ?thesis
    using identity_routes_gated [OF h(1)]
  proof
    assume "gated adminToken h"
    then show ?thesis using h(4) assms(2) unfolding gated_def by fastforce
  next
    assume a: "sandbox \<and> k = ''POST'' \<and> p = v1 [Lit ''sandbox'', Lit ''signups''] \<and> h = handleSandboxSignup e"
    then have "one_signup s s'" using handleSandboxSignup_effect h(4) assms(2) by blast
    then show ?thesis using a h(2,3) match_signup by (auto simp: match_method_def)
  qed
qed

lemma identity_never_panics: "identity_handler adminToken sandbox ping fresh e cx r s \<noteq> (hs, Panicked, s')"
proof -
  have "calm (CORSDev (mux (identity_routes e adminToken sandbox ping) False))"
    using identity_mux_calm unfolding calm_def CORSDev_def by (auto simp: Let_def split: prod.splits)
  then have "calm (RequestID fresh (CORSDev (mux (identity_routes e adminToken sandbox ping) False)))"
    unfolding calm_def RequestID_def by (auto simp: Let_def split: prod.splits)
  then show ?thesis unfolding identity_handler_def calm_chain [OF identity_mux_calm] calm_def by blast
qed

end
