(* ===== verification/Http_Theorems.thy ===== *)
theory Http_Theorems
  imports Ledger_Server Recon_Server Webhook_Server Identity_Server Identity_Theorems
begin

text \<open>
  Properties of the four servers seen from the network: the error contract, who may change what, and the two
  places where the library departs from what it says of itself.
\<close>

section \<open>Errors\<close>

text \<open>
  C15. The error contract of the platform: every request to the ledger, reconciliation or webhooks server gets
  exactly one reply, every response carries a request id in its header, and every error of a handler or
  middleware has a status and code of the catalogue and a body that names the id of the header; only the
  multiplexer itself answers with a bare 404, 405 or redirect. The identity server does the same whenever
  its random source lets it answer.
\<close>

theorem errors_follow_contract:
  "(\<exists>hs rp s' i. NewRouter ienv off fresh ping le cx r ls = (hs, Replied rp, s') \<and> hd_RequestId hs = Some i \<and> contract i rp)
   \<and> (\<exists>hs rp s' i. recon_handler ienv off fresh ping re cx r rs = (hs, Replied rp, s') \<and> hd_RequestId hs = Some i \<and> contract i rp)
   \<and> (\<exists>hs rp s' i. webhook_server ienv off fresh ping we cx r ws = (hs, Replied rp, s') \<and> hd_RequestId hs = Some i \<and> contract i rp)
   \<and> (case identity_handler adminToken sandbox ping fresh ie cx r is of
        (hs, Replied rp, _) \<Rightarrow> \<exists>i. hd_RequestId hs = Some i \<and> contract i rp
      | (_, Panicked, _) \<Rightarrow> False
      | (_, Diverged, _) \<Rightarrow> True)"
proof (intro conjI)
  show "\<exists>hs rp s' i. NewRouter ienv off fresh ping le cx r ls = (hs, Replied rp, s') \<and> hd_RequestId hs = Some i \<and> contract i rp"
    using returnsD [OF NewRouter_returns] NewRouter_contract by metis
  show "\<exists>hs rp s' i. recon_handler ienv off fresh ping re cx r rs = (hs, Replied rp, s') \<and> hd_RequestId hs = Some i \<and> contract i rp"
    using returnsD [OF recon_handler_returns] recon_handler_contract by metis
  show "\<exists>hs rp s' i. webhook_server ienv off fresh ping we cx r ws = (hs, Replied rp, s') \<and> hd_RequestId hs = Some i \<and> contract i rp"
    using returnsD [OF webhook_server_returns] webhook_server_contract by metis
  show "case identity_handler adminToken sandbox ping fresh ie cx r is of
        (hs, Replied rp, _) \<Rightarrow> \<exists>i. hd_RequestId hs = Some i \<and> contract i rp
      | (_, Panicked, _) \<Rightarrow> False
      | (_, Diverged, _) \<Rightarrow> True"
    using identity_handler_contract identity_never_panics by (auto split: prod.splits Outcome.splits)
qed

section \<open>Who may change what\<close>

text \<open>
  C16. The reconciliation and webhooks databases change only on behalf of a token: a request after which the
  database differs was accepted by the authentication, its token grants the write scope of the service, and
  no row of a tenant other than the token's was touched.
\<close>

theorem other_services_guarded:
  "authorised ScopeReconWrite (\<lambda>_. True) recon_others ienv (service_auth off ''reconciliation'') (recon_handler ienv off fresh ping re)
   \<and> authorised ScopeWebhooksWrite (\<lambda>_. True) webhook_others ienv (service_auth off ''webhooks'') (webhook_server ienv off fresh ping we)"
  using recon_handler_authorised webhook_server_authorised by blast

text \<open>
  C17. The identity database changes through HTTP only by a request that presents the configured
  administrator's token, or by a sandbox signup where that endpoint is enabled, and the signup adds exactly one
  active tenant with an expiry, one sandbox key of that tenant and one record of a new address; without a
  configured token the administrative endpoints change nothing.
\<close>

theorem identity_gate:
  assumes "identity_handler adminToken sandbox ping fresh e cx r d = (hs, out, d')" and "d' \<noteq> d"
  shows "adminToken \<noteq> '''' \<and> admin_credential r = adminToken
    \<or> sandbox \<and> hq_Method r = ''POST'' \<and> hq_Path r = [''v1'', ''sandbox'', ''signups''] \<and> one_signup d d'"
  by (rule identity_change [OF assms])

text \<open>A signup against a server without an administrator's token.\<close>

definition sample_identity :: IdentityHttp where
  "sample_identity = \<lparr>ih_http = sample_http_env, ih_world = sample_world 0 0, ih_issuer = \<lparr>ti_kid = '''', ti_key = '''', ti_ttl = TokenTTL, ti_audiences = []\<rparr>,
     ih_pem = (\<lambda>_. None), ih_dailyLimit = 20, ih_tenant = (\<lambda>_ _. Inl EOF), ih_apiKey = (\<lambda>_ _. Inl EOF),
     ih_signup = (\<lambda>_ _. Inr (\<lparr>sgr_Email = '' Ann@acme.io'', sgr_CompanyName = ''Acme''\<rparr>, '''')), ih_token = (\<lambda>_ _. Inl EOF)\<rparr>"

definition sample_signup_post :: HttpRequest where
  "sample_signup_post = \<lparr>hq_Method = ''POST'', hq_Path = [''v1'', ''sandbox'', ''signups''], hq_header = (\<lambda>_. ''''), hq_query = (\<lambda>_. ''''),
     hq_body = ''{}'', hq_ContentLength = 2, hq_id = ''''\<rparr>"

lemma sample_signup_served:
  "snd (snd (identity_handler adminToken True True ''req'' sample_identity sample_ctx sample_signup_post empty_identity_db)) = sample_signed_up 0"
proof -
  have "read_body (ih_signup sample_identity) (sample_signup_post\<lparr>hq_id := ''''\<rparr>) = Inr \<lparr>sgr_Email = '' Ann@acme.io'', sgr_CompanyName = ''Acme''\<rparr>"
    by (simp add: read_body_def DecodeJSON_def sample_identity_def More_def)
  then have "snd (snd (handleSandboxSignup sample_identity cx (sample_signup_post\<lparr>hq_id := ''''\<rparr>) empty_identity_db)) = sample_signed_up 0" for cx
    by (simp add: handleSandboxSignup_def serve_drawing_def write_result_def sample_identity_def sample_signup split: prod.splits)
  then have "snd (snd (mux (identity_routes sample_identity adminToken True True) False cx sample_signup_post empty_identity_db)) = sample_signed_up 0" for cx
    by (simp add: identity_routes_def probes_def v1_def sample_signup_post_def match_method_def)
  then have m: "d = sample_signed_up 0"
    if "mux (identity_routes sample_identity adminToken True True) False cx sample_signup_post empty_identity_db = (hs, out, d)" for cx hs out d
    using that by (metis snd_conv)
  have "hq_Method sample_signup_post \<noteq> ''OPTIONS''" by (simp add: sample_signup_post_def)
  then show ?thesis
    unfolding identity_handler_def calm_chain [OF identity_mux_calm]
    by (auto simp: RequestID_def CORSDev_def Let_def split: prod.splits dest: m)
qed

theorem identity_gate_witness: "one_signup empty_identity_db (sample_signed_up 0)"
proof -
  obtain hs out d' where h: "identity_handler '''' True True ''req'' sample_identity sample_ctx sample_signup_post empty_identity_db = (hs, out, d')"
    using prod_cases3 by blast
  then have d: "d' = sample_signed_up 0" using sample_signup_served [of "''''"] by simp
  have "d' \<noteq> empty_identity_db" by (simp add: d sample_signed_up_def empty_identity_db_def)
  from identity_gate [OF h this] show ?thesis by (simp add: d)
qed

section \<open>The decoder of bodies\<close>

text \<open>
  \<open>DecodeJSON\<close> refuses a second value after the first, but what follows the value goes unnoticed when it
  begins with a closing bracket.
\<close>

lemma DecodeJSON_refuses_second_value:
  assumes "dec (take MaxBodyBytes (hq_body r)) (length (hq_body r) > MaxBodyBytes) = Inr (v, spaces @ c # rest)"
    and "list_all json_space spaces" and "\<not> json_space c"
  shows "DecodeJSON dec r = (if c = CHR '']'' \<or> c = CHR ''}'' then Inr v else Inl TrailingValue)"
proof -
  have "dropWhile json_space (spaces @ c # rest) = c # rest"
    using assms(2,3) by (simp add: list_all_iff dropWhile_append2)
  then show ?thesis using assms(1) by (simp add: DecodeJSON_def More_def)
qed

end
