(* ===== verification/Tenant_Expiry.thy ===== *)
theory Tenant_Expiry
  imports Recon_Server Webhook_Server Ledger_History Recon_Theorems Webhook_Theorems Identity_Theorems
begin

text \<open>
  The end of a sandbox tenant across the services: \<open>SubscribeTenantExpired\<close> of \<open>libs/go/events/purge.go\<close>, which
  every service runs with its own purge, and what the expiry events of the identity service do to the three
  databases when the broker delivers them, and delivers them again.
\<close>

section \<open>The consumer\<close>

text \<open>What the consumer tells the broker. Its call to the broker may be lost, which makes the broker deliver again.\<close>

datatype purge_ack = PurgeAck | PurgeNak | PurgeTerm

text \<open>A message is \<^const>\<open>None\<close> when its data is no JSON envelope; the timeout of a purge is one of its errors.\<close>

definition SubscribeTenantExpired ::
  "(uuid \<Rightarrow> 's \<Rightarrow> ('e + 'a) \<times> 's) \<Rightarrow> 'p Envelope option \<Rightarrow> 's \<Rightarrow> purge_ack \<times> 's" where
  "SubscribeTenantExpired purge msg s = (case msg of
     None \<Rightarrow> (PurgeTerm, s)
   | Some env \<Rightarrow>
       if env_Type env \<noteq> TopicTenantExpired then (PurgeAck, s)
       else if env_TenantID env = uuid_Nil then (PurgeTerm, s)
       else case purge (env_TenantID env) s of (Inl e, s') \<Rightarrow> (PurgeNak, s') | (Inr x, s') \<Rightarrow> (PurgeAck, s'))"

definition ledger_StartPurgeConsumer :: "'p Envelope option \<Rightarrow> Db \<Rightarrow> purge_ack \<times> Db" where
  "ledger_StartPurgeConsumer = SubscribeTenantExpired PurgeTenant"

definition recon_StartPurge :: "'p Envelope option \<Rightarrow> ReconDb \<Rightarrow> purge_ack \<times> ReconDb" where
  "recon_StartPurge = SubscribeTenantExpired recon_Tenant"

definition webhook_StartPurge :: "'p Envelope option \<Rightarrow> WebhookDb \<Rightarrow> purge_ack \<times> WebhookDb" where
  "webhook_StartPurge = SubscribeTenantExpired webhook_Tenant"

text \<open>
  What an expiry event does to a service: once it is acknowledged no row of the tenant is left, the rows of the
  others are as they were, and delivering it again changes nothing; if it is not, nothing has happened.
\<close>

definition settles ::
  "('p Envelope option \<Rightarrow> 's \<Rightarrow> purge_ack \<times> 's) \<Rightarrow> (uuid \<Rightarrow> 's \<Rightarrow> 's) \<Rightarrow> 's \<Rightarrow> 'p Envelope \<Rightarrow> 's \<Rightarrow> bool" where
  "settles consume rows nothing env s = (case consume (Some env) s of
     (PurgeAck, s') \<Rightarrow> rows (env_TenantID env) s' = nothing \<and> (\<forall>tn. tn \<noteq> env_TenantID env \<longrightarrow> rows tn s' = rows tn s)
        \<and> consume (Some env) s' = (PurgeAck, s')
   | (PurgeNak, s') \<Rightarrow> s' = s
   | (PurgeTerm, s') \<Rightarrow> env_TenantID env = uuid_Nil \<and> s' = s)"

section \<open>The contract of a purge\<close>

text \<open>What the shared consumer relies on in the purge of a service.\<close>

locale purge_contract =
  fixes purge :: "uuid \<Rightarrow> 's \<Rightarrow> ('e + 'a) \<times> 's"
    and good :: "'s \<Rightarrow> bool"
    and rows :: "uuid \<Rightarrow> 's \<Rightarrow> 's"
    and nothing :: "'s"
  assumes refused: "good s \<Longrightarrow> purge tn s = (Inl e, s') \<Longrightarrow> s' = s"
    and emptied: "good s \<Longrightarrow> purge tn s = (Inr x, s') \<Longrightarrow> rows tn s' = nothing"
    and others: "good s \<Longrightarrow> purge tn s = (Inr x, s') \<Longrightarrow> tn' \<noteq> tn \<Longrightarrow> rows tn' s' = rows tn' s"
    and idempotent: "good s \<Longrightarrow> purge tn s = (Inr x, s') \<Longrightarrow> \<exists>y. purge tn s' = (Inr y, s')"
begin

lemma expiry_settles:
  assumes "good s" and "env_Type env = TopicTenantExpired"
  shows "settles (SubscribeTenantExpired purge) rows nothing env s"
proof (cases "env_TenantID env = uuid_Nil")
  case True
  then show ?thesis using assms(2) by (simp add: settles_def SubscribeTenantExpired_def)
next
  case False
  obtain r s' where p: "purge (env_TenantID env) s = (r, s')" by fastforce
  show ?thesis
  proof (cases r)
    case (Inl e)
    then show ?thesis using p False assms refused by (simp add: settles_def SubscribeTenantExpired_def)
  next
    case (Inr x)
    then obtain y where "purge (env_TenantID env) s' = (Inr y, s')" using idempotent p assms(1) by blast
    then show ?thesis using p Inr False assms emptied others by (simp add: settles_def SubscribeTenantExpired_def)
  qed
qed

lemma other_messages:
  "env_Type env \<noteq> TopicTenantExpired \<Longrightarrow> SubscribeTenantExpired purge (Some env) s = (PurgeAck, s)"
  "SubscribeTenantExpired purge None s = (PurgeTerm, s)"
  by (simp_all add: SubscribeTenantExpired_def)

end

section \<open>The three services\<close>

lemma delete_tenant_idem [simp]: "delete_tenant tn (delete_tenant tn d) = delete_tenant tn d"
  by (simp add: delete_tenant_def)

lemma delete_tenant_deferred [simp]: "db_deferred (delete_tenant tn d) = db_deferred d"
  by (simp add: delete_tenant_def)

lemma PurgeTenant_eq:
  assumes "db_deferred d = []"
  shows "PurgeTenant tn d =
    (if tn = uuid_Nil then (Inl ErrNilTenant, d)
     else case purge_expired_sandbox_tenant tn d of Inl e \<Rightarrow> (Inl e, d) | Inr (n, d') \<Rightarrow> (Inr n, delete_tenant tn d))"
proof -
  have e: "d\<lparr>db_deferred := []\<rparr> = d" "(delete_tenant tn d)\<lparr>db_deferred := []\<rparr> = delete_tenant tn d"
    using assms by (simp_all add: delete_tenant_def)
  show ?thesis
    using assms by (simp add: PurgeTenant_def WithTenantTx_def purge_expired_sandbox_tenant_def e)
qed

lemma PurgeTenant_Inr:
  assumes "db_deferred d = []" and "PurgeTenant tn d = (Inr n, d')"
  shows "d' = delete_tenant tn d \<and> tn \<noteq> uuid_Nil \<and> fk_ok d'"
  using assms(2) unfolding PurgeTenant_eq [OF assms(1)]
  by (auto simp: purge_expired_sandbox_tenant_def split: sum.splits if_splits)

interpretation ledger_purge: purge_contract PurgeTenant "\<lambda>d. db_deferred d = []" tenant_rows empty_db
proof unfold_locales
  fix d :: Db and tn e d'
  assume "PurgeTenant tn d = (Inl e, d')"
  then show "d' = d" by (auto simp: PurgeTenant_def WithTenantTx_def split: sum.splits if_splits)
next
  fix d :: Db and tn n d'
  assume "db_deferred d = []" and "PurgeTenant tn d = (Inr n, d')"
  then have d': "d' = delete_tenant tn d" "tn \<noteq> uuid_Nil" "fk_ok d'" "db_deferred d' = []"
    using PurgeTenant_Inr [of d tn n d'] by (auto simp: delete_tenant_def)
  show "tenant_rows tn d' = empty_db" unfolding d'(1) by (simp add: tenant_rows_def delete_tenant_def empty_db_def)
  show "tenant_rows tn' d' = tenant_rows tn' d" if "tn' \<noteq> tn" for tn'
    using that unfolding d'(1) by (rule delete_tenant_other)
  have "\<not> list_ex (\<lambda>l. l_TenantID l = tn \<and> l_Environment l = ''live'') (db_ledgers d')"
    unfolding d'(1) by (auto simp: delete_tenant_def list_ex_iff)
  moreover have "delete_tenant tn d' = d'" by (simp add: d'(1))
  ultimately have "PurgeTenant tn d' = (Inr 0, d')"
    using d'(2,3) unfolding PurgeTenant_eq [OF d'(4)] by (simp add: purge_expired_sandbox_tenant_def)
  then show "\<exists>y. PurgeTenant tn d' = (Inr y, d')" by blast
qed

interpretation recon_expiry: purge_contract recon_Tenant "\<lambda>_. True" recon_rows empty_recon
proof unfold_locales
  fix d :: ReconDb and tn e d'
  assume "recon_Tenant tn d = (Inl e, d')"
  then show "d' = d" by (auto simp: recon_Tenant_def Within_def split: sum.splits if_splits)
next
  fix d :: ReconDb and tn u d'
  assume "recon_Tenant tn d = (Inr u, d')"
  then have d': "d' = recon_purge tn d" "tn \<noteq> uuid_Nil" "recon_fk_ok d'"
    by (auto simp: recon_Tenant_def Within_def split: sum.splits if_splits)
  show "recon_rows tn d' = empty_recon" unfolding d'(1) by (simp add: recon_rows_def recon_purge_def empty_recon_def)
  show "recon_rows tn' d' = recon_rows tn' d" if "tn' \<noteq> tn" for tn'
  proof -
    have "(x \<noteq> tn \<and> x = tn') = (x = tn')" for x using that by blast
    then show ?thesis unfolding d'(1) by (simp add: recon_rows_def recon_purge_def)
  qed
  have "recon_purge tn d' = d'" unfolding d'(1) by (simp add: recon_purge_def)
  then have "recon_Tenant tn d' = (Inr (), d')" using d'(2,3) by (simp add: recon_Tenant_def Within_def)
  then show "\<exists>y. recon_Tenant tn d' = (Inr y, d')" by blast
qed

lemma webhook_Tenant_Inr:
  assumes "webhook_ok d" and "tn \<noteq> uuid_Nil"
  shows "webhook_Tenant tn d = (Inr (length (wd_dels d) - length (filter (\<lambda>x. del_TenantID x \<noteq> tn) (wd_dels d)),
      length (wd_subs d) - length (filter (\<lambda>s. sub_TenantID s \<noteq> tn) (wd_subs d))),
    d\<lparr>wd_subs := filter (\<lambda>s. sub_TenantID s \<noteq> tn) (wd_subs d), wd_dels := filter (\<lambda>x. del_TenantID x \<noteq> tn) (wd_dels d)\<rparr>)"
proof -
  have "del_TenantID x \<noteq> tn \<Longrightarrow> \<exists>s \<in> set (wd_subs d). sub_TenantID s \<noteq> tn \<and> sub_ID s = del_SubscriptionID x"
    if "x \<in> set (wd_dels d)" for x
    using assms(1) that unfolding webhook_ok_def owned_def by metis
  then have "filter (\<lambda>x. list_ex (\<lambda>s. sub_ID s = del_SubscriptionID x) (filter (\<lambda>s. sub_TenantID s \<noteq> tn) (wd_subs d)))
      (filter (\<lambda>x. del_TenantID x \<noteq> tn) (wd_dels d)) = filter (\<lambda>x. del_TenantID x \<noteq> tn) (wd_dels d)"
    by (intro filter_id_conv [THEN iffD2]) (fastforce simp: list_ex_iff)
  then show ?thesis using assms(2) by (simp add: webhook_Tenant_def tenant_tx_def system_tx_def Let_def)
qed

interpretation webhook_expiry: purge_contract webhook_Tenant webhook_ok webhook_rows empty_webhooks
proof unfold_locales
  fix d :: WebhookDb and tn e d'
  assume "webhook_Tenant tn d = (Inl e, d')"
  then show "d' = d" by (auto simp: webhook_Tenant_def tenant_tx_def system_tx_def Let_def split: if_splits)
next
  fix d :: WebhookDb and tn x d'
  assume ok: "webhook_ok d" and p: "webhook_Tenant tn d = (Inr x, d')"
  then have nil: "tn \<noteq> uuid_Nil" by (auto simp: webhook_Tenant_def tenant_tx_def split: if_splits)
  have d': "d' = d\<lparr>wd_subs := filter (\<lambda>s. sub_TenantID s \<noteq> tn) (wd_subs d), wd_dels := filter (\<lambda>x. del_TenantID x \<noteq> tn) (wd_dels d)\<rparr>"
    using p webhook_Tenant_Inr [OF ok nil] by simp
  show "webhook_rows tn d' = empty_webhooks" unfolding d' by (simp add: webhook_rows_def empty_webhooks_def)
  show "webhook_rows tn' d' = webhook_rows tn' d" if "tn' \<noteq> tn" for tn'
  proof -
    have "(x \<noteq> tn \<and> x = tn') = (x = tn')" for x using that by blast
    then show ?thesis unfolding d' by (simp add: webhook_rows_def)
  qed
  have "webhook_ok d'" using webhook_Tenant_ok [OF ok, of tn] p by simp
  from webhook_Tenant_Inr [OF this nil] show "\<exists>y. webhook_Tenant tn d' = (Inr y, d')" by (simp add: d')
qed

section \<open>From the announcement to the last row\<close>

text \<open>
  C19. The end of a sandbox tenant: for every expiry event in the outbox of a reachable identity database, the
  tenant of the event exists and is no longer active, so that it gets no new token, and when the event reaches the
  ledger, reconciliation and webhooks services, each deletes every row of that tenant, keeps every row of every
  other tenant and acknowledges, after which a redelivery has no effect; or it deletes nothing and asks for a
  redelivery. The webhooks service never needs one.
\<close>

theorem expiry_purges_every_service:
  assumes "identity_step\<^sup>*\<^sup>* empty_identity_db i" and "o' \<in> set (id_outbox i)" and "or_envelope o' = Some env"
    and "ledger_step\<^sup>*\<^sup>* empty_db l" and "webhook_step\<^sup>*\<^sup>* (empty_webhooks, []) (w, claimed)"
  shows "(\<exists>t \<in> set (id_tenants i). tn_ID t = env_TenantID env \<and> \<not> Tenant_Active t)
    \<and> settles ledger_StartPurgeConsumer tenant_rows empty_db env l
    \<and> settles recon_StartPurge recon_rows empty_recon env r
    \<and> settles webhook_StartPurge webhook_rows empty_webhooks env w
    \<and> fst (webhook_StartPurge (Some env) w) \<noteq> PurgeNak"
proof -
  have "identity_ok i" using assms(1) by (rule identity.reachable)
  then obtain t where t: "t \<in> set (id_tenants i)" "announces o' t"
    "announced_not t \<or> announced (tn_Status t)"
    "count_list (map or_tenant (id_outbox i)) (tn_ID t) = (if announced (tn_Status t) then 1 else 0)"
    using assms(2) unfolding identity_ok_def by blast
  then have e: "env_Type env = TopicTenantExpired" "env_TenantID env = tn_ID t" "or_tenant o' = tn_ID t"
    using assms(3) by (auto simp: announces_def)
  have "tn_ID t \<in> set (map or_tenant (id_outbox i))" using assms(2) e(3) by force
  then have "announced (tn_Status t)" using t(4) by (auto simp: count_list_0_iff split: if_splits)
  then have "\<not> Tenant_Active t" by (auto simp: Tenant_Active_def)
  moreover have "db_deferred l = []" using ledger.reachable [OF assms(4)] by (simp add: ledger_inv_def)
  moreover have ok: "webhook_ok w" using webhooks.reachable [OF assms(5)] by (simp add: state_ok_def)
  moreover have "fst (webhook_StartPurge (Some env) w) \<noteq> PurgeNak"
    using webhook_Tenant_Inr [OF ok] e(1) by (simp add: webhook_StartPurge_def SubscribeTenantExpired_def)
  ultimately show ?thesis
    using t(1) e(1,2) ledger_purge.expiry_settles recon_expiry.expiry_settles webhook_expiry.expiry_settles
    unfolding ledger_StartPurgeConsumer_def recon_StartPurge_def webhook_StartPurge_def by metis
qed

theorem expiry_purges_every_service_witness:
  "settles recon_StartPurge recon_rows empty_recon sample_expiry sample_mirror_db
   \<and> settles ledger_StartPurgeConsumer tenant_rows empty_db sample_expiry sample_db"
proof -
  let ?d = "snd (MarkTenantPurging sample_expiry (sample_signed_up 5))"
  have r: "identity_step\<^sup>*\<^sup>* empty_identity_db ?d"
    using sample_signed_up_reachable sample_announce_step by (rule rtranclp.rtrancl_into_rtrancl)
  have hit: "id_outbox ?d = [\<lparr>or_tenant = sample_tenant_id 5, or_topic = TopicTenantExpired, or_envelope = Some sample_expiry, or_published = False\<rparr>]"
    using MarkTenantPurging_hit [of "sample_tenant 5" "sample_signed_up 5" sample_expiry]
    by (simp add: sample_signed_up_def sample_expiry_def sample_tenant_def sandbox_tenant_def announced_not_def)
  have o: "\<lparr>or_tenant = sample_tenant_id 5, or_topic = TopicTenantExpired, or_envelope = Some sample_expiry, or_published = False\<rparr> \<in> set (id_outbox ?d)"
    by (simp add: hit)
  show ?thesis
    using expiry_purges_every_service [OF r o _ sample_reachable(3) rtranclp.rtrancl_refl, where r = sample_mirror_db] by simp
qed

text \<open>
  An acknowledged expiry is not the last word: an event of the ledger that the broker delivers to reconciliation
  after the purge puts rows of the tenant back, and no later event removes them.
\<close>

lemma sample_mirror_rows:
  "rc_sources sample_mirror_db = []" "rc_imports sample_mirror_db = []" "rc_externals sample_mirror_db = []"
  "rc_runs sample_mirror_db = []" "rc_discrepancies sample_mirror_db = []" "rc_outbox sample_mirror_db = []"
  "map me_TenantID (rc_mirror sample_mirror_db) = [1, 1]"
  unfolding sample_mirror_db_def by code_simp+

lemma sample_mirror_purged: "recon_Tenant 1 sample_mirror_db = (Inr (), empty_recon)"
proof -
  have "\<forall>x \<in> set (rc_mirror sample_mirror_db). me_TenantID x = 1"
    using arg_cong [OF sample_mirror_rows(7), of set] by auto
  then have "recon_purge 1 sample_mirror_db = empty_recon"
    by (simp add: recon_purge_def empty_recon_def sample_mirror_rows)
  then show ?thesis by (simp add: recon_Tenant_def Within_def recon_fk_ok_def empty_recon_def)
qed

theorem mirror_returns_after_purge:
  "recon_Tenant 1 sample_mirror_db = (Inr (), empty_recon)
   \<and> map me_TenantID (rc_mirror (snd (mirror_handle sample_postingID posted_payload sample_message empty_recon))) = [1, 1]"
  using sample_mirror_purged sample_mirror_rows(7) by (simp add: sample_mirror_db_def)

end
