(* ===== verification/Deployment.thy ===== *)
theory Deployment
  imports Http_Theorems
begin

text \<open>
  The configuration each service reads from its environment and the checks it makes before it starts: \<open>loadConfig\<close>
  of \<open>services/ledger-core/cmd/server/main.go\<close>, \<open>Load\<close> of the two \<open>internal/config/config.go\<close>, and \<open>loadConfig\<close>
  with \<open>hardeningChecks\<close> of \<open>services/identity/cmd/server/main.go\<close>. An unset variable is the empty string.
  The property puts them together with the servers: what a public sandbox lets through.
\<close>

section \<open>Configurations\<close>

datatype config_error =
    DatabaseURLRequired | AuthDisabledForbidden | MasterKeyRequired | JWKSURLRequired
  | WeakAdminToken | InvalidSignupsPerDay | InvalidSweepInterval

type_synonym environment = "string \<Rightarrow> string"

definition getenv_or :: "environment \<Rightarrow> string \<Rightarrow> string \<Rightarrow> string" where
  "getenv_or env key fallback = (if env key \<noteq> '''' then env key else fallback)"

text \<open>\<open>strconv.ParseBool\<close>, an error counting as false.\<close>

definition boolenv :: "environment \<Rightarrow> string \<Rightarrow> bool" where
  "boolenv env key \<longleftrightarrow> env key \<in> {''1'', ''t'', ''T'', ''true'', ''TRUE'', ''True''}"

definition publicSandbox :: string where
  "publicSandbox = ''sandbox-public''"

record ledger_config =
  lc_HTTPAddr :: string
  lc_DatabaseURL :: string
  lc_NATSURL :: string
  lc_JWKSURL :: string
  lc_AuthDisabled :: bool
  lc_AutoMigrate :: bool
  lc_Env :: string

definition ledger_loadConfig :: "environment \<Rightarrow> config_error + ledger_config" where
  "ledger_loadConfig env =
     (let cfg = \<lparr>lc_HTTPAddr = getenv_or env ''LEDGERCORE_HTTP_ADDR'' '':8081'', lc_DatabaseURL = env ''LEDGERCORE_DATABASE_URL'',
          lc_NATSURL = env ''LEDGERCORE_NATS_URL'',
          lc_JWKSURL = getenv_or env ''LEDGERCORE_JWKS_URL'' ''http://localhost:8082/.well-known/jwks.json'',
          lc_AuthDisabled = (env ''LEDGERCORE_AUTH_DISABLED'' = ''true''), lc_AutoMigrate = (env ''LEDGERCORE_AUTO_MIGRATE'' = ''true''),
          lc_Env = getenv_or env ''LEDGERCORE_ENV'' ''dev''\<rparr>
      in if lc_DatabaseURL cfg = '''' then Inl DatabaseURLRequired
         else if lc_Env cfg = publicSandbox \<and> lc_AuthDisabled cfg then Inl AuthDisabledForbidden
         else Inr cfg)"

record recon_config =
  rcf_HTTPAddr :: string
  rcf_DatabaseURL :: string
  rcf_NATSURL :: string
  rcf_JWKSURL :: string
  rcf_AuthDisabled :: bool
  rcf_AutoMigrate :: bool
  rcf_Env :: string

definition recon_Load :: "environment \<Rightarrow> config_error + recon_config" where
  "recon_Load env =
     (let cfg = \<lparr>rcf_HTTPAddr = getenv_or env ''LEDGERCORE_HTTP_ADDR'' '':8083'', rcf_DatabaseURL = env ''LEDGERCORE_DATABASE_URL'',
          rcf_NATSURL = env ''LEDGERCORE_NATS_URL'', rcf_JWKSURL = env ''LEDGERCORE_JWKS_URL'',
          rcf_AuthDisabled = boolenv env ''LEDGERCORE_AUTH_DISABLED'', rcf_AutoMigrate = boolenv env ''LEDGERCORE_AUTO_MIGRATE'',
          rcf_Env = getenv_or env ''LEDGERCORE_ENV'' ''dev''\<rparr>
      in if rcf_DatabaseURL cfg = '''' then Inl DatabaseURLRequired
         else if rcf_Env cfg = publicSandbox \<and> rcf_AuthDisabled cfg then Inl AuthDisabledForbidden
         else if \<not> rcf_AuthDisabled cfg \<and> rcf_JWKSURL cfg = '''' then Inl JWKSURLRequired
         else Inr cfg)"

record webhook_config =
  wcf_HTTPAddr :: string
  wcf_DatabaseURL :: string
  wcf_NATSURL :: string
  wcf_JWKSURL :: string
  wcf_AuthDisabled :: bool
  wcf_AutoMigrate :: bool
  wcf_Env :: string
  wcf_MasterKey :: string

definition webhook_Load :: "environment \<Rightarrow> config_error + webhook_config" where
  "webhook_Load env =
     (let cfg = \<lparr>wcf_HTTPAddr = getenv_or env ''LEDGERCORE_HTTP_ADDR'' '':8084'', wcf_DatabaseURL = env ''LEDGERCORE_DATABASE_URL'',
          wcf_NATSURL = getenv_or env ''LEDGERCORE_NATS_URL'' ''nats://localhost:4222'', wcf_JWKSURL = env ''LEDGERCORE_JWKS_URL'',
          wcf_AuthDisabled = (env ''LEDGERCORE_AUTH_DISABLED'' = ''true''), wcf_AutoMigrate = (env ''LEDGERCORE_AUTO_MIGRATE'' = ''true''),
          wcf_Env = getenv_or env ''LEDGERCORE_ENV'' ''dev'', wcf_MasterKey = env ''LEDGERCORE_MASTER_KEY''\<rparr>
      in if wcf_DatabaseURL cfg = '''' then Inl DatabaseURLRequired
         else if wcf_Env cfg = publicSandbox \<and> wcf_AuthDisabled cfg then Inl AuthDisabledForbidden
         else if wcf_Env cfg = publicSandbox \<and> wcf_MasterKey cfg = '''' then Inl MasterKeyRequired
         else if \<not> wcf_AuthDisabled cfg \<and> wcf_JWKSURL cfg = '''' then Inl JWKSURLRequired
         else Inr cfg)"

record identity_config =
  icf_httpAddr :: string
  icf_databaseURL :: string
  icf_natsURL :: string
  icf_adminToken :: string
  icf_masterKey :: string
  icf_autoMigrate :: bool
  icf_env :: string
  icf_authDisabled :: bool
  icf_signupsPerDay :: int
  icf_sweepInterval :: int

text \<open>A positive number read from a variable; \<open>time.ParseDuration\<close> is an argument.\<close>

definition positive_or :: "config_error \<Rightarrow> (string \<Rightarrow> int option) \<Rightarrow> int \<Rightarrow> string \<Rightarrow> config_error + int" where
  "positive_or err parse fallback v =
     (if v = '''' then Inr fallback
      else case parse v of None \<Rightarrow> Inl err | Some n \<Rightarrow> if n \<le> 0 then Inl err else Inr n)"

definition identity_loadConfig :: "(string \<Rightarrow> int option) \<Rightarrow> environment \<Rightarrow> config_error + identity_config" where
  "identity_loadConfig parseDuration env =
     bindE (positive_or InvalidSignupsPerDay (\<lambda>v. map_option sint (ParseInt v)) DefaultSignupsPerDay (env ''LEDGERCORE_SANDBOX_SIGNUPS_PER_DAY'')) (\<lambda>signups.
     bindE (positive_or InvalidSweepInterval parseDuration (3600 * 10 ^ 9) (env ''LEDGERCORE_SANDBOX_SWEEP_INTERVAL'')) (\<lambda>sweep.
     Inr \<lparr>icf_httpAddr = getenv_or env ''LEDGERCORE_HTTP_ADDR'' '':8082'', icf_databaseURL = env ''LEDGERCORE_DATABASE_URL'',
        icf_natsURL = env ''LEDGERCORE_NATS_URL'', icf_adminToken = env ''LEDGERCORE_ADMIN_TOKEN'', icf_masterKey = env ''LEDGERCORE_MASTER_KEY'',
        icf_autoMigrate = (env ''LEDGERCORE_AUTO_MIGRATE'' = ''true''), icf_env = getenv_or env ''LEDGERCORE_ENV'' ''dev'',
        icf_authDisabled = (env ''LEDGERCORE_AUTH_DISABLED'' = ''true''), icf_signupsPerDay = signups, icf_sweepInterval = sweep\<rparr>))"

definition hardeningChecks :: "identity_config \<Rightarrow> config_error + unit" where
  "hardeningChecks cfg =
     (if icf_env cfg \<noteq> publicSandbox then Inr ()
      else if icf_adminToken cfg = '''' \<or> icf_adminToken cfg = ''dev-admin-token'' then Inl WeakAdminToken
      else if icf_authDisabled cfg then Inl AuthDisabledForbidden
      else if icf_masterKey cfg = '''' then Inl MasterKeyRequired
      else Inr ())"

text \<open>The start of \<open>run\<close>, up to the checks; the sandbox service exists in a public sandbox only.\<close>

definition identity_start :: "(string \<Rightarrow> int option) \<Rightarrow> environment \<Rightarrow> config_error + identity_config" where
  "identity_start parseDuration env =
     bindE (identity_loadConfig parseDuration env) (\<lambda>cfg.
       if icf_databaseURL cfg = '''' then Inl DatabaseURLRequired
       else bindE (hardeningChecks cfg) (\<lambda>_. Inr cfg))"

definition sandbox_enabled :: "identity_config \<Rightarrow> bool" where
  "sandbox_enabled cfg \<longleftrightarrow> icf_env cfg = publicSandbox"

section \<open>Public sandboxes\<close>

text \<open>A request with a bearer token that the service verified under its audience, and the claims in it.\<close>

definition verified_bearer :: "IdentEnv \<Rightarrow> string \<Rightarrow> HttpRequest \<Rightarrow> jwksCache \<Rightarrow> Claims \<Rightarrow> bool" where
  "verified_bearer ienv audience r c claims \<longleftrightarrow>
     (let authz = hq_header r ''Authorization'' in
      take (length bearer) authz = bearer
      \<and> (case fst (ParseWithClaims ienv (parser_opts (service_auth False audience)) (TrimSpace (drop (length bearer) authz)) c) of
           None \<Rightarrow> False
         | Some tc \<Rightarrow> claims_of (ie_uuidParse ienv) tc = Inr claims))"

lemma auth_verified:
  "RequireAuthConfig ienv (service_auth False audience) (auth_request r) c = (Inr claims, c') \<Longrightarrow> verified_bearer ienv audience r c claims"
  unfolding RequireAuthConfig_def verified_bearer_def auth_request_def Let_def
  by (auto simp: service_auth_def split: if_splits prod.splits option.splits)

text \<open>A server that changes its database on behalf of verified tokens with a scope only.\<close>

definition token_only ::
  "('s \<Rightarrow> bool) \<Rightarrow> string \<Rightarrow> string \<Rightarrow> IdentEnv \<Rightarrow> ('s \<times> jwksCache, 'b) handler \<Rightarrow> bool" where
  "token_only good scope audience ienv h \<longleftrightarrow> (\<forall>cx r s c hs out s' c'. good s \<longrightarrow> h cx r (s, c) = (hs, out, (s', c')) \<longrightarrow> s' \<noteq> s
     \<longrightarrow> (\<exists>claims. verified_bearer ienv audience r c claims \<and> HasScope claims scope))"

lemma authorised_token_only:
  "authorised scope good ev ienv (service_auth False audience) h \<Longrightarrow> token_only good scope audience ienv h"
  unfolding authorised_def token_only_def using auth_verified by meson

lemma token_only_mono: "token_only good scope audience ienv h \<Longrightarrow> (\<And>s. good' s \<Longrightarrow> good s) \<Longrightarrow> token_only good' scope audience ienv h"
  unfolding token_only_def by meson

lemma sandbox_enabled_iff: "identity_start dur env = Inr ic \<Longrightarrow> sandbox_enabled ic \<longleftrightarrow> env ''LEDGERCORE_ENV'' = publicSandbox"
  by (auto simp: identity_start_def identity_loadConfig_def sandbox_enabled_def publicSandbox_def getenv_or_def bindE_Inr_iff split: if_splits)

lemma public_sandbox_configs:
  "ledger_loadConfig env = Inr lc \<Longrightarrow> env ''LEDGERCORE_ENV'' = publicSandbox \<Longrightarrow> \<not> lc_AuthDisabled lc"
  "recon_Load env = Inr rc \<Longrightarrow> env ''LEDGERCORE_ENV'' = publicSandbox \<Longrightarrow> \<not> rcf_AuthDisabled rc"
  "webhook_Load env = Inr wc \<Longrightarrow> env ''LEDGERCORE_ENV'' = publicSandbox \<Longrightarrow> \<not> wcf_AuthDisabled wc \<and> wcf_MasterKey wc \<noteq> ''''"
  "identity_start dur env = Inr ic \<Longrightarrow> env ''LEDGERCORE_ENV'' = publicSandbox \<Longrightarrow>
     icf_adminToken ic \<noteq> '''' \<and> icf_adminToken ic \<noteq> ''dev-admin-token'' \<and> icf_masterKey ic \<noteq> ''''"
  by (auto simp: ledger_loadConfig_def recon_Load_def webhook_Load_def identity_start_def identity_loadConfig_def hardeningChecks_def
      publicSandbox_def getenv_or_def Let_def bindE_Inr_iff split: if_splits)

text \<open>
  C18. A public sandbox fails closed: when \<open>LEDGERCORE_ENV\<close> is \<open>sandbox-public\<close> and the services start, HTTP requests
  change the databases of the ledger, of reconciliation and of webhooks only with a bearer token that
  was verified for that service and grants its write scope, whatever \<open>LEDGERCORE_AUTH_DISABLED\<close> says; they change
  the identity database only with the administrator's token, which is set and not the default of development,
  or by one signup; and webhooks and identity have started with a master key set. Outside of a public sandbox HTTP requests
  change the identity database with the administrator's token only. Events and workers, which are no requests, are not meant here.
\<close>

theorem public_sandbox_closed:
  assumes "ledger_loadConfig envL = Inr lc" and "envL ''LEDGERCORE_ENV'' = publicSandbox"
    and "recon_Load envR = Inr rc" and "envR ''LEDGERCORE_ENV'' = publicSandbox"
    and "webhook_Load envW = Inr wc" and "envW ''LEDGERCORE_ENV'' = publicSandbox"
    and "identity_start dur envI = Inr ic"
    and "identity_handler (icf_adminToken ic) (sandbox_enabled ic) ping fresh ie cx r d = (hs, out, d')" and "d' \<noteq> d"
  shows "token_only (ledger_step\<^sup>*\<^sup>* empty_db) ScopeLedgerWrite ''ledger-core'' ienv (NewRouter ienv (lc_AuthDisabled lc) fresh ping le)
    \<and> token_only (\<lambda>_. True) ScopeReconWrite ''reconciliation'' ienv (recon_handler ienv (rcf_AuthDisabled rc) fresh ping re)
    \<and> token_only (\<lambda>_. True) ScopeWebhooksWrite ''webhooks'' ienv (webhook_server ienv (wcf_AuthDisabled wc) fresh ping we)
    \<and> wcf_MasterKey wc \<noteq> ''''
    \<and> (if envI ''LEDGERCORE_ENV'' = publicSandbox
       then icf_masterKey ic \<noteq> '''' \<and> icf_adminToken ic \<notin> {'''', ''dev-admin-token''}
         \<and> (admin_credential r = icf_adminToken ic \<or> one_signup d d')
       else icf_adminToken ic \<noteq> '''' \<and> admin_credential r = icf_adminToken ic)"
proof -
  have off: "lc_AuthDisabled lc = False" "rcf_AuthDisabled rc = False" "wcf_AuthDisabled wc = False" "wcf_MasterKey wc \<noteq> ''''"
    using public_sandbox_configs assms(1-6) by blast+
  have l: "token_only (ledger_step\<^sup>*\<^sup>* empty_db) ScopeLedgerWrite ''ledger-core'' ienv (NewRouter ienv False fresh ping le)"
    by (rule token_only_mono [OF authorised_token_only [OF NewRouter_authorised]]) (rule ledger.reachable)
  have w: "token_only (\<lambda>_. True) ScopeReconWrite ''reconciliation'' ienv (recon_handler ienv False fresh ping re)"
    "token_only (\<lambda>_. True) ScopeWebhooksWrite ''webhooks'' ienv (webhook_server ienv False fresh ping we)"
    by (rule authorised_token_only [OF recon_handler_authorised], rule authorised_token_only [OF webhook_server_authorised])
  have i: "icf_adminToken ic \<noteq> '''' \<and> admin_credential r = icf_adminToken ic \<or> sandbox_enabled ic \<and> one_signup d d'"
    using identity_change [OF assms(8,9)] by blast
  show ?thesis
    unfolding off(1-3) using l w off(4) i public_sandbox_configs(4) [OF assms(7)] sandbox_enabled_iff [OF assms(7)] by auto
qed

text \<open>Four services in a public sandbox, and the signup of \<open>sample_signup_post\<close>.\<close>

definition sample_environment :: environment where
  "sample_environment = (\<lambda>_. '''')(''LEDGERCORE_ENV'' := publicSandbox, ''LEDGERCORE_DATABASE_URL'' := ''postgres'', ''LEDGERCORE_JWKS_URL'' := ''jwks'',
     ''LEDGERCORE_MASTER_KEY'' := ''key'', ''LEDGERCORE_ADMIN_TOKEN'' := ''s3cret'')"

lemma sample_environment_starts:
  "\<exists>lc. ledger_loadConfig sample_environment = Inr lc" "\<exists>rc. recon_Load sample_environment = Inr rc"
  "\<exists>wc. webhook_Load sample_environment = Inr wc"
  "\<exists>ic. identity_start (\<lambda>_. None) sample_environment = Inr ic \<and> sandbox_enabled ic \<and> icf_adminToken ic = ''s3cret''"
  by (auto simp: ledger_loadConfig_def recon_Load_def webhook_Load_def identity_start_def identity_loadConfig_def positive_or_def hardeningChecks_def
      sandbox_enabled_def sample_environment_def publicSandbox_def getenv_or_def boolenv_def Let_def bindE_Inr_iff)

theorem public_sandbox_closed_witness:
  "one_signup empty_identity_db (sample_signed_up 0)
   \<and> token_only (ledger_step\<^sup>*\<^sup>* empty_db) ScopeLedgerWrite ''ledger-core'' sample_ident
       (NewRouter sample_ident (lc_AuthDisabled (projr (ledger_loadConfig sample_environment))) ''req'' True (sample_http 400 sample_accounts_db))"
proof -
  obtain lc rc wc ic where c: "ledger_loadConfig sample_environment = Inr lc" "recon_Load sample_environment = Inr rc"
      "webhook_Load sample_environment = Inr wc" "identity_start (\<lambda>_. None) sample_environment = Inr ic"
      "sandbox_enabled ic" "icf_adminToken ic = ''s3cret''"
    using sample_environment_starts by blast
  have e: "sample_environment ''LEDGERCORE_ENV'' = publicSandbox" by (simp add: sample_environment_def)
  obtain hs out d' where h: "identity_handler (icf_adminToken ic) (sandbox_enabled ic) True ''req'' sample_identity sample_ctx sample_signup_post empty_identity_db = (hs, out, d')"
    using prod_cases3 by blast
  then have d: "d' = sample_signed_up 0" using sample_signup_served [of "icf_adminToken ic"] c(5) by simp
  have "d' \<noteq> empty_identity_db" by (simp add: d sample_signed_up_def empty_identity_db_def)
  from public_sandbox_closed [OF c(1) e c(2) e c(3) e c(4) h this, of sample_ident "sample_http 400 sample_accounts_db"]
  show ?thesis using e by (simp add: c d admin_credential_def sample_signup_post_def bearer_def)
qed

end
