(* ===== verification/Broker.thy ===== *)
theory Broker
  imports Events
begin

text \<open>
  The publisher of \<open>libs/go/events/nats.go\<close>: the stream it makes sure of, and how an envelope becomes a message.
  The broker is outside of the repository: its answers are arguments, its calls are results.
\<close>

definition StreamName :: string where
  "StreamName = ''LEDGERCORE''"

definition streamSubjects :: "string list" where
  "streamSubjects = [''ledger.>'', ''recon.>'', ''identity.>'']"

text \<open>\<open>sameSubjects\<close> compares the lengths and looks every element of \<open>b\<close> up in the set of \<open>a\<close>.\<close>

definition sameSubjects :: "string list \<Rightarrow> string list \<Rightarrow> bool" where
  "sameSubjects a b \<longleftrightarrow> length a = length b \<and> list_all (\<lambda>s. s \<in> set a) b"

text \<open>
  A stream configuration, of which the publisher reads and writes the subjects and keeps the rest; what
  \<open>StreamInfo\<close> answers; and the call that follows.
\<close>

record 'r StreamConfig =
  sc_Name :: string
  sc_Subjects :: "string list"
  sc_rest :: 'r

datatype 'r StreamInfo = StreamNotFound | StreamFailed | StreamFound "'r StreamConfig"

datatype 'r stream_call = NoCall | AddStream "'r StreamConfig" | UpdateStream "'r StreamConfig"

datatype publisher_error = ErrJetStream | ErrEnsureStream

text \<open>\<open>file_limits\<close> is file storage with the limits policy. The result is the call made, and whether a publisher comes back.\<close>

definition ensure_call :: "'r \<Rightarrow> 'r StreamInfo \<Rightarrow> 'r stream_call" where
  "ensure_call file_limits info = (case info of
     StreamNotFound \<Rightarrow> AddStream \<lparr>sc_Name = StreamName, sc_Subjects = streamSubjects, sc_rest = file_limits\<rparr>
   | StreamFailed \<Rightarrow> NoCall
   | StreamFound cfg \<Rightarrow> if \<not> sameSubjects (sc_Subjects cfg) streamSubjects then UpdateStream (cfg\<lparr>sc_Subjects := streamSubjects\<rparr>) else NoCall)"

definition NewNATSPublisher ::
  "bool \<Rightarrow> 'r \<Rightarrow> 'r StreamInfo \<Rightarrow> ('r StreamConfig \<Rightarrow> bool) \<Rightarrow> 'r stream_call \<times> (publisher_error + unit)" where
  "NewNATSPublisher jetstream file_limits info accepts =
     (if \<not> jetstream then (NoCall, Inl ErrJetStream)
      else let call = ensure_call file_limits info in
        (call, case call of
           NoCall \<Rightarrow> if info = StreamFailed then Inl ErrEnsureStream else Inr ()
         | AddStream cfg \<Rightarrow> if accepts cfg then Inr () else Inl ErrEnsureStream
         | UpdateStream cfg \<Rightarrow> if accepts cfg then Inr () else Inl ErrEnsureStream))"

text \<open>The subjects of the stream afterwards, when the broker did what it accepted.\<close>

definition subjects_after :: "'r StreamInfo \<Rightarrow> 'r stream_call \<Rightarrow> string list" where
  "subjects_after info call = (case call of
     NoCall \<Rightarrow> (case info of StreamFound cfg \<Rightarrow> sc_Subjects cfg | _ \<Rightarrow> [])
   | AddStream cfg \<Rightarrow> sc_Subjects cfg
   | UpdateStream cfg \<Rightarrow> sc_Subjects cfg)"

text \<open>\<open>Publish\<close>: topic, body and message id, by which the broker recognises a second publication.\<close>

definition Publish :: "('d Envelope \<Rightarrow> string option) \<Rightarrow> (uuid \<Rightarrow> string) \<Rightarrow> 'd Envelope \<Rightarrow> (string \<times> string \<times> string) option" where
  "Publish marshal uuidString env = map_option (\<lambda>body. (env_Type env, body, uuidString (env_ID env))) (marshal env)"

section \<open>Lemmas\<close>

text \<open>The comparison is that of sets as long as the second list has no duplicates, as \<^const>\<open>streamSubjects\<close> has none.\<close>

lemma sameSubjects_sets:
  assumes "distinct b"
  shows "sameSubjects a b \<longleftrightarrow> set a = set b \<and> length a = length b"
proof
  assume h: "sameSubjects a b"
  then have "set b \<subseteq> set a" by (auto simp: sameSubjects_def list_all_iff)
  moreover have "card (set a) \<le> card (set b)"
    using h card_length [of a] distinct_card [OF assms] by (simp add: sameSubjects_def)
  ultimately show "set a = set b \<and> length a = length b"
    using h card_seteq [of "set a" "set b"] by (simp add: sameSubjects_def)
qed (simp add: sameSubjects_def list_all_iff)

lemma NewNATSPublisher_covers:
  assumes "NewNATSPublisher jetstream file_limits info accepts = (call, Inr ())"
  shows "set (subjects_after info call) = set streamSubjects"
proof -
  have "distinct streamSubjects" by (simp add: streamSubjects_def)
  then show ?thesis
    using assms sameSubjects_sets
    by (auto simp: NewNATSPublisher_def ensure_call_def subjects_after_def Let_def split: StreamInfo.splits if_splits)
qed

lemma Publish_once: "Publish marshal us e = Some m \<Longrightarrow> Publish marshal us e' = Some m' \<Longrightarrow> env_ID e = env_ID e' \<Longrightarrow> snd (snd m) = snd (snd m')"
  by (auto simp: Publish_def)

end
