(* ===== verification/Spec2Isabelle.thy ===== *)
theory Spec2Isabelle
  imports Ledger_Recon Ledger_Funds Webhook_Worker Identity_Tokens Http_Theorems Tenant_Expiry Deployment Broker
begin

text \<open>
  LedgerCore is a multi-tenant double-entry ledger: four Go services over PostgreSQL that talk to clients by HTTP
  and to each other by events over NATS. This development models the services from their HTTP routes down to the
  rows, constraints and triggers of their databases, and proves what each promises alone and together.

  \<^bold>\<open>The program.\<close> The \<^bold>\<open>ledger\<close> (\<open>services/ledger-core\<close>) records transactions of balanced postings, keeps
  a balance row per account and asset, and reserves funds by holds; each change writes an event to an outbox table
  in the same database transaction. \<^bold>\<open>Reconciliation\<close> (\<open>services/reconciliation\<close>) mirrors the posted transactions
  from those events, imports statements of banks and providers and matches the two. \<^bold>\<open>Webhooks\<close>
  (\<open>services/webhooks\<close>) turns every event into deliveries for the subscriptions of the tenant, signs and sends them
  with retries. \<^bold>\<open>Identity\<close> (\<open>services/identity\<close>) keeps tenants and API keys, exchanges keys for signed tokens the
  other services verify, and lets sandbox tenants expire, which makes the others delete their rows. The libraries
  under \<open>libs/go\<close> are shared: money, events, HTTP, authentication, database transactions.

  \<^bold>\<open>Theories and sources.\<close> The names of types, functions and fields are those of the code, a field with a
  prefix for its record; a name two services share has the prefix of its service, or \<open>store_\<close> and \<open>repo_\<close> for the
  database layer.

  \<^item> \<open>Prelude\<close> and \<open>Text\<close>: 64-bit integers as words, timestamps, the error monad on sums, the locale of invariants of
    a step relation, and the functions of Go's \<open>strings\<close> the code calls.
  \<^item> \<open>Money\<close> (\<open>libs/go/money\<close>), \<open>Pagination\<close> and \<open>Http\<close> (\<open>libs/go/httpx\<close>), \<open>Events\<close> and \<open>Broker\<close> (\<open>libs/go/events\<close>), \<open>Ident\<close>
    (\<open>libs/go/ident\<close>); \<open>Json\<close>, how \<open>encoding/json\<close> writes and fills the structs of an event by their tags, and
    \<open>Event_Json\<close>, the JSON of the ledger's payloads and of envelopes.
  \<^item> Ledger: \<open>Ledger_Domain\<close> (\<open>internal/domain\<close>); \<open>Ledger_Db\<close>, the tables, triggers and SQL functions of the
    migrations, with the laws of the statements in \<open>Ledger_Sql\<close>; \<open>Ledger_Store\<close>, \<open>Ledger_Holds\<close> and \<open>Ledger_Reports\<close>
    (\<open>adapters/postgres/store.go\<close>); \<open>Ledger_Service\<close> (\<open>internal/app\<close>, the purge and the step relation);
    \<open>Ledger_Http\<close> (\<open>adapters/http\<close>).
  \<^item> Reconciliation: \<open>Recon_Csv\<close> and \<open>Recon_Domain\<close> (\<open>internal/domain\<close>), \<open>Recon_Store\<close> (\<open>adapters/postgres\<close> and \<open>purge\<close>),
    \<open>Recon_Service\<close> (\<open>internal/app\<close> and \<open>adapters/natsconsumer\<close> with its own structs), \<open>Recon_Http\<close> (\<open>adapters/httpapi\<close>).
  \<^item> Webhooks: \<open>Webhook_Domain\<close>, \<open>Webhook_Signature\<close> (\<open>signature\<close> and \<open>keycrypt\<close>), \<open>Webhook_Repo\<close> (\<open>adapters/postgres\<close>
    and \<open>purge\<close>), \<open>Webhook_Service\<close> (\<open>internal/app\<close>, the consumer and the dispatcher), \<open>Webhook_Http\<close>.
  \<^item> Identity: \<open>Identity_Domain\<close>, \<open>Identity_Store\<close>, \<open>Identity_Service\<close> (\<open>internal/app\<close>, \<open>keycrypt\<close> and the outbox
    poller), \<open>Identity_Http\<close>.
  \<^item> \<open>Deployment\<close>: what each service reads from its environment and refuses to start with.

  A database is a record of lists of rows in the order of insertion; an operation takes it and returns a result and
  the database afterwards; an error is the left side of a sum, one constructor for each sentinel, SQLSTATE class or
  library error the code tells apart. A transaction that fails leaves the database as it was, and the deferred
  trigger of the ledger runs at its end. A rejected insert is the constraint, policy or trigger that rejects it, in
  the order PostgreSQL checks them as far as the code can tell.
\<close>

text \<open>
  \<^bold>\<open>What the lemmas show.\<close>

  \<^item> Ledger. \<open>Ledger_Invariant\<close> states the invariant (rows linked within their tenant, every counter of a balance
    equal to the sum it stands for, double entry) and \<open>Ledger_Integrity\<close> that every operation keeps it. From it
    \<open>Ledger_Theorems\<close> has double entry, the silence of the verifier of the migrations, held funds and trial balance in
    every reachable database; \<open>Ledger_History\<close> the isolation of tenants and the append-only history, from one
    relation between the database before and after a request of each kind; \<open>Ledger_Idempotency\<close> the use of keys under retries and
    races, and that an equal body is replayed and another refused; \<open>Ledger_Reserves\<close> that funds on hold were posted, so that
    no difference of the two wraps; \<open>Ledger_Funds\<close> availability, reversal and refused transitions.
  \<^item> Reconciliation. The matcher refines a specification row by row; a row matched in a reachable database is backed
    by a mirror entry; a run accounts for every row; the mirror converges under redelivery (\<open>Recon_Theorems\<close>). \<open>Ledger_Recon\<close>
    takes an event from the posting through its JSON, the outbox column and the poller to the mirror, and shows where the two registries of assets differ.
  \<^item> Webhooks. The invariant of deliveries and claims, the fan-out of an event (\<open>Webhook_Theorems\<close>); a tick ends,
    delivers what is due when the secrets it needs decrypt and nothing otherwise, secrets at rest and their rotation
    (\<open>Webhook_Worker\<close>); \<open>VerifyAt\<close> decides exactly the signed messages within the tolerance, but for the timestamps whose
    difference to the clock saturates or that wrap as instants (\<open>Webhook_Signature\<close>).
  \<^item> Identity. One announcement per expired tenant under every interleaving of sweepers, typed rows, signups
    (\<open>Identity_States\<close>, \<open>Identity_Sweep\<close>, \<open>Identity_Theorems\<close>), secrets and slugs (\<open>Identity_Text\<close>), tokens from the key to
    the claims a service reads (\<open>Identity_Tokens\<close>).
  \<^item> HTTP. \<open>Http_Contract\<close> states the error contract and the authorization of a server as locales, which \<open>Ledger_Server\<close>,
    \<open>Recon_Server\<close>, \<open>Webhook_Server\<close> and \<open>Identity_Server\<close> interpret on the routes of the services; \<open>Http_Theorems\<close> has the
    properties seen by a client.
  \<^item> The whole. \<open>Tenant_Expiry\<close> states the contract of a purge, interprets it on the three services and follows an
    expiry from the outbox of identity to the last row; \<open>Deployment\<close> shows that a public sandbox fails closed.

  \<^bold>\<open>Bounds.\<close> A tick of the dispatcher claims batches until one is short; its fuel is the number of deliveries plus
  one, and \<open>Webhook_Worker\<close> proves that a tick that takes less than a minute ends before it is used up. Walking all
  pages of a listing takes one page per row and one more. The rejection sampling of secrets has no bound in the
  code: \<open>random_loop\<close> is a partial function, \<open>None\<close> when it never returns, and \<open>Identity_Text\<close> proves when it does. A
  request that never gets a reply for this reason is the outcome \<open>Diverged\<close>. All other recursions are structural.
\<close>

text \<open>
  \<^bold>\<open>Choices of the model.\<close> Enumerations are the string constants of the code. Timestamps are nanoseconds as
  integers; that PostgreSQL keeps microseconds is not modelled. Maps of metadata and details are association lists
  sorted by key, as the JSON encoder writes them. Strings are lists of bytes; \<open>slugify\<close> and the case mappings agree with
  Go's on ASCII, the only text for which they are claimed. Ties of an \<open>ORDER BY\<close> are broken by the order of
  insertion, the comparison of texts by a collation argument. A statement that reads rows before the transaction
  that changes them gets the earlier database as an argument of its own (\<open>dl\<close>, \<open>dr\<close>), so that races are covered; rows
  read for update are those of the transaction. The steps of the identity sweeper are separate transactions for the
  same reason. Columns the code never reads are left out. The purges check foreign keys on the final state.

  Arguments of the definitions stand for what is not in the repository, with documented behaviour as named
  hypotheses where a property needs it: UUID text and generation (\<open>uuid_text_law\<close>, \<open>uuid_v7_law\<close>), clocks and layouts of
  times, SHA-256, HMAC, AES-GCM, signing and verification of tokens (\<open>jwt_law\<close>), random bytes, JSON and multipart decoding,
  \<open>url.Parse\<close>, \<open>mail.ParseAddress\<close>, \<open>time.ParseDuration\<close>, the HTTP client, the broker. A request hash is a function of the
  values that go into it. HTTP paths are lists of segments as the multiplexer sees them after cleaning; an absent
  header or parameter is the empty string; a constant-time comparison is equality; a ping of the database is a
  truth value. The deliveries of a batch are recorded one after the other. The JSON of the events between the ledger and
  reconciliation is modelled as documents: their text is left to the package, the text of UUIDs and instants is a
  \<open>codec\<close> with its law, and a \<open>JSONB\<close> column returns a document with its members in any order. Elsewhere an envelope
  carries its payload as a value.

  \<^bold>\<open>Not modelled.\<close> Texts of errors and log lines, with the \<open>Logger\<close> middleware that only writes them; the tickers, goroutines
  and shutdown of the \<open>main\<close> functions, which only repeat steps modelled here; the migrator and telemetry, which are
  calls of libraries; the gateway, the console, the client SDKs and the deployment files, which are not Go code of the
  services. The expiry of a hold is stored and never enforced by the code, and so it is here.
\<close>

end
